(* ===== verification/Prelude.thy ===== *)
theory Prelude
  imports Main "HOL-Library.Word" "HOL-Library.Code_Target_Numeral"
begin

text \<open>
  Shared vocabulary of the development.  A Go function that returns \<open>(value, error)\<close> is a
  function into \<open>'e + 'a\<close>: \<open>Inl e\<close> is the early return with the error \<open>e\<close>, \<open>Inr v\<close> the
  normal return.  A function that only returns an error is a function into \<open>'e + unit\<close>.
  The combinators below are the control flow of such functions: \<open>bindR\<close> is
  \<open>v, err := f(); if err != nil { return err }\<close>, \<open>failIf\<close> is
  \<open>if c { return err }\<close>, \<open>checks\<close> is a sequence of such tests and \<open>foldR\<close> a
  \<open>for\<close> loop with an early return.  The collections \<open>result_simps\<close> and
  \<open>go_defs\<close> gather the rewrite rules the component proofs use.
\<close>

named_theorems result_simps \<open>rewrite rules for the result combinators\<close>
named_theorems go_defs \<open>definitions of small helpers of the Go sources\<close>

section \<open>Results with early returns\<close>

definition bindR :: "'e + 'a \<Rightarrow> ('a \<Rightarrow> 'e + 'b) \<Rightarrow> 'e + 'b" where
  "bindR m k = (case m of Inl e \<Rightarrow> Inl e | Inr a \<Rightarrow> k a)"

definition failIf :: "bool \<Rightarrow> 'e \<Rightarrow> 'e + unit" where
  "failIf c e = (if c then Inl e else Inr ())"

fun checks :: "('e + unit) list \<Rightarrow> 'e + unit" where
  "checks [] = Inr ()"
| "checks (c # cs) = (case c of Inl e \<Rightarrow> Inl e | Inr _ \<Rightarrow> checks cs)"

fun foldR :: "('a \<Rightarrow> 's \<Rightarrow> 'e + 's) \<Rightarrow> 'a list \<Rightarrow> 's \<Rightarrow> 'e + 's" where
  "foldR f [] s = Inr s"
| "foldR f (x # xs) s = (case f x s of Inl e \<Rightarrow> Inl e | Inr s' \<Rightarrow> foldR f xs s')"

definition mapErr :: "('e \<Rightarrow> 'f) \<Rightarrow> 'e + 'a \<Rightarrow> 'f + 'a" where
  "mapErr g m = (case m of Inl e \<Rightarrow> Inl (g e) | Inr a \<Rightarrow> Inr a)"

definition isOk :: "'e + 'a \<Rightarrow> bool" where
  "isOk m = (case m of Inl _ \<Rightarrow> False | Inr _ \<Rightarrow> True)"

lemma bindR_simps [simp]:
  "bindR (Inl e) k = Inl e" "bindR (Inr a) k = k a"
  by (simp_all add: bindR_def)

lemma bindR_assoc: "bindR (bindR m f) g = bindR m (\<lambda>x. bindR (f x) g)"
  by (cases m) simp_all

lemma bindR_eq_Inr [result_simps]: "bindR m k = Inr r \<longleftrightarrow> (\<exists>a. m = Inr a \<and> k a = Inr r)"
  by (cases m) auto

lemma bindR_eq_Inl [result_simps]:
  "bindR m k = Inl e \<longleftrightarrow> m = Inl e \<or> (\<exists>a. m = Inr a \<and> k a = Inl e)"
  by (cases m) auto

lemma failIf_eq_Inr [simp, result_simps]: "failIf c e = Inr u \<longleftrightarrow> \<not> c"
  by (simp add: failIf_def)

lemma failIf_eq_Inl [simp, result_simps]: "failIf c e = Inl e' \<longleftrightarrow> c \<and> e' = e"
  by (auto simp: failIf_def)

lemma failIf_simps [simp]: "failIf True e = Inl e" "failIf False e = Inr ()"
  by (simp_all add: failIf_def)

lemma bindR_failIf [simp]: "bindR (failIf c e) k = (if c then Inl e else k ())"
  by (simp add: failIf_def)

lemma checks_eq_Inr [simp, result_simps]:
  "checks cs = Inr u \<longleftrightarrow> (\<forall>c\<in>set cs. c = Inr ())"
  by (induction cs) (auto split: sum.splits)

lemma checks_head [simp]:
  "checks (Inl e # cs) = Inl e" "checks (Inr u # cs) = checks cs"
  by simp_all

lemma checks_Cons: "checks (c # cs) = bindR c (\<lambda>_. checks cs)"
  by (simp add: bindR_def)

declare checks.simps(2) [simp del]

lemma checks_InlD: "checks cs = Inl e \<Longrightarrow> Inl e \<in> set cs"
  by (induction cs) (auto simp: checks_Cons bindR_eq_Inl)

lemma checks_append: "checks (as @ bs) = bindR (checks as) (\<lambda>_. checks bs)"
  by (induction as) (simp_all add: checks_Cons bindR_assoc)

lemma isOk_simps [simp]: "isOk (Inl e) = False" "isOk (Inr a) = True"
  by (simp_all add: isOk_def)

lemma isOk_iff [result_simps]: "isOk m \<longleftrightarrow> (\<exists>a. m = Inr a)"
  by (cases m) auto

lemma not_isOk_iff [result_simps]: "\<not> isOk m \<longleftrightarrow> (\<exists>e. m = Inl e)"
  by (cases m) auto

lemma mapErr_simps [simp]: "mapErr g (Inl e) = Inl (g e)" "mapErr g (Inr a) = Inr a"
  by (simp_all add: mapErr_def)

lemma mapErr_eq_Inr [simp, result_simps]: "mapErr g m = Inr a \<longleftrightarrow> m = Inr a"
  by (cases m) auto

lemma mapErr_eq_Inl [result_simps]: "mapErr g m = Inl f \<longleftrightarrow> (\<exists>e. m = Inl e \<and> f = g e)"
  by (cases m) auto

text \<open>A loop keeps an invariant of its state, whichever iteration returns.\<close>

lemma foldR_invariant:
  assumes "foldR f xs s = Inr s'" and "P s"
    and "\<And>x s s'. x \<in> set xs \<Longrightarrow> P s \<Longrightarrow> f x s = Inr s' \<Longrightarrow> P s'"
  shows "P s'"
  using assms
proof (induction xs arbitrary: s)
  case Nil
  then show ?case by simp
next
  case (Cons x xs)
  from Cons.prems(1) obtain t where t: "f x s = Inr t" "foldR f xs t = Inr s'"
    by (auto split: sum.splits)
  from Cons.prems(2,3) t(1) have "P t" by (meson list.set_intros(1))
  with t(2) show ?case by (rule Cons.IH) (meson Cons.prems(3) list.set_intros(2))
qed

lemma foldR_append:
  "foldR f (xs @ ys) s = bindR (foldR f xs s) (\<lambda>t. foldR f ys t)"
  by (induction xs arbitrary: s) (auto split: sum.splits)

section \<open>Slices\<close>

text \<open>
  A Go slice is a list; where the code distinguishes the nil slice from an empty one the
  model keeps an option, with \<open>None\<close> the nil slice, and \<open>sl\<close> reads its elements (ranging
  over a nil slice or taking its length sees no element).
\<close>

type_synonym 'a slice = "'a list option"

definition sl :: "'a slice \<Rightarrow> 'a list" where
  "sl s = (case s of None \<Rightarrow> [] | Some xs \<Rightarrow> xs)"

lemma sl_simps [simp]: "sl None = []" "sl (Some xs) = xs"
  by (simp_all add: sl_def)

section \<open>Signed 64-bit arithmetic\<close>

text \<open>
  Go's \<open>int\<close>, \<open>int64\<close> and \<open>time.Duration\<close> are two's complement 64-bit integers.  Values
  that the code only compares are integers here; where it adds, the result is reduced.
\<close>

definition maxInt64 :: int where "maxInt64 = 9223372036854775807"
definition minInt64 :: int where "minInt64 = -9223372036854775808"

definition wrapInt64 :: "int \<Rightarrow> int" where
  "wrapInt64 n = (n + 9223372036854775808) mod 18446744073709551616 - 9223372036854775808"

definition isInt64 :: "int \<Rightarrow> bool" where
  "isInt64 n \<longleftrightarrow> minInt64 \<le> n \<and> n \<le> maxInt64"

lemma wrapInt64_id: "isInt64 n \<Longrightarrow> wrapInt64 n = n"
  by (simp add: wrapInt64_def isInt64_def minInt64_def maxInt64_def)

lemma isInt64_wrapInt64: "isInt64 (wrapInt64 n)"
proof -
  have "0 \<le> (n + 9223372036854775808) mod 18446744073709551616"
    and "(n + 9223372036854775808) mod 18446744073709551616 < 18446744073709551616"
    by simp_all
  then show ?thesis by (simp add: isInt64_def wrapInt64_def minInt64_def maxInt64_def)
qed

section \<open>Lists\<close>

text \<open>Go's duplicate tests through a map of seen keys: the loop accepts distinct lists only.\<close>

fun dupFree :: "'a list \<Rightarrow> 'a list \<Rightarrow> bool" where
  "dupFree seen [] = True"
| "dupFree seen (x # xs) = (x \<notin> set seen \<and> dupFree (x # seen) xs)"

lemma dupFree_iff: "dupFree seen xs \<longleftrightarrow> distinct xs \<and> set xs \<inter> set seen = {}"
  by (induction xs arbitrary: seen) auto

lemma dupFree_Nil_iff [simp]: "dupFree [] xs \<longleftrightarrow> distinct xs"
  by (simp add: dupFree_iff)

lemma take_append_drop_split: "n \<le> length xs \<Longrightarrow> xs = take n xs @ drop n xs \<and> length (take n xs) = n"
  by simp

lemma unique_split:
  "pre @ x # post = as @ y # bs \<Longrightarrow> x \<notin> set as \<Longrightarrow> x \<notin> set bs \<Longrightarrow> pre = as \<and> x = y \<and> post = bs"
proof (induction "as" arbitrary: pre)
  case Nil
  then show ?case by (cases pre) auto
next
  case (Cons a as)
  then show ?case by (cases pre) auto
qed

end
