(* ===== verification/Go_Strings.thy ===== *)
theory Go_Strings
  imports Prelude "HOL-Library.Sublist"
begin

text \<open>
  The part of Go's string library the sources use.  A Go string is its bytes: a
  \<open>string\<close> of Isabelle, each \<open>char\<close> one byte.  \<open>decodeRune\<close> is
  \<open>utf8.DecodeRuneInString\<close> (the rune and its width, \<open>(0xFFFD, 1)\<close> for an invalid
  sequence), \<open>runes\<close> is what \<open>range\<close> over a string yields, \<open>toLower\<close> and
  \<open>equalFold\<close> are \<open>strings.ToLower\<close> and \<open>strings.EqualFold\<close> over the case ranges of
  Unicode 14, \<open>splitOn\<close> is \<open>strings.Split\<close> with a one-byte separator.
\<close>

section \<open>Bytes and runes\<close>

definition byte :: "char \<Rightarrow> nat" where
  "byte c = of_char c"

definition runeError :: nat where
  "runeError = 65533"

definition isCont :: "char \<Rightarrow> bool" where
  "isCont c \<longleftrightarrow> 128 \<le> byte c \<and> byte c \<le> 191"

definition decodeRune :: "string \<Rightarrow> nat \<times> nat" where
  "decodeRune s = (case s of
      [] \<Rightarrow> (runeError, 0)
    | c0 # t \<Rightarrow>
       (let b0 = byte c0; bad = (runeError, 1) in
        if b0 < 128 then (b0, 1)
        else if 194 \<le> b0 \<and> b0 \<le> 223 then
          (case t of c1 # _ \<Rightarrow>
              if isCont c1 then ((b0 - 192) * 64 + (byte c1 - 128), 2) else bad
           | _ \<Rightarrow> bad)
        else if 224 \<le> b0 \<and> b0 \<le> 239 then
          (case t of c1 # c2 # _ \<Rightarrow>
              if (if b0 = 224 then 160 else 128) \<le> byte c1
                 \<and> byte c1 \<le> (if b0 = 237 then 159 else 191) \<and> isCont c2
              then ((b0 - 224) * 4096 + (byte c1 - 128) * 64 + (byte c2 - 128), 3) else bad
           | _ \<Rightarrow> bad)
        else if 240 \<le> b0 \<and> b0 \<le> 244 then
          (case t of c1 # c2 # c3 # _ \<Rightarrow>
              if (if b0 = 240 then 144 else 128) \<le> byte c1
                 \<and> byte c1 \<le> (if b0 = 244 then 143 else 191) \<and> isCont c2 \<and> isCont c3
              then ((b0 - 240) * 262144 + (byte c1 - 128) * 4096 + (byte c2 - 128) * 64
                    + (byte c3 - 128), 4) else bad
           | _ \<Rightarrow> bad)
        else bad))"

fun runes :: "string \<Rightarrow> nat list" where
  "runes [] = []"
| "runes (c # cs) = fst (decodeRune (c # cs)) # runes (drop (snd (decodeRune (c # cs)) - 1) cs)"

fun validString :: "string \<Rightarrow> bool" where
  "validString [] = True"
| "validString (c # cs) =
     (decodeRune (c # cs) \<noteq> (runeError, 1)
      \<and> validString (drop (snd (decodeRune (c # cs)) - 1) cs))"

definition encodeRune :: "nat \<Rightarrow> string" where
  "encodeRune r0 =
     (let r = (if (55296 \<le> r0 \<and> r0 \<le> 57343) \<or> 1114111 < r0 then runeError else r0) in
      if r < 128 then [char_of r]
      else if r < 2048 then [char_of (192 + r div 64), char_of (128 + r mod 64)]
      else if r < 65536 then
        [char_of (224 + r div 4096), char_of (128 + r div 64 mod 64), char_of (128 + r mod 64)]
      else
        [char_of (240 + r div 262144), char_of (128 + r div 4096 mod 64),
         char_of (128 + r div 64 mod 64), char_of (128 + r mod 64)])"

section \<open>Case mapping\<close>

text \<open>
  \<open>unicode.ToLower\<close> on non-ASCII runes, and the representative of a rune's
  \<open>unicode.SimpleFold\<close> orbit: entries \<open>(lo, hi, stride, delta)\<close>.
\<close>

definition lowerRanges :: "(int \<times> int \<times> int \<times> int) list" where
  "lowerRanges = [
    (192,214,1,32), (216,222,1,32), (256,302,2,1), (304,304,1,-199), (306,310,2,1), (313,327,2,1),
    (330,374,2,1), (376,376,1,-121), (377,381,2,1), (385,385,1,210), (386,388,2,1), (390,390,1,206),
    (391,391,1,1), (393,394,1,205), (395,395,1,1), (398,398,1,79), (399,399,1,202), (400,400,1,203),
    (401,401,1,1), (403,403,1,205), (404,404,1,207), (406,406,1,211), (407,407,1,209),
    (408,408,1,1), (412,412,1,211), (413,413,1,213), (415,415,1,214), (416,420,2,1),
    (422,422,1,218), (423,423,1,1), (425,425,1,218), (428,428,1,1), (430,430,1,218), (431,431,1,1),
    (433,434,1,217), (435,437,2,1), (439,439,1,219), (440,440,1,1), (444,444,1,1), (452,452,1,2),
    (453,453,1,1), (455,455,1,2), (456,456,1,1), (458,458,1,2), (459,475,2,1), (478,494,2,1),
    (497,497,1,2), (498,500,2,1), (502,502,1,-97), (503,503,1,-56), (504,542,2,1), (544,544,1,-130),
    (546,562,2,1), (570,570,1,10795), (571,571,1,1), (573,573,1,-163), (574,574,1,10792),
    (577,577,1,1), (579,579,1,-195), (580,580,1,69), (581,581,1,71), (582,590,2,1), (880,882,2,1),
    (886,886,1,1), (895,895,1,116), (902,902,1,38), (904,906,1,37), (908,908,1,64), (910,911,1,63),
    (913,929,1,32), (931,939,1,32), (975,975,1,8), (984,1006,2,1), (1012,1012,1,-60),
    (1015,1015,1,1), (1017,1017,1,-7), (1018,1018,1,1), (1021,1023,1,-130), (1024,1039,1,80),
    (1040,1071,1,32), (1120,1152,2,1), (1162,1214,2,1), (1216,1216,1,15), (1217,1229,2,1),
    (1232,1326,2,1), (1329,1366,1,48), (4256,4293,1,7264), (4295,4295,1,7264), (4301,4301,1,7264),
    (5024,5103,1,38864), (5104,5109,1,8), (7312,7354,1,-3008), (7357,7359,1,-3008), (7680,7828,2,1),
    (7838,7838,1,-7615), (7840,7934,2,1), (7944,7951,1,-8), (7960,7965,1,-8), (7976,7983,1,-8),
    (7992,7999,1,-8), (8008,8013,1,-8), (8025,8031,2,-8), (8040,8047,1,-8), (8072,8079,1,-8),
    (8088,8095,1,-8), (8104,8111,1,-8), (8120,8121,1,-8), (8122,8123,1,-74), (8124,8124,1,-9),
    (8136,8139,1,-86), (8140,8140,1,-9), (8152,8153,1,-8), (8154,8155,1,-100), (8168,8169,1,-8),
    (8170,8171,1,-112), (8172,8172,1,-7), (8184,8185,1,-128), (8186,8187,1,-126), (8188,8188,1,-9),
    (8486,8486,1,-7517), (8490,8490,1,-8383), (8491,8491,1,-8262), (8498,8498,1,28),
    (8544,8559,1,16), (8579,8579,1,1), (9398,9423,1,26), (11264,11311,1,48), (11360,11360,1,1),
    (11362,11362,1,-10743), (11363,11363,1,-3814), (11364,11364,1,-10727), (11367,11371,2,1),
    (11373,11373,1,-10780), (11374,11374,1,-10749), (11375,11375,1,-10783), (11376,11376,1,-10782),
    (11378,11378,1,1), (11381,11381,1,1), (11390,11391,1,-10815), (11392,11490,2,1),
    (11499,11501,2,1), (11506,11506,1,1), (42560,42604,2,1), (42624,42650,2,1), (42786,42798,2,1),
    (42802,42862,2,1), (42873,42875,2,1), (42877,42877,1,-35332), (42878,42886,2,1),
    (42891,42891,1,1), (42893,42893,1,-42280), (42896,42898,2,1), (42902,42920,2,1),
    (42922,42922,1,-42308), (42923,42923,1,-42319), (42924,42924,1,-42315), (42925,42925,1,-42305),
    (42926,42926,1,-42308), (42928,42928,1,-42258), (42929,42929,1,-42282), (42930,42930,1,-42261),
    (42931,42931,1,928), (42932,42946,2,1), (42948,42948,1,-48), (42949,42949,1,-42307),
    (42950,42950,1,-35384), (42951,42953,2,1), (42960,42960,1,1), (42966,42968,2,1),
    (42997,42997,1,1), (65313,65338,1,32), (66560,66599,1,40), (66736,66771,1,40),
    (66928,66938,1,39), (66940,66954,1,39), (66956,66962,1,39), (66964,66965,1,39),
    (68736,68786,1,64), (71840,71871,1,32), (93760,93791,1,32), (125184,125217,1,34)]"

definition foldRanges :: "(int \<times> int \<times> int \<times> int) list" where
  "foldRanges = [
    (224,246,1,-32), (248,254,1,-32), (257,303,2,-1), (307,311,2,-1), (314,328,2,-1),
    (331,375,2,-1), (376,376,1,-121), (378,382,2,-1), (383,383,1,-300), (387,389,2,-1),
    (392,392,1,-1), (396,396,1,-1), (402,402,1,-1), (409,409,1,-1), (417,421,2,-1), (424,424,1,-1),
    (429,429,1,-1), (432,432,1,-1), (436,438,2,-1), (441,441,1,-1), (445,445,1,-1), (453,453,1,-1),
    (454,454,1,-2), (456,456,1,-1), (457,457,1,-2), (459,459,1,-1), (460,460,1,-2), (462,476,2,-1),
    (477,477,1,-79), (479,495,2,-1), (498,498,1,-1), (499,499,1,-2), (501,501,1,-1),
    (502,502,1,-97), (503,503,1,-56), (505,543,2,-1), (544,544,1,-130), (547,563,2,-1),
    (572,572,1,-1), (573,573,1,-163), (578,578,1,-1), (579,579,1,-195), (583,591,2,-1),
    (595,595,1,-210), (596,596,1,-206), (598,599,1,-205), (601,601,1,-202), (603,603,1,-203),
    (608,608,1,-205), (611,611,1,-207), (616,616,1,-209), (617,617,1,-211), (623,623,1,-211),
    (626,626,1,-213), (629,629,1,-214), (640,640,1,-218), (643,643,1,-218), (648,648,1,-218),
    (649,649,1,-69), (650,651,1,-217), (652,652,1,-71), (658,658,1,-219), (881,883,2,-1),
    (887,887,1,-1), (921,921,1,-84), (924,924,1,-743), (940,940,1,-38), (941,943,1,-37),
    (945,952,1,-32), (953,953,1,-116), (954,955,1,-32), (956,956,1,-775), (957,961,1,-32),
    (962,962,1,-31), (963,971,1,-32), (972,972,1,-64), (973,974,1,-63), (976,976,1,-62),
    (977,977,1,-57), (981,981,1,-47), (982,982,1,-54), (983,983,1,-8), (985,1007,2,-1),
    (1008,1008,1,-86), (1009,1009,1,-80), (1011,1011,1,-116), (1012,1012,1,-92), (1013,1013,1,-96),
    (1016,1016,1,-1), (1017,1017,1,-7), (1019,1019,1,-1), (1021,1023,1,-130), (1072,1103,1,-32),
    (1104,1119,1,-80), (1121,1153,2,-1), (1163,1215,2,-1), (1218,1230,2,-1), (1231,1231,1,-15),
    (1233,1327,2,-1), (1377,1414,1,-48), (5112,5117,1,-8), (7296,7296,1,-6254), (7297,7297,1,-6253),
    (7298,7298,1,-6244), (7299,7300,1,-6242), (7301,7301,1,-6243), (7302,7302,1,-6236),
    (7303,7303,1,-6181), (7312,7354,1,-3008), (7357,7359,1,-3008), (7681,7829,2,-1),
    (7835,7835,1,-59), (7838,7838,1,-7615), (7841,7935,2,-1), (7944,7951,1,-8), (7960,7965,1,-8),
    (7976,7983,1,-8), (7992,7999,1,-8), (8008,8013,1,-8), (8025,8031,2,-8), (8040,8047,1,-8),
    (8072,8079,1,-8), (8088,8095,1,-8), (8104,8111,1,-8), (8120,8121,1,-8), (8122,8123,1,-74),
    (8124,8124,1,-9), (8126,8126,1,-7289), (8136,8139,1,-86), (8140,8140,1,-9), (8152,8153,1,-8),
    (8154,8155,1,-100), (8168,8169,1,-8), (8170,8171,1,-112), (8172,8172,1,-7), (8184,8185,1,-128),
    (8186,8187,1,-126), (8188,8188,1,-9), (8486,8486,1,-7549), (8490,8490,1,-8415),
    (8491,8491,1,-8294), (8526,8526,1,-28), (8560,8575,1,-16), (8580,8580,1,-1), (9424,9449,1,-26),
    (11312,11359,1,-48), (11361,11361,1,-1), (11362,11362,1,-10743), (11363,11363,1,-3814),
    (11364,11364,1,-10727), (11365,11365,1,-10795), (11366,11366,1,-10792), (11368,11372,2,-1),
    (11373,11373,1,-10780), (11374,11374,1,-10749), (11375,11375,1,-10783), (11376,11376,1,-10782),
    (11379,11379,1,-1), (11382,11382,1,-1), (11390,11391,1,-10815), (11393,11491,2,-1),
    (11500,11502,2,-1), (11507,11507,1,-1), (11520,11557,1,-7264), (11559,11559,1,-7264),
    (11565,11565,1,-7264), (42561,42569,2,-1), (42570,42570,1,-35266), (42571,42571,1,-35267),
    (42573,42605,2,-1), (42625,42651,2,-1), (42787,42799,2,-1), (42803,42863,2,-1),
    (42874,42876,2,-1), (42877,42877,1,-35332), (42879,42887,2,-1), (42892,42892,1,-1),
    (42893,42893,1,-42280), (42897,42899,2,-1), (42903,42921,2,-1), (42922,42922,1,-42308),
    (42923,42923,1,-42319), (42924,42924,1,-42315), (42925,42925,1,-42305), (42926,42926,1,-42308),
    (42928,42928,1,-42258), (42929,42929,1,-42282), (42930,42930,1,-42261), (42933,42947,2,-1),
    (42948,42948,1,-48), (42949,42949,1,-42307), (42950,42950,1,-35384), (42952,42954,2,-1),
    (42961,42961,1,-1), (42967,42969,2,-1), (42998,42998,1,-1), (43859,43859,1,-928),
    (43888,43967,1,-38864), (65345,65370,1,-32), (66600,66639,1,-40), (66776,66811,1,-40),
    (66967,66977,1,-39), (66979,66993,1,-39), (66995,67001,1,-39), (67003,67004,1,-39),
    (68800,68850,1,-64), (71872,71903,1,-32), (93792,93823,1,-32), (125218,125251,1,-34)]"

fun mapRange :: "(int \<times> int \<times> int \<times> int) list \<Rightarrow> int \<Rightarrow> int" where
  "mapRange [] r = r"
| "mapRange ((lo, hi, stride, delta) # rest) r =
     (if lo \<le> r \<and> r \<le> hi \<and> (r - lo) mod stride = 0 then r + delta else mapRange rest r)"

definition lowerRune :: "nat \<Rightarrow> nat" where
  "lowerRune r =
     (if r < 128 then (if 65 \<le> r \<and> r \<le> 90 then r + 32 else r)
      else nat (mapRange lowerRanges (int r)))"

definition foldRune :: "nat \<Rightarrow> nat" where
  "foldRune r =
     (if r < 128 then (if 97 \<le> r \<and> r \<le> 122 then r - 32 else r)
      else nat (mapRange foldRanges (int r)))"

definition lowerByte :: "char \<Rightarrow> char" where
  "lowerByte c = (if 65 \<le> byte c \<and> byte c \<le> 90 then char_of (byte c + 32) else c)"

definition isASCII :: "string \<Rightarrow> bool" where
  "isASCII s = list_all (\<lambda>c. byte c < 128) s"

definition toLower :: "string \<Rightarrow> string" where
  "toLower s =
     (if isASCII s then map lowerByte s
      else concat (map (\<lambda>r. encodeRune (lowerRune r)) (runes s)))"

definition equalFold :: "string \<Rightarrow> string \<Rightarrow> bool" where
  "equalFold s t \<longleftrightarrow> map foldRune (runes s) = map foldRune (runes t)"

section \<open>Searching and splitting\<close>

definition hasPrefix :: "string \<Rightarrow> string \<Rightarrow> bool" where
  "hasPrefix s p \<longleftrightarrow> take (length p) s = p"

definition hasSuffix :: "string \<Rightarrow> string \<Rightarrow> bool" where
  "hasSuffix s p \<longleftrightarrow> take (length p) (rev s) = rev p"

definition trimPrefix :: "string \<Rightarrow> string \<Rightarrow> string" where
  "trimPrefix s p = (if hasPrefix s p then drop (length p) s else s)"

text \<open>\<open>strings.ContainsAny\<close> and \<open>strings.ContainsRune\<close> for ASCII characters.\<close>

definition containsAny :: "string \<Rightarrow> string \<Rightarrow> bool" where
  "containsAny s cs \<longleftrightarrow> list_ex (\<lambda>c. c \<in> set cs) s"

fun splitOn :: "char \<Rightarrow> string \<Rightarrow> string list" where
  "splitOn sep [] = [[]]"
| "splitOn sep (c # cs) =
     (if c = sep then [] # splitOn sep cs
      else case splitOn sep cs of [] \<Rightarrow> [[c]] | p # ps \<Rightarrow> (c # p) # ps)"

fun joinWith :: "string \<Rightarrow> string list \<Rightarrow> string" where
  "joinWith sep [] = []"
| "joinWith sep [p] = p"
| "joinWith sep (p # q # ps) = p @ sep @ joinWith sep (q # ps)"

definition isSpaceRune :: "nat \<Rightarrow> bool" where
  "isSpaceRune r \<longleftrightarrow> (9 \<le> r \<and> r \<le> 13) \<or> r = 32 \<or> r = 133 \<or> r = 160 \<or> r = 5760
     \<or> (8192 \<le> r \<and> r \<le> 8202) \<or> r = 8232 \<or> r = 8233 \<or> r = 8239 \<or> r = 8287 \<or> r = 12288"

text \<open>\<open>strings.TrimSpace(s) == ""\<close>.\<close>

definition allSpace :: "string \<Rightarrow> bool" where
  "allSpace s \<longleftrightarrow> list_all isSpaceRune (runes s)"

definition containsControlCharacter :: "string \<Rightarrow> bool" where
  "containsControlCharacter s \<longleftrightarrow> list_ex (\<lambda>r. r < 32 \<or> r = 127) (runes s)"

section \<open>Character classes\<close>

definition inRange :: "char \<Rightarrow> char \<Rightarrow> char \<Rightarrow> bool" where
  "inRange lo hi c \<longleftrightarrow> byte lo \<le> byte c \<and> byte c \<le> byte hi"

definition isDigit :: "char \<Rightarrow> bool" where "isDigit = inRange CHR ''0'' CHR ''9''"
definition isLowerLetter :: "char \<Rightarrow> bool" where "isLowerLetter = inRange CHR ''a'' CHR ''z''"
definition isUpperLetter :: "char \<Rightarrow> bool" where "isUpperLetter = inRange CHR ''A'' CHR ''Z''"

definition isASCIILetter :: "char \<Rightarrow> bool" where
  "isASCIILetter c \<longleftrightarrow> isUpperLetter c \<or> isLowerLetter c"

definition isLowerHexChar :: "char \<Rightarrow> bool" where
  "isLowerHexChar c \<longleftrightarrow> isDigit c \<or> inRange CHR ''a'' CHR ''f'' c"

text \<open>The test "exactly \<open>n\<close> lower-case hexadecimal digits" that several packages repeat.\<close>

definition isLowerHex :: "nat \<Rightarrow> string \<Rightarrow> bool" where
  "isLowerHex n s \<longleftrightarrow> length s = n \<and> list_all isLowerHexChar s"

text \<open>The regular expression \<open>^[first][rest]{0,n}$\<close> over ASCII classes.\<close>

definition matchHeadTail :: "(char \<Rightarrow> bool) \<Rightarrow> (char \<Rightarrow> bool) \<Rightarrow> nat \<Rightarrow> string \<Rightarrow> bool" where
  "matchHeadTail first rest n s \<longleftrightarrow>
     (case s of [] \<Rightarrow> False | c # cs \<Rightarrow> first c \<and> length cs \<le> n \<and> list_all rest cs)"

text \<open>\<open>^[a-z0-9][a-z0-9._-]{0,63}$\<close>, the identifier pattern of several packages.\<close>

definition identifierPattern :: "string \<Rightarrow> bool" where
  "identifierPattern =
     matchHeadTail (\<lambda>c. isLowerLetter c \<or> isDigit c)
       (\<lambda>c. isLowerLetter c \<or> isDigit c \<or> c \<in> set ''._-'') 63"

section \<open>Facts about runes\<close>

lemma byte_less [simp]: "byte c < 256"
  by (simp add: byte_def)

lemma byte_inject [simp]: "byte a = byte b \<longleftrightarrow> a = b"
  by (simp add: byte_def)

lemma char_of_byte [simp]: "char_of (byte c) = c"
  by (simp add: byte_def)

lemma byte_Char [simp]:
  "byte (Char b0 b1 b2 b3 b4 b5 b6 b7) = horner_sum of_bool 2 [b0, b1, b2, b3, b4, b5, b6, b7]"
  by (simp add: byte_def)

lemma byte_char_of: "n < 256 \<Longrightarrow> byte (char_of n) = n"
  by (simp add: byte_def)

lemma decodeRune_ascii: "byte c < 128 \<Longrightarrow> decodeRune (c # cs) = (byte c, 1)"
  by (simp add: decodeRune_def)

text \<open>
  Decoding at a non-ASCII byte either fails with width one, or consumes one to three
  continuation bytes and yields a rune above the ASCII range.
\<close>

lemma decodeRune_high_cases:
  assumes "\<not> byte c < 128"
  shows "decodeRune (c # cs) = (runeError, 1)
    \<or> (\<exists>r c1 t. cs = c1 # t \<and> 128 \<le> byte c1 \<and> 128 \<le> r \<and> decodeRune (c # cs) = (r, 2))
    \<or> (\<exists>r c1 c2 t. cs = c1 # c2 # t \<and> 128 \<le> byte c1 \<and> 128 \<le> byte c2 \<and> 128 \<le> r
        \<and> decodeRune (c # cs) = (r, 3))
    \<or> (\<exists>r c1 c2 c3 t. cs = c1 # c2 # c3 # t \<and> 128 \<le> byte c1 \<and> 128 \<le> byte c2
        \<and> 128 \<le> byte c3 \<and> 128 \<le> r \<and> decodeRune (c # cs) = (r, 4))"
proof -
  consider "194 \<le> byte c" "byte c \<le> 223" | "224 \<le> byte c" "byte c \<le> 239"
    | "240 \<le> byte c" "byte c \<le> 244" | "byte c < 194 \<or> 244 < byte c"
    by linarith
  then show ?thesis
  proof cases
    case 1
    show ?thesis
    proof (cases cs)
      case (Cons c1 t)
      have "128 \<le> (byte c - 192) * 64" using 1 by simp
      then have "128 \<le> (byte c - 192) * 64 + byte c1 - 128" if "128 \<le> byte c1" using that by linarith
      with Cons 1 show ?thesis by (simp add: decodeRune_def isCont_def)
    qed (use 1 in \<open>simp add: decodeRune_def\<close>)
  next
    case 2
    show ?thesis
    proof (cases cs)
      case (Cons c1 t)
      with 2 show ?thesis
        by (cases t) (auto simp: decodeRune_def isCont_def Let_def)
    qed (use 2 in \<open>simp add: decodeRune_def\<close>)
  next
    case 3
    show ?thesis
    proof (cases cs)
      case (Cons c1 t)
      note c1 = this
      show ?thesis
      proof (cases t)
        case (Cons c2 u)
        with 3 c1 show ?thesis
          by (cases u) (auto simp: decodeRune_def isCont_def Let_def)
      qed (use 3 c1 in \<open>simp add: decodeRune_def\<close>)
    qed (use 3 in \<open>simp add: decodeRune_def\<close>)
  next
    case 4
    with assms show ?thesis by (auto simp: decodeRune_def Let_def)
  qed
qed

lemma decodeRune_high:
  assumes "\<not> byte c < 128"
  shows "128 \<le> fst (decodeRune (c # cs))"
    and "list_all (\<lambda>d. 128 \<le> byte d) (take (snd (decodeRune (c # cs)) - 1) cs)"
    and "snd (decodeRune (c # cs)) - 1 \<le> length cs"
  using decodeRune_high_cases [OF assms, of cs] by (auto simp: runeError_def)

lemma decodeRune_width: "1 \<le> snd (decodeRune (c # cs))"
  by (auto simp: decodeRune_def Let_def split: list.splits)

text \<open>An ASCII byte of a string is always a rune of its own, and nothing else is that rune.\<close>

lemma ascii_in_runes: "k < 128 \<Longrightarrow> k \<in> set (runes s) \<longleftrightarrow> k \<in> byte ` set s"
proof (induction s rule: runes.induct)
  case 1
  then show ?case by simp
next
  case (2 c cs)
  show ?case
  proof (cases "byte c < 128")
    case True
    with 2 show ?thesis by (auto simp: decodeRune_ascii)
  next
    case False
    let ?n = "snd (decodeRune (c # cs)) - 1"
    have "k \<notin> byte ` set (take ?n cs)"
      using decodeRune_high(2) [OF False, of cs] \<open>k < 128\<close> by (auto simp: list_all_iff)
    moreover have "set cs = set (take ?n cs) \<union> set (drop ?n cs)"
      by (metis append_take_drop_id set_append)
    moreover have "k \<noteq> byte c" and "k \<noteq> fst (decodeRune (c # cs))"
      using False decodeRune_high(1) [OF False, of cs] \<open>k < 128\<close> by auto
    ultimately show ?thesis using 2 by auto
  qed
qed

lemma containsControlCharacter_bytes:
  "containsControlCharacter s \<longleftrightarrow> (\<exists>c\<in>set s. byte c < 32 \<or> byte c = 127)"
proof -
  have eq: "r < 32 \<or> r = 127 \<Longrightarrow> r \<in> set (runes s) \<longleftrightarrow> r \<in> byte ` set s" for r
    by (rule ascii_in_runes) auto
  have "containsControlCharacter s \<longleftrightarrow> (\<exists>r. (r < 32 \<or> r = 127) \<and> r \<in> set (runes s))"
    unfolding containsControlCharacter_def list_ex_iff by (simp only: Bex_def conj_commute)
  also have "\<dots> \<longleftrightarrow> (\<exists>r. (r < 32 \<or> r = 127) \<and> r \<in> byte ` set s)"
    by (simp only: eq cong: conj_cong)
  finally show ?thesis by auto
qed

lemma decodeRune_append_ascii:
  "byte d < 128 \<Longrightarrow> decodeRune (c # cs @ d # ds) = decodeRune (c # cs)"
  by (auto simp: decodeRune_def isCont_def Let_def split: list.splits)

lemma runes_append_ascii:
  "byte d < 128 \<Longrightarrow> runes (s @ d # ds) = runes s @ byte d # runes ds"
proof (induction s rule: runes.induct)
  case 1
  then show ?case by (simp add: decodeRune_ascii)
next
  case (2 c cs)
  let ?n = "snd (decodeRune (c # cs)) - 1"
  have "?n \<le> length cs"
    using decodeRune_high(3) [of c cs] decodeRune_ascii [of c cs] by fastforce
  with 2 show ?case by (simp add: decodeRune_append_ascii)
qed

lemma runes_append:
  "isASCII s \<Longrightarrow> runes (s @ t) = map byte s @ runes t"
  by (induction s) (auto simp: isASCII_def decodeRune_ascii)

lemma runes_ascii: "isASCII s \<Longrightarrow> runes s = map byte s"
  using runes_append [of s "[]"] by simp

lemma isASCII_simps [simp]:
  "isASCII []" "isASCII (c # s) \<longleftrightarrow> byte c < 128 \<and> isASCII s"
  "isASCII (s @ t) \<longleftrightarrow> isASCII s \<and> isASCII t"
  by (simp_all add: isASCII_def)

lemma validString_ascii: "isASCII s \<Longrightarrow> validString s"
  by (induction s) (auto simp: decodeRune_ascii runeError_def)

section \<open>Facts about case mapping\<close>

lemma encode_lower_ascii: "byte c < 128 \<Longrightarrow> encodeRune (lowerRune (byte c)) = [lowerByte c]"
  by (auto simp: encodeRune_def lowerRune_def lowerByte_def Let_def)

lemma toLower_runes: "toLower s = concat (map (\<lambda>r. encodeRune (lowerRune r)) (runes s))"
proof (cases "isASCII s")
  case True
  have "concat (map (\<lambda>r. encodeRune (lowerRune r)) (map byte s)) = map lowerByte s"
    using True by (induction s) (auto simp: encode_lower_ascii)
  with True show ?thesis by (simp add: toLower_def runes_ascii)
next
  case False
  then show ?thesis by (simp add: toLower_def)
qed

lemma toLower_append_ascii:
  "byte d < 128 \<Longrightarrow> toLower (s @ d # t) = toLower s @ lowerByte d # toLower t"
  by (simp add: toLower_runes runes_append_ascii encode_lower_ascii)

lemma equalFold_refl [simp]: "equalFold s s"
  by (simp add: equalFold_def)

lemma equalFold_sym: "equalFold s t \<Longrightarrow> equalFold t s"
  by (simp add: equalFold_def)

lemma equalFold_trans: "equalFold s t \<Longrightarrow> equalFold t u \<Longrightarrow> equalFold s u"
  by (simp add: equalFold_def)

section \<open>Facts about splitting\<close>

lemma splitOn_nonempty [simp]: "splitOn sep s \<noteq> []"
  by (induction s) (auto split: list.splits)

lemma joinWith_Cons: "ps \<noteq> [] \<Longrightarrow> joinWith sep (p # ps) = p @ sep @ joinWith sep ps"
  by (cases ps) auto

lemma joinWith_splitOn: "joinWith [sep] (splitOn sep s) = s"
proof (induction s)
  case Nil
  then show ?case by simp
next
  case (Cons c s)
  obtain p ps where p: "splitOn sep s = p # ps"
    by (cases "splitOn sep s") auto
  show ?case
  proof (cases "c = sep")
    case True
    with Cons.IH show ?thesis by (simp add: joinWith_Cons)
  next
    case False
    with Cons.IH p show ?thesis by (cases ps) auto
  qed
qed

lemma splitOn_no_sep: "p \<in> set (splitOn sep s) \<Longrightarrow> sep \<notin> set p"
proof (induction s arbitrary: p)
  case Nil
  then show ?case by simp
next
  case (Cons c s)
  then show ?case by (auto split: if_splits list.splits)
qed

lemma splitOn_chars: "p \<in> set (splitOn sep s) \<Longrightarrow> set p \<subseteq> set s"
proof (induction s arbitrary: p)
  case Nil
  then show ?case by simp
next
  case (Cons c s)
  then show ?case by (fastforce split: if_splits list.splits)
qed

lemma splitOn_single: "sep \<notin> set s \<Longrightarrow> splitOn sep s = [s]"
  by (induction s) auto

lemma splitOn_append_sep: "splitOn sep (s @ sep # t) = splitOn sep s @ splitOn sep t"
  by (induction s) (auto split: list.splits)

lemma splitOn_joinWith:
  assumes "ps \<noteq> []" and "\<And>p. p \<in> set ps \<Longrightarrow> sep \<notin> set p"
  shows "splitOn sep (joinWith [sep] ps) = ps"
  using assms
proof (induction ps)
  case Nil
  then show ?case by simp
next
  case (Cons p ps)
  show ?case
  proof (cases ps)
    case Nil
    with Cons.prems show ?thesis by (simp add: splitOn_single)
  next
    case (Cons q qs)
    with Cons.IH Cons.prems have "splitOn sep (joinWith [sep] ps) = ps" by simp
    moreover have "splitOn sep p = [p]" using Cons.prems by (simp add: splitOn_single)
    ultimately show ?thesis using Cons by (simp add: splitOn_append_sep)
  qed
qed

section \<open>Facts about prefixes and identifiers\<close>

lemma hasPrefix_iff: "hasPrefix s p \<longleftrightarrow> (\<exists>t. s = p @ t)"
  by (auto simp: hasPrefix_def) (metis append_take_drop_id)

lemma hasPrefix_prefix: "hasPrefix s p \<longleftrightarrow> prefix p s"
  by (simp add: hasPrefix_iff prefix_def)

lemma hasSuffix_iff: "hasSuffix s p \<longleftrightarrow> (\<exists>t. s = t @ p)"
proof
  assume "hasSuffix s p"
  then have "rev s = rev p @ drop (length p) (rev s)"
    by (metis append_take_drop_id hasSuffix_def)
  then have "s = rev (drop (length p) (rev s)) @ p" by (metis rev_append rev_rev_ident)
  then show "\<exists>t. s = t @ p" by blast
qed (auto simp: hasSuffix_def)

lemma isLowerHexChar_ascii: "isLowerHexChar c \<Longrightarrow> byte c < 128"
  by (auto simp: isLowerHexChar_def isDigit_def inRange_def byte_def)

lemma identifierPattern_length: "identifierPattern s \<Longrightarrow> 1 \<le> length s \<and> length s \<le> 64"
  by (auto simp: identifierPattern_def matchHeadTail_def split: list.splits)

lemma identifierPattern_chars:
  "identifierPattern s \<Longrightarrow> c \<in> set s \<Longrightarrow> isLowerLetter c \<or> isDigit c \<or> c \<in> set ''._-''"
  by (auto simp: identifierPattern_def matchHeadTail_def list_all_iff split: list.splits)

lemma identifierPattern_no_nul: "identifierPattern s \<Longrightarrow> CHR 0x00 \<notin> set s"
  using identifierPattern_chars [of s "CHR 0x00"]
  by (auto simp: isLowerLetter_def isDigit_def inRange_def byte_def)

end
