(* ===== verification/Go_Time.thy ===== *)
theory Go_Time
  imports Go_Strings
begin

text \<open>
  Go's \<open>time\<close> package as the sources use it.  An instant is the number of nanoseconds since
  1970-01-01T00:00:00Z; \<open>formatRFC3339Nano\<close> is \<open>t.UTC().Format(time.RFC3339Nano)\<close> and
  \<open>parseRFC3339Nano\<close> is \<open>time.Parse(time.RFC3339Nano, s)\<close> with the leniencies of the
  library (one-digit hours, a comma for the decimal point, any number of fraction digits, zone
  offsets).  \<open>subTime\<close> saturates at the ends of \<open>time.Duration\<close> and \<open>milliseconds\<close>
  truncates towards zero.  The main fact is the round trip \<open>parse_format\<close> for the years 0 to
  9999.
\<close>

type_synonym instant = int
type_synonym duration = int

section \<open>Calendar\<close>

definition isLeap :: "int \<Rightarrow> bool" where
  "isLeap y \<longleftrightarrow> 4 dvd y \<and> (\<not> 100 dvd y \<or> 400 dvd y)"

text \<open>Days from 0001-01-01 to the first day of a year (proleptic Gregorian calendar).\<close>

definition daysBeforeYear :: "int \<Rightarrow> int" where
  "daysBeforeYear y = 365 * (y - 1) + (y - 1) div 4 - (y - 1) div 100 + (y - 1) div 400"

definition monthLengths :: "bool \<Rightarrow> int list" where
  "monthLengths leap = [31, if leap then 29 else 28, 31, 30, 31, 30, 31, 31, 30, 31, 30, 31]"

definition daysIn :: "int \<Rightarrow> int \<Rightarrow> int" where
  "daysIn m y = monthLengths (isLeap y) ! nat (m - 1)"

definition yearOfDay :: "int \<Rightarrow> int" where
  "yearOfDay n =
     (let y = n * 400 div 146097 + 1 in if daysBeforeYear (y + 1) \<le> n then y + 1 else y)"

fun monthOf :: "int list \<Rightarrow> int \<Rightarrow> int \<Rightarrow> int \<times> int" where
  "monthOf [] m k = (m, k + 1)"
| "monthOf (l # ls) m k = (if k < l then (m, k + 1) else monthOf ls (m + 1) (k - l))"

definition civilOfDay :: "int \<Rightarrow> int \<times> int \<times> int" where
  "civilOfDay n =
     (let y = yearOfDay n in
      (y, monthOf (monthLengths (isLeap y)) 1 (n - daysBeforeYear y)))"

definition dayOfCivil :: "int \<Rightarrow> int \<Rightarrow> int \<Rightarrow> int" where
  "dayOfCivil y m d =
     daysBeforeYear y + sum_list (take (nat (m - 1)) (monthLengths (isLeap y))) + d - 1"

definition epochDay :: int where "epochDay = 719162"
definition nanosPerSecond :: int where "nanosPerSecond = 1000000000"

definition instantOf :: "int \<Rightarrow> int \<Rightarrow> int \<Rightarrow> int \<Rightarrow> int \<Rightarrow> int \<Rightarrow> int \<Rightarrow> instant" where
  "instantOf y m d hh mm ss ns =
     ((dayOfCivil y m d - epochDay) * 86400 + hh * 3600 + mm * 60 + ss) * nanosPerSecond + ns"

definition yearOf :: "instant \<Rightarrow> int" where
  "yearOf t = yearOfDay (t div nanosPerSecond div 86400 + epochDay)"

section \<open>Formatting\<close>

definition digit :: "int \<Rightarrow> char" where
  "digit n = char_of (48 + nat n)"

fun decimal :: "nat \<Rightarrow> string" where
  "decimal n = (if n < 10 then [digit (int n)] else decimal (n div 10) @ [digit (int (n mod 10))])"

declare decimal.simps [simp del]

definition padZeros :: "nat \<Rightarrow> string \<Rightarrow> string" where
  "padZeros w s = replicate (w - length s) CHR ''0'' @ s"

definition appendInt :: "int \<Rightarrow> nat \<Rightarrow> string" where
  "appendInt n w = (if n < 0 then ''-'' else []) @ padZeros w (decimal (nat \<bar>n\<bar>))"

definition fractionOf :: "int \<Rightarrow> string" where
  "fractionOf ns =
     (if ns = 0 then []
      else CHR ''.'' # rev (dropWhile (\<lambda>c. c = CHR ''0'') (rev (padZeros 9 (decimal (nat ns))))))"

definition formatRFC3339Nano :: "instant \<Rightarrow> string" where
  "formatRFC3339Nano t =
     (let secs = t div nanosPerSecond; ns = t mod nanosPerSecond; sod = secs mod 86400 in
      case civilOfDay (secs div 86400 + epochDay) of (y, m, d) \<Rightarrow>
        appendInt y 4 @ CHR ''-'' # appendInt m 2 @ CHR ''-'' # appendInt d 2
        @ CHR ''T'' # appendInt (sod div 3600) 2 @ CHR '':'' # appendInt (sod mod 3600 div 60) 2
        @ CHR '':'' # appendInt (sod mod 60) 2 @ fractionOf ns @ ''Z'')"

section \<open>Parsing\<close>

definition digitVal :: "char \<Rightarrow> int" where
  "digitVal c = int (byte c) - 48"

definition digitsVal :: "string \<Rightarrow> int" where
  "digitsVal s = foldl (\<lambda>acc c. acc * 10 + digitVal c) 0 s"

definition getnum :: "bool \<Rightarrow> string \<Rightarrow> (int \<times> string) option" where
  "getnum fixed s = (case s of
      [] \<Rightarrow> None
    | a # t \<Rightarrow>
       (if \<not> isDigit a then None
        else case t of
            b # u \<Rightarrow> if isDigit b then Some (digitVal a * 10 + digitVal b, u)
                     else if fixed then None else Some (digitVal a, t)
          | [] \<Rightarrow> if fixed then None else Some (digitVal a, [])))"

definition skipChar :: "char \<Rightarrow> string \<Rightarrow> string option" where
  "skipChar c s = (case s of [] \<Rightarrow> None | a # t \<Rightarrow> if a = c then Some t else None)"

definition parseYear :: "string \<Rightarrow> (int \<times> string) option" where
  "parseYear s =
     (if length s < 4 \<or> \<not> list_all isDigit (take 4 s) then None
      else Some (digitsVal (take 4 s), drop 4 s))"

definition parseFraction :: "string \<Rightarrow> int \<times> string" where
  "parseFraction s = (case s of
      p # c # t \<Rightarrow>
        if (p = CHR ''.'' \<or> p = CHR '','') \<and> isDigit c then
          (let ds = takeWhile isDigit (c # t); kept = take 9 ds
           in (digitsVal kept * 10 ^ (9 - length kept), dropWhile isDigit (c # t)))
        else (0, s)
    | _ \<Rightarrow> (0, s))"

text \<open>The zone: the offset in seconds east of UTC.\<close>

definition parseZone :: "string \<Rightarrow> (int \<times> string) option" where
  "parseZone s = (case s of
      [] \<Rightarrow> None
    | z # t \<Rightarrow>
       (if z = CHR ''Z'' then Some (0, t)
        else if length s < 6 \<or> s ! 3 \<noteq> CHR '':'' then None
        else case (getnum True (take 2 t), getnum True (take 2 (drop 3 t))) of
            (Some (hr, _), Some (mm, _)) \<Rightarrow>
              if hr > 24 \<or> mm > 60 then None
              else if z = CHR ''+'' then Some (hr * 3600 + mm * 60, drop 6 s)
              else if z = CHR ''-'' then Some (- (hr * 3600 + mm * 60), drop 6 s)
              else None
          | _ \<Rightarrow> None))"

definition parseRFC3339Nano :: "string \<Rightarrow> instant option" where
  "parseRFC3339Nano s =
     Option.bind (parseYear s) (\<lambda>(y, s).
     Option.bind (skipChar CHR ''-'' s) (\<lambda>s.
     Option.bind (getnum True s) (\<lambda>(m, s).
     if m \<le> 0 \<or> 12 < m then None else
     Option.bind (skipChar CHR ''-'' s) (\<lambda>s.
     Option.bind (getnum True s) (\<lambda>(d, s).
     Option.bind (skipChar CHR ''T'' s) (\<lambda>s.
     Option.bind (getnum False s) (\<lambda>(hh, s).
     if 24 \<le> hh then None else
     Option.bind (skipChar CHR '':'' s) (\<lambda>s.
     Option.bind (getnum True s) (\<lambda>(mi, s).
     if 60 \<le> mi then None else
     Option.bind (skipChar CHR '':'' s) (\<lambda>s.
     Option.bind (getnum True s) (\<lambda>(ss, s).
     if 60 \<le> ss then None else
     (case parseFraction s of (ns, s) \<Rightarrow>
     Option.bind (parseZone s) (\<lambda>(off, s).
     if s \<noteq> [] \<or> d < 1 \<or> daysIn m y < d then None
     else Some (instantOf y m d hh mi ss ns - off * nanosPerSecond))))))))))))))"

section \<open>Durations\<close>

text \<open>\<open>t.Sub(u)\<close> and \<open>d.Milliseconds()\<close>.\<close>

definition subTime :: "instant \<Rightarrow> instant \<Rightarrow> duration" where
  "subTime t u = max minInt64 (min maxInt64 (t - u))"

definition milliseconds :: "duration \<Rightarrow> int" where
  "milliseconds d = sgn d * (\<bar>d\<bar> div 1000000)"

section \<open>The calendar is inverted\<close>

lemma div_step:
  assumes "0 < (k::int)"
  shows "y div k = (y - 1) div k + (if k dvd y then 1 else 0)"
proof (cases "k dvd y")
  case True
  then obtain q where q: "y = k * q" by blast
  have "(y - 1) div k = q - 1"
    by (rule int_div_pos_eq [where r = "k - 1"]) (use assms q in \<open>auto simp: algebra_simps\<close>)
  with q assms show ?thesis by simp
next
  case False
  then have "y mod k \<noteq> 0" by (simp add: dvd_eq_mod_eq_0)
  then have r: "0 < y mod k" "y mod k < k"
    using pos_mod_sign [OF assms, of y] pos_mod_bound [OF assms, of y] by linarith+
  have "(y - 1) div k = y div k"
    by (rule int_div_pos_eq [where r = "y mod k - 1"]) (use r in \<open>auto simp: algebra_simps\<close>)
  with False show ?thesis by simp
qed

lemma year_length:
  "daysBeforeYear (y + 1) = daysBeforeYear y + (if isLeap y then 366 else 365)"
proof -
  define A B C where "A = (y - 1) div 4" and "B = (y - 1) div 100" and "C = (y - 1) div 400"
  have after: "daysBeforeYear (y + 1) = 365 * y + y div 4 - y div 100 + y div 400"
    by (simp add: daysBeforeYear_def)
  have this_year: "daysBeforeYear y = 365 * y - 365 + A - B + C"
    by (simp add: daysBeforeYear_def A_def B_def C_def)
  have steps: "y div 4 = A + (if 4 dvd y then 1 else 0)"
    "y div 100 = B + (if 100 dvd y then 1 else 0)" "y div 400 = C + (if 400 dvd y then 1 else 0)"
    unfolding A_def B_def C_def by (rule div_step, simp)+
  have d: "400 dvd y \<Longrightarrow> 100 dvd y" "100 dvd y \<Longrightarrow> 4 dvd y"
    using dvd_trans [of 100 400 y] dvd_trans [of 4 100 y] by simp_all
  consider "400 dvd y" "100 dvd y" "4 dvd y" | "\<not> 400 dvd y" "100 dvd y" "4 dvd y"
    | "\<not> 400 dvd y" "\<not> 100 dvd y" "4 dvd y" | "\<not> 400 dvd y" "\<not> 100 dvd y" "\<not> 4 dvd y"
    using d by blast
  then show ?thesis unfolding after this_year steps isLeap_def by cases simp_all
qed

lemma div_bounds: "0 < k \<Longrightarrow> k * (x div k) \<le> x \<and> x < k * (x div k) + (k::int)"
  using pos_mod_sign [of k x] pos_mod_bound [of k x] mult_div_mod_eq [of k x] by linarith

lemma yearOfDay_bounds:
  "daysBeforeYear (yearOfDay n) \<le> n \<and> n < daysBeforeYear (yearOfDay n + 1)"
proof -
  define q where "q = n * 400 div 146097"
  have q: "146097 * q \<le> 400 * n" "400 * n < 146097 * q + 146097"
    using div_bounds [of 146097 "n * 400"] by (simp_all add: q_def mult.commute)
  have low: "daysBeforeYear (q + 1) \<le> n"
    using q div_bounds [of 4 q] div_bounds [of 100 q] div_bounds [of 400 q]
    by (simp add: daysBeforeYear_def)
  have high: "n < daysBeforeYear (q + 2 + 1)"
    using q div_bounds [of 4 "q + 2"] div_bounds [of 100 "q + 2"] div_bounds [of 400 "q + 2"]
    by (simp add: daysBeforeYear_def)
  show ?thesis
    using low high by (simp add: yearOfDay_def q_def [symmetric] Let_def)
qed

lemma monthOf_range:
  assumes "list_all (\<lambda>l. 0 < l) ls" and "0 \<le> k" and "k < sum_list ls"
    and "monthOf ls m k = (m', d)"
  shows "m \<le> m' \<and> m' < m + int (length ls) \<and> 1 \<le> d \<and> d \<le> ls ! nat (m' - m)
    \<and> k = sum_list (take (nat (m' - m)) ls) + d - 1"
  using assms
proof (induction ls m k rule: monthOf.induct)
  case (1 m k)
  then show ?case by simp
next
  case (2 l ls m k)
  show ?case
  proof (cases "k < l")
    case True
    with 2 show ?thesis by auto
  next
    case False
    with 2 have *: "m + 1 \<le> m'" "m' < m + 1 + int (length ls)" "1 \<le> d"
      "d \<le> ls ! nat (m' - (m + 1))" "k - l = sum_list (take (nat (m' - (m + 1))) ls) + d - 1"
      by auto
    then have "nat (m' - m) = Suc (nat (m' - (m + 1)))" by simp
    with * show ?thesis by simp
  qed
qed

lemma sum_monthLengths: "sum_list (monthLengths leap) = (if leap then 366 else 365)"
  by (simp add: monthLengths_def)

lemma civilOfDay_correct:
  assumes "civilOfDay n = (y, m, d)"
  shows "y = yearOfDay n" and "1 \<le> m" and "m \<le> 12" and "1 \<le> d" and "d \<le> daysIn m y"
    and "dayOfCivil y m d = n"
proof -
  let ?ls = "monthLengths (isLeap y)" and ?k = "n - daysBeforeYear y"
  show y: "y = yearOfDay n" using assms by (simp add: civilOfDay_def Let_def)
  have mo: "monthOf ?ls 1 ?k = (m, d)" using assms by (auto simp: civilOfDay_def Let_def)
  have pos: "list_all (\<lambda>l. 0 < l) ?ls" by (simp add: monthLengths_def)
  have k: "0 \<le> ?k" "?k < sum_list ?ls"
    using yearOfDay_bounds [of n] y year_length [of y] by (simp_all add: sum_monthLengths)
  have len: "length ?ls = 12" by (simp add: monthLengths_def)
  note r = monthOf_range [OF pos k mo]
  show "1 \<le> m" "m \<le> 12" "1 \<le> d" "d \<le> daysIn m y"
    using r len by (simp_all add: daysIn_def)
  show "dayOfCivil y m d = n" using r by (simp add: dayOfCivil_def)
qed

section \<open>Round trip\<close>

lemma isDigit_digit: "0 \<le> n \<Longrightarrow> n < 10 \<Longrightarrow> isDigit (digit n) \<and> digitVal (digit n) = n"
  by (simp add: isDigit_def inRange_def digit_def digitVal_def byte_char_of)

lemma decimal_small: "n < 10 \<Longrightarrow> decimal n = [digit (int n)]"
  by (simp add: decimal.simps)

lemma decimal_step: "10 \<le> n \<Longrightarrow> decimal n = decimal (n div 10) @ [digit (int (n mod 10))]"
  by (subst decimal.simps) simp

lemma decimal_length: "n < 10 ^ Suc k \<Longrightarrow> length (decimal n) \<le> Suc k"
proof (induction k arbitrary: n)
  case 0
  then show ?case by (simp add: decimal_small)
next
  case (Suc k)
  show ?case
  proof (cases "n < 10")
    case False
    then show ?thesis using Suc.IH [of "n div 10"] Suc.prems by (simp add: decimal_step)
  qed (simp add: decimal_small)
qed

lemma decimal_digits: "list_all isDigit (decimal n)"
proof (induction n rule: decimal.induct)
  case (1 n)
  then show ?case
    by (subst decimal.simps) (use isDigit_digit in auto)
qed

lemma digitsVal_append [simp]: "digitsVal (s @ [c]) = digitsVal s * 10 + digitVal c"
  by (simp add: digitsVal_def)

lemma digitsVal_Nil [simp]: "digitsVal [] = 0"
  by (simp add: digitsVal_def)

lemma digitsVal_decimal [simp]: "digitsVal (decimal n) = int n"
proof (induction n rule: decimal.induct)
  case (1 n)
  show ?case
  proof (cases "n < 10")
    case True
    then show ?thesis using isDigit_digit [of "int n"] by (simp add: decimal_small digitsVal_def)
  next
    case False
    then show ?thesis
      using 1 isDigit_digit [of "int (n mod 10)"] by (simp add: decimal_step zdiv_int zmod_int)
  qed
qed

lemma digitsVal_zeros: "digitsVal (s @ replicate k CHR ''0'') = digitsVal s * 10 ^ k"
proof (induction k)
  case (Suc k)
  have "digitVal CHR ''0'' = 0" by (simp add: digitVal_def)
  then show ?case
    using Suc by (simp add: replicate_append_same [symmetric] flip: append_assoc)
qed simp

lemma digitsVal_leading: "digitsVal (replicate k CHR ''0'' @ s) = digitsVal s"
proof (induction s rule: rev_induct)
  case Nil
  then show ?case using digitsVal_zeros [of "[]" k] by simp
next
  case (snoc c s)
  then show ?case by (simp flip: append_assoc)
qed

lemma isDigit_zero: "isDigit CHR ''0''"
  by (simp add: isDigit_def inRange_def)

lemma padZeros_digits: "list_all isDigit s \<Longrightarrow> list_all isDigit (padZeros w s)"
  by (auto simp: padZeros_def list_all_iff isDigit_zero)

lemma digitsVal_padZeros [simp]: "digitsVal (padZeros w s) = digitsVal s"
  by (simp add: padZeros_def digitsVal_leading)

lemma length_padZeros: "length s \<le> w \<Longrightarrow> length (padZeros w s) = w"
  by (simp add: padZeros_def)

text \<open>A field of width \<open>Suc k\<close> that fits: digits only, of that width, with the value.\<close>

lemma appendInt_field:
  assumes "0 \<le> n" and "n < 10 ^ Suc k"
  shows "length (appendInt n (Suc k)) = Suc k"
    and "list_all isDigit (appendInt n (Suc k))"
    and "digitsVal (appendInt n (Suc k)) = n"
proof -
  have "nat n < 10 ^ Suc k" using assms by (simp add: nat_less_iff)
  then have "length (decimal (nat n)) \<le> Suc k" by (rule decimal_length)
  then show "length (appendInt n (Suc k)) = Suc k"
    using assms by (simp add: appendInt_def length_padZeros)
  show "list_all isDigit (appendInt n (Suc k))" "digitsVal (appendInt n (Suc k)) = n"
    using assms by (simp_all add: appendInt_def padZeros_digits decimal_digits)
qed

lemma getnum_field:
  assumes "0 \<le> n" and "n < 100"
  shows "getnum fixed (appendInt n 2 @ s) = Some (n, s)"
proof -
  note f = appendInt_field [of n 1]
  obtain a b where ab: "appendInt n 2 = [a, b]"
    using f(1) assms by (auto simp: length_Suc_conv numeral_2_eq_2)
  then have "isDigit a" "isDigit b" "digitVal a * 10 + digitVal b = n"
    using f(2,3) assms by (simp_all add: numeral_2_eq_2 digitsVal_def)
  with ab show ?thesis by (simp add: getnum_def)
qed

lemma parseYear_field:
  assumes "0 \<le> y" and "y \<le> 9999"
  shows "parseYear (appendInt y 4 @ s) = Some (y, s)"
  using appendInt_field [of y 3] assms by (simp add: parseYear_def)

lemma skipChar_eq [simp]: "skipChar c (c # s) = Some s"
  by (simp add: skipChar_def)

lemma trim_zeros_split:
  "\<exists>k. s = rev (dropWhile (\<lambda>c. c = z) (rev s)) @ replicate k z"
proof (induction s rule: rev_induct)
  case Nil
  then show ?case by simp
next
  case (snoc x s)
  then obtain k where k: "s = rev (dropWhile (\<lambda>c. c = z) (rev s)) @ replicate k z" by blast
  show ?case
  proof (cases "x = z")
    case True
    have "s @ [z] = rev (dropWhile (\<lambda>c. c = z) (rev s)) @ replicate (Suc k) z"
      by (subst k) (simp add: replicate_append_same)
    moreover have "dropWhile (\<lambda>c. c = z) (rev (s @ [z])) = dropWhile (\<lambda>c. c = z) (rev s)" by simp
    ultimately show ?thesis unfolding True by metis
  next
    case False
    then show ?thesis by (intro exI [of _ 0]) simp
  qed
qed

lemma hours_minutes_seconds:
  "x div 3600 * 3600 + x mod 3600 div 60 * 60 + x mod 60 = (x::int)"
proof -
  have "x mod 3600 mod 60 = x mod 60" by (rule mod_mod_cancel) simp
  then have "x mod 3600 div 60 * 60 + x mod 60 = x mod 3600"
    using div_mult_mod_eq [of "x mod 3600" 60] by simp
  then show ?thesis using div_mult_mod_eq [of x 3600] by linarith
qed

lemma takeWhile_dropWhile_digits:
  assumes "list_all isDigit ds" and "\<not> isDigit z"
  shows "takeWhile isDigit (ds @ z # s) = ds" and "dropWhile isDigit (ds @ z # s) = z # s"
  using assms by (induction ds) auto

lemma parseFraction_field:
  assumes "0 \<le> ns" and "ns < 1000000000" and z: "\<not> isDigit z" "z \<noteq> CHR ''.''" "z \<noteq> CHR '',''"
  shows "parseFraction (fractionOf ns @ z # s) = (ns, z # s)"
proof (cases "ns = 0")
  case True
  then show ?thesis using z by (simp add: fractionOf_def parseFraction_def split: list.splits)
next
  case False
  let ?full = "padZeros 9 (decimal (nat ns))"
  let ?ds = "rev (dropWhile (\<lambda>c. c = CHR ''0'') (rev ?full))"
  have "nat ns < 10 ^ Suc 8" using assms by (simp add: nat_less_iff)
  then have len: "length ?full = 9" using decimal_length [of "nat ns" 8] by (simp add: length_padZeros)
  obtain k where k: "?full = ?ds @ replicate k CHR ''0''"
    by (rule exE [OF trim_zeros_split [of ?full "CHR ''0''"]])
  have dig: "list_all isDigit ?ds"
    using padZeros_digits [OF decimal_digits, of 9 "nat ns"] k by (metis list_all_append)
  have lens: "length ?ds + k = 9" using arg_cong [OF k, of length] len by simp
  have val: "digitsVal ?ds * 10 ^ k = ns"
    using arg_cong [OF k, of digitsVal] assms by (simp add: digitsVal_zeros)
  then have "?ds \<noteq> []" using False by (metis digitsVal_Nil mult_zero_left)
  then obtain c t where ct: "?ds = c # t" by (meson neq_Nil_conv)
  have "isDigit c" using dig ct by simp
  moreover have "fractionOf ns = CHR ''.'' # ?ds" using False by (simp add: fractionOf_def)
  moreover have "take 9 ?ds = ?ds" "9 - length ?ds = k" using lens by simp_all
  ultimately show ?thesis
    using ct val takeWhile_dropWhile_digits [OF dig z(1), of s]
    by (simp add: parseFraction_def Let_def)
qed

lemma parseZone_Z [simp]: "parseZone ''Z'' = Some (0, [])"
  by (simp add: parseZone_def)

lemma parse_fields:
  assumes "0 \<le> y" "y \<le> 9999" "1 \<le> m" "m \<le> 12" "1 \<le> d" "d \<le> daysIn m y" "d < 100"
    "0 \<le> hh" "hh < 24" "0 \<le> mi" "mi < 60" "0 \<le> ss" "ss < 60" "0 \<le> ns" "ns < 1000000000"
  shows "parseRFC3339Nano (appendInt y 4 @ CHR ''-'' # appendInt m 2 @ CHR ''-'' # appendInt d 2
        @ CHR ''T'' # appendInt hh 2 @ CHR '':'' # appendInt mi 2
        @ CHR '':'' # appendInt ss 2 @ fractionOf ns @ ''Z'') = Some (instantOf y m d hh mi ss ns)"
proof -
  have z: "\<not> isDigit CHR ''Z''" "CHR ''Z'' \<noteq> CHR ''.''" "CHR ''Z'' \<noteq> CHR '',''"
    by (simp_all add: isDigit_def inRange_def)
  have fr: "parseFraction (fractionOf ns @ ''Z'') = (ns, ''Z'')"
    using parseFraction_field [of ns "CHR ''Z''" "[]", OF _ _ z] assms by simp
  show ?thesis
    using assms by (simp add: parseRFC3339Nano_def parseYear_field getnum_field fr)
qed

theorem parse_format:
  assumes "0 \<le> yearOf t" and "yearOf t \<le> 9999"
  shows "parseRFC3339Nano (formatRFC3339Nano t) = Some t"
proof -
  let ?secs = "t div nanosPerSecond" and ?ns = "t mod nanosPerSecond"
  let ?sod = "?secs mod 86400" and ?day = "?secs div 86400 + epochDay"
  obtain y m d where civil: "civilOfDay ?day = (y, m, d)" by (cases "civilOfDay ?day") auto
  note c = civilOfDay_correct [OF civil]
  have y: "0 \<le> y" "y \<le> 9999" using assms c(1) by (simp_all add: yearOf_def)
  have "list_all (\<lambda>l. l \<le> 31) (monthLengths (isLeap y))" by (simp add: monthLengths_def)
  moreover have "nat (m - 1) < length (monthLengths (isLeap y))"
    using c(2,3) by (simp add: monthLengths_def)
  ultimately have "daysIn m y \<le> 31" by (simp add: daysIn_def list_all_length)
  then have d: "0 \<le> d" "d < 100" using c by simp_all
  have hh: "0 \<le> ?sod div 3600" "?sod div 3600 < 24" by simp_all
  have mi: "0 \<le> ?sod mod 3600 div 60" "?sod mod 3600 div 60 < 60" by simp_all
  have ss: "0 \<le> ?sod mod 60" "?sod mod 60 < 60" by simp_all
  have ns: "0 \<le> ?ns" "?ns < 1000000000" by (simp_all add: nanosPerSecond_def)
  have sod: "?sod div 3600 * 3600 + ?sod mod 3600 div 60 * 60 + ?sod mod 60 = ?sod"
    by (rule hours_minutes_seconds)
  have "instantOf y m d (?sod div 3600) (?sod mod 3600 div 60) (?sod mod 60) ?ns
      = (?secs div 86400 * 86400
         + (?sod div 3600 * 3600 + ?sod mod 3600 div 60 * 60 + ?sod mod 60)) * nanosPerSecond + ?ns"
    unfolding instantOf_def c(6) by (simp only: add_diff_cancel_right' add.assoc)
  also have "\<dots> = ?secs * nanosPerSecond + ?ns"
    unfolding sod by (simp only: div_mult_mod_eq)
  also have "\<dots> = t" by (simp only: div_mult_mod_eq)
  finally have inst: "instantOf y m d (?sod div 3600) (?sod mod 3600 div 60) (?sod mod 60) ?ns = t" .
  show ?thesis
    unfolding formatRFC3339Nano_def Let_def civil prod.case
    by (simp only: parse_fields [OF y c(2-5) d(2) hh mi ss ns] inst)
qed

lemma subTime_exact: "0 \<le> t - u \<Longrightarrow> t - u \<le> maxInt64 \<Longrightarrow> subTime t u = t - u"
  by (simp add: subTime_def minInt64_def)

end
