(* ===== verification/Sha256.thy ===== *)
theory Sha256
  imports Go_Strings
begin

text \<open>
  The standard library's \<open>crypto/sha256\<close> and \<open>encoding/hex\<close>, as far as the sources use
  them: \<open>sha256 m\<close> is the 32-byte digest of the message \<open>m\<close> (FIPS 180-4 over \<open>32 word\<close>),
  \<open>sha256Hex\<close> its lower-case hexadecimal form.  A \<open>hash.Hash\<close> under construction is the
  message written so far: \<open>Write\<close> appends, \<open>Sum\<close> digests.  The proofs of the development
  only use the length and the alphabet of the result.
\<close>

unbundle bit_operations_syntax

type_synonym w32 = "32 word"

definition roundConstants :: "w32 list" where
  "roundConstants = [
    1116352408, 1899447441, 3049323471, 3921009573, 961987163, 1508970993, 2453635748,
    2870763221, 3624381080, 310598401, 607225278, 1426881987, 1925078388, 2162078206,
    2614888103, 3248222580, 3835390401, 4022224774, 264347078, 604807628, 770255983, 1249150122,
    1555081692, 1996064986, 2554220882, 2821834349, 2952996808, 3210313671, 3336571891,
    3584528711, 113926993, 338241895, 666307205, 773529912, 1294757372, 1396182291, 1695183700,
    1986661051, 2177026350, 2456956037, 2730485921, 2820302411, 3259730800, 3345764771,
    3516065817, 3600352804, 4094571909, 275423344, 430227734, 506948616, 659060556, 883997877,
    958139571, 1322822218, 1537002063, 1747873779, 1955562222, 2024104815, 2227730452,
    2361852424, 2428436474, 2756734187, 3204031479, 3329325298]"

definition initialHash :: "w32 list" where
  "initialHash = [
    1779033703, 3144134277, 1013904242, 2773480762, 1359893119, 2600822924, 528734635,
    1541459225]"

text \<open>\<open>binary.BigEndian\<close>: the \<open>n\<close> bytes of a value, and the value of a byte string.\<close>

fun bigEndianBytes :: "nat \<Rightarrow> int \<Rightarrow> string" where
  "bigEndianBytes 0 v = []"
| "bigEndianBytes (Suc n) v = bigEndianBytes n (v div 256) @ [char_of (v mod 256)]"

definition bigEndianValue :: "string \<Rightarrow> int" where
  "bigEndianValue s = foldl (\<lambda>acc c. acc * 256 + of_char c) 0 s"

definition padMessage :: "string \<Rightarrow> string" where
  "padMessage m = m @ char_of (128::nat) # replicate ((119 - length m mod 64) mod 64) (char_of (0::nat))
     @ bigEndianBytes 8 (8 * int (length m))"

fun wordsOf :: "string \<Rightarrow> w32 list" where
  "wordsOf (a # b # c # d # rest) = word_of_int (bigEndianValue [a, b, c, d]) # wordsOf rest"
| "wordsOf _ = []"

definition smallSigma0 :: "w32 \<Rightarrow> w32" where
  "smallSigma0 x = word_rotr 7 x XOR word_rotr 18 x XOR drop_bit 3 x"

definition smallSigma1 :: "w32 \<Rightarrow> w32" where
  "smallSigma1 x = word_rotr 17 x XOR word_rotr 19 x XOR drop_bit 10 x"

definition bigSigma0 :: "w32 \<Rightarrow> w32" where
  "bigSigma0 x = word_rotr 2 x XOR word_rotr 13 x XOR word_rotr 22 x"

definition bigSigma1 :: "w32 \<Rightarrow> w32" where
  "bigSigma1 x = word_rotr 6 x XOR word_rotr 11 x XOR word_rotr 25 x"

text \<open>The message schedule as a sliding window of sixteen words, one round per element.\<close>

definition sha256Round :: "w32 \<Rightarrow> w32 list \<Rightarrow> w32 list \<Rightarrow> w32 list \<times> w32 list" where
  "sha256Round k w st =
     (let w0 = w ! 0; a = st ! 0; b = st ! 1; c = st ! 2; d = st ! 3;
          e = st ! 4; f = st ! 5; g = st ! 6; h = st ! 7;
          t1 = h + bigSigma1 e + ((e AND f) XOR (NOT e AND g)) + k + w0;
          t2 = bigSigma0 a + ((a AND b) XOR (a AND c) XOR (b AND c));
          w16 = smallSigma1 (w ! 14) + w ! 9 + smallSigma0 (w ! 1) + w0
      in (tl w @ [w16], [t1 + t2, a, b, c, d + t1, e, f, g]))"

primrec sha256Rounds :: "w32 list \<Rightarrow> w32 list \<Rightarrow> w32 list \<Rightarrow> w32 list" where
  "sha256Rounds [] w st = st"
| "sha256Rounds (k # ks) w st =
     (case sha256Round k w st of (w', st') \<Rightarrow> sha256Rounds ks w' st')"

primrec sha256Blocks :: "nat \<Rightarrow> w32 list \<Rightarrow> w32 list \<Rightarrow> w32 list" where
  "sha256Blocks 0 ws st = st"
| "sha256Blocks (Suc n) ws st =
     sha256Blocks n (drop 16 ws)
       (map2 (+) st (sha256Rounds roundConstants (take 16 ws) st))"

definition sha256 :: "string \<Rightarrow> string" where
  "sha256 m =
     (let p = padMessage m;
          st = sha256Blocks (length p div 64) (wordsOf p) initialHash
      in take 32 (concat (map (\<lambda>w. bigEndianBytes 4 (uint w)) st)
                  @ replicate 32 (char_of (0::nat))))"

definition hexDigit :: "nat \<Rightarrow> char" where
  "hexDigit n = (if n < 10 then char_of (48 + n) else char_of (87 + n))"

definition hexEncode :: "string \<Rightarrow> string" where
  "hexEncode s = concat (map (\<lambda>c. [hexDigit (byte c div 16), hexDigit (byte c mod 16)]) s)"

definition sha256Hex :: "string \<Rightarrow> string" where
  "sha256Hex m = hexEncode (sha256 m)"

section \<open>Incremental hashing\<close>

type_synonym hash = string

definition hashNew :: hash where "hashNew = []"
definition hashWrite :: "hash \<Rightarrow> string \<Rightarrow> hash" where "hashWrite h c = h @ c"
definition hashSumHex :: "hash \<Rightarrow> string" where "hashSumHex h = sha256Hex h"

lemma hash_chunks: "hashSumHex (foldl hashWrite h cs) = sha256Hex (h @ concat cs)"
  by (induction cs arbitrary: h) (simp_all add: hashSumHex_def hashWrite_def)

section \<open>Shape of the digest\<close>

lemma length_sha256 [simp]: "length (sha256 m) = 32"
  by (simp add: sha256_def Let_def)

lemma length_hexEncode [simp]: "length (hexEncode s) = 2 * length s"
  by (induction s) (auto simp: hexEncode_def)

lemma hexDigit_lower: "n < 16 \<Longrightarrow> isLowerHexChar (hexDigit n)"
proof -
  assume n: "n < 16"
  have "byte (char_of (48 + n)) = 48 + n" "byte (char_of (87 + n)) = 87 + n"
    using n by (simp_all add: byte_char_of)
  with n show ?thesis
    by (auto simp: hexDigit_def isLowerHexChar_def isDigit_def inRange_def byte_def)
qed

lemma hexEncode_lower: "list_all isLowerHexChar (hexEncode s)"
proof -
  have "byte c div 16 < 16" for c using byte_less [of c] by (simp add: less_mult_imp_div_less)
  then show ?thesis
    by (auto simp: hexEncode_def list_all_iff intro!: hexDigit_lower)
qed

lemma isLowerHex_sha256Hex [simp]: "isLowerHex 64 (sha256Hex m)"
  by (simp add: isLowerHex_def sha256Hex_def hexEncode_lower)

end
