(* ===== verification/Json.thy ===== *)
theory Json
  imports Go_Time Sha256
begin

text \<open>
  The encoding half of \<open>encoding/json\<close> for the records of the program: \<open>json\<close> is a JSON
  document (a number is its literal, an object a list of members in order), \<open>encodeJson\<close> is
  what \<open>json.Marshal\<close> writes for it: no spaces, members in the order of the struct's fields,
  HTML-sensitive characters and the separators U+2028 and U+2029 escaped, invalid UTF-8
  replaced.
\<close>

datatype json =
    JNull
  | JBool bool
  | JNum string
  | JStr string
  | JArr "json list"
  | JObj "(string \<times> json) list"

definition formatInt :: "int \<Rightarrow> string" where
  "formatInt n = (if n < 0 then ''-'' else []) @ decimal (nat \<bar>n\<bar>)"

definition JInt :: "int \<Rightarrow> json" where
  "JInt n = JNum (formatInt n)"

definition backslash :: char where "backslash = CHR 0x5C"

definition unicodeEscape :: "nat \<Rightarrow> string" where
  "unicodeEscape r =
     [backslash, CHR ''u'', hexDigit (r div 4096), hexDigit (r div 256 mod 16),
      hexDigit (r div 16 mod 16), hexDigit (r mod 16)]"

definition escapeByte :: "char \<Rightarrow> string" where
  "escapeByte c =
     (if c = CHR 0x22 \<or> c = backslash then [backslash, c]
      else if byte c = 8 then [backslash, CHR ''b'']
      else if byte c = 12 then [backslash, CHR ''f'']
      else if byte c = 10 then [backslash, CHR ''n'']
      else if byte c = 13 then [backslash, CHR ''r'']
      else if byte c = 9 then [backslash, CHR ''t'']
      else if byte c < 32 \<or> c = CHR ''<'' \<or> c = CHR ''>'' \<or> c = CHR ''&'' then unicodeEscape (byte c)
      else [c])"

fun escapeJson :: "string \<Rightarrow> string" where
  "escapeJson [] = []"
| "escapeJson (c # cs) =
     (let (r, n) = decodeRune (c # cs) in
      if byte c < 128 then escapeByte c
      else if (r = runeError \<and> n = 1) \<or> r = 8232 \<or> r = 8233 then unicodeEscape r
      else take n (c # cs))
     @ escapeJson (drop (snd (decodeRune (c # cs)) - 1) cs)"

definition encodeString :: "string \<Rightarrow> string" where
  "encodeString s = CHR 0x22 # escapeJson s @ [CHR 0x22]"

fun encodeJson :: "json \<Rightarrow> string" where
  "encodeJson JNull = ''null''"
| "encodeJson (JBool b) = (if b then ''true'' else ''false'')"
| "encodeJson (JNum n) = n"
| "encodeJson (JStr s) = encodeString s"
| "encodeJson (JArr xs) = CHR ''['' # joinWith '','' (map encodeJson xs) @ '']''"
| "encodeJson (JObj ms) =
     CHR ''{'' # joinWith '','' (map (\<lambda>(k, v). encodeString k @ CHR '':'' # encodeJson v) ms) @ ''}''"

text \<open>Slices and pointers: a nil slice and a nil pointer are \<open>null\<close>.\<close>

definition jsonSlice :: "('a \<Rightarrow> json) \<Rightarrow> 'a slice \<Rightarrow> json" where
  "jsonSlice f s = (case s of None \<Rightarrow> JNull | Some xs \<Rightarrow> JArr (map f xs))"

definition jsonPointer :: "('a \<Rightarrow> json) \<Rightarrow> 'a option \<Rightarrow> json" where
  "jsonPointer f p = (case p of None \<Rightarrow> JNull | Some x \<Rightarrow> f x)"

end
