(* ===== verification/Protocol_Types.thy ===== *)
theory Protocol_Types
  imports Json
begin

text \<open>
  The records of protocol version 1 (\<open>protocol/v1/types.go\<close>, \<open>records_types.go\<close>), its
  limits and its error values.  Go's named string types (shells, operations, statuses,
  reasons) stay strings, because a decoded record may carry any text in them until it is
  validated; \<open>ProtocolVersion\<close> is \<open>uint8\<close>.
\<close>

section \<open>Requests (\<open>types.go\<close>)\<close>

type_synonym ProtocolVersion = "8 word"
type_synonym Shell = string
type_synonym RequestOperation = string

definition Version :: ProtocolVersion where "Version = 1"

definition ShellBash :: Shell where "ShellBash = ''bash''"
definition ShellCmd :: Shell where "ShellCmd = ''cmd''"
definition ShellGitBash :: Shell where "ShellGitBash = ''git-bash''"
definition ShellPowerShell :: Shell where "ShellPowerShell = ''powershell''"
definition ShellPwsh :: Shell where "ShellPwsh = ''pwsh''"

definition RequestOperationExecute :: RequestOperation where "RequestOperationExecute = ''execute''"
definition RequestOperationStart :: RequestOperation where "RequestOperationStart = ''start''"
definition RequestOperationStatus :: RequestOperation where "RequestOperationStatus = ''status''"
definition RequestOperationStop :: RequestOperation where "RequestOperationStop = ''stop''"
definition RequestOperationLogs :: RequestOperation where "RequestOperationLogs = ''logs''"

lemmas shell_defs [go_defs] = ShellBash_def ShellCmd_def ShellGitBash_def ShellPowerShell_def ShellPwsh_def
lemmas operation_defs [go_defs] = RequestOperationExecute_def RequestOperationStart_def
  RequestOperationStatus_def RequestOperationStop_def RequestOperationLogs_def

record ArtifactSelection =
  sel_Name :: string
  sel_Paths :: "string list"

record Request =
  rq_ProtocolVersion :: ProtocolVersion
  rq_RequestID :: string
  rq_SessionID :: string
  rq_Actor :: string
  rq_Operation :: RequestOperation
  rq_ProcessID :: string
  rq_Shell :: Shell
  rq_WorkingDirectory :: string
  rq_Script :: string
  rq_TimeoutSeconds :: int
  rq_MaxOutputBytes :: int
  rq_Artifacts :: "ArtifactSelection slice"

section \<open>Limits (\<open>limits.go\<close>)\<close>

definition MaxRequestBytes :: nat where "MaxRequestBytes = 65536"
definition MaxAcceptedRecordBytes :: nat where "MaxAcceptedRecordBytes = 131072"
definition MaxExecutionReportBytes :: nat where "MaxExecutionReportBytes = 262144"
definition MaxResultRecordBytes :: nat where "MaxResultRecordBytes = 262144"
definition MaxScriptBytes :: nat where "MaxScriptBytes = 49152"
definition MaxIdentifierBytes :: nat where "MaxIdentifierBytes = 64"
definition MaxWorkingPathBytes :: nat where "MaxWorkingPathBytes = 1024"
definition MinTimeoutSeconds :: int where "MinTimeoutSeconds = 1"
definition MaxTimeoutSeconds :: int where "MaxTimeoutSeconds = 86400"
definition MinOutputBytes :: int where "MinOutputBytes = 1024"
definition MaxOutputBytes :: int where "MaxOutputBytes = 5242880"
definition MaxArtifactGroups :: nat where "MaxArtifactGroups = 8"
definition MaxArtifactGroupBytes :: nat where "MaxArtifactGroupBytes = 32"
definition MaxArtifactPaths :: nat where "MaxArtifactPaths = 16"
definition MaxArtifactPathBytes :: nat where "MaxArtifactPathBytes = 256"
definition MaxTotalArtifactPaths :: nat where "MaxTotalArtifactPaths = 64"
definition MaxArtifactFiles :: nat where "MaxArtifactFiles = 256"
definition MaxArtifactOmissions :: nat where "MaxArtifactOmissions = 128"
definition MaxArtifactFilePathBytes :: nat where "MaxArtifactFilePathBytes = 1024"
definition MaxArtifactFileBytes :: int where "MaxArtifactFileBytes = 536870912"
definition MaxTotalArtifactBytes :: int where "MaxTotalArtifactBytes = 1073741824"

lemmas limit_defs [go_defs] =
  MaxRequestBytes_def MaxAcceptedRecordBytes_def MaxExecutionReportBytes_def MaxResultRecordBytes_def
  MaxScriptBytes_def MaxIdentifierBytes_def MaxWorkingPathBytes_def MinTimeoutSeconds_def
  MaxTimeoutSeconds_def MinOutputBytes_def MaxOutputBytes_def MaxArtifactGroups_def
  MaxArtifactGroupBytes_def MaxArtifactPaths_def MaxArtifactPathBytes_def MaxTotalArtifactPaths_def
  MaxArtifactFiles_def MaxArtifactOmissions_def MaxArtifactFilePathBytes_def
  MaxArtifactFileBytes_def MaxTotalArtifactBytes_def

section \<open>Errors (\<open>errors.go\<close>)\<close>

datatype ErrorKind = ErrorKindDecode | ErrorKindValidation

datatype ProtocolError = ProtocolError (pe_Kind: ErrorKind) (pe_Field: string) (pe_Rule: string)

definition decodeError :: "string \<Rightarrow> string \<Rightarrow> ProtocolError" where
  "decodeError field rule = ProtocolError ErrorKindDecode field rule"

definition validationError :: "string \<Rightarrow> string \<Rightarrow> ProtocolError" where
  "validationError field rule = ProtocolError ErrorKindValidation field rule"

section \<open>Records (\<open>records_types.go\<close>)\<close>

record IssueProvenance =
  is_Number :: int
  is_NodeID :: string
  is_SenderID :: int
  is_SenderLogin :: string

record WorkflowProvenance =
  wf_Repository :: string
  wf_RunID :: int
  wf_RunAttempt :: int
  wf_EventName :: string
  wf_EventAction :: string
  wf_HeadSHA :: string

record AcceptedRequestRecord =
  ar_ProtocolVersion :: ProtocolVersion
  ar_RequestID :: string
  ar_RequestDigest :: string
  ar_Request :: Request
  ar_Issue :: IssueProvenance
  ar_Workflow :: WorkflowProvenance
  ar_ControlSourceSHA :: string
  ar_AcceptedAt :: string

type_synonym CommandStatus = string
type_synonym ArtifactStatus = string
type_synonym ArtifactOmissionReason = string

definition CommandStatusCancelled :: CommandStatus where "CommandStatusCancelled = ''cancelled''"
definition CommandStatusCompleted :: CommandStatus where "CommandStatusCompleted = ''completed''"
definition CommandStatusFailed :: CommandStatus where "CommandStatusFailed = ''failed''"
definition CommandStatusRuntimeFailed :: CommandStatus where
  "CommandStatusRuntimeFailed = ''runtime_failed''"
definition CommandStatusTimedOut :: CommandStatus where "CommandStatusTimedOut = ''timed_out''"

definition ArtifactStatusComplete :: ArtifactStatus where "ArtifactStatusComplete = ''complete''"
definition ArtifactStatusCompleteWithOmissions :: ArtifactStatus where
  "ArtifactStatusCompleteWithOmissions = ''complete_with_omissions''"
definition ArtifactStatusFailed :: ArtifactStatus where "ArtifactStatusFailed = ''failed''"
definition ArtifactStatusNotRequested :: ArtifactStatus where
  "ArtifactStatusNotRequested = ''not_requested''"

definition ArtifactOmissionByteLimit :: ArtifactOmissionReason where
  "ArtifactOmissionByteLimit = ''byte_limit''"
definition ArtifactOmissionCollectionFailed :: ArtifactOmissionReason where
  "ArtifactOmissionCollectionFailed = ''collection_failed''"
definition ArtifactOmissionFileLimit :: ArtifactOmissionReason where
  "ArtifactOmissionFileLimit = ''file_limit''"
definition ArtifactOmissionLinkRejected :: ArtifactOmissionReason where
  "ArtifactOmissionLinkRejected = ''link_rejected''"
definition ArtifactOmissionNoMatch :: ArtifactOmissionReason where
  "ArtifactOmissionNoMatch = ''no_match''"
definition ArtifactOmissionPolicyRejected :: ArtifactOmissionReason where
  "ArtifactOmissionPolicyRejected = ''policy_rejected''"
definition ArtifactOmissionReadFailed :: ArtifactOmissionReason where
  "ArtifactOmissionReadFailed = ''read_failed''"
definition ArtifactOmissionUnsupportedType :: ArtifactOmissionReason where
  "ArtifactOmissionUnsupportedType = ''unsupported_type''"

lemmas status_defs [go_defs] = CommandStatusCancelled_def CommandStatusCompleted_def
  CommandStatusFailed_def CommandStatusRuntimeFailed_def CommandStatusTimedOut_def
lemmas artifact_status_defs [go_defs] = ArtifactStatusComplete_def
  ArtifactStatusCompleteWithOmissions_def ArtifactStatusFailed_def ArtifactStatusNotRequested_def
lemmas reason_defs [go_defs] = ArtifactOmissionByteLimit_def ArtifactOmissionCollectionFailed_def
  ArtifactOmissionFileLimit_def ArtifactOmissionLinkRejected_def ArtifactOmissionNoMatch_def
  ArtifactOmissionPolicyRejected_def ArtifactOmissionReadFailed_def
  ArtifactOmissionUnsupportedType_def

record OutputMetadata =
  om_SHA256 :: string
  om_TotalBytes :: int
  om_RetainedBytes :: int
  om_Truncated :: bool

record ArtifactFile =
  af_Group :: string
  af_Path :: string
  af_SHA256 :: string
  af_SizeBytes :: int

record ArtifactOmission =
  ao_Group :: string
  ao_Pattern :: string
  ao_Reason :: ArtifactOmissionReason

record ArtifactManifest =
  am_Status :: ArtifactStatus
  am_Files :: "ArtifactFile slice"
  am_Omissions :: "ArtifactOmission slice"

record ExecutionReport =
  er_ProtocolVersion :: ProtocolVersion
  er_RequestID :: string
  er_RequestDigest :: string
  er_AttemptID :: string
  er_GatewaySourceSHA :: string
  er_CommandStatus :: CommandStatus
  er_ExitCode :: "int option"
  er_StartedAt :: string
  er_FinishedAt :: string
  er_DurationMilliseconds :: int
  er_Stdout :: OutputMetadata
  er_Stderr :: OutputMetadata
  er_Artifacts :: ArtifactManifest

record ResultRecord =
  rr_ProtocolVersion :: ProtocolVersion
  rr_RequestID :: string
  rr_RequestDigest :: string
  rr_AttemptID :: string
  rr_GatewaySourceSHA :: string
  rr_CommandStatus :: CommandStatus
  rr_ExitCode :: "int option"
  rr_StartedAt :: string
  rr_FinishedAt :: string
  rr_DurationMilliseconds :: int
  rr_Stdout :: OutputMetadata
  rr_Stderr :: OutputMetadata
  rr_Artifacts :: ArtifactManifest
  rr_FinalizedAt :: string
  rr_Workflow :: WorkflowProvenance

end
