(* ===== verification/Go_Path_Match.thy ===== *)
theory Go_Path_Match
  imports Go_Strings
begin

text \<open>
  The standard library's \<open>path.Match\<close>, chunk by chunk as the library runs it: \<open>scanChunk\<close>
  splits off the leading stars and the part of the pattern up to the next star, \<open>matchChunk\<close>
  matches such a part at the start of a name (and keeps parsing it for syntax errors after the
  match has failed), \<open>pathMatch\<close> searches a position for each part.  \<open>None\<close> is
  \<open>ErrBadPattern\<close>.
\<close>

definition decodeAt :: "string \<Rightarrow> nat \<times> string" where
  "decodeAt s = (let (r, n) = decodeRune s in (r, drop n s))"

section \<open>Parts of a pattern\<close>

text \<open>
  The end of a chunk: an escaped character is skipped, a star inside brackets does not end it.
\<close>

fun chunkEnd :: "bool \<Rightarrow> string \<Rightarrow> string \<times> string" where
  "chunkEnd inrange [] = ([], [])"
| "chunkEnd inrange (c # cs) =
     (if c = CHR 0x5C then
        (case cs of [] \<Rightarrow> ([c], [])
         | d # ds \<Rightarrow> (case chunkEnd inrange ds of (a, b) \<Rightarrow> (c # d # a, b)))
      else if c = CHR ''*'' \<and> \<not> inrange then ([], c # cs)
      else (case chunkEnd (if c = CHR ''['' then True else if c = CHR '']'' then False else inrange) cs
            of (a, b) \<Rightarrow> (c # a, b)))"

definition scanChunk :: "string \<Rightarrow> bool \<times> string \<times> string" where
  "scanChunk p =
     (let q = dropWhile (\<lambda>c. c = CHR ''*'') p in (p \<noteq> [] \<and> hd p = CHR ''*'', chunkEnd False q))"

definition getEsc :: "string \<Rightarrow> (nat \<times> string) option" where
  "getEsc chunk = (case chunk of
      [] \<Rightarrow> None
    | c # cs \<Rightarrow>
       (if c = CHR ''-'' \<or> c = CHR '']'' then None
        else
          (let body = (if c = CHR 0x5C then cs else chunk) in
           if body = [] then None
           else
             (let (r, n) = decodeRune body; rest = drop n body in
              if r = runeError \<and> n = 1 then None
              else if rest = [] then None else Some (r, rest)))))"

lemma decodeRune_positive: "s \<noteq> [] \<Longrightarrow> 1 \<le> snd (decodeRune s)"
  by (cases s) (simp_all add: decodeRune_width [simplified])

lemma getEsc_shorter: "getEsc s = Some (r, t) \<Longrightarrow> t \<noteq> [] \<and> length t < length s"
proof -
  assume a: "getEsc s = Some (r, t)"
  then obtain c cs where s: "s = c # cs" by (cases s) (auto simp: getEsc_def)
  let ?body = "if c = CHR 0x5C then cs else s"
  have ne: "?body \<noteq> []" and t: "t = drop (snd (decodeRune ?body)) ?body" "t \<noteq> []"
    using a s by (auto simp: getEsc_def Let_def split: if_splits prod.splits)
  have "length t < length ?body"
    using t decodeRune_positive [OF ne] by simp
  moreover have "length ?body \<le> length s" using s by simp
  ultimately show ?thesis using t by simp
qed

text \<open>
  The ranges of a bracket expression.  The Boolean tells whether a range has been read (the
  code's \<open>nrange > 0\<close>); the result is whether the rune \<open>r\<close> is in one of them, and the
  pattern after the closing bracket.
\<close>

function matchRanges :: "nat \<Rightarrow> bool \<Rightarrow> bool \<Rightarrow> string \<Rightarrow> (bool \<times> string) option" where
  "matchRanges r seen matched chunk =
     (if seen \<and> chunk \<noteq> [] \<and> hd chunk = CHR '']'' then Some (matched, tl chunk)
      else case getEsc chunk of
          None \<Rightarrow> None
        | Some (lo, rest) \<Rightarrow>
            if hd rest = CHR ''-'' then
              (case getEsc (tl rest) of
                  None \<Rightarrow> None
                | Some (hi, rest') \<Rightarrow>
                    matchRanges r True (matched \<or> (lo \<le> r \<and> r \<le> hi)) rest')
            else matchRanges r True (matched \<or> r = lo) rest)"
  by pat_completeness auto
termination
proof (relation "measure (\<lambda>(r, seen, matched, chunk). length chunk)", goal_cases)
  case 1
  then show ?case by simp
next
  case (2 r seen matched chunk x lo rest y hi rest')
  then show ?case
    using getEsc_shorter [of chunk lo rest] getEsc_shorter [of "tl rest" hi rest'] by auto
next
  case (3 r seen matched chunk x lo rest)
  then show ?case using getEsc_shorter [of chunk lo rest] by auto
qed

declare matchRanges.simps [simp del]

lemma matchRanges_shorter: "matchRanges r seen m s = Some (m', t) \<Longrightarrow> length t < length s"
proof (induction r seen m s rule: matchRanges.induct)
  case (1 r seen m s)
  show ?case
  proof (cases "seen \<and> s \<noteq> [] \<and> hd s = CHR '']''")
    case True
    with "1.prems" show ?thesis by (subst (asm) matchRanges.simps) auto
  next
    case False
    then obtain lo rest where lo: "getEsc s = Some (lo, rest)"
      using "1.prems" by (subst (asm) matchRanges.simps) (auto split: option.splits)
    note len = getEsc_shorter [OF lo]
    show ?thesis
    proof (cases "hd rest = CHR ''-''")
      case True
      then obtain hi rest' where hi: "getEsc (tl rest) = Some (hi, rest')"
        using "1.prems" False lo by (subst (asm) matchRanges.simps) (auto split: option.splits)
      have "matchRanges r True (m \<or> (lo \<le> r \<and> r \<le> hi)) rest' = Some (m', t)"
        using "1.prems" False lo True hi by (subst (asm) matchRanges.simps) auto
      then have "length t < length rest'" using "1.IH"(1) [OF False lo refl True hi refl] by blast
      then show ?thesis using len getEsc_shorter [OF hi] by (simp add: less_diff_conv)
    next
      case nodash: False
      have "matchRanges r True (m \<or> r = lo) rest = Some (m', t)"
        using "1.prems" False lo nodash by (subst (asm) matchRanges.simps) auto
      then have "length t < length rest" using "1.IH"(2) [OF False lo refl nodash] by blast
      then show ?thesis using len by simp
    qed
  qed
qed

section \<open>One part against the start of a name\<close>

text \<open>
  The name is \<open>Some s\<close> while the match has not failed and \<open>None\<close> afterwards; the result is
  \<open>None\<close> for a bad pattern, \<open>Some None\<close> for no match and \<open>Some (Some rest)\<close> for a match.
\<close>

function matchChunk :: "string \<Rightarrow> string option \<Rightarrow> string option option" where
  "matchChunk [] s = Some s"
| "matchChunk (c # cs) s0 =
     (let s = (if s0 = Some [] then None else s0) in
      if c = CHR ''['' then
        (let negated = (cs \<noteq> [] \<and> hd cs = CHR ''^'');
             r = (case s of None \<Rightarrow> 0 | Some t \<Rightarrow> fst (decodeAt t));
             s' = (case s of None \<Rightarrow> None | Some t \<Rightarrow> Some (snd (decodeAt t)))
         in case matchRanges r False False (if negated then tl cs else cs) of
              None \<Rightarrow> None
            | Some (m, rest) \<Rightarrow> matchChunk rest (if m = negated then None else s'))
      else if c = CHR ''?'' then
        matchChunk cs
          (case s of None \<Rightarrow> None
           | Some t \<Rightarrow> if hd t = CHR ''/'' then None else Some (snd (decodeAt t)))
      else if c = CHR 0x5C then
        (case cs of [] \<Rightarrow> None
         | d # ds \<Rightarrow> matchChunk ds (case s of None \<Rightarrow> None | Some t \<Rightarrow> if d \<noteq> hd t then None else Some (tl t)))
      else
        matchChunk cs (case s of None \<Rightarrow> None | Some t \<Rightarrow> if c \<noteq> hd t then None else Some (tl t)))"
  by pat_completeness auto
termination
proof (relation "measure (\<lambda>(chunk, s). length chunk)", goal_cases)
  case (2 c cs s0 s negated r s' x m rest)
  then have "length rest < length (if negated then tl cs else cs)"
    using matchRanges_shorter [of r False False "if negated then tl cs else cs" m rest] by simp
  then show ?case by (simp split: if_splits)
qed auto

declare matchChunk.simps(2) [simp del]

section \<open>The whole pattern\<close>

text \<open>The search of a part after a star: at least one and at most all bytes up to a slash.\<close>

fun starSearch :: "string \<Rightarrow> bool \<Rightarrow> string \<Rightarrow> string option option" where
  "starSearch chunk lastChunk [] = Some None"
| "starSearch chunk lastChunk (c # cs) =
     (if c = CHR ''/'' then Some None
      else case matchChunk chunk (Some cs) of
          None \<Rightarrow> None
        | Some (Some t) \<Rightarrow>
            if lastChunk \<and> t \<noteq> [] then starSearch chunk lastChunk cs else Some (Some t)
        | Some None \<Rightarrow> starSearch chunk lastChunk cs)"

lemma chunkEnd_length: "chunkEnd b p = (x, y) \<Longrightarrow> length x + length y = length p"
  by (induction b p arbitrary: x y rule: chunkEnd.induct) (auto split: if_splits list.splits prod.splits)

lemma chunkEnd_progress: "chunkEnd False (c # p) = (x, y) \<Longrightarrow> c \<noteq> CHR ''*'' \<Longrightarrow> length y < Suc (length p)"
  by (auto split: if_splits list.splits prod.splits dest: chunkEnd_length)

lemma scanChunk_shorter:
  assumes "scanChunk (c # p) = (star, chunk, rest)"
  shows "length rest < Suc (length p)"
proof -
  let ?q = "dropWhile (\<lambda>c. c = CHR ''*'') (c # p)"
  have e: "chunkEnd False ?q = (chunk, rest)"
    using assms unfolding scanChunk_def Let_def by (simp only: prod.inject)
  show ?thesis
  proof (cases ?q)
    case Nil
    with e show ?thesis by auto
  next
    case (Cons d q)
    then have "d \<noteq> CHR ''*''" using hd_dropWhile [of "\<lambda>c. c = CHR ''*''" "c # p"] by auto
    then have "length rest < Suc (length q)" using e Cons chunkEnd_progress [of d q] by simp
    moreover have "length ?q \<le> length (c # p)" by (rule length_dropWhile_le)
    ultimately show ?thesis using Cons by simp
  qed
qed

text \<open>The syntax check of what follows a failed part.\<close>

function restValid :: "string \<Rightarrow> bool" where
  "restValid [] = True"
| "restValid (c # p) =
     (case scanChunk (c # p) of (star, chunk, rest) \<Rightarrow>
        matchChunk chunk (Some []) \<noteq> None \<and> restValid rest)"
  by pat_completeness auto
termination
  by (relation "measure length") (auto dest!: sym [of _ "scanChunk _"] scanChunk_shorter)

function pathMatch :: "string \<Rightarrow> string \<Rightarrow> bool option" where
  "pathMatch [] name = Some (name = [])"
| "pathMatch (c # p) name =
     (case scanChunk (c # p) of (star, chunk, rest) \<Rightarrow>
        if star \<and> chunk = [] then Some (CHR ''/'' \<notin> set name)
        else
          (let giveUp = (if restValid rest then Some False else None) in
           case matchChunk chunk (Some name) of
             None \<Rightarrow> None
           | Some m \<Rightarrow>
               (case (case m of Some t \<Rightarrow> if t = [] \<or> rest \<noteq> [] then Some t else None | None \<Rightarrow> None) of
                  Some t \<Rightarrow> pathMatch rest t
                | None \<Rightarrow>
                    if star then
                      (case starSearch chunk (rest = []) name of
                         None \<Rightarrow> None
                       | Some (Some t) \<Rightarrow> pathMatch rest t
                       | Some None \<Rightarrow> giveUp)
                    else giveUp)))"
  by pat_completeness auto
termination
  by (relation "measure (\<lambda>(p, name). length p)") (auto dest!: sym [of _ "scanChunk _"] scanChunk_shorter)

declare pathMatch.simps(2) [simp del] restValid.simps(2) [simp del]

section \<open>Errors do not depend on the name\<close>

lemma matchRanges_steps:
  "seen \<and> s \<noteq> [] \<and> hd s = CHR '']'' \<Longrightarrow> matchRanges r seen m s = Some (m, tl s)"
  "\<not> (seen \<and> s \<noteq> [] \<and> hd s = CHR '']'') \<Longrightarrow> getEsc s = None \<Longrightarrow> matchRanges r seen m s = None"
  "\<not> (seen \<and> s \<noteq> [] \<and> hd s = CHR '']'') \<Longrightarrow> getEsc s = Some (lo, rest) \<Longrightarrow> hd rest \<noteq> CHR ''-''
     \<Longrightarrow> matchRanges r seen m s = matchRanges r True (m \<or> r = lo) rest"
  "\<not> (seen \<and> s \<noteq> [] \<and> hd s = CHR '']'') \<Longrightarrow> getEsc s = Some (lo, rest) \<Longrightarrow> hd rest = CHR ''-''
     \<Longrightarrow> getEsc (tl rest) = None \<Longrightarrow> matchRanges r seen m s = None"
  "\<not> (seen \<and> s \<noteq> [] \<and> hd s = CHR '']'') \<Longrightarrow> getEsc s = Some (lo, rest) \<Longrightarrow> hd rest = CHR ''-''
     \<Longrightarrow> getEsc (tl rest) = Some (hi, rest')
     \<Longrightarrow> matchRanges r seen m s = matchRanges r True (m \<or> (lo \<le> r \<and> r \<le> hi)) rest'"
  by (subst matchRanges.simps, simp only: if_True if_False option.case prod.case refl simp_thms)+

lemma matchRanges_any:
  "map_option snd (matchRanges r seen m s) = map_option snd (matchRanges r' seen m' s)"
proof (induction r seen m s arbitrary: m' rule: matchRanges.induct)
  case (1 r seen m s)
  show ?case
  proof (cases "seen \<and> s \<noteq> [] \<and> hd s = CHR '']''")
    case True
    show ?thesis by (simp only: matchRanges_steps(1) [OF True] option.map snd_conv)
  next
    case nend: False
    show ?thesis
    proof (cases "getEsc s")
      case None
      then show ?thesis by (simp only: matchRanges_steps(2) [OF nend])
    next
      case (Some p)
      then obtain lo rest where lo: "getEsc s = Some (lo, rest)" by (cases p) auto
      show ?thesis
      proof (cases "hd rest = CHR ''-''")
        case dash: True
        show ?thesis
        proof (cases "getEsc (tl rest)")
          case None
          then show ?thesis by (simp only: matchRanges_steps(4) [OF nend lo dash])
        next
          case (Some q)
          then obtain hi rest' where hi: "getEsc (tl rest) = Some (hi, rest')" by (cases q) auto
          show ?thesis
            unfolding matchRanges_steps(5) [OF nend lo dash hi]
            by (rule "1.IH"(1) [OF nend lo refl dash hi refl])
        qed
      next
        case nodash: False
        show ?thesis
          unfolding matchRanges_steps(3) [OF nend lo nodash]
          by (rule "1.IH"(2) [OF nend lo refl nodash])
      qed
    qed
  qed
qed

lemma matchRanges_None: "matchRanges r seen m s = None \<Longrightarrow> matchRanges r' seen m' s = None"
  using matchRanges_any [of r seen m s r' m'] by simp

lemma matchRanges_Some:
  "matchRanges r seen m s = Some (b, t) \<Longrightarrow> \<exists>b'. matchRanges r' seen m' s = Some (b', t)"
proof -
  assume a: "matchRanges r seen m s = Some (b, t)"
  have "map_option snd (matchRanges r' seen m' s) = Some t"
    by (subst matchRanges_any [of r' seen m' s r m]) (simp add: a)
  then obtain q where q: "matchRanges r' seen m' s = Some q" "snd q = t"
    by (cases "matchRanges r' seen m' s") simp_all
  then have "matchRanges r' seen m' s = Some (fst q, t)" by (cases q) simp
  then show ?thesis by (rule exI)
qed

text \<open>Whether a part is well formed, read off the part alone.\<close>

lemma matchChunk_any: "matchChunk p n = None \<longleftrightarrow> matchChunk p n' = None"
proof (induction "length p" arbitrary: p n n' rule: less_induct)
  case less
  show ?case
  proof (cases p)
    case Nil
    then show ?thesis by simp
  next
    case (Cons c cs)
    have IH: "matchChunk q x = None \<longleftrightarrow> matchChunk q y = None" if "length q \<le> length cs" for q x y
      using less [of q x y] that Cons by simp
    consider (brk) "c = CHR ''[''" | (esc) "c = CHR 0x5C" | (other) "c \<noteq> CHR ''[''" "c \<noteq> CHR 0x5C" by blast
    then show ?thesis
    proof cases
      case brk
      let ?b = "if cs \<noteq> [] \<and> hd cs = CHR ''^'' then tl cs else cs"
      have len: "length ?b \<le> length cs" by simp
      show ?thesis
      proof (cases "matchRanges 0 False False ?b")
        case None
        then have "matchRanges r False False ?b = None" for r by (rule matchRanges_None)
        then show ?thesis using brk Cons by (simp add: matchChunk.simps(2) Let_def)
      next
        case (Some q)
        then obtain b t where q: "matchRanges 0 False False ?b = Some (b, t)" by (cases q) auto
        then have "length t < length ?b" by (rule matchRanges_shorter)
        then have t: "matchChunk t x = None \<longleftrightarrow> matchChunk t y = None" for x y using IH len by simp
        have "matchChunk p x = None \<longleftrightarrow> matchChunk t None = None" for x
        proof -
          let ?s = "if x = Some [] then None else x"
          let ?r = "case ?s of None \<Rightarrow> 0 | Some t \<Rightarrow> fst (decodeAt t)"
          obtain b' where r: "matchRanges ?r False False ?b = Some (b', t)"
            using matchRanges_Some [OF q] by (rule exE)
          have "\<exists>y. matchChunk p x = matchChunk t y"
            unfolding Cons brk matchChunk.simps(2) Let_def using r by (simp only: if_True refl option.case prod.case) blast
          then show ?thesis using t by metis
        qed
        then show ?thesis by simp
      qed
    next
      case esc
      show ?thesis
      proof (cases cs)
        case Nil
        then show ?thesis using esc Cons by (simp add: matchChunk.simps(2) Let_def)
      next
        case (Cons d ds)
        then have "matchChunk ds x = None \<longleftrightarrow> matchChunk ds y = None" for x y by (intro IH) simp
        then show ?thesis using esc Cons \<open>p = c # cs\<close> by (simp add: matchChunk.simps(2) Let_def)
      qed
    next
      case other
      then show ?thesis using IH [of cs] Cons by (simp add: matchChunk.simps(2) Let_def)
    qed
  qed
qed

lemma scanChunk_empty: "star \<and> chunk = [] \<Longrightarrow> scanChunk (c # p) = (star, chunk, rest) \<Longrightarrow> rest = []"
proof -
  assume star: "star \<and> chunk = []" and sc: "scanChunk (c # p) = (star, chunk, rest)"
  let ?q = "dropWhile (\<lambda>c. c = CHR ''*'') (c # p)"
  have e: "chunkEnd False ?q = ([], rest)" using sc star unfolding scanChunk_def Let_def by (simp only: prod.inject)
  show ?thesis
  proof (cases ?q)
    case Nil
    with e show ?thesis by auto
  next
    case (Cons d q)
    then have "d \<noteq> CHR ''*''" using hd_dropWhile [of "\<lambda>c. c = CHR ''*''" "c # p"] by auto
    then show ?thesis using e Cons by (auto split: if_splits list.splits prod.splits)
  qed
qed

lemma starSearch_Some: "matchChunk p (Some []) \<noteq> None \<Longrightarrow> starSearch p l n \<noteq> None"
proof (induction p l n rule: starSearch.induct)
  case (2 p l c cs)
  have "matchChunk p (Some cs) \<noteq> None" using "2.prems" matchChunk_any by metis
  then show ?case using 2 by (auto split: option.splits)
qed simp

text \<open>
  \<open>path.Match\<close> reports a bad pattern whatever the name: its error is a property of the
  pattern, decided by \<open>restValid\<close>.
\<close>

lemma pathMatch_None_iff: "pathMatch p n = None \<longleftrightarrow> \<not> restValid p"
proof (induction "length p" arbitrary: p n rule: less_induct)
  case less
  show ?case
  proof (cases p)
    case Nil
    then show ?thesis by simp
  next
    case (Cons c q)
    obtain star chunk rest where sc: "scanChunk (c # q) = (star, chunk, rest)"
      by (cases "scanChunk (c # q)") auto
    note pm = pathMatch.simps(2) [of c q n] and rv = restValid.simps(2) [of c q]
    have IH: "pathMatch rest t = None \<longleftrightarrow> \<not> restValid rest" for t
      using less scanChunk_shorter [OF sc] Cons by simp
    show ?thesis
    proof (cases "star \<and> chunk = []")
      case True
      then have "rest = []" using sc by (rule scanChunk_empty)
      then show ?thesis using True by (simp add: Cons pm rv sc)
    next
      case nonempty: False
      show ?thesis
      proof (cases "matchChunk chunk (Some n)")
        case None
        moreover from this have "matchChunk chunk (Some []) = None" using matchChunk_any by blast
        ultimately show ?thesis using nonempty by (simp only: Cons pm rv sc) simp
      next
        case (Some m)
        then have ok: "matchChunk chunk (Some []) \<noteq> None"
          using matchChunk_any [of chunk "Some []" "Some n"] by simp
        with starSearch_Some have "starSearch chunk (rest = []) n \<noteq> None" by blast
        then show ?thesis using nonempty Some ok IH
          by (simp only: Cons pm rv sc) (auto split: option.splits)
      qed
    qed
  qed
qed

end
