(* ===== verification/Protocol_Request.thy ===== *)
theory Protocol_Request
  imports Protocol_Types Go_Path_Match
begin

text \<open>
  Validation and canonical form of requests: \<open>protocol/v1/validate.go\<close> and
  \<open>canonical.go\<close>.  Each validator keeps the order of the tests of the code; a loop over
  segments, selections or paths is a sequence of tests or a fold with early return.  The facts
  at the end say what an accepted path, selection and request look like.
\<close>

section \<open>Tables\<close>

definition supportedShells :: "Shell list" where
  "supportedShells = [ShellBash, ShellCmd, ShellGitBash, ShellPowerShell, ShellPwsh]"

definition supportedRequestOperations :: "RequestOperation list" where
  "supportedRequestOperations =
     [RequestOperationExecute, RequestOperationStart, RequestOperationStatus,
      RequestOperationStop, RequestOperationLogs]"

definition reservedWindowsNames :: "string list" where
  "reservedWindowsNames =
     [''aux'', ''con'', ''nul'', ''prn'',
      ''com1'', ''com2'', ''com3'', ''com4'', ''com5'', ''com6'', ''com7'', ''com8'', ''com9'',
      ''lpt1'', ''lpt2'', ''lpt3'', ''lpt4'', ''lpt5'', ''lpt6'', ''lpt7'', ''lpt8'', ''lpt9'']"

definition forbiddenArtifactSegments :: "string list" where
  "forbiddenArtifactSegments =
     [''.aws'', ''.azure'', ''.git'', ''.gnupg'', ''.kube'', ''.runtime'', ''.ssh'']"

section \<open>Identifiers and scripts\<close>

definition validateIdentifier :: "string \<Rightarrow> string \<Rightarrow> ProtocolError + unit" where
  "validateIdentifier field v =
     failIf (length v = 0 \<or> length v > MaxIdentifierBytes \<or> \<not> identifierPattern v)
       (validationError field ''invalid-identifier'')"

definition validateScript :: "string \<Rightarrow> ProtocolError + unit" where
  "validateScript script = checks
     [failIf (\<not> validString script) (validationError ''script'' ''invalid-utf8''),
      failIf (length script = 0 \<or> length script > MaxScriptBytes)
        (validationError ''script'' ''outside-size-limit''),
      failIf (allSpace script) (validationError ''script'' ''empty-script''),
      failIf (containsAny script [CHR 0x00]) (validationError ''script'' ''contains-nul'')]"

section \<open>Working directories\<close>

definition isDotSegment :: "string \<Rightarrow> bool" where
  "isDotSegment s \<longleftrightarrow> s = [] \<or> s = ''.'' \<or> s = ''..''"

definition posixSegment :: "string \<Rightarrow> ProtocolError + unit" where
  "posixSegment s = checks
     [failIf (isDotSegment s) (validationError ''working_directory'' ''non-canonical-posix-segment''),
      failIf (containsControlCharacter s)
        (validationError ''working_directory'' ''contains-control-character'')]"

definition validatePOSIXWorkingDirectory :: "string \<Rightarrow> ProtocolError + unit" where
  "validatePOSIXWorkingDirectory d =
     (if d = ''/'' then Inr ()
      else checks
        [failIf (containsAny d [CHR 0x5C])
           (validationError ''working_directory'' ''ambiguous-posix-separator''),
         checks (map posixSegment (splitOn CHR ''/'' (trimPrefix d ''/'')))])"

definition windowsForbiddenCharacters :: string where
  "windowsForbiddenCharacters = [CHR ''<'', CHR ''>'', CHR '':'', CHR 0x22, CHR ''/'', CHR ''|'', CHR ''?'', CHR ''*'']"

definition windowsSegment :: "string \<Rightarrow> ProtocolError + unit" where
  "windowsSegment s = checks
     [failIf (isDotSegment s) (validationError ''working_directory'' ''non-canonical-windows-segment''),
      failIf (containsControlCharacter s \<or> containsAny s windowsForbiddenCharacters)
        (validationError ''working_directory'' ''invalid-windows-segment''),
      failIf (hasSuffix s ''.'' \<or> hasSuffix s '' '')
        (validationError ''working_directory'' ''ambiguous-windows-segment''),
      failIf (toLower (hd (splitOn CHR ''.'' s)) \<in> set reservedWindowsNames)
        (validationError ''working_directory'' ''reserved-windows-name'')]"

definition validateWindowsWorkingDirectory :: "string \<Rightarrow> ProtocolError + unit" where
  "validateWindowsWorkingDirectory d =
     (if length d = 3 then Inr ()
      else checks (map windowsSegment (splitOn CHR 0x5C (drop 3 d))))"

definition validateWorkingDirectory :: "string \<Rightarrow> ProtocolError + unit" where
  "validateWorkingDirectory d =
     (if \<not> validString d \<or> length d = 0 \<or> length d > MaxWorkingPathBytes
      then Inl (validationError ''working_directory'' ''invalid-size-or-encoding'')
      else if containsAny d [CHR 0x00]
      then Inl (validationError ''working_directory'' ''contains-nul'')
      else if hasPrefix d ''/'' then validatePOSIXWorkingDirectory d
      else if length d \<ge> 3 \<and> isASCIILetter (d ! 0) \<and> d ! 1 = CHR '':'' \<and> d ! 2 = CHR 0x5C
      then validateWindowsWorkingDirectory d
      else Inl (validationError ''working_directory'' ''not-supported-absolute-path''))"

section \<open>Artifact paths\<close>

definition artifactSegment :: "string \<Rightarrow> string \<Rightarrow> ProtocolError + unit" where
  "artifactSegment field s = checks
     [failIf (isDotSegment s) (validationError field ''non-canonical-segment''),
      failIf (containsControlCharacter s) (validationError field ''contains-control-character''),
      failIf (toLower s \<in> set forbiddenArtifactSegments) (validationError field ''sensitive-segment''),
      failIf (toLower s = ''.env'' \<or> hasPrefix (toLower s) ''.env.'')
        (validationError field ''sensitive-segment'')]"

definition validateRelativeArtifactPath ::
    "string \<Rightarrow> string \<Rightarrow> nat \<Rightarrow> bool \<Rightarrow> ProtocolError + unit" where
  "validateRelativeArtifactPath field p maximumBytes allowGlob = checks
     [failIf (\<not> validString p \<or> length p = 0 \<or> length p > maximumBytes)
        (validationError field ''invalid-size-or-encoding''),
      failIf (hasPrefix p ''/'' \<or> containsAny p [CHR 0x5C, CHR '':'', CHR 0x00])
        (validationError field ''not-safe-relative-path''),
      if allowGlob
      then failIf (pathMatch p ''synthetic/path'' = None) (validationError field ''invalid-glob-syntax'')
      else failIf (containsAny p ''*?['') (validationError field ''glob-in-file-path''),
      checks (map (artifactSegment field) (splitOn CHR ''/'' p))]"

definition validateArtifactPath :: "string \<Rightarrow> ProtocolError + unit" where
  "validateArtifactPath p = validateRelativeArtifactPath ''artifacts.paths'' p MaxArtifactPathBytes True"

definition validateArtifactFilePath :: "string \<Rightarrow> ProtocolError + unit" where
  "validateArtifactFilePath p =
     validateRelativeArtifactPath ''artifacts.files.path'' p MaxArtifactFilePathBytes False"

definition validateArtifactOmissionPattern :: "string \<Rightarrow> ProtocolError + unit" where
  "validateArtifactOmissionPattern p =
     validateRelativeArtifactPath ''artifacts.omissions.pattern'' p MaxArtifactPathBytes True"

section \<open>Artifact selections\<close>

text \<open>One path of a selection: the state is the paths seen and the running total.\<close>

definition selectionPath :: "string \<Rightarrow> string list \<times> nat \<Rightarrow> ProtocolError + (string list \<times> nat)" where
  "selectionPath p st = (case st of (seenPaths, totalPaths) \<Rightarrow>
     bindR (validateArtifactPath p) (\<lambda>_.
     bindR (failIf (p \<in> set seenPaths) (validationError ''artifacts.paths'' ''duplicate-path'')) (\<lambda>_.
     Inr (p # seenPaths, totalPaths + 1))))"

text \<open>One selection: the state is the group names seen and the running total.\<close>

definition selectionGroup ::
    "ArtifactSelection \<Rightarrow> string list \<times> nat \<Rightarrow> ProtocolError + (string list \<times> nat)" where
  "selectionGroup a st = (case st of (groupNames, totalPaths) \<Rightarrow>
     bindR (checks
       [failIf (length (sel_Name a) = 0 \<or> length (sel_Name a) > MaxArtifactGroupBytes
                \<or> \<not> identifierPattern (sel_Name a))
          (validationError ''artifacts.name'' ''invalid-identifier''),
        failIf (sel_Name a \<in> set groupNames) (validationError ''artifacts.name'' ''duplicate-group''),
        failIf (length (sel_Paths a) = 0 \<or> length (sel_Paths a) > MaxArtifactPaths)
          (validationError ''artifacts.paths'' ''outside-count-limit'')]) (\<lambda>_.
     bindR (foldR selectionPath (sel_Paths a) ([], totalPaths)) (\<lambda>(seenPaths, total).
     Inr (sel_Name a # groupNames, total))))"

definition validateArtifactSelections :: "ArtifactSelection slice \<Rightarrow> ProtocolError + unit" where
  "validateArtifactSelections artifacts =
     (case artifacts of
        None \<Rightarrow> Inl (validationError ''artifacts'' ''required-array'')
      | Some as \<Rightarrow>
          bindR (failIf (length as > MaxArtifactGroups) (validationError ''artifacts'' ''too-many-groups'')) (\<lambda>_.
          bindR (foldR selectionGroup as ([], 0)) (\<lambda>(groupNames, totalPaths).
          failIf (totalPaths > MaxTotalArtifactPaths)
            (validationError ''artifacts.paths'' ''too-many-total-paths''))))"

section \<open>Requests\<close>

definition ValidateRequest :: "Request \<Rightarrow> ProtocolError + unit" where
  "ValidateRequest r = checks
     [failIf (rq_ProtocolVersion r \<noteq> Version) (validationError ''protocol_version'' ''unsupported-version''),
      validateIdentifier ''request_id'' (rq_RequestID r),
      validateIdentifier ''session_id'' (rq_SessionID r),
      validateIdentifier ''actor'' (rq_Actor r),
      failIf (rq_Operation r \<notin> set supportedRequestOperations)
        (validationError ''operation'' ''unsupported-operation''),
      if rq_Operation r = RequestOperationExecute
      then failIf (rq_ProcessID r \<noteq> []) (validationError ''process_id'' ''execute-requires-empty'')
      else validateIdentifier ''process_id'' (rq_ProcessID r),
      failIf (rq_Shell r \<notin> set supportedShells) (validationError ''shell'' ''unsupported-shell''),
      validateWorkingDirectory (rq_WorkingDirectory r),
      validateScript (rq_Script r),
      failIf (rq_Operation r \<noteq> RequestOperationExecute \<and> rq_Operation r \<noteq> RequestOperationStart
              \<and> rq_Script r \<noteq> ''-'')
        (validationError ''script'' ''lifecycle-placeholder-required''),
      failIf (rq_TimeoutSeconds r < MinTimeoutSeconds \<or> rq_TimeoutSeconds r > MaxTimeoutSeconds)
        (validationError ''timeout_seconds'' ''outside-allowed-range''),
      failIf (rq_MaxOutputBytes r < MinOutputBytes \<or> rq_MaxOutputBytes r > MaxOutputBytes)
        (validationError ''max_output_bytes'' ''outside-allowed-range''),
      validateArtifactSelections (rq_Artifacts r),
      failIf (rq_Operation r \<noteq> RequestOperationExecute \<and> length (sl (rq_Artifacts r)) \<noteq> 0)
        (validationError ''artifacts'' ''lifecycle-requires-empty'')]"

section \<open>Canonical form and digest (\<open>canonical.go\<close>)\<close>

definition selectionJson :: "ArtifactSelection \<Rightarrow> json" where
  "selectionJson a = JObj
     [(''name'', JStr (sel_Name a)), (''paths'', JArr (map JStr (sel_Paths a)))]"

definition requestJson :: "Request \<Rightarrow> json" where
  "requestJson r = JObj
     [(''protocol_version'', JInt (uint (rq_ProtocolVersion r))),
      (''request_id'', JStr (rq_RequestID r)),
      (''session_id'', JStr (rq_SessionID r)),
      (''actor'', JStr (rq_Actor r)),
      (''operation'', JStr (rq_Operation r)),
      (''process_id'', JStr (rq_ProcessID r)),
      (''shell'', JStr (rq_Shell r)),
      (''working_directory'', JStr (rq_WorkingDirectory r)),
      (''script'', JStr (rq_Script r)),
      (''timeout_seconds'', JInt (rq_TimeoutSeconds r)),
      (''max_output_bytes'', JInt (rq_MaxOutputBytes r)),
      (''artifacts'', jsonSlice selectionJson (rq_Artifacts r))]"

definition marshalCanonicalRecord :: "json \<Rightarrow> nat \<Rightarrow> string \<Rightarrow> ProtocolError + string" where
  "marshalCanonicalRecord record maximumBytes field =
     (let encoded = encodeJson record in
      if length encoded > maximumBytes then Inl (validationError field ''canonical-size-limit'')
      else Inr encoded)"

definition MarshalCanonicalRequest :: "Request \<Rightarrow> ProtocolError + string" where
  "MarshalCanonicalRequest r =
     bindR (ValidateRequest r) (\<lambda>_. marshalCanonicalRecord (requestJson r) MaxRequestBytes ''request'')"

definition digestCanonicalBytes :: "string \<Rightarrow> string" where
  "digestCanonicalBytes encoded = sha256Hex encoded"

definition DigestRequest :: "Request \<Rightarrow> ProtocolError + string" where
  "DigestRequest r = bindR (MarshalCanonicalRequest r) (\<lambda>encoded. Inr (digestCanonicalBytes encoded))"

section \<open>What accepted paths and selections look like\<close>

lemma validateIdentifier_ok [simp]:
  "validateIdentifier field v = Inr u \<longleftrightarrow> identifierPattern v"
  using identifierPattern_length [of v] by (auto simp: validateIdentifier_def MaxIdentifierBytes_def)

lemma validateIdentifier_error:
  "validateIdentifier field v = Inl e \<Longrightarrow> e = validationError field ''invalid-identifier''"
  by (simp add: validateIdentifier_def)

lemma artifactSegment_ok:
  "artifactSegment field s = Inr u \<longleftrightarrow>
     \<not> isDotSegment s \<and> \<not> containsControlCharacter s \<and> toLower s \<notin> set forbiddenArtifactSegments
     \<and> toLower s \<noteq> ''.env'' \<and> \<not> hasPrefix (toLower s) ''.env.''"
  by (simp add: artifactSegment_def)

lemma validateRelativeArtifactPath_ok:
  "validateRelativeArtifactPath field p n glob = Inr u \<longleftrightarrow>
     validString p \<and> p \<noteq> [] \<and> length p \<le> n
     \<and> \<not> hasPrefix p ''/'' \<and> \<not> containsAny p [CHR 0x5C, CHR '':'', CHR 0x00]
     \<and> (if glob then pathMatch p ''synthetic/path'' \<noteq> None else \<not> containsAny p ''*?['')
     \<and> (\<forall>s\<in>set (splitOn CHR ''/'' p). artifactSegment field s = Inr ())"
  by (auto simp: validateRelativeArtifactPath_def)

text \<open>The field of the error is the only thing that depends on the caller.\<close>

lemma artifactPath_field:
  "isOk (validateRelativeArtifactPath f p n g) \<longleftrightarrow> isOk (validateRelativeArtifactPath f' p n g)"
  by (simp add: isOk_iff validateRelativeArtifactPath_ok artifactSegment_ok)

text \<open>
  What a path of segments means: starting in the directory \<open>base\<close> (its segments from the
  root), an empty or single-dot segment stays, two dots go up, any other segment goes down.
\<close>

fun walk :: "string list \<Rightarrow> string list \<Rightarrow> string list option" where
  "walk base [] = Some base"
| "walk base (s # ss) =
     (if s = [] \<or> s = ''.'' then walk base ss
      else if s = ''..'' then (if base = [] then None else walk (butlast base) ss)
      else walk (base @ [s]) ss)"

lemma walk_plain: "list_all (\<lambda>s. \<not> isDotSegment s) ss \<Longrightarrow> walk base ss = Some (base @ ss)"
  by (induction ss arbitrary: base) (auto simp: isDotSegment_def)

lemma selectionPaths_ok:
  "foldR selectionPath ps (seen, n) = Inr (seen', n') \<longleftrightarrow>
     (\<forall>p\<in>set ps. validateArtifactPath p = Inr ()) \<and> distinct ps \<and> set ps \<inter> set seen = {}
     \<and> seen' = rev ps @ seen \<and> n' = n + length ps"
proof (induction ps arbitrary: seen n)
  case Nil
  then show ?case by auto
next
  case (Cons p ps)
  show ?case
  proof (cases "validateArtifactPath p = Inr () \<and> p \<notin> set seen")
    case True
    then have "selectionPath p (seen, n) = Inr (p # seen, n + 1)" by (simp add: selectionPath_def)
    then show ?thesis using Cons.IH [of "p # seen" "n + 1"] True by auto
  next
    case False
    then have "\<exists>e. selectionPath p (seen, n) = Inl e"
      by (cases "validateArtifactPath p") (auto simp: selectionPath_def)
    then show ?thesis using False by auto
  qed
qed

definition groupOk :: "ArtifactSelection \<Rightarrow> bool" where
  "groupOk a \<longleftrightarrow> identifierPattern (sel_Name a) \<and> length (sel_Name a) \<le> MaxArtifactGroupBytes
     \<and> 1 \<le> length (sel_Paths a) \<and> length (sel_Paths a) \<le> MaxArtifactPaths
     \<and> (\<forall>p\<in>set (sel_Paths a). validateArtifactPath p = Inr ()) \<and> distinct (sel_Paths a)"

lemma selectionGroup_ok:
  "selectionGroup a (names, n) = Inr st \<longleftrightarrow>
     groupOk a \<and> sel_Name a \<notin> set names \<and> st = (sel_Name a # names, n + length (sel_Paths a))"
proof -
  have "selectionGroup a (names, n) = Inr st \<longleftrightarrow>
      (identifierPattern (sel_Name a) \<and> length (sel_Name a) \<le> MaxArtifactGroupBytes
       \<and> sel_Name a \<notin> set names \<and> sel_Paths a \<noteq> [] \<and> length (sel_Paths a) \<le> MaxArtifactPaths)
      \<and> (\<exists>seen total. foldR selectionPath (sel_Paths a) ([], n) = Inr (seen, total)
           \<and> st = (sel_Name a # names, total))"
    using identifierPattern_length [of "sel_Name a"]
    by (auto simp: selectionGroup_def bindR_eq_Inr)
  then show ?thesis by (auto simp: selectionPaths_ok groupOk_def Suc_le_eq)
qed

lemma selectionGroups_ok:
  "foldR selectionGroup as (names, n) = Inr (names', n') \<longleftrightarrow>
     (\<forall>a\<in>set as. groupOk a) \<and> distinct (map sel_Name as)
     \<and> set (map sel_Name as) \<inter> set names = {}
     \<and> names' = rev (map sel_Name as) @ names
     \<and> n' = n + sum_list (map (\<lambda>a. length (sel_Paths a)) as)"
proof (induction as arbitrary: names n)
  case Nil
  then show ?case by auto
next
  case (Cons a as)
  show ?case
  proof (cases "groupOk a \<and> sel_Name a \<notin> set names")
    case True
    then have "selectionGroup a (names, n) = Inr (sel_Name a # names, n + length (sel_Paths a))"
      by (simp add: selectionGroup_ok)
    then show ?thesis using Cons.IH True by auto
  next
    case False
    then have "\<nexists>st. selectionGroup a (names, n) = Inr st" by (auto simp: selectionGroup_ok)
    then have "\<exists>e. selectionGroup a (names, n) = Inl e" by (meson sum.exhaust_sel obj_sumE)
    then show ?thesis using False by auto
  qed
qed

text \<open>The fold over selections decides a condition on the whole list.\<close>

lemma validateArtifactSelections_ok:
  "validateArtifactSelections artifacts = Inr u \<longleftrightarrow>
     (\<exists>as. artifacts = Some as \<and> length as \<le> MaxArtifactGroups \<and> (\<forall>a\<in>set as. groupOk a)
        \<and> distinct (map sel_Name as)
        \<and> sum_list (map (\<lambda>a. length (sel_Paths a)) as) \<le> MaxTotalArtifactPaths)"
proof (cases artifacts)
  case None
  then show ?thesis by (simp add: validateArtifactSelections_def)
next
  case (Some as)
  show ?thesis
    unfolding validateArtifactSelections_def Some
    by (auto simp: bindR_eq_Inr selectionGroups_ok)
qed

end
