(* ===== verification/Protocol_Result.thy ===== *)
theory Protocol_Result
  imports Protocol_Request
begin

text \<open>
  Validation of provenance, timestamps, execution reports and result records:
  \<open>protocol/v1/records_validate.go\<close> and \<open>result_validate.go\<close>.  The loops over artifact
  files and omissions are folds whose state is the map of identities seen and, for files, the
  running \<open>int64\<close> byte count.
\<close>

section \<open>Provenance, digests and timestamps (\<open>records_validate.go\<close>)\<close>

definition repositoryChar :: "char \<Rightarrow> bool" where
  "repositoryChar c \<longleftrightarrow> isASCIILetter c \<or> isDigit c \<or> c \<in> set ''_.-''"

definition repositoryPattern :: "string \<Rightarrow> bool" where
  "repositoryPattern s \<longleftrightarrow>
     (case splitOn CHR ''/'' s of
        [owner, name] \<Rightarrow>
          1 \<le> length owner \<and> length owner \<le> 100 \<and> list_all repositoryChar owner
          \<and> 1 \<le> length name \<and> length name \<le> 100 \<and> list_all repositoryChar name
      | _ \<Rightarrow> False)"

definition senderLoginPattern :: "string \<Rightarrow> bool" where
  "senderLoginPattern =
     matchHeadTail (\<lambda>c. isASCIILetter c \<or> isDigit c) (\<lambda>c. isASCIILetter c \<or> isDigit c \<or> c = CHR ''-'') 38"

definition validateIssueProvenance :: "IssueProvenance \<Rightarrow> ProtocolError + unit" where
  "validateIssueProvenance issue = checks
     [failIf (is_Number issue \<le> 0) (validationError ''issue.number'' ''must-be-positive''),
      failIf (is_SenderID issue \<le> 0) (validationError ''issue.sender_id'' ''must-be-positive''),
      failIf (length (is_NodeID issue) = 0 \<or> length (is_NodeID issue) > 128
              \<or> list_ex isSpaceRune (runes (is_NodeID issue)) \<or> containsControlCharacter (is_NodeID issue))
        (validationError ''issue.node_id'' ''invalid-node-id''),
      failIf (\<not> senderLoginPattern (is_SenderLogin issue))
        (validationError ''issue.sender_login'' ''invalid-login'')]"

definition validateLowerHex :: "string \<Rightarrow> string \<Rightarrow> nat \<Rightarrow> ProtocolError + unit" where
  "validateLowerHex field v expectedLength =
     failIf (\<not> isLowerHex expectedLength v) (validationError field ''invalid-lower-hex'')"

definition validateWorkflowProvenance :: "WorkflowProvenance \<Rightarrow> ProtocolError + unit" where
  "validateWorkflowProvenance w = checks
     [failIf (\<not> repositoryPattern (wf_Repository w))
        (validationError ''workflow.repository'' ''invalid-repository''),
      failIf (wf_RunID w \<le> 0) (validationError ''workflow.run_id'' ''must-be-positive''),
      failIf (wf_RunAttempt w \<le> 0) (validationError ''workflow.run_attempt'' ''must-be-positive''),
      failIf (wf_EventName w \<noteq> ''issues'' \<or> wf_EventAction w \<noteq> ''opened'')
        (validationError ''workflow.event'' ''unexpected-event''),
      validateLowerHex ''workflow.head_sha'' (wf_HeadSHA w) 40]"

definition validateCanonicalUTCTimestamp :: "string \<Rightarrow> string \<Rightarrow> ProtocolError + instant" where
  "validateCanonicalUTCTimestamp field v =
     (case parseRFC3339Nano v of
        None \<Rightarrow> Inl (validationError field ''invalid-timestamp'')
      | Some parsed \<Rightarrow>
          if formatRFC3339Nano parsed \<noteq> v then Inl (validationError field ''not-canonical-utc'')
          else Inr parsed)"

section \<open>Outcomes and output metadata (\<open>result_validate.go\<close>)\<close>

definition supportedCommandStatuses :: "CommandStatus list" where
  "supportedCommandStatuses =
     [CommandStatusCancelled, CommandStatusCompleted, CommandStatusFailed,
      CommandStatusRuntimeFailed, CommandStatusTimedOut]"

definition supportedArtifactStatuses :: "ArtifactStatus list" where
  "supportedArtifactStatuses =
     [ArtifactStatusComplete, ArtifactStatusCompleteWithOmissions, ArtifactStatusFailed,
      ArtifactStatusNotRequested]"

definition supportedArtifactOmissionReasons :: "ArtifactOmissionReason list" where
  "supportedArtifactOmissionReasons =
     [ArtifactOmissionByteLimit, ArtifactOmissionCollectionFailed, ArtifactOmissionFileLimit,
      ArtifactOmissionLinkRejected, ArtifactOmissionNoMatch, ArtifactOmissionPolicyRejected,
      ArtifactOmissionReadFailed, ArtifactOmissionUnsupportedType]"

definition validateCommandOutcome :: "CommandStatus \<Rightarrow> int option \<Rightarrow> ProtocolError + unit" where
  "validateCommandOutcome status exitCode =
     (if status \<notin> set supportedCommandStatuses
      then Inl (validationError ''command_status'' ''unsupported-status'')
      else if status = CommandStatusCompleted
      then failIf (case exitCode of None \<Rightarrow> True | Some c \<Rightarrow> c \<noteq> 0)
             (validationError ''exit_code'' ''completed-requires-zero'')
      else if status = CommandStatusFailed
      then failIf (case exitCode of None \<Rightarrow> True | Some c \<Rightarrow> c \<le> 0 \<or> c > 4294967295)
             (validationError ''exit_code'' ''failed-requires-platform-code'')
      else failIf (exitCode \<noteq> None) (validationError ''exit_code'' ''status-requires-null''))"

definition validateOutputMetadata :: "string \<Rightarrow> OutputMetadata \<Rightarrow> ProtocolError + unit" where
  "validateOutputMetadata field output = checks
     [validateLowerHex (field @ ''.sha256'') (om_SHA256 output) 64,
      failIf (om_TotalBytes output < 0) (validationError (field @ ''.total_bytes'') ''negative''),
      failIf (om_RetainedBytes output < 0 \<or> om_RetainedBytes output > MaxOutputBytes
              \<or> om_RetainedBytes output > om_TotalBytes output)
        (validationError (field @ ''.retained_bytes'') ''outside-total-bytes''),
      failIf (om_Truncated output \<and> om_RetainedBytes output \<ge> om_TotalBytes output)
        (validationError (field @ ''.truncated'') ''requires-omitted-bytes''),
      failIf (\<not> om_Truncated output \<and> om_RetainedBytes output \<noteq> om_TotalBytes output)
        (validationError (field @ ''.truncated'') ''false-requires-all-bytes'')]"

section \<open>Artifact manifests\<close>

definition validateArtifactStatusShape :: "ArtifactManifest \<Rightarrow> ProtocolError + unit" where
  "validateArtifactStatusShape m =
     (if am_Status m = ArtifactStatusNotRequested
      then failIf (length (sl (am_Files m)) \<noteq> 0 \<or> length (sl (am_Omissions m)) \<noteq> 0)
             (validationError ''artifacts.status'' ''not-requested-requires-empty'')
      else if am_Status m = ArtifactStatusComplete
      then failIf (length (sl (am_Files m)) = 0 \<or> length (sl (am_Omissions m)) \<noteq> 0)
             (validationError ''artifacts.status'' ''complete-requires-files-only'')
      else if am_Status m = ArtifactStatusCompleteWithOmissions \<or> am_Status m = ArtifactStatusFailed
      then failIf (length (sl (am_Omissions m)) = 0)
             (validationError ''artifacts.status'' ''status-requires-omissions'')
      else Inr ())"

definition validateArtifactGroup :: "string \<Rightarrow> string \<Rightarrow> ProtocolError + unit" where
  "validateArtifactGroup field grp =
     failIf (length grp = 0 \<or> length grp > MaxArtifactGroupBytes \<or> \<not> identifierPattern grp)
       (validationError field ''invalid-identifier'')"

definition fileIdentity :: "ArtifactFile \<Rightarrow> string" where
  "fileIdentity f = af_Group f @ CHR 0x00 # af_Path f"

definition omissionIdentity :: "ArtifactOmission \<Rightarrow> string" where
  "omissionIdentity o' = ao_Group o' @ CHR 0x00 # ao_Pattern o' @ CHR 0x00 # ao_Reason o'"

definition manifestFile :: "ArtifactFile \<Rightarrow> string list \<times> int \<Rightarrow> ProtocolError + (string list \<times> int)" where
  "manifestFile f st = (case st of (seenFiles, totalBytes) \<Rightarrow>
     bindR (checks
       [validateArtifactGroup ''artifacts.files.group'' (af_Group f),
        validateArtifactFilePath (af_Path f),
        validateLowerHex ''artifacts.files.sha256'' (af_SHA256 f) 64,
        failIf (af_SizeBytes f < 0 \<or> af_SizeBytes f > MaxArtifactFileBytes)
          (validationError ''artifacts.files.size_bytes'' ''outside-allowed-range''),
        failIf (fileIdentity f \<in> set seenFiles) (validationError ''artifacts.files'' ''duplicate-file'')]) (\<lambda>_.
     let total = wrapInt64 (totalBytes + af_SizeBytes f) in
     bindR (failIf (total > MaxTotalArtifactBytes)
       (validationError ''artifacts.files'' ''total-bytes-exceeded'')) (\<lambda>_.
     Inr (fileIdentity f # seenFiles, total))))"

definition manifestOmission :: "ArtifactOmission \<Rightarrow> string list \<Rightarrow> ProtocolError + string list" where
  "manifestOmission o' seenOmissions =
     bindR (checks
       [validateArtifactGroup ''artifacts.omissions.group'' (ao_Group o'),
        validateArtifactOmissionPattern (ao_Pattern o'),
        failIf (ao_Reason o' \<notin> set supportedArtifactOmissionReasons)
          (validationError ''artifacts.omissions.reason'' ''unsupported-reason''),
        failIf (omissionIdentity o' \<in> set seenOmissions)
          (validationError ''artifacts.omissions'' ''duplicate-omission'')]) (\<lambda>_.
     Inr (omissionIdentity o' # seenOmissions))"

definition validateArtifactManifest :: "ArtifactManifest \<Rightarrow> ProtocolError + unit" where
  "validateArtifactManifest m =
     bindR (checks
       [failIf (am_Status m \<notin> set supportedArtifactStatuses)
          (validationError ''artifacts.status'' ''unsupported-status''),
        failIf (am_Files m = None \<or> am_Omissions m = None)
          (validationError ''artifacts'' ''arrays-required''),
        failIf (length (sl (am_Files m)) > MaxArtifactFiles)
          (validationError ''artifacts.files'' ''too-many-files''),
        failIf (length (sl (am_Omissions m)) > MaxArtifactOmissions)
          (validationError ''artifacts.omissions'' ''too-many-omissions''),
        validateArtifactStatusShape m]) (\<lambda>_.
     bindR (foldR manifestFile (sl (am_Files m)) ([], 0)) (\<lambda>_.
     bindR (foldR manifestOmission (sl (am_Omissions m)) []) (\<lambda>_.
     Inr ())))"

section \<open>Reports and results\<close>

definition ValidateExecutionReport :: "ExecutionReport \<Rightarrow> ProtocolError + unit" where
  "ValidateExecutionReport r =
     bindR (checks
       [failIf (er_ProtocolVersion r \<noteq> Version) (validationError ''protocol_version'' ''unsupported-version''),
        validateIdentifier ''request_id'' (er_RequestID r),
        validateLowerHex ''request_digest'' (er_RequestDigest r) 64,
        validateIdentifier ''attempt_id'' (er_AttemptID r),
        validateLowerHex ''gateway_source_sha'' (er_GatewaySourceSHA r) 40,
        validateCommandOutcome (er_CommandStatus r) (er_ExitCode r)]) (\<lambda>_.
     bindR (validateCanonicalUTCTimestamp ''started_at'' (er_StartedAt r)) (\<lambda>startedAt.
     bindR (validateCanonicalUTCTimestamp ''finished_at'' (er_FinishedAt r)) (\<lambda>finishedAt.
     checks
       [failIf (finishedAt < startedAt) (validationError ''finished_at'' ''before-started-at''),
        failIf (er_DurationMilliseconds r \<noteq> milliseconds (subTime finishedAt startedAt))
          (validationError ''duration_ms'' ''does-not-match-timestamps''),
        validateOutputMetadata ''stdout'' (er_Stdout r),
        validateOutputMetadata ''stderr'' (er_Stderr r),
        validateArtifactManifest (er_Artifacts r)])))"

definition executionReportFromResult :: "ResultRecord \<Rightarrow> ExecutionReport" where
  "executionReportFromResult r =
     \<lparr>er_ProtocolVersion = rr_ProtocolVersion r, er_RequestID = rr_RequestID r,
      er_RequestDigest = rr_RequestDigest r, er_AttemptID = rr_AttemptID r,
      er_GatewaySourceSHA = rr_GatewaySourceSHA r, er_CommandStatus = rr_CommandStatus r,
      er_ExitCode = rr_ExitCode r, er_StartedAt = rr_StartedAt r, er_FinishedAt = rr_FinishedAt r,
      er_DurationMilliseconds = rr_DurationMilliseconds r, er_Stdout = rr_Stdout r,
      er_Stderr = rr_Stderr r, er_Artifacts = rr_Artifacts r\<rparr>"

definition ValidateResultRecord :: "ResultRecord \<Rightarrow> ProtocolError + unit" where
  "ValidateResultRecord r =
     bindR (ValidateExecutionReport (executionReportFromResult r)) (\<lambda>_.
     bindR (validateCanonicalUTCTimestamp ''finished_at'' (rr_FinishedAt r)) (\<lambda>finishedAt.
     bindR (validateCanonicalUTCTimestamp ''finalized_at'' (rr_FinalizedAt r)) (\<lambda>finalizedAt.
     checks
       [failIf (finalizedAt < finishedAt) (validationError ''finalized_at'' ''before-finished-at''),
        validateWorkflowProvenance (rr_Workflow r)])))"

section \<open>Facts about timestamps\<close>

lemma decimal_long: "10000 \<le> n \<Longrightarrow> 5 \<le> length (decimal n)"
proof -
  assume n: "10000 \<le> n"
  have step: "length (decimal k) = Suc (length (decimal (k div 10)))" if "10 \<le> k" for k
    using decimal_step [OF that] by simp
  have "1000 \<le> n div 10" using n by simp
  moreover from this have "100 \<le> n div 10 div 10" by (subst less_eq_div_iff_mult_less_eq) simp_all
  moreover from this have "10 \<le> n div 10 div 10 div 10" by (subst less_eq_div_iff_mult_less_eq) simp_all
  ultimately have "length (decimal n) = length (decimal (n div 10 div 10 div 10 div 10)) + 4"
    using n step [of n] step [of "n div 10"] step [of "n div 10 div 10"]
      step [of "n div 10 div 10 div 10"] by linarith
  moreover have "decimal k \<noteq> []" for k by (subst decimal.simps) simp
  ultimately show ?thesis by (cases "decimal (n div 10 div 10 div 10 div 10)") simp_all
qed

lemma parse_year_head:
  assumes "parseRFC3339Nano s \<noteq> None"
  shows "4 < length s \<and> list_all isDigit (take 4 s) \<and> s ! 4 = CHR ''-''"
proof -
  from assms obtain y r where y: "parseYear s = Some (y, r)" and r: "skipChar CHR ''-'' r \<noteq> None"
    by (auto simp: parseRFC3339Nano_def bind_eq_Some_conv split: prod.splits)
  from y have "4 \<le> length s" "list_all isDigit (take 4 s)" "r = drop 4 s"
    by (auto simp: parseYear_def split: if_splits)
  moreover from r obtain t where "r = CHR ''-'' # t"
    by (auto simp: skipChar_def split: list.splits if_splits)
  ultimately show ?thesis
    by (metis drop_eq_Nil leI list.distinct(1) nth_via_drop)
qed

text \<open>A formatted instant that parses lies in the years that fit four digits.\<close>

lemma parse_format_year:
  assumes "parseRFC3339Nano (formatRFC3339Nano t) \<noteq> None"
  shows "0 \<le> yearOf t \<and> yearOf t \<le> 9999"
proof -
  let ?secs = "t div nanosPerSecond"
  obtain y m d where civil: "civilOfDay (?secs div 86400 + epochDay) = (y, m, d)"
    by (metis prod_cases3)
  then have y: "y = yearOf t" by (simp add: civilOfDay_correct(1) yearOf_def)
  obtain rest where f: "formatRFC3339Nano t = appendInt y 4 @ rest"
    using civil by (simp add: formatRFC3339Nano_def Let_def)
  note h = parse_year_head [OF assms, unfolded f]
  have "0 \<le> y"
  proof (rule ccontr)
    assume "\<not> 0 \<le> y"
    then have "appendInt y 4 = CHR ''-'' # padZeros 4 (decimal (nat \<bar>y\<bar>))" by (simp add: appendInt_def)
    with h show False by (simp add: isDigit_def inRange_def)
  qed
  moreover have "y \<le> 9999"
  proof (rule ccontr)
    assume "\<not> y \<le> 9999"
    then have "5 \<le> length (decimal (nat \<bar>y\<bar>))" by (intro decimal_long) simp
    moreover have "appendInt y 4 = padZeros 4 (decimal (nat \<bar>y\<bar>))" using \<open>0 \<le> y\<close> by (simp add: appendInt_def)
    ultimately have "4 < length (appendInt y 4)" "list_all isDigit (appendInt y 4)"
      by (simp_all add: padZeros_def decimal_digits list_all_iff [of _ "replicate _ _"] isDigit_zero)
    then have "isDigit ((appendInt y 4 @ rest) ! 4)" by (simp add: nth_append list_all_length)
    with h show False by (simp add: isDigit_def inRange_def)
  qed
  ultimately show ?thesis using y by simp
qed

text \<open>
  The validator accepts exactly the canonical texts of the instants of the years 0 to 9999, and
  returns the instant.
\<close>

lemma timestamp_ok:
  "validateCanonicalUTCTimestamp field v = Inr t \<longleftrightarrow>
     v = formatRFC3339Nano t \<and> 0 \<le> yearOf t \<and> yearOf t \<le> 9999"
  using parse_format [of t] parse_format_year [of t]
  by (auto simp: validateCanonicalUTCTimestamp_def split: option.splits)

section \<open>Facts about manifests\<close>

lemma validateLowerHex_ok [simp]: "validateLowerHex field v n = Inr u \<longleftrightarrow> isLowerHex n v"
  by (simp add: validateLowerHex_def)

definition validGroup :: "string \<Rightarrow> bool" where
  "validGroup g \<longleftrightarrow> identifierPattern g \<and> length g \<le> MaxArtifactGroupBytes"

lemma validateArtifactGroup_ok [simp]: "validateArtifactGroup field g = Inr u \<longleftrightarrow> validGroup g"
  using identifierPattern_length [of g] by (auto simp: validateArtifactGroup_def validGroup_def)

definition fileOk :: "ArtifactFile \<Rightarrow> bool" where
  "fileOk f \<longleftrightarrow> validGroup (af_Group f) \<and> validateArtifactFilePath (af_Path f) = Inr ()
     \<and> isLowerHex 64 (af_SHA256 f) \<and> 0 \<le> af_SizeBytes f \<and> af_SizeBytes f \<le> MaxArtifactFileBytes"

definition omissionOk :: "ArtifactOmission \<Rightarrow> bool" where
  "omissionOk o' \<longleftrightarrow> validGroup (ao_Group o') \<and> validateArtifactOmissionPattern (ao_Pattern o') = Inr ()
     \<and> ao_Reason o' \<in> set supportedArtifactOmissionReasons"

text \<open>While the running total is at most the limit the \<open>int64\<close> addition does not wrap.\<close>

lemma manifestFile_ok:
  assumes "0 \<le> n" and "n \<le> MaxTotalArtifactBytes"
  shows "manifestFile f (seen, n) = Inr st \<longleftrightarrow>
     fileOk f \<and> fileIdentity f \<notin> set seen \<and> n + af_SizeBytes f \<le> MaxTotalArtifactBytes
     \<and> st = (fileIdentity f # seen, n + af_SizeBytes f)"
proof -
  have "wrapInt64 (n + af_SizeBytes f) = n + af_SizeBytes f"
    if "0 \<le> af_SizeBytes f" "af_SizeBytes f \<le> MaxArtifactFileBytes"
    using assms that
    by (intro wrapInt64_id) (simp add: isInt64_def minInt64_def maxInt64_def limit_defs)
  then show ?thesis
    by (auto simp: manifestFile_def bindR_eq_Inr Let_def fileOk_def)
qed

lemma manifestFiles_ok:
  assumes "0 \<le> n" and "n \<le> MaxTotalArtifactBytes"
  shows "foldR manifestFile fs (seen, n) = Inr (seen', n') \<longleftrightarrow>
     (\<forall>f\<in>set fs. fileOk f) \<and> distinct (map fileIdentity fs)
     \<and> set (map fileIdentity fs) \<inter> set seen = {}
     \<and> n + sum_list (map af_SizeBytes fs) \<le> MaxTotalArtifactBytes
     \<and> seen' = rev (map fileIdentity fs) @ seen \<and> n' = n + sum_list (map af_SizeBytes fs)"
  using assms
proof (induction fs arbitrary: seen n)
  case Nil
  then show ?case by auto
next
  case (Cons f fs)
  show ?case
  proof (cases "manifestFile f (seen, n)")
    case (Inr st)
    then have f: "fileOk f" "fileIdentity f \<notin> set seen"
      "n + af_SizeBytes f \<le> MaxTotalArtifactBytes" "st = (fileIdentity f # seen, n + af_SizeBytes f)"
      using manifestFile_ok [OF Cons.prems] by blast+
    then have "0 \<le> n + af_SizeBytes f" using Cons.prems by (simp add: fileOk_def)
    then show ?thesis using Cons.IH [of "n + af_SizeBytes f" "fileIdentity f # seen"] f Inr by auto
  next
    case (Inl e)
    have "\<not> (fileOk f \<and> fileIdentity f \<notin> set seen \<and> n + af_SizeBytes f \<le> MaxTotalArtifactBytes)"
      using manifestFile_ok [OF Cons.prems, of f seen] Inl by auto
    moreover have "0 \<le> sum_list (map af_SizeBytes fs)" if "\<forall>f\<in>set fs. fileOk f"
      using that by (intro sum_list_nonneg) (auto simp: fileOk_def)
    ultimately show ?thesis using Inl by auto
  qed
qed

lemma manifestOmission_ok:
  "manifestOmission o' seen = Inr st \<longleftrightarrow>
     omissionOk o' \<and> omissionIdentity o' \<notin> set seen \<and> st = omissionIdentity o' # seen"
proof -
  have "Inr (omissionIdentity o' # seen) = Inr st \<longleftrightarrow> st = omissionIdentity o' # seen" by auto
  then show ?thesis
    by (simp only: manifestOmission_def bindR_eq_Inr omissionOk_def checks_eq_Inr list.set ball_simps
        validateArtifactGroup_ok failIf_eq_Inr) auto
qed

lemma manifestOmissions_ok:
  "foldR manifestOmission os seen = Inr seen' \<longleftrightarrow>
     (\<forall>o'\<in>set os. omissionOk o') \<and> distinct (map omissionIdentity os)
     \<and> set (map omissionIdentity os) \<inter> set seen = {} \<and> seen' = rev (map omissionIdentity os) @ seen"
proof (induction os arbitrary: seen)
  case Nil
  then show ?case by auto
next
  case (Cons o' os)
  show ?case
  proof (cases "manifestOmission o' seen")
    case (Inr st)
    then have o': "omissionOk o'" "omissionIdentity o' \<notin> set seen"
      and st: "st = omissionIdentity o' # seen"
      using manifestOmission_ok [of o' seen st] by blast+
    show ?thesis by (simp add: Inr Cons.IH st o') (use o' in blast)
  next
    case (Inl e)
    then have "\<not> (omissionOk o' \<and> omissionIdentity o' \<notin> set seen)"
      using manifestOmission_ok [of o' seen "omissionIdentity o' # seen"] by fastforce
    then show ?thesis by (simp add: Inl)
  qed
qed

text \<open>The manifest validator decides a condition on the whole manifest.\<close>

lemma validateArtifactManifest_ok:
  "validateArtifactManifest m = Inr u \<longleftrightarrow>
     am_Status m \<in> set supportedArtifactStatuses
     \<and> (\<exists>fs os. am_Files m = Some fs \<and> am_Omissions m = Some os
         \<and> length fs \<le> MaxArtifactFiles \<and> length os \<le> MaxArtifactOmissions
         \<and> validateArtifactStatusShape m = Inr ()
         \<and> (\<forall>f\<in>set fs. fileOk f) \<and> distinct (map fileIdentity fs)
         \<and> sum_list (map af_SizeBytes fs) \<le> MaxTotalArtifactBytes
         \<and> (\<forall>o'\<in>set os. omissionOk o') \<and> distinct (map omissionIdentity os))"
proof -
  have start: "(0::int) \<le> 0" "0 \<le> MaxTotalArtifactBytes" by (simp_all add: MaxTotalArtifactBytes_def)
  show ?thesis
    by (auto simp: validateArtifactManifest_def bindR_eq_Inr manifestFiles_ok [OF start]
        manifestOmissions_ok)
qed

text \<open>Identities determine the group and the path, since a group has no NUL byte.\<close>

lemma append_sep_inject:
  "c \<notin> set a \<Longrightarrow> c \<notin> set b \<Longrightarrow> a @ c # x = b @ c # y \<longleftrightarrow> a = b \<and> x = y"
proof (induction a arbitrary: b)
  case Nil
  then show ?case by (cases b) auto
next
  case (Cons d a)
  then show ?case by (cases b) auto
qed

lemma fileIdentity_inject:
  "fileOk f \<Longrightarrow> fileOk g \<Longrightarrow>
     fileIdentity f = fileIdentity g \<longleftrightarrow> af_Group f = af_Group g \<and> af_Path f = af_Path g"
  by (simp add: fileIdentity_def fileOk_def validGroup_def append_sep_inject identifierPattern_no_nul)

section \<open>Facts about reports\<close>

definition outputOk :: "OutputMetadata \<Rightarrow> bool" where
  "outputOk out \<longleftrightarrow> isLowerHex 64 (om_SHA256 out) \<and> 0 \<le> om_RetainedBytes out
     \<and> om_RetainedBytes out \<le> MaxOutputBytes \<and> om_RetainedBytes out \<le> om_TotalBytes out
     \<and> (om_Truncated out \<longleftrightarrow> om_RetainedBytes out < om_TotalBytes out)"

lemma validateOutputMetadata_ok [simp]: "validateOutputMetadata field out = Inr u \<longleftrightarrow> outputOk out"
  by (auto simp: validateOutputMetadata_def outputOk_def)

lemma ValidateExecutionReport_ok:
  "ValidateExecutionReport r = Inr u \<longleftrightarrow>
     er_ProtocolVersion r = Version \<and> identifierPattern (er_RequestID r)
     \<and> isLowerHex 64 (er_RequestDigest r) \<and> identifierPattern (er_AttemptID r)
     \<and> isLowerHex 40 (er_GatewaySourceSHA r)
     \<and> validateCommandOutcome (er_CommandStatus r) (er_ExitCode r) = Inr ()
     \<and> (\<exists>startedAt finishedAt.
          validateCanonicalUTCTimestamp ''started_at'' (er_StartedAt r) = Inr startedAt
          \<and> validateCanonicalUTCTimestamp ''finished_at'' (er_FinishedAt r) = Inr finishedAt
          \<and> startedAt \<le> finishedAt
          \<and> er_DurationMilliseconds r = milliseconds (subTime finishedAt startedAt))
     \<and> outputOk (er_Stdout r) \<and> outputOk (er_Stderr r)
     \<and> validateArtifactManifest (er_Artifacts r) = Inr ()"
  by (auto simp: ValidateExecutionReport_def bindR_eq_Inr)

lemma ValidateResultRecord_ok:
  "ValidateResultRecord r = Inr u \<longleftrightarrow>
     ValidateExecutionReport (executionReportFromResult r) = Inr ()
     \<and> (\<exists>finishedAt finalizedAt.
          validateCanonicalUTCTimestamp ''finished_at'' (rr_FinishedAt r) = Inr finishedAt
          \<and> validateCanonicalUTCTimestamp ''finalized_at'' (rr_FinalizedAt r) = Inr finalizedAt
          \<and> finishedAt \<le> finalizedAt)
     \<and> validateWorkflowProvenance (rr_Workflow r) = Inr ()"
  by (auto simp: ValidateResultRecord_def bindR_eq_Inr)

end
