(* ===== verification/Protocol_Records.thy ===== *)
theory Protocol_Records
  imports Protocol_Result
begin

text \<open>
  Accepted requests, the binding of reports and results to them, finalization and the canonical
  encodings: \<open>protocol/v1/accepted_validate.go\<close>, \<open>binding_validate.go\<close>, \<open>finalize.go\<close> and
  the marshalling half of \<open>records_codec.go\<close> (decoding is left to the strict JSON decoder).
\<close>

section \<open>Accepted requests (\<open>accepted_validate.go\<close>)\<close>

definition ValidateAcceptedRequestRecord :: "AcceptedRequestRecord \<Rightarrow> ProtocolError + unit" where
  "ValidateAcceptedRequestRecord r =
     bindR (checks
       [failIf (ar_ProtocolVersion r \<noteq> Version) (validationError ''protocol_version'' ''unsupported-version''),
        validateIdentifier ''request_id'' (ar_RequestID r),
        ValidateRequest (ar_Request r),
        failIf (ar_RequestID r \<noteq> rq_RequestID (ar_Request r))
          (validationError ''request_id'' ''does-not-match-request''),
        validateLowerHex ''request_digest'' (ar_RequestDigest r) 64]) (\<lambda>_.
     bindR (DigestRequest (ar_Request r)) (\<lambda>requestDigest.
     bindR (checks
       [failIf (ar_RequestDigest r \<noteq> requestDigest)
          (validationError ''request_digest'' ''does-not-match-request''),
        validateIssueProvenance (ar_Issue r),
        validateWorkflowProvenance (ar_Workflow r),
        validateLowerHex ''control_source_sha'' (ar_ControlSourceSHA r) 40]) (\<lambda>_.
     bindR (validateCanonicalUTCTimestamp ''accepted_at'' (ar_AcceptedAt r)) (\<lambda>_.
     Inr ()))))"

section \<open>Binding to an accepted request (\<open>binding_validate.go\<close>)\<close>

definition acceptedArtifactGroups :: "AcceptedRequestRecord \<Rightarrow> string list" where
  "acceptedArtifactGroups accepted = map sel_Name (sl (rq_Artifacts (ar_Request accepted)))"

definition ValidateExecutionReportBinding ::
    "AcceptedRequestRecord \<Rightarrow> ExecutionReport \<Rightarrow> ProtocolError + unit" where
  "ValidateExecutionReportBinding accepted report = checks
     ([ValidateAcceptedRequestRecord accepted,
       ValidateExecutionReport report,
       failIf (er_RequestID report \<noteq> ar_RequestID accepted)
         (validationError ''request_id'' ''does-not-match-accepted-request''),
       failIf (er_RequestDigest report \<noteq> ar_RequestDigest accepted)
         (validationError ''request_digest'' ''does-not-match-accepted-request''),
       failIf (om_RetainedBytes (er_Stdout report) > rq_MaxOutputBytes (ar_Request accepted))
         (validationError ''stdout.retained_bytes'' ''exceeds-accepted-output-limit''),
       failIf (om_RetainedBytes (er_Stderr report) > rq_MaxOutputBytes (ar_Request accepted))
         (validationError ''stderr.retained_bytes'' ''exceeds-accepted-output-limit''),
       failIf (acceptedArtifactGroups accepted = []
               \<and> am_Status (er_Artifacts report) \<noteq> ArtifactStatusNotRequested)
         (validationError ''artifacts.status'' ''artifacts-not-requested''),
       failIf (acceptedArtifactGroups accepted \<noteq> []
               \<and> am_Status (er_Artifacts report) = ArtifactStatusNotRequested)
         (validationError ''artifacts.status'' ''requested-artifacts-not-represented'')]
      @ map (\<lambda>f. failIf (af_Group f \<notin> set (acceptedArtifactGroups accepted))
                (validationError ''artifacts.files.group'' ''not-in-accepted-request''))
            (sl (am_Files (er_Artifacts report)))
      @ map (\<lambda>o'. failIf (ao_Group o' \<notin> set (acceptedArtifactGroups accepted))
                (validationError ''artifacts.omissions.group'' ''not-in-accepted-request''))
            (sl (am_Omissions (er_Artifacts report))))"

definition ValidateResultBinding :: "AcceptedRequestRecord \<Rightarrow> ResultRecord \<Rightarrow> ProtocolError + unit" where
  "ValidateResultBinding accepted result = checks
     [ValidateResultRecord result,
      ValidateExecutionReportBinding accepted (executionReportFromResult result),
      failIf (wf_Repository (rr_Workflow result) \<noteq> wf_Repository (ar_Workflow accepted)
              \<or> wf_RunID (rr_Workflow result) \<noteq> wf_RunID (ar_Workflow accepted)
              \<or> wf_RunAttempt (rr_Workflow result) < wf_RunAttempt (ar_Workflow accepted)
              \<or> wf_EventName (rr_Workflow result) \<noteq> wf_EventName (ar_Workflow accepted)
              \<or> wf_EventAction (rr_Workflow result) \<noteq> wf_EventAction (ar_Workflow accepted)
              \<or> wf_HeadSHA (rr_Workflow result) \<noteq> wf_HeadSHA (ar_Workflow accepted))
        (validationError ''workflow'' ''does-not-match-acceptance-run'')]"

section \<open>Finalization (\<open>finalize.go\<close>)\<close>

definition finalizedResult :: "ExecutionReport \<Rightarrow> string \<Rightarrow> WorkflowProvenance \<Rightarrow> ResultRecord" where
  "finalizedResult report finalizedAt workflow =
     \<lparr>rr_ProtocolVersion = er_ProtocolVersion report, rr_RequestID = er_RequestID report,
      rr_RequestDigest = er_RequestDigest report, rr_AttemptID = er_AttemptID report,
      rr_GatewaySourceSHA = er_GatewaySourceSHA report, rr_CommandStatus = er_CommandStatus report,
      rr_ExitCode = er_ExitCode report, rr_StartedAt = er_StartedAt report,
      rr_FinishedAt = er_FinishedAt report,
      rr_DurationMilliseconds = er_DurationMilliseconds report, rr_Stdout = er_Stdout report,
      rr_Stderr = er_Stderr report, rr_Artifacts = er_Artifacts report,
      rr_FinalizedAt = finalizedAt, rr_Workflow = workflow\<rparr>"

definition FinalizeResultRecord ::
    "AcceptedRequestRecord \<Rightarrow> ExecutionReport \<Rightarrow> string \<Rightarrow> WorkflowProvenance
     \<Rightarrow> ProtocolError + ResultRecord" where
  "FinalizeResultRecord accepted report finalizedAt workflow =
     bindR (ValidateExecutionReportBinding accepted report) (\<lambda>_.
     let result = finalizedResult report finalizedAt workflow in
     bindR (ValidateResultBinding accepted result) (\<lambda>_. Inr result))"

section \<open>Canonical encodings (\<open>records_codec.go\<close>)\<close>

definition issueJson :: "IssueProvenance \<Rightarrow> json" where
  "issueJson i = JObj
     [(''number'', JInt (is_Number i)), (''node_id'', JStr (is_NodeID i)),
      (''sender_id'', JInt (is_SenderID i)), (''sender_login'', JStr (is_SenderLogin i))]"

definition workflowJson :: "WorkflowProvenance \<Rightarrow> json" where
  "workflowJson w = JObj
     [(''repository'', JStr (wf_Repository w)), (''run_id'', JInt (wf_RunID w)),
      (''run_attempt'', JInt (wf_RunAttempt w)), (''event_name'', JStr (wf_EventName w)),
      (''event_action'', JStr (wf_EventAction w)), (''head_sha'', JStr (wf_HeadSHA w))]"

definition acceptedJson :: "AcceptedRequestRecord \<Rightarrow> json" where
  "acceptedJson r = JObj
     [(''protocol_version'', JInt (uint (ar_ProtocolVersion r))), (''request_id'', JStr (ar_RequestID r)),
      (''request_digest'', JStr (ar_RequestDigest r)), (''request'', requestJson (ar_Request r)),
      (''issue'', issueJson (ar_Issue r)), (''workflow'', workflowJson (ar_Workflow r)),
      (''control_source_sha'', JStr (ar_ControlSourceSHA r)), (''accepted_at'', JStr (ar_AcceptedAt r))]"

definition outputJson :: "OutputMetadata \<Rightarrow> json" where
  "outputJson o' = JObj
     [(''sha256'', JStr (om_SHA256 o')), (''total_bytes'', JInt (om_TotalBytes o')),
      (''retained_bytes'', JInt (om_RetainedBytes o')), (''truncated'', JBool (om_Truncated o'))]"

definition manifestJson :: "ArtifactManifest \<Rightarrow> json" where
  "manifestJson m = JObj
     [(''status'', JStr (am_Status m)),
      (''files'', jsonSlice (\<lambda>f. JObj
         [(''group'', JStr (af_Group f)), (''path'', JStr (af_Path f)),
          (''sha256'', JStr (af_SHA256 f)), (''size_bytes'', JInt (af_SizeBytes f))]) (am_Files m)),
      (''omissions'', jsonSlice (\<lambda>o'. JObj
         [(''group'', JStr (ao_Group o')), (''pattern'', JStr (ao_Pattern o')),
          (''reason'', JStr (ao_Reason o'))]) (am_Omissions m))]"

definition reportMembers :: "ExecutionReport \<Rightarrow> (string \<times> json) list" where
  "reportMembers r =
     [(''protocol_version'', JInt (uint (er_ProtocolVersion r))), (''request_id'', JStr (er_RequestID r)),
      (''request_digest'', JStr (er_RequestDigest r)), (''attempt_id'', JStr (er_AttemptID r)),
      (''gateway_source_sha'', JStr (er_GatewaySourceSHA r)),
      (''command_status'', JStr (er_CommandStatus r)),
      (''exit_code'', jsonPointer JInt (er_ExitCode r)), (''started_at'', JStr (er_StartedAt r)),
      (''finished_at'', JStr (er_FinishedAt r)), (''duration_ms'', JInt (er_DurationMilliseconds r)),
      (''stdout'', outputJson (er_Stdout r)), (''stderr'', outputJson (er_Stderr r)),
      (''artifacts'', manifestJson (er_Artifacts r))]"

definition reportJson :: "ExecutionReport \<Rightarrow> json" where
  "reportJson r = JObj (reportMembers r)"

text \<open>A result lists the members of its report first, in the same order.\<close>

definition resultJson :: "ResultRecord \<Rightarrow> json" where
  "resultJson r = JObj (reportMembers (executionReportFromResult r)
     @ [(''finalized_at'', JStr (rr_FinalizedAt r)), (''workflow'', workflowJson (rr_Workflow r))])"

definition MarshalCanonicalAcceptedRequestRecord :: "AcceptedRequestRecord \<Rightarrow> ProtocolError + string" where
  "MarshalCanonicalAcceptedRequestRecord r =
     bindR (ValidateAcceptedRequestRecord r) (\<lambda>_.
     marshalCanonicalRecord (acceptedJson r) MaxAcceptedRecordBytes ''accepted_request'')"

definition DigestAcceptedRequestRecord :: "AcceptedRequestRecord \<Rightarrow> ProtocolError + string" where
  "DigestAcceptedRequestRecord r =
     bindR (MarshalCanonicalAcceptedRequestRecord r) (\<lambda>encoded. Inr (digestCanonicalBytes encoded))"

definition MarshalCanonicalExecutionReport :: "ExecutionReport \<Rightarrow> ProtocolError + string" where
  "MarshalCanonicalExecutionReport r =
     bindR (ValidateExecutionReport r) (\<lambda>_.
     marshalCanonicalRecord (reportJson r) MaxExecutionReportBytes ''execution_report'')"

definition DigestExecutionReport :: "ExecutionReport \<Rightarrow> ProtocolError + string" where
  "DigestExecutionReport r =
     bindR (MarshalCanonicalExecutionReport r) (\<lambda>encoded. Inr (digestCanonicalBytes encoded))"

definition MarshalCanonicalResultRecord :: "ResultRecord \<Rightarrow> ProtocolError + string" where
  "MarshalCanonicalResultRecord r =
     bindR (ValidateResultRecord r) (\<lambda>_.
     marshalCanonicalRecord (resultJson r) MaxResultRecordBytes ''result'')"

definition DigestResultRecord :: "ResultRecord \<Rightarrow> ProtocolError + string" where
  "DigestResultRecord r =
     bindR (MarshalCanonicalResultRecord r) (\<lambda>encoded. Inr (digestCanonicalBytes encoded))"

section \<open>Facts about records\<close>

lemma marshalCanonicalRecord_ok:
  "marshalCanonicalRecord j n field = Inr s \<longleftrightarrow> s = encodeJson j \<and> length (encodeJson j) \<le> n"
  by (auto simp: marshalCanonicalRecord_def Let_def)

lemma DigestRequest_ok:
  "DigestRequest r = Inr d \<longleftrightarrow>
     ValidateRequest r = Inr () \<and> length (encodeJson (requestJson r)) \<le> MaxRequestBytes
     \<and> d = sha256Hex (encodeJson (requestJson r))"
  by (auto simp: DigestRequest_def MarshalCanonicalRequest_def marshalCanonicalRecord_ok
      bindR_eq_Inr digestCanonicalBytes_def)

lemma ValidateAcceptedRequestRecord_ok:
  "ValidateAcceptedRequestRecord r = Inr u \<longleftrightarrow>
     ar_ProtocolVersion r = Version \<and> identifierPattern (ar_RequestID r)
     \<and> ar_RequestID r = rq_RequestID (ar_Request r)
     \<and> DigestRequest (ar_Request r) = Inr (ar_RequestDigest r)
     \<and> validateIssueProvenance (ar_Issue r) = Inr ()
     \<and> validateWorkflowProvenance (ar_Workflow r) = Inr ()
     \<and> isLowerHex 40 (ar_ControlSourceSHA r)
     \<and> (\<exists>t. validateCanonicalUTCTimestamp ''accepted_at'' (ar_AcceptedAt r) = Inr t)"
  by (auto simp: ValidateAcceptedRequestRecord_def bindR_eq_Inr DigestRequest_ok)

lemma ValidateExecutionReportBinding_ok:
  "ValidateExecutionReportBinding accepted report = Inr u \<longleftrightarrow>
     ValidateAcceptedRequestRecord accepted = Inr () \<and> ValidateExecutionReport report = Inr ()
     \<and> er_RequestID report = ar_RequestID accepted
     \<and> er_RequestDigest report = ar_RequestDigest accepted
     \<and> om_RetainedBytes (er_Stdout report) \<le> rq_MaxOutputBytes (ar_Request accepted)
     \<and> om_RetainedBytes (er_Stderr report) \<le> rq_MaxOutputBytes (ar_Request accepted)
     \<and> (acceptedArtifactGroups accepted = [] \<longleftrightarrow>
          am_Status (er_Artifacts report) = ArtifactStatusNotRequested)
     \<and> af_Group ` set (sl (am_Files (er_Artifacts report))) \<subseteq> set (acceptedArtifactGroups accepted)
     \<and> ao_Group ` set (sl (am_Omissions (er_Artifacts report))) \<subseteq> set (acceptedArtifactGroups accepted)"
  unfolding ValidateExecutionReportBinding_def checks_eq_Inr set_append set_map ball_Un ball_simps
    list.set failIf_eq_Inr image_subset_iff not_less not_not by blast

lemma executionReportFromResult_finalized [simp]:
  "executionReportFromResult (finalizedResult report t w) = report"
  by (simp add: executionReportFromResult_def finalizedResult_def)

lemma finalizedResult_fields [simp]:
  "rr_FinalizedAt (finalizedResult report t w) = t" "rr_Workflow (finalizedResult report t w) = w"
  by (simp_all add: finalizedResult_def)

lemma finalizedResult_executionReport:
  "finalizedResult (executionReportFromResult r) (rr_FinalizedAt r) (rr_Workflow r) = r"
  by (simp add: executionReportFromResult_def finalizedResult_def)

text \<open>The two validations of \<open>FinalizeResultRecord\<close> amount to the binding of its result.\<close>

lemma FinalizeResultRecord_ok:
  "FinalizeResultRecord accepted report t w = Inr r \<longleftrightarrow>
     r = finalizedResult report t w \<and> ValidateResultBinding accepted r = Inr ()"
proof -
  have "ValidateExecutionReportBinding accepted report = Inr ()"
    if "ValidateResultBinding accepted (finalizedResult report t w) = Inr ()"
    using that by (simp add: ValidateResultBinding_def)
  then show ?thesis by (auto simp: FinalizeResultRecord_def bindR_eq_Inr Let_def)
qed

end
