(* ===== verification/Platform_Path.thy ===== *)
theory Platform_Path
  imports Protocol_Request
begin

text \<open>
  Absolute paths of the two platforms and their containment order:
  \<open>internal/platformpath/path.go\<close>.  A platform is a string because a decoded configuration may
  name any.  The locale \<open>path_order\<close> states what the configuration validator and the execution
  policy rely on: containment is reflexive and transitive, and two directories that contain the
  same path are comparable.
\<close>

section \<open>Containment orders\<close>

locale path_order =
  fixes ok :: "string \<Rightarrow> bool"
    and within :: "string \<Rightarrow> string \<Rightarrow> bool"
  assumes within_refl: "within a a"
    and within_trans: "ok a \<Longrightarrow> ok b \<Longrightarrow> ok c \<Longrightarrow> within a b \<Longrightarrow> within b c \<Longrightarrow> within a c"
    and within_tree: "ok a \<Longrightarrow> ok b \<Longrightarrow> ok c \<Longrightarrow> within a c \<Longrightarrow> within b c \<Longrightarrow> within a b \<or> within b a"
begin

text \<open>Two directories overlap exactly if some path lies in both.\<close>

lemma overlap_iff:
  "ok a \<Longrightarrow> ok b \<Longrightarrow> within a b \<or> within b a \<longleftrightarrow> (\<exists>c. ok c \<and> within a c \<and> within b c)"
  using within_refl within_tree by blast

text \<open>Among directories that do not overlap, at most one contains a path.\<close>

lemma unique_root:
  assumes "ok a" "ok b" "ok c" "within a c" "within b c" and "a \<noteq> b \<Longrightarrow> \<not> (within a b \<or> within b a)"
  shows "a = b"
  using assms within_tree by blast

text \<open>What lies under a directory outside another one never enters that other one.\<close>

lemma outside_stays:
  assumes "ok a" "ok b" "ok c" "within b c" and "\<not> within a b" "\<not> within b a"
  shows "\<not> within a c"
  using assms within_tree by blast

end

section \<open>The code\<close>

type_synonym Platform = string

definition Linux :: Platform where "Linux = ''linux''"
definition Windows :: Platform where "Windows = ''windows''"

lemmas platform_defs [go_defs] = Linux_def Windows_def

definition MaxPathBytes :: nat where "MaxPathBytes = 1024"

text \<open>
  The pattern \<open>(?i)^(aux|con|nul|prn|com[1-9]|lpt[1-9])(?:\..*)?$\<close>: no letter in it has a
  non-ASCII case variant, and a dot matches anything but a newline.
\<close>

definition reservedWindowsNamePattern :: "string \<Rightarrow> bool" where
  "reservedWindowsNamePattern s \<longleftrightarrow>
     map lowerByte (takeWhile (\<lambda>c. c \<noteq> CHR ''.'') s) \<in> set reservedWindowsNames
     \<and> CHR 0x0A \<notin> set (dropWhile (\<lambda>c. c \<noteq> CHR ''.'') s)"

definition validateSegment :: "bool \<Rightarrow> string \<Rightarrow> string + unit" where
  "validateSegment windows s = checks
     ([failIf (s = [] \<or> s = ''.'' \<or> s = ''..'') ''non-canonical-segment'',
       failIf (containsControlCharacter s) ''contains-control-character'']
      @ (if \<not> windows then []
         else [failIf (containsAny s windowsForbiddenCharacters) ''invalid-windows-segment'',
               failIf (hasSuffix s ''.'' \<or> hasSuffix s '' '') ''ambiguous-windows-segment'',
               failIf (reservedWindowsNamePattern s) ''reserved-windows-name'']))"

definition validateSegments :: "string list \<Rightarrow> bool \<Rightarrow> string + unit" where
  "validateSegments segments windows = checks (map (validateSegment windows) segments)"

definition validateLinux :: "string \<Rightarrow> string + unit" where
  "validateLinux v =
     (if \<not> hasPrefix v ''/'' then Inl ''not-absolute''
      else if containsAny v [CHR 0x5C] then Inl ''ambiguous-separator''
      else if v = ''/'' then Inr ()
      else validateSegments (splitOn CHR ''/'' (trimPrefix v ''/'')) False)"

definition validateWindows :: "string \<Rightarrow> string + unit" where
  "validateWindows v =
     (if length v < 3 \<or> \<not> isUpperLetter (v ! 0) \<or> v ! 1 \<noteq> CHR '':'' \<or> v ! 2 \<noteq> CHR 0x5C
      then Inl ''not-canonical-drive-absolute''
      else if containsAny v ''/'' then Inl ''ambiguous-separator''
      else if length v = 3 then Inr ()
      else validateSegments (splitOn CHR 0x5C (drop 3 v)) True)"

definition ValidateAbsolute :: "Platform \<Rightarrow> string \<Rightarrow> string + unit" where
  "ValidateAbsolute platform v =
     (if \<not> validString v \<or> length v = 0 \<or> length v > MaxPathBytes then Inl ''invalid-size-or-encoding''
      else if containsAny v [CHR 0x00] then Inl ''contains-nul''
      else if platform = Linux then validateLinux v
      else if platform = Windows then validateWindows v
      else Inl ''unsupported-platform'')"

definition IsFilesystemRoot :: "Platform \<Rightarrow> string \<Rightarrow> bool" where
  "IsFilesystemRoot platform v \<longleftrightarrow>
     (if platform = Linux then v = ''/''
      else if platform = Windows
      then length v = 3 \<and> isUpperLetter (v ! 0) \<and> drop 1 v = [CHR '':'', CHR 0x5C]
      else False)"

definition Equal :: "Platform \<Rightarrow> string \<Rightarrow> string \<Rightarrow> bool" where
  "Equal platform a b \<longleftrightarrow> (if platform = Windows then equalFold a b else a = b)"

definition Contains :: "Platform \<Rightarrow> string \<Rightarrow> string \<Rightarrow> bool" where
  "Contains platform root candidate \<longleftrightarrow>
     (if Equal platform root candidate then True
      else
        (let separator = (if platform = Windows then [CHR 0x5C] else ''/'');
             pre = (if hasSuffix root separator then root else root @ separator)
         in if platform = Windows then hasPrefix (toLower candidate) (toLower pre)
            else hasPrefix candidate pre))"

definition Overlaps :: "Platform \<Rightarrow> string \<Rightarrow> string \<Rightarrow> bool" where
  "Overlaps platform a b \<longleftrightarrow> Contains platform a b \<or> Contains platform b a"

section \<open>The order on byte strings\<close>

definition dirPrefix :: "char \<Rightarrow> string \<Rightarrow> string" where
  "dirPrefix sep a = (if a \<noteq> [] \<and> last a = sep then a else a @ [sep])"

definition under :: "char \<Rightarrow> string \<Rightarrow> string \<Rightarrow> bool" where
  "under sep a b \<longleftrightarrow> a = b \<or> prefix (dirPrefix sep a) b"

lemma dirPrefix_last: "dirPrefix sep a \<noteq> [] \<and> last (dirPrefix sep a) = sep"
  by (simp add: dirPrefix_def)

lemma prefix_dirPrefix: "prefix a (dirPrefix sep a)"
  by (simp add: dirPrefix_def)

lemma dirPrefix_mono: "prefix (dirPrefix sep a) b \<Longrightarrow> prefix (dirPrefix sep a) (dirPrefix sep b)"
  using prefix_dirPrefix prefix_order.trans by blast

lemma under_trans: "under sep a b \<Longrightarrow> under sep b c \<Longrightarrow> under sep a c"
  using dirPrefix_mono prefix_order.trans by (fastforce simp: under_def)

text \<open>A directory prefix that is a strict prefix of another directory prefix lies under it.\<close>

lemma under_of_prefix:
  assumes "prefix (dirPrefix sep a) (dirPrefix sep b)"
  shows "under sep a b \<or> under sep b a"
proof (cases "dirPrefix sep b = b \<or> dirPrefix sep a \<noteq> dirPrefix sep b")
  case True
  then have "prefix (dirPrefix sep a) b"
  proof
    assume "dirPrefix sep b = b"
    with assms show ?thesis by simp
  next
    assume ne: "dirPrefix sep a \<noteq> dirPrefix sep b"
    show ?thesis
    proof (cases "dirPrefix sep b = b")
      case False
      then have b: "dirPrefix sep b = b @ [sep]" by (auto simp: dirPrefix_def split: if_splits)
      then show ?thesis using assms ne by (metis prefix_snoc)
    qed (use assms in simp)
  qed
  then show ?thesis by (simp add: under_def)
next
  case False
  then have eq: "dirPrefix sep a = b @ [sep]" by (auto simp: dirPrefix_def split: if_splits)
  show ?thesis
  proof (cases "dirPrefix sep a = a")
    case True
    then have "prefix (dirPrefix sep b) a" using False by simp
    then show ?thesis by (simp add: under_def)
  next
    case False
    then have "dirPrefix sep a = a @ [sep]" by (auto simp: dirPrefix_def split: if_splits)
    then show ?thesis using eq by (simp add: under_def)
  qed
qed

lemma under_tree: "under sep a c \<Longrightarrow> under sep b c \<Longrightarrow> under sep a b \<or> under sep b a"
proof -
  assume a: "under sep a c" and b: "under sep b c"
  consider "a = c" | "b = c" | "prefix (dirPrefix sep a) c" "prefix (dirPrefix sep b) c"
    using a b by (auto simp: under_def)
  then show ?thesis
  proof cases
    case 3
    then have "prefix (dirPrefix sep a) (dirPrefix sep b) \<or> prefix (dirPrefix sep b) (dirPrefix sep a)"
      by (metis prefix_same_cases)
    then show ?thesis using under_of_prefix by blast
  qed (use a b in auto)
qed

section \<open>The two platforms\<close>

lemma hasSuffix_single: "hasSuffix s [c] \<longleftrightarrow> s \<noteq> [] \<and> last s = c"
  by (cases s rule: rev_cases) (auto simp: hasSuffix_iff)

lemma Contains_Linux: "Contains Linux a b \<longleftrightarrow> under CHR ''/'' a b"
  by (simp add: Contains_def Equal_def platform_defs under_def dirPrefix_def hasSuffix_single
      hasPrefix_prefix Let_def)

lemma foldRune_lowerByte:
  "byte c < 128 \<Longrightarrow> byte d < 128 \<Longrightarrow> foldRune (byte c) = foldRune (byte d) \<longleftrightarrow> lowerByte c = lowerByte d"
proof -
  assume c: "byte c < 128" and d: "byte d < 128"
  have low: "byte (lowerByte x) = (if 65 \<le> byte x \<and> byte x \<le> 90 then byte x + 32 else byte x)"
    if "byte x < 128" for x
    using that by (simp add: lowerByte_def byte_char_of)
  have "lowerByte c = lowerByte d \<longleftrightarrow> byte (lowerByte c) = byte (lowerByte d)" by simp
  then show ?thesis unfolding low [OF c] low [OF d] using c d
    by (auto simp: foldRune_def simp del: byte_inject)
qed

lemma equalFold_ascii:
  assumes "isASCII a" "isASCII b"
  shows "equalFold a b \<longleftrightarrow> map lowerByte a = map lowerByte b"
proof -
  have "map (\<lambda>c. foldRune (byte c)) a = map (\<lambda>c. foldRune (byte c)) b \<longleftrightarrow> map lowerByte a = map lowerByte b"
    using assms
  proof (induction a arbitrary: b)
    case (Cons c a)
    then show ?case by (cases b) (simp_all add: foldRune_lowerByte)
  qed auto
  then show ?thesis using assms by (simp add: equalFold_def runes_ascii comp_def)
qed

lemma lowerByte_separator: "lowerByte c = CHR 0x5C \<longleftrightarrow> c = CHR 0x5C"
proof -
  have "byte (lowerByte c) = 92 \<longleftrightarrow> byte c = 92"
    using byte_less [of c] by (auto simp: lowerByte_def byte_char_of)
  moreover have "x = CHR 0x5C \<longleftrightarrow> byte x = 92" for x
    using byte_inject [of x "CHR 0x5C"] by simp
  ultimately show ?thesis by simp
qed

lemma Contains_Windows:
  assumes "isASCII a" "isASCII b"
  shows "Contains Windows a b \<longleftrightarrow> under CHR 0x5C (map lowerByte a) (map lowerByte b)"
proof -
  have l: "toLower (if hasSuffix a [CHR 0x5C] then a else a @ [CHR 0x5C]) = dirPrefix CHR 0x5C (map lowerByte a)"
    using assms lowerByte_separator [of "last a"] lowerByte_separator [of "CHR 0x5C"]
    by (auto simp: toLower_def dirPrefix_def hasSuffix_single last_map)
  show ?thesis
    using assms
    by (simp add: Contains_def Equal_def l under_def equalFold_ascii hasPrefix_prefix Let_def)
      (simp add: toLower_def)
qed

text \<open>
  On Linux the order is that of byte strings.  On Windows it is that of the lower-cased byte
  strings, as long as the paths are ASCII (outside ASCII the two case mappings of the code,
  \<open>strings.EqualFold\<close> and \<open>strings.ToLower\<close>, disagree).
\<close>

interpretation linuxPaths: path_order "\<lambda>_. True" "Contains Linux"
proof unfold_locales
  show "Contains Linux a a" for a by (simp add: Contains_Linux under_def)
  show "Contains Linux a b \<Longrightarrow> Contains Linux b c \<Longrightarrow> Contains Linux a c" for a b c
    unfolding Contains_Linux by (rule under_trans)
  show "Contains Linux a c \<Longrightarrow> Contains Linux b c \<Longrightarrow> Contains Linux a b \<or> Contains Linux b a" for a b c
    unfolding Contains_Linux by (rule under_tree)
qed

interpretation windowsPaths: path_order isASCII "Contains Windows"
proof unfold_locales
  show "Contains Windows a a" for a by (simp add: Contains_def Equal_def)
  show "isASCII a \<Longrightarrow> isASCII b \<Longrightarrow> isASCII c \<Longrightarrow> Contains Windows a b \<Longrightarrow> Contains Windows b c
    \<Longrightarrow> Contains Windows a c" for a b c
    unfolding Contains_Windows by (rule under_trans)
  show "isASCII a \<Longrightarrow> isASCII b \<Longrightarrow> isASCII c \<Longrightarrow> Contains Windows a c \<Longrightarrow> Contains Windows b c
    \<Longrightarrow> Contains Windows a b \<or> Contains Windows b a" for a b c
    unfolding Contains_Windows by (rule under_tree)
qed

section \<open>Canonical Linux paths\<close>

definition linuxSegments :: "string \<Rightarrow> string list" where
  "linuxSegments v = (if v = ''/'' then [] else splitOn CHR ''/'' (trimPrefix v ''/''))"

lemma validateLinux_ok:
  "validateLinux v = Inr u \<longleftrightarrow> hasPrefix v ''/'' \<and> CHR 0x5C \<notin> set v
     \<and> (\<forall>s\<in>set (linuxSegments v). validateSegment False s = Inr ())"
  by (auto simp: validateLinux_def linuxSegments_def validateSegments_def containsAny_def list_ex_iff)

lemma joinWith_append: "as \<noteq> [] \<Longrightarrow> bs \<noteq> [] \<Longrightarrow> joinWith sep (as @ bs) = joinWith sep as @ sep @ joinWith sep bs"
proof (induction as)
  case (Cons a as)
  then show ?case by (cases as) (auto simp: joinWith_Cons)
qed simp

lemma splitOn_prefix:
  "a \<noteq> b \<Longrightarrow> prefix (splitOn sep a) (splitOn sep b) \<longleftrightarrow> prefix (a @ [sep]) b"
proof
  assume "prefix (a @ [sep]) b"
  then obtain t where "b = a @ sep # t" by (auto simp: prefix_def)
  then show "prefix (splitOn sep a) (splitOn sep b)" by (simp add: splitOn_append_sep)
next
  assume ne: "a \<noteq> b" and "prefix (splitOn sep a) (splitOn sep b)"
  then obtain rest where rest: "splitOn sep b = splitOn sep a @ rest" by (auto simp: prefix_def)
  have "rest \<noteq> []"
  proof
    assume "rest = []"
    then have "joinWith [sep] (splitOn sep b) = joinWith [sep] (splitOn sep a)" using rest by simp
    with ne show False by (simp add: joinWith_splitOn)
  qed
  then have "joinWith [sep] (splitOn sep b) = joinWith [sep] (splitOn sep a) @ [sep] @ joinWith [sep] rest"
    using rest joinWith_append [of "splitOn sep a" rest] by simp
  then show "prefix (a @ [sep]) b" by (simp add: joinWith_splitOn)
qed

text \<open>A canonical path is a root slash and nonempty segments; only the root ends in a slash.\<close>

lemma linux_shape:
  assumes "validateLinux v = Inr ()"
  shows "\<exists>w. v = CHR ''/'' # w \<and> (w \<noteq> [] \<longrightarrow> last w \<noteq> CHR ''/'' \<and> linuxSegments v = splitOn CHR ''/'' w)"
proof -
  from assms obtain w where v: "v = CHR ''/'' # w" by (auto simp: validateLinux_ok hasPrefix_iff)
  have segs: "linuxSegments v = splitOn CHR ''/'' w" if "w \<noteq> []"
    using that by (simp add: linuxSegments_def v trimPrefix_def hasPrefix_def)
  have "last w \<noteq> CHR ''/''" if w: "w \<noteq> []"
  proof
    assume "last w = CHR ''/''"
    then obtain x where "w = x @ [CHR ''/'']" using w by (metis append_butlast_last_id)
    then have "[] \<in> set (linuxSegments v)" using segs [OF w] by (simp add: splitOn_append_sep)
    then show False using assms by (auto simp: validateLinux_ok validateSegment_def)
  qed
  with segs v show ?thesis by blast
qed

text \<open>Containment of canonical Linux paths is the prefix order of their segments.\<close>

lemma Contains_Linux_segments:
  assumes "validateLinux a = Inr ()" "validateLinux b = Inr ()"
  shows "Contains Linux a b \<longleftrightarrow> prefix (linuxSegments a) (linuxSegments b)"
proof -
  obtain x where x: "a = CHR ''/'' # x" "x \<noteq> [] \<Longrightarrow> last x \<noteq> CHR ''/'' \<and> linuxSegments a = splitOn CHR ''/'' x"
    using linux_shape [OF assms(1)] by blast
  obtain y where y: "b = CHR ''/'' # y" "y \<noteq> [] \<Longrightarrow> last y \<noteq> CHR ''/'' \<and> linuxSegments b = splitOn CHR ''/'' y"
    using linux_shape [OF assms(2)] by blast
  show ?thesis
  proof (cases "x = []")
    case True
    then have "linuxSegments a = []" by (simp add: x linuxSegments_def)
    then show ?thesis by (simp add: Contains_Linux under_def dirPrefix_def x(1) y(1) True)
  next
    case xn: False
    then have a: "dirPrefix CHR ''/'' a = CHR ''/'' # x @ ''/''" using x by (simp add: dirPrefix_def)
    show ?thesis
    proof (cases "y = []")
      case True
      then have "linuxSegments b = []" by (simp add: y linuxSegments_def)
      then show ?thesis using xn x(2) True by (simp add: Contains_Linux under_def a y(1) flip: x(1)) (simp add: x(1))
    next
      case False
      then show ?thesis
        using xn x y splitOn_prefix [of x y "CHR ''/''"] by (auto simp: Contains_Linux under_def a [unfolded x(1)])
    qed
  qed
qed

end
