(* ===== verification/Install_Config.thy ===== *)
theory Install_Config
  imports Platform_Path
begin

text \<open>
  The installation configuration: \<open>internal/installconfig/types.go\<close>, \<open>validate.go\<close> and the
  encoding half of \<open>codec.go\<close>.  Slices that the validator tests for nil are options.
\<close>

datatype ConfigError = ConfigError (ce_Field: string) (ce_Rule: string)

type_synonym Capability = string

definition CapabilityDocker :: Capability where "CapabilityDocker = ''docker''"
definition ConfigCurrentVersion :: "8 word" where "ConfigCurrentVersion = 1"

record Principal =
  pr_Name :: string
  pr_Identifier :: string
  pr_PrimaryGroupIdentifier :: string

record ShellBinding =
  sb_Shell :: Shell
  sb_Executable :: string

record Config =
  cf_ConfigVersion :: "8 word"
  cf_Platform :: Platform
  cf_ControlIdentity :: Principal
  cf_ExecutionIdentity :: Principal
  cf_ApprovedRoots :: "string slice"
  cf_Shells :: "ShellBinding slice"
  cf_ProfileRoot :: string
  cf_TempRoot :: string
  cf_PathEntries :: "string slice"
  cf_Capabilities :: "Capability slice"

section \<open>Patterns and tables\<close>

definition maxApprovedRoots :: nat where "maxApprovedRoots = 16"
definition maxCapabilities :: nat where "maxCapabilities = 8"
definition maxPathEntries :: nat where "maxPathEntries = 32"
definition maxShells :: nat where "maxShells = 5"

definition allDigits :: "string \<Rightarrow> bool" where
  "allDigits s \<longleftrightarrow> s \<noteq> [] \<and> list_all isDigit s"

definition principalNamePattern :: "string \<Rightarrow> bool" where
  "principalNamePattern =
     matchHeadTail isLowerLetter (\<lambda>c. isLowerLetter c \<or> isDigit c \<or> c \<in> set ''._-'') 63"

definition windowsSIDPattern :: "string \<Rightarrow> bool" where
  "windowsSIDPattern s \<longleftrightarrow>
     (case splitOn CHR ''-'' s of
        a # b # rest \<Rightarrow> a = ''S'' \<and> b = ''1'' \<and> 2 \<le> length rest \<and> length rest \<le> 15 \<and> list_all allDigits rest
      | _ \<Rightarrow> False)"

definition linuxIDPattern :: "string \<Rightarrow> string \<Rightarrow> bool" where
  "linuxIDPattern pre s \<longleftrightarrow> hasPrefix s pre
     \<and> matchHeadTail (inRange CHR ''1'' CHR ''9'') isDigit 9 (drop (length pre) s)"

text \<open>\<open>strconv.ParseUint(s, 10, 32)\<close> on decimal digits.\<close>

definition parseUint32 :: "string \<Rightarrow> int option" where
  "parseUint32 s = (if allDigits s \<and> digitsVal s \<le> 4294967295 then Some (digitsVal s) else None)"

definition supportedCapabilities :: "Capability list" where
  "supportedCapabilities = [CapabilityDocker]"

definition platformShells :: "Platform \<Rightarrow> Shell list option" where
  "platformShells platform =
     (if platform = Windows then Some [ShellCmd, ShellGitBash, ShellPowerShell, ShellPwsh]
      else if platform = Linux then Some [ShellBash, ShellPwsh]
      else None)"

section \<open>Validation\<close>

definition linuxIDInvalid :: "string \<Rightarrow> string \<Rightarrow> bool" where
  "linuxIDInvalid pre identifier \<longleftrightarrow>
     (case parseUint32 (trimPrefix identifier pre) of None \<Rightarrow> True | Some n \<Rightarrow> n = 0 \<or> n = 4294967295)"

definition validatePrincipal :: "string \<Rightarrow> Platform \<Rightarrow> Principal \<Rightarrow> ConfigError + unit" where
  "validatePrincipal field platform p = checks
     ([failIf (\<not> principalNamePattern (pr_Name p)) (ConfigError (field @ ''.name'') ''invalid-name'')]
      @ (if platform = Windows then
           [failIf (\<not> windowsSIDPattern (pr_Identifier p))
              (ConfigError (field @ ''.identifier'') ''invalid-windows-sid''),
            failIf (\<not> windowsSIDPattern (pr_PrimaryGroupIdentifier p))
              (ConfigError (field @ ''.primary_group_identifier'') ''invalid-windows-sid'')]
         else if platform = Linux then
           [failIf (\<not> linuxIDPattern ''uid:'' (pr_Identifier p))
              (ConfigError (field @ ''.identifier'') ''invalid-linux-uid''),
            failIf (linuxIDInvalid ''uid:'' (pr_Identifier p))
              (ConfigError (field @ ''.identifier'') ''invalid-linux-uid''),
            failIf (\<not> linuxIDPattern ''gid:'' (pr_PrimaryGroupIdentifier p))
              (ConfigError (field @ ''.primary_group_identifier'') ''invalid-linux-gid''),
            failIf (linuxIDInvalid ''gid:'' (pr_PrimaryGroupIdentifier p))
              (ConfigError (field @ ''.primary_group_identifier'') ''invalid-linux-gid'')]
         else []))"

definition principalsEqual :: "Platform \<Rightarrow> Principal \<Rightarrow> Principal \<Rightarrow> bool" where
  "principalsEqual platform a b \<longleftrightarrow>
     (if platform = Windows then equalFold (pr_Identifier a) (pr_Identifier b)
      else pr_Identifier a = pr_Identifier b)"

definition validateNonRootPath :: "string \<Rightarrow> Platform \<Rightarrow> string \<Rightarrow> ConfigError + unit" where
  "validateNonRootPath field platform v = checks
     [mapErr (\<lambda>_. ConfigError field ''invalid-absolute-path'') (ValidateAbsolute platform v),
      failIf (IsFilesystemRoot platform v) (ConfigError field ''filesystem-root-forbidden'')]"

text \<open>The loop over the roots: the state is the roots already accepted.\<close>

definition approvedRoot :: "Config \<Rightarrow> string \<Rightarrow> string list \<Rightarrow> ConfigError + string list" where
  "approvedRoot cfg root others =
     bindR (checks
       ([validateNonRootPath ''approved_roots'' (cf_Platform cfg) root,
         failIf (Overlaps (cf_Platform cfg) root (cf_ProfileRoot cfg)
                 \<or> Overlaps (cf_Platform cfg) root (cf_TempRoot cfg))
           (ConfigError ''approved_roots'' ''overlaps-execution-state'')]
        @ map (\<lambda>other. failIf (Overlaps (cf_Platform cfg) root other)
              (ConfigError ''approved_roots'' ''duplicate-or-overlapping-root'')) others))
     (\<lambda>_. Inr (others @ [root]))"

definition validateRoots :: "Config \<Rightarrow> ConfigError + unit" where
  "validateRoots cfg =
     bindR (checks
       [failIf (cf_ApprovedRoots cfg = None \<or> length (sl (cf_ApprovedRoots cfg)) = 0
                \<or> length (sl (cf_ApprovedRoots cfg)) > maxApprovedRoots)
          (ConfigError ''approved_roots'' ''outside-count-limit''),
        validateNonRootPath ''profile_root'' (cf_Platform cfg) (cf_ProfileRoot cfg),
        validateNonRootPath ''temp_root'' (cf_Platform cfg) (cf_TempRoot cfg),
        failIf (Equal (cf_Platform cfg) (cf_ProfileRoot cfg) (cf_TempRoot cfg))
          (ConfigError ''temp_root'' ''must-differ-from-profile'')]) (\<lambda>_.
     bindR (foldR (approvedRoot cfg) (sl (cf_ApprovedRoots cfg)) []) (\<lambda>_. Inr ()))"

definition validateProtectedToolPath :: "Config \<Rightarrow> string \<Rightarrow> string \<Rightarrow> ConfigError + unit" where
  "validateProtectedToolPath cfg field v = checks
     (validateNonRootPath field (cf_Platform cfg) v
      # map (\<lambda>root. failIf (Contains (cf_Platform cfg) root v) (ConfigError field ''inside-approved-root''))
          (sl (cf_ApprovedRoots cfg)))"

definition shellBinding ::
    "Config \<Rightarrow> ShellBinding \<Rightarrow> Shell list \<times> string list \<Rightarrow> ConfigError + (Shell list \<times> string list)" where
  "shellBinding cfg b st = (case st of (seenShells, seenExecutables) \<Rightarrow>
     bindR (checks
       ([failIf (sb_Shell b \<notin> set (sl (platformShells (cf_Platform cfg))))
           (ConfigError ''shells.shell'' ''unsupported-for-platform''),
         failIf (sb_Shell b \<in> set seenShells) (ConfigError ''shells.shell'' ''duplicate-shell''),
         validateProtectedToolPath cfg ''shells.executable'' (sb_Executable b)]
        @ map (\<lambda>executable. failIf (Equal (cf_Platform cfg) executable (sb_Executable b))
              (ConfigError ''shells.executable'' ''duplicate-executable'')) seenExecutables))
     (\<lambda>_. Inr (sb_Shell b # seenShells, seenExecutables @ [sb_Executable b])))"

definition validateShells :: "Config \<Rightarrow> ConfigError + unit" where
  "validateShells cfg =
     bindR (failIf (cf_Shells cfg = None \<or> length (sl (cf_Shells cfg)) = 0
                    \<or> length (sl (cf_Shells cfg)) > maxShells)
       (ConfigError ''shells'' ''outside-count-limit'')) (\<lambda>_.
     bindR (foldR (shellBinding cfg) (sl (cf_Shells cfg)) ([], [])) (\<lambda>_. Inr ()))"

definition pathEntry :: "Config \<Rightarrow> string \<Rightarrow> string list \<Rightarrow> ConfigError + string list" where
  "pathEntry cfg entry others =
     bindR (checks
       (validateProtectedToolPath cfg ''path_entries'' entry
        # map (\<lambda>other. failIf (Equal (cf_Platform cfg) entry other)
              (ConfigError ''path_entries'' ''duplicate-path'')) others))
     (\<lambda>_. Inr (others @ [entry]))"

definition validatePathEntries :: "Config \<Rightarrow> ConfigError + unit" where
  "validatePathEntries cfg =
     bindR (failIf (cf_PathEntries cfg = None \<or> length (sl (cf_PathEntries cfg)) = 0
                    \<or> length (sl (cf_PathEntries cfg)) > maxPathEntries)
       (ConfigError ''path_entries'' ''outside-count-limit'')) (\<lambda>_.
     bindR (foldR (pathEntry cfg) (sl (cf_PathEntries cfg)) []) (\<lambda>_. Inr ()))"

definition capabilityStep :: "Capability \<Rightarrow> Capability list \<Rightarrow> ConfigError + Capability list" where
  "capabilityStep capability seen =
     bindR (checks
       [failIf (capability \<notin> set supportedCapabilities)
          (ConfigError ''capabilities'' ''unsupported-capability''),
        failIf (capability \<in> set seen) (ConfigError ''capabilities'' ''duplicate-capability'')])
     (\<lambda>_. Inr (capability # seen))"

definition validateCapabilities :: "Capability slice \<Rightarrow> ConfigError + unit" where
  "validateCapabilities capabilities =
     bindR (failIf (capabilities = None \<or> length (sl capabilities) > maxCapabilities)
       (ConfigError ''capabilities'' ''required-bounded-array'')) (\<lambda>_.
     bindR (foldR capabilityStep (sl capabilities) []) (\<lambda>_. Inr ()))"

definition ValidateConfig :: "Config \<Rightarrow> ConfigError + unit" where
  "ValidateConfig cfg = checks
     [failIf (cf_ConfigVersion cfg \<noteq> ConfigCurrentVersion)
        (ConfigError ''config_version'' ''unsupported-version''),
      failIf (platformShells (cf_Platform cfg) = None) (ConfigError ''platform'' ''unsupported-platform''),
      validatePrincipal ''control_identity'' (cf_Platform cfg) (cf_ControlIdentity cfg),
      validatePrincipal ''execution_identity'' (cf_Platform cfg) (cf_ExecutionIdentity cfg),
      failIf (principalsEqual (cf_Platform cfg) (cf_ControlIdentity cfg) (cf_ExecutionIdentity cfg))
        (ConfigError ''execution_identity'' ''must-differ-from-control''),
      validateRoots cfg,
      validateShells cfg,
      validatePathEntries cfg,
      validateCapabilities (cf_Capabilities cfg)]"

section \<open>Encoding (\<open>codec.go\<close>)\<close>

definition MaxConfigBytes :: nat where "MaxConfigBytes = 65536"

definition principalJson :: "Principal \<Rightarrow> json" where
  "principalJson p = JObj
     [(''name'', JStr (pr_Name p)), (''identifier'', JStr (pr_Identifier p)),
      (''primary_group_identifier'', JStr (pr_PrimaryGroupIdentifier p))]"

definition configJson :: "Config \<Rightarrow> json" where
  "configJson c = JObj
     [(''config_version'', JInt (uint (cf_ConfigVersion c))), (''platform'', JStr (cf_Platform c)),
      (''control_identity'', principalJson (cf_ControlIdentity c)),
      (''execution_identity'', principalJson (cf_ExecutionIdentity c)),
      (''approved_roots'', jsonSlice JStr (cf_ApprovedRoots c)),
      (''shells'', jsonSlice (\<lambda>b. JObj [(''shell'', JStr (sb_Shell b)), (''executable'', JStr (sb_Executable b))])
         (cf_Shells c)),
      (''profile_root'', JStr (cf_ProfileRoot c)), (''temp_root'', JStr (cf_TempRoot c)),
      (''path_entries'', jsonSlice JStr (cf_PathEntries c)),
      (''capabilities'', jsonSlice JStr (cf_Capabilities c))]"

definition MarshalCanonicalConfig :: "Config \<Rightarrow> ConfigError + string" where
  "MarshalCanonicalConfig cfg =
     bindR (ValidateConfig cfg) (\<lambda>_.
     let encoded = encodeJson (configJson cfg) in
     bindR (failIf (length encoded > MaxConfigBytes) (ConfigError ''config'' ''canonical-size-limit'')) (\<lambda>_.
     Inr encoded))"

section \<open>What a valid configuration guarantees\<close>

definition nonRootPath :: "Platform \<Rightarrow> string \<Rightarrow> bool" where
  "nonRootPath platform v \<longleftrightarrow> ValidateAbsolute platform v = Inr () \<and> \<not> IsFilesystemRoot platform v"

lemma validateNonRootPath_ok [simp]:
  "validateNonRootPath field platform v = Inr u \<longleftrightarrow> nonRootPath platform v"
  by (auto simp: validateNonRootPath_def nonRootPath_def)

lemma Equal_refl [simp]: "Equal platform a a"
  by (simp add: Equal_def)

lemma Equal_sym: "Equal platform a b \<Longrightarrow> Equal platform b a"
  by (auto simp: Equal_def equalFold_sym split: if_splits)

lemma Contains_refl [simp]: "Contains platform a a"
  by (simp add: Contains_def)

lemma Overlaps_sym: "Overlaps platform a b \<longleftrightarrow> Overlaps platform b a"
  by (auto simp: Overlaps_def)

lemma approvedRoots_ok:
  "foldR (approvedRoot cfg) roots others = Inr st \<longleftrightarrow>
     (\<forall>root\<in>set roots. nonRootPath (cf_Platform cfg) root
        \<and> \<not> Overlaps (cf_Platform cfg) root (cf_ProfileRoot cfg)
        \<and> \<not> Overlaps (cf_Platform cfg) root (cf_TempRoot cfg)
        \<and> (\<forall>other\<in>set others. \<not> Overlaps (cf_Platform cfg) root other))
     \<and> sorted_wrt (\<lambda>a b. \<not> Overlaps (cf_Platform cfg) b a) roots
     \<and> st = others @ roots"
proof (induction roots arbitrary: others)
  case Nil
  then show ?case by auto
next
  case (Cons root roots)
  let ?P = "nonRootPath (cf_Platform cfg) root
        \<and> \<not> Overlaps (cf_Platform cfg) root (cf_ProfileRoot cfg)
        \<and> \<not> Overlaps (cf_Platform cfg) root (cf_TempRoot cfg)
        \<and> (\<forall>other\<in>set others. \<not> Overlaps (cf_Platform cfg) root other)"
  have "approvedRoot cfg root others = Inr s \<longleftrightarrow> ?P \<and> s = others @ [root]" for s
    by (auto simp: approvedRoot_def bindR_eq_Inr)
  note step = this
  show ?case
  proof (cases ?P)
    case True
    then have "approvedRoot cfg root others = Inr (others @ [root])" using step by blast
    then show ?thesis using Cons.IH [of "others @ [root]"] True by auto
  next
    case False
    then have "approvedRoot cfg root others \<noteq> Inr s" for s using step by blast
    then obtain e where "approvedRoot cfg root others = Inl e" by (meson sum.exhaust_sel obj_sumE)
    then show ?thesis using False by auto
  qed
qed

lemma shellBindings_ok:
  assumes "foldR (shellBinding cfg) bs (seenShells, seenExecutables) = Inr st"
  shows "(\<forall>b\<in>set bs. sb_Shell b \<in> set (sl (platformShells (cf_Platform cfg)))
        \<and> validateProtectedToolPath cfg ''shells.executable'' (sb_Executable b) = Inr ())
     \<and> distinct (map sb_Shell bs) \<and> set (map sb_Shell bs) \<inter> set seenShells = {}"
  using assms
proof (induction bs arbitrary: seenShells seenExecutables)
  case (Cons b bs)
  then obtain st1 where st1: "shellBinding cfg b (seenShells, seenExecutables) = Inr st1"
    "foldR (shellBinding cfg) bs st1 = Inr st"
    by (auto split: sum.splits)
  then have "st1 = (sb_Shell b # seenShells, seenExecutables @ [sb_Executable b])"
    and b: "sb_Shell b \<in> set (sl (platformShells (cf_Platform cfg)))" "sb_Shell b \<notin> set seenShells"
      "validateProtectedToolPath cfg ''shells.executable'' (sb_Executable b) = Inr ()"
    by (auto simp: shellBinding_def bindR_eq_Inr)
  with st1(2) have IH: "foldR (shellBinding cfg) bs (sb_Shell b # seenShells, seenExecutables @ [sb_Executable b]) = Inr st"
    by simp
  show ?case using Cons.IH [OF IH] b by auto
qed simp

lemma pathEntries_ok:
  assumes "foldR (pathEntry cfg) es others = Inr st"
  shows "\<forall>e\<in>set es. validateProtectedToolPath cfg ''path_entries'' e = Inr ()"
  using assms
proof (induction es arbitrary: others)
  case (Cons e es)
  then obtain st1 where "pathEntry cfg e others = Inr st1" "foldR (pathEntry cfg) es st1 = Inr st"
    by (auto split: sum.splits)
  note st1 = this
  from st1(1) have "validateProtectedToolPath cfg ''path_entries'' e = Inr ()"
    by (simp add: pathEntry_def bindR_eq_Inr)
  with Cons.IH [OF st1(2)] show ?case by simp
qed simp

lemma validateProtectedToolPath_ok [simp]:
  "validateProtectedToolPath cfg field v = Inr u \<longleftrightarrow> nonRootPath (cf_Platform cfg) v
     \<and> (\<forall>root\<in>set (sl (cf_ApprovedRoots cfg)). \<not> Contains (cf_Platform cfg) root v)"
  by (auto simp: validateProtectedToolPath_def)

text \<open>The facts the policy, the environment and the installer rely on.\<close>

lemma ValidateConfig_facts:
  assumes "ValidateConfig cfg = Inr ()"
  shows "cf_Platform cfg = Windows \<or> cf_Platform cfg = Linux"
    and "\<not> principalsEqual (cf_Platform cfg) (cf_ControlIdentity cfg) (cf_ExecutionIdentity cfg)"
    and "\<exists>roots. cf_ApprovedRoots cfg = Some roots \<and> roots \<noteq> [] \<and> length roots \<le> maxApprovedRoots
      \<and> (\<forall>root\<in>set roots. nonRootPath (cf_Platform cfg) root
            \<and> \<not> Overlaps (cf_Platform cfg) root (cf_ProfileRoot cfg)
            \<and> \<not> Overlaps (cf_Platform cfg) root (cf_TempRoot cfg))
      \<and> sorted_wrt (\<lambda>a b. \<not> Overlaps (cf_Platform cfg) b a) roots"
    and "\<exists>bs. cf_Shells cfg = Some bs \<and> distinct (map sb_Shell bs)
      \<and> (\<forall>b\<in>set bs. sb_Shell b \<in> set (sl (platformShells (cf_Platform cfg)))
            \<and> nonRootPath (cf_Platform cfg) (sb_Executable b)
            \<and> (\<forall>root\<in>set (sl (cf_ApprovedRoots cfg)). \<not> Contains (cf_Platform cfg) root (sb_Executable b)))"
    and "\<exists>es. cf_PathEntries cfg = Some es \<and> es \<noteq> []
      \<and> (\<forall>e\<in>set es. nonRootPath (cf_Platform cfg) e
            \<and> (\<forall>root\<in>set (sl (cf_ApprovedRoots cfg)). \<not> Contains (cf_Platform cfg) root e))"
proof -
  have v: "platformShells (cf_Platform cfg) \<noteq> None"
    "\<not> principalsEqual (cf_Platform cfg) (cf_ControlIdentity cfg) (cf_ExecutionIdentity cfg)"
    "validateRoots cfg = Inr ()" "validateShells cfg = Inr ()" "validatePathEntries cfg = Inr ()"
    using assms by (simp_all add: ValidateConfig_def)
  show "cf_Platform cfg = Windows \<or> cf_Platform cfg = Linux"
    using v(1) by (auto simp: platformShells_def split: if_splits)
  show "\<not> principalsEqual (cf_Platform cfg) (cf_ControlIdentity cfg) (cf_ExecutionIdentity cfg)" by (fact v(2))
  obtain st where "foldR (approvedRoot cfg) (sl (cf_ApprovedRoots cfg)) [] = Inr st"
    and roots: "cf_ApprovedRoots cfg \<noteq> None" "sl (cf_ApprovedRoots cfg) \<noteq> []"
      "length (sl (cf_ApprovedRoots cfg)) \<le> maxApprovedRoots"
    using v(3) by (auto simp: validateRoots_def bindR_eq_Inr split: if_splits)
  then show "\<exists>roots. cf_ApprovedRoots cfg = Some roots \<and> roots \<noteq> [] \<and> length roots \<le> maxApprovedRoots
      \<and> (\<forall>root\<in>set roots. nonRootPath (cf_Platform cfg) root
            \<and> \<not> Overlaps (cf_Platform cfg) root (cf_ProfileRoot cfg)
            \<and> \<not> Overlaps (cf_Platform cfg) root (cf_TempRoot cfg))
      \<and> sorted_wrt (\<lambda>a b. \<not> Overlaps (cf_Platform cfg) b a) roots"
    by (auto simp: approvedRoots_ok)
  obtain st2 where "foldR (shellBinding cfg) (sl (cf_Shells cfg)) ([], []) = Inr st2"
    and "cf_Shells cfg \<noteq> None"
    using v(4) by (auto simp: validateShells_def bindR_eq_Inr split: if_splits)
  then show "\<exists>bs. cf_Shells cfg = Some bs \<and> distinct (map sb_Shell bs)
      \<and> (\<forall>b\<in>set bs. sb_Shell b \<in> set (sl (platformShells (cf_Platform cfg)))
            \<and> nonRootPath (cf_Platform cfg) (sb_Executable b)
            \<and> (\<forall>root\<in>set (sl (cf_ApprovedRoots cfg)). \<not> Contains (cf_Platform cfg) root (sb_Executable b)))"
    using shellBindings_ok by fastforce
  obtain st3 where "foldR (pathEntry cfg) (sl (cf_PathEntries cfg)) [] = Inr st3"
    and "cf_PathEntries cfg \<noteq> None" "sl (cf_PathEntries cfg) \<noteq> []"
    using v(5) by (auto simp: validatePathEntries_def bindR_eq_Inr split: if_splits)
  then show "\<exists>es. cf_PathEntries cfg = Some es \<and> es \<noteq> []
      \<and> (\<forall>e\<in>set es. nonRootPath (cf_Platform cfg) e
            \<and> (\<forall>root\<in>set (sl (cf_ApprovedRoots cfg)). \<not> Contains (cf_Platform cfg) root e))"
    using pathEntries_ok by fastforce
qed

end
