(* ===== verification/Workload_Env.thy ===== *)
theory Workload_Env
  imports Install_Config "HOL-Library.AList" "HOL-Library.List_Lexorder" "HOL-Library.Char_ord"
    "HOL-Library.Multiset"
begin

text \<open>
  The environment of a workload: \<open>internal/workloadenv/build.go\<close>.  The map of projected
  variables is an association list with distinct keys; names are ordered byte by byte, as Go
  compares strings.
\<close>

datatype EnvironmentError = EnvironmentError (ee_Field: string) (ee_Rule: string)

record EnvContext =
  cx_RequestID :: string
  cx_SessionID :: string
  cx_AttemptID :: string

definition maxBaseEntries :: nat where "maxBaseEntries = 512"
definition maxEntryBytes :: nat where "maxEntryBytes = 32768"

section \<open>Patterns and tables\<close>

definition isAlphaNumeric :: "char \<Rightarrow> bool" where
  "isAlphaNumeric c \<longleftrightarrow> isASCIILetter c \<or> isDigit c"

definition boundedText :: "string \<Rightarrow> nat \<Rightarrow> string \<Rightarrow> bool" where
  "boundedText extra n s \<longleftrightarrow> 1 \<le> length s \<and> length s \<le> n
     \<and> list_all (\<lambda>c. isAlphaNumeric c \<or> c \<in> set extra) s"

definition localePattern :: "string \<Rightarrow> bool" where "localePattern = boundedText ''_.@-'' 64"
definition timeZonePattern :: "string \<Rightarrow> bool" where "timeZonePattern = boundedText ''_+:/.-'' 128"
definition windowsTextPattern :: "string \<Rightarrow> bool" where "windowsTextPattern = boundedText '' _.,()/-'' 128"

definition windowsPathExtensionsPattern :: "string \<Rightarrow> bool" where
  "windowsPathExtensionsPattern s \<longleftrightarrow>
     (let parts = splitOn CHR '';'' s in length parts \<le> 32
      \<and> list_all (\<lambda>p. hasPrefix p ''.'' \<and> boundedText [] 16 (drop 1 p)) parts)"

definition windowsSafeBaseNames :: "(string \<times> string) list" where
  "windowsSafeBaseNames =
     [(''number_of_processors'', ''NUMBER_OF_PROCESSORS''), (''os'', ''OS''), (''pathext'', ''PATHEXT''),
      (''processor_architecture'', ''PROCESSOR_ARCHITECTURE''),
      (''processor_identifier'', ''PROCESSOR_IDENTIFIER''), (''processor_level'', ''PROCESSOR_LEVEL''),
      (''processor_revision'', ''PROCESSOR_REVISION''), (''systemroot'', ''SystemRoot''),
      (''windir'', ''WINDIR'')]"

definition linuxSafeBaseNames :: "(string \<times> string) list" where
  "linuxSafeBaseNames = [(''LANG'', ''LANG''), (''LC_ALL'', ''LC_ALL''), (''TZ'', ''TZ'')]"

section \<open>The projection of the base environment\<close>

definition safeBaseError :: "string \<Rightarrow> EnvironmentError" where
  "safeBaseError = EnvironmentError ''safe_base''"

definition validateSafeBaseValue :: "Platform \<Rightarrow> string \<Rightarrow> string \<Rightarrow> EnvironmentError + unit" where
  "validateSafeBaseValue platform name v =
     (if platform = Linux then checks
        [failIf ((name = ''LANG'' \<or> name = ''LC_ALL'') \<and> \<not> localePattern v) (safeBaseError ''invalid-locale''),
         failIf (name = ''TZ'' \<and> \<not> timeZonePattern v) (safeBaseError ''invalid-time-zone'')]
      else if name = ''SystemRoot'' \<or> name = ''WINDIR''
      then mapErr (\<lambda>_. safeBaseError ''invalid-system-path'') (ValidateAbsolute Windows v)
      else if name = ''PATHEXT''
      then failIf (\<not> windowsPathExtensionsPattern v) (safeBaseError ''invalid-path-extensions'')
      else failIf (\<not> windowsTextPattern v) (safeBaseError ''invalid-system-value''))"

definition canonicalName :: "Platform \<Rightarrow> string \<Rightarrow> string option" where
  "canonicalName platform name =
     (if platform = Windows then map_of windowsSafeBaseNames (toLower name)
      else map_of linuxSafeBaseNames name)"

definition seenNameOf :: "Platform \<Rightarrow> string \<Rightarrow> string" where
  "seenNameOf platform name = (if platform = Windows then toLower name else name)"

type_synonym environment = "(string \<times> string) list"

text \<open>One entry: the state is the projected variables and the names seen.\<close>

definition safeBaseEntry ::
    "Platform \<Rightarrow> string \<Rightarrow> environment \<times> string list \<Rightarrow> EnvironmentError + (environment \<times> string list)" where
  "safeBaseEntry platform entry st = (case st of (projected, seen) \<Rightarrow>
     if length entry = 0 \<or> length entry > maxEntryBytes \<or> containsAny entry [CHR 0x00]
     then Inl (safeBaseError ''invalid-entry'')
     else if platform = Windows \<and> hasPrefix entry ''='' then Inr st
     else if CHR ''='' \<notin> set entry \<or> hasPrefix entry ''='' then Inl (safeBaseError ''invalid-entry'')
     else
       (let name = takeWhile (\<lambda>c. c \<noteq> CHR ''='') entry;
            v = drop 1 (dropWhile (\<lambda>c. c \<noteq> CHR ''='') entry)
        in case canonicalName platform name of
             None \<Rightarrow> Inr st
           | Some canonical \<Rightarrow>
               bindR (failIf (seenNameOf platform canonical \<in> set seen)
                 (safeBaseError ''duplicate-allowed-key'')) (\<lambda>_.
               bindR (validateSafeBaseValue platform canonical v) (\<lambda>_.
               Inr (AList.update canonical v projected, seenNameOf platform canonical # seen)))))"

definition projectSafeBase :: "Platform \<Rightarrow> string list \<Rightarrow> EnvironmentError + environment" where
  "projectSafeBase platform safeBase =
     bindR (foldR (safeBaseEntry platform) safeBase ([], [])) (\<lambda>(projected, seen). Inr projected)"

section \<open>The gateway's own variables\<close>

definition gatewayValues :: "Config \<Rightarrow> EnvContext \<Rightarrow> environment" where
  "gatewayValues cfg ctx =
     (if cf_Platform cfg = Windows then
        [(''USERPROFILE'', cf_ProfileRoot cfg), (''HOME'', cf_ProfileRoot cfg),
         (''TEMP'', cf_TempRoot cfg), (''TMP'', cf_TempRoot cfg),
         (''USERNAME'', pr_Name (cf_ExecutionIdentity cfg))]
      else
        [(''HOME'', cf_ProfileRoot cfg), (''TMPDIR'', cf_TempRoot cfg),
         (''USER'', pr_Name (cf_ExecutionIdentity cfg)),
         (''LOGNAME'', pr_Name (cf_ExecutionIdentity cfg))])
     @ [(''PATH'', joinWith (if cf_Platform cfg = Windows then '';'' else '':'') (sl (cf_PathEntries cfg))),
        (''AWG_REQUEST_ID'', cx_RequestID ctx), (''AWG_SESSION_ID'', cx_SessionID ctx),
        (''AWG_ATTEMPT_ID'', cx_AttemptID ctx)]"

definition setGatewayValues :: "Config \<Rightarrow> EnvContext \<Rightarrow> environment \<Rightarrow> environment" where
  "setGatewayValues cfg ctx environment =
     fold (\<lambda>(name, v). AList.update name v) (gatewayValues cfg ctx) environment"

definition sortedEnvironment :: "Platform \<Rightarrow> environment \<Rightarrow> string list" where
  "sortedEnvironment platform environment =
     map (\<lambda>name. name @ ''='' @ the (map_of environment name))
       (sort_key (\<lambda>name. if platform = Windows then toLower name else name) (map fst environment))"

definition BuildEnvironment ::
    "Config \<Rightarrow> string list \<Rightarrow> EnvContext \<Rightarrow> EnvironmentError + string list" where
  "BuildEnvironment cfg safeBase ctx =
     bindR (checks
       [mapErr (\<lambda>_. EnvironmentError ''config'' ''invalid-installation-config'') (ValidateConfig cfg),
        failIf (\<not> identifierPattern (cx_RequestID ctx)) (EnvironmentError ''request_id'' ''invalid-identifier''),
        failIf (\<not> identifierPattern (cx_SessionID ctx)) (EnvironmentError ''session_id'' ''invalid-identifier''),
        failIf (\<not> identifierPattern (cx_AttemptID ctx)) (EnvironmentError ''attempt_id'' ''invalid-identifier''),
        failIf (length safeBase > maxBaseEntries) (safeBaseError ''too-many-entries'')]) (\<lambda>_.
     bindR (projectSafeBase (cf_Platform cfg) safeBase) (\<lambda>projected.
     bindR (if cf_Platform cfg = Windows then
              (case (map_of projected ''SystemRoot'', map_of projected ''WINDIR'') of
                 (Some systemRoot, Some windowsDirectory) \<Rightarrow>
                   failIf (\<not> Equal Windows systemRoot windowsDirectory)
                     (safeBaseError ''inconsistent-windows-system-paths'')
               | _ \<Rightarrow> Inl (safeBaseError ''missing-windows-system-paths''))
            else Inr ()) (\<lambda>_.
     Inr (sortedEnvironment (cf_Platform cfg) (setGatewayValues cfg ctx projected)))))"

section \<open>What the projection keeps\<close>

text \<open>The variable an entry contributes, when it is allowed.\<close>

definition contribution :: "Platform \<Rightarrow> string \<Rightarrow> (string \<times> string) option" where
  "contribution platform entry =
     (if hasPrefix entry ''='' then None
      else map_option (\<lambda>n. (n, drop 1 (dropWhile (\<lambda>c. c \<noteq> CHR ''='') entry)))
        (canonicalName platform (takeWhile (\<lambda>c. c \<noteq> CHR ''='') entry)))"

definition entryOk :: "Platform \<Rightarrow> string \<Rightarrow> bool" where
  "entryOk platform entry \<longleftrightarrow>
     entry \<noteq> [] \<and> length entry \<le> maxEntryBytes \<and> \<not> containsAny entry [CHR 0x00]
     \<and> (platform = Windows \<and> hasPrefix entry ''='' \<or>
        CHR ''='' \<in> set entry \<and> \<not> hasPrefix entry ''=''
        \<and> (\<forall>n v. contribution platform entry = Some (n, v) \<longrightarrow> validateSafeBaseValue platform n v = Inr ()))"

definition contributions :: "Platform \<Rightarrow> string list \<Rightarrow> environment" where
  "contributions platform entries = List.map_filter (contribution platform) entries"

definition safeNames :: "Platform \<Rightarrow> string list" where
  "safeNames platform = map snd (if platform = Windows then windowsSafeBaseNames else linuxSafeBaseNames)"

lemma canonicalName_safe: "canonicalName platform name = Some n \<Longrightarrow> n \<in> set (safeNames platform)"
  by (force simp: canonicalName_def safeNames_def split: if_splits dest!: map_of_SomeD)

definition windowsGatewayNames :: "string list" where
  "windowsGatewayNames =
     [''USERPROFILE'', ''HOME'', ''TEMP'', ''TMP'', ''USERNAME'', ''PATH'', ''AWG_REQUEST_ID'',
      ''AWG_SESSION_ID'', ''AWG_ATTEMPT_ID'']"

lemma windows_names_distinct: "distinct (map toLower (safeNames Windows @ windowsGatewayNames))"
  by code_simp

lemma windows_names_inj: "inj_on toLower (set (safeNames Windows) \<union> set windowsGatewayNames)"
  using windows_names_distinct distinct_map [of toLower "safeNames Windows @ windowsGatewayNames"]
  by (simp only: set_append)

lemma seenNameOf_inj:
  "n \<in> set (safeNames platform) \<Longrightarrow> m \<in> set (safeNames platform)
     \<Longrightarrow> seenNameOf platform n = seenNameOf platform m \<longleftrightarrow> n = m"
  using windows_names_inj by (auto simp: seenNameOf_def inj_on_def)

lemma update_new: "k \<notin> fst ` set al \<Longrightarrow> AList.update k v al = al @ [(k, v)]"
  by (induction al) auto

definition seenOf :: "Platform \<Rightarrow> environment \<Rightarrow> string list" where
  "seenOf platform env = rev (map (seenNameOf platform \<circ> fst) env)"

lemma contribution_safe: "contribution platform entry = Some (n, v) \<Longrightarrow> n \<in> set (safeNames platform)"
  by (auto simp: contribution_def canonicalName_safe split: if_splits)

lemma seenOf_iff:
  assumes "fst ` set env \<subseteq> set (safeNames platform)" and "n \<in> set (safeNames platform)"
  shows "seenNameOf platform n \<in> set (seenOf platform env) \<longleftrightarrow> n \<in> fst ` set env"
proof -
  have "seenNameOf platform n = seenNameOf platform m \<longleftrightarrow> n = m" if "m \<in> fst ` set env" for m
    using seenNameOf_inj [of n platform m] assms that by blast
  then show ?thesis by (force simp: seenOf_def)
qed

lemma hasPrefix_equals: "entry \<noteq> [] \<Longrightarrow> hasPrefix entry ''='' \<longleftrightarrow> hd entry = CHR ''=''"
  by (cases entry) (auto simp: hasPrefix_def)

lemma safeBaseEntry_ok:
  assumes "fst ` set env \<subseteq> set (safeNames platform)"
  shows "safeBaseEntry platform entry (env, seenOf platform env) = Inr st \<longleftrightarrow>
    entryOk platform entry
    \<and> (case contribution platform entry of
         None \<Rightarrow> st = (env, seenOf platform env)
       | Some (n, v) \<Rightarrow> n \<notin> fst ` set env \<and> st = (env @ [(n, v)], seenOf platform (env @ [(n, v)])))"
proof (cases "entry = [] \<or> length entry > maxEntryBytes \<or> containsAny entry [CHR 0x00] \<or> hasPrefix entry ''=''
    \<or> CHR ''='' \<notin> set entry")
  case True
  then show ?thesis
    by (auto simp: safeBaseEntry_def entryOk_def contribution_def not_less split: if_splits)
next
  case False
  let ?name = "takeWhile (\<lambda>c. c \<noteq> CHR ''='') entry" and ?v = "drop 1 (dropWhile (\<lambda>c. c \<noteq> CHR ''='') entry)"
  have c: "contribution platform entry = map_option (\<lambda>n. (n, ?v)) (canonicalName platform ?name)"
    using False by (simp add: contribution_def)
  have ok: "entryOk platform entry \<longleftrightarrow>
      (\<forall>n. canonicalName platform ?name = Some n \<longrightarrow> validateSafeBaseValue platform n ?v = Inr ())"
    using False c by (auto simp: entryOk_def)
  show ?thesis
  proof (cases "canonicalName platform ?name")
    case None
    then show ?thesis using False c ok by (auto simp: safeBaseEntry_def Let_def)
  next
    case (Some n)
    then have seen: "seenNameOf platform n \<in> set (seenOf platform env) \<longleftrightarrow> n \<in> fst ` set env"
      using seenOf_iff [OF assms] canonicalName_safe by blast
    have step: "safeBaseEntry platform entry (env, seenOf platform env) =
        bindR (failIf (n \<in> fst ` set env) (safeBaseError ''duplicate-allowed-key'')) (\<lambda>_.
        bindR (validateSafeBaseValue platform n ?v) (\<lambda>_.
        Inr (AList.update n ?v env, seenNameOf platform n # seenOf platform env)))"
      using False Some seen by (simp add: safeBaseEntry_def Let_def)
    have st: "seenOf platform (env @ [(n, x)]) = seenNameOf platform n # seenOf platform env" for x
      by (simp add: seenOf_def)
    show ?thesis
      unfolding step c ok Some
      by (cases "n \<in> fst ` set env") (auto simp: bindR_eq_Inr update_new st)
  qed
qed

lemma contributions_Cons:
  "contributions platform (e # es) =
     (case contribution platform e of None \<Rightarrow> [] | Some x \<Rightarrow> [x]) @ contributions platform es"
  by (simp add: contributions_def List.map_filter_simps split: option.splits)

lemma safeBaseEntries_ok:
  assumes "fst ` set env \<subseteq> set (safeNames platform)"
  shows "foldR (safeBaseEntry platform) es (env, seenOf platform env) = Inr st \<longleftrightarrow>
    (\<forall>e\<in>set es. entryOk platform e) \<and> distinct (map fst (contributions platform es))
    \<and> fst ` set (contributions platform es) \<inter> fst ` set env = {}
    \<and> st = (env @ contributions platform es, seenOf platform (env @ contributions platform es))"
  using assms
proof (induction es arbitrary: env)
  case Nil
  then show ?case by (auto simp: contributions_def List.map_filter_simps)
next
  case (Cons e es)
  note step = safeBaseEntry_ok [OF Cons.prems, of e]
  show ?case
  proof (cases "contribution platform e")
    case None
    show ?thesis
    proof (cases "entryOk platform e")
      case True
      then have "safeBaseEntry platform e (env, seenOf platform env) = Inr (env, seenOf platform env)"
        using step None by simp
      then show ?thesis using Cons.IH [OF Cons.prems] True by (simp add: contributions_Cons None)
    next
      case False
      then obtain f where "safeBaseEntry platform e (env, seenOf platform env) = Inl f"
        using step by (cases "safeBaseEntry platform e (env, seenOf platform env)") auto
      then show ?thesis using False by simp
    qed
  next
    case (Some x)
    obtain n v where x: "x = (n, v)" by (cases x)
    show ?thesis
    proof (cases "entryOk platform e \<and> n \<notin> fst ` set env")
      case True
      then have one: "safeBaseEntry platform e (env, seenOf platform env)
          = Inr (env @ [(n, v)], seenOf platform (env @ [(n, v)]))"
        using step Some x by simp
      have "fst ` set (env @ [(n, v)]) \<subseteq> set (safeNames platform)"
        using Cons.prems contribution_safe [of platform e n v] Some x by simp
      from Cons.IH [OF this] one show ?thesis
        using True by (auto simp: contributions_Cons Some x)
    next
      case False
      then have "safeBaseEntry platform e (env, seenOf platform env) \<noteq> Inr s" for s
        using safeBaseEntry_ok [OF Cons.prems, of e s] Some x by auto
      then obtain f where "safeBaseEntry platform e (env, seenOf platform env) = Inl f"
        by (cases "safeBaseEntry platform e (env, seenOf platform env)") auto
      then show ?thesis using False by (auto simp: contributions_Cons Some x)
    qed
  qed
qed

text \<open>The projection succeeds on well-formed entries that name no variable twice.\<close>

lemma projectSafeBase_ok:
  "projectSafeBase platform es = Inr env \<longleftrightarrow>
     (\<forall>e\<in>set es. entryOk platform e) \<and> distinct (map fst (contributions platform es))
     \<and> env = contributions platform es"
proof -
  have "[] = seenOf platform []" by (simp add: seenOf_def)
  then show ?thesis
    using safeBaseEntries_ok [of "[]" platform es]
    by (auto simp: projectSafeBase_def bindR_eq_Inr)
qed

section \<open>What the environment contains\<close>

lemma updates_new:
  "distinct (map fst kvs) \<Longrightarrow> fst ` set kvs \<inter> fst ` set env = {}
   \<Longrightarrow> fold (\<lambda>(name, v). AList.update name v) kvs env = env @ kvs"
proof (induction kvs arbitrary: env)
  case (Cons kv kvs)
  then show ?case by (cases kv) (auto simp: update_new)
qed simp

lemma gateway_names:
  "distinct (map fst (gatewayValues cfg ctx))"
  "fst ` set (gatewayValues cfg ctx) \<inter> set (safeNames (cf_Platform cfg)) = {}"
  by (simp_all add: gatewayValues_def safeNames_def windowsSafeBaseNames_def linuxSafeBaseNames_def)

lemma contributions_names: "fst ` set (contributions platform es) \<subseteq> set (safeNames platform)"
  using contribution_safe by (force simp: contributions_def List.map_filter_def)

lemma setGatewayValues_append:
  "setGatewayValues cfg ctx (contributions (cf_Platform cfg) es)
     = contributions (cf_Platform cfg) es @ gatewayValues cfg ctx"
  unfolding setGatewayValues_def
  using gateway_names [of cfg ctx] contributions_names [of "cf_Platform cfg" es]
  by (intro updates_new) auto

lemma environment_distinct:
  assumes "distinct (map fst (contributions (cf_Platform cfg) es))"
  shows "distinct (map fst (contributions (cf_Platform cfg) es @ gatewayValues cfg ctx))"
  using assms gateway_names [of cfg ctx] contributions_names [of "cf_Platform cfg" es] by auto

text \<open>The conditions under which an environment is built, and what it is.\<close>

definition systemPathsOk :: "Platform \<Rightarrow> environment \<Rightarrow> bool" where
  "systemPathsOk platform env \<longleftrightarrow>
     (platform = Windows \<longrightarrow>
        (\<exists>a b. map_of env ''SystemRoot'' = Some a \<and> map_of env ''WINDIR'' = Some b \<and> Equal Windows a b))"

lemma BuildEnvironment_ok:
  "BuildEnvironment cfg es ctx = Inr env \<longleftrightarrow>
     ValidateConfig cfg = Inr () \<and> identifierPattern (cx_RequestID ctx)
     \<and> identifierPattern (cx_SessionID ctx) \<and> identifierPattern (cx_AttemptID ctx)
     \<and> length es \<le> maxBaseEntries \<and> (\<forall>e\<in>set es. entryOk (cf_Platform cfg) e)
     \<and> distinct (map fst (contributions (cf_Platform cfg) es))
     \<and> systemPathsOk (cf_Platform cfg) (contributions (cf_Platform cfg) es)
     \<and> env = sortedEnvironment (cf_Platform cfg)
          (contributions (cf_Platform cfg) es @ gatewayValues cfg ctx)"
proof -
  have sys: "(if cf_Platform cfg = Windows then
              (case (map_of p ''SystemRoot'', map_of p ''WINDIR'') of
                 (Some systemRoot, Some windowsDirectory) \<Rightarrow>
                   failIf (\<not> Equal Windows systemRoot windowsDirectory)
                     (safeBaseError ''inconsistent-windows-system-paths'')
               | _ \<Rightarrow> Inl (safeBaseError ''missing-windows-system-paths''))
            else Inr ()) = Inr u \<longleftrightarrow> systemPathsOk (cf_Platform cfg) p" for p u
    by (auto simp: systemPathsOk_def split: option.splits)
  show ?thesis
    unfolding BuildEnvironment_def
    by (auto simp: bindR_eq_Inr projectSafeBase_ok sys setGatewayValues_append simp del: bindR_failIf)
qed

lemma sortedEnvironment_mset:
  assumes "distinct (map fst env)" and "mset env = mset env'"
    and "inj_on (\<lambda>n. if platform = Windows then toLower n else n) (fst ` set env)"
  shows "sortedEnvironment platform env = sortedEnvironment platform env'"
proof -
  let ?key = "\<lambda>name. if platform = Windows then toLower name else name"
  have same: "set env = set env'" using assms(2) by (rule mset_eq_setD)
  have d': "distinct (map fst env')"
    using assms(1,2) by (metis distinct_map mset_eq_imp_distinct_iff mset_map)
  have m: "mset (map fst env) = mset (map fst env')" using assms(2) by (simp add: mset_map)
  have "sort_key ?key (map fst env) = sort_key ?key (map fst env')"
    by (rule sort_key_inj_key_eq) (use m assms(3) in simp_all)
  moreover have "map_of env = map_of env'"
    using assms(1) d' same by (metis map_of_inject_set)
  ultimately show ?thesis by (simp add: sortedEnvironment_def)
qed

lemma environment_names_inj:
  "platform = Windows \<Longrightarrow> fst ` set env \<subseteq> set (safeNames Windows)
   \<Longrightarrow> cf_Platform cfg = Windows
   \<Longrightarrow> inj_on toLower (fst ` set (env @ gatewayValues cfg ctx))"
proof -
  assume env: "fst ` set env \<subseteq> set (safeNames Windows)" and w: "cf_Platform cfg = Windows"
  have "fst ` set (gatewayValues cfg ctx) = set windowsGatewayNames"
    by (simp add: gatewayValues_def w windowsGatewayNames_def)
  then show ?thesis using env by (intro inj_on_subset [OF windows_names_inj]) auto
qed

end
