(* ===== verification/Execution_Policy.thy ===== *)
theory Execution_Policy
  imports Protocol_Records Workload_Env
begin

text \<open>
  The execute envelope (\<open>internal/brokerproto\<close>), the authorization of an envelope against the
  installed configuration (\<open>internal/executionpolicy/authorize.go\<close>) and the shell invocation
  built from a plan (\<open>internal/shellinvoke/invocation.go\<close>).  The native path resolver is a
  parameter: a function from platform, requested path and roots to a resolution or an error
  (\<open>None\<close>); the outer option is the nil interface value.
\<close>

section \<open>Execute envelopes\<close>

datatype BrokerError = BrokerError (be_Field: string) (be_Rule: string)

definition BrokerCurrentVersion :: "8 word" where "BrokerCurrentVersion = 1"
definition OperationExecute :: string where "OperationExecute = ''execute''"

record ExecuteEnvelope =
  ee_ProtocolVersion :: "8 word"
  ee_Operation :: string
  ee_AttemptID :: string
  ee_AcceptedRequest :: AcceptedRequestRecord

definition ValidateExecuteEnvelope :: "ExecuteEnvelope \<Rightarrow> BrokerError + unit" where
  "ValidateExecuteEnvelope e = checks
     [failIf (ee_ProtocolVersion e \<noteq> BrokerCurrentVersion) (BrokerError ''protocol_version'' ''unsupported-version''),
      failIf (ee_Operation e \<noteq> OperationExecute) (BrokerError ''operation'' ''unsupported-operation''),
      failIf (\<not> identifierPattern (ee_AttemptID e)) (BrokerError ''attempt_id'' ''invalid-identifier''),
      mapErr (\<lambda>_. BrokerError ''accepted_request'' ''invalid-accepted-record'')
        (ValidateAcceptedRequestRecord (ee_AcceptedRequest e))]"

definition MaxExecuteEnvelopeBytes :: nat where "MaxExecuteEnvelopeBytes = 147456"

definition envelopeJson :: "ExecuteEnvelope \<Rightarrow> json" where
  "envelopeJson e = JObj
     [(''protocol_version'', JInt (uint (ee_ProtocolVersion e))), (''operation'', JStr (ee_Operation e)),
      (''attempt_id'', JStr (ee_AttemptID e)), (''accepted_request'', acceptedJson (ee_AcceptedRequest e))]"

definition MarshalCanonicalExecuteEnvelope :: "ExecuteEnvelope \<Rightarrow> BrokerError + string" where
  "MarshalCanonicalExecuteEnvelope e =
     bindR (ValidateExecuteEnvelope e) (\<lambda>_.
     let encoded = encodeJson (envelopeJson e) in
     bindR (failIf (length encoded > MaxExecuteEnvelopeBytes)
       (BrokerError ''envelope'' ''canonical-size-limit'')) (\<lambda>_. Inr encoded))"

section \<open>Authorization\<close>

datatype PolicyError = PolicyError (po_Field: string) (po_Rule: string)

record Resolution =
  rs_RequestedPath :: string
  rs_WorkingDirectory :: string
  rs_ApprovedRoot :: string

type_synonym Resolver = "Platform \<Rightarrow> string \<Rightarrow> string list \<Rightarrow> Resolution option"

record LaunchPlan =
  lp_RequestID :: string
  lp_RequestDigest :: string
  lp_SessionID :: string
  lp_AttemptID :: string
  lp_Operation :: RequestOperation
  lp_ProcessID :: string
  lp_ExecutionIdentity :: Principal
  lp_Shell :: Shell
  lp_Executable :: string
  lp_WorkingDirectory :: string
  lp_ApprovedRoot :: string
  lp_Script :: string
  lp_TimeoutSeconds :: int
  lp_MaxOutputBytes :: int
  lp_Artifacts :: "ArtifactSelection list"
  lp_Environment :: "string list"
  lp_Capabilities :: "Capability list"

fun configuredShell :: "ShellBinding list \<Rightarrow> Shell \<Rightarrow> string option" where
  "configuredShell [] requested = None"
| "configuredShell (b # bs) requested =
     (if sb_Shell b = requested then Some (sb_Executable b) else configuredShell bs requested)"

definition requestPathMatchesPlatform :: "Platform \<Rightarrow> string \<Rightarrow> bool" where
  "requestPathMatchesPlatform platform requested \<longleftrightarrow>
     (if platform = Windows then
        length requested \<ge> 3 \<and> isASCIILetter (requested ! 0) \<and> requested ! 1 = CHR '':''
        \<and> requested ! 2 = CHR 0x5C
      else if platform = Linux then hasPrefix requested ''/''
      else False)"

definition validateResolution :: "Config \<Rightarrow> string \<Rightarrow> Resolution \<Rightarrow> PolicyError + unit" where
  "validateResolution cfg requested r = checks
     [failIf (rs_RequestedPath r \<noteq> requested) (PolicyError ''working_directory'' ''resolver-request-mismatch''),
      mapErr (\<lambda>_. PolicyError ''working_directory'' ''resolver-returned-invalid-path'')
        (ValidateAbsolute (cf_Platform cfg) (rs_WorkingDirectory r)),
      mapErr (\<lambda>_. PolicyError ''approved_root'' ''resolver-returned-invalid-root'')
        (ValidateAbsolute (cf_Platform cfg) (rs_ApprovedRoot r)),
      failIf (\<not> list_ex (\<lambda>root. Equal (cf_Platform cfg) root (rs_ApprovedRoot r)) (sl (cf_ApprovedRoots cfg)))
        (PolicyError ''approved_root'' ''not-configured''),
      failIf (\<not> Contains (cf_Platform cfg) (rs_ApprovedRoot r) (rs_WorkingDirectory r))
        (PolicyError ''working_directory'' ''outside-approved-root'')]"

definition fromOption :: "'e \<Rightarrow> 'a option \<Rightarrow> 'e + 'a" where
  "fromOption e r = (case r of None \<Rightarrow> Inl e | Some a \<Rightarrow> Inr a)"

lemma fromOption_eq_Inr [simp, result_simps]: "fromOption e r = Inr a \<longleftrightarrow> r = Some a"
  by (simp add: fromOption_def split: option.split)

definition Authorize ::
    "Config \<Rightarrow> ExecuteEnvelope \<Rightarrow> string list \<Rightarrow> Resolver option \<Rightarrow> PolicyError + LaunchPlan" where
  "Authorize cfg envelope safeBaseEnvironment resolver =
     bindR (mapErr (\<lambda>_. PolicyError ''config'' ''invalid-installation-config'') (ValidateConfig cfg)) (\<lambda>_.
     bindR (mapErr (\<lambda>_. PolicyError ''envelope'' ''invalid-execute-envelope'')
       (ValidateExecuteEnvelope envelope)) (\<lambda>_.
     bindR (fromOption (PolicyError ''working_directory'' ''resolver-required'') resolver) (\<lambda>resolve.
     let request = ar_Request (ee_AcceptedRequest envelope) in
     bindR (failIf (\<not> requestPathMatchesPlatform (cf_Platform cfg) (rq_WorkingDirectory request))
       (PolicyError ''working_directory'' ''platform-mismatch'')) (\<lambda>_.
     bindR (fromOption (PolicyError ''shell'' ''not-configured'')
       (configuredShell (sl (cf_Shells cfg)) (rq_Shell request))) (\<lambda>executable.
     bindR (fromOption (PolicyError ''working_directory'' ''resolution-denied'')
       (resolve (cf_Platform cfg) (rq_WorkingDirectory request) (sl (cf_ApprovedRoots cfg)))) (\<lambda>resolution.
     bindR (validateResolution cfg (rq_WorkingDirectory request) resolution) (\<lambda>_.
     bindR (mapErr (\<lambda>_. PolicyError ''environment'' ''construction-failed'')
       (BuildEnvironment cfg safeBaseEnvironment
          \<lparr>cx_RequestID = rq_RequestID request, cx_SessionID = rq_SessionID request,
           cx_AttemptID = ee_AttemptID envelope\<rparr>)) (\<lambda>environment.
     Inr \<lparr>lp_RequestID = rq_RequestID request,
          lp_RequestDigest = ar_RequestDigest (ee_AcceptedRequest envelope),
          lp_SessionID = rq_SessionID request, lp_AttemptID = ee_AttemptID envelope,
          lp_Operation = rq_Operation request, lp_ProcessID = rq_ProcessID request,
          lp_ExecutionIdentity = cf_ExecutionIdentity cfg, lp_Shell = rq_Shell request,
          lp_Executable = executable, lp_WorkingDirectory = rs_WorkingDirectory resolution,
          lp_ApprovedRoot = rs_ApprovedRoot resolution, lp_Script = rq_Script request,
          lp_TimeoutSeconds = rq_TimeoutSeconds request, lp_MaxOutputBytes = rq_MaxOutputBytes request,
          lp_Artifacts = sl (rq_Artifacts request), lp_Environment = environment,
          lp_Capabilities = sl (cf_Capabilities cfg)\<rparr>))))))))"

section \<open>Shell invocations\<close>

datatype InvocationError = ErrInvalidLaunchPlan | ErrUnsupportedShell

record Invocation =
  iv_executable :: string
  iv_arguments :: "string list"
  iv_script :: string

definition shellArguments :: "Shell \<Rightarrow> string list option" where
  "shellArguments shell =
     (if shell = ShellBash \<or> shell = ShellGitBash then Some [''--noprofile'', ''--norc'', ''-s'']
      else if shell = ShellPowerShell \<or> shell = ShellPwsh
      then Some [''-NoLogo'', ''-NoProfile'', ''-NonInteractive'', ''-Command'', ''-'']
      else if shell = ShellCmd then Some [''/D'', ''/Q'']
      else None)"

definition BuildInvocation :: "LaunchPlan \<Rightarrow> InvocationError + Invocation" where
  "BuildInvocation plan =
     (if lp_Executable plan = [] \<or> lp_Script plan = [] then Inl ErrInvalidLaunchPlan
      else case shellArguments (lp_Shell plan) of
          None \<Rightarrow> Inl ErrUnsupportedShell
        | Some arguments \<Rightarrow>
            Inr \<lparr>iv_executable = lp_Executable plan, iv_arguments = arguments, iv_script = lp_Script plan\<rparr>)"

section \<open>What an authorized plan is\<close>

lemma configuredShell_Some:
  "configuredShell bs requested = Some x \<Longrightarrow> \<exists>b\<in>set bs. sb_Shell b = requested \<and> sb_Executable b = x"
  by (induction bs) (auto split: if_splits)

lemma validateResolution_ok [simp]:
  "validateResolution cfg requested r = Inr u \<longleftrightarrow>
     rs_RequestedPath r = requested \<and> ValidateAbsolute (cf_Platform cfg) (rs_WorkingDirectory r) = Inr ()
     \<and> ValidateAbsolute (cf_Platform cfg) (rs_ApprovedRoot r) = Inr ()
     \<and> (\<exists>root\<in>set (sl (cf_ApprovedRoots cfg)). Equal (cf_Platform cfg) root (rs_ApprovedRoot r))
     \<and> Contains (cf_Platform cfg) (rs_ApprovedRoot r) (rs_WorkingDirectory r)"
  by (auto simp: validateResolution_def list_ex_iff)

lemma ValidateExecuteEnvelope_ok [simp]:
  "ValidateExecuteEnvelope e = Inr u \<longleftrightarrow>
     ee_ProtocolVersion e = BrokerCurrentVersion \<and> ee_Operation e = OperationExecute
     \<and> identifierPattern (ee_AttemptID e) \<and> ValidateAcceptedRequestRecord (ee_AcceptedRequest e) = Inr ()"
  by (auto simp: ValidateExecuteEnvelope_def)

lemma Authorize_ok:
  assumes "Authorize cfg envelope base resolver = Inr plan"
  shows "ValidateConfig cfg = Inr ()" "ValidateExecuteEnvelope envelope = Inr ()"
    and "\<exists>resolve resolution. resolver = Some resolve
      \<and> resolve (cf_Platform cfg) (rq_WorkingDirectory (ar_Request (ee_AcceptedRequest envelope)))
          (sl (cf_ApprovedRoots cfg)) = Some resolution
      \<and> validateResolution cfg (rq_WorkingDirectory (ar_Request (ee_AcceptedRequest envelope))) resolution = Inr ()
      \<and> lp_WorkingDirectory plan = rs_WorkingDirectory resolution
      \<and> lp_ApprovedRoot plan = rs_ApprovedRoot resolution"
    and "configuredShell (sl (cf_Shells cfg)) (lp_Shell plan) = Some (lp_Executable plan)"
    and "BuildEnvironment cfg base \<lparr>cx_RequestID = lp_RequestID plan, cx_SessionID = lp_SessionID plan,
           cx_AttemptID = lp_AttemptID plan\<rparr> = Inr (lp_Environment plan)"
    and "lp_ExecutionIdentity plan = cf_ExecutionIdentity cfg"
    and "lp_Capabilities plan = sl (cf_Capabilities cfg)"
    and "lp_RequestDigest plan = ar_RequestDigest (ee_AcceptedRequest envelope)"
    and "lp_Script plan = rq_Script (ar_Request (ee_AcceptedRequest envelope))"
    and "lp_Shell plan = rq_Shell (ar_Request (ee_AcceptedRequest envelope))"
    and "lp_TimeoutSeconds plan = rq_TimeoutSeconds (ar_Request (ee_AcceptedRequest envelope))"
    and "lp_MaxOutputBytes plan = rq_MaxOutputBytes (ar_Request (ee_AcceptedRequest envelope))"
    and "lp_RequestID plan = rq_RequestID (ar_Request (ee_AcceptedRequest envelope))"
    and "lp_AttemptID plan = ee_AttemptID envelope"
    and "lp_Operation plan = rq_Operation (ar_Request (ee_AcceptedRequest envelope))"
    and "lp_ProcessID plan = rq_ProcessID (ar_Request (ee_AcceptedRequest envelope))"
    and "lp_SessionID plan = rq_SessionID (ar_Request (ee_AcceptedRequest envelope))"
    and "lp_Artifacts plan = sl (rq_Artifacts (ar_Request (ee_AcceptedRequest envelope)))"
  using assms unfolding Authorize_def
  by (auto simp: bindR_eq_Inr Let_def split: if_splits)

end
