(* ===== verification/Output_Capture.thy ===== *)
theory Output_Capture
  imports Protocol_Result
begin

text \<open>
  The bounded capture of a stream: \<open>internal/outputcapture/capture.go\<close>.  The capture keeps
  its limit, the running digest, the number of bytes seen as a \<open>uint64\<close> and the retained
  prefix.  The mutex makes each operation atomic, so operations are functions of the state.
\<close>

datatype CaptureError = ErrInvalidLimit | ErrByteCountOverflow

record Capture =
  cap_limit :: int
  cap_digest :: hash
  cap_total :: "64 word"
  cap_retained :: string

record Snapshot =
  snap_Metadata :: OutputMetadata
  snap_Retained :: string

definition NewCapture :: "int \<Rightarrow> CaptureError + Capture" where
  "NewCapture limit =
     (if limit < MinOutputBytes \<or> limit > MaxOutputBytes then Inl ErrInvalidLimit
      else Inr \<lparr>cap_limit = limit, cap_digest = hashNew, cap_total = 0, cap_retained = []\<rparr>)"

text \<open>The result is the number of bytes accepted or the error, and the state afterwards.\<close>

definition captureWrite :: "Capture \<Rightarrow> string \<Rightarrow> (CaptureError + nat) \<times> Capture" where
  "captureWrite capture content =
     (if word_of_nat (length content) > - 1 - cap_total capture
      then (Inl ErrByteCountOverflow, capture)
      else
        (let remaining = min (cap_limit capture - int (length (cap_retained capture))) (int (length content))
         in (Inr (length content),
             capture\<lparr>cap_digest := hashWrite (cap_digest capture) content,
                     cap_total := cap_total capture + word_of_nat (length content),
                     cap_retained := (if remaining > 0
                        then cap_retained capture @ take (nat remaining) content
                        else cap_retained capture)\<rparr>)))"

definition captureSnapshot :: "Capture \<Rightarrow> CaptureError + Snapshot" where
  "captureSnapshot capture =
     (if uint (cap_total capture) > maxInt64 then Inl ErrByteCountOverflow
      else Inr \<lparr>snap_Metadata =
                 \<lparr>om_SHA256 = hashSumHex (cap_digest capture),
                  om_TotalBytes = uint (cap_total capture),
                  om_RetainedBytes = int (length (cap_retained capture)),
                  om_Truncated = word_of_nat (length (cap_retained capture)) < cap_total capture\<rparr>,
               snap_Retained = cap_retained capture\<rparr>)"

text \<open>A stream written in pieces.\<close>

definition captureAll :: "string list \<Rightarrow> Capture \<Rightarrow> CaptureError + Capture" where
  "captureAll = foldR (\<lambda>content capture.
     case captureWrite capture content of (r, capture') \<Rightarrow> bindR r (\<lambda>_. Inr capture'))"

section \<open>What a capture holds\<close>

text \<open>
  The abstraction: a capture represents the stream \<open>s\<close> when its digest is fed with \<open>s\<close>, its
  count is the length and it retains the prefix up to the limit.
\<close>

definition capturing :: "int \<Rightarrow> string \<Rightarrow> Capture \<Rightarrow> bool" where
  "capturing limit s c \<longleftrightarrow> cap_limit c = limit \<and> cap_digest c = hashWrite hashNew s
     \<and> length s < 2 ^ 64 \<and> cap_total c = word_of_nat (length s) \<and> cap_retained c = take (nat limit) s"

lemma NewCapture_capturing:
  "NewCapture limit = Inr c \<Longrightarrow> capturing limit [] c"
  by (auto simp: NewCapture_def capturing_def hashNew_def hashWrite_def split: if_splits)

lemma unat_length: "n < 2 ^ 64 \<Longrightarrow> unat (word_of_nat n :: 64 word) = n"
  by (simp add: unat_of_nat take_bit_nat_eq_self)

lemma capture_overflow_iff:
  assumes "m < 2 ^ 64" and "n < 2 ^ 64"
  shows "(word_of_nat n :: 64 word) > - 1 - word_of_nat m \<longleftrightarrow> 2 ^ 64 \<le> m + n"
proof -
  have "unat (- 1 - word_of_nat m :: 64 word) = 2 ^ 64 - 1 - m"
    using unat_sub [of "word_of_nat m" "- 1 :: 64 word"] assms
    by (simp add: unat_length unsigned_minus_1_eq_mask mask_eq_exp_minus_1)
  then show ?thesis using assms by (auto simp: word_less_nat_alt unat_length)
qed

text \<open>One write: the whole piece is accepted, or nothing is and the state stays.\<close>

lemma captureWrite_capturing:
  assumes "capturing limit s c" and "length content < 2 ^ 64" and "0 \<le> limit"
    and "captureWrite c content = (r, c')"
  shows "if length s + length content < 2 ^ 64
     then r = Inr (length content) \<and> capturing limit (s @ content) c'
     else r = Inl ErrByteCountOverflow \<and> c' = c"
proof -
  have c: "cap_limit c = limit" "cap_digest c = hashWrite hashNew s" "length s < 2 ^ 64"
    "cap_total c = word_of_nat (length s)" "cap_retained c = take (nat limit) s"
    using assms(1) by (simp_all add: capturing_def)
  note over = capture_overflow_iff [OF c(3) assms(2), folded c(4)]
  show ?thesis
  proof (cases "length s + length content < 2 ^ 64")
    case False
    then show ?thesis using assms(4) over by (simp add: captureWrite_def not_less)
  next
    case True
    let ?rem = "min (limit - int (length (take (nat limit) s))) (int (length content))"
    have kept: "(if ?rem > 0 then take (nat limit) s @ take (nat ?rem) content else take (nat limit) s)
        = take (nat limit) (s @ content)"
    proof (cases "length s < nat limit")
      case True
      then have "nat ?rem = min (nat limit - length s) (length content)" by simp
      then show ?thesis using True by (auto simp: min_def)
    next
      case False
      then show ?thesis using assms(3) by simp
    qed
    have "\<not> (word_of_nat (length content) > - 1 - cap_total c)" using over True by simp
    then have "captureWrite c content = (Inr (length content),
        c\<lparr>cap_digest := hashWrite (cap_digest c) content,
          cap_total := cap_total c + word_of_nat (length content),
          cap_retained := take (nat limit) (s @ content)\<rparr>)"
      by (simp only: captureWrite_def Let_def if_False c(1) c(5) kept)
    then have "r = Inr (length content)" and c': "c' = c\<lparr>cap_digest := hashWrite (cap_digest c) content,
        cap_total := cap_total c + word_of_nat (length content),
        cap_retained := take (nat limit) (s @ content)\<rparr>"
      using assms(4) by simp_all
    moreover have "capturing limit (s @ content) c'"
      using c True by (simp add: c' capturing_def hashWrite_def hashNew_def)
    ultimately show ?thesis using True by simp
  qed
qed

lemma captureAll_capturing:
  assumes "capturing limit s c" and "0 \<le> limit" and "length s + length (concat pieces) < 2 ^ 64"
  shows "\<exists>c'. captureAll pieces c = Inr c' \<and> capturing limit (s @ concat pieces) c'"
  using assms
proof (induction pieces arbitrary: s c)
  case Nil
  then show ?case by (simp add: captureAll_def)
next
  case (Cons x xs)
  obtain r c1 where w: "captureWrite c x = (r, c1)" by fastforce
  have "r = Inr (length x)" "capturing limit (s @ x) c1"
    using captureWrite_capturing [OF Cons.prems(1) _ Cons.prems(2) w] Cons.prems(3) by simp_all
  then show ?case using Cons.IH [of "s @ x" c1] Cons.prems w by (simp add: captureAll_def)
qed

text \<open>The snapshot describes the stream.\<close>

lemma captureSnapshot_capturing:
  assumes "capturing limit s c" and "0 \<le> limit" and "length s < 2 ^ 63"
  shows "captureSnapshot c = Inr
    \<lparr>snap_Metadata = \<lparr>om_SHA256 = sha256Hex s, om_TotalBytes = int (length s),
        om_RetainedBytes = min limit (int (length s)), om_Truncated = (limit < int (length s))\<rparr>,
     snap_Retained = take (nat limit) s\<rparr>"
proof -
  have c: "cap_digest c = s" "cap_total c = word_of_nat (length s)" "cap_retained c = take (nat limit) s"
    using assms(1) by (simp_all add: capturing_def hashWrite_def hashNew_def)
  have u: "uint (word_of_nat (length s) :: 64 word) = int (length s)"
    using assms(3) by (simp add: unsigned_of_nat take_bit_nat_eq_self)
  have r: "int (min (length s) (nat limit)) = min limit (int (length s))" using assms(2) by auto
  have t: "(word_of_nat (min (length s) (nat limit)) :: 64 word) < word_of_nat (length s)
      \<longleftrightarrow> limit < int (length s)"
    using assms(2,3) by (auto simp: word_less_nat_alt unat_length min_def)
  show ?thesis using assms(3)
    by (simp add: captureSnapshot_def c u r t hashSumHex_def maxInt64_def)
qed

end
