(* ===== verification/Artifact_Pattern.thy ===== *)
theory Artifact_Pattern
  imports Go_Path_Match
begin

text \<open>
  Artifact globs: \<open>internal/artifactpattern/match.go\<close>.  The two closures of the code recurse
  over a pair of indices and share the maps \<open>memo\<close> and \<open>seen\<close>; here the maps are an explicit
  state threaded through the calls.  \<open>None\<close> is \<open>path.ErrBadPattern\<close>.  The reference
  recursions \<open>globMatch\<close> and \<open>globCould\<close> work on lists of segments without any memory, and
  \<open>segmentsMatch\<close> says what a match is.
\<close>

section \<open>The memo tables\<close>

record MemoState =
  memo :: "nat \<times> nat \<Rightarrow> bool option"
  seen :: "(nat \<times> nat) set"

definition emptyMemo :: MemoState where
  "emptyMemo = \<lparr>memo = (\<lambda>_. None), seen = {}\<rparr>"

text \<open>Reading a missing key of a Go map gives \<open>false\<close>.\<close>

definition recall :: "MemoState \<Rightarrow> nat \<times> nat \<Rightarrow> bool" where
  "recall st x = (memo st x = Some True)"

definition visit :: "nat \<times> nat \<Rightarrow> MemoState \<Rightarrow> MemoState" where
  "visit x st = st\<lparr>seen := insert x (seen st)\<rparr>"

definition memoize :: "nat \<times> nat \<Rightarrow> bool option \<Rightarrow> MemoState \<Rightarrow> MemoState" where
  "memoize x r st = st\<lparr>memo := (memo st)(x \<mapsto> (r = Some True))\<rparr>"

section \<open>Match\<close>

text \<open>The pattern index never exceeds the number of segments; the code tests for equality.\<close>

function matchFrom ::
    "string list \<Rightarrow> string list \<Rightarrow> nat \<Rightarrow> nat \<Rightarrow> MemoState \<Rightarrow> bool option \<times> MemoState" where
  "matchFrom ps cs patternIndex candidateIndex st =
     (let current = (patternIndex, candidateIndex) in
      if current \<in> seen st then (Some (recall st current), st)
      else
        (let st = visit current st in
         if length ps \<le> patternIndex then
           (let r = Some (candidateIndex = length cs) in (r, memoize current r st))
         else if ps ! patternIndex = ''**'' then
           (case matchFrom ps cs (patternIndex + 1) candidateIndex st of (r, st) \<Rightarrow>
              if r \<noteq> Some False then (r, memoize current r st)
              else if candidateIndex < length cs then
                (case matchFrom ps cs patternIndex (candidateIndex + 1) st of (r, st) \<Rightarrow>
                   (r, memoize current r st))
              else (Some False, st))
         else if candidateIndex = length cs then (Some False, st)
         else case pathMatch (ps ! patternIndex) (cs ! candidateIndex) of
             None \<Rightarrow> (None, st)
           | Some False \<Rightarrow> (Some False, st)
           | Some True \<Rightarrow>
               (case matchFrom ps cs (patternIndex + 1) (candidateIndex + 1) st of (r, st) \<Rightarrow>
                  (r, memoize current r st))))"
  by pat_completeness auto
termination
  by (relation "measure (\<lambda>(ps, cs, i, j, st). (length ps - i) + (length cs - j))") auto

declare matchFrom.simps [simp del]

definition Match :: "string \<Rightarrow> string \<Rightarrow> bool option" where
  "Match pattern candidate =
     fst (matchFrom (splitOn CHR ''/'' pattern) (splitOn CHR ''/'' candidate) 0 0 emptyMemo)"

section \<open>CouldMatchDescendant\<close>

function possibleFrom ::
    "string list \<Rightarrow> string list \<Rightarrow> nat \<Rightarrow> nat \<Rightarrow> MemoState \<Rightarrow> bool option \<times> MemoState" where
  "possibleFrom ps cs patternIndex prefixIndex st =
     (let current = (patternIndex, prefixIndex) in
      if current \<in> seen st then (Some (recall st current), st)
      else
        (let st = visit current st in
         if length cs \<le> prefixIndex then
           (let r = Some (patternIndex < length ps) in (r, memoize current r st))
         else if length ps \<le> patternIndex then (Some False, st)
         else if ps ! patternIndex = ''**'' then
           (case possibleFrom ps cs (patternIndex + 1) prefixIndex st of (r, st) \<Rightarrow>
              if r \<noteq> Some False then (r, memoize current r st)
              else
                (case possibleFrom ps cs patternIndex (prefixIndex + 1) st of (r, st) \<Rightarrow>
                   (r, memoize current r st)))
         else case pathMatch (ps ! patternIndex) (cs ! prefixIndex) of
             None \<Rightarrow> (None, st)
           | Some False \<Rightarrow> (Some False, st)
           | Some True \<Rightarrow>
               (case possibleFrom ps cs (patternIndex + 1) (prefixIndex + 1) st of (r, st) \<Rightarrow>
                  (r, memoize current r st))))"
  by pat_completeness auto
termination
  by (relation "measure (\<lambda>(ps, cs, i, j, st). (length ps - i) + (length cs - j))") auto

declare possibleFrom.simps [simp del]

definition CouldMatchDescendant :: "string \<Rightarrow> string \<Rightarrow> bool option" where
  "CouldMatchDescendant pattern pre =
     fst (possibleFrom (splitOn CHR ''/'' pattern) (splitOn CHR ''/'' pre) 0 0 emptyMemo)"

section \<open>Reference recursions\<close>

fun globMatch :: "string list \<Rightarrow> string list \<Rightarrow> bool option" where
  "globMatch [] cs = Some (cs = [])"
| "globMatch (p # ps) [] = (if p = ''**'' then globMatch ps [] else Some False)"
| "globMatch (p # ps) (c # cs) =
     (if p = ''**'' then
        (if globMatch ps (c # cs) = Some False then globMatch (p # ps) cs else globMatch ps (c # cs))
      else if pathMatch p c = Some True then globMatch ps cs else pathMatch p c)"

fun globCould :: "string list \<Rightarrow> string list \<Rightarrow> bool option" where
  "globCould ps [] = Some (ps \<noteq> [])"
| "globCould [] (c # cs) = Some False"
| "globCould (p # ps) (c # cs) =
     (if p = ''**'' then
        (if globCould ps (c # cs) = Some False then globCould (p # ps) cs else globCould ps (c # cs))
      else if pathMatch p c = Some True then globCould ps cs else pathMatch p c)"

text \<open>What a match of segment lists is.\<close>

inductive segmentsMatch :: "string list \<Rightarrow> string list \<Rightarrow> bool" where
  segmentsMatch_Nil: "segmentsMatch [] []"
| segmentsMatch_stars: "segmentsMatch ps cs \<Longrightarrow> segmentsMatch (''**'' # ps) (xs @ cs)"
| segmentsMatch_one:
    "p \<noteq> ''**'' \<Longrightarrow> pathMatch p c = Some True \<Longrightarrow> segmentsMatch ps cs
     \<Longrightarrow> segmentsMatch (p # ps) (c # cs)"

inductive_cases segmentsMatch_NilE: "segmentsMatch [] cs"
inductive_cases segmentsMatch_ConsE: "segmentsMatch (p # ps) cs"

section \<open>The memo tables are transparent\<close>

text \<open>
  A state is sound from level \<open>k\<close> on when the answers recalled for the pairs whose indices
  sum to at least \<open>k\<close> are those of the reference; pairs of a lower level are still on the
  stack.  A call at level \<open>k\<close> leaves the lower levels alone.
\<close>

definition memoSound :: "(nat \<Rightarrow> nat \<Rightarrow> bool option) \<Rightarrow> nat \<Rightarrow> MemoState \<Rightarrow> bool" where
  "memoSound ref k st \<longleftrightarrow>
     (\<forall>i j. (i, j) \<in> seen st \<and> k \<le> i + j \<longrightarrow> ref i j = Some (recall st (i, j)))
     \<and> (\<forall>x. x \<notin> seen st \<longrightarrow> \<not> recall st x)"

definition memoFrame :: "nat \<Rightarrow> MemoState \<Rightarrow> MemoState \<Rightarrow> bool" where
  "memoFrame k st st' \<longleftrightarrow>
     (\<forall>i j. i + j < k \<longrightarrow> ((i, j) \<in> seen st' \<longleftrightarrow> (i, j) \<in> seen st)
        \<and> recall st' (i, j) = recall st (i, j))
     \<and> seen st \<subseteq> seen st'"

lemma recall_simps [simp]:
  "recall (visit x st) y = recall st y"
  "recall (memoize x r st) y = (if y = x then r = Some True else recall st y)"
  "seen (visit x st) = insert x (seen st)"
  "seen (memoize x r st) = seen st"
  by (auto simp: recall_def visit_def memoize_def)

lemma memoSound_seen: "memoSound ref (i + j) st \<Longrightarrow> (i, j) \<in> seen st \<Longrightarrow> ref i j = Some (recall st (i, j))"
  by (simp add: memoSound_def)

lemma memoSound_visit:
  "memoSound ref k st \<Longrightarrow> k \<le> i + j \<Longrightarrow> i + j < k' \<Longrightarrow> memoSound ref k' (visit (i, j) st)"
  by (auto simp: memoSound_def)

lemma memoFrame_visit: "memoFrame (i + j) st (visit (i, j) st)"
  by (auto simp: memoFrame_def)

lemma memoFrame_trans:
  "memoFrame k st st' \<Longrightarrow> memoFrame k' st' st'' \<Longrightarrow> k \<le> k' \<Longrightarrow> memoFrame k st st''"
  by (simp add: memoFrame_def) (meson order_less_le_trans subset_trans)

text \<open>
  A call finishes the pair \<open>(i, j)\<close>: the sub-calls worked above its level, and its answer is
  the reference's.
\<close>

lemma memo_finish:
  assumes before: "memoSound ref (i + j) st" and new: "(i, j) \<notin> seen st"
    and frame: "memoFrame (Suc (i + j)) (visit (i, j) st) st'"
    and sub: "memoSound ref (Suc (i + j)) st'" and r: "ref i j = Some b"
  shows "memoSound ref (i + j) (memoize (i, j) (Some b) st')
       \<and> memoFrame (i + j) st (memoize (i, j) (Some b) st')"
proof -
  have same: "(a, c) \<in> seen st' \<longleftrightarrow> (a, c) = (i, j) \<or> (a, c) \<in> seen st" "recall st' (a, c) = recall st (a, c)"
    if "a + c \<le> i + j" for a c
    using frame that by (auto simp: memoFrame_def less_Suc_eq_le)
  have "memoSound ref (i + j) (memoize (i, j) (Some b) st')"
    unfolding memoSound_def
  proof (intro conjI allI impI)
    fix a c
    assume a: "(a, c) \<in> seen (memoize (i, j) (Some b) st') \<and> i + j \<le> a + c"
    show "ref a c = Some (recall (memoize (i, j) (Some b) st') (a, c))"
    proof (cases "(a, c) = (i, j)")
      case True
      then show ?thesis using r by simp
    next
      case ne: False
      show ?thesis
      proof (cases "a + c = i + j")
        case True
        then show ?thesis using a ne same [of a c] before by (auto simp: memoSound_def)
      next
        case False
        then show ?thesis using a ne sub by (auto simp: memoSound_def)
      qed
    qed
  next
    fix x
    assume "x \<notin> seen (memoize (i, j) (Some b) st')"
    moreover have "(i, j) \<in> seen st'" using same by simp
    ultimately show "\<not> recall (memoize (i, j) (Some b) st') x"
      using sub by (cases x) (auto simp: memoSound_def)
  qed
  moreover have "memoFrame (i + j) st (memoize (i, j) (Some b) st')"
    using frame same by (auto simp: memoFrame_def)
  ultimately show ?thesis ..
qed

text \<open>The two early returns that write nothing: the default of the table is the answer.\<close>

lemma memo_false:
  assumes "memoSound ref (i + j) st" "(i, j) \<notin> seen st"
    and "memoFrame (Suc (i + j)) (visit (i, j) st) st'"
    and "memoSound ref (Suc (i + j)) st'" "ref i j = Some False"
  shows "memoSound ref (i + j) st' \<and> memoFrame (i + j) st st'"
proof -
  have "\<not> recall st' (i, j)"
    using assms(1-3) by (auto simp: memoFrame_def memoSound_def)
  then have eq: "recall (memoize (i, j) (Some False) st') = recall st'" by (intro ext) auto
  show ?thesis using memo_finish [OF assms]
    unfolding memoSound_def memoFrame_def eq recall_simps(4) by blast
qed

definition memoPost ::
    "(nat \<Rightarrow> nat \<Rightarrow> bool option) \<Rightarrow> nat \<Rightarrow> nat \<Rightarrow> MemoState \<Rightarrow> bool option \<times> MemoState \<Rightarrow> bool" where
  "memoPost ref i j st res \<longleftrightarrow> fst res = ref i j
     \<and> (fst res \<noteq> None \<longrightarrow> memoSound ref (i + j) (snd res) \<and> memoFrame (i + j) st (snd res))"

lemma memoPost_seen:
  "memoSound ref (i + j) st \<Longrightarrow> (i, j) \<in> seen st \<Longrightarrow> memoPost ref i j st (Some (recall st (i, j)), st)"
  by (simp add: memoPost_def memoSound_seen memoFrame_def)

lemma memoPost_done:
  assumes "memoSound ref (i + j) st" "(i, j) \<notin> seen st" "ref i j = Some b"
  shows "memoPost ref i j st (Some b, memoize (i, j) (Some b) (visit (i, j) st))"
  using memo_finish [OF assms(1,2) _ _ assms(3), of "visit (i, j) st"] assms
    memoSound_visit [OF assms(1), of i j "Suc (i + j)"]
  by (simp add: memoPost_def memoFrame_def)

lemma memoPost_false:
  assumes "memoSound ref (i + j) st" "(i, j) \<notin> seen st" "ref i j = Some False"
  shows "memoPost ref i j st (Some False, visit (i, j) st)"
  using memo_false [OF assms(1,2) _ _ assms(3), of "visit (i, j) st"] assms
    memoSound_visit [OF assms(1), of i j "Suc (i + j)"]
  by (simp add: memoPost_def memoFrame_def)

lemma memoSound_frame:
  "memoFrame k st st' \<Longrightarrow> memoSound ref k' st \<Longrightarrow> memoSound ref k st' \<Longrightarrow> memoSound ref k' st'"
proof -
  assume f: "memoFrame k st st'" and low: "memoSound ref k' st" and high: "memoSound ref k st'"
  have "ref i j = Some (recall st' (i, j))" if "(i, j) \<in> seen st'" "k' \<le> i + j" for i j
  proof (cases "i + j < k")
    case True
    then have "(i, j) \<in> seen st" "recall st' (i, j) = recall st (i, j)"
      using f that(1) unfolding memoFrame_def by blast+
    then show ?thesis using low that(2) by (simp add: memoSound_def)
  next
    case False
    then show ?thesis using high that(1) by (simp add: memoSound_def)
  qed
  then show ?thesis using high by (simp add: memoSound_def)
qed

text \<open>
  A sub-call at a higher level, made from a state above the pair: it extends the state, and
  where its answer is the answer of the pair it finishes the pair.
\<close>

lemma memoPost_step:
  assumes "memoFrame k st0 st1" "memoSound ref k st1"
    and sub: "memoPost ref i' j' st1 (Some b, st2)" and level: "k \<le> i' + j'"
  shows "memoFrame k st0 st2 \<and> memoSound ref k st2"
proof -
  have f: "memoFrame (i' + j') st1 st2" and s: "memoSound ref (i' + j') st2"
    using sub by (simp_all add: memoPost_def)
  have "memoSound ref k st2" by (rule memoSound_frame [OF f assms(2) s])
  moreover have "memoFrame k st0 st2" by (rule memoFrame_trans [OF assms(1) f level])
  ultimately show ?thesis by blast
qed

lemma memoPost_sub:
  assumes pre: "memoSound ref (i + j) st" "(i, j) \<notin> seen st"
    and st1: "memoFrame (Suc (i + j)) (visit (i, j) st) st1" "memoSound ref (Suc (i + j)) st1"
    and sub: "memoPost ref i' j' st1 (r, st2)" "i + j < i' + j'" and r: "ref i j = ref i' j'"
  shows "memoPost ref i j st (r, memoize (i, j) r st2)"
proof (cases r)
  case None
  then show ?thesis using sub r by (simp add: memoPost_def)
next
  case (Some b)
  then have "memoFrame (Suc (i + j)) (visit (i, j) st) st2 \<and> memoSound ref (Suc (i + j)) st2"
    using memoPost_step [OF st1] sub by (meson Suc_leI)
  moreover have "ref i j = Some b" using sub r Some by (simp add: memoPost_def)
  ultimately show ?thesis using memo_finish [OF pre] Some by (simp add: memoPost_def)
qed

lemma memo_start:
  assumes "memoSound ref (i + j) st"
  shows "memoFrame (Suc (i + j)) (visit (i, j) st) (visit (i, j) st)"
    and "memoSound ref (Suc (i + j)) (visit (i, j) st)"
  using memoSound_visit [OF assms, of i j "Suc (i + j)"] by (simp_all add: memoFrame_def)

section \<open>The memoised recursions compute the reference\<close>

abbreviation matchRef :: "string list \<Rightarrow> string list \<Rightarrow> nat \<Rightarrow> nat \<Rightarrow> bool option" where
  "matchRef ps cs i j \<equiv> globMatch (drop i ps) (drop j cs)"

abbreviation couldRef :: "string list \<Rightarrow> string list \<Rightarrow> nat \<Rightarrow> nat \<Rightarrow> bool option" where
  "couldRef ps cs i j \<equiv> globCould (drop i ps) (drop j cs)"

lemma matchRef_step:
  "i < length ps \<Longrightarrow> j \<le> length cs \<Longrightarrow> matchRef ps cs i j =
     (if ps ! i = ''**'' then
        (if matchRef ps cs (i + 1) j = Some False \<and> j < length cs then matchRef ps cs i (j + 1)
         else matchRef ps cs (i + 1) j)
      else if j = length cs then Some False
      else if pathMatch (ps ! i) (cs ! j) = Some True then matchRef ps cs (i + 1) (j + 1)
      else pathMatch (ps ! i) (cs ! j))"
  by (cases "j < length cs") (auto simp: Cons_nth_drop_Suc [symmetric])

lemma couldRef_step:
  "i < length ps \<Longrightarrow> j < length cs \<Longrightarrow> couldRef ps cs i j =
     (if ps ! i = ''**'' then
        (if couldRef ps cs (i + 1) j = Some False then couldRef ps cs i (j + 1)
         else couldRef ps cs (i + 1) j)
      else if pathMatch (ps ! i) (cs ! j) = Some True then couldRef ps cs (i + 1) (j + 1)
      else pathMatch (ps ! i) (cs ! j))"
  by (auto simp: Cons_nth_drop_Suc [symmetric])

lemma matchFrom_post:
  "memoSound (matchRef ps cs) (i + j) st \<Longrightarrow> i \<le> length ps \<Longrightarrow> j \<le> length cs
   \<Longrightarrow> memoPost (matchRef ps cs) i j st (matchFrom ps cs i j st)"
proof (induction ps cs i j st rule: matchFrom.induct)
  case (1 ps cs i j st)
  note eq = matchFrom.simps [of ps cs i j st] and IH = "1.IH" [OF refl _ refl]
  note pre = "1.prems"(1) and start = memo_start [OF "1.prems"(1)]
  show ?case
  proof (cases "(i, j) \<in> seen st")
    case True
    then show ?thesis using memoPost_seen [OF pre] by (simp add: eq)
  next
    case new: False
    show ?thesis
    proof (cases "length ps \<le> i")
      case True
      then have "i = length ps" using "1.prems" by simp
      then have "matchRef ps cs i j = Some (j = length cs)" using "1.prems" by auto
      then show ?thesis using True new memoPost_done [OF pre new] by (simp add: eq Let_def)
    next
      case False
      then have i: "i < length ps" by simp
      note step = matchRef_step [OF i "1.prems"(3)]
      show ?thesis
      proof (cases "ps ! i = ''**''")
        case stars: True
        obtain r1 st1 where first: "matchFrom ps cs (i + 1) j (visit (i, j) st) = (r1, st1)" by fastforce
        have p1: "memoPost (matchRef ps cs) (i + 1) j (visit (i, j) st) (r1, st1)"
          using IH(1) [OF new False stars] start(2) i "1.prems"(3) first by simp
        then have r1: "r1 = matchRef ps cs (i + 1) j" by (simp add: memoPost_def)
        show ?thesis
        proof (cases "r1 = Some False")
          case no: False
          then have "matchRef ps cs i j = matchRef ps cs (i + 1) j" using step stars r1 by auto
          then show ?thesis
            using memoPost_sub [OF pre new start p1] new False stars first no by (simp add: eq)
        next
          case yes: True
          note after = memoPost_step [OF start p1 [unfolded yes]]
          show ?thesis
          proof (cases "j < length cs")
            case True
            obtain r2 st2 where second: "matchFrom ps cs i (j + 1) st1 = (r2, st2)" by fastforce
            have p2: "memoPost (matchRef ps cs) i (j + 1) st1 (r2, st2)"
              using IH(2) [OF new False stars first [symmetric] _ True] yes after i True second by simp
            have "matchRef ps cs i j = matchRef ps cs i (j + 1)" using step stars r1 yes True by auto
            then show ?thesis
              using memoPost_sub [OF pre new _ _ p2] after new False stars first yes True second
              by (simp add: eq)
          next
            case stop: False
            then have "matchRef ps cs i j = Some False" using step stars r1 yes by auto
            then show ?thesis
              using memo_false [OF pre new, of st1] after new False stars first yes stop
              by (simp add: eq memoPost_def)
          qed
        qed
      next
        case plain: False
        show ?thesis
        proof (cases "j = length cs \<or> pathMatch (ps ! i) (cs ! j) = Some False")
          case True
          then have "matchRef ps cs i j = Some False" using step plain by auto
          then show ?thesis using memoPost_false [OF pre new] True new False plain by (auto simp: eq Let_def)
        next
          case go: False
          show ?thesis
          proof (cases "pathMatch (ps ! i) (cs ! j)")
            case None
            then have "matchRef ps cs i j = None" using step plain go by auto
            then show ?thesis using None go new False plain by (simp add: eq memoPost_def)
          next
            case (Some b)
            then have b: "pathMatch (ps ! i) (cs ! j) = Some True" using go by auto
            obtain r1 st1 where sub: "matchFrom ps cs (i + 1) (j + 1) (visit (i, j) st) = (r1, st1)" by fastforce
            have j: "j \<noteq> length cs" using go by simp
            have above: "memoSound (matchRef ps cs) (i + 1 + (j + 1)) (visit (i, j) st)"
              by (rule memoSound_visit [OF pre]) simp_all
            have p1: "memoPost (matchRef ps cs) (i + 1) (j + 1) (visit (i, j) st) (r1, st1)"
              using IH(3) [OF new False plain j b refl] above i j "1.prems"(3) sub by simp
            have "matchRef ps cs i j = matchRef ps cs (i + 1) (j + 1)" using step plain j b by auto
            then show ?thesis
              using memoPost_sub [OF pre new start p1] new False plain go b sub by (simp add: eq)
          qed
        qed
      qed
    qed
  qed
qed

lemma possibleFrom_post:
  "memoSound (couldRef ps cs) (i + j) st \<Longrightarrow> i \<le> length ps \<Longrightarrow> j \<le> length cs
   \<Longrightarrow> memoPost (couldRef ps cs) i j st (possibleFrom ps cs i j st)"
proof (induction ps cs i j st rule: possibleFrom.induct)
  case (1 ps cs i j st)
  note eq = possibleFrom.simps [of ps cs i j st] and IH = "1.IH" [OF refl _ refl]
  note pre = "1.prems"(1) and start = memo_start [OF "1.prems"(1)]
  show ?case
  proof (cases "(i, j) \<in> seen st \<or> length cs \<le> j \<or> length ps \<le> i")
    case True
    then consider "(i, j) \<in> seen st" | (pre') "(i, j) \<notin> seen st" "length cs \<le> j"
      | (pat) "(i, j) \<notin> seen st" "j < length cs" "length ps \<le> i" by linarith
    then show ?thesis
    proof cases
      case 1
      then show ?thesis using memoPost_seen [OF pre] by (simp add: eq)
    next
      case pre'
      then have "couldRef ps cs i j = Some (i < length ps)" by (simp add: not_le)
      then show ?thesis using memoPost_done [OF pre pre'(1)] pre' by (simp add: eq Let_def not_le)
    next
      case pat
      then have "couldRef ps cs i j = Some False" by (cases "drop j cs") simp_all
      then show ?thesis using memoPost_false [OF pre pat(1)] pat by (simp add: eq)
    qed
  next
    case False
    then have new: "(i, j) \<notin> seen st" and j: "\<not> length cs \<le> j" "j < length cs"
      and i: "\<not> length ps \<le> i" "i < length ps" by simp_all
    note step = couldRef_step [OF i(2) j(2)]
    show ?thesis
    proof (cases "ps ! i = ''**''")
      case stars: True
      obtain r1 st1 where first: "possibleFrom ps cs (i + 1) j (visit (i, j) st) = (r1, st1)" by fastforce
      have p1: "memoPost (couldRef ps cs) (i + 1) j (visit (i, j) st) (r1, st1)"
        using IH(1) [OF new j(1) i(1) stars] start(2) i j first by simp
      then have r1: "r1 = couldRef ps cs (i + 1) j" by (simp add: memoPost_def)
      show ?thesis
      proof (cases "r1 = Some False")
        case no: False
        then have "couldRef ps cs i j = couldRef ps cs (i + 1) j" using step stars r1 by auto
        then show ?thesis
          using memoPost_sub [OF pre new start p1] new i j stars first no by (simp add: eq)
      next
        case yes: True
        note after = memoPost_step [OF start p1 [unfolded yes]]
        obtain r2 st2 where second: "possibleFrom ps cs i (j + 1) st1 = (r2, st2)" by fastforce
        have p2: "memoPost (couldRef ps cs) i (j + 1) st1 (r2, st2)"
          using IH(2) [OF new j(1) i(1) stars first [symmetric]] yes after i j second by simp
        have "couldRef ps cs i j = couldRef ps cs i (j + 1)" using step stars r1 yes by auto
        then show ?thesis
          using memoPost_sub [OF pre new _ _ p2] after new i j stars first yes second
          by (simp add: eq)
      qed
    next
      case plain: False
      show ?thesis
      proof (cases "pathMatch (ps ! i) (cs ! j)")
        case None
        then have "couldRef ps cs i j = None" using step plain by auto
        then show ?thesis using None new i j plain by (simp add: eq memoPost_def)
      next
        case (Some b)
        show ?thesis
        proof (cases b)
          case False
          then have "couldRef ps cs i j = Some False" using step plain Some by auto
          then show ?thesis using memoPost_false [OF pre new] Some False new i j plain by (simp add: eq)
        next
          case True
          then have m: "pathMatch (ps ! i) (cs ! j) = Some True" using Some by simp
          obtain r1 st1 where sub: "possibleFrom ps cs (i + 1) (j + 1) (visit (i, j) st) = (r1, st1)"
            by fastforce
          have above: "memoSound (couldRef ps cs) (i + 1 + (j + 1)) (visit (i, j) st)"
            by (rule memoSound_visit [OF pre]) simp_all
          have p1: "memoPost (couldRef ps cs) (i + 1) (j + 1) (visit (i, j) st) (r1, st1)"
            using IH(3) [OF new j(1) i(1) plain m refl] above i j sub by simp
          have "couldRef ps cs i j = couldRef ps cs (i + 1) (j + 1)" using step plain m by auto
          then show ?thesis
            using memoPost_sub [OF pre new start p1] new i j plain m sub by (simp add: eq)
        qed
      qed
    qed
  qed
qed

lemma memoSound_empty: "memoSound ref k emptyMemo"
  by (simp add: memoSound_def emptyMemo_def recall_def)

lemma Match_globMatch:
  "Match pattern candidate = globMatch (splitOn CHR ''/'' pattern) (splitOn CHR ''/'' candidate)"
  using matchFrom_post [OF memoSound_empty, of 0 _ 0]
  by (simp add: Match_def memoPost_def)

lemma CouldMatchDescendant_globCould:
  "CouldMatchDescendant pattern pre = globCould (splitOn CHR ''/'' pattern) (splitOn CHR ''/'' pre)"
  using possibleFrom_post [OF memoSound_empty, of 0 _ 0]
  by (simp add: CouldMatchDescendant_def memoPost_def)

section \<open>What the reference recursions decide\<close>

lemma segmentsMatch_stars_step:
  "segmentsMatch (''**'' # ps) cs \<longleftrightarrow>
     segmentsMatch ps cs \<or> (\<exists>c cs'. cs = c # cs' \<and> segmentsMatch (''**'' # ps) cs')"
proof
  assume "segmentsMatch (''**'' # ps) cs"
  then obtain xs cs' where "cs = xs @ cs'" "segmentsMatch ps cs'" by (auto elim: segmentsMatch_ConsE)
  then show "segmentsMatch ps cs \<or> (\<exists>c cs'. cs = c # cs' \<and> segmentsMatch (''**'' # ps) cs')"
    by (cases xs) (auto intro: segmentsMatch_stars)
next
  assume "segmentsMatch ps cs \<or> (\<exists>c cs'. cs = c # cs' \<and> segmentsMatch (''**'' # ps) cs')"
  then show "segmentsMatch (''**'' # ps) cs"
  proof
    assume "segmentsMatch ps cs"
    then show ?thesis using segmentsMatch_stars [of ps cs "[]"] by simp
  next
    assume "\<exists>c cs'. cs = c # cs' \<and> segmentsMatch (''**'' # ps) cs'"
    then obtain c cs' where c: "cs = c # cs'" "segmentsMatch (''**'' # ps) cs'" by blast
    then obtain xs cs'' where "cs' = xs @ cs''" "segmentsMatch ps cs''" by (auto elim: segmentsMatch_ConsE)
    then show ?thesis using segmentsMatch_stars [of ps cs'' "c # xs"] c by simp
  qed
qed

lemma segmentsMatch_one_step:
  "p \<noteq> ''**'' \<Longrightarrow> segmentsMatch (p # ps) cs \<longleftrightarrow>
     (\<exists>c cs'. cs = c # cs' \<and> pathMatch p c = Some True \<and> segmentsMatch ps cs')"
  by (auto elim: segmentsMatch_ConsE intro: segmentsMatch_one)

lemma segmentsMatch_Nil_iff [simp]: "segmentsMatch [] cs \<longleftrightarrow> cs = []"
  by (auto elim: segmentsMatch_NilE intro: segmentsMatch_Nil)

lemma segmentsMatch_steps:
  "segmentsMatch (''**'' # ps) [] \<longleftrightarrow> segmentsMatch ps []"
  "segmentsMatch (''**'' # ps) (c # cs) \<longleftrightarrow> segmentsMatch ps (c # cs) \<or> segmentsMatch (''**'' # ps) cs"
  "p \<noteq> ''**'' \<Longrightarrow> \<not> segmentsMatch (p # ps) []"
  "p \<noteq> ''**'' \<Longrightarrow> segmentsMatch (p # ps) (c # cs) \<longleftrightarrow> pathMatch p c = Some True \<and> segmentsMatch ps cs"
  using segmentsMatch_stars_step [of ps "[]"] segmentsMatch_stars_step [of ps "c # cs"]
    segmentsMatch_one_step [of p ps "[]"] segmentsMatch_one_step [of p ps "c # cs"]
  by blast+

text \<open>An answer of the recursion is right, and only a bad segment of the pattern prevents one.\<close>

lemma globMatch_sound: "globMatch ps cs = Some b \<Longrightarrow> b = segmentsMatch ps cs"
  by (induction ps cs arbitrary: b rule: globMatch.induct)
    (auto simp: segmentsMatch_steps split: if_splits)

lemma globMatch_total:
  "(\<And>p. p \<in> set ps \<Longrightarrow> p \<noteq> ''**'' \<Longrightarrow> restValid p) \<Longrightarrow> globMatch ps cs \<noteq> None"
proof (induction ps cs rule: globMatch.induct)
  case (3 p ps c cs)
  show ?case
  proof (cases "p = ''**''")
    case True
    then show ?thesis using 3 by auto
  next
    case False
    then have "pathMatch p c \<noteq> None" using "3.prems" by (simp add: pathMatch_None_iff)
    then show ?thesis using 3 False by auto
  qed
qed auto

lemma globCould_complete:
  "xs \<noteq> [] \<Longrightarrow> globMatch ps (cs @ xs) = Some True \<Longrightarrow> globCould ps cs = Some True"
  "xs \<noteq> [] \<Longrightarrow> globMatch ps (cs @ xs) = Some False \<Longrightarrow> globCould ps cs \<noteq> None"
  by (induction ps cs rule: globCould.induct) (auto split: if_splits)

end
