(* ===== verification/Execution_Run.thy ===== *)
theory Execution_Run
  imports Execution_Policy Output_Capture Artifact_Pattern
begin

text \<open>
  The foreground lifecycle of a command: \<open>internal/executionrun/run.go\<close> and \<open>types.go\<close>.
  The native launcher, process, timer and artifact collector are interfaces implemented per
  platform, so what they do in one run is a parameter: the record \<open>Native\<close> holds the answers
  of \<open>Start\<close>, \<open>Exit\<close>, \<open>NewTimer\<close>, the event the \<open>select\<close> of \<open>awaitProcess\<close>
  receives, the result of \<open>TerminateTree\<close>, the pieces the process writes to its two captures
  before they are read, and the collector of the runner is a function of its plan.  The calls the
  runner makes to the outside are recorded, in order, as a list of effects.  An error joined
  with a cause (\<open>errors.Join\<close>) is represented by its first part.
\<close>

section \<open>Types\<close>

record NativeLaunch =
  nl_ExecutionIdentity :: Principal
  nl_WorkingDirectory :: string
  nl_ApprovedRoot :: string
  nl_Environment :: "string list"
  nl_Capabilities :: "Capability list"
  nl_Invocation :: Invocation

datatype ProcessExit = ProcessExit (pe_Code: int) (pe_RuntimeError: bool)

record ArtifactPlan =
  ap_ExecutionIdentity :: Principal
  ap_WorkingDirectory :: string
  ap_ApprovedRoot :: string
  ap_Selections :: "ArtifactSelection list"

record 'b ArtifactCollection =
  ac_Manifest :: ArtifactManifest
  ac_Bundle :: "'b option"

text \<open>A collector answers with a collection and whether it also returned an error.\<close>

type_synonym 'b ArtifactCollector = "ArtifactPlan \<Rightarrow> 'b ArtifactCollection \<times> bool"

record 'b Output =
  ot_Report :: ExecutionReport
  ot_Stdout :: string
  ot_Stderr :: string
  ot_ArtifactBundle :: "'b option"

datatype RunError =
    ErrLauncherRequired
  | ErrInvalidOptions
  | ErrInvalidRunPlan
  | ErrClockRegression
  | ErrInvalidExecutionReport

text \<open>
  What a background operation does: it reads the registry under a key, asks the launcher to
  start a process, terminates a process tree, adds an entry or removes one.
\<close>

datatype BackgroundEffect =
    RegistryRead string
  | ProcessLaunched NativeLaunch
  | ProcessTerminated duration
  | EntryAdded string nat
  | EntryRemoved string nat

datatype 'b Effect =
    Started NativeLaunch
  | TimerArmed duration
  | TimerStopped
  | TreeTerminated duration
  | Collected duration ArtifactPlan
  | BundleClosed 'b
  | BackgroundDone BackgroundEffect

text \<open>
  What the \<open>select\<close> received: a value of the exit channel (\<open>None\<close> when it was closed), the end
  of the context, or the timer (with whether the context had ended by then).
\<close>

datatype Selected =
    ExitReceived "ProcessExit option"
  | ContextDone
  | TimerFired bool

record Native =
  nt_StartError :: bool
  nt_Process :: bool
  nt_ExitChannel :: bool
  nt_Timer :: bool
  nt_TimerChannel :: bool
  nt_Select :: Selected
  nt_TerminateError :: bool
  nt_Stdout :: "string list"
  nt_Stderr :: "string list"

section \<open>The runner\<close>

definition second :: duration where "second = 1000000000"
definition defaultTreeTerminationGrace :: duration where "defaultTreeTerminationGrace = 10 * second"
definition defaultArtifactCollectionTimeout :: duration where
  "defaultArtifactCollectionTimeout = 30 * second"

record Options =
  op_TreeTerminationGrace :: duration
  op_ArtifactCollectionTimeout :: duration

text \<open>The clock and the timers are part of the environment; the registry is in the theory of background processes.\<close>

record 'b Runner =
  rn_collector :: "'b ArtifactCollector option"
  rn_treeTerminationGrace :: duration
  rn_artifactCollectionTimeout :: duration

definition NewRunner :: "bool \<Rightarrow> 'b ArtifactCollector option \<Rightarrow> Options \<Rightarrow> RunError + 'b Runner" where
  "NewRunner launcher collector options =
     (if \<not> launcher then Inl ErrLauncherRequired
      else if op_TreeTerminationGrace options < 0 \<or> op_ArtifactCollectionTimeout options < 0
      then Inl ErrInvalidOptions
      else Inr \<lparr>rn_collector = collector,
                rn_treeTerminationGrace =
                  (if op_TreeTerminationGrace options = 0 then defaultTreeTerminationGrace
                   else op_TreeTerminationGrace options),
                rn_artifactCollectionTimeout =
                  (if op_ArtifactCollectionTimeout options = 0 then defaultArtifactCollectionTimeout
                   else op_ArtifactCollectionTimeout options)\<rparr>)"

definition assembleReport ::
    "LaunchPlan \<Rightarrow> string \<Rightarrow> CommandStatus \<Rightarrow> int option \<Rightarrow> instant \<Rightarrow> instant \<Rightarrow> Snapshot \<Rightarrow> Snapshot
     \<Rightarrow> ArtifactManifest \<Rightarrow> ExecutionReport" where
  "assembleReport plan gatewaySourceSHA status exitCode startedAt finishedAt stdout stderr artifacts =
     \<lparr>er_ProtocolVersion = Version, er_RequestID = lp_RequestID plan,
      er_RequestDigest = lp_RequestDigest plan, er_AttemptID = lp_AttemptID plan,
      er_GatewaySourceSHA = gatewaySourceSHA, er_CommandStatus = status, er_ExitCode = exitCode,
      er_StartedAt = formatRFC3339Nano startedAt, er_FinishedAt = formatRFC3339Nano finishedAt,
      er_DurationMilliseconds = milliseconds (subTime finishedAt startedAt),
      er_Stdout = snap_Metadata stdout, er_Stderr = snap_Metadata stderr, er_Artifacts = artifacts\<rparr>"

definition failedArtifactManifest :: "ArtifactSelection list \<Rightarrow> ArtifactManifest" where
  "failedArtifactManifest selections =
     (if selections = [] then
        \<lparr>am_Status = ArtifactStatusNotRequested, am_Files = Some [], am_Omissions = Some []\<rparr>
      else
        \<lparr>am_Status = ArtifactStatusFailed, am_Files = Some [],
         am_Omissions = Some (concat (map (\<lambda>selection.
           map (\<lambda>pattern. \<lparr>ao_Group = sel_Name selection, ao_Pattern = pattern,
                           ao_Reason = ArtifactOmissionCollectionFailed\<rparr>) (sel_Paths selection)) selections))\<rparr>)"

section \<open>Waiting for the process\<close>

definition maxExitCode :: int where "maxExitCode = 4294967295"

definition terminateTree :: "'b Runner \<Rightarrow> Native \<Rightarrow> bool \<times> 'b Effect list" where
  "terminateTree runner native =
     (\<not> nt_TerminateError native, [TreeTerminated (rn_treeTerminationGrace runner)])"

text \<open>The result is the status, the exit code and whether the process tree is known to be gone.\<close>

definition selectOutcome ::
    "'b Runner \<Rightarrow> Native \<Rightarrow> (CommandStatus \<times> int option \<times> bool) \<times> 'b Effect list" where
  "selectOutcome runner native = (case nt_Select native of
     ExitReceived received \<Rightarrow>
       (case received of
          None \<Rightarrow> ((CommandStatusRuntimeFailed, None, True), [])
        | Some exit \<Rightarrow>
            if pe_RuntimeError exit \<or> pe_Code exit < 0 \<or> pe_Code exit > maxExitCode
            then ((CommandStatusRuntimeFailed, None, True), [])
            else if pe_Code exit = 0 then ((CommandStatusCompleted, Some (pe_Code exit), True), [])
            else ((CommandStatusFailed, Some (pe_Code exit), True), []))
   | ContextDone \<Rightarrow>
       (case terminateTree runner native of (ok, effects) \<Rightarrow>
          if \<not> ok then ((CommandStatusRuntimeFailed, None, False), effects)
          else ((CommandStatusCancelled, None, True), effects))
   | TimerFired contextEnded \<Rightarrow>
       (case terminateTree runner native of (ok, effects) \<Rightarrow>
          if \<not> ok then ((CommandStatusRuntimeFailed, None, False), effects)
          else ((if contextEnded then CommandStatusCancelled else CommandStatusTimedOut, None, True), effects)))"

definition awaitProcess ::
    "'b Runner \<Rightarrow> LaunchPlan \<Rightarrow> Native \<Rightarrow> (CommandStatus \<times> int option \<times> bool) \<times> 'b Effect list" where
  "awaitProcess runner plan native =
     (let abandoned = (case terminateTree runner native of (ok, effects) \<Rightarrow>
            ((CommandStatusRuntimeFailed, None, ok), effects));
          armed = TimerArmed (wrapInt64 (lp_TimeoutSeconds plan * second)) in
      if \<not> nt_ExitChannel native then abandoned
      else if \<not> nt_Timer native then (fst abandoned, armed # snd abandoned)
      else if \<not> nt_TimerChannel native
      then (fst abandoned, armed # snd abandoned @ [TimerStopped])
      else (case selectOutcome runner native of (outcome, effects) \<Rightarrow>
        (outcome, armed # effects @ [TimerStopped])))"

section \<open>Artifacts\<close>

text \<open>
  The map from group names to their patterns: a later selection of the same name replaces an
  earlier one.  The loop over the patterns of a group has no early exit but the error, so the
  order in which Go ranges over the map does not matter.
\<close>

definition selectionPatterns :: "ArtifactSelection list \<Rightarrow> string \<Rightarrow> string list option" where
  "selectionPatterns selections = map_of (rev (map (\<lambda>s. (sel_Name s, sel_Paths s)) selections))"

definition fileSelected :: "ArtifactSelection list \<Rightarrow> ArtifactFile \<Rightarrow> bool" where
  "fileSelected selections f = (case selectionPatterns selections (af_Group f) of
     None \<Rightarrow> False
   | Some patterns \<Rightarrow>
       list_all (\<lambda>p. Match p (af_Path f) \<noteq> None) patterns
       \<and> list_ex (\<lambda>p. Match p (af_Path f) = Some True) patterns)"

definition omissionSelected :: "ArtifactSelection list \<Rightarrow> ArtifactOmission \<Rightarrow> bool" where
  "omissionSelected selections omission = (case selectionPatterns selections (ao_Group omission) of
     None \<Rightarrow> False
   | Some patterns \<Rightarrow> ao_Pattern omission \<in> set patterns)"

definition artifactCollectionAllowed :: "ArtifactManifest \<Rightarrow> ArtifactSelection list \<Rightarrow> bool" where
  "artifactCollectionAllowed manifest selections =
     (if selections = [] then
        am_Status manifest = ArtifactStatusNotRequested \<and> sl (am_Files manifest) = []
        \<and> sl (am_Omissions manifest) = []
      else if am_Status manifest = ArtifactStatusNotRequested then False
      else list_all (fileSelected selections) (sl (am_Files manifest))
        \<and> list_all (omissionSelected selections) (sl (am_Omissions manifest)))"

definition closeArtifactBundle :: "'b option \<Rightarrow> 'b Effect list" where
  "closeArtifactBundle bundle = (case bundle of None \<Rightarrow> [] | Some b \<Rightarrow> [BundleClosed b])"

definition artifactPlan :: "LaunchPlan \<Rightarrow> ArtifactPlan" where
  "artifactPlan plan =
     \<lparr>ap_ExecutionIdentity = lp_ExecutionIdentity plan, ap_WorkingDirectory = lp_WorkingDirectory plan,
      ap_ApprovedRoot = lp_ApprovedRoot plan, ap_Selections = lp_Artifacts plan\<rparr>"

definition collectArtifacts ::
    "'b Runner \<Rightarrow> LaunchPlan \<Rightarrow> (ArtifactManifest \<times> 'b option) \<times> 'b Effect list" where
  "collectArtifacts runner plan =
     (if lp_Artifacts plan = [] then ((failedArtifactManifest [], None), [])
      else case rn_collector runner of
        None \<Rightarrow> ((failedArtifactManifest (lp_Artifacts plan), None), [])
      | Some collect \<Rightarrow>
          (let (collection, failed) = collect (artifactPlan plan);
               manifest = ac_Manifest collection; bundle = ac_Bundle collection;
               called = Collected (rn_artifactCollectionTimeout runner) (artifactPlan plan) in
           if failed \<or> \<not> artifactCollectionAllowed manifest (lp_Artifacts plan)
              \<or> (sl (am_Files manifest) \<noteq> [] \<and> bundle = None)
           then ((failedArtifactManifest (lp_Artifacts plan), None), called # closeArtifactBundle bundle)
           else if sl (am_Files manifest) = [] \<and> bundle \<noteq> None
           then ((manifest, None), called # closeArtifactBundle bundle)
           else ((manifest, bundle), [called])))"

section \<open>The foreground run\<close>

definition nativeLaunch :: "LaunchPlan \<Rightarrow> Invocation \<Rightarrow> NativeLaunch" where
  "nativeLaunch plan invocation =
     \<lparr>nl_ExecutionIdentity = lp_ExecutionIdentity plan, nl_WorkingDirectory = lp_WorkingDirectory plan,
      nl_ApprovedRoot = lp_ApprovedRoot plan, nl_Environment = lp_Environment plan,
      nl_Capabilities = lp_Capabilities plan, nl_Invocation = invocation\<rparr>"

text \<open>Everything before the launch: limits, captures, invocation and the preflight report.\<close>

definition prepareForeground ::
    "LaunchPlan \<Rightarrow> string \<Rightarrow> instant \<Rightarrow> RunError + (Capture \<times> Capture \<times> NativeLaunch)" where
  "prepareForeground plan gatewaySourceSHA startedAt =
     bindR (failIf (lp_TimeoutSeconds plan < MinTimeoutSeconds \<or> lp_TimeoutSeconds plan > MaxTimeoutSeconds)
       ErrInvalidRunPlan) (\<lambda>_.
     bindR (mapErr (\<lambda>_. ErrInvalidRunPlan) (NewCapture (lp_MaxOutputBytes plan))) (\<lambda>stdoutCapture.
     bindR (mapErr (\<lambda>_. ErrInvalidRunPlan) (NewCapture (lp_MaxOutputBytes plan))) (\<lambda>stderrCapture.
     bindR (mapErr (\<lambda>_. ErrInvalidRunPlan) (BuildInvocation plan)) (\<lambda>invocation.
     bindR (mapErr (\<lambda>_. ErrInvalidExecutionReport) (captureSnapshot stdoutCapture)) (\<lambda>stdoutBefore.
     bindR (mapErr (\<lambda>_. ErrInvalidExecutionReport) (captureSnapshot stderrCapture)) (\<lambda>stderrBefore.
     bindR (mapErr (\<lambda>_. ErrInvalidRunPlan) (ValidateExecutionReport
       (assembleReport plan gatewaySourceSHA CommandStatusRuntimeFailed None startedAt startedAt
          stdoutBefore stderrBefore (failedArtifactManifest (lp_Artifacts plan))))) (\<lambda>_.
     Inr (stdoutCapture, stderrCapture, nativeLaunch plan invocation))))))))"

text \<open>The launch itself: a process that came with an error is terminated, not awaited.\<close>

definition launchProcess ::
    "'b Runner \<Rightarrow> LaunchPlan \<Rightarrow> Native \<Rightarrow> (CommandStatus \<times> int option \<times> bool) \<times> 'b Effect list" where
  "launchProcess runner plan native =
     (if nt_StartError native \<and> nt_Process native
      then ((CommandStatusRuntimeFailed, None, False), snd (terminateTree runner native))
      else if \<not> nt_StartError native \<and> nt_Process native then awaitProcess runner plan native
      else ((CommandStatusRuntimeFailed, None, False), []))"

text \<open>A process writes to its captures; it may go on after a write that was refused.\<close>

definition captureWrites :: "string list \<Rightarrow> Capture \<Rightarrow> Capture" where
  "captureWrites = fold (\<lambda>content capture. snd (captureWrite capture content))"

text \<open>Everything after the wait: snapshots, artifacts, the report and its fallback.\<close>

definition completeForeground ::
    "'b Runner \<Rightarrow> LaunchPlan \<Rightarrow> string \<Rightarrow> instant \<Rightarrow> instant \<Rightarrow> CommandStatus \<times> int option \<times> bool
     \<Rightarrow> Capture \<Rightarrow> Capture \<Rightarrow> (RunError + 'b Output) \<times> 'b Effect list" where
  "completeForeground runner plan gatewaySourceSHA startedAt finishedAt outcome stdoutCapture stderrCapture =
     (case outcome of (status, exitCode, safeToCollect) \<Rightarrow>
      if finishedAt < startedAt then (Inl ErrClockRegression, [])
      else case captureSnapshot stdoutCapture of Inl _ \<Rightarrow> (Inl ErrInvalidExecutionReport, []) | Inr stdout \<Rightarrow>
      case captureSnapshot stderrCapture of Inl _ \<Rightarrow> (Inl ErrInvalidExecutionReport, []) | Inr stderr \<Rightarrow>
      let ((artifacts, bundle), collected) =
            (if safeToCollect then collectArtifacts runner plan
             else ((failedArtifactManifest (lp_Artifacts plan), None), []));
          report = assembleReport plan gatewaySourceSHA status exitCode startedAt finishedAt stdout stderr artifacts
      in case ValidateExecutionReport report of
           Inr _ \<Rightarrow>
             (Inr \<lparr>ot_Report = report, ot_Stdout = snap_Retained stdout, ot_Stderr = snap_Retained stderr,
                   ot_ArtifactBundle = bundle\<rparr>, collected)
         | Inl _ \<Rightarrow>
             (let fallback = report\<lparr>er_Artifacts := failedArtifactManifest (lp_Artifacts plan)\<rparr> in
              case ValidateExecutionReport fallback of
                Inl _ \<Rightarrow> (Inl ErrInvalidExecutionReport, collected @ closeArtifactBundle bundle)
              | Inr _ \<Rightarrow>
                  (Inr \<lparr>ot_Report = fallback, ot_Stdout = snap_Retained stdout,
                        ot_Stderr = snap_Retained stderr, ot_ArtifactBundle = None\<rparr>,
                   collected @ closeArtifactBundle bundle)))"

definition runForeground ::
    "'b Runner \<Rightarrow> LaunchPlan \<Rightarrow> string \<Rightarrow> instant \<Rightarrow> instant \<Rightarrow> Native
     \<Rightarrow> (RunError + 'b Output) \<times> 'b Effect list" where
  "runForeground runner plan gatewaySourceSHA startedAt finishedAt native =
     (case prepareForeground plan gatewaySourceSHA startedAt of
        Inl e \<Rightarrow> (Inl e, [])
      | Inr (stdoutCapture, stderrCapture, launch) \<Rightarrow>
          (let (outcome, waited) = launchProcess runner plan native;
               (result, completed) = completeForeground runner plan gatewaySourceSHA startedAt finishedAt
                 outcome (captureWrites (nt_Stdout native) stdoutCapture)
                 (captureWrites (nt_Stderr native) stderrCapture)
           in (result, Started launch # waited @ completed)))"

text \<open>\<open>Output.Close\<close> releases the bundle the caller received.\<close>

definition closeOutput :: "'b Output \<Rightarrow> 'b Effect list" where
  "closeOutput output = closeArtifactBundle (ot_ArtifactBundle output)"

end
