(* ===== verification/Run_Facts.thy ===== *)
theory Run_Facts
  imports Execution_Run
begin

text \<open>
  Library facts about the foreground run: when an assembled report is valid, what the captures
  hold at the end, which plans pass the preflight, and the shape of a completed run.
\<close>

section \<open>Assembled reports\<close>

lemma timestamp_format:
  "validateCanonicalUTCTimestamp field (formatRFC3339Nano s) = Inr t \<longleftrightarrow>
     t = s \<and> 0 \<le> yearOf s \<and> yearOf s \<le> 9999"
proof -
  have "t = s" if "formatRFC3339Nano s = formatRFC3339Nano t" "0 \<le> yearOf t" "yearOf t \<le> 9999"
  proof -
    have p: "parseRFC3339Nano (formatRFC3339Nano s) = Some t" using that parse_format [of t] by simp
    then have "0 \<le> yearOf s \<and> yearOf s \<le> 9999" using parse_format_year [of s] by simp
    then show ?thesis using p parse_format [of s] by simp
  qed
  then show ?thesis by (auto simp: timestamp_ok)
qed

definition reportableYear :: "instant \<Rightarrow> bool" where
  "reportableYear t \<longleftrightarrow> 0 \<le> yearOf t \<and> yearOf t \<le> 9999"

definition planBindings :: "LaunchPlan \<Rightarrow> string \<Rightarrow> bool" where
  "planBindings plan sha \<longleftrightarrow> identifierPattern (lp_RequestID plan) \<and> isLowerHex 64 (lp_RequestDigest plan)
     \<and> identifierPattern (lp_AttemptID plan) \<and> isLowerHex 40 sha"

lemma assembleReport_fields [simp]:
  fixes plan sha st ec s f out err m
  defines "r \<equiv> assembleReport plan sha st ec s f out err m"
  shows "er_ProtocolVersion r = Version" "er_RequestID r = lp_RequestID plan"
    "er_RequestDigest r = lp_RequestDigest plan" "er_AttemptID r = lp_AttemptID plan"
    "er_GatewaySourceSHA r = sha" "er_CommandStatus r = st" "er_ExitCode r = ec"
    "er_StartedAt r = formatRFC3339Nano s" "er_FinishedAt r = formatRFC3339Nano f"
    "er_DurationMilliseconds r = milliseconds (subTime f s)"
    "er_Stdout r = snap_Metadata out" "er_Stderr r = snap_Metadata err" "er_Artifacts r = m"
  by (simp_all add: assembleReport_def r_def)

lemma assembleReport_ok:
  "ValidateExecutionReport (assembleReport plan sha st ec s f out err m) = Inr u \<longleftrightarrow>
     planBindings plan sha \<and> validateCommandOutcome st ec = Inr () \<and> reportableYear s \<and> reportableYear f
     \<and> s \<le> f \<and> outputOk (snap_Metadata out) \<and> outputOk (snap_Metadata err)
     \<and> validateArtifactManifest m = Inr ()"
  by (auto simp: ValidateExecutionReport_ok timestamp_format planBindings_def reportableYear_def)

lemma assembleReport_artifacts:
  "(assembleReport plan sha st ec s f out err m)\<lparr>er_Artifacts := m'\<rparr> = assembleReport plan sha st ec s f out err m'"
  by (simp add: assembleReport_def)

section \<open>Captures at the end of a run\<close>

lemma captureWrites_capturing:
  "capturing limit s c \<Longrightarrow> 0 \<le> limit \<Longrightarrow> length s + length (concat pieces) < 2 ^ 64 \<Longrightarrow>
     capturing limit (s @ concat pieces) (captureWrites pieces c)"
proof (induction pieces arbitrary: s c)
  case Nil
  then show ?case by (simp add: captureWrites_def)
next
  case (Cons x xs)
  obtain r c1 where w: "captureWrite c x = (r, c1)" by fastforce
  have "capturing limit (s @ x) c1"
    using captureWrite_capturing [OF Cons.prems(1) _ Cons.prems(2) w] Cons.prems(3) by simp
  then show ?case using Cons.IH [of "s @ x" c1] Cons.prems w by (simp add: captureWrites_def)
qed

definition streamSnapshot :: "int \<Rightarrow> string \<Rightarrow> Snapshot" where
  "streamSnapshot limit s =
     \<lparr>snap_Metadata = \<lparr>om_SHA256 = sha256Hex s, om_TotalBytes = int (length s),
        om_RetainedBytes = min limit (int (length s)), om_Truncated = (limit < int (length s))\<rparr>,
      snap_Retained = take (nat limit) s\<rparr>"

lemma streamSnapshot_ok:
  "0 \<le> limit \<Longrightarrow> limit \<le> MaxOutputBytes \<Longrightarrow> outputOk (snap_Metadata (streamSnapshot limit s))"
  by (auto simp: outputOk_def streamSnapshot_def min_def)

lemma NewCapture_ok: "NewCapture limit = Inr c \<longleftrightarrow> MinOutputBytes \<le> limit \<and> limit \<le> MaxOutputBytes
     \<and> c = \<lparr>cap_limit = limit, cap_digest = hashNew, cap_total = 0, cap_retained = []\<rparr>"
  by (auto simp: NewCapture_def)

lemma snapshot_after_writes:
  assumes "NewCapture limit = Inr c" and "length (concat pieces) < 2 ^ 63"
  shows "captureSnapshot (captureWrites pieces c) = Inr (streamSnapshot limit (concat pieces))"
proof -
  have limit: "0 \<le> limit" using assms(1) by (simp add: NewCapture_ok MinOutputBytes_def)
  have "capturing limit ([] @ concat pieces) (captureWrites pieces c)"
    using NewCapture_capturing [OF assms(1)] limit assms(2) by (intro captureWrites_capturing) simp_all
  then show ?thesis
    using captureSnapshot_capturing [OF _ limit assms(2)] by (simp add: streamSnapshot_def)
qed

lemma snapshot_fresh:
  assumes "NewCapture limit = Inr c"
  shows "captureSnapshot c = Inr (streamSnapshot limit [])"
  using snapshot_after_writes [OF assms, of "[]"] by (simp add: captureWrites_def)

section \<open>Plans that pass the preflight\<close>

definition planLimits :: "LaunchPlan \<Rightarrow> bool" where
  "planLimits plan \<longleftrightarrow> MinTimeoutSeconds \<le> lp_TimeoutSeconds plan \<and> lp_TimeoutSeconds plan \<le> MaxTimeoutSeconds
     \<and> MinOutputBytes \<le> lp_MaxOutputBytes plan \<and> lp_MaxOutputBytes plan \<le> MaxOutputBytes"

lemma runtimeFailed_outcome [simp]: "validateCommandOutcome CommandStatusRuntimeFailed None = Inr ()"
  by code_simp

lemma prepareForeground_ok:
  "prepareForeground plan sha s = Inr (c1, c2, l) \<longleftrightarrow>
     planLimits plan \<and> NewCapture (lp_MaxOutputBytes plan) = Inr c1 \<and> c2 = c1
     \<and> (\<exists>i. BuildInvocation plan = Inr i \<and> l = nativeLaunch plan i)
     \<and> planBindings plan sha \<and> reportableYear s
     \<and> validateArtifactManifest (failedArtifactManifest (lp_Artifacts plan)) = Inr ()"
proof -
  have out: "outputOk (snap_Metadata (streamSnapshot (lp_MaxOutputBytes plan) []))" if "planLimits plan"
    using that by (intro streamSnapshot_ok) (auto simp: planLimits_def MinOutputBytes_def)
  show ?thesis
    by (auto simp: prepareForeground_def bindR_eq_Inr snapshot_fresh assembleReport_ok out NewCapture_ok planLimits_def)
qed

section \<open>Outcomes\<close>

lemma launchProcess_outcome:
  "launchProcess runner plan native = ((st, ec, safe), effects) \<Longrightarrow> validateCommandOutcome st ec = Inr ()"
  by (auto simp: launchProcess_def awaitProcess_def terminateTree_def selectOutcome_def Let_def
      validateCommandOutcome_def supportedCommandStatuses_def status_defs maxExitCode_def
      split: if_splits Selected.splits option.splits prod.splits)

text \<open>Effects other than a start, and where a tree was terminated.\<close>

lemma launchProcess_effects:
  assumes "launchProcess runner plan native = (outcome, effects)"
  shows "\<forall>e\<in>set effects. e = TimerArmed (wrapInt64 (lp_TimeoutSeconds plan * second)) \<or> e = TimerStopped
    \<or> e = TreeTerminated (rn_treeTerminationGrace runner)"
  using assms
  by (auto simp: launchProcess_def awaitProcess_def terminateTree_def selectOutcome_def Let_def
      split: if_splits Selected.splits option.splits prod.splits)

lemma launchProcess_safe:
  assumes "launchProcess runner plan native = ((st, ec, safe), effects)" and safe
  shows "nt_Process native \<and> \<not> nt_StartError native
    \<and> ((\<exists>r. nt_ExitChannel native \<and> nt_Select native = ExitReceived r)
       \<or> (TreeTerminated (rn_treeTerminationGrace runner) \<in> set effects \<and> \<not> nt_TerminateError native))"
  using assms
  by (auto simp: launchProcess_def awaitProcess_def terminateTree_def selectOutcome_def Let_def
      split: if_splits Selected.splits option.splits prod.splits)

lemma collectArtifacts_effects:
  assumes "collectArtifacts runner plan = ((m, b), effects)"
  shows "effects = [] \<and> b = None
    \<or> (\<exists>rest. effects = Collected (rn_artifactCollectionTimeout runner) (artifactPlan plan) # rest
         \<and> (\<forall>e\<in>set rest. \<exists>b. e = BundleClosed b))"
  using assms
  by (auto simp: collectArtifacts_def Let_def closeArtifactBundle_def split: if_splits option.splits prod.splits)

lemma selectionPatternsD:
  "selectionPatterns selections n = Some ps \<Longrightarrow> \<exists>g\<in>set selections. sel_Name g = n \<and> sel_Paths g = ps"
  by (auto simp: selectionPatterns_def dest!: map_of_SomeD)

lemma fileSelectedD:
  "fileSelected selections x \<Longrightarrow>
     \<exists>g\<in>set selections. sel_Name g = af_Group x \<and> (\<exists>p\<in>set (sel_Paths g). Match p (af_Path x) = Some True)"
  using selectionPatternsD [of selections "af_Group x"]
  by (fastforce simp: fileSelected_def list_ex_iff split: option.splits)

lemma omissionSelectedD:
  "omissionSelected selections x \<Longrightarrow>
     \<exists>g\<in>set selections. sel_Name g = ao_Group x \<and> ao_Pattern x \<in> set (sel_Paths g)"
  using selectionPatternsD [of selections "ao_Group x"]
  by (fastforce simp: omissionSelected_def split: option.splits)

text \<open>A bundle that the collector returned is closed at once or handed on, with a manifest that has files.\<close>

lemma collectArtifacts_bundle:
  assumes "collectArtifacts runner plan = ((m, b), effects)"
    and "rn_collector runner = Some collect" and "lp_Artifacts plan \<noteq> []"
    and "ac_Bundle (fst (collect (artifactPlan plan))) = Some x"
  shows "\<exists>called. effects @ closeArtifactBundle b = [called, BundleClosed x] \<and> (\<forall>y. called \<noteq> BundleClosed y)
    \<and> (b = None \<or> b = Some x \<and> sl (am_Files m) \<noteq> [])"
  using assms
  by (auto simp: collectArtifacts_def Let_def closeArtifactBundle_def split: if_splits option.splits prod.splits)

lemma collectArtifacts_manifest:
  "collectArtifacts runner plan = ((m, b), effects) \<Longrightarrow>
     m = failedArtifactManifest (lp_Artifacts plan)
     \<or> lp_Artifacts plan \<noteq> [] \<and> artifactCollectionAllowed m (lp_Artifacts plan) \<and> (sl (am_Files m) \<noteq> [] \<longrightarrow> b \<noteq> None)"
  by (auto simp: collectArtifacts_def Let_def split: if_splits option.splits prod.splits)

section \<open>Completed runs\<close>

text \<open>
  What a completed run reports: the collected artifacts when the report with them is valid,
  and the failed manifest otherwise.
\<close>

definition offered :: "'b Runner \<Rightarrow> LaunchPlan \<Rightarrow> bool \<Rightarrow> (ArtifactManifest \<times> 'b option) \<times> 'b Effect list" where
  "offered runner plan safe =
     (if safe then collectArtifacts runner plan else ((failedArtifactManifest (lp_Artifacts plan), None), []))"

lemma completeForeground_ok:
  assumes prep: "prepareForeground plan sha s = Inr (c1, c2, l)"
    and order: "s \<le> f" and year: "reportableYear f"
    and outcome: "validateCommandOutcome st ec = Inr ()"
    and out: "length (concat ps) < 2 ^ 63" and err: "length (concat qs) < 2 ^ 63"
    and off: "offered runner plan safe = ((m, b), collected)"
  defines "report \<equiv> assembleReport plan sha st ec s f (streamSnapshot (lp_MaxOutputBytes plan) (concat ps))
      (streamSnapshot (lp_MaxOutputBytes plan) (concat qs))"
    and "output \<equiv> \<lambda>r b. \<lparr>ot_Report = r, ot_Stdout = take (nat (lp_MaxOutputBytes plan)) (concat ps),
      ot_Stderr = take (nat (lp_MaxOutputBytes plan)) (concat qs), ot_ArtifactBundle = b\<rparr>"
  shows "completeForeground runner plan sha s f (st, ec, safe) (captureWrites ps c1) (captureWrites qs c2)
    = (if validateArtifactManifest m = Inr () then (Inr (output (report m) b), collected)
       else (Inr (output (report (failedArtifactManifest (lp_Artifacts plan))) None),
             collected @ closeArtifactBundle b))"
    and "ValidateExecutionReport (report m) = Inr () \<longleftrightarrow> validateArtifactManifest m = Inr ()"
    and "ValidateExecutionReport (report (failedArtifactManifest (lp_Artifacts plan))) = Inr ()"
proof -
  note p = prep [unfolded prepareForeground_ok]
  have snaps: "captureSnapshot (captureWrites ps c1) = Inr (streamSnapshot (lp_MaxOutputBytes plan) (concat ps))"
    "captureSnapshot (captureWrites qs c2) = Inr (streamSnapshot (lp_MaxOutputBytes plan) (concat qs))"
    using p out err by (auto intro: snapshot_after_writes)
  have bounds: "0 \<le> lp_MaxOutputBytes plan" "lp_MaxOutputBytes plan \<le> MaxOutputBytes"
    using p by (auto simp: planLimits_def MinOutputBytes_def)
  have valid: "ValidateExecutionReport (report k) = Inr () \<longleftrightarrow> validateArtifactManifest k = Inr ()" for k
    using p order year outcome bounds by (simp add: report_def assembleReport_ok streamSnapshot_ok)
  show "ValidateExecutionReport (report m) = Inr () \<longleftrightarrow> validateArtifactManifest m = Inr ()" by (rule valid)
  show fb: "ValidateExecutionReport (report (failedArtifactManifest (lp_Artifacts plan))) = Inr ()"
    using p by (simp add: valid)
  have arts: "(report k)\<lparr>er_Artifacts := k'\<rparr> = report k'" for k k'
    by (simp add: report_def assembleReport_artifacts)
  have retained: "snap_Retained (streamSnapshot (lp_MaxOutputBytes plan) x)
      = take (nat (lp_MaxOutputBytes plan)) x" for x by (simp add: streamSnapshot_def)
  show "completeForeground runner plan sha s f (st, ec, safe) (captureWrites ps c1) (captureWrites qs c2)
    = (if validateArtifactManifest m = Inr () then (Inr (output (report m) b), collected)
       else (Inr (output (report (failedArtifactManifest (lp_Artifacts plan))) None),
             collected @ closeArtifactBundle b))"
  proof (cases "validateArtifactManifest m = Inr ()")
    case True
    then have "ValidateExecutionReport (report m) = Inr ()" by (simp add: valid)
    then show ?thesis
      using order True off [unfolded offered_def]
      by (simp add: completeForeground_def snaps retained output_def flip: report_def)
  next
    case False
    then obtain e where "ValidateExecutionReport (report m) = Inl e" using valid [of m] by (cases "ValidateExecutionReport (report m)") auto
    then show ?thesis
      using order False fb off [unfolded offered_def]
      by (simp add: completeForeground_def snaps retained output_def arts flip: report_def)
  qed
qed

text \<open>A returned output comes from a preflight that passed and a clock that did not go back.\<close>

lemma runForeground_output:
  assumes "runForeground runner plan sha s f native = (Inr out, effects)"
  obtains c1 c2 l st ec safe w m b k where
    "prepareForeground plan sha s = Inr (c1, c2, l)" "s \<le> f"
    "launchProcess runner plan native = ((st, ec, safe), w)"
    "offered runner plan safe = ((m, b), k)"
    "completeForeground runner plan sha s f (st, ec, safe) (captureWrites (nt_Stdout native) c1)
       (captureWrites (nt_Stderr native) c2) = (Inr out, drop (Suc (length w)) effects)"
    "effects = Started l # w @ drop (Suc (length w)) effects"
proof -
  obtain c1 c2 l where p: "prepareForeground plan sha s = Inr (c1, c2, l)"
    using assms by (auto simp: runForeground_def split: sum.splits)
  obtain st ec safe w where o: "launchProcess runner plan native = ((st, ec, safe), w)"
    by (metis prod_cases4 prod.exhaust)
  obtain m b k where c: "offered runner plan safe = ((m, b), k)" by (metis prod.exhaust)
  obtain r e where run: "completeForeground runner plan sha s f (st, ec, safe) (captureWrites (nt_Stdout native) c1)
    (captureWrites (nt_Stderr native) c2) = (r, e)" by fastforce
  then have "r = Inr out" "effects = Started l # w @ e"
    using assms by (simp_all add: runForeground_def p o)
  moreover from this have "s \<le> f" using run by (simp add: completeForeground_def split: if_splits)
  ultimately show thesis using that p o c run by simp
qed

lemma completeForeground_output:
  assumes "completeForeground runner plan sha s f (st, ec, safe) c1 c2 = (Inr out, effects)"
    and "offered runner plan safe = ((m, b), k)"
  shows "(er_Artifacts (ot_Report out) = m \<and> ot_ArtifactBundle out = b \<and> effects = k)
    \<or> (er_Artifacts (ot_Report out) = failedArtifactManifest (lp_Artifacts plan)
        \<and> ot_ArtifactBundle out = None \<and> effects = k @ closeArtifactBundle b)"
    and "ValidateExecutionReport (ot_Report out) = Inr ()"
  using assms
  by (auto simp: completeForeground_def offered_def Let_def split: if_splits sum.splits prod.splits)

text \<open>The manifest of a report is the failed one or a collected one that was allowed.\<close>

lemma output_manifest:
  assumes "completeForeground runner plan sha s f (st, ec, safe) c1 c2 = (Inr out, effects)"
    and "offered runner plan safe = ((m, b), k)"
  shows "er_Artifacts (ot_Report out) = failedArtifactManifest (lp_Artifacts plan)
    \<or> (lp_Artifacts plan \<noteq> [] \<and> artifactCollectionAllowed (er_Artifacts (ot_Report out)) (lp_Artifacts plan)
        \<and> (sl (am_Files (er_Artifacts (ot_Report out))) \<noteq> [] \<longrightarrow> ot_ArtifactBundle out \<noteq> None))"
  using completeForeground_output(1) [OF assms] assms(2) collectArtifacts_manifest [of runner plan m b k]
  by (auto simp: offered_def split: if_splits)

end
