(* ===== verification/System_Facts.thy ===== *)
theory System_Facts
  imports Run_Facts
begin

text \<open>
  From authorization to the run: the plan of an authorized execute request passes the preflight,
  so the runner launches it and reports on it.
\<close>

lemma omissionIdentity_inject:
  assumes "CHR 0x00 \<notin> set (ao_Group a)" "CHR 0x00 \<notin> set (ao_Group b)"
    "CHR 0x00 \<notin> set (ao_Pattern a)" "CHR 0x00 \<notin> set (ao_Pattern b)"
  shows "omissionIdentity a = omissionIdentity b \<longleftrightarrow>
    ao_Group a = ao_Group b \<and> ao_Pattern a = ao_Pattern b \<and> ao_Reason a = ao_Reason b"
  using assms by (simp add: omissionIdentity_def append_sep_inject)

definition failedOmission :: "string \<Rightarrow> string \<Rightarrow> ArtifactOmission" where
  "failedOmission grp p = \<lparr>ao_Group = grp, ao_Pattern = p, ao_Reason = ArtifactOmissionCollectionFailed\<rparr>"

definition failedOmissions :: "ArtifactSelection list \<Rightarrow> ArtifactOmission list" where
  "failedOmissions as = concat (map (\<lambda>a. map (failedOmission (sel_Name a)) (sel_Paths a)) as)"

lemma validateArtifactPath_no_nul: "validateArtifactPath p = Inr () \<Longrightarrow> CHR 0x00 \<notin> set p"
  by (auto simp: validateArtifactPath_def validateRelativeArtifactPath_ok containsAny_def list_ex_iff)

lemma groupOk_no_nul:
  assumes "groupOk a" and "p \<in> set (sel_Paths a)"
  shows "CHR 0x00 \<notin> set (sel_Name a)" and "CHR 0x00 \<notin> set p"
  using assms identifierPattern_no_nul validateArtifactPath_no_nul by (auto simp: groupOk_def)

lemma failedOmission_ok:
  assumes "groupOk a" and "p \<in> set (sel_Paths a)"
  shows "omissionOk (failedOmission (sel_Name a) p)"
proof -
  have "isOk (validateArtifactOmissionPattern p)"
    using assms artifactPath_field [of "''artifacts.omissions.pattern''" p MaxArtifactPathBytes True "''artifacts.paths''"]
    by (simp add: groupOk_def validateArtifactOmissionPattern_def validateArtifactPath_def)
  then show ?thesis
    using assms(1) by (auto simp: omissionOk_def failedOmission_def groupOk_def validGroup_def isOk_iff
        supportedArtifactOmissionReasons_def)
qed

lemma failedOmissions_distinct:
  assumes "\<forall>a\<in>set as. groupOk a" and "distinct (map sel_Name as)"
  shows "distinct (map omissionIdentity (failedOmissions as))"
  using assms
proof (induction "as")
  case Nil
  then show ?case by (simp add: failedOmissions_def)
next
  case (Cons a as)
  have here: "omissionIdentity (failedOmission (sel_Name a) p) = omissionIdentity (failedOmission (sel_Name b) q)
      \<longleftrightarrow> sel_Name a = sel_Name b \<and> p = q"
    if "p \<in> set (sel_Paths a)" "b \<in> set (a # as)" "q \<in> set (sel_Paths b)" for b p q
    using groupOk_no_nul [of a p] groupOk_no_nul [of b q] that Cons.prems(1)
    by (subst omissionIdentity_inject) (auto simp: failedOmission_def)
  have "distinct (map (\<lambda>p. omissionIdentity (failedOmission (sel_Name a) p)) (sel_Paths a))"
    using Cons.prems(1) here by (auto simp: distinct_map groupOk_def inj_on_def)
  moreover have "omissionIdentity (failedOmission (sel_Name a) p) \<notin> omissionIdentity ` set (failedOmissions as)"
    if "p \<in> set (sel_Paths a)" for p
    using here [OF that] Cons.prems(2) by (auto simp: failedOmissions_def)
  ultimately show ?case
    using Cons by (auto simp: failedOmissions_def comp_def)
qed

lemma failedArtifactManifest_none: "validateArtifactManifest (failedArtifactManifest []) = Inr ()"
  by code_simp

lemma failedArtifactManifest_valid:
  assumes "validateArtifactSelections (Some as) = Inr ()"
  shows "validateArtifactManifest (failedArtifactManifest as) = Inr ()"
proof (cases "as = []")
  case True
  then show ?thesis by (simp add: failedArtifactManifest_none)
next
  case False
  have ok: "\<forall>a\<in>set as. groupOk a" "distinct (map sel_Name as)"
    "sum_list (map (\<lambda>a. length (sel_Paths a)) as) \<le> MaxTotalArtifactPaths"
    using assms by (auto simp: validateArtifactSelections_ok)
  have eq: "failedArtifactManifest as = \<lparr>am_Status = ArtifactStatusFailed, am_Files = Some [],
      am_Omissions = Some (failedOmissions as)\<rparr>"
    using False by (simp add: failedArtifactManifest_def failedOmissions_def failedOmission_def [abs_def])
  have "length (failedOmissions as) \<le> MaxArtifactOmissions"
    using ok(3) by (simp add: failedOmissions_def length_concat comp_def limit_defs)
  moreover have "failedOmissions as \<noteq> []"
    using False ok(1) by (cases "as") (auto simp: failedOmissions_def groupOk_def)
  moreover have "\<forall>x\<in>set (failedOmissions as). omissionOk x"
    using ok(1) failedOmission_ok by (auto simp: failedOmissions_def)
  ultimately show ?thesis
    using failedOmissions_distinct [OF ok(1,2)]
    by (simp add: eq validateArtifactManifest_ok validateArtifactStatusShape_def supportedArtifactStatuses_def
        artifact_status_defs limit_defs)
qed

section \<open>Authorized plans\<close>

lemma supportedShell_arguments: "shell \<in> set supportedShells \<Longrightarrow> \<exists>args. shellArguments shell = Some args"
  by (auto simp: supportedShells_def shellArguments_def)

lemma authorized_request:
  assumes "Authorize cfg envelope base resolver = Inr plan"
  defines "request \<equiv> ar_Request (ee_AcceptedRequest envelope)"
  shows "ValidateRequest request = Inr ()" and "lp_Artifacts plan = sl (rq_Artifacts request)"
    and "validateArtifactSelections (Some (lp_Artifacts plan)) = Inr ()"
    and "lp_Executable plan \<noteq> []" and "lp_Script plan \<noteq> []"
proof -
  note ok = Authorize_ok [OF assms(1), folded request_def]
  have acc: "ValidateAcceptedRequestRecord (ee_AcceptedRequest envelope) = Inr ()" using ok(2) by simp
  then show valid: "ValidateRequest request = Inr ()"
    by (simp add: ValidateAcceptedRequestRecord_ok DigestRequest_ok request_def)
  show arts: "lp_Artifacts plan = sl (rq_Artifacts request)" by (simp add: ok)
  have "validateArtifactSelections (rq_Artifacts request) = Inr ()"
    using valid by (simp add: ValidateRequest_def)
  then show "validateArtifactSelections (Some (lp_Artifacts plan)) = Inr ()"
    by (cases "rq_Artifacts request") (simp_all add: arts validateArtifactSelections_def)
  have "\<exists>b\<in>set (sl (cf_Shells cfg)). sb_Executable b = lp_Executable plan"
    using configuredShell_Some [OF ok(4)] by auto
  moreover have "\<forall>b\<in>set (sl (cf_Shells cfg)). nonRootPath (cf_Platform cfg) (sb_Executable b)"
    using ValidateConfig_facts(4) [OF ok(1)] by auto
  ultimately have "nonRootPath (cf_Platform cfg) (lp_Executable plan)" by auto
  then show "lp_Executable plan \<noteq> []" by (auto simp: nonRootPath_def ValidateAbsolute_def)
  have "validateScript (rq_Script request) = Inr ()" using valid by (simp add: ValidateRequest_def)
  then show "lp_Script plan \<noteq> []" by (simp add: ok(9) validateScript_def)
qed

lemma authorized_invocation:
  assumes "Authorize cfg envelope base resolver = Inr plan"
  shows "\<exists>i. BuildInvocation plan = Inr i"
proof -
  note ok = Authorize_ok [OF assms] and rq = authorized_request [OF assms]
  have "lp_Shell plan \<in> set supportedShells"
    using rq(1) ok(10) by (simp add: ValidateRequest_def split: if_splits)
  then show ?thesis
    using rq(4,5) supportedShell_arguments [of "lp_Shell plan"] by (auto simp: BuildInvocation_def)
qed

lemma authorized_limits:
  assumes "Authorize cfg envelope base resolver = Inr plan"
  shows "planLimits plan"
  using authorized_request(1) [OF assms] Authorize_ok(11,12) [OF assms]
  by (auto simp: ValidateRequest_def planLimits_def)

lemma authorized_bindings:
  assumes "Authorize cfg envelope base resolver = Inr plan" and "isLowerHex 40 sha"
  shows "planBindings plan sha"
proof -
  note ok = Authorize_ok [OF assms(1)]
  have acc: "ValidateAcceptedRequestRecord (ee_AcceptedRequest envelope) = Inr ()" using ok(2) by simp
  then have "lp_RequestDigest plan = sha256Hex (encodeJson (requestJson (ar_Request (ee_AcceptedRequest envelope))))"
    by (simp add: ok(8) ValidateAcceptedRequestRecord_ok DigestRequest_ok)
  then have "isLowerHex 64 (lp_RequestDigest plan)" by simp
  moreover have "identifierPattern (lp_RequestID plan)"
    using acc unfolding ok(13) ValidateAcceptedRequestRecord_ok by metis
  ultimately show ?thesis using ok(2) assms(2) by (simp add: planBindings_def ok(14))
qed

lemma authorized_prepares:
  assumes "Authorize cfg envelope base resolver = Inr plan" and "isLowerHex 40 sha" and "reportableYear s"
  shows "\<exists>c l. prepareForeground plan sha s = Inr (c, c, l)"
proof -
  have "\<exists>c. NewCapture (lp_MaxOutputBytes plan) = Inr c"
    using authorized_limits [OF assms(1)] by (simp add: NewCapture_ok planLimits_def)
  then show ?thesis
    using authorized_limits [OF assms(1)] authorized_invocation [OF assms(1)] authorized_bindings [OF assms(1,2)]
      failedArtifactManifest_valid [OF authorized_request(3) [OF assms(1)]] assms(3)
    by (auto simp: prepareForeground_ok)
qed

lemma selected_group:
  "fileSelected as x \<Longrightarrow> af_Group x \<in> sel_Name ` set as"
  "omissionSelected as y \<Longrightarrow> ao_Group y \<in> sel_Name ` set as"
  by (metis fileSelectedD imageI, metis omissionSelectedD imageI)

text \<open>The manifest of a run fits the groups of the accepted request.\<close>

lemma manifest_fits_groups:
  assumes "m = failedArtifactManifest as \<or> (as \<noteq> [] \<and> artifactCollectionAllowed m as \<and> X)"
  shows "(as = [] \<longleftrightarrow> am_Status m = ArtifactStatusNotRequested)
    \<and> af_Group ` set (sl (am_Files m)) \<subseteq> sel_Name ` set as
    \<and> ao_Group ` set (sl (am_Omissions m)) \<subseteq> sel_Name ` set as"
  using assms
proof
  assume "m = failedArtifactManifest as"
  then show ?thesis by (auto simp: failedArtifactManifest_def artifact_status_defs)
next
  assume a: "as \<noteq> [] \<and> artifactCollectionAllowed m as \<and> X"
  then have "\<forall>x\<in>set (sl (am_Files m)). fileSelected as x" "\<forall>x\<in>set (sl (am_Omissions m)). omissionSelected as x"
      "am_Status m \<noteq> ArtifactStatusNotRequested"
    by (auto simp: artifactCollectionAllowed_def list_all_iff split: if_splits)
  then show ?thesis using a selected_group by blast
qed

lemma authorized_run_binding:
  assumes "Authorize cfg envelope base resolver = Inr plan"
    and "runForeground runner plan sha s f native = (Inr out, effects)"
    and "length (concat (nt_Stdout native)) < 2 ^ 63" and "length (concat (nt_Stderr native)) < 2 ^ 63"
  shows "ValidateExecutionReportBinding (ee_AcceptedRequest envelope) (ot_Report out) = Inr ()"
  using assms(2)
proof (rule runForeground_output)
  fix c1 c2 l st ec safe w m b k
  assume prep: "prepareForeground plan sha s = Inr (c1, c2, l)"
    and off: "offered runner plan safe = ((m, b), k)"
    and run: "completeForeground runner plan sha s f (st, ec, safe) (captureWrites (nt_Stdout native) c1)
       (captureWrites (nt_Stderr native) c2) = (Inr out, drop (Suc (length w)) effects)"
  note ok = Authorize_ok [OF assms(1)]
  let ?acc = "ee_AcceptedRequest envelope"
  have acc: "ValidateAcceptedRequestRecord ?acc = Inr ()" using ok(2) by simp
  then have id: "rq_RequestID (ar_Request ?acc) = ar_RequestID ?acc"
    by (simp add: ValidateAcceptedRequestRecord_ok)
  have caps: "NewCapture (lp_MaxOutputBytes plan) = Inr c1" "c2 = c1"
    using prep by (auto simp: prepareForeground_ok)
  have snaps: "captureSnapshot (captureWrites (nt_Stdout native) c1)
        = Inr (streamSnapshot (lp_MaxOutputBytes plan) (concat (nt_Stdout native)))"
      "captureSnapshot (captureWrites (nt_Stderr native) c2)
        = Inr (streamSnapshot (lp_MaxOutputBytes plan) (concat (nt_Stderr native)))"
    using caps assms(3,4) by (auto intro: snapshot_after_writes)
  have retained: "om_RetainedBytes (snap_Metadata (streamSnapshot limit x)) \<le> limit" for limit x
    by (simp add: streamSnapshot_def)
  have report: "er_RequestID (ot_Report out) = lp_RequestID plan" "er_RequestDigest (ot_Report out) = lp_RequestDigest plan"
      "om_RetainedBytes (er_Stdout (ot_Report out)) \<le> lp_MaxOutputBytes plan"
      "om_RetainedBytes (er_Stderr (ot_Report out)) \<le> lp_MaxOutputBytes plan"
    using run retained
    by (auto simp: completeForeground_def snaps Let_def split: if_splits sum.splits prod.splits)
  have "acceptedArtifactGroups ?acc = map sel_Name (lp_Artifacts plan)"
    by (simp add: acceptedArtifactGroups_def ok)
  then show ?thesis
    using acc completeForeground_output(2) [OF run off] report manifest_fits_groups [OF output_manifest [OF run off]]
    by (simp add: ValidateExecutionReportBinding_ok id ok)
qed

end
