(* ===== verification/Background.thy ===== *)
theory Background
  imports Execution_Run "HOL-Library.Multiset"
begin

text \<open>
  Background processes: \<open>internal/executionrun/background.go\<close>.  Entries are shared by the
  registry, one monitor goroutine each and the requests in progress, so they live in a heap
  (a list; a pointer is an index) and the registry maps keys to pointers.  Every block guarded by
  a mutex is one atomic step; the goroutines are machines with a program counter, and what the
  native side, the timer and the context do next is the event of the step.  The field
  \<open>bp_tree\<close> is not in the code: it records whether processes of the tree may still exist.
\<close>

section \<open>Entries\<close>

definition maxBackgroundProcesses :: nat where "maxBackgroundProcesses = 32"

definition backgroundRunning :: string where "backgroundRunning = ''running''"
definition backgroundExited :: string where "backgroundExited = ''exited''"
definition backgroundStopped :: string where "backgroundStopped = ''stopped''"
definition backgroundTimedOut :: string where "backgroundTimedOut = ''timed_out''"
definition backgroundRuntimeFailed :: string where "backgroundRuntimeFailed = ''runtime_failed''"

lemmas background_states = backgroundRunning_def backgroundExited_def backgroundStopped_def
  backgroundTimedOut_def backgroundRuntimeFailed_def

datatype MonitorPhase =
    MonitorNew
  | MonitorWaiting
  | MonitorExiting string "ProcessExit option"
  | MonitorKilling
  | MonitorDraining string
  | MonitorDone

record backgroundProcess =
  bp_workingDirectory :: string
  bp_startedAt :: instant
  bp_stdout :: Capture
  bp_stderr :: Capture
  bp_done :: bool
  bp_state :: string
  bp_reason :: string
  bp_finishedAt :: "instant option"
  bp_exitCode :: "int option"
  bp_phase :: MonitorPhase
  bp_tree :: bool

definition running :: "backgroundProcess \<Rightarrow> bool" where
  "running entry \<longleftrightarrow> bp_state entry = backgroundRunning"

definition setReason :: "string \<Rightarrow> backgroundProcess \<Rightarrow> backgroundProcess" where
  "setReason reason entry =
     (if bp_reason entry = [] then entry\<lparr>bp_reason := reason\<rparr> else entry)"

definition reasonOr :: "backgroundProcess \<Rightarrow> string \<Rightarrow> string" where
  "reasonOr entry fallback = (if bp_reason entry \<noteq> [] then bp_reason entry else fallback)"

text \<open>\<open>finishOnce\<close>: the first call counts, and closing \<open>done\<close> is part of it.\<close>

definition finish :: "string \<Rightarrow> int option \<Rightarrow> instant \<Rightarrow> backgroundProcess \<Rightarrow> backgroundProcess" where
  "finish state exitCode finishedAt entry =
     (if bp_done entry then entry
      else entry\<lparr>bp_state := state, bp_finishedAt := Some finishedAt,
                 bp_exitCode := (case exitCode of None \<Rightarrow> bp_exitCode entry | Some c \<Rightarrow> Some c),
                 bp_done := True\<rparr>)"

definition snapshotState :: "backgroundProcess \<Rightarrow> string \<times> string \<times> int option" where
  "snapshotState entry =
     (bp_state entry,
      (case bp_finishedAt entry of None \<Rightarrow> [] | Some t \<Rightarrow> formatRFC3339Nano t),
      bp_exitCode entry)"

section \<open>The monitor\<close>

text \<open>
  What happens next to a monitor: the exit channel is nil, no timer could be made (with the
  result of the termination that follows), the timer was made, the exit channel answered, the
  timer fired, \<open>TerminateTree\<close> returned, or the monitor goes on by itself.
\<close>

datatype MonitorEvent =
    NoExitChannel
  | NoTimer bool
  | TimerMade
  | ExitAnswered "ProcessExit option"
  | TimerExpired
  | TreeKilled bool
  | MonitorGoesOn

definition exitInvalid :: "ProcessExit option \<Rightarrow> bool" where
  "exitInvalid received = (case received of
     None \<Rightarrow> True
   | Some exit \<Rightarrow> pe_RuntimeError exit \<or> pe_Code exit < 0 \<or> pe_Code exit > maxExitCode)"

definition monitorBackground ::
    "MonitorEvent \<Rightarrow> instant \<Rightarrow> backgroundProcess \<Rightarrow> backgroundProcess option" where
  "monitorBackground event now entry = (case (bp_phase entry, event) of
     (MonitorNew, NoExitChannel) \<Rightarrow>
       Some ((finish backgroundRuntimeFailed None now entry)\<lparr>bp_phase := MonitorDone\<rparr>)
   | (MonitorNew, NoTimer killed) \<Rightarrow>
       Some ((finish backgroundRuntimeFailed None now entry)
         \<lparr>bp_phase := MonitorDone, bp_tree := bp_tree entry \<and> \<not> killed\<rparr>)
   | (MonitorNew, TimerMade) \<Rightarrow> Some (entry\<lparr>bp_phase := MonitorWaiting\<rparr>)
   | (MonitorWaiting, ExitAnswered received) \<Rightarrow>
       Some (entry\<lparr>bp_phase := MonitorExiting (reasonOr entry backgroundExited) received, bp_tree := False\<rparr>)
   | (MonitorWaiting, TimerExpired) \<Rightarrow>
       (let marked = setReason backgroundTimedOut entry in
        if bp_reason marked = backgroundTimedOut then Some (marked\<lparr>bp_phase := MonitorKilling\<rparr>)
        else Some (marked\<lparr>bp_phase := MonitorDraining (bp_reason marked)\<rparr>))
   | (MonitorKilling, TreeKilled killed) \<Rightarrow>
       Some ((finish (if killed then backgroundTimedOut else backgroundRuntimeFailed) None now entry)
         \<lparr>bp_phase := MonitorDone, bp_tree := bp_tree entry \<and> \<not> killed\<rparr>)
   | (MonitorDraining reason, ExitAnswered received) \<Rightarrow>
       Some (entry\<lparr>bp_phase := MonitorExiting reason received, bp_tree := False\<rparr>)
   | (MonitorExiting state received, MonitorGoesOn) \<Rightarrow>
       Some ((if exitInvalid received then finish backgroundRuntimeFailed None now entry
              else finish state (Some (pe_Code (the received))) now entry)\<lparr>bp_phase := MonitorDone\<rparr>)
   | _ \<Rightarrow> None)"

section \<open>The registry and the requests\<close>

definition backgroundKey :: "string \<Rightarrow> string \<Rightarrow> string" where
  "backgroundKey sessionID processID = sessionID @ CHR 0x00 # processID"

text \<open>
  The requests in progress: a stop and the \<open>Close\<close> of the runner take several steps.  A stop
  ends with the entry it removed or with an error; \<open>Close\<close> walks the entries it saw.
\<close>

datatype RequestPhase =
    StopFound nat
  | StopMarking nat
  | StopKilling nat
  | StopWaiting nat
  | StopRemoving nat
  | StopReturned "nat option"
  | CloseNext "nat list" bool
  | CloseMarking nat "nat list" bool
  | CloseKilling nat "nat list" bool
  | CloseWaiting nat "nat list" bool
  | CloseReturned bool

datatype RequestEvent =
    RequestGoesOn
  | KillReturned bool
  | DoneClosed
  | ContextEnded

record System =
  sy_heap :: "backgroundProcess list"
  sy_background :: "(string \<times> nat) list"
  sy_requests :: "(string \<times> RequestPhase) list"

definition initSystem :: System where
  "initSystem = \<lparr>sy_heap = [], sy_background = [], sy_requests = []\<rparr>"

definition findBackground :: "System \<Rightarrow> LaunchPlan \<Rightarrow> nat option" where
  "findBackground s plan =
     (case map_of (sy_background s) (backgroundKey (lp_SessionID plan) (lp_ProcessID plan)) of
        None \<Rightarrow> None
      | Some a \<Rightarrow>
          if bp_workingDirectory (sy_heap s ! a) \<noteq> lp_WorkingDirectory plan then None else Some a)"

text \<open>Deleting compares the pointer, so that a newer entry under the same key stays.\<close>

definition removeBackground :: "string \<Rightarrow> nat \<Rightarrow> System \<Rightarrow> System" where
  "removeBackground key expected s =
     (if map_of (sy_background s) key = Some expected
      then s\<lparr>sy_background := filter (\<lambda>(k, a). k \<noteq> key) (sy_background s)\<rparr> else s)"

definition newEntry :: "LaunchPlan \<Rightarrow> instant \<Rightarrow> Capture \<Rightarrow> Capture \<Rightarrow> backgroundProcess" where
  "newEntry plan startedAt stdout stderr =
     \<lparr>bp_workingDirectory = lp_WorkingDirectory plan, bp_startedAt = startedAt, bp_stdout = stdout,
      bp_stderr = stderr, bp_done = False, bp_state = backgroundRunning, bp_reason = [],
      bp_finishedAt = None, bp_exitCode = None, bp_phase = MonitorNew, bp_tree = True\<rparr>"

text \<open>
  The whole start holds the mutex of the registry.  The native side answers with an error, a
  process, or both: then the process is terminated within the grace, and the start fails all the
  same.  The result is the new entry, or \<open>None\<close> for an error, the state and what was done.
\<close>

definition startBackground ::
    "duration \<Rightarrow> LaunchPlan \<Rightarrow> instant \<Rightarrow> bool \<Rightarrow> bool \<Rightarrow> System
     \<Rightarrow> (nat option \<times> System) \<times> BackgroundEffect list" where
  "startBackground grace plan startedAt startError process s =
     (let key = backgroundKey (lp_SessionID plan) (lp_ProcessID plan) in
      if map_of (sy_background s) key \<noteq> None then ((None, s), [RegistryRead key])
      else if length (sy_background s) \<ge> maxBackgroundProcesses then ((None, s), [RegistryRead key])
      else case NewCapture (lp_MaxOutputBytes plan) of Inl _ \<Rightarrow> ((None, s), [RegistryRead key]) | Inr stdout \<Rightarrow>
      case NewCapture (lp_MaxOutputBytes plan) of Inl _ \<Rightarrow> ((None, s), [RegistryRead key]) | Inr stderr \<Rightarrow>
      case BuildInvocation plan of Inl _ \<Rightarrow> ((None, s), [RegistryRead key]) | Inr invocation \<Rightarrow>
      let launched = [RegistryRead key, ProcessLaunched (nativeLaunch plan invocation)] in
      if startError \<or> \<not> process
      then ((None, s), launched @ (if process then [ProcessTerminated grace] else []))
      else ((Some (length (sy_heap s)),
             s\<lparr>sy_heap := sy_heap s @ [newEntry plan startedAt stdout stderr],
               sy_background := (key, length (sy_heap s)) # sy_background s\<rparr>),
            launched @ [EntryAdded key (length (sy_heap s))]))"

definition updateEntry :: "nat \<Rightarrow> (backgroundProcess \<Rightarrow> backgroundProcess) \<Rightarrow> System \<Rightarrow> System" where
  "updateEntry a f s = s\<lparr>sy_heap := (sy_heap s)[a := f (sy_heap s ! a)]\<rparr>"

text \<open>A stop begins by looking the entry up; \<open>Close\<close> begins with all entries of
  the registry, in the order Go ranges over the map.\<close>

definition beginStop :: "LaunchPlan \<Rightarrow> System \<Rightarrow> System" where
  "beginStop plan s = s\<lparr>sy_requests := sy_requests s
     @ [(backgroundKey (lp_SessionID plan) (lp_ProcessID plan),
         case findBackground s plan of None \<Rightarrow> StopReturned None | Some a \<Rightarrow> StopFound a)]\<rparr>"

definition beginClose :: "nat list \<Rightarrow> System \<Rightarrow> System" where
  "beginClose entries s = s\<lparr>sy_requests := sy_requests s @ [([], CloseNext entries False)]\<rparr>"

text \<open>One step of a request: its next phase and what it does to the shared state.\<close>

definition requestStep ::
    "string \<Rightarrow> RequestPhase \<Rightarrow> RequestEvent \<Rightarrow> System \<Rightarrow> (RequestPhase \<times> System) option" where
  "requestStep key phase event s = (case (phase, event) of
     (StopFound a, RequestGoesOn) \<Rightarrow>
       Some (if running (sy_heap s ! a) then StopMarking a else StopRemoving a, s)
   | (StopMarking a, RequestGoesOn) \<Rightarrow>
       Some (StopKilling a, updateEntry a (setReason backgroundStopped) s)
   | (StopKilling a, KillReturned killed) \<Rightarrow>
       Some (if killed then (StopWaiting a, updateEntry a (\<lambda>e. e\<lparr>bp_tree := False\<rparr>) s)
             else (StopReturned None, s))
   | (StopWaiting a, DoneClosed) \<Rightarrow>
       (if bp_done (sy_heap s ! a) then Some (StopRemoving a, s) else None)
   | (StopWaiting a, ContextEnded) \<Rightarrow> Some (StopReturned None, s)
   | (StopRemoving a, RequestGoesOn) \<Rightarrow> Some (StopReturned (Some a), removeBackground key a s)
   | (CloseNext [] failed, RequestGoesOn) \<Rightarrow> Some (CloseReturned failed, s)
   | (CloseNext (a # as) failed, RequestGoesOn) \<Rightarrow>
       Some (if running (sy_heap s ! a) then CloseMarking a as failed else CloseNext as failed, s)
   | (CloseMarking a as failed, RequestGoesOn) \<Rightarrow>
       Some (CloseKilling a as failed, updateEntry a (setReason backgroundStopped) s)
   | (CloseKilling a as failed, KillReturned killed) \<Rightarrow>
       Some (if killed then (CloseWaiting a as failed, updateEntry a (\<lambda>e. e\<lparr>bp_tree := False\<rparr>) s)
             else (CloseNext as True, s))
   | (CloseWaiting a as failed, DoneClosed) \<Rightarrow>
       (if bp_done (sy_heap s ! a) then Some (CloseNext as failed, s) else None)
   | (CloseWaiting a as failed, ContextEnded) \<Rightarrow> Some (CloseNext as True, s)
   | _ \<Rightarrow> None)"

section \<open>All interleavings\<close>

inductive sysStep :: "System \<Rightarrow> System \<Rightarrow> bool" where
  start: "startBackground grace plan now startError process s = ((r, s'), effects) \<Longrightarrow> sysStep s s'"
| writes: "a < length (sy_heap s) \<Longrightarrow>
     sysStep s (updateEntry a (\<lambda>e. e\<lparr>bp_stdout := captureWrites out (bp_stdout e),
                                    bp_stderr := captureWrites err (bp_stderr e)\<rparr>) s)"
| monitor: "a < length (sy_heap s) \<Longrightarrow> monitorBackground event now (sy_heap s ! a) = Some e \<Longrightarrow>
     sysStep s (updateEntry a (\<lambda>_. e) s)"
| stop: "sysStep s (beginStop plan s)"
| close: "mset entries = mset (map snd (sy_background s)) \<Longrightarrow> sysStep s (beginClose entries s)"
| request: "i < length (sy_requests s) \<Longrightarrow> sy_requests s ! i = (key, phase) \<Longrightarrow>
     requestStep key phase event s = Some (phase', s') \<Longrightarrow>
     sysStep s (s'\<lparr>sy_requests := (sy_requests s)[i := (key, phase')]\<rparr>)"

inductive_cases sysStepE: "sysStep s s'"

section \<open>One request among the others\<close>

text \<open>
  What a background request meets: the state of the registry when its operation first locks it,
  what the other goroutines do to the state between its own steps (step $k$ is preceded by
  \<open>rg_Others k\<close>), the clock of the entry, and whether its context has ended when it waits.
  The answers of the launcher and of \<open>TerminateTree\<close> are those of the record \<open>Native\<close>.
\<close>

record Registry =
  rg_System :: System
  rg_Others :: "nat \<Rightarrow> System \<Rightarrow> System"
  rg_StartedAt :: instant
  rg_ContextEnded :: bool

text \<open>
  The event of a step of a stop.  A wait returns when the entry is done or the context has
  ended, and the state is the one at that moment: so it was the context when the entry is not done.
\<close>

definition stopEvent :: "Native \<Rightarrow> Registry \<Rightarrow> RequestPhase \<Rightarrow> System \<Rightarrow> RequestEvent" where
  "stopEvent native registry phase s = (case phase of
     StopKilling _ \<Rightarrow> KillReturned (\<not> nt_TerminateError native)
   | StopWaiting a \<Rightarrow> (if bp_done (sy_heap s ! a) \<and> \<not> rg_ContextEnded registry then DoneClosed else ContextEnded)
   | _ \<Rightarrow> RequestGoesOn)"

definition stopEffects :: "duration \<Rightarrow> string \<Rightarrow> RequestPhase \<Rightarrow> System \<Rightarrow> BackgroundEffect list" where
  "stopEffects grace key phase s = (case phase of
     StopKilling _ \<Rightarrow> [ProcessTerminated grace]
   | StopRemoving a \<Rightarrow> (if map_of (sy_background s) key = Some a then [EntryRemoved key a] else [])
   | _ \<Rightarrow> [])"

text \<open>One step of the stop that is request \<open>i\<close> of the system; a stop that returned stays as it is.\<close>

definition stopStep ::
    "duration \<Rightarrow> Native \<Rightarrow> Registry \<Rightarrow> string \<Rightarrow> nat \<Rightarrow> nat \<Rightarrow> (RequestPhase \<times> System) \<times> BackgroundEffect list
     \<Rightarrow> (RequestPhase \<times> System) \<times> BackgroundEffect list" where
  "stopStep grace native registry key i k st = (case st of ((phase, s), effects) \<Rightarrow>
     let t = rg_Others registry k s in
     case requestStep key phase (stopEvent native registry phase t) t of
       None \<Rightarrow> st
     | Some (phase', t') \<Rightarrow>
         ((phase', t'\<lparr>sy_requests := (sy_requests t)[i := (key, phase')]\<rparr>), effects @ stopEffects grace key phase t))"

text \<open>A stop looks up, checks, marks, terminates, waits and removes: at most five steps after the lookup.\<close>

definition stopBackground ::
    "duration \<Rightarrow> LaunchPlan \<Rightarrow> Native \<Rightarrow> Registry \<Rightarrow> (nat option \<times> System) \<times> BackgroundEffect list" where
  "stopBackground grace plan native registry =
     (let key = backgroundKey (lp_SessionID plan) (lp_ProcessID plan);
          s = rg_System registry;
          found = (case findBackground s plan of None \<Rightarrow> StopReturned None | Some a \<Rightarrow> StopFound a) in
      case fold (stopStep grace native registry key (length (sy_requests s))) [0..<5]
             ((found, beginStop plan s), [RegistryRead key]) of
        ((phase, t), effects) \<Rightarrow> (((case phase of StopReturned r \<Rightarrow> r | _ \<Rightarrow> None), t), effects))"

text \<open>
  The entry a response is built from: the two captures and the state are read one after the
  other, each under its own mutex.
\<close>

definition readEntry :: "Registry \<Rightarrow> nat \<Rightarrow> System \<Rightarrow> backgroundProcess \<times> System" where
  "readEntry registry a s =
     (let s1 = rg_Others registry 5 s; s2 = rg_Others registry 6 s1; s3 = rg_Others registry 7 s2 in
      ((sy_heap s3 ! a)\<lparr>bp_stdout := bp_stdout (sy_heap s1 ! a), bp_stderr := bp_stderr (sy_heap s2 ! a)\<rparr>, s3))"

text \<open>The operation of a background request, and the entry it answers with.\<close>

definition operateBackground ::
    "duration \<Rightarrow> LaunchPlan \<Rightarrow> Native \<Rightarrow> Registry \<Rightarrow> (nat option \<times> System) \<times> BackgroundEffect list" where
  "operateBackground grace plan native registry =
     (if lp_Operation plan = RequestOperationStart
      then startBackground grace plan (rg_StartedAt registry) (nt_StartError native) (nt_Process native)
        (rg_System registry)
      else if lp_Operation plan = RequestOperationStop then stopBackground grace plan native registry
      else ((findBackground (rg_System registry) plan, rg_System registry),
            [RegistryRead (backgroundKey (lp_SessionID plan) (lp_ProcessID plan))]))"

definition dispatchBackground ::
    "duration \<Rightarrow> LaunchPlan \<Rightarrow> Native \<Rightarrow> Registry \<Rightarrow> (backgroundProcess option \<times> System) \<times> BackgroundEffect list" where
  "dispatchBackground grace plan native registry =
     (case operateBackground grace plan native registry of
        ((None, s), effects) \<Rightarrow> ((None, s), effects)
      | ((Some a, s), effects) \<Rightarrow>
          (case readEntry registry a s of (entry, t) \<Rightarrow> ((Some entry, t), effects)))"

section \<open>Responses\<close>

definition headerJson :: "LaunchPlan \<Rightarrow> backgroundProcess \<Rightarrow> Snapshot \<Rightarrow> Snapshot \<Rightarrow> json" where
  "headerJson plan entry stdout stderr = (case snapshotState entry of (state, finishedAt, exitCode) \<Rightarrow>
     JObj [(''process_id'', JStr (lp_ProcessID plan)), (''state'', JStr state),
           (''started_at'', JStr (formatRFC3339Nano (bp_startedAt entry))), (''finished_at'', JStr finishedAt),
           (''exit_code'', jsonPointer JInt exitCode), (''stdout'', outputJson (snap_Metadata stdout)),
           (''stderr'', outputJson (snap_Metadata stderr))])"

definition backgroundResponse ::
    "LaunchPlan \<Rightarrow> backgroundProcess \<Rightarrow> bool \<Rightarrow> CaptureError + (string \<times> string)" where
  "backgroundResponse plan entry includeLogs =
     bindR (captureSnapshot (bp_stdout entry)) (\<lambda>stdout.
     bindR (captureSnapshot (bp_stderr entry)) (\<lambda>stderr.
     let encoded = encodeJson (headerJson plan entry stdout stderr) @ [CHR 0x0A] in
     Inr (if \<not> includeLogs then (encoded, [])
          else (encoded @ snap_Retained stdout, snap_Retained stderr))))"

definition backgroundOperationFailure :: "CommandStatus \<times> int \<times> string" where
  "backgroundOperationFailure =
     (CommandStatusFailed, 1, ''background process operation denied'' @ [CHR 0x0A])"

definition validateBackgroundPlan :: "LaunchPlan \<Rightarrow> string \<Rightarrow> RunError + unit" where
  "validateBackgroundPlan plan gatewaySourceSHA =
     bindR (failIf (lp_Operation plan \<noteq> RequestOperationStart \<and> lp_Operation plan \<noteq> RequestOperationStatus
        \<and> lp_Operation plan \<noteq> RequestOperationStop \<and> lp_Operation plan \<noteq> RequestOperationLogs)
        ErrInvalidRunPlan) (\<lambda>_.
     bindR (failIf (lp_ProcessID plan = [] \<or> lp_TimeoutSeconds plan < MinTimeoutSeconds
        \<or> lp_TimeoutSeconds plan > MaxTimeoutSeconds \<or> lp_MaxOutputBytes plan < MinOutputBytes
        \<or> lp_MaxOutputBytes plan > MaxOutputBytes \<or> lp_Artifacts plan \<noteq> []) ErrInvalidRunPlan) (\<lambda>_.
     bindR (mapErr (\<lambda>_. ErrInvalidRunPlan) (BuildInvocation plan)) (\<lambda>_.
     bindR (mapErr (\<lambda>_. ErrInvalidRunPlan) (NewCapture (lp_MaxOutputBytes plan))) (\<lambda>empty.
     bindR (mapErr (\<lambda>_. ErrInvalidRunPlan) (captureSnapshot empty)) (\<lambda>snapshot.
     bindR (mapErr (\<lambda>_. ErrInvalidRunPlan) (ValidateExecutionReport
       (assembleReport plan gatewaySourceSHA CommandStatusRuntimeFailed None 0 0 snapshot snapshot
          (failedArtifactManifest [])))) (\<lambda>_. Inr ()))))))"

definition buildBackgroundOutput ::
    "LaunchPlan \<Rightarrow> string \<Rightarrow> CommandStatus \<Rightarrow> int option \<Rightarrow> instant \<Rightarrow> instant \<Rightarrow> string \<Rightarrow> string
     \<Rightarrow> RunError + 'b Output" where
  "buildBackgroundOutput plan gatewaySourceSHA status exitCode startedAt finishedAt stdoutBytes stderrBytes =
     bindR (mapErr (\<lambda>_. ErrInvalidRunPlan) (NewCapture (lp_MaxOutputBytes plan))) (\<lambda>stdoutCapture.
     bindR (mapErr (\<lambda>_. ErrInvalidRunPlan) (NewCapture (lp_MaxOutputBytes plan))) (\<lambda>stderrCapture.
     bindR (mapErr (\<lambda>_. ErrInvalidExecutionReport) (captureAll [stdoutBytes] stdoutCapture)) (\<lambda>stdoutCapture.
     bindR (mapErr (\<lambda>_. ErrInvalidExecutionReport) (captureAll [stderrBytes] stderrCapture)) (\<lambda>stderrCapture.
     bindR (mapErr (\<lambda>_. ErrInvalidExecutionReport) (captureSnapshot stdoutCapture)) (\<lambda>stdout.
     bindR (mapErr (\<lambda>_. ErrInvalidExecutionReport) (captureSnapshot stderrCapture)) (\<lambda>stderr.
     let report = assembleReport plan gatewaySourceSHA status exitCode startedAt finishedAt stdout stderr
           (failedArtifactManifest []) in
     bindR (mapErr (\<lambda>_. ErrInvalidExecutionReport) (ValidateExecutionReport report)) (\<lambda>_.
     Inr \<lparr>ot_Report = report, ot_Stdout = snap_Retained stdout, ot_Stderr = snap_Retained stderr,
          ot_ArtifactBundle = None\<rparr>)))))))"

text \<open>
  The answer to a request, given the entry that the operation returned (\<open>None\<close> when it returned
  an error): status, exit code and the two streams.
\<close>

definition backgroundAnswer ::
    "LaunchPlan \<Rightarrow> backgroundProcess option \<Rightarrow> CommandStatus \<times> int \<times> string \<times> string" where
  "backgroundAnswer plan result =
     (let denied = (case backgroundOperationFailure of (status, exitCode, stderr) \<Rightarrow> (status, exitCode, [], stderr)) in
      case result of
        None \<Rightarrow>
          if lp_Operation plan = RequestOperationStop
          then (CommandStatusRuntimeFailed, 0, [], ''background process stop failed'' @ [CHR 0x0A])
          else denied
      | Some entry \<Rightarrow>
          (case backgroundResponse plan entry (lp_Operation plan = RequestOperationLogs) of
             Inl _ \<Rightarrow> denied
           | Inr (stdout, stderr) \<Rightarrow> (CommandStatusCompleted, 0, stdout, stderr)))"

definition answerBackground ::
    "LaunchPlan \<Rightarrow> string \<Rightarrow> instant \<Rightarrow> instant \<Rightarrow> backgroundProcess option \<Rightarrow> RunError + 'b Output" where
  "answerBackground plan gatewaySourceSHA startedAt finishedAt result =
     (case backgroundAnswer plan result of (status, exitCode, stdout, stderr) \<Rightarrow>
      if finishedAt < startedAt then Inl ErrClockRegression
      else buildBackgroundOutput plan gatewaySourceSHA status
        (if status \<noteq> CommandStatusRuntimeFailed then Some exitCode else None)
        startedAt finishedAt stdout stderr)"

text \<open>A plan is checked before anything is done for it.\<close>

definition runBackground ::
    "'b Runner \<Rightarrow> LaunchPlan \<Rightarrow> string \<Rightarrow> instant \<Rightarrow> instant \<Rightarrow> Native \<Rightarrow> Registry
     \<Rightarrow> (RunError + 'b Output) \<times> BackgroundEffect list" where
  "runBackground runner plan gatewaySourceSHA startedAt finishedAt native registry =
     (case validateBackgroundPlan plan gatewaySourceSHA of
        Inl e \<Rightarrow> (Inl e, [])
      | Inr _ \<Rightarrow>
          (case dispatchBackground (rn_treeTerminationGrace runner) plan native registry of
             ((result, _), effects) \<Rightarrow>
               (answerBackground plan gatewaySourceSHA startedAt finishedAt result, effects)))"

definition Run ::
    "'b Runner \<Rightarrow> LaunchPlan \<Rightarrow> string \<Rightarrow> instant \<Rightarrow> instant \<Rightarrow> Native \<Rightarrow> Registry
     \<Rightarrow> (RunError + 'b Output) \<times> 'b Effect list" where
  "Run runner plan gatewaySourceSHA startedAt finishedAt native registry =
     (if lp_Operation plan = RequestOperationExecute
      then runForeground runner plan gatewaySourceSHA startedAt finishedAt native
      else if lp_Operation plan = RequestOperationStart \<or> lp_Operation plan = RequestOperationStatus
        \<or> lp_Operation plan = RequestOperationStop \<or> lp_Operation plan = RequestOperationLogs
      then (case runBackground runner plan gatewaySourceSHA startedAt finishedAt native registry of
              (result, effects) \<Rightarrow> (result, map BackgroundDone effects))
      else (Inl ErrInvalidRunPlan, []))"

end
