(* ===== verification/Background_Facts.thy ===== *)
theory Background_Facts
  imports Background Run_Facts
begin

text \<open>
  Invariants of the background processes.  \<open>transitions\<close> is the interface of a step relation
  with an invariant; it is interpreted on the steps of the whole system with the invariant of
  the registry, and on the steps of one entry.
\<close>

locale transitions =
  fixes init :: 's and step :: "'s \<Rightarrow> 's \<Rightarrow> bool" and good :: "'s \<Rightarrow> bool"
  assumes start: "good init"
    and preserved: "good s \<Longrightarrow> step s t \<Longrightarrow> good t"
begin

lemma run: "step\<^sup>*\<^sup>* s t \<Longrightarrow> good s \<Longrightarrow> good t"
  by (induction rule: rtranclp_induct) (auto intro: preserved)

lemma reachable: "step\<^sup>*\<^sup>* init t \<Longrightarrow> good t"
  using run start by blast

text \<open>What every step from a good state keeps, every run from a good state keeps.\<close>

lemma kept:
  assumes "step\<^sup>*\<^sup>* s t" and "good s" and "\<And>x y. good x \<Longrightarrow> step x y \<Longrightarrow> P x \<Longrightarrow> P y" and "P s"
  shows "P t"
proof -
  have "good t \<and> P t"
    using assms by (induction rule: rtranclp_induct) (auto intro: preserved)
  then show ?thesis by simp
qed

end

section \<open>One entry\<close>

definition entryPhase :: "backgroundProcess \<Rightarrow> bool" where
  "entryPhase e \<longleftrightarrow>
     (if bp_done e
      then bp_phase e = MonitorDone \<and> bp_state e \<noteq> backgroundRunning \<and> bp_finishedAt e \<noteq> None
      else bp_phase e \<noteq> MonitorDone \<and> bp_state e = backgroundRunning \<and> bp_finishedAt e = None)
     \<and> bp_reason e \<in> {[], backgroundStopped, backgroundTimedOut}
     \<and> (case bp_phase e of
          MonitorExiting state received \<Rightarrow> state \<in> {backgroundExited, backgroundStopped} \<and> \<not> bp_tree e
            \<and> bp_reason e \<noteq> backgroundTimedOut
        | MonitorKilling \<Rightarrow> bp_reason e = backgroundTimedOut
        | MonitorDraining reason \<Rightarrow> reason = backgroundStopped \<and> bp_reason e \<noteq> backgroundTimedOut
        | MonitorDone \<Rightarrow> True
        | _ \<Rightarrow> bp_reason e \<noteq> backgroundTimedOut)"

text \<open>The table of states, exit codes and the process tree.\<close>

definition entryTable :: "backgroundProcess \<Rightarrow> bool" where
  "entryTable e \<longleftrightarrow>
     (bp_state e \<in> {backgroundExited, backgroundStopped} \<and> \<not> bp_tree e
        \<and> (\<exists>c. bp_exitCode e = Some c \<and> 0 \<le> c \<and> c \<le> maxExitCode))
     \<or> (bp_state e = backgroundTimedOut \<and> \<not> bp_tree e \<and> bp_exitCode e = None)
     \<or> (bp_state e \<in> {backgroundRunning, backgroundRuntimeFailed} \<and> bp_exitCode e = None)"

definition entryGood :: "backgroundProcess \<Rightarrow> bool" where
  "entryGood e \<longleftrightarrow> entryPhase e \<and> entryTable e"

lemmas entry_defs = entryGood_def entryPhase_def entryTable_def background_states

lemma newEntry_good: "entryGood (newEntry plan now out err)"
  by (simp add: newEntry_def entry_defs)

lemma setReason_good:
  assumes "entryGood e"
  shows "entryGood (setReason backgroundStopped e)"
proof (cases "bp_reason e = []")
  case True
  then show ?thesis
    using assms by (cases "bp_phase e"; cases "bp_done e") (auto simp: setReason_def entry_defs)
qed (use assms in \<open>simp add: setReason_def\<close>)

lemma writes_good:
  "entryGood e \<Longrightarrow> entryGood (e\<lparr>bp_stdout := out, bp_stderr := err\<rparr>)"
  by (cases "bp_phase e"; cases "bp_done e") (auto simp: entryGood_def entryPhase_def entryTable_def)

lemma killed_good:
  assumes "entryGood e"
  shows "entryGood (e\<lparr>bp_tree := False\<rparr>)"
  using assms by (cases "bp_phase e"; cases "bp_done e") (auto simp: entryGood_def entryPhase_def entryTable_def)

text \<open>Finishing an entry that is not done, with a state and exit code of the table.\<close>

definition outcomeOk :: "string \<Rightarrow> int option \<Rightarrow> bool \<Rightarrow> bool" where
  "outcomeOk state code tree \<longleftrightarrow>
     (state \<in> {backgroundExited, backgroundStopped} \<and> \<not> tree \<and> (\<exists>c. code = Some c \<and> 0 \<le> c \<and> c \<le> maxExitCode))
     \<or> (state = backgroundTimedOut \<and> \<not> tree \<and> code = None)
     \<or> (state = backgroundRuntimeFailed \<and> code = None)"

lemma finish_good:
  assumes "entryGood e" and "\<not> bp_done e" and "outcomeOk state code tree"
  shows "entryGood ((finish state code now e)\<lparr>bp_phase := MonitorDone, bp_tree := tree\<rparr>)"
proof -
  have e: "bp_exitCode e = None" "bp_reason e \<in> {[], backgroundStopped, backgroundTimedOut}"
    using assms(1,2) by (auto simp: entry_defs)
  have "state \<noteq> backgroundRunning" using assms(3) by (auto simp: outcomeOk_def background_states)
  then have "entryPhase ((finish state code now e)\<lparr>bp_phase := MonitorDone, bp_tree := tree\<rparr>)"
    using assms(2) e(2) by (simp add: finish_def entryPhase_def)
  moreover have "entryTable ((finish state code now e)\<lparr>bp_phase := MonitorDone, bp_tree := tree\<rparr>)"
    using assms(2,3) e(1) by (cases code) (auto simp: finish_def entryTable_def outcomeOk_def)
  ultimately show ?thesis by (simp add: entryGood_def)
qed

lemma finish_good': "entryGood e \<Longrightarrow> \<not> bp_done e \<Longrightarrow> outcomeOk state code (bp_tree e) \<Longrightarrow>
    entryGood ((finish state code now e)\<lparr>bp_phase := MonitorDone\<rparr>)"
proof -
  assume a: "entryGood e" "\<not> bp_done e" "outcomeOk state code (bp_tree e)"
  have "(finish state code now e)\<lparr>bp_phase := MonitorDone\<rparr>
      = (finish state code now e)\<lparr>bp_phase := MonitorDone, bp_tree := bp_tree e\<rparr>"
    by (simp add: finish_def)
  with finish_good [OF a] show "entryGood ((finish state code now e)\<lparr>bp_phase := MonitorDone\<rparr>)"
    by metis
qed

lemma failed_outcome [simp]: "outcomeOk backgroundRuntimeFailed None tree"
  by (simp add: outcomeOk_def)

lemma timedOut_outcome [simp]: "outcomeOk backgroundTimedOut None False"
  by (simp add: outcomeOk_def)

lemma exit_outcome:
  "\<not> exitInvalid received \<Longrightarrow> state \<in> {backgroundExited, backgroundStopped} \<Longrightarrow>
     outcomeOk state (Some (pe_Code (the received))) False"
  by (auto simp: exitInvalid_def outcomeOk_def split: option.splits)

text \<open>An entry that goes on to another phase with the fields that phase asks for.\<close>

lemma advance_good:
  assumes "entryGood e" and "\<not> bp_done e" and "entryPhase e'" and "bp_state e' = bp_state e"
    and "bp_exitCode e' = bp_exitCode e"
  shows "entryGood e'"
proof -
  have "bp_state e = backgroundRunning" "bp_exitCode e = None"
    using assms(1,2) by (auto simp: entry_defs)
  then show ?thesis using assms(3-5) by (simp add: entryGood_def entryTable_def)
qed

lemma not_done_phase: "entryGood e \<Longrightarrow> \<not> bp_done e \<longleftrightarrow> bp_phase e \<noteq> MonitorDone"
  by (auto simp: entryGood_def entryPhase_def split: if_splits)

lemma monitor_good:
  assumes "monitorBackground event now e = Some e'" and "entryGood e"
  shows "entryGood e'"
proof (cases "bp_phase e")
  case MonitorNew
  then have live: "\<not> bp_done e" using not_done_phase assms(2) by simp
  have "entryGood (e\<lparr>bp_phase := MonitorWaiting\<rparr>)"
    using assms(2) live MonitorNew by (intro advance_good [OF assms(2) live]) (auto simp: entryGood_def entryPhase_def)
  then show ?thesis
    using assms live MonitorNew
    by (cases event) (auto simp: monitorBackground_def intro: finish_good finish_good')
next
  case MonitorWaiting
  then have live: "\<not> bp_done e" and r: "bp_reason e \<in> {[], backgroundStopped}"
    using not_done_phase assms(2) by (auto simp: entryGood_def entryPhase_def)
  have "entryGood (e\<lparr>bp_phase := MonitorExiting (reasonOr e backgroundExited) received, bp_tree := False\<rparr>)"
    for received
    using assms(2) live r by (intro advance_good [OF assms(2) live]) (auto simp: entry_defs reasonOr_def)
  moreover have "entryGood (e\<lparr>bp_reason := backgroundTimedOut, bp_phase := MonitorKilling\<rparr>)"
    using assms(2) live by (intro advance_good [OF assms(2) live]) (auto simp: entry_defs)
  moreover have "entryGood (e\<lparr>bp_phase := MonitorDraining (bp_reason e)\<rparr>)" if "bp_reason e \<noteq> []"
    using assms(2) live r that by (intro advance_good [OF assms(2) live]) (auto simp: entry_defs)
  ultimately show ?thesis
    using assms(1) MonitorWaiting r
    by (cases event; cases "bp_reason e = []")
      (auto simp: monitorBackground_def setReason_def Let_def background_states)
next
  case (MonitorExiting state received)
  then have "\<not> bp_done e" "\<not> bp_tree e" "state \<in> {backgroundExited, backgroundStopped}"
    using not_done_phase assms(2) by (auto simp: entryGood_def entryPhase_def)
  then show ?thesis
    using assms MonitorExiting exit_outcome
    by (cases event) (auto simp: monitorBackground_def intro!: finish_good' split: if_splits)
next
  case MonitorKilling
  then have "\<not> bp_done e" using not_done_phase assms(2) by simp
  then show ?thesis
    using assms MonitorKilling
    by (cases event) (auto simp: monitorBackground_def intro!: finish_good split: if_splits)
next
  case (MonitorDraining reason)
  then have live: "\<not> bp_done e" and "reason = backgroundStopped" "bp_reason e \<noteq> backgroundTimedOut"
    using not_done_phase assms(2) by (auto simp: entryGood_def entryPhase_def)
  then have "entryGood (e\<lparr>bp_phase := MonitorExiting reason received, bp_tree := False\<rparr>)" for received
    using assms(2) by (intro advance_good [OF assms(2) live]) (auto simp: entry_defs)
  then show ?thesis
    using assms(1) MonitorDraining by (cases event) (auto simp: monitorBackground_def)
next
  case MonitorDone
  then show ?thesis using assms(1) by (cases event) (auto simp: monitorBackground_def)
qed

text \<open>A finished entry keeps its state, its exit code and its time.\<close>

definition finishedAs :: "string \<times> instant option \<times> int option \<Rightarrow> backgroundProcess \<Rightarrow> bool" where
  "finishedAs r e \<longleftrightarrow> bp_done e \<and> (bp_state e, bp_finishedAt e, bp_exitCode e) = r"

lemma monitor_finished:
  assumes "monitorBackground event now e = Some e'" and "entryGood e"
  shows "\<not> bp_done e"
  using assms not_done_phase [OF assms(2)] by (auto simp: monitorBackground_def)

section \<open>The registry\<close>

definition requestTargets :: "RequestPhase \<Rightarrow> nat set" where
  "requestTargets phase = (case phase of
     StopFound a \<Rightarrow> {a} | StopMarking a \<Rightarrow> {a} | StopKilling a \<Rightarrow> {a} | StopWaiting a \<Rightarrow> {a}
   | StopRemoving a \<Rightarrow> {a} | StopReturned r \<Rightarrow> set_option r
   | CloseNext as _ \<Rightarrow> set as | CloseMarking a as _ \<Rightarrow> insert a (set as)
   | CloseKilling a as _ \<Rightarrow> insert a (set as) | CloseWaiting a as _ \<Rightarrow> insert a (set as)
   | CloseReturned _ \<Rightarrow> {})"

definition mustBeDone :: "RequestPhase \<Rightarrow> nat set" where
  "mustBeDone phase = (case phase of StopRemoving a \<Rightarrow> {a} | StopReturned r \<Rightarrow> set_option r | _ \<Rightarrow> {})"

definition registryGood :: "System \<Rightarrow> bool" where
  "registryGood s \<longleftrightarrow>
     distinct (map fst (sy_background s)) \<and> distinct (map snd (sy_background s))
     \<and> length (sy_background s) \<le> maxBackgroundProcesses
     \<and> snd ` set (sy_background s) \<subseteq> {..<length (sy_heap s)}
     \<and> (\<forall>a<length (sy_heap s). bp_done (sy_heap s ! a) \<or> a \<in> snd ` set (sy_background s))"

definition requestsGood :: "System \<Rightarrow> bool" where
  "requestsGood s \<longleftrightarrow> (\<forall>r\<in>set (sy_requests s). requestTargets (snd r) \<subseteq> {..<length (sy_heap s)}
     \<and> (\<forall>a\<in>mustBeDone (snd r). bp_done (sy_heap s ! a)))"

definition systemGood :: "System \<Rightarrow> bool" where
  "systemGood s \<longleftrightarrow> (\<forall>e\<in>set (sy_heap s). entryGood e) \<and> registryGood s \<and> requestsGood s"

lemma initSystem_good: "systemGood initSystem"
  by (simp add: systemGood_def registryGood_def requestsGood_def initSystem_def)

text \<open>Updating an entry without undoing its end keeps the invariant.\<close>

lemma updateEntry_good:
  assumes "systemGood s" and "a < length (sy_heap s)" and "entryGood (f (sy_heap s ! a))"
    and "bp_done (sy_heap s ! a) \<Longrightarrow> bp_done (f (sy_heap s ! a))"
  shows "systemGood (updateEntry a f s)"
proof -
  have "\<forall>e\<in>set (sy_heap (updateEntry a f s)). entryGood e"
    using assms(1,3) set_update_subset_insert [of "sy_heap s" a]
    by (auto simp: updateEntry_def systemGood_def)
  moreover have "registryGood (updateEntry a f s)"
    using assms by (auto simp: systemGood_def registryGood_def updateEntry_def nth_list_update)
  moreover have "requestsGood (updateEntry a f s)"
    using assms by (auto simp: systemGood_def requestsGood_def updateEntry_def nth_list_update)
  ultimately show ?thesis by (simp add: systemGood_def)
qed

lemma updateEntry_frame [simp]:
  "sy_requests (updateEntry a f s) = sy_requests s" "sy_background (updateEntry a f s) = sy_background s"
  "length (sy_heap (updateEntry a f s)) = length (sy_heap s)"
  by (simp_all add: updateEntry_def)

lemma findBackground_registered:
  assumes "findBackground s plan = Some a"
  shows "(backgroundKey (lp_SessionID plan) (lp_ProcessID plan), a) \<in> set (sy_background s)"
  using assms by (auto simp: findBackground_def split: option.splits if_splits dest: map_of_SomeD)

lemma start_good:
  assumes "systemGood s" and "startBackground grace plan now startError process s = ((r, s'), effects)"
  shows "systemGood s'"
proof (cases "s' = s")
  case False
  let ?key = "backgroundKey (lp_SessionID plan) (lp_ProcessID plan)"
  obtain c where fresh: "map_of (sy_background s) ?key = None" "length (sy_background s) < maxBackgroundProcesses"
    and s': "s' = s\<lparr>sy_heap := sy_heap s @ [newEntry plan now c c],
          sy_background := (?key, length (sy_heap s)) # sy_background s\<rparr>"
    using assms(2) False
    by (auto simp: startBackground_def Let_def split: if_splits sum.splits)
  have old: "\<forall>e\<in>set (sy_heap s). entryGood e" "registryGood s" "requestsGood s"
    using assms(1) by (simp_all add: systemGood_def)
  have "registryGood s'"
    using old(2) fresh by (auto simp: s' registryGood_def map_of_eq_None_iff nth_append less_Suc_eq)
  moreover have "requestsGood s'"
    using old(3) by (fastforce simp: s' requestsGood_def nth_append mustBeDone_def requestTargets_def
        split: RequestPhase.splits)
  ultimately show ?thesis using old(1) newEntry_good by (simp add: systemGood_def s')
qed (use assms in simp)

text \<open>
  A request in progress keeps the invariant when it is at a phase whose targets exist and, where
  it must be, have finished.
\<close>

definition phaseGood :: "System \<Rightarrow> RequestPhase \<Rightarrow> bool" where
  "phaseGood s phase \<longleftrightarrow> requestTargets phase \<subseteq> {..<length (sy_heap s)}
     \<and> (\<forall>a\<in>mustBeDone phase. bp_done (sy_heap s ! a))"

lemma requestsGood_alt: "requestsGood s \<longleftrightarrow> (\<forall>r\<in>set (sy_requests s). phaseGood s (snd r))"
  by (simp add: requestsGood_def phaseGood_def)

lemma systemGood_requests:
  "systemGood s \<Longrightarrow> (\<forall>r\<in>set rs. phaseGood s (snd r)) \<Longrightarrow> systemGood (s\<lparr>sy_requests := rs\<rparr>)"
  by (simp add: systemGood_def registryGood_def requestsGood_alt phaseGood_def)

lemma not_running_done: "entryGood e \<Longrightarrow> \<not> running e \<Longrightarrow> bp_done e"
  by (auto simp: entryGood_def entryPhase_def running_def split: if_splits)

lemma setReason_done [simp]: "bp_done (setReason r e) = bp_done e"
  by (simp add: setReason_def)

lemma removeBackground_good:
  assumes "systemGood s" and "bp_done (sy_heap s ! a)"
  shows "systemGood (removeBackground key a s)"
proof (cases "map_of (sy_background s) key = Some a")
  case True
  have reg: "registryGood s" using assms(1) by (simp add: systemGood_def)
  have stay: "a' \<in> snd ` set (filter (\<lambda>(k, b). k \<noteq> key) (sy_background s))"
    if mem: "a' \<in> snd ` set (sy_background s)" and other: "a' \<noteq> a" for a'
  proof -
    obtain k where "(k, a') \<in> set (sy_background s)" using mem by auto
    moreover from this have "k \<noteq> key"
      using True other reg unfolding registryGood_def by (metis map_of_eq_Some_iff option.inject)
    ultimately show ?thesis by force
  qed
  have "\<forall>x<length (sy_heap s). bp_done (sy_heap s ! x)
      \<or> x \<in> snd ` set (filter (\<lambda>(k, b). k \<noteq> key) (sy_background s))"
    using reg assms(2) stay unfolding registryGood_def by metis
  moreover have "snd ` set (filter (\<lambda>(k, b). k \<noteq> key) (sy_background s)) \<subseteq> {..<length (sy_heap s)}"
    using reg by (auto simp: registryGood_def)
  moreover have "length (filter (\<lambda>(k, b). k \<noteq> key) (sy_background s)) \<le> maxBackgroundProcesses"
    using reg by (auto simp: registryGood_def intro: order.trans [OF length_filter_le])
  ultimately have "registryGood (removeBackground key a s)"
    using reg True
    by (simp add: registryGood_def removeBackground_def distinct_map_filter)
  then show ?thesis
    using assms(1) True by (simp add: systemGood_def removeBackground_def requestsGood_def)
qed (use assms in \<open>simp add: removeBackground_def\<close>)

lemma removeBackground_frame [simp]:
  "sy_heap (removeBackground key a s) = sy_heap s" "sy_requests (removeBackground key a s) = sy_requests s"
  by (simp_all add: removeBackground_def)

lemma marked_good:
  "systemGood s \<Longrightarrow> a < length (sy_heap s) \<Longrightarrow> systemGood (updateEntry a (setReason backgroundStopped) s)"
  by (rule updateEntry_good) (auto simp: systemGood_def intro: setReason_good)

lemma treeGone_good:
  "systemGood s \<Longrightarrow> a < length (sy_heap s) \<Longrightarrow> systemGood (updateEntry a (\<lambda>e. e\<lparr>bp_tree := False\<rparr>) s)"
  by (rule updateEntry_good) (auto simp: systemGood_def intro: killed_good)

text \<open>The cases of a request step, one per phase and event that go together.\<close>

lemma requestStep_cases:
  assumes "requestStep key phase event s = Some (phase', s')" and "phaseGood s phase" and "systemGood s"
  shows "systemGood s' \<and> phaseGood s' phase' \<and> sy_requests s' = sy_requests s
    \<and> length (sy_heap s') = length (sy_heap s) \<and> (\<forall>a. bp_done (sy_heap s ! a) \<longrightarrow> bp_done (sy_heap s' ! a))"
proof -
  have ended: "bp_done (sy_heap s ! a)" if "\<not> running (sy_heap s ! a)" "a < length (sy_heap s)" for a
    using assms(3) that not_running_done by (auto simp: systemGood_def)
  have keep: "bp_done (sy_heap s ! b) \<longrightarrow> bp_done (sy_heap (updateEntry a f s) ! b)"
    if "\<And>e. bp_done (f e) = bp_done e" for a b f
  proof (cases "a < length (sy_heap s)")
    case True
    then show ?thesis using that by (simp add: updateEntry_def nth_list_update)
  next
    case False
    then show ?thesis by (simp add: updateEntry_def list_update_beyond)
  qed
  note unfold = requestStep_def phaseGood_def requestTargets_def mustBeDone_def
  show ?thesis
  proof (cases phase)
    case (StopFound a)
    then show ?thesis
      using assms ended [of a] by (cases event; cases "running (sy_heap s ! a)") (auto simp: unfold)
  next
    case (StopMarking a)
    then show ?thesis using assms keep marked_good by (cases event) (auto simp: unfold)
  next
    case (StopKilling a)
    then show ?thesis using assms keep treeGone_good by (cases event) (auto simp: unfold split: if_splits)
  next
    case (StopWaiting a)
    then show ?thesis using assms by (cases event) (auto simp: unfold split: if_splits)
  next
    case (StopRemoving a)
    then show ?thesis using assms removeBackground_good by (cases event) (auto simp: unfold)
  next
    case (StopReturned r)
    then show ?thesis using assms by (cases event) (auto simp: unfold)
  next
    case (CloseNext as failed)
    show ?thesis
    proof (cases "as")
      case Nil
      then show ?thesis using CloseNext assms by (cases event) (auto simp: unfold)
    next
      case (Cons a rest)
      then show ?thesis
        using CloseNext assms by (cases event; cases "running (sy_heap s ! a)") (auto simp: unfold)
    qed
  next
    case (CloseMarking a as failed)
    then show ?thesis using assms keep marked_good by (cases event) (auto simp: unfold)
  next
    case (CloseKilling a as failed)
    then show ?thesis using assms keep treeGone_good by (cases event) (auto simp: unfold split: if_splits)
  next
    case (CloseWaiting a as failed)
    then show ?thesis using assms by (cases event) (auto simp: unfold split: if_splits)
  next
    case (CloseReturned failed)
    then show ?thesis using assms by (cases event) (auto simp: unfold)
  qed
qed

lemma request_good:
  assumes "systemGood s" and "i < length (sy_requests s)" and "sy_requests s ! i = (key, phase)"
    and "requestStep key phase event s = Some (phase', s')"
  shows "systemGood (s'\<lparr>sy_requests := (sy_requests s)[i := (key, phase')]\<rparr>)"
proof -
  have rs: "\<forall>r\<in>set (sy_requests s). phaseGood s (snd r)"
    using assms(1) by (simp add: systemGood_def requestsGood_alt)
  then have "phaseGood s phase" using assms(2,3) by (metis nth_mem snd_conv)
  from requestStep_cases [OF assms(4) this assms(1)]
  have new: "systemGood s'" "phaseGood s' phase'" "length (sy_heap s') = length (sy_heap s)"
    "\<forall>a. bp_done (sy_heap s ! a) \<longrightarrow> bp_done (sy_heap s' ! a)" by auto
  have "\<forall>r\<in>set (sy_requests s). phaseGood s' (snd r)" using rs new(3,4) by (simp add: phaseGood_def)
  then have "\<forall>r\<in>set ((sy_requests s)[i := (key, phase')]). phaseGood s' (snd r)"
    using new(2) set_update_subset_insert [of "sy_requests s" i "(key, phase')"] by auto
  with new(1) show ?thesis by (rule systemGood_requests)
qed

lemma beginStop_good:
  assumes "systemGood s"
  shows "systemGood (beginStop plan s)"
proof -
  have reg: "snd ` set (sy_background s) \<subseteq> {..<length (sy_heap s)}"
    using assms by (simp add: systemGood_def registryGood_def)
  have "phaseGood s (case findBackground s plan of None \<Rightarrow> StopReturned None | Some a \<Rightarrow> StopFound a)"
    using findBackground_registered [of s plan] reg
    by (force simp: phaseGood_def requestTargets_def mustBeDone_def split: option.splits)
  then show ?thesis
    using assms unfolding beginStop_def by (intro systemGood_requests) (auto simp: systemGood_def requestsGood_alt)
qed

lemma beginClose_good:
  assumes "systemGood s" and "mset entries = mset (map snd (sy_background s))"
  shows "systemGood (beginClose entries s)"
proof -
  have "set entries = snd ` set (sy_background s)"
    using mset_eq_setD [OF assms(2)] by simp
  then have "phaseGood s (CloseNext entries False)"
    using assms(1) by (simp add: phaseGood_def requestTargets_def mustBeDone_def systemGood_def registryGood_def)
  then show ?thesis
    using assms unfolding beginClose_def by (intro systemGood_requests) (auto simp: systemGood_def requestsGood_alt)
qed

lemma sysStep_good:
  assumes "systemGood s" and "sysStep s s'"
  shows "systemGood s'"
  using assms(2)
proof cases
  case (start grace plan now startError process r effects)
  then show ?thesis using start_good assms(1) by blast
next
  case (writes a out err)
  then show ?thesis using assms(1)
    by (simp only:) (rule updateEntry_good, auto simp: systemGood_def intro: writes_good)
next
  case (monitor a event now e)
  then have "\<not> bp_done (sy_heap s ! a)"
    using monitor_finished assms(1) by (auto simp: systemGood_def)
  then show ?thesis
    using assms(1) monitor by (simp only:) (rule updateEntry_good, auto simp: systemGood_def intro: monitor_good)
next
  case (stop plan)
  then show ?thesis using assms(1) beginStop_good by simp
next
  case (close entries)
  then show ?thesis using assms(1) beginClose_good by simp
next
  case (request i key phase event phase' t)
  then show ?thesis using assms(1) request_good by blast
qed

interpretation background: transitions initSystem sysStep systemGood
  by unfold_locales (auto intro: initSystem_good sysStep_good)

end
