(* ===== verification/Samples.thy ===== *)
theory Samples
  imports Protocol_Records Workload_Env
begin

text \<open>
  Concrete records at which the properties are exercised: a Linux installation, a request with
  one artifact selection, its accepted record, a report, a result.  The digests in them are the
  digests of the model, kept symbolic.
\<close>

definition sampleConfig :: Config where
  "sampleConfig =
     \<lparr>cf_ConfigVersion = 1, cf_Platform = ''linux'',
      cf_ControlIdentity = \<lparr>pr_Name = ''awg-control'', pr_Identifier = ''uid:1001'',
        pr_PrimaryGroupIdentifier = ''gid:1001''\<rparr>,
      cf_ExecutionIdentity = \<lparr>pr_Name = ''awg-exec'', pr_Identifier = ''uid:1002'',
        pr_PrimaryGroupIdentifier = ''gid:1002''\<rparr>,
      cf_ApprovedRoots = Some [''/srv/projects''],
      cf_Shells = Some [\<lparr>sb_Shell = ''bash'', sb_Executable = ''/bin/bash''\<rparr>],
      cf_ProfileRoot = ''/var/lib/awg/profile'', cf_TempRoot = ''/var/lib/awg/tmp'',
      cf_PathEntries = Some [''/usr/bin'', ''/bin''], cf_Capabilities = Some []\<rparr>"

lemma sampleConfig_valid: "ValidateConfig sampleConfig = Inr ()"
  by code_simp

definition sampleRequest :: Request where
  "sampleRequest =
     \<lparr>rq_ProtocolVersion = 1, rq_RequestID = ''req-000001'', rq_SessionID = ''example-session'',
      rq_Actor = ''codex'', rq_Operation = ''execute'', rq_ProcessID = [], rq_Shell = ''bash'',
      rq_WorkingDirectory = ''/srv/projects/demo'', rq_Script = ''ls'', rq_TimeoutSeconds = 900,
      rq_MaxOutputBytes = 1048576,
      rq_Artifacts = Some [\<lparr>sel_Name = ''results'', sel_Paths = [''reports/*.json'']\<rparr>]\<rparr>"

lemma sampleRequest_valid: "ValidateRequest sampleRequest = Inr ()"
  by code_simp

lemma sampleRequest_size: "length (encodeJson (requestJson sampleRequest)) \<le> MaxRequestBytes"
  by code_simp

definition sampleDigest :: string where
  "sampleDigest = sha256Hex (encodeJson (requestJson sampleRequest))"

lemma sampleDigest_request: "DigestRequest sampleRequest = Inr sampleDigest"
  by (simp add: DigestRequest_ok sampleRequest_valid sampleRequest_size sampleDigest_def)

definition sampleIssue :: IssueProvenance where
  "sampleIssue = \<lparr>is_Number = 42, is_NodeID = ''ISSUE_node_42'', is_SenderID = 1001,
     is_SenderLogin = ''alice-example''\<rparr>"

definition sampleWorkflow :: WorkflowProvenance where
  "sampleWorkflow = \<lparr>wf_Repository = ''alice/example-control'', wf_RunID = 9001, wf_RunAttempt = 1,
     wf_EventName = ''issues'', wf_EventAction = ''opened'', wf_HeadSHA = replicate 40 CHR ''a''\<rparr>"

definition sampleInstant :: instant where
  "sampleInstant = 1788372000000000000"

definition sampleTime :: string where "sampleTime = formatRFC3339Nano sampleInstant"

lemma sampleInstant_year: "0 \<le> yearOf sampleInstant \<and> yearOf sampleInstant \<le> 9999"
  by code_simp

lemma sampleTime_ok: "validateCanonicalUTCTimestamp field sampleTime = Inr sampleInstant"
  using sampleInstant_year by (simp add: timestamp_ok sampleTime_def)

lemma sampleIssue_ok: "validateIssueProvenance sampleIssue = Inr ()"
  by code_simp

lemma sampleWorkflow_ok: "validateWorkflowProvenance sampleWorkflow = Inr ()"
  by code_simp

definition sampleAccepted :: AcceptedRequestRecord where
  "sampleAccepted =
     \<lparr>ar_ProtocolVersion = 1, ar_RequestID = ''req-000001'', ar_RequestDigest = sampleDigest,
      ar_Request = sampleRequest, ar_Issue = sampleIssue, ar_Workflow = sampleWorkflow,
      ar_ControlSourceSHA = replicate 40 CHR ''b'', ar_AcceptedAt = sampleTime\<rparr>"

lemma sampleAccepted_valid: "ValidateAcceptedRequestRecord sampleAccepted = Inr ()"
proof -
  have "identifierPattern ''req-000001''" "isLowerHex 40 (replicate 40 CHR ''b'')" by code_simp+
  then show ?thesis
    using sampleDigest_request sampleIssue_ok sampleWorkflow_ok sampleTime_ok
    by (simp add: ValidateAcceptedRequestRecord_ok sampleAccepted_def Version_def)
      (simp add: sampleRequest_def)
qed

definition sampleOutput :: OutputMetadata where
  "sampleOutput = \<lparr>om_SHA256 = sha256Hex ''ok'', om_TotalBytes = 2, om_RetainedBytes = 2, om_Truncated = False\<rparr>"

definition sampleFile :: ArtifactFile where
  "sampleFile = \<lparr>af_Group = ''results'', af_Path = ''reports/a.json'', af_SHA256 = sha256Hex ''{}'',
     af_SizeBytes = 2\<rparr>"

definition sampleManifest :: ArtifactManifest where
  "sampleManifest = \<lparr>am_Status = ''complete'', am_Files = Some [sampleFile], am_Omissions = Some []\<rparr>"

lemma sampleManifest_valid: "validateArtifactManifest sampleManifest = Inr ()"
proof -
  have "validGroup ''results''" "validateArtifactFilePath ''reports/a.json'' = Inr ()" by code_simp+
  then have "fileOk sampleFile" by (simp add: fileOk_def sampleFile_def limit_defs)
  then show ?thesis
    by (simp add: validateArtifactManifest_ok sampleManifest_def validateArtifactStatusShape_def
        supportedArtifactStatuses_def artifact_status_defs limit_defs) (simp add: sampleFile_def)
qed

definition sampleReport :: ExecutionReport where
  "sampleReport =
     \<lparr>er_ProtocolVersion = 1, er_RequestID = ''req-000001'', er_RequestDigest = sampleDigest,
      er_AttemptID = ''attempt-000001'', er_GatewaySourceSHA = replicate 40 CHR ''c'',
      er_CommandStatus = ''completed'', er_ExitCode = Some 0, er_StartedAt = sampleTime,
      er_FinishedAt = sampleTime, er_DurationMilliseconds = 0, er_Stdout = sampleOutput,
      er_Stderr = sampleOutput, er_Artifacts = sampleManifest\<rparr>"

lemma sampleReport_valid: "ValidateExecutionReport sampleReport = Inr ()"
proof -
  have "identifierPattern ''req-000001''" "identifierPattern ''attempt-000001''"
    "isLowerHex 40 (replicate 40 CHR ''c'')" "validateCommandOutcome ''completed'' (Some 0) = Inr ()"
    by code_simp+
  moreover have "outputOk sampleOutput" by (simp add: outputOk_def sampleOutput_def limit_defs)
  moreover have "milliseconds (subTime sampleInstant sampleInstant) = 0" by code_simp
  ultimately show ?thesis
    using sampleTime_ok sampleManifest_valid
    by (simp add: ValidateExecutionReport_ok sampleReport_def Version_def sampleDigest_def)
qed

lemma sampleBinding_valid: "ValidateExecutionReportBinding sampleAccepted sampleReport = Inr ()"
  using sampleAccepted_valid sampleReport_valid
  by (simp add: ValidateExecutionReportBinding_ok)
    (simp add: sampleAccepted_def sampleReport_def sampleOutput_def sampleManifest_def sampleFile_def
      sampleRequest_def acceptedArtifactGroups_def artifact_status_defs)

lemma sampleResult_valid:
  "ValidateResultBinding sampleAccepted (finalizedResult sampleReport sampleTime sampleWorkflow) = Inr ()"
proof -
  have "ValidateResultRecord (finalizedResult sampleReport sampleTime sampleWorkflow) = Inr ()"
    using sampleReport_valid sampleTime_ok sampleWorkflow_ok
    by (simp add: ValidateResultRecord_ok) (simp add: finalizedResult_def sampleReport_def)
  then show ?thesis
    using sampleBinding_valid by (simp add: ValidateResultBinding_def) (simp add: sampleAccepted_def)
qed

definition sampleContext :: EnvContext where
  "sampleContext = \<lparr>cx_RequestID = ''req-000001'', cx_SessionID = ''example-session'',
     cx_AttemptID = ''attempt-000001''\<rparr>"

definition sampleBase :: "string list" where
  "sampleBase = [''LANG=C.UTF-8'', ''GITHUB_TOKEN=secret'']"

lemma sampleEnvironment:
  "BuildEnvironment sampleConfig sampleBase sampleContext
     = Inr (sortedEnvironment ''linux'' ((''LANG'', ''C.UTF-8'') # gatewayValues sampleConfig sampleContext))"
proof -
  have c: "contributions ''linux'' sampleBase = [(''LANG'', ''C.UTF-8'')]" by code_simp
  have e: "list_all (entryOk ''linux'') sampleBase"
    by (simp add: sampleBase_def entryOk_def contribution_def canonicalName_def platform_defs
        linuxSafeBaseNames_def hasPrefix_def containsAny_def maxEntryBytes_def) code_simp
  have "identifierPattern (cx_RequestID sampleContext)" "identifierPattern (cx_SessionID sampleContext)"
    "identifierPattern (cx_AttemptID sampleContext)" "length sampleBase \<le> maxBaseEntries"
    by code_simp+
  moreover have "cf_Platform sampleConfig = ''linux''" by (simp add: sampleConfig_def)
  ultimately show ?thesis
    using sampleConfig_valid c e
    by (simp add: BuildEnvironment_ok systemPathsOk_def platform_defs list_all_iff)
qed

end
