(* ===== verification/Run_Samples.thy ===== *)
theory Run_Samples
  imports Run_Facts Samples
begin

text \<open>
  A concrete foreground run: the plan of the sample request, a process that writes one line
  and exits with 0, and a collector that returns one file with a bundle.
\<close>

definition samplePlan :: LaunchPlan where
  "samplePlan =
     \<lparr>lp_RequestID = ''req-000001'', lp_RequestDigest = sampleDigest, lp_SessionID = ''example-session'',
      lp_AttemptID = ''attempt-000001'', lp_Operation = ''execute'', lp_ProcessID = [],
      lp_ExecutionIdentity = cf_ExecutionIdentity sampleConfig, lp_Shell = ''bash'',
      lp_Executable = ''/bin/bash'', lp_WorkingDirectory = ''/srv/projects/demo'',
      lp_ApprovedRoot = ''/srv/projects'', lp_Script = ''ls'', lp_TimeoutSeconds = 900,
      lp_MaxOutputBytes = 1048576,
      lp_Artifacts = [\<lparr>sel_Name = ''results'', sel_Paths = [''reports/*.json'']\<rparr>],
      lp_Environment = [], lp_Capabilities = []\<rparr>"

definition sampleSHA :: string where "sampleSHA = replicate 40 CHR ''c''"

definition sampleNative :: Native where
  "sampleNative =
     \<lparr>nt_StartError = False, nt_Process = True, nt_ExitChannel = True, nt_Timer = True, nt_TimerChannel = True,
      nt_Select = ExitReceived (Some (ProcessExit 0 False)), nt_TerminateError = False,
      nt_Stdout = [''ok''], nt_Stderr = []\<rparr>"

definition sampleRunner :: "nat Runner" where
  "sampleRunner =
     \<lparr>rn_collector = Some (\<lambda>_. (\<lparr>ac_Manifest = sampleManifest, ac_Bundle = Some 7\<rparr>, False)),
      rn_treeTerminationGrace = defaultTreeTerminationGrace,
      rn_artifactCollectionTimeout = defaultArtifactCollectionTimeout\<rparr>"

lemma sampleRunner_new:
  "NewRunner True (rn_collector sampleRunner)
     \<lparr>op_TreeTerminationGrace = 0, op_ArtifactCollectionTimeout = 0\<rparr> = Inr sampleRunner"
  by (simp add: NewRunner_def sampleRunner_def)

lemma samplePlan_fields [simp]:
  "lp_RequestID samplePlan = ''req-000001''" "lp_RequestDigest samplePlan = sampleDigest"
  "lp_AttemptID samplePlan = ''attempt-000001''" "lp_TimeoutSeconds samplePlan = 900"
  "lp_MaxOutputBytes samplePlan = 1048576"
  "lp_Artifacts samplePlan = [\<lparr>sel_Name = ''results'', sel_Paths = [''reports/*.json'']\<rparr>]"
  "lp_Operation samplePlan = ''execute''" "lp_SessionID samplePlan = ''example-session''"
  by (simp_all add: samplePlan_def)

lemma sampleYear: "reportableYear sampleInstant"
  using sampleInstant_year by (simp add: reportableYear_def)

lemma sampleBindings: "planBindings samplePlan sampleSHA"
proof -
  have "identifierPattern ''req-000001''" "identifierPattern ''attempt-000001''" "isLowerHex 40 sampleSHA"
    by code_simp+
  then show ?thesis by (simp add: planBindings_def sampleDigest_def)
qed

lemma samplePrepared:
  "\<exists>c l. prepareForeground samplePlan sampleSHA sampleInstant = Inr (c, c, l)
     \<and> NewCapture (lp_MaxOutputBytes samplePlan) = Inr c"
proof -
  have "validateArtifactManifest (failedArtifactManifest
      [\<lparr>sel_Name = ''results'', sel_Paths = [''reports/*.json'']\<rparr>]) = Inr ()" by code_simp
  moreover have "\<exists>i. BuildInvocation samplePlan = Inr i"
    by (simp add: BuildInvocation_def samplePlan_def shellArguments_def shell_defs)
  moreover have "planLimits samplePlan" by (simp add: planLimits_def limit_defs)
  moreover have "\<exists>c. NewCapture (lp_MaxOutputBytes samplePlan) = Inr c" by (simp add: NewCapture_def limit_defs)
  ultimately show ?thesis using sampleYear sampleBindings by (auto simp: prepareForeground_ok)
qed

lemma sampleLaunch:
  "launchProcess sampleRunner samplePlan sampleNative
     = ((CommandStatusCompleted, Some 0, True), [TimerArmed (wrapInt64 (900 * second)), TimerStopped])"
  by (simp add: launchProcess_def awaitProcess_def selectOutcome_def sampleNative_def maxExitCode_def Let_def)

lemma sampleCollect:
  "collectArtifacts sampleRunner samplePlan
     = ((sampleManifest, Some 7), [Collected defaultArtifactCollectionTimeout (artifactPlan samplePlan)])"
proof -
  have "Match ''reports/*.json'' ''reports/a.json'' = Some True" by code_simp
  then have "artifactCollectionAllowed sampleManifest (lp_Artifacts samplePlan)"
    by (auto simp: artifactCollectionAllowed_def sampleManifest_def sampleFile_def fileSelected_def
        selectionPatterns_def artifact_status_defs)
  moreover have "sl (am_Files sampleManifest) \<noteq> []" by (simp add: sampleManifest_def)
  ultimately show ?thesis by (simp add: collectArtifacts_def sampleRunner_def)
qed

lemma sampleStreams:
  "length (concat (nt_Stdout sampleNative)) < 2 ^ 63" "length (concat (nt_Stderr sampleNative)) < 2 ^ 63"
  by (simp_all add: sampleNative_def)

lemma sampleRun:
  "\<exists>out l. runForeground sampleRunner samplePlan sampleSHA sampleInstant sampleInstant sampleNative
       = (Inr out, [Started l, TimerArmed (wrapInt64 (900 * second)), TimerStopped,
           Collected defaultArtifactCollectionTimeout (artifactPlan samplePlan)])
     \<and> ot_ArtifactBundle out = Some 7"
proof -
  obtain c l where p: "prepareForeground samplePlan sampleSHA sampleInstant = Inr (c, c, l)"
    using samplePrepared by blast
  have off: "offered sampleRunner samplePlan True = ((sampleManifest, Some 7),
      [Collected defaultArtifactCollectionTimeout (artifactPlan samplePlan)])"
    by (simp add: offered_def sampleCollect)
  show ?thesis
    using completeForeground_ok(1) [OF p order.refl sampleYear launchProcess_outcome [OF sampleLaunch] sampleStreams off]
    by (simp add: runForeground_def p sampleLaunch sampleManifest_valid)
qed

end
