(* ===== verification/Background_Properties.thy ===== *)
theory Background_Properties
  imports Background_Facts Run_Samples
begin

text \<open>
  Properties of the background processes over every interleaving of requests, monitors, process
  output and timers, and of the answers to background requests.
\<close>

section \<open>The registry\<close>

text \<open>
  C23. No running process is ever forgotten: in every reachable state the registry holds at most 32
  entries under distinct keys, and every entry ever started is registered or has finished; so a
  process that still runs can be found, stopped and closed.
\<close>
theorem running_is_registered:
  assumes "sysStep\<^sup>*\<^sup>* initSystem s"
  shows "length (sy_background s) \<le> maxBackgroundProcesses \<and> distinct (map fst (sy_background s))
    \<and> (\<forall>a<length (sy_heap s). running (sy_heap s ! a) \<longrightarrow> (\<exists>key. map_of (sy_background s) key = Some a))"
proof -
  have good: "systemGood s" by (rule background.reachable [OF assms])
  then have reg: "registryGood s" by (simp add: systemGood_def)
  have "\<exists>key. map_of (sy_background s) key = Some a"
    if "a < length (sy_heap s)" "running (sy_heap s ! a)" for a
  proof -
    have "entryGood (sy_heap s ! a)" using good that(1) by (simp add: systemGood_def)
    then have "\<not> bp_done (sy_heap s ! a)" using that(2) by (auto simp: entryGood_def entryPhase_def running_def)
    then have "a \<in> snd ` set (sy_background s)" using reg that(1) by (auto simp: registryGood_def)
    then obtain key where "(key, a) \<in> set (sy_background s)" by auto
    then show ?thesis using reg by (auto simp: registryGood_def intro: map_of_is_SomeI)
  qed
  then show ?thesis using reg by (simp add: registryGood_def)
qed

text \<open>
  C24. The states of a background process: a state other than running comes with a finish time
  and only then; "exited" and "stopped" carry an exit code of the platform's range and mean that
  the process tree is gone; "timed out" means that its tree was terminated; a running process and
  a runtime failure have no exit code.
\<close>
theorem background_state_table:
  assumes "sysStep\<^sup>*\<^sup>* initSystem s" and "a < length (sy_heap s)"
  defines "e \<equiv> sy_heap s ! a"
  shows "(bp_state e = backgroundRunning \<and> bp_finishedAt e = None \<and> bp_exitCode e = None)
    \<or> (bp_finishedAt e \<noteq> None \<and>
        ((bp_state e \<in> {backgroundExited, backgroundStopped} \<and> \<not> bp_tree e
            \<and> (\<exists>c. bp_exitCode e = Some c \<and> 0 \<le> c \<and> c < 2 ^ 32))
         \<or> (bp_state e = backgroundTimedOut \<and> \<not> bp_tree e \<and> bp_exitCode e = None)
         \<or> (bp_state e = backgroundRuntimeFailed \<and> bp_exitCode e = None)))"
proof -
  have "entryGood e" using background.reachable [OF assms(1)] assms(2) by (simp add: systemGood_def e_def)
  then show ?thesis
    by (cases "bp_done e") (auto simp: entryGood_def entryPhase_def entryTable_def maxExitCode_def background_states)
qed

lemma finishedAs_same [simp]:
  "finishedAs r (setReason x e) = finishedAs r e"
  "finishedAs r (e\<lparr>bp_stdout := out, bp_stderr := err\<rparr>) = finishedAs r e"
  "finishedAs r (e\<lparr>bp_tree := b\<rparr>) = finishedAs r e"
  by (simp_all add: finishedAs_def setReason_def)

lemma finishedAs_update:
  "finishedAs r (sy_heap u ! a) \<Longrightarrow> a < length (sy_heap u) \<Longrightarrow>
     (finishedAs r (sy_heap u ! b) \<Longrightarrow> finishedAs r (f (sy_heap u ! b))) \<Longrightarrow>
     finishedAs r (sy_heap (updateEntry b f u) ! a)"
  by (cases "b = a") (simp_all add: updateEntry_def)

lemma requestStep_heap:
  assumes "requestStep key phase event s = Some (phase', t)"
  shows "sy_heap t = sy_heap s \<or> (\<exists>b f. sy_heap t = sy_heap (updateEntry b f s)
    \<and> (f = setReason backgroundStopped \<or> f = (\<lambda>e. e\<lparr>bp_tree := False\<rparr>)))"
  using assms
  by (auto simp: requestStep_def split: RequestPhase.splits RequestEvent.splits if_splits list.splits)

lemma finished_kept:
  assumes "systemGood s" and "sysStep s t" and "a < length (sy_heap s) \<and> finishedAs r (sy_heap s ! a)"
  shows "a < length (sy_heap t) \<and> finishedAs r (sy_heap t ! a)"
  using assms(2)
proof cases
  case (start grace plan now startError process r' effects)
  then show ?thesis
    using assms(3) by (auto simp: startBackground_def Let_def nth_append split: if_splits sum.splits)
next
  case (writes b out err)
  then show ?thesis using assms(3) finishedAs_update by simp
next
  case (monitor b event now e)
  then have "\<not> bp_done (sy_heap s ! b)" using monitor_finished assms(1) by (auto simp: systemGood_def)
  then have "\<not> finishedAs r (sy_heap s ! b)" by (simp add: finishedAs_def)
  then show ?thesis using monitor(1) assms(3) finishedAs_update [of r s a b "\<lambda>_. e"] by simp
next
  case (stop plan)
  then show ?thesis using assms(3) by (simp add: beginStop_def)
next
  case (close entries)
  then show ?thesis using assms(3) by (simp add: beginClose_def)
next
  case (request i key phase event phase' u)
  then show ?thesis using requestStep_heap [OF request(4)] assms(3) finishedAs_update by fastforce
qed

text \<open>
  C25. A background process finishes once: whatever happens afterwards, concurrent stops, a late
  timer and further output included, its final state, finish time and exit code never change.
\<close>
theorem background_finishes_once:
  assumes "sysStep\<^sup>*\<^sup>* initSystem s" and "sysStep\<^sup>*\<^sup>* s t"
    and "a < length (sy_heap s)" and "bp_done (sy_heap s ! a)"
  shows "bp_done (sy_heap t ! a) \<and> bp_state (sy_heap t ! a) = bp_state (sy_heap s ! a)
    \<and> bp_finishedAt (sy_heap t ! a) = bp_finishedAt (sy_heap s ! a)
    \<and> bp_exitCode (sy_heap t ! a) = bp_exitCode (sy_heap s ! a)"
proof -
  let ?r = "(bp_state (sy_heap s ! a), bp_finishedAt (sy_heap s ! a), bp_exitCode (sy_heap s ! a))"
  have "a < length (sy_heap t) \<and> finishedAs ?r (sy_heap t ! a)"
    by (rule background.kept [OF assms(2) background.reachable [OF assms(1)]])
      (use finished_kept assms(3,4) in \<open>auto simp: finishedAs_def\<close>)
  then show ?thesis by (simp add: finishedAs_def)
qed

text \<open>
  A start never takes over a name in use and never exceeds the capacity: it either registers
  exactly one new entry, under a key that was free, running in the directory of the plan, or it
  leaves the whole state as it was, and a process that was launched all the same is terminated.
\<close>
theorem start_registers_or_refuses:
  assumes "startBackground grace plan now startError process s = ((r, s'), effects)"
  defines "key \<equiv> backgroundKey (lp_SessionID plan) (lp_ProcessID plan)"
  shows "(r = None \<and> s' = s \<and> (\<forall>l\<in>set effects. (\<exists>launch. l = ProcessLaunched launch) \<and> process \<longrightarrow> last effects = ProcessTerminated grace))
    \<or> (r = Some (length (sy_heap s)) \<and> map_of (sy_background s) key = None
        \<and> length (sy_background s) < maxBackgroundProcesses \<and> \<not> startError \<and> process
        \<and> sy_background s' = (key, length (sy_heap s)) # sy_background s
        \<and> (\<exists>c. sy_heap s' = sy_heap s @ [newEntry plan now c c]) \<and> sy_requests s' = sy_requests s)"
  using assms
  by (auto simp: startBackground_def Let_def split: if_splits sum.splits)

text \<open>
  Names of different sessions never meet: for valid identifiers the key determines the
  session and the process, so no request reaches an entry of another session.
\<close>
theorem background_keys_injective:
  assumes "identifierPattern session" and "identifierPattern session'"
  shows "backgroundKey session name = backgroundKey session' name' \<longleftrightarrow> session = session' \<and> name = name'"
  using assms by (simp add: backgroundKey_def append_sep_inject identifierPattern_no_nul)

text \<open>
  A stop that succeeds has ended the process: when a stop returned an entry, that entry has
  finished, and its process tree is gone unless it ended as a runtime failure.
\<close>
theorem stopped_has_finished:
  assumes "sysStep\<^sup>*\<^sup>* initSystem s" and "(key, StopReturned (Some a)) \<in> set (sy_requests s)"
  shows "a < length (sy_heap s) \<and> bp_done (sy_heap s ! a)
    \<and> (bp_tree (sy_heap s ! a) \<longrightarrow> bp_state (sy_heap s ! a) = backgroundRuntimeFailed)"
proof -
  have good: "systemGood s" by (rule background.reachable [OF assms(1)])
  then have a: "a < length (sy_heap s)" "bp_done (sy_heap s ! a)"
    using assms(2) by (auto simp: systemGood_def requestsGood_def requestTargets_def mustBeDone_def)
  have "entryGood (sy_heap s ! a)" using good a(1) by (simp add: systemGood_def)
  then show ?thesis using a by (auto simp: entryGood_def entryPhase_def entryTable_def)
qed

section \<open>Two behaviours of failed terminations\<close>

definition samplePlanB :: LaunchPlan where
  "samplePlanB = samplePlan\<lparr>lp_Operation := ''start'', lp_ProcessID := ''web'', lp_Artifacts := []\<rparr>"

definition started :: System where
  "started = snd (fst (startBackground second samplePlanB sampleInstant False True initSystem))"

definition sampleCapture :: Capture where
  "sampleCapture = \<lparr>cap_limit = 1048576, cap_digest = hashNew, cap_total = 0, cap_retained = []\<rparr>"

lemma sample_invocation: "\<exists>i. BuildInvocation samplePlanB = Inr i"
  by (simp add: BuildInvocation_def samplePlanB_def samplePlan_def shellArguments_def shell_defs)

lemma samplePlanB_fields [simp]:
  "lp_MaxOutputBytes samplePlanB = 1048576" "lp_SessionID samplePlanB = ''example-session''"
  "lp_ProcessID samplePlanB = ''web''" "lp_Operation samplePlanB = ''start''" "lp_Artifacts samplePlanB = []"
  "lp_TimeoutSeconds samplePlanB = 900" "planBindings samplePlanB sha = planBindings samplePlan sha"
  by (simp_all add: samplePlanB_def planBindings_def)

lemma started_state:
  "\<exists>effects. startBackground second samplePlanB sampleInstant False True initSystem = ((Some 0, started), effects)"
  "started = \<lparr>sy_heap = [newEntry samplePlanB sampleInstant sampleCapture sampleCapture],
     sy_background = [(backgroundKey ''example-session'' ''web'', 0)], sy_requests = []\<rparr>"
proof -
  let ?s = "\<lparr>sy_heap = [newEntry samplePlanB sampleInstant sampleCapture sampleCapture],
     sy_background = [(backgroundKey ''example-session'' ''web'', 0)], sy_requests = []\<rparr>"
  obtain i where "BuildInvocation samplePlanB = Inr i" using sample_invocation by blast
  then have "\<exists>effects. startBackground second samplePlanB sampleInstant False True initSystem = ((Some 0, ?s), effects)"
    by (simp add: startBackground_def initSystem_def NewCapture_def limit_defs maxBackgroundProcesses_def
        sampleCapture_def Let_def)
  then show "\<exists>effects. startBackground second samplePlanB sampleInstant False True initSystem = ((Some 0, started), effects)"
    and "started = ?s"
    by (auto simp: started_def)
qed

lemma started_reachable: "sysStep\<^sup>*\<^sup>* initSystem started"
  using sysStep.start started_state(1) by blast

lemma monitor_reachable:
  assumes "sysStep\<^sup>*\<^sup>* initSystem s" and "sy_heap s = [e]" and "monitorBackground event now e = Some e'"
  shows "sysStep\<^sup>*\<^sup>* initSystem (s\<lparr>sy_heap := [e']\<rparr>)"
proof -
  have "sysStep s (updateEntry 0 (\<lambda>_. e') s)" by (rule sysStep.monitor) (use assms in simp_all)
  then show ?thesis using assms(1,2) by (simp add: updateEntry_def rtranclp.rtrancl_into_rtrancl)
qed

lemma request_reachable:
  assumes "sysStep\<^sup>*\<^sup>* initSystem s" and "sy_requests s = [(key, phase)]"
    and "requestStep key phase event s = Some (phase', s')"
  shows "sysStep\<^sup>*\<^sup>* initSystem (s'\<lparr>sy_requests := [(key, phase')]\<rparr>)"
proof -
  have "sysStep s (s'\<lparr>sy_requests := (sy_requests s)[0 := (key, phase')]\<rparr>)"
    by (rule sysStep.request [OF _ _ assms(3)]) (simp_all add: assms(2))
  then show ?thesis using assms(1,2) by (simp add: rtranclp.rtrancl_into_rtrancl)
qed

lemma stop_reachable:
  assumes "sysStep\<^sup>*\<^sup>* initSystem s" and "findBackground s samplePlanB = Some a" and "sy_requests s = []"
  shows "sysStep\<^sup>*\<^sup>* initSystem (s\<lparr>sy_requests := [(backgroundKey ''example-session'' ''web'', StopFound a)]\<rparr>)"
  using assms(1) sysStep.stop [of s samplePlanB]
  by (simp add: beginStop_def assms(2,3) rtranclp.rtrancl_into_rtrancl)

text \<open>A reason that was set stays, and a stop has set one before it terminates.\<close>

definition reasonIs :: "string \<Rightarrow> nat \<Rightarrow> System \<Rightarrow> bool" where
  "reasonIs r a s \<longleftrightarrow> a < length (sy_heap s) \<and> bp_reason (sy_heap s ! a) = r \<and> bp_state (sy_heap s ! a) \<noteq> backgroundTimedOut"

lemma finish_reason [simp]: "bp_reason (finish state code now e) = bp_reason e"
  by (simp add: finish_def)

lemma finish_state: "bp_state (finish state code now e) = (if bp_done e then bp_state e else state)"
  by (simp add: finish_def)

lemma monitor_reason:
  assumes "monitorBackground event now e = Some e'" and "entryGood e" and "bp_reason e = r" and "r \<noteq> []"
    and "r \<noteq> backgroundTimedOut" and "bp_state e \<noteq> backgroundTimedOut"
  shows "bp_reason e' = r \<and> bp_state e' \<noteq> backgroundTimedOut"
  using assms
  by (auto simp: monitorBackground_def entryGood_def entryPhase_def setReason_def finish_state background_states Let_def
      split: MonitorPhase.splits MonitorEvent.splits if_splits)

lemma reason_update:
  assumes "reasonIs r a s" and "b = a \<Longrightarrow> bp_reason (f (sy_heap s ! a)) = r \<and> bp_state (f (sy_heap s ! a)) \<noteq> backgroundTimedOut"
  shows "reasonIs r a (updateEntry b f s)"
  using assms by (cases "b = a") (simp_all add: reasonIs_def updateEntry_def)

lemma reason_kept:
  assumes "systemGood s" and "sysStep s t" and "reasonIs r a s" and "r \<noteq> []" and "r \<noteq> backgroundTimedOut"
  shows "reasonIs r a t"
  using assms(2)
proof cases
  case (start grace plan now startError process r' effects)
  then show ?thesis
    using assms(3) by (auto simp: startBackground_def reasonIs_def Let_def nth_append split: if_splits sum.splits)
next
  case (writes b out err)
  then show ?thesis using assms(3) by (simp add: reason_update reasonIs_def [of r a s])
next
  case (monitor b event now e)
  have "bp_reason e = r \<and> bp_state e \<noteq> backgroundTimedOut" if "b = a"
    using monitor_reason [OF monitor(3)] monitor(2) that assms by (simp add: systemGood_def reasonIs_def)
  then show ?thesis using monitor(1) reason_update [OF assms(3), of b "\<lambda>_. e"] by simp
next
  case (stop plan)
  then show ?thesis using assms(3) by (simp add: beginStop_def reasonIs_def)
next
  case (close entries)
  then show ?thesis using assms(3) by (simp add: beginClose_def reasonIs_def)
next
  case (request i key phase event phase' u)
  have kept: "reasonIs r a (updateEntry b f s)"
    if "f = setReason backgroundStopped \<or> f = (\<lambda>e. e\<lparr>bp_tree := False\<rparr>)" for b f
    using reason_update [OF assms(3), of b f] that assms(3,4) by (auto simp: setReason_def reasonIs_def)
  have "reasonIs r a u"
    using requestStep_heap [OF request(4)] kept assms(3) unfolding reasonIs_def by metis
  then show ?thesis using request(1) by (simp add: reasonIs_def)
qed

text \<open>What is about to be terminated by a request has a reason.\<close>

definition killTargets :: "RequestPhase \<Rightarrow> nat set" where
  "killTargets phase = (case phase of StopKilling a \<Rightarrow> {a} | CloseKilling a _ _ \<Rightarrow> {a} | _ \<Rightarrow> {})"

definition killsMarked :: "System \<Rightarrow> bool" where
  "killsMarked s \<longleftrightarrow> (\<forall>p\<in>set (sy_requests s). \<forall>a\<in>killTargets (snd p). a < length (sy_heap s) \<longrightarrow> bp_reason (sy_heap s ! a) \<noteq> [])"

lemma setReason_nonempty: "r \<noteq> [] \<Longrightarrow> bp_reason (setReason r e) \<noteq> []"
  by (simp add: setReason_def)

lemma reason_monotone:
  assumes "sysStep s t" and "a < length (sy_heap s)" and "bp_reason (sy_heap s ! a) \<noteq> []"
  shows "a < length (sy_heap t) \<and> bp_reason (sy_heap t ! a) \<noteq> []"
proof -
  have update: "bp_reason (sy_heap (updateEntry b f s) ! a) \<noteq> []" if "\<And>e. bp_reason e \<noteq> [] \<Longrightarrow> bp_reason (f e) \<noteq> []" for b f
    using assms(2,3) that by (cases "b = a") (simp_all add: updateEntry_def)
  from assms(1) show ?thesis
  proof cases
    case (start grace plan now startError process r' effects)
    then show ?thesis
      using assms(2,3) by (auto simp: startBackground_def Let_def nth_append split: if_splits sum.splits)
  next
    case (writes b out err)
    then show ?thesis using assms(2) update by simp
  next
    case (monitor b event now e)
    have "bp_reason (sy_heap s ! b) \<noteq> [] \<Longrightarrow> bp_reason e \<noteq> []" using monitor(3)
      by (auto simp: monitorBackground_def setReason_def Let_def split: MonitorPhase.splits MonitorEvent.splits if_splits)
    then show ?thesis using monitor(1) assms(2,3) by (cases "b = a") (simp_all add: updateEntry_def)
  next
    case (stop plan)
    then show ?thesis using assms(2,3) by (simp add: beginStop_def)
  next
    case (close entries)
    then show ?thesis using assms(2,3) by (simp add: beginClose_def)
  next
    case (request i key phase event phase' u)
    have "bp_reason (sy_heap u ! a) \<noteq> [] \<and> length (sy_heap u) = length (sy_heap s)"
      using requestStep_heap [OF request(4)] update assms(2,3) by (fastforce simp: setReason_def)
    then show ?thesis using request(1) assms(2) by simp
  qed
qed

lemma requestStep_marks:
  "requestStep key phase event s = Some (phase', u) \<Longrightarrow> a \<in> killTargets phase' \<Longrightarrow> a < length (sy_heap u) \<Longrightarrow>
     bp_reason (sy_heap u ! a) \<noteq> []"
  by (auto simp: requestStep_def killTargets_def updateEntry_def setReason_def background_states
      split: RequestPhase.splits RequestEvent.splits list.splits if_splits)

lemma requestStep_length: "requestStep key phase event s = Some (phase', u) \<Longrightarrow> length (sy_heap u) = length (sy_heap s)"
  using requestStep_heap by fastforce

lemma killsMarked_kept:
  assumes "systemGood s" and "sysStep s t" and "killsMarked s"
  shows "killsMarked t"
proof -
  have old: "bp_reason (sy_heap t ! a) \<noteq> []" if "p \<in> set (sy_requests s)" "a \<in> killTargets (snd p)" for p a
  proof -
    have "requestTargets (snd p) \<subseteq> {..<length (sy_heap s)}"
      using assms(1) that(1) by (auto simp: systemGood_def requestsGood_def)
    then have "a < length (sy_heap s)" using that(2)
      by (auto simp: killTargets_def requestTargets_def split: RequestPhase.splits)
    then show ?thesis using assms(3) that reason_monotone [OF assms(2)] unfolding killsMarked_def by blast
  qed
  show ?thesis using assms(2)
  proof cases
    case (start grace plan now startError process r' effects)
    then have "sy_requests t = sy_requests s"
      by (auto simp: startBackground_def Let_def split: if_splits sum.splits)
    then show ?thesis using old by (simp add: killsMarked_def)
  next
    case (writes b out err)
    then show ?thesis using old by (simp add: killsMarked_def)
  next
    case (monitor b event now e)
    then show ?thesis using old by (simp add: killsMarked_def)
  next
    case (stop plan)
    then show ?thesis using old by (auto simp: killsMarked_def beginStop_def killTargets_def split: option.splits)
  next
    case (close entries)
    then show ?thesis using old by (auto simp: killsMarked_def beginClose_def killTargets_def)
  next
    case (request i key phase event phase' u)
    have "set (sy_requests t) \<subseteq> insert (key, phase') (set (sy_requests s))"
      using request(1) set_update_subset_insert by simp
    then show ?thesis using old requestStep_marks [OF request(4)] request(1) unfolding killsMarked_def by fastforce
  qed
qed

lemma reachable_marked: "sysStep\<^sup>*\<^sup>* initSystem s \<Longrightarrow> killsMarked s"
  by (rule background.kept [OF _ initSystem_good killsMarked_kept]) (simp_all add: killsMarked_def initSystem_def)

text \<open>An entry that was marked by a stop never times out.\<close>

definition lateMarked :: "nat \<Rightarrow> System \<Rightarrow> bool" where
  "lateMarked a s \<longleftrightarrow> (a < length (sy_heap s) \<longrightarrow> bp_state (sy_heap s ! a) = backgroundTimedOut \<longrightarrow>
     bp_reason (sy_heap s ! a) = backgroundTimedOut)"

lemma monitor_late:
  "monitorBackground event now e = Some e' \<Longrightarrow> entryGood e \<Longrightarrow> bp_state e' = backgroundTimedOut \<Longrightarrow>
     bp_reason e' = backgroundTimedOut"
  by (auto simp: monitorBackground_def entryGood_def entryPhase_def setReason_def finish_state background_states Let_def
      split: MonitorPhase.splits MonitorEvent.splits if_splits)

lemma lateMarked_kept:
  assumes "systemGood s" and "sysStep s t" and "lateMarked a s"
  shows "lateMarked a t"
proof -
  have update: "lateMarked a (updateEntry b f s)"
    if "\<And>e. b = a \<Longrightarrow> e = sy_heap s ! a \<Longrightarrow> a < length (sy_heap s) \<Longrightarrow> bp_state (f e) = backgroundTimedOut \<Longrightarrow>
      bp_reason (f e) = backgroundTimedOut" for b f
    using assms(3) that by (cases "b = a") (auto simp: lateMarked_def updateEntry_def)
  from assms(2) show ?thesis
  proof cases
    case (start grace plan now startError process r' effects)
    then show ?thesis using assms(3)
      by (auto simp: startBackground_def lateMarked_def Let_def nth_append less_Suc_eq newEntry_def background_states
          split: if_splits sum.splits)
  next
    case (writes b out err)
    then show ?thesis using assms(3) by (simp only:) (rule update, simp add: lateMarked_def)
  next
    case (monitor b event now e)
    then show ?thesis
      using monitor_late [OF monitor(3)] assms(1) by (simp only:) (rule update, simp add: systemGood_def)
  next
    case (stop plan)
    then show ?thesis using assms(3) by (simp add: beginStop_def lateMarked_def)
  next
    case (close entries)
    then show ?thesis using assms(3) by (simp add: beginClose_def lateMarked_def)
  next
    case (request i key phase event phase' u)
    have "lateMarked a (updateEntry b f s)" if "f = setReason backgroundStopped \<or> f = (\<lambda>e. e\<lparr>bp_tree := False\<rparr>)" for b f
      using that assms(3) by (intro update) (auto simp: setReason_def lateMarked_def background_states)
    then have "lateMarked a u" using requestStep_heap [OF request(4)] assms(3) unfolding lateMarked_def by metis
    then show ?thesis using request(1) by (simp add: lateMarked_def)
  qed
qed

lemma reachable_not_late:
  assumes "sysStep\<^sup>*\<^sup>* initSystem s" and "a < length (sy_heap s)" and "bp_reason (sy_heap s ! a) = backgroundStopped"
  shows "bp_state (sy_heap s ! a) \<noteq> backgroundTimedOut"
proof -
  have "lateMarked a s" by (rule background.kept [OF assms(1) initSystem_good lateMarked_kept])
      (simp_all add: lateMarked_def initSystem_def)
  then show ?thesis using assms(2,3) by (auto simp: lateMarked_def background_states)
qed

text \<open>The monitor of an entry that a stop has marked.\<close>

lemma stopped_timer:
  assumes "entryGood e" and "bp_reason e = backgroundStopped" and "bp_state e \<noteq> backgroundTimedOut"
  shows "bp_phase e \<noteq> MonitorKilling"
    and "monitorBackground TimerExpired now e = Some e' \<Longrightarrow>
      bp_phase e' = MonitorDraining backgroundStopped \<and> running e' \<and> bp_tree e' = bp_tree e"
    and "bp_phase e = MonitorDraining r \<Longrightarrow>
      {event. \<exists>now e'. monitorBackground event now e = Some e'} = range ExitAnswered"
proof -
  show "bp_phase e \<noteq> MonitorKilling" using assms(1,2) by (auto simp: entryGood_def entryPhase_def background_states)
  show "bp_phase e' = MonitorDraining backgroundStopped \<and> running e' \<and> bp_tree e' = bp_tree e"
    if "monitorBackground TimerExpired now e = Some e'"
    using that assms(1,2)
    by (auto simp: monitorBackground_def entryGood_def entryPhase_def setReason_def running_def background_states Let_def
        split: MonitorPhase.splits if_splits)
  assume "bp_phase e = MonitorDraining r"
  then have "(\<exists>now e'. monitorBackground event now e = Some e') \<longleftrightarrow> event \<in> range ExitAnswered" for event
    by (cases event) (auto simp: monitorBackground_def)
  then show "{event. \<exists>now e'. monitorBackground event now e = Some e'} = range ExitAnswered" by blast
qed

text \<open>
  C26. After a stop whose termination failed, the lifetime limit no longer ends the process: in
  every reachable state where the termination of a stop fails before the timer has been recorded,
  and after whatever happens next, the monitor never comes to terminate the process tree for its
  lifetime and the process never becomes "timed out"; when the timer fires, the process goes on
  running with its tree as it is, and from then on the monitor only waits for the exit.
\<close>
theorem failed_stop_disables_timeout:
  assumes "sysStep\<^sup>*\<^sup>* initSystem s" and "i < length (sy_requests s)" and "sy_requests s ! i = (key, StopKilling a)"
    and "requestStep key (StopKilling a) (KillReturned False) s = Some (phase, u)"
    and "bp_reason (sy_heap s ! a) \<noteq> backgroundTimedOut"
    and "sysStep\<^sup>*\<^sup>* (u\<lparr>sy_requests := (sy_requests s)[i := (key, phase)]\<rparr>) t"
  defines "e \<equiv> sy_heap t ! a"
  shows "phase = StopReturned None \<and> bp_phase e \<noteq> MonitorKilling \<and> bp_state e \<noteq> backgroundTimedOut
    \<and> (\<forall>now e'. monitorBackground TimerExpired now e = Some e' \<longrightarrow>
          bp_phase e' = MonitorDraining backgroundStopped \<and> running e' \<and> bp_tree e' = bp_tree e)
    \<and> (\<forall>r. bp_phase e = MonitorDraining r \<longrightarrow>
          {event. \<exists>now e'. monitorBackground event now e = Some e'} = range ExitAnswered)"
proof -
  let ?s' = "u\<lparr>sy_requests := (sy_requests s)[i := (key, phase)]\<rparr>"
  have good: "systemGood s" by (rule background.reachable [OF assms(1)])
  have mem: "(key, StopKilling a) \<in> set (sy_requests s)" using assms(2,3) by (metis nth_mem)
  then have a: "a < length (sy_heap s)" using good by (fastforce simp: systemGood_def requestsGood_def requestTargets_def)
  have marked: "bp_reason (sy_heap s ! a) \<noteq> []"
    using reachable_marked [OF assms(1)] mem a by (fastforce simp: killsMarked_def killTargets_def)
  have entry: "entryGood (sy_heap s ! a)" using good a by (simp add: systemGood_def)
  then have stopped: "bp_reason (sy_heap s ! a) = backgroundStopped"
    using marked assms(5) by (auto simp: entryGood_def entryPhase_def)
  have step: "phase = StopReturned None" "u = s" using assms(4) by (simp_all add: requestStep_def)
  have "bp_state (sy_heap s ! a) \<noteq> backgroundTimedOut"
    using reachable_not_late [OF assms(1) a stopped] .
  then have marked_s: "reasonIs backgroundStopped a ?s'" using stopped a step by (simp add: reasonIs_def)
  have next_step: "sysStep s ?s'" by (rule sysStep.request [OF assms(2,3,4)])
  then have good': "systemGood ?s'" by (rule sysStep_good [OF good])
  have stop_reason: "backgroundStopped \<noteq> []" "backgroundStopped \<noteq> backgroundTimedOut" by (simp_all add: background_states)
  have e: "reasonIs backgroundStopped a t"
    by (rule background.kept [where P = "reasonIs backgroundStopped a", OF assms(6) good' reason_kept marked_s])
      (use stop_reason in simp_all)
  have "systemGood t" by (rule background.run [OF assms(6) good'])
  then have "entryGood e" using e by (simp add: systemGood_def reasonIs_def e_def)
  moreover have "bp_reason e = backgroundStopped" "bp_state e \<noteq> backgroundTimedOut" using e by (simp_all add: reasonIs_def e_def)
  ultimately show ?thesis using step(1) stopped_timer by blast
qed

lemma forgotten_run:
  "\<exists>s e key. sysStep\<^sup>*\<^sup>* initSystem s \<and> sy_heap s = [e] \<and> bp_state e = backgroundRuntimeFailed \<and> bp_tree e
     \<and> bp_done e \<and> sy_background s = [] \<and> sy_requests s = [(key, StopReturned (Some 0))]"
proof -
  let ?e0 = "newEntry samplePlanB sampleInstant sampleCapture sampleCapture"
  let ?e1 = "?e0\<lparr>bp_phase := MonitorWaiting\<rparr>"
  let ?e2 = "?e1\<lparr>bp_reason := backgroundTimedOut, bp_phase := MonitorKilling\<rparr>"
  let ?e3 = "(finish backgroundRuntimeFailed None sampleInstant ?e2)\<lparr>bp_phase := MonitorDone, bp_tree := True\<rparr>"
  let ?key = "backgroundKey ''example-session'' ''web''"
  let ?T = "\<lambda>e. \<lparr>sy_heap = [e], sy_background = [(?key, 0)], sy_requests = []\<rparr>"
  let ?S = "\<lambda>ph. \<lparr>sy_heap = [?e3], sy_background = [(?key, 0)], sy_requests = [(?key, ph)]\<rparr>"
  note start = started_reachable [unfolded started_state(2)]
  have 1: "sysStep\<^sup>*\<^sup>* initSystem (?T ?e1)"
    using monitor_reachable [OF start, of ?e0 TimerMade sampleInstant ?e1]
    by (simp add: monitorBackground_def newEntry_def)
  have 2: "sysStep\<^sup>*\<^sup>* initSystem (?T ?e2)"
    using monitor_reachable [OF 1, of ?e1 TimerExpired sampleInstant ?e2]
    by (simp add: monitorBackground_def setReason_def newEntry_def background_states)
  have 3: "sysStep\<^sup>*\<^sup>* initSystem (?T ?e3)"
    using monitor_reachable [OF 2, of ?e2 "TreeKilled False" sampleInstant ?e3]
    by (simp add: monitorBackground_def newEntry_def finish_def)
  have find: "findBackground (?T ?e3) samplePlanB = Some 0"
    by (simp add: findBackground_def newEntry_def finish_def)
  have 4: "sysStep\<^sup>*\<^sup>* initSystem (?S (StopFound 0))"
    using stop_reachable [OF 3 find] by simp
  have 5: "sysStep\<^sup>*\<^sup>* initSystem (?S (StopRemoving 0))"
    using request_reachable [OF 4, of _ _ RequestGoesOn]
    by (simp add: requestStep_def running_def finish_def newEntry_def background_states)
  have "sysStep\<^sup>*\<^sup>* initSystem (\<lparr>sy_heap = [?e3], sy_background = [], sy_requests = [(?key, StopReturned (Some 0))]\<rparr>)"
    using request_reachable [OF 5, of _ _ RequestGoesOn] by (simp add: requestStep_def removeBackground_def)
  moreover have "bp_state ?e3 = backgroundRuntimeFailed \<and> bp_tree ?e3 \<and> bp_done ?e3"
    by (simp add: finish_def newEntry_def)
  ultimately show ?thesis by fastforce
qed

text \<open>
  A process tree whose termination at the time limit failed can be forgotten: a state is
  reachable in which a stop has reported success, the registry is empty and the tree may still
  exist, because a stop terminates only entries that are recorded as running.
\<close>
theorem failed_timeout_is_forgotten:
  "\<exists>s e. sysStep\<^sup>*\<^sup>* initSystem s \<and> sy_heap s = [e] \<and> bp_state e = backgroundRuntimeFailed \<and> bp_tree e
     \<and> sy_background s = [] \<and> map snd (sy_requests s) = [StopReturned (Some 0)]"
  using forgotten_run by fastforce

section \<open>Answers\<close>

lemma validateBackgroundPlan_ok:
  "validateBackgroundPlan plan sha = Inr u \<longleftrightarrow>
     lp_Operation plan \<in> {RequestOperationStart, RequestOperationStatus, RequestOperationStop, RequestOperationLogs}
     \<and> lp_ProcessID plan \<noteq> [] \<and> planLimits plan \<and> lp_Artifacts plan = []
     \<and> (\<exists>i. BuildInvocation plan = Inr i) \<and> planBindings plan sha"
proof -
  have year: "reportableYear 0" by code_simp
  have m: "validateArtifactManifest (failedArtifactManifest []) = Inr ()" by code_simp
  have out: "\<exists>a. captureSnapshot c = Inr a \<and> outputOk (snap_Metadata a)"
    if "NewCapture (lp_MaxOutputBytes plan) = Inr c" for c
    using snapshot_fresh [OF that] that streamSnapshot_ok [of "lp_MaxOutputBytes plan" "[]"]
    by (simp add: NewCapture_ok MinOutputBytes_def)
  have cap: "(\<exists>c. NewCapture (lp_MaxOutputBytes plan) = Inr c)
      \<longleftrightarrow> MinOutputBytes \<le> lp_MaxOutputBytes plan \<and> lp_MaxOutputBytes plan \<le> MaxOutputBytes"
    by (simp add: NewCapture_ok)
  show ?thesis
    unfolding validateBackgroundPlan_def bindR_eq_Inr mapErr_eq_Inr assembleReport_ok failIf_eq_Inr planLimits_def
    using cap out year m by (simp add: not_less) blast
qed

text \<open>What one write leaves in a fresh capture.\<close>

lemma captureAll_one:
  assumes "NewCapture limit = Inr c" and "length x < 2 ^ 63"
  shows "\<exists>c'. captureAll [x] c = Inr c' \<and> captureSnapshot c' = Inr (streamSnapshot limit x)"
proof -
  have limit: "0 \<le> limit" using assms(1) by (simp add: NewCapture_ok MinOutputBytes_def)
  obtain c' where c': "captureAll [x] c = Inr c'" "capturing limit x c'"
    using captureAll_capturing [OF NewCapture_capturing [OF assms(1)] limit, of "[x]"] assms(2) by auto
  then show ?thesis
    using captureSnapshot_capturing [OF c'(2) limit assms(2)] by (simp add: streamSnapshot_def)
qed

definition answerExit :: "CommandStatus \<Rightarrow> int \<Rightarrow> int option" where
  "answerExit status code = (if status \<noteq> CommandStatusRuntimeFailed then Some code else None)"

lemma backgroundAnswer_outcome:
  "backgroundAnswer plan result = (st, code, x, y) \<Longrightarrow> validateCommandOutcome st (answerExit st code) = Inr ()"
  by (auto simp: backgroundAnswer_def backgroundOperationFailure_def answerExit_def validateCommandOutcome_def
      supportedCommandStatuses_def status_defs Let_def split: if_splits option.splits sum.splits prod.splits)

lemma answerBackground_output:
  assumes "validateBackgroundPlan plan sha = Inr ()" and "s \<le> f" and "reportableYear s" and "reportableYear f"
    and "backgroundAnswer plan result = (status, code, x, y)" and "length x < 2 ^ 63" and "length y < 2 ^ 63"
  defines "out \<equiv> \<lparr>ot_Report = assembleReport plan sha status (answerExit status code) s f
        (streamSnapshot (lp_MaxOutputBytes plan) x) (streamSnapshot (lp_MaxOutputBytes plan) y)
        (failedArtifactManifest []), ot_Stdout = take (nat (lp_MaxOutputBytes plan)) x,
      ot_Stderr = take (nat (lp_MaxOutputBytes plan)) y, ot_ArtifactBundle = (None :: 'b option)\<rparr>"
  shows "answerBackground plan sha s f result = Inr out" and "ValidateExecutionReport (ot_Report out) = Inr ()"
proof -
  note plan = assms(1) [unfolded validateBackgroundPlan_ok]
  have bounds: "0 \<le> lp_MaxOutputBytes plan" "lp_MaxOutputBytes plan \<le> MaxOutputBytes"
    using plan by (auto simp: planLimits_def MinOutputBytes_def)
  obtain c where c: "NewCapture (lp_MaxOutputBytes plan) = Inr c"
    using plan by (auto simp: NewCapture_ok planLimits_def)
  obtain c1 c2 where w: "captureAll [x] c = Inr c1" "captureSnapshot c1 = Inr (streamSnapshot (lp_MaxOutputBytes plan) x)"
      "captureAll [y] c = Inr c2" "captureSnapshot c2 = Inr (streamSnapshot (lp_MaxOutputBytes plan) y)"
    using captureAll_one [OF c] assms(6,7) by blast
  have m: "validateArtifactManifest (failedArtifactManifest []) = Inr ()"
    "am_Status (failedArtifactManifest []) = ArtifactStatusNotRequested" by code_simp+
  let ?report = "assembleReport plan sha status (answerExit status code) s f
    (streamSnapshot (lp_MaxOutputBytes plan) x) (streamSnapshot (lp_MaxOutputBytes plan) y) (failedArtifactManifest [])"
  have valid: "ValidateExecutionReport ?report = Inr ()"
    using plan assms(2-4) backgroundAnswer_outcome [OF assms(5)] bounds m
    by (simp add: assembleReport_ok streamSnapshot_ok)
  have retained: "snap_Retained (streamSnapshot (lp_MaxOutputBytes plan) z) = take (nat (lp_MaxOutputBytes plan)) z"
    for z by (simp add: streamSnapshot_def)
  show "answerBackground plan sha s f result = Inr out"
    using assms(2) valid [unfolded answerExit_def]
    by (simp add: answerBackground_def assms(5) buildBackgroundOutput_def c w Let_def retained answerExit_def out_def)
  show "ValidateExecutionReport (ot_Report out) = Inr ()" using valid by (simp add: out_def)
qed

lemma notRequested_status: "am_Status (failedArtifactManifest []) = ArtifactStatusNotRequested"
  by code_simp

text \<open>
  Every valid background request is answered with a valid report: "completed" with exit code
  0 and the status of the process when the operation gave an entry that could be read, a fixed
  denial when it did not, and a runtime failure without exit code for a stop that failed; the
  streams are the answer, cut at the output limit.
\<close>
theorem background_always_reports:
  assumes "validateBackgroundPlan plan sha = Inr ()" and "s \<le> f" and "reportableYear s" and "reportableYear f"
    and "backgroundAnswer plan result = (status, code, x, y)" and "length x < 2 ^ 63" and "length y < 2 ^ 63"
  shows "\<exists>out :: 'b Output. answerBackground plan sha s f result = Inr out \<and> ValidateExecutionReport (ot_Report out) = Inr ()
    \<and> er_CommandStatus (ot_Report out) = status
    \<and> er_ExitCode (ot_Report out) = (if status = CommandStatusRuntimeFailed then None else Some code)
    \<and> ot_Stdout out = take (nat (lp_MaxOutputBytes plan)) x \<and> ot_Stderr out = take (nat (lp_MaxOutputBytes plan)) y
    \<and> am_Status (er_Artifacts (ot_Report out)) = ArtifactStatusNotRequested \<and> ot_ArtifactBundle out = None"
  using answerBackground_output [where 'b = 'b, OF assms]
  by (intro exI conjI) (assumption | simp add: notRequested_status answerExit_def)+

lemma background_always_reports_witness:
  "\<exists>out :: nat Output. answerBackground samplePlanB sampleSHA sampleInstant sampleInstant None = Inr out
     \<and> er_CommandStatus (ot_Report out) = CommandStatusFailed"
proof -
  have plan: "validateBackgroundPlan samplePlanB sampleSHA = Inr ()"
    using sample_invocation sampleBindings
    by (simp add: validateBackgroundPlan_ok planLimits_def limit_defs operation_defs)
  have ans: "backgroundAnswer samplePlanB None
      = (CommandStatusFailed, 1, [], ''background process operation denied'' @ [CHR 0x0A])"
    by (simp add: backgroundAnswer_def backgroundOperationFailure_def operation_defs)
  show ?thesis
    using background_always_reports [OF plan order.refl sampleYear sampleYear ans] by auto
qed

section \<open>Witnesses\<close>

text \<open>A stop fails to terminate the process, and then the timer fires.\<close>

lemma failed_stop_trace:
  defines "e0 \<equiv> newEntry samplePlanB sampleInstant sampleCapture sampleCapture"
    and "key \<equiv> backgroundKey ''example-session'' ''web''"
  defines "e2 \<equiv> setReason backgroundStopped (e0\<lparr>bp_phase := MonitorWaiting\<rparr>)"
  defines "S \<equiv> \<lambda>e phase. \<lparr>sy_heap = [e], sy_background = [(key, 0)], sy_requests = [(key, phase)]\<rparr>"
  shows "sysStep\<^sup>*\<^sup>* initSystem (S e2 (StopKilling 0))"
    and "requestStep key (StopKilling 0) (KillReturned False) (S e2 (StopKilling 0)) = Some (StopReturned None, S e2 (StopKilling 0))"
    and "sysStep\<^sup>*\<^sup>* (S e2 (StopReturned None)) (S (e2\<lparr>bp_phase := MonitorDraining backgroundStopped\<rparr>) (StopReturned None))"
proof -
  let ?e1 = "e0\<lparr>bp_phase := MonitorWaiting\<rparr>"
  let ?s1 = "\<lparr>sy_heap = [?e1], sy_background = [(key, 0)], sy_requests = []\<rparr>"
  note start = started_reachable [unfolded started_state(2), folded e0_def key_def]
  have 1: "sysStep\<^sup>*\<^sup>* initSystem ?s1"
    using monitor_reachable [OF start, of e0 TimerMade sampleInstant ?e1]
    by (simp add: monitorBackground_def e0_def newEntry_def)
  have find: "findBackground ?s1 samplePlanB = Some 0"
    by (simp add: findBackground_def e0_def newEntry_def key_def)
  have 2: "sysStep\<^sup>*\<^sup>* initSystem (S ?e1 (StopFound 0))"
    using stop_reachable [OF 1 find] by (simp add: S_def key_def)
  have 3: "sysStep\<^sup>*\<^sup>* initSystem (S ?e1 (StopMarking 0))"
    using request_reachable [OF 2, of _ _ RequestGoesOn] by (simp add: S_def requestStep_def running_def e0_def newEntry_def)
  show "sysStep\<^sup>*\<^sup>* initSystem (S e2 (StopKilling 0))"
    using request_reachable [OF 3, of _ _ RequestGoesOn] by (simp add: S_def e2_def requestStep_def updateEntry_def)
  show "requestStep key (StopKilling 0) (KillReturned False) (S e2 (StopKilling 0)) = Some (StopReturned None, S e2 (StopKilling 0))"
    by (simp add: requestStep_def)
  have "monitorBackground TimerExpired sampleInstant e2 = Some (e2\<lparr>bp_phase := MonitorDraining backgroundStopped\<rparr>)"
    by (simp add: monitorBackground_def e2_def setReason_def e0_def newEntry_def background_states)
  then have "sysStep (S e2 (StopReturned None))
      (updateEntry 0 (\<lambda>_. e2\<lparr>bp_phase := MonitorDraining backgroundStopped\<rparr>) (S e2 (StopReturned None)))"
    by (intro sysStep.monitor) (simp_all add: S_def)
  then show "sysStep\<^sup>*\<^sup>* (S e2 (StopReturned None)) (S (e2\<lparr>bp_phase := MonitorDraining backgroundStopped\<rparr>) (StopReturned None))"
    by (simp add: S_def updateEntry_def r_into_rtranclp)
qed

lemma failed_stop_disables_timeout_witness:
  "\<exists>s t e. sysStep\<^sup>*\<^sup>* initSystem s \<and> sysStep\<^sup>*\<^sup>* s t \<and> sy_heap t = [e] \<and> running e \<and> bp_tree e
     \<and> map snd (sy_requests t) = [StopReturned None]
     \<and> {event. \<exists>now e'. monitorBackground event now e = Some e'} = range ExitAnswered"
proof -
  let ?key = "backgroundKey ''example-session'' ''web''"
  let ?e = "setReason backgroundStopped ((newEntry samplePlanB sampleInstant sampleCapture sampleCapture)\<lparr>bp_phase := MonitorWaiting\<rparr>)"
  let ?S = "\<lambda>e phase. \<lparr>sy_heap = [e], sy_background = [(?key, 0)], sy_requests = [(?key, phase)]\<rparr>"
  let ?t = "?S (?e\<lparr>bp_phase := MonitorDraining backgroundStopped\<rparr>) (StopReturned None)"
  have open_timer: "bp_reason (sy_heap (?S ?e (StopKilling 0)) ! 0) \<noteq> backgroundTimedOut"
    by (simp add: setReason_def newEntry_def background_states)
  have later: "sysStep\<^sup>*\<^sup>* ((?S ?e (StopKilling 0))\<lparr>sy_requests := (sy_requests (?S ?e (StopKilling 0)))[0 := (?key, StopReturned None)]\<rparr>) ?t"
    using failed_stop_trace(3) by simp
  have request: "0 < length (sy_requests (?S ?e (StopKilling 0)))" "sy_requests (?S ?e (StopKilling 0)) ! 0 = (?key, StopKilling 0)"
    by simp_all
  from failed_stop_disables_timeout [OF failed_stop_trace(1) request failed_stop_trace(2) open_timer later]
  have waits: "{event. \<exists>now e'. monitorBackground event now (?e\<lparr>bp_phase := MonitorDraining backgroundStopped\<rparr>) = Some e'} = range ExitAnswered"
    by simp
  have "sysStep (?S ?e (StopKilling 0)) ((?S ?e (StopKilling 0))\<lparr>sy_requests := (sy_requests (?S ?e (StopKilling 0)))[0 := (?key, StopReturned None)]\<rparr>)"
    by (rule sysStep.request [OF request failed_stop_trace(2)])
  then have "sysStep\<^sup>*\<^sup>* (?S ?e (StopKilling 0)) ?t" using later by (rule converse_rtranclp_into_rtranclp)
  moreover have "running (?e\<lparr>bp_phase := MonitorDraining backgroundStopped\<rparr>)" "bp_tree (?e\<lparr>bp_phase := MonitorDraining backgroundStopped\<rparr>)"
    by (simp_all add: running_def newEntry_def setReason_def)
  ultimately show ?thesis using failed_stop_trace(1) waits
    by (intro exI [of _ "?S ?e (StopKilling 0)"] exI [of _ ?t] exI [of _ "?e\<lparr>bp_phase := MonitorDraining backgroundStopped\<rparr>"]) simp
qed

lemma running_is_registered_witness:
  "\<exists>key. map_of (sy_background started) key = Some 0"
proof -
  have "0 < length (sy_heap started)" "running (sy_heap started ! 0)"
    by (simp_all add: started_state(2) running_def newEntry_def)
  then show ?thesis using running_is_registered [OF started_reachable] by blast
qed

lemma background_state_table_witness:
  "bp_finishedAt (sy_heap started ! 0) = None \<and> bp_exitCode (sy_heap started ! 0) = None"
proof -
  have "0 < length (sy_heap started)" "bp_state (sy_heap started ! 0) = backgroundRunning"
    by (simp_all add: started_state(2) newEntry_def)
  then show ?thesis using background_state_table [OF started_reachable, of 0] by (auto simp: background_states)
qed

lemma background_finishes_once_witness: "\<exists>s. sysStep\<^sup>*\<^sup>* initSystem s \<and> bp_done (sy_heap s ! 0)"
proof -
  obtain s e where "sysStep\<^sup>*\<^sup>* initSystem s" "sy_heap s = [e]" "bp_done e" using forgotten_run by blast
  then show ?thesis using background_finishes_once [of s s 0] by fastforce
qed

lemma start_registers_or_refuses_witness:
  "\<exists>c. sy_heap started = [newEntry samplePlanB sampleInstant c c]"
proof -
  obtain effects where "startBackground second samplePlanB sampleInstant False True initSystem = ((Some 0, started), effects)"
    using started_state(1) by blast
  from start_registers_or_refuses [OF this] show ?thesis by (auto simp: initSystem_def)
qed

lemma background_keys_injective_witness:
  "backgroundKey ''session-a'' ''web'' \<noteq> backgroundKey ''session-b'' ''web''"
proof -
  have "identifierPattern ''session-a''" "identifierPattern ''session-b''" by code_simp+
  from background_keys_injective [OF this] show ?thesis by simp
qed

lemma stopped_has_finished_witness:
  "\<exists>s key. sysStep\<^sup>*\<^sup>* initSystem s \<and> (key, StopReturned (Some 0)) \<in> set (sy_requests s) \<and> bp_done (sy_heap s ! 0)"
proof -
  obtain s e key where "sysStep\<^sup>*\<^sup>* initSystem s" "(key, StopReturned (Some 0)) \<in> set (sy_requests s)"
    using forgotten_run by fastforce
  then show ?thesis using stopped_has_finished by blast
qed

end
