(* ===== verification/Background_Dispatch.thy ===== *)
theory Background_Dispatch
  imports Background_Properties
begin

text \<open>
  A background request among the others: what it may do, that a stop returns after at most five
  steps whatever happens between them, and that the steps of a request are steps of the shared
  system, so that every invariant of the registry holds of the state it leaves and answers from.
\<close>

section \<open>What a background request does\<close>

definition backgroundAllowed :: "duration \<Rightarrow> LaunchPlan \<Rightarrow> BackgroundEffect \<Rightarrow> bool" where
  "backgroundAllowed grace plan e \<longleftrightarrow>
     (let key = backgroundKey (lp_SessionID plan) (lp_ProcessID plan) in
      case e of
        RegistryRead k \<Rightarrow> k = key
      | ProcessLaunched launch \<Rightarrow> lp_Operation plan = RequestOperationStart
          \<and> (\<exists>invocation. BuildInvocation plan = Inr invocation \<and> launch = nativeLaunch plan invocation)
      | ProcessTerminated limit \<Rightarrow> limit = grace
          \<and> (lp_Operation plan = RequestOperationStart \<or> lp_Operation plan = RequestOperationStop)
      | EntryAdded k a \<Rightarrow> k = key \<and> lp_Operation plan = RequestOperationStart
      | EntryRemoved k a \<Rightarrow> k = key \<and> lp_Operation plan = RequestOperationStop)"

lemma start_allowed:
  assumes "lp_Operation plan = RequestOperationStart"
  shows "\<forall>e\<in>set (snd (startBackground grace plan now startError process s)). backgroundAllowed grace plan e"
  using assms by (auto simp: startBackground_def backgroundAllowed_def Let_def split: sum.splits)

lemma stopStep_allowed:
  assumes "lp_Operation plan = RequestOperationStop" and "key = backgroundKey (lp_SessionID plan) (lp_ProcessID plan)"
    and "\<forall>e\<in>set (snd st). backgroundAllowed grace plan e"
  shows "\<forall>e\<in>set (snd (stopStep grace native registry key i k st)). backgroundAllowed grace plan e"
  using assms
  by (auto simp: stopStep_def stopEffects_def backgroundAllowed_def Let_def
      split: prod.splits option.splits RequestPhase.splits if_splits)

lemma fold_kept: "P st \<Longrightarrow> (\<And>k x. P x \<Longrightarrow> P (f k x)) \<Longrightarrow> P (fold f ks st)"
  by (induction ks arbitrary: st) auto

lemma stop_allowed:
  assumes "lp_Operation plan = RequestOperationStop"
  shows "\<forall>e\<in>set (snd (stopBackground grace plan native registry)). backgroundAllowed grace plan e"
proof -
  let ?key = "backgroundKey (lp_SessionID plan) (lp_ProcessID plan)"
  let ?P = "\<lambda>st. \<forall>e\<in>set (snd st). backgroundAllowed grace plan e"
  have "?P ((phase, t), [RegistryRead ?key])" for phase :: RequestPhase and t :: System by (simp add: backgroundAllowed_def)
  then have "?P (fold (stopStep grace native registry ?key i) ks ((phase, t), [RegistryRead ?key]))" for i ks phase t
    by (rule fold_kept) (rule stopStep_allowed [OF assms refl])
  then show ?thesis by (simp add: stopBackground_def Let_def split: prod.splits) (metis snd_conv)
qed

lemma dispatch_allowed:
  "\<forall>e\<in>set (snd (dispatchBackground grace plan native registry)). backgroundAllowed grace plan e"
proof -
  have "\<forall>e\<in>set (snd (operateBackground grace plan native registry)). backgroundAllowed grace plan e"
    using start_allowed stop_allowed by (auto simp: operateBackground_def backgroundAllowed_def Let_def)
  then show ?thesis by (simp add: dispatchBackground_def split: prod.splits option.splits)
qed

text \<open>Every operation reads the registry, so that none is without an effect.\<close>

lemma stop_nonempty: "snd st \<noteq> [] \<Longrightarrow> snd (fold (stopStep grace native registry key i) ks st) \<noteq> []"
  by (rule fold_kept [of "\<lambda>st. snd st \<noteq> []"]) (auto simp: stopStep_def Let_def split: prod.splits option.splits)

lemma operation_nonempty:
  "snd (startBackground grace plan now startError process s) \<noteq> []" "snd (stopBackground grace plan native registry) \<noteq> []"
proof -
  show "snd (startBackground grace plan now startError process s) \<noteq> []"
    by (simp add: startBackground_def Let_def split: sum.splits)
  obtain found t effects where "fold (stopStep grace native registry (backgroundKey (lp_SessionID plan) (lp_ProcessID plan))
      (length (sy_requests (rg_System registry)))) [0..<5]
      (((case findBackground (rg_System registry) plan of None \<Rightarrow> StopReturned None | Some a \<Rightarrow> StopFound a),
        beginStop plan (rg_System registry)), [RegistryRead (backgroundKey (lp_SessionID plan) (lp_ProcessID plan))])
      = ((found, t), effects)" by (metis surj_pair)
  moreover from this have "effects \<noteq> []" using stop_nonempty by (metis list.distinct(1) snd_conv)
  ultimately show "snd (stopBackground grace plan native registry) \<noteq> []" by (simp add: stopBackground_def Let_def)
qed

lemma dispatch_nonempty: "snd (dispatchBackground grace plan native registry) \<noteq> []"
proof -
  have "snd (operateBackground grace plan native registry) \<noteq> []"
    using operation_nonempty by (simp add: operateBackground_def)
  then show ?thesis by (auto simp: dispatchBackground_def split: prod.splits option.splits)
qed

section \<open>What a run does\<close>

text \<open>
  The effects a plan allows: those of a foreground run for an execute plan, with the launch and the
  collection the plan describes, and those of its own background operation otherwise.
\<close>

definition effectAllowed :: "'b Runner \<Rightarrow> LaunchPlan \<Rightarrow> 'b Effect \<Rightarrow> bool" where
  "effectAllowed runner plan e \<longleftrightarrow> (case e of
     BackgroundDone x \<Rightarrow> lp_Operation plan \<noteq> RequestOperationExecute
       \<and> backgroundAllowed (rn_treeTerminationGrace runner) plan x
   | Started launch \<Rightarrow> lp_Operation plan = RequestOperationExecute
       \<and> (\<exists>invocation. BuildInvocation plan = Inr invocation \<and> launch = nativeLaunch plan invocation)
   | TimerArmed limit \<Rightarrow> lp_Operation plan = RequestOperationExecute
       \<and> limit = wrapInt64 (lp_TimeoutSeconds plan * second)
   | TreeTerminated limit \<Rightarrow> lp_Operation plan = RequestOperationExecute \<and> limit = rn_treeTerminationGrace runner
   | Collected limit what \<Rightarrow> lp_Operation plan = RequestOperationExecute
       \<and> limit = rn_artifactCollectionTimeout runner \<and> what = artifactPlan plan
   | TimerStopped \<Rightarrow> lp_Operation plan = RequestOperationExecute
   | BundleClosed b \<Rightarrow> lp_Operation plan = RequestOperationExecute)"

lemma terminate_allowed:
  "lp_Operation plan = RequestOperationExecute \<Longrightarrow> \<forall>e\<in>set (snd (terminateTree runner native)). effectAllowed runner plan e"
  by (simp add: terminateTree_def effectAllowed_def)

lemma select_allowed:
  "lp_Operation plan = RequestOperationExecute \<Longrightarrow> \<forall>e\<in>set (snd (selectOutcome runner native)). effectAllowed runner plan e"
  using terminate_allowed [of plan runner native]
  by (auto simp: selectOutcome_def split: Selected.splits option.splits prod.splits)

lemma launch_allowed:
  assumes "lp_Operation plan = RequestOperationExecute"
  shows "\<forall>e\<in>set (snd (launchProcess runner plan native)). effectAllowed runner plan e"
proof -
  have timer: "effectAllowed runner plan TimerStopped" "effectAllowed runner plan (TimerArmed (wrapInt64 (lp_TimeoutSeconds plan * second)))"
    using assms by (simp_all add: effectAllowed_def)
  show ?thesis
    using terminate_allowed [OF assms, of runner native] select_allowed [OF assms, of runner native] timer
    by (auto simp: launchProcess_def awaitProcess_def Let_def split: prod.splits)
qed

lemma close_allowed:
  "lp_Operation plan = RequestOperationExecute \<Longrightarrow> \<forall>e\<in>set (closeArtifactBundle b). effectAllowed runner plan e"
  by (cases b) (simp_all add: closeArtifactBundle_def effectAllowed_def)

lemma collect_allowed:
  assumes "lp_Operation plan = RequestOperationExecute"
  shows "\<forall>e\<in>set (snd (collectArtifacts runner plan)). effectAllowed runner plan e"
proof -
  have "effectAllowed runner plan (Collected (rn_artifactCollectionTimeout runner) (artifactPlan plan))"
    using assms by (simp add: effectAllowed_def)
  then show ?thesis
    using close_allowed [OF assms, where runner = runner] by (auto simp: collectArtifacts_def Let_def split: option.splits prod.splits)
qed

lemma complete_allowed:
  assumes "lp_Operation plan = RequestOperationExecute"
  shows "\<forall>e\<in>set (snd (completeForeground runner plan sha s f outcome out err)). effectAllowed runner plan e"
  using collect_allowed [OF assms, of runner] close_allowed [OF assms, where runner = runner]
  by (auto simp: completeForeground_def Let_def split: prod.splits sum.splits)

lemma foreground_allowed:
  assumes "lp_Operation plan = RequestOperationExecute"
  shows "\<forall>e\<in>set (snd (runForeground runner plan sha s f native)). effectAllowed runner plan e"
proof (cases "prepareForeground plan sha s")
  case (Inl e)
  then show ?thesis by (simp add: runForeground_def)
next
  case (Inr p)
  obtain out err launch where p: "p = (out, err, launch)" by (metis prod_cases3)
  have "effectAllowed runner plan (Started launch)"
    using assms Inr p by (auto simp: prepareForeground_ok effectAllowed_def)
  then show ?thesis
    using launch_allowed [OF assms, of runner native] complete_allowed [OF assms, of runner sha s f]
    by (auto simp: runForeground_def Inr p split: prod.splits) (metis snd_conv)+
qed

lemma Run_allowed: "\<forall>e\<in>set (snd (Run runner plan sha s f native registry)). effectAllowed runner plan e"
proof (cases "lp_Operation plan = RequestOperationExecute")
  case True
  then show ?thesis using foreground_allowed by (simp add: Run_def)
next
  case False
  have "\<forall>e\<in>set (snd (runBackground runner plan sha s f native registry)). backgroundAllowed (rn_treeTerminationGrace runner) plan e"
    using dispatch_allowed [of "rn_treeTerminationGrace runner" plan native registry]
    by (auto simp: runBackground_def split: sum.splits prod.splits)
  then show ?thesis using False by (auto simp: Run_def effectAllowed_def split: prod.splits)
qed

section \<open>A stop returns\<close>

fun stopRank :: "RequestPhase \<Rightarrow> nat option" where
  "stopRank (StopFound a) = Some 5"
| "stopRank (StopMarking a) = Some 4"
| "stopRank (StopKilling a) = Some 3"
| "stopRank (StopWaiting a) = Some 2"
| "stopRank (StopRemoving a) = Some 1"
| "stopRank (StopReturned r) = Some 0"
| "stopRank _ = None"

lemma stopStep_rank:
  assumes "stopRank (fst (fst st)) = Some n"
  shows "\<exists>m \<le> n - 1. stopRank (fst (fst (stopStep grace native registry key i k st))) = Some m"
proof -
  obtain phase s effects where st: "st = ((phase, s), effects)" by (metis surj_pair)
  show ?thesis using assms
    by (cases phase) (auto simp: st stopStep_def requestStep_def stopEvent_def Let_def)
qed

lemma stop_steps_rank:
  "stopRank (fst (fst st)) = Some n \<Longrightarrow>
   \<exists>m \<le> n - length ks. stopRank (fst (fst (fold (stopStep grace native registry key i) ks st))) = Some m"
proof (induction ks arbitrary: st n)
  case (Cons k ks)
  obtain m where "m \<le> n - 1" "stopRank (fst (fst (stopStep grace native registry key i k st))) = Some m"
    using stopStep_rank [OF Cons.prems] by blast
  then show ?case using Cons.IH by fastforce
qed auto

lemma stop_returned: "stopRank phase = Some 0 \<longleftrightarrow> (\<exists>r. phase = StopReturned r)"
  by (cases phase) auto

theorem stop_returns:
  assumes "stopRank (fst (fst st)) = Some n" and "n \<le> 5"
  shows "\<exists>r t effects. fold (stopStep grace native registry key i) [0..<5] st = ((StopReturned r, t), effects)"
  using stop_steps_rank [OF assms(1), of "[0..<5]" grace native registry key i] assms(2) stop_returned
  by (metis bot_nat_0.extremum_uniqueI diff_is_0_eq' diff_zero length_upt prod.collapse)

section \<open>Its steps are steps of the system\<close>

text \<open>The other goroutines take steps of the system, and leave the request itself to its own goroutine.\<close>

definition othersStep :: "Registry \<Rightarrow> nat \<Rightarrow> bool" where
  "othersStep registry i \<longleftrightarrow> (\<forall>k s. sysStep\<^sup>*\<^sup>* s (rg_Others registry k s)
     \<and> (i < length (sy_requests s) \<longrightarrow> i < length (sy_requests (rg_Others registry k s))
          \<and> sy_requests (rg_Others registry k s) ! i = sy_requests s ! i))"

definition ownRequest :: "string \<Rightarrow> nat \<Rightarrow> (RequestPhase \<times> System) \<times> BackgroundEffect list \<Rightarrow> bool" where
  "ownRequest key i st \<longleftrightarrow> (case st of ((phase, s), _) \<Rightarrow>
     sysStep\<^sup>*\<^sup>* initSystem s \<and> i < length (sy_requests s) \<and> sy_requests s ! i = (key, phase))"

lemma stopStep_own:
  assumes "othersStep registry i" and "ownRequest key i st"
  shows "ownRequest key i (stopStep grace native registry key i k st)"
proof -
  obtain phase s effects where st: "st = ((phase, s), effects)" by (metis surj_pair)
  let ?t = "rg_Others registry k s"
  have s: "sysStep\<^sup>*\<^sup>* initSystem s" "i < length (sy_requests s)" "sy_requests s ! i = (key, phase)"
    using assms(2) by (simp_all add: ownRequest_def st)
  then have t: "sysStep\<^sup>*\<^sup>* initSystem ?t" "i < length (sy_requests ?t)" "sy_requests ?t ! i = (key, phase)"
    using assms(1) unfolding othersStep_def by (auto intro: rtranclp_trans)
  show ?thesis
  proof (cases "requestStep key phase (stopEvent native registry phase ?t) ?t")
    case None
    then show ?thesis using assms(2) by (simp add: st stopStep_def Let_def)
  next
    case (Some r)
    obtain phase' t' where r: "r = (phase', t')" by fastforce
    have "sysStep ?t (t'\<lparr>sy_requests := (sy_requests ?t)[i := (key, phase')]\<rparr>)"
      using t Some r by (intro sysStep.request) auto
    then have "sysStep\<^sup>*\<^sup>* initSystem (t'\<lparr>sy_requests := (sy_requests ?t)[i := (key, phase')]\<rparr>)"
      using t(1) by (rule rtranclp.rtrancl_into_rtrancl [rotated])
    then show ?thesis using t(2) Some r by (simp add: st stopStep_def ownRequest_def Let_def)
  qed
qed

text \<open>The state a stop leaves, and that it holds the entry it answers with only once that has finished.\<close>

lemma stop_reachable_answer:
  assumes "sysStep\<^sup>*\<^sup>* initSystem (rg_System registry)"
    and "othersStep registry (length (sy_requests (rg_System registry)))"
    and "stopBackground grace plan native registry = ((r, t), effects)"
  shows "sysStep\<^sup>*\<^sup>* initSystem t \<and> (\<forall>a. r = Some a \<longrightarrow> a < length (sy_heap t) \<and> bp_done (sy_heap t ! a))"
proof -
  let ?s = "rg_System registry" let ?i = "length (sy_requests ?s)"
  let ?key = "backgroundKey (lp_SessionID plan) (lp_ProcessID plan)"
  let ?found = "case findBackground ?s plan of None \<Rightarrow> StopReturned None | Some a \<Rightarrow> StopFound a"
  let ?st = "((?found, beginStop plan ?s), [RegistryRead ?key])"
  have "sysStep\<^sup>*\<^sup>* initSystem (beginStop plan ?s)"
    using assms(1) sysStep.stop by (rule rtranclp.rtrancl_into_rtrancl)
  then have "ownRequest ?key ?i ?st" by (simp add: ownRequest_def beginStop_def)
  then have own: "ownRequest ?key ?i (fold (stopStep grace native registry ?key ?i) [0..<5] ?st)"
    by (rule fold_kept) (rule stopStep_own [OF assms(2)])
  have "\<exists>n \<le> 5. stopRank ?found = Some n" by (cases "findBackground ?s plan") simp_all
  then obtain r' t' fs where run: "fold (stopStep grace native registry ?key ?i) [0..<5] ?st = ((StopReturned r', t'), fs)"
    using stop_returns [of ?st] by (metis fst_conv)
  have same: "r' = r" "t' = t" using assms(3) run by (simp_all add: stopBackground_def Let_def)
  have t: "sysStep\<^sup>*\<^sup>* initSystem t" "(?key, StopReturned r) \<in> set (sy_requests t)"
    using own [unfolded run ownRequest_def same, simplified] nth_mem by (blast, metis)
  have "a < length (sy_heap t) \<and> bp_done (sy_heap t ! a)" if "r = Some a" for a
    using background.reachable [OF t(1)] t(2) that
    by (auto simp: systemGood_def requestsGood_def requestTargets_def mustBeDone_def)
  then show ?thesis using t(1) by blast
qed

text \<open>
  The registry survives every request: when the state a request meets is reachable and the other
  goroutines take steps of the system, the state it leaves is reachable too, whatever its operation
  and the native side, so that all invariants of the registry hold there; and a stop that answers
  with an entry answers with one that has finished.
\<close>

theorem dispatch_reachable:
  assumes "sysStep\<^sup>*\<^sup>* initSystem (rg_System registry)"
    and "othersStep registry (length (sy_requests (rg_System registry)))"
    and "dispatchBackground grace plan native registry = ((r, t), effects)"
  shows "sysStep\<^sup>*\<^sup>* initSystem t \<and> (lp_Operation plan = RequestOperationStop \<longrightarrow> (\<forall>e. r = Some e \<longrightarrow> bp_done e))"
proof -
  let ?s = "rg_System registry"
  have others: "sysStep\<^sup>*\<^sup>* x (rg_Others registry k x)" for k x using assms(2) by (simp add: othersStep_def)
  obtain a u fs where operate: "operateBackground grace plan native registry = ((a, u), fs)" by (metis surj_pair)
  have u: "sysStep\<^sup>*\<^sup>* initSystem u"
    "lp_Operation plan = RequestOperationStop \<Longrightarrow> a = Some b \<Longrightarrow> b < length (sy_heap u) \<and> bp_done (sy_heap u ! b)" for b
  proof -
    have start: "sysStep\<^sup>*\<^sup>* initSystem u"
      if "startBackground grace plan (rg_StartedAt registry) (nt_StartError native) (nt_Process native) ?s = ((a, u), fs)"
      using assms(1) sysStep.start [OF that] by (rule rtranclp.rtrancl_into_rtrancl)
    show "sysStep\<^sup>*\<^sup>* initSystem u"
      using operate start stop_reachable_answer [OF assms(1,2), of grace plan native a u fs] assms(1)
      by (auto simp: operateBackground_def split: if_splits)
    show "b < length (sy_heap u) \<and> bp_done (sy_heap u ! b)" if "lp_Operation plan = RequestOperationStop" "a = Some b"
      using operate stop_reachable_answer [OF assms(1,2), of grace plan native a u fs] that
      by (simp add: operateBackground_def operation_defs)
  qed
  show ?thesis
  proof (cases a)
    case None
    then show ?thesis using assms(3) operate u(1) by (auto simp: dispatchBackground_def)
  next
    case (Some b)
    let ?s1 = "rg_Others registry 5 u" let ?s2 = "rg_Others registry 6 ?s1" let ?s3 = "rg_Others registry 7 ?s2"
    have t: "t = ?s3" "r = Some (fst (readEntry registry b u))"
      using assms(3) operate Some by (auto simp: dispatchBackground_def readEntry_def Let_def)
    have run: "sysStep\<^sup>*\<^sup>* u ?s3" using others by (meson rtranclp_trans)
    have "bp_done (sy_heap ?s3 ! b)" if stop: "lp_Operation plan = RequestOperationStop"
    proof -
      let ?e = "sy_heap u ! b"
      let ?r = "(bp_state ?e, bp_finishedAt ?e, bp_exitCode ?e)"
      have "b < length (sy_heap ?s3) \<and> finishedAs ?r (sy_heap ?s3 ! b)"
        by (rule background.kept [OF run background.reachable [OF u(1)]])
          (use finished_kept u(2) [OF stop Some] in \<open>auto simp: finishedAs_def\<close>)
      then show ?thesis by (simp add: finishedAs_def)
    qed
    then show ?thesis using t u(1) run by (auto simp: readEntry_def Let_def)
  qed
qed

end
