(* ===== verification/Policy_Properties.thy ===== *)
theory Policy_Properties
  imports Samples Execution_Policy
begin

text \<open>
  The properties of paths, of the installed configuration, of the workload environment, of the
  authorization of an execute envelope and of the shell invocation.
\<close>

section \<open>Paths and configurations\<close>

text \<open>
  Containment of canonical Linux paths is containment of their segments: a directory contains
  a path exactly if its segments begin the segments of the path, so a sibling whose name merely
  begins with the directory's name is outside.
\<close>
theorem linux_containment_is_segment_prefix:
  assumes "ValidateAbsolute Linux a = Inr ()" and "ValidateAbsolute Linux b = Inr ()"
  shows "Contains Linux a b \<longleftrightarrow> prefix (linuxSegments a) (linuxSegments b)"
  using assms
  by (intro Contains_Linux_segments) (auto simp: ValidateAbsolute_def platform_defs split: if_splits)

lemma linux_containment_is_segment_prefix_witness:
  "\<not> Contains Linux ''/srv/projects'' ''/srv/projects-private/x''"
proof -
  have "ValidateAbsolute Linux ''/srv/projects'' = Inr ()"
    "ValidateAbsolute Linux ''/srv/projects-private/x'' = Inr ()" by code_simp+
  note iff = linux_containment_is_segment_prefix [OF this]
  have "\<not> prefix (linuxSegments ''/srv/projects'') (linuxSegments ''/srv/projects-private/x'')"
    by code_simp
  then show ?thesis by (simp only: iff simp_thms)
qed

text \<open>
  Outside ASCII the Windows order is inconsistent: two valid directories that the code takes
  for equal need not contain the same paths, because equality folds case and containment lowers it.
\<close>
theorem windows_equal_roots_differ:
  "\<exists>a b c. ValidateAbsolute Windows a = Inr () \<and> ValidateAbsolute Windows b = Inr ()
     \<and> ValidateAbsolute Windows c = Inr ()
     \<and> Equal Windows a b \<and> Contains Windows b c \<and> \<not> Contains Windows a c"
proof -
  let ?a = "[CHR ''C'', CHR '':'', CHR 0x5C, CHR 0xC5, CHR 0xBF]"
  let ?b = "[CHR ''C'', CHR '':'', CHR 0x5C, CHR ''s'']"
  let ?c = "[CHR ''C'', CHR '':'', CHR 0x5C, CHR ''s'', CHR 0x5C, CHR ''x'']"
  have "ValidateAbsolute Windows ?a = Inr ()" by code_simp
  moreover have "ValidateAbsolute Windows ?b = Inr ()" by code_simp
  moreover have "ValidateAbsolute Windows ?c = Inr ()" by code_simp
  moreover have "Equal Windows ?a ?b" by code_simp
  moreover have "Contains Windows ?b ?c" by code_simp
  moreover have "\<not> Contains Windows ?a ?c" by code_simp
  ultimately show ?thesis by blast
qed

text \<open>
  C29. In a valid configuration, on either platform, no two approved roots overlap, none overlaps
  the profile or the temporary directory, and no shell and no search path entry is contained in an
  approved root, as the code compares paths.  On Linux this holds path by path: every path lies
  under at most one approved root, and no path under an approved root lies under the profile or
  the temporary directory.
\<close>
theorem config_roots_disjoint:
  assumes "ValidateConfig cfg = Inr ()"
  defines "p \<equiv> cf_Platform cfg"
  shows "\<exists>roots bindings entries. cf_ApprovedRoots cfg = Some roots \<and> cf_Shells cfg = Some bindings
    \<and> cf_PathEntries cfg = Some entries
    \<and> (\<forall>i < length roots. \<forall>j < length roots. i \<noteq> j \<longrightarrow> \<not> Overlaps p (roots ! i) (roots ! j))
    \<and> (\<forall>root\<in>set roots. \<not> Overlaps p root (cf_ProfileRoot cfg) \<and> \<not> Overlaps p root (cf_TempRoot cfg)
         \<and> (\<forall>b\<in>set bindings. \<not> Contains p root (sb_Executable b)) \<and> (\<forall>e\<in>set entries. \<not> Contains p root e))
    \<and> (p = Linux \<longrightarrow>
         (\<forall>i < length roots. \<forall>j < length roots. i \<noteq> j \<longrightarrow>
            \<not> (\<exists>q. Contains p (roots ! i) q \<and> Contains p (roots ! j) q))
       \<and> (\<forall>root\<in>set roots. \<forall>q. Contains p root q \<longrightarrow>
            \<not> Contains p (cf_ProfileRoot cfg) q \<and> \<not> Contains p (cf_TempRoot cfg) q))"
proof -
  note facts = ValidateConfig_facts [OF assms(1), folded p_def]
  obtain roots where roots: "cf_ApprovedRoots cfg = Some roots"
    "\<forall>root\<in>set roots. \<not> Overlaps p root (cf_ProfileRoot cfg) \<and> \<not> Overlaps p root (cf_TempRoot cfg)"
    "sorted_wrt (\<lambda>a b. \<not> Overlaps p b a) roots"
    using facts(3) by blast
  obtain bs where bs: "cf_Shells cfg = Some bs" "\<forall>b\<in>set bs. \<forall>root\<in>set roots. \<not> Contains p root (sb_Executable b)"
    using facts(4) roots(1) by auto
  obtain es where es: "cf_PathEntries cfg = Some es" "\<forall>e\<in>set es. \<forall>root\<in>set roots. \<not> Contains p root e"
    using facts(5) roots(1) by auto
  have apart: "\<not> (\<exists>q. Contains p a q \<and> Contains p b q)" if "p = Linux" "\<not> Overlaps p a b" for a b
    using that linuxPaths.overlap_iff [of a b] by (simp add: Overlaps_def)
  have pair: "\<forall>i < length roots. \<forall>j < length roots. i \<noteq> j \<longrightarrow> \<not> Overlaps p (roots ! i) (roots ! j)"
    using roots(3) sorted_wrt_nth_less [of _ roots] Overlaps_sym by (metis linorder_neqE_nat)
  have linux: "(\<forall>i < length roots. \<forall>j < length roots. i \<noteq> j \<longrightarrow>
         \<not> (\<exists>q. Contains p (roots ! i) q \<and> Contains p (roots ! j) q))
       \<and> (\<forall>root\<in>set roots. \<forall>q. Contains p root q \<longrightarrow>
            \<not> Contains p (cf_ProfileRoot cfg) q \<and> \<not> Contains p (cf_TempRoot cfg) q)" if "p = Linux"
    using apart [OF that] pair roots(2) by blast
  have rest: "\<forall>root\<in>set roots. \<not> Overlaps p root (cf_ProfileRoot cfg) \<and> \<not> Overlaps p root (cf_TempRoot cfg)
         \<and> (\<forall>b\<in>set bs. \<not> Contains p root (sb_Executable b)) \<and> (\<forall>e\<in>set es. \<not> Contains p root e)"
    using roots(2) bs(2) es(2) by blast
  show ?thesis
    by (intro exI [of _ roots] exI [of _ bs] exI [of _ es] conjI roots(1) bs(1) es(1) pair rest impI linux [THEN conjunct1]
        linux [THEN conjunct2])
qed

lemma config_roots_disjoint_witness:
  "\<not> (\<exists>q. Contains Linux ''/srv/projects'' q \<and> Contains Linux ''/srv/projects-private'' q)"
proof -
  let ?cfg = "sampleConfig\<lparr>cf_ApprovedRoots := Some [''/srv/projects'', ''/srv/projects-private'']\<rparr>"
  have "ValidateConfig ?cfg = Inr ()" by code_simp
  from config_roots_disjoint [OF this] obtain roots where
    "cf_ApprovedRoots ?cfg = Some roots" "cf_Platform ?cfg = Linux \<longrightarrow>
       (\<forall>i < length roots. \<forall>j < length roots. i \<noteq> j \<longrightarrow>
          \<not> (\<exists>q. Contains (cf_Platform ?cfg) (roots ! i) q \<and> Contains (cf_Platform ?cfg) (roots ! j) q))"
    by blast
  moreover have "cf_Platform ?cfg = Linux" by (simp add: sampleConfig_def platform_defs)
  ultimately have apart: "\<forall>i < length roots. \<forall>j < length roots. i \<noteq> j \<longrightarrow>
      \<not> (\<exists>q. Contains Linux (roots ! i) q \<and> Contains Linux (roots ! j) q)"
    and roots: "roots = [''/srv/projects'', ''/srv/projects-private'']" by simp_all
  show ?thesis using apart [rule_format, of 0 1] by (simp add: roots)
qed

text \<open>
  That no search path entry lies under an approved root does not carry over to the search
  path the workload gets: a Linux entry may contain a colon, and the search path of a valid
  configuration then has a directory under an approved root.
\<close>
theorem search_path_can_enter_root:
  "\<exists>cfg root dir. ValidateConfig cfg = Inr () \<and> root \<in> set (sl (cf_ApprovedRoots cfg))
     \<and> (''PATH'', joinWith '':'' (sl (cf_PathEntries cfg))) \<in> set (gatewayValues cfg ctx)
     \<and> dir \<in> set (splitOn CHR '':'' (joinWith '':'' (sl (cf_PathEntries cfg)))) \<and> Contains Linux root dir"
proof -
  let ?cfg = "sampleConfig\<lparr>cf_PathEntries := Some [''/usr/bin:/srv/projects/bin'']\<rparr>"
  have "ValidateConfig ?cfg = Inr ()" by code_simp
  moreover have "''/srv/projects'' \<in> set (sl (cf_ApprovedRoots ?cfg))" by (simp add: sampleConfig_def)
  moreover have "(''PATH'', joinWith '':'' (sl (cf_PathEntries ?cfg))) \<in> set (gatewayValues ?cfg ctx)"
    by (simp add: gatewayValues_def sampleConfig_def platform_defs)
  moreover have "''/srv/projects/bin'' \<in> set (splitOn CHR '':'' (joinWith '':'' (sl (cf_PathEntries ?cfg))))"
    by code_simp
  moreover have "Contains Linux ''/srv/projects'' ''/srv/projects/bin''" by code_simp
  ultimately show ?thesis by blast
qed

section \<open>The workload environment\<close>

text \<open>
  C28. A workload sees only allow-listed variables: every entry of the environment is either one of
  the gateway's own variables, with its value from the configuration and the request context, or
  one of the safe names of the platform, with a value taken from an entry of the base environment
  under that name; no name occurs twice.
\<close>
theorem environment_allowlisted:
  assumes "BuildEnvironment cfg base ctx = Inr env"
  shows "\<exists>kvs. set env = (\<lambda>(n, v). n @ ''='' @ v) ` set kvs \<and> distinct (map fst kvs)
    \<and> length env = length kvs
    \<and> (\<forall>(n, v)\<in>set kvs. (n, v) \<in> set (gatewayValues cfg ctx)
         \<or> (n \<in> set (safeNames (cf_Platform cfg))
            \<and> (\<exists>e\<in>set base. contribution (cf_Platform cfg) e = Some (n, v))))"
proof -
  let ?c = "contributions (cf_Platform cfg) base"
  define kvs where "kvs = ?c @ gatewayValues cfg ctx"
  from assms have d: "distinct (map fst ?c)" and env: "env = sortedEnvironment (cf_Platform cfg) kvs"
    by (simp_all add: BuildEnvironment_ok kvs_def)
  have dk: "distinct (map fst kvs)" unfolding kvs_def by (rule environment_distinct [OF d])
  have "set env = (\<lambda>n. n @ ''='' @ the (map_of kvs n)) ` fst ` set kvs"
    by (simp only: env sortedEnvironment_def set_map set_sort)
  also have "\<dots> = (\<lambda>(n, v). n @ ''='' @ v) ` set kvs"
    unfolding image_image using dk by (intro image_cong) (auto simp: map_of_is_SomeI)
  finally have "set env = (\<lambda>(n, v). n @ ''='' @ v) ` set kvs" .
  moreover have "length env = length kvs" by (simp add: env sortedEnvironment_def)
  moreover have "\<forall>(n, v)\<in>set kvs. (n, v) \<in> set (gatewayValues cfg ctx)
      \<or> (n \<in> set (safeNames (cf_Platform cfg))
         \<and> (\<exists>e\<in>set base. contribution (cf_Platform cfg) e = Some (n, v)))"
    using contribution_safe by (fastforce simp: kvs_def contributions_def List.map_filter_def)
  ultimately show ?thesis using dk by blast
qed

lemma environment_allowlisted_witness:
  "\<exists>env. BuildEnvironment sampleConfig sampleBase sampleContext = Inr env \<and> length env = 9"
  using environment_allowlisted [OF sampleEnvironment] sampleEnvironment
  by (auto simp: sortedEnvironment_def gatewayValues_def sampleConfig_def platform_defs)

text \<open>
  The environment does not depend on the order of the base environment: any permutation of an
  accepted base environment builds the same list.
\<close>
theorem environment_order_independent:
  assumes "mset base = mset base'" and "BuildEnvironment cfg base ctx = Inr env"
  shows "BuildEnvironment cfg base' ctx = Inr env"
proof -
  let ?c = "contributions (cf_Platform cfg) base" and ?c' = "contributions (cf_Platform cfg) base'"
  have same: "set base = set base'" "length base = length base'"
    using assms(1) by (auto dest: mset_eq_setD mset_eq_length)
  have m: "mset ?c = mset ?c'"
    using assms(1) by (simp add: contributions_def List.map_filter_def mset_filter)
  from assms(2) have d: "distinct (map fst ?c)" and sys: "systemPathsOk (cf_Platform cfg) ?c"
    by (simp_all add: BuildEnvironment_ok)
  have d': "distinct (map fst ?c')"
    using d m by (metis mset_map mset_eq_imp_distinct_iff)
  then have "map_of ?c = map_of ?c'" using d m by (metis map_of_inject_set mset_eq_setD)
  then have "systemPathsOk (cf_Platform cfg) ?c = systemPathsOk (cf_Platform cfg) ?c'"
    by (simp only: systemPathsOk_def)
  with sys have sys': "systemPathsOk (cf_Platform cfg) ?c'" by (rule iffD1 [rotated])
  let ?g = "gatewayValues cfg ctx"
  have inj: "inj_on (\<lambda>n. if cf_Platform cfg = Windows then toLower n else n) (fst ` set (?c @ ?g))"
  proof (cases "cf_Platform cfg = Windows")
    case True
    then show ?thesis
      using environment_names_inj [OF True _ True, of ?c ctx] contributions_names [of "cf_Platform cfg" base]
      by simp
  qed simp
  have "sortedEnvironment (cf_Platform cfg) (?c @ ?g) = sortedEnvironment (cf_Platform cfg) (?c' @ ?g)"
    by (rule sortedEnvironment_mset [OF environment_distinct [OF d] _ inj]) (simp add: m)
  then show ?thesis using assms(2) same d' sys' by (simp add: BuildEnvironment_ok)
qed

lemma environment_order_independent_witness:
  "isOk (BuildEnvironment sampleConfig (rev sampleBase) sampleContext)"
  using environment_order_independent [OF _ sampleEnvironment, of "rev sampleBase"] by (simp add: isOk_def)

section \<open>Authorization\<close>

text \<open>
  C27. An authorized plan takes its authority from the installation only and its work from the
  accepted request only: the identity is the configured execution identity, which differs from
  the control identity; the executable is the one configured for the requested shell; the
  environment is the one built from the configuration; the working directory is a valid path
  inside a root equal to a configured one; script and limits are those of the request whose
  digest the plan carries.
\<close>
theorem authorized_plan_safe:
  assumes "Authorize cfg envelope base resolver = Inr plan"
  defines "request \<equiv> ar_Request (ee_AcceptedRequest envelope)"
  shows "lp_ExecutionIdentity plan = cf_ExecutionIdentity cfg
    \<and> \<not> principalsEqual (cf_Platform cfg) (cf_ControlIdentity cfg) (lp_ExecutionIdentity plan)
    \<and> (\<exists>b\<in>set (sl (cf_Shells cfg)). sb_Shell b = rq_Shell request \<and> sb_Executable b = lp_Executable plan)
    \<and> BuildEnvironment cfg base \<lparr>cx_RequestID = rq_RequestID request, cx_SessionID = rq_SessionID request,
         cx_AttemptID = ee_AttemptID envelope\<rparr> = Inr (lp_Environment plan)
    \<and> (\<exists>root\<in>set (sl (cf_ApprovedRoots cfg)). Equal (cf_Platform cfg) root (lp_ApprovedRoot plan))
    \<and> Contains (cf_Platform cfg) (lp_ApprovedRoot plan) (lp_WorkingDirectory plan)
    \<and> ValidateAbsolute (cf_Platform cfg) (lp_WorkingDirectory plan) = Inr ()
    \<and> lp_Script plan = rq_Script request \<and> lp_TimeoutSeconds plan = rq_TimeoutSeconds request
    \<and> lp_MaxOutputBytes plan = rq_MaxOutputBytes request
    \<and> lp_RequestDigest plan = sha256Hex (encodeJson (requestJson request))"
proof -
  note ok = Authorize_ok [OF assms(1)]
  have "\<not> principalsEqual (cf_Platform cfg) (cf_ControlIdentity cfg) (cf_ExecutionIdentity cfg)"
    by (rule ValidateConfig_facts(2) [OF ok(1)])
  moreover have "\<exists>b\<in>set (sl (cf_Shells cfg)). sb_Shell b = rq_Shell request \<and> sb_Executable b = lp_Executable plan"
    using configuredShell_Some [OF ok(4)] by (simp add: ok request_def)
  moreover have "lp_RequestDigest plan = sha256Hex (encodeJson (requestJson request))"
  proof -
    have "DigestRequest request = Inr (ar_RequestDigest (ee_AcceptedRequest envelope))"
      using ok(2) by (simp add: request_def ValidateAcceptedRequestRecord_ok)
    then show ?thesis by (simp add: DigestRequest_ok ok(8))
  qed
  moreover have "(\<exists>root\<in>set (sl (cf_ApprovedRoots cfg)). Equal (cf_Platform cfg) root (lp_ApprovedRoot plan))
      \<and> Contains (cf_Platform cfg) (lp_ApprovedRoot plan) (lp_WorkingDirectory plan)
      \<and> ValidateAbsolute (cf_Platform cfg) (lp_WorkingDirectory plan) = Inr ()"
    using ok(3) by auto
  ultimately show ?thesis
    using ok(5) by (simp add: ok(6-18) request_def)
qed

definition sampleEnvelope :: ExecuteEnvelope where
  "sampleEnvelope = \<lparr>ee_ProtocolVersion = 1, ee_Operation = ''execute'', ee_AttemptID = ''attempt-000001'',
     ee_AcceptedRequest = sampleAccepted\<rparr>"

definition sampleResolver :: Resolver where
  "sampleResolver platform requested roots =
     (if roots = [] then None
      else Some \<lparr>rs_RequestedPath = requested, rs_WorkingDirectory = requested, rs_ApprovedRoot = hd roots\<rparr>)"

lemma sampleEnvelope_valid: "ValidateExecuteEnvelope sampleEnvelope = Inr ()"
proof -
  have "identifierPattern ''attempt-000001''" by code_simp
  then show ?thesis
    using sampleAccepted_valid
    by (simp add: sampleEnvelope_def BrokerCurrentVersion_def OperationExecute_def)
qed

lemma sampleAuthorize:
  "\<exists>plan. Authorize sampleConfig sampleEnvelope sampleBase (Some sampleResolver) = Inr plan"
proof -
  have "validateResolution sampleConfig ''/srv/projects/demo''
      \<lparr>rs_RequestedPath = ''/srv/projects/demo'', rs_WorkingDirectory = ''/srv/projects/demo'',
       rs_ApprovedRoot = ''/srv/projects''\<rparr> = Inr ()" by code_simp
  moreover have "requestPathMatchesPlatform ''linux'' ''/srv/projects/demo''" by code_simp
  moreover have "rq_WorkingDirectory (ar_Request (ee_AcceptedRequest sampleEnvelope)) = ''/srv/projects/demo''"
    "rq_Shell (ar_Request (ee_AcceptedRequest sampleEnvelope)) = ''bash''"
    "\<lparr>cx_RequestID = rq_RequestID (ar_Request (ee_AcceptedRequest sampleEnvelope)),
      cx_SessionID = rq_SessionID (ar_Request (ee_AcceptedRequest sampleEnvelope)),
      cx_AttemptID = ee_AttemptID sampleEnvelope\<rparr> = sampleContext"
    by (simp_all add: sampleEnvelope_def sampleAccepted_def sampleRequest_def sampleContext_def)
  moreover have "cf_Platform sampleConfig = ''linux''" "sl (cf_ApprovedRoots sampleConfig) = [''/srv/projects'']"
    "configuredShell (sl (cf_Shells sampleConfig)) ''bash'' = Some ''/bin/bash''"
    by (simp_all add: sampleConfig_def)
  ultimately show ?thesis
    using sampleEnvelope_valid sampleConfig_valid sampleEnvironment
    by (simp add: Authorize_def Let_def sampleResolver_def fromOption_def
        del: ValidateExecuteEnvelope_ok validateResolution_ok)
qed

lemma authorized_plan_safe_witness:
  "\<exists>plan. Authorize sampleConfig sampleEnvelope sampleBase (Some sampleResolver) = Inr plan
     \<and> lp_ExecutionIdentity plan = cf_ExecutionIdentity sampleConfig"
  using sampleAuthorize authorized_plan_safe by blast

text \<open>
  The script of a request never reaches the command line: two plans that differ only in their
  script start the same executable with the same arguments, and the script is exactly what the
  shell reads from its standard input.
\<close>
theorem script_only_on_stdin:
  assumes "BuildInvocation plan = Inr i" and "BuildInvocation (plan\<lparr>lp_Script := script\<rparr>) = Inr i'"
  shows "iv_executable i' = iv_executable i \<and> iv_arguments i' = iv_arguments i
    \<and> iv_script i = lp_Script plan \<and> iv_script i' = script"
  using assms by (auto simp: BuildInvocation_def split: if_splits option.splits)

lemma script_only_on_stdin_witness:
  "\<exists>plan i. BuildInvocation plan = Inr i \<and> iv_script i = ''ls''"
proof -
  obtain plan where plan: "Authorize sampleConfig sampleEnvelope sampleBase (Some sampleResolver) = Inr plan"
    using sampleAuthorize by blast
  note ok = Authorize_ok [OF plan]
  have shell: "lp_Shell plan = ''bash''" and script: "lp_Script plan = ''ls''"
    by (simp_all add: ok sampleEnvelope_def sampleAccepted_def sampleRequest_def)
  have "lp_Executable plan = ''/bin/bash''"
    using ok(4) by (simp add: shell sampleConfig_def)
  then obtain i where i: "BuildInvocation plan = Inr i"
    and i': "BuildInvocation (plan\<lparr>lp_Script := ''ls''\<rparr>) = Inr i"
    using shell script by (simp add: BuildInvocation_def shellArguments_def shell_defs)
  show ?thesis using script_only_on_stdin [OF i i'] i by auto
qed

end
