(* ===== verification/System_Properties.thy ===== *)
theory System_Properties
  imports System_Facts Background_Dispatch Policy_Properties
begin

text \<open>
  From the accepted request to the bound report: authorization, the two kinds of run and the
  validation of the report against the accepted request fit together.
\<close>

text \<open>
  C7. The gateway answers every request it authorizes: for an authorized execute request, an
  honest clock and outputs short of $2^{63}$ bytes, the run returns an output whatever the native
  side does, and its report is accepted against the request by the validation of the control side.
\<close>
theorem authorized_execution_reported:
  assumes "Authorize cfg envelope base resolver = Inr plan" and "lp_Operation plan = RequestOperationExecute"
    and "isLowerHex 40 sha" and "s \<le> f" and "reportableYear s" and "reportableYear f"
    and "length (concat (nt_Stdout native)) < 2 ^ 63" and "length (concat (nt_Stderr native)) < 2 ^ 63"
  shows "\<exists>out effects. Run runner plan sha s f native registry = (Inr out, effects)
    \<and> ValidateExecutionReportBinding (ee_AcceptedRequest envelope) (ot_Report out) = Inr ()
    \<and> er_AttemptID (ot_Report out) = ee_AttemptID envelope"
proof -
  obtain c l where p: "prepareForeground plan sha s = Inr (c, c, l)"
    using authorized_prepares [OF assms(1,3,5)] by blast
  obtain st ec safe w where o: "launchProcess runner plan native = ((st, ec, safe), w)"
    by (metis prod_cases4 prod.exhaust)
  obtain m b k where off: "offered runner plan safe = ((m, b), k)" by (metis prod.exhaust)
  obtain out e where run: "runForeground runner plan sha s f native = (Inr out, e)"
    using completeForeground_ok(1) [OF p assms(4,6) launchProcess_outcome [OF o] assms(7,8) off]
    by (simp add: runForeground_def p o split: prod.splits if_splits)
  have "er_AttemptID (ot_Report out) = lp_AttemptID plan"
    using run
  proof (rule runForeground_output)
    fix c1 c2 l st ec safe w m b k
    assume "completeForeground runner plan sha s f (st, ec, safe) (captureWrites (nt_Stdout native) c1)
       (captureWrites (nt_Stderr native) c2) = (Inr out, drop (Suc (length w)) e)"
    then show ?thesis
      by (auto simp: completeForeground_def Let_def split: if_splits sum.splits prod.splits)
  qed
  then show ?thesis
    using run assms(2) authorized_run_binding [OF assms(1) run assms(7,8)] Authorize_ok(14) [OF assms(1)]
    by (simp add: Run_def)
qed

text \<open>A registry without entries, while nothing else happens.\<close>

definition idleRegistry :: Registry where
  "idleRegistry = \<lparr>rg_System = initSystem, rg_Others = \<lambda>_ s. s, rg_StartedAt = sampleInstant, rg_ContextEnded = False\<rparr>"

lemma authorized_execution_reported_witness:
  "\<exists>plan out effects. Authorize sampleConfig sampleEnvelope sampleBase (Some sampleResolver) = Inr plan
     \<and> Run sampleRunner plan sampleSHA sampleInstant sampleInstant sampleNative idleRegistry = (Inr out, effects)
     \<and> ValidateExecutionReportBinding sampleAccepted (ot_Report out) = Inr ()"
proof -
  obtain plan where plan: "Authorize sampleConfig sampleEnvelope sampleBase (Some sampleResolver) = Inr plan"
    using sampleAuthorize by blast
  have req: "ee_AcceptedRequest sampleEnvelope = sampleAccepted" by (simp add: sampleEnvelope_def)
  have "lp_Operation plan = RequestOperationExecute"
    by (simp add: Authorize_ok(15) [OF plan] req sampleAccepted_def sampleRequest_def operation_defs)
  moreover have "isLowerHex 40 sampleSHA" by code_simp
  ultimately show ?thesis
    using authorized_execution_reported [OF plan _ _ order.refl sampleYear sampleYear sampleStreams] plan
    by (simp add: req) blast
qed

lemma authorized_background_plan:
  assumes "Authorize cfg envelope base resolver = Inr plan" and "lp_Operation plan \<noteq> RequestOperationExecute"
    and "isLowerHex 40 sha"
  shows "validateBackgroundPlan plan sha = Inr ()"
proof -
  note ok = Authorize_ok [OF assms(1)] and rq = authorized_request [OF assms(1)]
  have op: "rq_Operation (ar_Request (ee_AcceptedRequest envelope)) \<noteq> RequestOperationExecute"
    using assms(2) ok(15) by simp
  then have "identifierPattern (lp_ProcessID plan)" "lp_Artifacts plan = []" "lp_Operation plan \<in> set supportedRequestOperations"
    using rq(1) rq(2) by (simp_all add: ValidateRequest_def ok)
  moreover have "\<not> identifierPattern []" by code_simp
  ultimately show ?thesis
    using assms(2) authorized_limits [OF assms(1)] authorized_invocation [OF assms(1)]
      authorized_bindings [OF assms(1,3)]
    by (auto simp: validateBackgroundPlan_ok supportedRequestOperations_def)
qed

text \<open>What the run of an authorized lifecycle request returns.\<close>

lemma authorized_background_run:
  fixes runner :: "'b Runner"
  assumes "Authorize cfg envelope base resolver = Inr plan" and "lp_Operation plan \<noteq> RequestOperationExecute"
    and "isLowerHex 40 sha" and "s \<le> f" and "reportableYear s" and "reportableYear f"
    and "backgroundAnswer plan result = (status, code, x, y)" and "length x < 2 ^ 63" and "length y < 2 ^ 63"
  defines "out \<equiv> \<lparr>ot_Report = assembleReport plan sha status (answerExit status code) s f
        (streamSnapshot (lp_MaxOutputBytes plan) x) (streamSnapshot (lp_MaxOutputBytes plan) y)
        (failedArtifactManifest []), ot_Stdout = take (nat (lp_MaxOutputBytes plan)) x,
      ot_Stderr = take (nat (lp_MaxOutputBytes plan)) y, ot_ArtifactBundle = (None :: 'b option)\<rparr>"
  shows "answerBackground plan sha s f result = Inr out"
    and "fst (fst (dispatchBackground (rn_treeTerminationGrace runner) plan native registry)) = result \<Longrightarrow>
      Run runner plan sha s f native registry
        = (Inr out, map BackgroundDone (snd (dispatchBackground (rn_treeTerminationGrace runner) plan native registry)))"
    and "ValidateExecutionReportBinding (ee_AcceptedRequest envelope) (ot_Report out) = Inr ()"
proof -
  note ok = Authorize_ok [OF assms(1)]
  let ?acc = "ee_AcceptedRequest envelope"
  have plan: "validateBackgroundPlan plan sha = Inr ()" by (rule authorized_background_plan [OF assms(1-3)])
  note valid = plan [unfolded validateBackgroundPlan_ok]
  show run: "answerBackground plan sha s f result = Inr out"
    using answerBackground_output(1) [where 'b = 'b, OF plan assms(4-9)] by (simp add: out_def)
  have report: "ValidateExecutionReport (ot_Report out) = Inr ()"
    using answerBackground_output(2) [where 'b = 'b, OF plan assms(4-9)] by (simp add: out_def)
  have acc: "ValidateAcceptedRequestRecord ?acc = Inr ()" using ok(2) by simp
  then have id: "rq_RequestID (ar_Request ?acc) = ar_RequestID ?acc"
    by (simp add: ValidateAcceptedRequestRecord_ok)
  have "acceptedArtifactGroups ?acc = []"
    using valid by (simp add: acceptedArtifactGroups_def ok)
  moreover have "om_RetainedBytes (snap_Metadata (streamSnapshot limit z)) \<le> limit" for limit z
    by (simp add: streamSnapshot_def)
  ultimately show "ValidateExecutionReportBinding ?acc (ot_Report out) = Inr ()"
    using acc report by (simp add: ValidateExecutionReportBinding_ok out_def ok id failedArtifactManifest_def)
  show "Run runner plan sha s f native registry
        = (Inr out, map BackgroundDone (snd (dispatchBackground (rn_treeTerminationGrace runner) plan native registry)))"
    if "fst (fst (dispatchBackground (rn_treeTerminationGrace runner) plan native registry)) = result"
    using run valid assms(2) plan that
    by (cases "dispatchBackground (rn_treeTerminationGrace runner) plan native registry")
      (auto simp: Run_def runBackground_def operation_defs)
qed

text \<open>What the run of an authorized execute request without artifacts returns.\<close>

lemma authorized_plain_run:
  fixes runner :: "'b Runner"
  assumes "Authorize cfg envelope base resolver = Inr plan" and "lp_Operation plan = RequestOperationExecute"
    and "lp_Artifacts plan = []" and "isLowerHex 40 sha" and "s \<le> f" and "reportableYear s" and "reportableYear f"
    and "length (concat (nt_Stdout native)) < 2 ^ 63" and "length (concat (nt_Stderr native)) < 2 ^ 63"
  obtains status code effects where "Run runner plan sha s f native registry = (Inr
      \<lparr>ot_Report = assembleReport plan sha status code s f
         (streamSnapshot (lp_MaxOutputBytes plan) (concat (nt_Stdout native)))
         (streamSnapshot (lp_MaxOutputBytes plan) (concat (nt_Stderr native))) (failedArtifactManifest []),
       ot_Stdout = take (nat (lp_MaxOutputBytes plan)) (concat (nt_Stdout native)),
       ot_Stderr = take (nat (lp_MaxOutputBytes plan)) (concat (nt_Stderr native)),
       ot_ArtifactBundle = (None :: 'b option)\<rparr>, effects)"
proof -
  obtain c l where p: "prepareForeground plan sha s = Inr (c, c, l)"
    using authorized_prepares [OF assms(1,4,6)] by blast
  obtain st ec safe w where o: "launchProcess runner plan native = ((st, ec, safe), w)"
    by (metis prod_cases4 prod.exhaust)
  have off: "offered runner plan safe = ((failedArtifactManifest [], None), [])"
    using assms(3) by (simp add: offered_def collectArtifacts_def)
  show ?thesis
    using completeForeground_ok(1) [OF p assms(5,7) launchProcess_outcome [OF o] assms(8,9) off] assms(2)
      failedArtifactManifest_none
    by (intro that) (simp add: Run_def runForeground_def p o)
qed

text \<open>
  C8. Background requests are answered in the same way: for an authorized lifecycle request and
  whatever entry its operation gives, the run returns a report that is accepted against the
  request, that has the status of the answer and that carries no artifacts; and for every state of
  the registry, all that happens between the steps of the operation and every native side, the run
  does what the operation does and answers with the entry the operation gave.
\<close>
theorem authorized_background_reported:
  fixes runner :: "'b Runner"
  assumes "Authorize cfg envelope base resolver = Inr plan" and "lp_Operation plan \<noteq> RequestOperationExecute"
    and "isLowerHex 40 sha" and "s \<le> f" and "reportableYear s" and "reportableYear f"
    and "backgroundAnswer plan result = (status, code, x, y)" and "length x < 2 ^ 63" and "length y < 2 ^ 63"
  shows "\<exists>out. answerBackground plan sha s f result = Inr out
    \<and> ValidateExecutionReportBinding (ee_AcceptedRequest envelope) (ot_Report out) = Inr ()
    \<and> er_CommandStatus (ot_Report out) = status \<and> ot_ArtifactBundle out = None
    \<and> (\<forall>native registry. fst (fst (dispatchBackground (rn_treeTerminationGrace runner) plan native registry)) = result \<longrightarrow>
        Run runner plan sha s f native registry
          = (Inr out, map BackgroundDone (snd (dispatchBackground (rn_treeTerminationGrace runner) plan native registry))))"
  using authorized_background_run [where 'b = 'b, OF assms]
  by (intro exI conjI allI impI) (assumption | simp)+

definition sampleStartRequest :: Request where
  "sampleStartRequest = sampleRequest\<lparr>rq_Operation := ''start'', rq_ProcessID := ''web'', rq_Artifacts := Some []\<rparr>"

lemma sampleStart_valid: "ValidateRequest sampleStartRequest = Inr ()"
  "length (encodeJson (requestJson sampleStartRequest)) \<le> MaxRequestBytes"
  by code_simp+

definition sampleStartAccepted :: AcceptedRequestRecord where
  "sampleStartAccepted = sampleAccepted\<lparr>ar_Request := sampleStartRequest,
     ar_RequestDigest := sha256Hex (encodeJson (requestJson sampleStartRequest))\<rparr>"

definition sampleStartEnvelope :: ExecuteEnvelope where
  "sampleStartEnvelope = sampleEnvelope\<lparr>ee_AcceptedRequest := sampleStartAccepted\<rparr>"

lemma sampleStartEnvelope_valid: "ValidateExecuteEnvelope sampleStartEnvelope = Inr ()"
proof -
  have id: "rq_RequestID sampleStartRequest = ''req-000001''"
    by (simp add: sampleStartRequest_def sampleRequest_def)
  have "ValidateAcceptedRequestRecord sampleStartAccepted = Inr ()"
    using sampleAccepted_valid sampleStart_valid
    by (simp add: ValidateAcceptedRequestRecord_ok sampleStartAccepted_def DigestRequest_ok id)
      (simp add: sampleAccepted_def, metis)
  then show ?thesis using sampleEnvelope_valid by (simp add: sampleStartEnvelope_def)
qed

lemma sampleStartAuthorize:
  "\<exists>plan. Authorize sampleConfig sampleStartEnvelope sampleBase (Some sampleResolver) = Inr plan"
proof -
  have "validateResolution sampleConfig ''/srv/projects/demo''
      \<lparr>rs_RequestedPath = ''/srv/projects/demo'', rs_WorkingDirectory = ''/srv/projects/demo'',
       rs_ApprovedRoot = ''/srv/projects''\<rparr> = Inr ()" by code_simp
  moreover have "requestPathMatchesPlatform ''linux'' ''/srv/projects/demo''" by code_simp
  moreover have "rq_WorkingDirectory (ar_Request (ee_AcceptedRequest sampleStartEnvelope)) = ''/srv/projects/demo''"
    "rq_Shell (ar_Request (ee_AcceptedRequest sampleStartEnvelope)) = ''bash''"
    "\<lparr>cx_RequestID = rq_RequestID (ar_Request (ee_AcceptedRequest sampleStartEnvelope)),
      cx_SessionID = rq_SessionID (ar_Request (ee_AcceptedRequest sampleStartEnvelope)),
      cx_AttemptID = ee_AttemptID sampleStartEnvelope\<rparr> = sampleContext"
    by (simp_all add: sampleStartEnvelope_def sampleEnvelope_def sampleStartAccepted_def sampleStartRequest_def
        sampleRequest_def sampleContext_def)
  moreover have "cf_Platform sampleConfig = ''linux''" "sl (cf_ApprovedRoots sampleConfig) = [''/srv/projects'']"
    "configuredShell (sl (cf_Shells sampleConfig)) ''bash'' = Some ''/bin/bash''"
    by (simp_all add: sampleConfig_def)
  ultimately show ?thesis
    using sampleStartEnvelope_valid sampleConfig_valid sampleEnvironment
    by (simp add: Authorize_def Let_def sampleResolver_def fromOption_def
        del: ValidateExecuteEnvelope_ok validateResolution_ok)
qed

text \<open>The launcher that answers a start with an error and a process.\<close>

definition failingNative :: Native where
  "failingNative = sampleNative\<lparr>nt_StartError := True\<rparr>"

lemma failing_start:
  assumes "lp_Operation plan = RequestOperationStart" and "BuildInvocation plan = Inr invocation"
    and "NewCapture (lp_MaxOutputBytes plan) = Inr capture"
  shows "dispatchBackground grace plan failingNative idleRegistry = ((None, initSystem),
    [RegistryRead (backgroundKey (lp_SessionID plan) (lp_ProcessID plan)), ProcessLaunched (nativeLaunch plan invocation),
     ProcessTerminated grace])"
  using assms
  by (simp add: dispatchBackground_def operateBackground_def startBackground_def idleRegistry_def failingNative_def sampleNative_def
      initSystem_def maxBackgroundProcesses_def Let_def)

lemma authorized_capture:
  "Authorize cfg envelope base resolver = Inr plan \<Longrightarrow> \<exists>capture. NewCapture (lp_MaxOutputBytes plan) = Inr capture"
  using authorized_limits by (fastforce simp: NewCapture_ok planLimits_def)

lemma authorized_background_reported_witness:
  "\<exists>plan out effects. Authorize sampleConfig sampleStartEnvelope sampleBase (Some sampleResolver) = Inr plan
     \<and> Run sampleRunner plan sampleSHA sampleInstant sampleInstant failingNative idleRegistry = (Inr out, effects)
     \<and> length effects = 3 \<and> er_CommandStatus (ot_Report out) = CommandStatusFailed"
proof -
  obtain plan where plan: "Authorize sampleConfig sampleStartEnvelope sampleBase (Some sampleResolver) = Inr plan"
    using sampleStartAuthorize by blast
  have op: "lp_Operation plan = ''start''"
    by (simp add: Authorize_ok(15) [OF plan] sampleStartEnvelope_def sampleStartAccepted_def sampleStartRequest_def)
  then have start: "lp_Operation plan \<noteq> RequestOperationExecute" "lp_Operation plan = RequestOperationStart"
    by (simp_all add: operation_defs)
  have sha: "isLowerHex 40 sampleSHA" by code_simp
  have answer: "backgroundAnswer plan None
      = (CommandStatusFailed, 1, [], ''background process operation denied'' @ [CHR 0x0A])"
    by (simp add: backgroundAnswer_def backgroundOperationFailure_def operation_defs op)
  obtain invocation capture where made: "BuildInvocation plan = Inr invocation" "NewCapture (lp_MaxOutputBytes plan) = Inr capture"
    using authorized_invocation [OF plan] authorized_capture [OF plan] by blast
  have short: "length ([] :: string) < 2 ^ 63" "length (''background process operation denied'' @ [CHR 0x0A]) < 2 ^ 63"
    by simp_all
  from authorized_background_reported [where runner = sampleRunner, OF plan start(1) sha order.refl sampleYear sampleYear answer short]
  show ?thesis using plan failing_start [OF start(2) made] by fastforce
qed

end
