(* ===== verification/Run_Properties.thy ===== *)
theory Run_Properties
  imports Run_Samples
begin

text \<open>
  Properties of the foreground run, over every behaviour of the launcher, the process, the timer
  and the collector.
\<close>

section \<open>A launched command is always reported\<close>

text \<open>
  Once the preflight has passed, no behaviour of the native side loses the report: whatever
  the launcher, the process, its output (short of $2^{63}$ bytes), the timer and the collector
  do, the run returns an output when the clock has not gone back or past year 9999.
\<close>
theorem foreground_always_reports:
  assumes "prepareForeground plan sha s = Inr p" and "s \<le> f" and "reportableYear f"
    and "length (concat (nt_Stdout native)) < 2 ^ 63" and "length (concat (nt_Stderr native)) < 2 ^ 63"
  shows "\<exists>out. fst (runForeground runner plan sha s f native) = Inr out"
proof -
  obtain c1 c2 l where p: "p = (c1, c2, l)" by (cases p)
  obtain st ec safe w where o: "launchProcess runner plan native = ((st, ec, safe), w)"
    by (metis prod_cases4 prod.exhaust)
  obtain m b k where c: "offered runner plan safe = ((m, b), k)" by (metis prod.exhaust)
  show ?thesis
    using completeForeground_ok(1) [OF assms(1) [unfolded p] assms(2,3) launchProcess_outcome [OF o] assms(4,5) c]
    by (simp add: runForeground_def assms(1) p o split: prod.splits if_splits)
qed

lemma foreground_always_reports_witness:
  "\<exists>out. fst (runForeground sampleRunner samplePlan sampleSHA sampleInstant sampleInstant sampleNative) = Inr out"
proof -
  obtain p where "prepareForeground samplePlan sampleSHA sampleInstant = Inr p"
    using samplePrepared by blast
  then show ?thesis
    using foreground_always_reports [OF _ order.refl sampleYear sampleStreams] by blast
qed

text \<open>
  C22. What a returned output says is true: its report is valid and bound to the plan, its status
  and exit code are the outcome of the process, each stream is retained up to the limit and
  described by the length and the digest of all of it, and the times are those of the clock.
\<close>
theorem foreground_report_sound:
  assumes "fst (runForeground runner plan sha s f native) = Inr out"
    and "length (concat (nt_Stdout native)) < 2 ^ 63" and "length (concat (nt_Stderr native)) < 2 ^ 63"
  shows "ValidateExecutionReport (ot_Report out) = Inr ()
    \<and> er_RequestID (ot_Report out) = lp_RequestID plan \<and> er_RequestDigest (ot_Report out) = lp_RequestDigest plan
    \<and> er_AttemptID (ot_Report out) = lp_AttemptID plan \<and> er_GatewaySourceSHA (ot_Report out) = sha
    \<and> (\<exists>safe w. launchProcess runner plan native
          = ((er_CommandStatus (ot_Report out), er_ExitCode (ot_Report out), safe), w))
    \<and> ot_Stdout out = take (nat (lp_MaxOutputBytes plan)) (concat (nt_Stdout native))
    \<and> ot_Stderr out = take (nat (lp_MaxOutputBytes plan)) (concat (nt_Stderr native))
    \<and> om_SHA256 (er_Stdout (ot_Report out)) = sha256Hex (concat (nt_Stdout native))
    \<and> om_TotalBytes (er_Stdout (ot_Report out)) = int (length (concat (nt_Stdout native)))
    \<and> om_SHA256 (er_Stderr (ot_Report out)) = sha256Hex (concat (nt_Stderr native))
    \<and> om_TotalBytes (er_Stderr (ot_Report out)) = int (length (concat (nt_Stderr native)))
    \<and> er_StartedAt (ot_Report out) = formatRFC3339Nano s \<and> er_FinishedAt (ot_Report out) = formatRFC3339Nano f"
proof -
  obtain c1 c2 l where p: "prepareForeground plan sha s = Inr (c1, c2, l)"
    using assms(1) by (auto simp: runForeground_def split: sum.splits)
  obtain st ec safe w where o: "launchProcess runner plan native = ((st, ec, safe), w)"
    by (metis prod_cases4 prod.exhaust)
  obtain m b k where c: "offered runner plan safe = ((m, b), k)" by (metis prod.exhaust)
  let ?complete = "completeForeground runner plan sha s f (st, ec, safe) (captureWrites (nt_Stdout native) c1)
    (captureWrites (nt_Stderr native) c2)"
  have run: "fst ?complete = Inr out"
    using assms(1) by (simp add: runForeground_def p o split: prod.splits)
  then have order: "s \<le> f" by (simp add: completeForeground_def split: if_splits)
  have bounds: "0 \<le> lp_MaxOutputBytes plan" "lp_MaxOutputBytes plan \<le> MaxOutputBytes"
    using p by (auto simp: prepareForeground_ok planLimits_def MinOutputBytes_def)
  have year: "reportableYear f"
  proof (rule ccontr)
    assume "\<not> reportableYear f"
    then have "ValidateExecutionReport (assembleReport plan sha st ec s f x y z) \<noteq> Inr ()" for x y z
      by (simp add: assembleReport_ok)
    then show False using run
      by (auto simp: completeForeground_def Let_def assembleReport_artifacts split: if_splits sum.splits prod.splits)
  qed
  note complete = completeForeground_ok [OF p order year launchProcess_outcome [OF o] assms(2,3) c]
  show ?thesis
    using run [unfolded complete(1)] complete(2,3) o
    by (cases "validateArtifactManifest m = Inr ()") (auto simp: streamSnapshot_def)
qed

lemma foreground_report_sound_witness:
  "\<exists>out. fst (runForeground sampleRunner samplePlan sampleSHA sampleInstant sampleInstant sampleNative) = Inr out
     \<and> ot_Stdout out = ''ok''"
proof -
  obtain out where out: "fst (runForeground sampleRunner samplePlan sampleSHA sampleInstant sampleInstant sampleNative)
      = Inr out" using sampleRun by fastforce
  show ?thesis using foreground_report_sound [OF out sampleStreams] out by (simp add: sampleNative_def)
qed

text \<open>
  Every outcome of waiting for a started process: only a received exit gives an exit code,
  a process is reported as timed out or cancelled only after its tree was terminated, and a
  failed termination is a runtime failure after which nothing is collected.
\<close>
theorem await_outcomes:
  "fst (awaitProcess runner plan native) =
     (if nt_ExitChannel native \<and> nt_Timer native \<and> nt_TimerChannel native
      then case nt_Select native of
        ExitReceived None \<Rightarrow> (CommandStatusRuntimeFailed, None, True)
      | ExitReceived (Some (ProcessExit code err)) \<Rightarrow>
          (if err \<or> code < 0 \<or> 2 ^ 32 - 1 < code then (CommandStatusRuntimeFailed, None, True)
           else (if code = 0 then CommandStatusCompleted else CommandStatusFailed, Some code, True))
      | ContextDone \<Rightarrow>
          (if nt_TerminateError native then (CommandStatusRuntimeFailed, None, False)
           else (CommandStatusCancelled, None, True))
      | TimerFired contextEnded \<Rightarrow>
          (if nt_TerminateError native then (CommandStatusRuntimeFailed, None, False)
           else (if contextEnded then CommandStatusCancelled else CommandStatusTimedOut, None, True))
      else (CommandStatusRuntimeFailed, None, \<not> nt_TerminateError native))"
proof (cases "nt_Select native")
  case (ExitReceived received)
  show ?thesis
  proof (cases received)
    case None
    with ExitReceived show ?thesis
      by (simp add: awaitProcess_def terminateTree_def selectOutcome_def Let_def)
  next
    case (Some exit)
    with ExitReceived show ?thesis
      by (cases exit) (simp add: awaitProcess_def terminateTree_def selectOutcome_def maxExitCode_def Let_def)
  qed
qed (simp_all add: awaitProcess_def terminateTree_def selectOutcome_def Let_def)

section \<open>Order of the effects\<close>

lemma runForeground_effects:
  assumes "runForeground runner plan sha s f native = (r, effects)" and "effects \<noteq> []"
  shows "\<exists>l outcome waited collected closed. effects = Started l # waited @ collected @ closed
    \<and> (\<exists>c1 c2. prepareForeground plan sha s = Inr (c1, c2, l))
    \<and> launchProcess runner plan native = (outcome, waited)
    \<and> (collected = [] \<or> collected = snd (offered runner plan (snd (snd outcome))))
    \<and> (\<forall>e\<in>set closed. \<exists>b. e = BundleClosed b)"
proof -
  obtain c1 c2 l where p: "prepareForeground plan sha s = Inr (c1, c2, l)"
    using assms by (auto simp: runForeground_def split: sum.splits)
  obtain st ec safe w where o: "launchProcess runner plan native = ((st, ec, safe), w)"
    by (metis prod_cases4 prod.exhaust)
  obtain m b k where c: "offered runner plan safe = ((m, b), k)" by (metis prod.exhaust)
  let ?complete = "completeForeground runner plan sha s f (st, ec, safe) (captureWrites (nt_Stdout native) c1)
    (captureWrites (nt_Stderr native) c2)"
  have "snd ?complete = [] \<or> snd ?complete = k \<or> snd ?complete = k @ closeArtifactBundle b"
    using c by (auto simp: completeForeground_def offered_def Let_def split: sum.splits)
  moreover have "\<forall>e\<in>set (closeArtifactBundle b). \<exists>b. e = BundleClosed b"
    by (cases b) (simp_all add: closeArtifactBundle_def)
  moreover have "effects = Started l # w @ snd ?complete"
    using assms(1) by (simp add: runForeground_def p o split: prod.splits)
  ultimately show ?thesis
  proof (elim disjE)
    assume "snd ?complete = k @ closeArtifactBundle b"
    then show ?thesis
      using p o c \<open>effects = _\<close> \<open>\<forall>e\<in>set (closeArtifactBundle b). _ e\<close>
      by (intro exI [of _ l] exI [of _ "(st, ec, safe)"] exI [of _ w] exI [of _ k]
          exI [of _ "closeArtifactBundle b"]) auto
  next
    assume "snd ?complete = []"
    then show ?thesis
      using p o c \<open>effects = _\<close>
      by (intro exI [of _ l] exI [of _ "(st, ec, safe)"] exI [of _ w] exI [of _ "[]"]) auto
  next
    assume "snd ?complete = k"
    then show ?thesis
      using p o c \<open>effects = _\<close>
      by (intro exI [of _ l] exI [of _ "(st, ec, safe)"] exI [of _ w] exI [of _ k] exI [of _ "[]"]) auto
  qed
qed

text \<open>
  At most one process is launched, first of all, with the authority of the plan: a run either
  has no effect and fails, because the preflight did, or its first effect is the only start.
\<close>
theorem launch_follows_preflight:
  assumes "runForeground runner plan sha s f native = (r, effects)"
  shows "(effects = [] \<and> (\<exists>e. r = Inl e \<and> prepareForeground plan sha s = Inl e))
    \<or> (\<exists>l rest. effects = Started l # rest \<and> (\<forall>l'. Started l' \<notin> set rest)
         \<and> nl_ExecutionIdentity l = lp_ExecutionIdentity plan
         \<and> nl_WorkingDirectory l = lp_WorkingDirectory plan \<and> nl_Environment l = lp_Environment plan
         \<and> BuildInvocation plan = Inr (nl_Invocation l))"
proof (cases "effects = []")
  case True
  then show ?thesis using assms by (auto simp: runForeground_def split: sum.splits prod.splits)
next
  case False
  then obtain l outcome waited collected closed c1 c2 where
    e: "effects = Started l # waited @ collected @ closed"
    and p: "prepareForeground plan sha s = Inr (c1, c2, l)"
    and w: "launchProcess runner plan native = (outcome, waited)"
    and k: "collected = [] \<or> collected = snd (offered runner plan (snd (snd outcome)))"
    and b: "\<forall>e\<in>set closed. \<exists>b. e = BundleClosed b"
    using runForeground_effects [OF assms] by metis
  have "Started l' \<notin> set waited" for l' using launchProcess_effects [OF w] by auto
  moreover have "Started l' \<notin> set collected" for l'
    using k collectArtifacts_effects [of runner plan "fst (fst (collectArtifacts runner plan))"
        "snd (fst (collectArtifacts runner plan))" "snd (collectArtifacts runner plan)"]
    by (auto simp: offered_def split: if_splits)
  moreover have "Started l' \<notin> set closed" for l' using b by auto
  ultimately show ?thesis using p by (auto simp: e prepareForeground_ok nativeLaunch_def)
qed

lemma launch_follows_preflight_witness:
  "\<exists>l rest. snd (runForeground sampleRunner samplePlan sampleSHA sampleInstant sampleInstant sampleNative)
     = Started l # rest \<and> nl_WorkingDirectory l = lp_WorkingDirectory samplePlan"
proof -
  obtain r e where r: "runForeground sampleRunner samplePlan sampleSHA sampleInstant sampleInstant sampleNative = (r, e)"
    by fastforce
  then show ?thesis using launch_follows_preflight [OF r] sampleRun by auto
qed

text \<open>
  C20. Artifacts are read only when no process of the tree can still write them: a collection
  is preceded by the receipt of the exit of a process that was started without error, or by a
  termination of the whole tree that succeeded; it runs under the execution identity, in the
  working directory of the plan and for its selections.
\<close>
theorem collection_after_tree_gone:
  assumes "runForeground runner plan sha s f native = (r, pre @ Collected timeout collect # post)"
  shows "nt_Process native \<and> \<not> nt_StartError native
    \<and> ((\<exists>x. nt_ExitChannel native \<and> nt_Select native = ExitReceived x)
       \<or> (\<not> nt_TerminateError native \<and> TreeTerminated (rn_treeTerminationGrace runner) \<in> set pre))
    \<and> collect = artifactPlan plan \<and> timeout = rn_artifactCollectionTimeout runner"
proof -
  obtain l st ec safe waited collected closed where
    e: "pre @ Collected timeout collect # post = Started l # waited @ collected @ closed"
    and w: "launchProcess runner plan native = ((st, ec, safe), waited)"
    and k: "collected = [] \<or> collected = snd (offered runner plan safe)"
    and b: "\<forall>e\<in>set closed. \<exists>b. e = BundleClosed b"
    using runForeground_effects [OF assms] by fastforce
  have "Collected timeout collect \<in> set (Started l # waited @ collected @ closed)" by (simp flip: e)
  then have mem: "Collected timeout collect \<in> set collected"
    using launchProcess_effects [OF w] b by auto
  then have safe: "safe" and eff: "collected = snd (collectArtifacts runner plan)"
    using k by (auto simp: offered_def split: if_splits)
  obtain rest where c: "collected = Collected (rn_artifactCollectionTimeout runner) (artifactPlan plan) # rest"
      "\<forall>e\<in>set rest. \<exists>b. e = BundleClosed b"
    using mem collectArtifacts_effects [of runner plan "fst (fst (collectArtifacts runner plan))"
        "snd (fst (collectArtifacts runner plan))" "snd (collectArtifacts runner plan)"] eff by auto
  have "pre = Started l # waited \<and> collect = artifactPlan plan \<and> timeout = rn_artifactCollectionTimeout runner"
  proof -
    have "Collected timeout collect \<notin> set (Started l # waited)" using launchProcess_effects [OF w] by auto
    moreover have "Collected timeout collect \<notin> set (rest @ closed)" using c(2) b by auto
    moreover have "pre @ Collected timeout collect # post = (Started l # waited)
        @ Collected (rn_artifactCollectionTimeout runner) (artifactPlan plan) # rest @ closed"
      using e by (simp add: c)
    ultimately show ?thesis by (meson Effect.inject unique_split)
  qed
  then show ?thesis using launchProcess_safe [OF w safe] w by auto
qed

lemma collection_after_tree_gone_witness:
  "\<exists>x. nt_ExitChannel sampleNative \<and> nt_Select sampleNative = ExitReceived x"
proof -
  obtain out l where "runForeground sampleRunner samplePlan sampleSHA sampleInstant sampleInstant sampleNative
       = (Inr out, [Started l, TimerArmed (wrapInt64 (900 * second)), TimerStopped]
           @ Collected defaultArtifactCollectionTimeout (artifactPlan samplePlan) # [])"
    using sampleRun by auto
  from collection_after_tree_gone [OF this] show ?thesis by auto
qed

text \<open>
  C21. The content handles of a collection have exactly one owner: whenever the collector was
  called and returned a bundle, either the run closed it, once, or it is in the output, unclosed,
  together with a report that lists files; closing the output then closes it exactly once.
\<close>
theorem bundle_closed_once:
  assumes "runForeground runner plan sha s f native = (Inr out, effects)"
    and "rn_collector runner = Some collect" and "ac_Bundle (fst (collect (artifactPlan plan))) = Some b"
    and "Collected timeout called \<in> set effects"
  shows "count_list (effects @ closeOutput out) (BundleClosed b) = 1
    \<and> (\<forall>x. BundleClosed x \<in> set (effects @ closeOutput out) \<longrightarrow> x = b)
    \<and> (ot_ArtifactBundle out = None \<or> ot_ArtifactBundle out = Some b \<and> sl (am_Files (er_Artifacts (ot_Report out))) \<noteq> [])"
  using assms(1)
proof (rule runForeground_output)
  fix c1 c2 l st ec safe w m o' k
  assume w: "launchProcess runner plan native = ((st, ec, safe), w)"
    and off: "offered runner plan safe = ((m, o'), k)"
    and run: "completeForeground runner plan sha s f (st, ec, safe) (captureWrites (nt_Stdout native) c1)
       (captureWrites (nt_Stderr native) c2) = (Inr out, drop (Suc (length w)) effects)"
    and e: "effects = Started l # w @ drop (Suc (length w)) effects"
  define rest where "rest = drop (Suc (length w)) effects"
  have quiet: "BundleClosed x \<notin> set (Started l # w)" "Collected timeout called \<notin> set (Started l # w)" for x
    using launchProcess_effects [OF w] by auto
  note out = completeForeground_output(1) [OF run off, folded rest_def]
  have mem: "Collected timeout called \<in> set rest"
    using assms(4) e quiet(2) rest_def by (metis Un_iff append_Cons set_append)
  have "Collected timeout called \<in> set k"
    using mem out by (auto simp: closeArtifactBundle_def split: option.splits)
  then have safe and k: "collectArtifacts runner plan = ((m, o'), k)" and "lp_Artifacts plan \<noteq> []"
    using off by (auto simp: offered_def collectArtifacts_def split: if_splits)
  then obtain c where c: "k @ closeArtifactBundle o' = [c, BundleClosed b]" "\<And>y. c \<noteq> BundleClosed y"
      "o' = None \<or> o' = Some b \<and> sl (am_Files m) \<noteq> []"
    using collectArtifacts_bundle [OF k assms(2) _ assms(3)] by auto
  have tail: "rest @ closeOutput out = [c, BundleClosed b]"
    using out c(1) by (auto simp: closeOutput_def closeArtifactBundle_def)
  have "effects @ closeOutput out = (Started l # w) @ [c, BundleClosed b]"
    using e tail rest_def by (metis append_assoc append_Cons)
  moreover have "count_list (Started l # w) (BundleClosed b) = 0"
    using quiet(1) by (simp add: count_list_0_iff)
  ultimately show ?thesis using c(2,3) quiet(1) out by auto
qed

lemma bundle_closed_once_witness:
  "\<exists>out effects. runForeground sampleRunner samplePlan sampleSHA sampleInstant sampleInstant sampleNative
     = (Inr out, effects) \<and> count_list (effects @ closeOutput out) (BundleClosed 7) = 1"
proof -
  obtain out l where r: "runForeground sampleRunner samplePlan sampleSHA sampleInstant sampleInstant sampleNative
       = (Inr out, [Started l, TimerArmed (wrapInt64 (900 * second)), TimerStopped,
           Collected defaultArtifactCollectionTimeout (artifactPlan samplePlan)])"
    using sampleRun by auto
  have "rn_collector sampleRunner = Some (\<lambda>_. (\<lparr>ac_Manifest = sampleManifest, ac_Bundle = Some 7\<rparr>, False))"
    by (simp add: sampleRunner_def)
  from bundle_closed_once [OF r this] r show ?thesis by fastforce
qed

text \<open>
  A report never names an artifact that was not asked for: every file of a returned report
  belongs to a group of the plan and matches one of its patterns, every omission names a group and
  a pattern of the plan, the status is "not requested" exactly when nothing was requested, and a
  report with files comes with the bundle that holds their content.
\<close>
theorem reported_artifacts_selected:
  assumes "runForeground runner plan sha s f native = (Inr out, effects)"
  defines "manifest \<equiv> er_Artifacts (ot_Report out)"
  shows "(\<forall>x\<in>set (sl (am_Files manifest)). \<exists>g\<in>set (lp_Artifacts plan).
        sel_Name g = af_Group x \<and> (\<exists>p\<in>set (sel_Paths g). Match p (af_Path x) = Some True))
    \<and> (\<forall>x\<in>set (sl (am_Omissions manifest)). \<exists>g\<in>set (lp_Artifacts plan).
        sel_Name g = ao_Group x \<and> ao_Pattern x \<in> set (sel_Paths g))
    \<and> (am_Status manifest = ArtifactStatusNotRequested \<longleftrightarrow> lp_Artifacts plan = [])
    \<and> (sl (am_Files manifest) \<noteq> [] \<longrightarrow> ot_ArtifactBundle out \<noteq> None)"
  using assms(1)
proof (rule runForeground_output)
  fix c1 c2 l st ec safe w m b k
  assume off: "offered runner plan safe = ((m, b), k)"
    and run: "completeForeground runner plan sha s f (st, ec, safe) (captureWrites (nt_Stdout native) c1)
       (captureWrites (nt_Stderr native) c2) = (Inr out, drop (Suc (length w)) effects)"
  show ?thesis
    using output_manifest [OF run off, folded manifest_def]
  proof
    assume "manifest = failedArtifactManifest (lp_Artifacts plan)"
    then show ?thesis by (auto simp: failedArtifactManifest_def artifact_status_defs)
  next
    assume a: "lp_Artifacts plan \<noteq> [] \<and> artifactCollectionAllowed manifest (lp_Artifacts plan)
          \<and> (sl (am_Files manifest) \<noteq> [] \<longrightarrow> ot_ArtifactBundle out \<noteq> None)"
    then have "\<forall>x\<in>set (sl (am_Files manifest)). fileSelected (lp_Artifacts plan) x"
        "\<forall>x\<in>set (sl (am_Omissions manifest)). omissionSelected (lp_Artifacts plan) x"
      by (auto simp: artifactCollectionAllowed_def list_all_iff split: if_splits)
    then show ?thesis
      using a fileSelectedD omissionSelectedD by (auto simp: artifactCollectionAllowed_def split: if_splits)
  qed
qed

lemma reported_artifacts_selected_witness:
  "\<exists>out. fst (runForeground sampleRunner samplePlan sampleSHA sampleInstant sampleInstant sampleNative) = Inr out
     \<and> am_Status (er_Artifacts (ot_Report out)) \<noteq> ArtifactStatusNotRequested"
proof -
  obtain out e where r: "runForeground sampleRunner samplePlan sampleSHA sampleInstant sampleInstant sampleNative
      = (Inr out, e)" using sampleRun by auto
  show ?thesis using reported_artifacts_selected [OF r] r by auto
qed

end
