(* ===== verification/Ipc_Frame.thy ===== *)
theory Ipc_Frame
  imports Protocol_Types Sha256
begin

text \<open>
  Length-prefixed frames: \<open>internal/ipcframe/frame.go\<close>.  A reader is the bytes it delivers
  before it ends or fails (\<open>None\<close> the nil reader).  A writer is a function that takes its
  state and the bytes offered, and returns the count it reports, whether it reports an error,
  and its new state; it may accept fewer bytes than offered.  The locale \<open>stream_codec\<close> states
  what a reader of such frames relies on.
\<close>

section \<open>Streams of items\<close>

locale stream_codec =
  fixes valid :: "'a \<Rightarrow> bool"
    and put :: "'a \<Rightarrow> string"
    and get :: "string \<Rightarrow> ('e + 'a) \<times> string"
  assumes get_put: "valid a \<Longrightarrow> get (put a @ rest) = (Inr a, rest)"
begin

text \<open>Encodings are prefix free on valid items, so a stream determines its items.\<close>

lemma put_inject:
  assumes "valid a" "valid b" "put a @ x = put b @ y"
  shows "a = b \<and> x = y"
proof -
  have "(Inr a, x) = get (put b @ y)" using get_put [OF assms(1), of x] assms(3) by (simp only: )
  also have "\<dots> = (Inr b, y)" by (rule get_put [OF assms(2)])
  finally show ?thesis by simp
qed

fun getMany :: "nat \<Rightarrow> string \<Rightarrow> ('e + 'a list) \<times> string" where
  "getMany 0 s = (Inr [], s)"
| "getMany (Suc n) s =
     (case get s of
        (Inl e, t) \<Rightarrow> (Inl e, t)
      | (Inr a, t) \<Rightarrow>
          (case getMany n t of (Inl e, u) \<Rightarrow> (Inl e, u) | (Inr as, u) \<Rightarrow> (Inr (a # as), u)))"

lemma getMany_put:
  "list_all valid as \<Longrightarrow> getMany (length as) (concat (map put as) @ rest) = (Inr as, rest)"
  by (induction as) (simp_all add: get_put)

lemma puts_inject:
  assumes "list_all valid as" "list_all valid bs" "length as = length bs"
    and "concat (map put as) @ x = concat (map put bs) @ y"
  shows "as = bs \<and> x = y"
proof -
  have "(Inr as, x) = getMany (length as) (concat (map put as) @ x)"
    by (rule getMany_put [OF assms(1), symmetric])
  also have "\<dots> = getMany (length bs) (concat (map put bs) @ y)" by (simp only: assms(3,4))
  also have "\<dots> = (Inr bs, y)" by (rule getMany_put [OF assms(2)])
  finally show ?thesis by simp
qed

end

section \<open>Frames\<close>

definition HeaderBytes :: nat where "HeaderBytes = 4"
definition MaxFrameBytes :: int where "MaxFrameBytes = int MaxExecutionReportBytes"

lemmas frame_defs [go_defs] = HeaderBytes_def MaxFrameBytes_def

text \<open>\<open>io.ReadFull\<close>: all the bytes wanted, or an error after whatever was left.\<close>

definition readFull :: "nat \<Rightarrow> string \<Rightarrow> string option \<times> string" where
  "readFull n s = (if n \<le> length s then (Some (take n s), drop n s) else (None, []))"

definition readFrame :: "string option \<Rightarrow> int \<Rightarrow> (string + string) \<times> string" where
  "readFrame reader maximum =
     (case reader of
        None \<Rightarrow> (Inl ''invalid-read-policy'', [])
      | Some s \<Rightarrow>
         if maximum \<le> 0 \<or> maximum > MaxFrameBytes then (Inl ''invalid-read-policy'', s)
         else (case readFull HeaderBytes s of
             (None, t) \<Rightarrow> (Inl ''header-truncated'', t)
           | (Some header, t) \<Rightarrow>
               (let size = bigEndianValue header in
                if size = 0 \<or> size > maximum then (Inl ''payload-size-denied'', t)
                else (case readFull (nat size) t of
                    (None, u) \<Rightarrow> (Inl ''payload-truncated'', u)
                  | (Some payload, u) \<Rightarrow> (Inr payload, u)))))"

type_synonym 'w writer = "'w \<Rightarrow> string \<Rightarrow> (int \<times> bool) \<times> 'w"

function writeLoop :: "'w writer \<Rightarrow> string \<Rightarrow> 'w \<Rightarrow> (string + unit) \<times> 'w" where
  "writeLoop wr frame w =
     (if frame = [] then (Inr (), w)
      else (case wr w frame of ((count, failed), w') \<Rightarrow>
        if count < 0 \<or> count > int (length frame) then (Inl ''write-count-invalid'', w')
        else if failed then (Inl ''write-failed'', w')
        else if count = 0 then (Inl ''write-short'', w')
        else writeLoop wr (drop (nat count) frame) w'))"
  by pat_completeness auto
termination
  by (relation "measure (\<lambda>(wr, frame, w). length frame)") auto

declare writeLoop.simps [simp del]

definition frameBytes :: "string \<Rightarrow> string" where
  "frameBytes payload = bigEndianBytes 4 (int (length payload)) @ payload"

definition writeFrame ::
    "'w writer option \<Rightarrow> string \<Rightarrow> int \<Rightarrow> 'w \<Rightarrow> (string + unit) \<times> 'w" where
  "writeFrame writer payload maximum w =
     (case writer of
        None \<Rightarrow> (Inl ''invalid-write-policy'', w)
      | Some wr \<Rightarrow>
         if maximum \<le> 0 \<or> maximum > MaxFrameBytes then (Inl ''invalid-write-policy'', w)
         else if length payload = 0 \<or> int (length payload) > maximum
         then (Inl ''payload-size-denied'', w)
         else writeLoop wr (frameBytes payload) w)"

section \<open>Writers that tell the truth\<close>

text \<open>
  The contract of \<open>io.Writer\<close>: the count is the number of bytes taken from the front of the
  slice.  \<open>content\<close> is what the writer has taken so far.
\<close>

definition honestWriter :: "'w writer \<Rightarrow> ('w \<Rightarrow> string) \<Rightarrow> bool" where
  "honestWriter wr content \<longleftrightarrow>
     (\<forall>w s count failed w'. wr w s = ((count, failed), w') \<longrightarrow>
        0 \<le> count \<and> count \<le> int (length s) \<and> content w' = content w @ take (nat count) s)"

text \<open>The loop hands over the whole frame, or stops with an error after a prefix of it.\<close>

lemma writeLoop_honest:
  "honestWriter wr content \<Longrightarrow> writeLoop wr frame w = (r, w') \<Longrightarrow>
     r = Inr () \<and> content w' = content w @ frame
     \<or> ((r = Inl ''write-failed'' \<or> r = Inl ''write-short'')
         \<and> (\<exists>n\<le>length frame. content w' = content w @ take n frame))"
proof (induction wr frame w arbitrary: r w' rule: writeLoop.induct)
  case (1 wr frame w)
  show ?case
  proof (cases "frame = []")
    case True
    then show ?thesis using "1.prems" by (simp add: writeLoop.simps)
  next
    case ne: False
    obtain count failed w1 where w1: "wr w frame = ((count, failed), w1)" by (metis surj_pair)
    then have honest: "0 \<le> count" "count \<le> int (length frame)"
      "content w1 = content w @ take (nat count) frame"
      using "1.prems"(1) by (auto simp: honestWriter_def)
    have range: "\<not> (count < 0 \<or> count > int (length frame))" using honest by simp
    show ?thesis
    proof (cases "failed \<or> count = 0")
      case True
      then have "(r = Inl ''write-failed'' \<or> r = Inl ''write-short'') \<and> w' = w1"
        using "1.prems"(2) ne w1 range by (auto simp: writeLoop.simps [of wr frame w] split: if_splits)
      then show ?thesis using honest by (intro disjI2) (auto intro!: exI [of _ "nat count"])
    next
      case False
      then have rest: "writeLoop wr (drop (nat count) frame) w1 = (r, w')"
        using "1.prems"(2) ne w1 range by (simp add: writeLoop.simps [of wr frame w])
      from False have "\<not> failed" "count \<noteq> 0" by simp_all
      note IH = "1.IH" [OF ne w1 [symmetric] refl range this "1.prems"(1) rest]
      have whole: "take (nat count) frame @ drop (nat count) frame = frame" by simp
      have part: "take (nat count) frame @ take n (drop (nat count) frame) = take (nat count + n) frame"
        for n by (simp add: take_add)
      show ?thesis using IH
      proof
        assume "r = Inr () \<and> content w' = content w1 @ drop (nat count) frame"
        then show ?thesis using honest(3) by simp
      next
        assume "(r = Inl ''write-failed'' \<or> r = Inl ''write-short'') \<and>
          (\<exists>n\<le>length (drop (nat count) frame). content w' = content w1 @ take n (drop (nat count) frame))"
        then obtain n where n: "n \<le> length frame - nat count"
          "content w' = content w @ take (nat count + n) frame"
          and "r = Inl ''write-failed'' \<or> r = Inl ''write-short''"
          using honest(3) part by auto
        moreover have "nat count + n \<le> length frame" using n honest(2) by linarith
        ultimately show ?thesis by blast
      qed
    qed
  qed
qed

section \<open>Reading what was written\<close>

lemma bigEndianValue_append: "bigEndianValue (s @ [c]) = bigEndianValue s * 256 + of_char c"
  by (simp add: bigEndianValue_def)

lemma bigEndianBytes_length [simp]: "length (bigEndianBytes n v) = n"
  by (induction n arbitrary: v) simp_all

lemma bigEndianValue_bytes: "0 \<le> v \<Longrightarrow> v < 256 ^ n \<Longrightarrow> bigEndianValue (bigEndianBytes n v) = v"
proof (induction n arbitrary: v)
  case 0
  then show ?case by (simp add: bigEndianValue_def)
next
  case (Suc n)
  have "v div 256 < 256 ^ n" using Suc.prems(2) by auto
  then have "bigEndianValue (bigEndianBytes n (v div 256)) = v div 256" using Suc by simp
  then show ?case by (simp add: bigEndianValue_append take_bit_eq_mod)
qed

lemma bigEndianValue_nonneg: "0 \<le> bigEndianValue s"
proof (induction s rule: rev_induct)
  case (snoc c s)
  have "(0::int) \<le> of_char c" by (simp add: of_char_def)
  with snoc show ?case by (simp add: bigEndianValue_append)
qed (simp add: bigEndianValue_def)

definition frameOk :: "int \<Rightarrow> string \<Rightarrow> bool" where
  "frameOk maximum payload \<longleftrightarrow> 0 < maximum \<and> maximum \<le> MaxFrameBytes
     \<and> payload \<noteq> [] \<and> int (length payload) \<le> maximum"

lemma frameOk_small: "frameOk m p \<Longrightarrow> int (length p) < 256 ^ 4"
  by (simp add: frameOk_def MaxFrameBytes_def MaxExecutionReportBytes_def)

lemma readFull_append: "readFull (length a) (a @ b) = (Some a, b)"
  by (simp add: readFull_def)

lemma readFrame_frameBytes:
  assumes "frameOk m p"
  shows "readFrame (Some (frameBytes p @ rest)) m = (Inr p, rest)"
proof -
  have v: "bigEndianValue (bigEndianBytes 4 (int (length p))) = int (length p)"
    using frameOk_small [OF assms] by (intro bigEndianValue_bytes) simp_all
  have h: "readFull HeaderBytes (frameBytes p @ rest)
      = (Some (bigEndianBytes 4 (int (length p))), p @ rest)"
    using readFull_append [of "bigEndianBytes 4 (int (length p))" "p @ rest"]
    by (simp add: frameBytes_def HeaderBytes_def)
  show ?thesis
    using assms by (simp add: readFrame_def h v readFull_append frameOk_def)
qed

text \<open>
  Whatever the bytes are, a frame that is read is one of the right size, and the reader
  consumes exactly the frame.
\<close>

lemma readFrame_ok:
  "readFrame (Some s) m = (Inr p, rest) \<Longrightarrow>
     frameOk m p \<and> (\<exists>header. length header = HeaderBytes
        \<and> bigEndianValue header = int (length p) \<and> s = header @ p @ rest)"
proof -
  assume read: "readFrame (Some s) m = (Inr p, rest)"
  let ?h = "take HeaderBytes s" and ?t = "drop HeaderBytes s"
  let ?n = "bigEndianValue ?h"
  have m: "0 < m" "m \<le> MaxFrameBytes" using read by (auto simp: readFrame_def split: if_splits)
  then have body: "HeaderBytes \<le> length s" "?n \<noteq> 0" "?n \<le> m" "nat ?n \<le> length ?t"
    "p = take (nat ?n) ?t" "rest = drop (nat ?n) ?t"
    using read by (auto simp: readFrame_def readFull_def Let_def split: if_splits)
  have len: "int (length p) = ?n" using body bigEndianValue_nonneg [of ?h] by simp
  moreover have "p \<noteq> []" using len body(2) by auto
  moreover have "s = ?h @ p @ rest" unfolding body(5,6) by (simp only: append_take_drop_id)
  moreover have "length ?h = HeaderBytes" using body(1) by simp
  moreover have "frameOk m p" using calculation m body(3) by (simp add: frameOk_def)
  ultimately show ?thesis by (metis (no_types))
qed

text \<open>An honest writer that reports success has taken the frame, which reads back.\<close>

lemma writeFrame_honest:
  assumes "honestWriter wr content" and "writeFrame (Some wr) p m w = (r, w')"
  shows "(r = Inr () \<and> frameOk m p \<and> content w' = content w @ frameBytes p)
     \<or> ((\<exists>e. r = Inl e) \<and> (\<exists>n\<le>length (frameBytes p). content w' = content w @ take n (frameBytes p)))"
proof (cases "frameOk m p")
  case True
  then have "writeLoop wr (frameBytes p) w = (r, w')"
    using assms(2) by (simp add: writeFrame_def frameOk_def)
  from writeLoop_honest [OF assms(1) this] show ?thesis using True by blast
next
  case False
  then have "w' = w \<and> (\<exists>e. r = Inl e)"
    using assms(2) by (auto simp: writeFrame_def frameOk_def not_le not_less split: if_splits)
  then show ?thesis by (intro disjI2) (auto intro!: exI [of _ "0::nat"])
qed

text \<open>Frames of a fixed maximum are a stream codec.\<close>

definition getFrame :: "int \<Rightarrow> string \<Rightarrow> (string + string) \<times> string" where
  "getFrame m s = readFrame (Some s) m"

interpretation frames: stream_codec "frameOk m" frameBytes "getFrame m" for m
  by unfold_locales (simp add: getFrame_def readFrame_frameBytes)

end
