(* ===== verification/Protocol_Properties.thy ===== *)
theory Protocol_Properties
  imports Samples Artifact_Pattern Output_Capture Ipc_Frame
begin

text \<open>
  The properties of the protocol records, of artifact patterns, of captured output and of frames.
\<close>

section \<open>Requests\<close>

text \<open>
  C34. An accepted relative artifact path names a location strictly below the directory it is
  resolved in: walking it from any base goes down one directory per segment and never up, and no
  segment of it is, in any letter case, a credential directory, an environment file or the
  repository's metadata.
\<close>
theorem artifact_path_confined:
  assumes "validateRelativeArtifactPath field p n glob = Inr ()"
  shows "walk base (splitOn CHR ''/'' p) = Some (base @ splitOn CHR ''/'' p)
    \<and> (\<forall>s\<in>set (splitOn CHR ''/'' p). toLower s \<notin> set forbiddenArtifactSegments
         \<and> toLower s \<noteq> ''.env'' \<and> \<not> hasPrefix (toLower s) ''.env.'' \<and> \<not> containsControlCharacter s)"
proof -
  have segs: "\<forall>s\<in>set (splitOn CHR ''/'' p). artifactSegment field s = Inr ()"
    using assms by (simp add: validateRelativeArtifactPath_ok)
  then have "list_all (\<lambda>s. \<not> isDotSegment s) (splitOn CHR ''/'' p)"
    by (simp add: list_all_iff artifactSegment_ok)
  then have "walk base (splitOn CHR ''/'' p) = Some (base @ splitOn CHR ''/'' p)" by (rule walk_plain)
  with segs show ?thesis by (simp add: artifactSegment_ok)
qed

lemma artifact_path_confined_witness:
  "walk [''srv''] [''reports'', ''*.json''] = Some [''srv'', ''reports'', ''*.json'']"
proof -
  have "validateRelativeArtifactPath ''artifacts.paths'' ''reports/*.json'' 256 True = Inr ()"
    by code_simp
  from artifact_path_confined [OF this, of "[''srv'']"] show ?thesis by simp
qed

text \<open>
  The selections of a request are accepted exactly if there are at most eight groups with
  different well-formed names, each with one to sixteen different valid patterns, at most
  sixty-four patterns in all; a missing array is refused.
\<close>
theorem artifact_selections_decided:
  "validateArtifactSelections artifacts = Inr () \<longleftrightarrow>
     (\<exists>as. artifacts = Some as \<and> length as \<le> 8 \<and> distinct (map sel_Name as)
        \<and> (\<forall>a\<in>set as. identifierPattern (sel_Name a) \<and> length (sel_Name a) \<le> 32
             \<and> 1 \<le> length (sel_Paths a) \<and> length (sel_Paths a) \<le> 16 \<and> distinct (sel_Paths a)
             \<and> (\<forall>p\<in>set (sel_Paths a). validateArtifactPath p = Inr ()))
        \<and> sum_list (map (\<lambda>a. length (sel_Paths a)) as) \<le> 64)"
  unfolding validateArtifactSelections_ok groupOk_def limit_defs by blast

lemma artifact_selections_decided_witness:
  "\<exists>as. Some as = rq_Artifacts sampleRequest \<and> length as \<le> 8 \<and> distinct (map sel_Name as)"
proof -
  have "validateArtifactSelections (rq_Artifacts sampleRequest) = Inr ()" by code_simp
  then show ?thesis unfolding artifact_selections_decided by metis
qed

text \<open>
  The two validators of absolute POSIX paths agree: a working directory that starts with a
  slash is accepted in a request exactly if the installation accepts it as a Linux path.
\<close>
theorem posix_directories_agree:
  assumes "hasPrefix d ''/''"
  shows "isOk (validateWorkingDirectory d) \<longleftrightarrow> isOk (ValidateAbsolute Linux d)"
proof -
  have seg: "posixSegment s = Inr () \<longleftrightarrow> validateSegment False s = Inr ()" for s
    by (simp add: posixSegment_def validateSegment_def isDotSegment_def)
  show ?thesis
    using assms
    by (auto simp: validateWorkingDirectory_def ValidateAbsolute_def validatePOSIXWorkingDirectory_def
        validateLinux_def validateSegments_def isOk_iff seg MaxWorkingPathBytes_def MaxPathBytes_def
        platform_defs containsAny_def split: if_splits)
qed

lemma posix_directories_agree_witness: "isOk (ValidateAbsolute Linux ''/srv/projects/demo'')"
proof -
  have "hasPrefix ''/srv/projects/demo'' ''/''" by code_simp
  moreover have "isOk (validateWorkingDirectory ''/srv/projects/demo'')" by code_simp
  ultimately show ?thesis using posix_directories_agree by blast
qed

section \<open>Reports and results\<close>

text \<open>
  The timestamp validator accepts exactly the canonical UTC texts of the instants of the
  years 0 to 9999, and returns the instant the text denotes; so two accepted texts of the same
  instant are the same text.
\<close>
theorem timestamps_canonical:
  "validateCanonicalUTCTimestamp field v = Inr t \<longleftrightarrow>
     v = formatRFC3339Nano t \<and> 0 \<le> yearOf t \<and> yearOf t \<le> 9999"
  by (rule timestamp_ok)

text \<open>
  A valid report is consistent in time: it finishes no earlier than it starts, and its
  duration is the whole milliseconds between the two, with the distance saturated at the largest
  64-bit nanosecond count.
\<close>
theorem report_duration:
  assumes "ValidateExecutionReport r = Inr ()"
  shows "\<exists>s f. er_StartedAt r = formatRFC3339Nano s \<and> er_FinishedAt r = formatRFC3339Nano f \<and> s \<le> f
    \<and> er_DurationMilliseconds r = min (f - s) 9223372036854775807 div 1000000
    \<and> 0 \<le> er_DurationMilliseconds r"
proof -
  from assms obtain s f where sf: "er_StartedAt r = formatRFC3339Nano s"
    "er_FinishedAt r = formatRFC3339Nano f" "s \<le> f"
    "er_DurationMilliseconds r = milliseconds (subTime f s)"
    by (auto simp: ValidateExecutionReport_ok timestamp_ok)
  have "subTime f s = min (f - s) 9223372036854775807"
    using sf(3) by (auto simp: subTime_def maxInt64_def minInt64_def min_def)
  then have "er_DurationMilliseconds r = min (f - s) 9223372036854775807 div 1000000"
    using sf(3,4) by (cases "f = s") (simp_all add: milliseconds_def sgn_if)
  moreover from this have "0 \<le> er_DurationMilliseconds r"
    using sf(3) by (simp add: pos_imp_zdiv_nonneg_iff)
  ultimately show ?thesis using sf by blast
qed

lemma report_duration_witness: "0 \<le> er_DurationMilliseconds sampleReport"
  using report_duration [OF sampleReport_valid] by blast

text \<open>
  The command outcome table: completed means exit code zero, failed means an exit code from
  1 to 4294967295, and every other status carries no exit code.
\<close>
theorem command_outcomes:
  "validateCommandOutcome status exitCode = Inr () \<longleftrightarrow>
     status = ''completed'' \<and> exitCode = Some 0
     \<or> status = ''failed'' \<and> (\<exists>c. exitCode = Some c \<and> 0 < c \<and> c < 2 ^ 32)
     \<or> status \<in> {''cancelled'', ''runtime_failed'', ''timed_out''} \<and> exitCode = None"
  by (auto simp: validateCommandOutcome_def supportedCommandStatuses_def status_defs split: option.splits)

text \<open>
  C37. An accepted manifest lists each group and path once, every file below the collection root,
  and the 64-bit running total of the code is the true sum of the sizes, at most one gibibyte.
\<close>
theorem manifest_files_sound:
  assumes "validateArtifactManifest m = Inr ()"
  shows "\<exists>fs. am_Files m = Some fs \<and> length fs \<le> 256
    \<and> distinct (map (\<lambda>f. (af_Group f, af_Path f)) fs)
    \<and> sum_list (map af_SizeBytes fs) \<le> 1073741824
    \<and> foldR manifestFile fs ([], 0) = Inr (rev (map fileIdentity fs), sum_list (map af_SizeBytes fs))
    \<and> (\<forall>f\<in>set fs. 0 \<le> af_SizeBytes f \<and> isLowerHex 64 (af_SHA256 f)
         \<and> walk [] (splitOn CHR ''/'' (af_Path f)) = Some (splitOn CHR ''/'' (af_Path f)))"
proof -
  from assms obtain fs where fs: "am_Files m = Some fs" "length fs \<le> MaxArtifactFiles"
    "\<forall>f\<in>set fs. fileOk f" "distinct (map fileIdentity fs)"
    "sum_list (map af_SizeBytes fs) \<le> MaxTotalArtifactBytes"
    by (auto simp: validateArtifactManifest_ok)
  have "map fileIdentity fs = map (\<lambda>(g, p). g @ CHR 0x00 # p) (map (\<lambda>f. (af_Group f, af_Path f)) fs)"
    by (simp add: fileIdentity_def)
  then have "distinct (map (\<lambda>(g, p). g @ CHR 0x00 # p) (map (\<lambda>f. (af_Group f, af_Path f)) fs))"
    using fs(4) by (simp only:)
  then have "distinct (map (\<lambda>f. (af_Group f, af_Path f)) fs)"
    unfolding distinct_map [of _ "map _ fs"] by (rule conjunct1)
  moreover have "foldR manifestFile fs ([], 0)
      = Inr (rev (map fileIdentity fs), sum_list (map af_SizeBytes fs))"
    using manifestFiles_ok [of 0 fs "[]"] fs(3-5) by (simp add: MaxTotalArtifactBytes_def)
  moreover have "walk [] (splitOn CHR ''/'' (af_Path f)) = Some (splitOn CHR ''/'' (af_Path f))"
    if "f \<in> set fs" for f
  proof -
    have "\<forall>s\<in>set (splitOn CHR ''/'' (af_Path f)). \<not> isDotSegment s"
      using fs(3) that
      by (simp add: fileOk_def validateArtifactFilePath_def validateRelativeArtifactPath_ok artifactSegment_ok)
    then show ?thesis using walk_plain [of _ "[]"] by (simp add: list_all_iff)
  qed
  ultimately show ?thesis
    using fs by (intro exI [of _ fs]) (auto simp: limit_defs fileOk_def)
qed

lemma manifest_files_sound_witness: "\<exists>fs. am_Files sampleManifest = Some fs \<and> length fs \<le> 256"
  using manifest_files_sound [OF sampleManifest_valid] by blast

text \<open>
  C35. Finalizing keeps the report and binds it: the result carries exactly the report, the given
  timestamp and workflow, passes the binding check against the accepted request, and its request
  digest is the SHA-256 of the canonical encoding of that request.
\<close>
theorem finalize_preserves:
  assumes "FinalizeResultRecord accepted report t w = Inr r"
  shows "executionReportFromResult r = report \<and> rr_FinalizedAt r = t \<and> rr_Workflow r = w
    \<and> ValidateResultBinding accepted r = Inr ()
    \<and> rr_RequestDigest r = sha256Hex (encodeJson (requestJson (ar_Request accepted)))"
proof -
  from assms have r: "r = finalizedResult report t w" and b: "ValidateResultBinding accepted r = Inr ()"
    using FinalizeResultRecord_ok by blast+
  then have "ValidateExecutionReportBinding accepted report = Inr ()"
    by (simp add: ValidateResultBinding_def)
  then have "er_RequestDigest report = sha256Hex (encodeJson (requestJson (ar_Request accepted)))"
    by (simp add: ValidateExecutionReportBinding_ok ValidateAcceptedRequestRecord_ok DigestRequest_ok)
  then show ?thesis using b by (simp add: r) (simp add: finalizedResult_def)
qed

lemma finalize_preserves_witness:
  "\<exists>r. FinalizeResultRecord sampleAccepted sampleReport sampleTime sampleWorkflow = Inr r
     \<and> executionReportFromResult r = sampleReport"
proof -
  have "FinalizeResultRecord sampleAccepted sampleReport sampleTime sampleWorkflow
      = Inr (finalizedResult sampleReport sampleTime sampleWorkflow)"
    using sampleResult_valid by (simp add: FinalizeResultRecord_ok)
  with finalize_preserves [OF this] show ?thesis by blast
qed

text \<open>
  C36. A report bound to an accepted request stays within what was requested: retained output is
  within the requested limit, artifacts are reported exactly if some were requested, and every
  file and omission belongs to a requested group.
\<close>
theorem bound_report_within_request:
  assumes "ValidateResultBinding accepted r = Inr ()"
  shows "om_RetainedBytes (rr_Stdout r) \<le> rq_MaxOutputBytes (ar_Request accepted)
    \<and> om_RetainedBytes (rr_Stderr r) \<le> rq_MaxOutputBytes (ar_Request accepted)
    \<and> (am_Status (rr_Artifacts r) = ''not_requested'' \<longleftrightarrow> sl (rq_Artifacts (ar_Request accepted)) = [])
    \<and> af_Group ` set (sl (am_Files (rr_Artifacts r))) \<subseteq> sel_Name ` set (sl (rq_Artifacts (ar_Request accepted)))
    \<and> ao_Group ` set (sl (am_Omissions (rr_Artifacts r))) \<subseteq> sel_Name ` set (sl (rq_Artifacts (ar_Request accepted)))"
proof -
  have "ValidateExecutionReportBinding accepted (executionReportFromResult r) = Inr ()"
    using assms by (simp add: ValidateResultBinding_def)
  then show ?thesis
    by (simp add: ValidateExecutionReportBinding_ok executionReportFromResult_def
        acceptedArtifactGroups_def artifact_status_defs)
qed

lemma bound_report_within_request_witness:
  "om_RetainedBytes (rr_Stdout (finalizedResult sampleReport sampleTime sampleWorkflow)) \<le> 1048576"
  using bound_report_within_request [OF sampleResult_valid]
  by (simp add: sampleAccepted_def sampleRequest_def)

section \<open>Artifact patterns\<close>

text \<open>
  The memo tables of the glob matcher are transparent: for every pattern and path it answers,
  or fails, exactly as the recursion without memory.
\<close>
theorem match_is_reference:
  "Match pattern candidate = globMatch (splitOn CHR ''/'' pattern) (splitOn CHR ''/'' candidate)"
  by (rule Match_globMatch)

text \<open>
  C38. When every segment of a pattern is well formed the matcher returns, and says yes exactly if
  the path matches segment by segment, a double star standing for any number of whole segments.
\<close>
theorem match_decides:
  assumes "list_all (\<lambda>p. p = ''**'' \<or> restValid p) (splitOn CHR ''/'' pattern)"
  shows "Match pattern candidate =
    Some (segmentsMatch (splitOn CHR ''/'' pattern) (splitOn CHR ''/'' candidate))"
proof -
  obtain b where "globMatch (splitOn CHR ''/'' pattern) (splitOn CHR ''/'' candidate) = Some b"
    using globMatch_total [of "splitOn CHR ''/'' pattern" "splitOn CHR ''/'' candidate"] assms
    by (auto simp: list_all_iff)
  then show ?thesis using globMatch_sound by (simp add: Match_globMatch)
qed

lemma match_decides_witness: "Match ''**/*.json'' ''a/b.json'' \<noteq> None"
proof -
  have "list_all (\<lambda>p. p = ''**'' \<or> restValid p) (splitOn CHR ''/'' ''**/*.json'')" by code_simp
  from match_decides [OF this] show ?thesis by simp
qed

text \<open>
  The pruning test never hides a match: if a pattern matches some path strictly below a
  directory, the test answers that it could.
\<close>
theorem could_match_complete:
  assumes "Match pattern (pre @ CHR ''/'' # rest) = Some True"
  shows "CouldMatchDescendant pattern pre = Some True"
proof -
  have "globMatch (splitOn CHR ''/'' pattern) (splitOn CHR ''/'' pre @ splitOn CHR ''/'' rest) = Some True"
    using assms by (simp add: Match_globMatch splitOn_append_sep)
  then show ?thesis
    using globCould_complete(1) [of "splitOn CHR ''/'' rest"] by (simp add: CouldMatchDescendant_globCould)
qed

lemma could_match_complete_witness: "CouldMatchDescendant ''reports/**'' ''reports'' = Some True"
proof -
  have "Match ''reports/**'' (''reports'' @ CHR ''/'' # ''a'') = Some True" by code_simp
  from could_match_complete [OF this] show ?thesis .
qed

text \<open>
  A bracket expression that contains a slash is accepted in a request, because the pattern is
  checked as a whole, but the matcher splits the pattern at slashes first and fails on every path.
\<close>
theorem bracket_slash_never_matches:
  "validateArtifactPath ''[a/b]'' = Inr () \<and> (\<forall>candidate. Match ''[a/b]'' candidate = None)"
proof
  show "validateArtifactPath ''[a/b]'' = Inr ()" by code_simp
  have bad: "\<not> restValid ''[a''" by code_simp
  have split: "splitOn CHR ''/'' ''[a/b]'' = [''[a'', ''b]'']" by code_simp
  have "globMatch [''[a'', ''b]''] cs = None" if "cs \<noteq> []" for cs
    using that bad pathMatch_None_iff [of "''[a''"] by (cases cs) simp_all
  then show "\<forall>candidate. Match ''[a/b]'' candidate = None"
    unfolding Match_globMatch split by simp
qed

section \<open>Captured output\<close>

text \<open>
  C39. However a stream is cut into writes, the capture accepts all of them and its snapshot
  describes the stream: the prefix up to the limit, the total length, the SHA-256 of the whole
  stream, and truncated exactly if the stream is longer than the limit.
\<close>
theorem capture_describes_stream:
  assumes "NewCapture limit = Inr c" and "length (concat pieces) < 2 ^ 63"
  shows "\<exists>c' snap. captureAll pieces c = Inr c' \<and> captureSnapshot c' = Inr snap
    \<and> snap_Retained snap = take (nat limit) (concat pieces)
    \<and> om_TotalBytes (snap_Metadata snap) = int (length (concat pieces))
    \<and> om_RetainedBytes (snap_Metadata snap) = int (length (snap_Retained snap))
    \<and> om_SHA256 (snap_Metadata snap) = sha256Hex (concat pieces)
    \<and> (om_Truncated (snap_Metadata snap) \<longleftrightarrow> limit < int (length (concat pieces)))
    \<and> outputOk (snap_Metadata snap)"
proof -
  have limit: "1024 \<le> limit" "limit \<le> MaxOutputBytes"
    using assms(1) by (auto simp: NewCapture_def limit_defs split: if_splits)
  obtain c' where c': "captureAll pieces c = Inr c'" "capturing limit (concat pieces) c'"
    using captureAll_capturing [OF NewCapture_capturing [OF assms(1)], of pieces] assms(2) limit by auto
  then show ?thesis
    using captureSnapshot_capturing [OF c'(2)] assms(2) limit
    by (auto simp: outputOk_def min_def)
qed

lemma capture_describes_stream_witness:
  "\<exists>c' snap. captureAll [''ab'', ''c''] \<lparr>cap_limit = 1024, cap_digest = hashNew, cap_total = 0, cap_retained = []\<rparr>
     = Inr c' \<and> captureSnapshot c' = Inr snap \<and> snap_Retained snap = ''abc''"
proof -
  have "NewCapture 1024 = Inr \<lparr>cap_limit = 1024, cap_digest = hashNew, cap_total = 0, cap_retained = []\<rparr>"
    by (simp add: NewCapture_def limit_defs)
  from capture_describes_stream [OF this, of "[''ab'', ''c'']"] show ?thesis by auto
qed

section \<open>Frames\<close>

text \<open>
  C40. A frame survives any writer that tells the truth about partial writes: if the write
  succeeds, reading what the writer took gives back the payload and leaves what followed it; if
  it fails, the writer has taken a prefix of the frame.
\<close>
theorem frame_round_trip:
  assumes "honestWriter wr content" and "writeFrame (Some wr) payload maximum w = (r, w')"
  shows "(r = Inr () \<and> (\<exists>sent. content w' = content w @ sent
            \<and> readFrame (Some (sent @ rest)) maximum = (Inr payload, rest)))
    \<or> ((\<exists>e. r = Inl e) \<and> (\<exists>n\<le>length payload + 4. content w' = content w @ take n (frameBytes payload)))"
  using writeFrame_honest [OF assms]
proof
  assume "r = Inr () \<and> frameOk maximum payload \<and> content w' = content w @ frameBytes payload"
  then show ?thesis using readFrame_frameBytes [of maximum payload rest] by blast
next
  assume "(\<exists>e. r = Inl e) \<and> (\<exists>n\<le>length (frameBytes payload). content w' = content w @ take n (frameBytes payload))"
  then show ?thesis by (simp add: frameBytes_def add.commute)
qed

lemma frame_round_trip_witness:
  "\<exists>sent. readFrame (Some (sent @ ''z'')) 16 = (Inr ''hi'', ''z'')"
proof -
  have h: "honestWriter (\<lambda>w s. ((int (length (take 1 s)), False), w @ take 1 s)) (\<lambda>w. w)"
  proof -
    have "take (min (length s) (Suc 0)) s = take (Suc 0) s" for s :: string by (cases s) simp_all
    then show ?thesis by (auto simp: honestWriter_def)
  qed
  have "writeFrame (Some (\<lambda>w s. ((int (length (take 1 s)), False), w @ take 1 s))) ''hi'' 16 []
      = (Inr (), frameBytes ''hi'')"
    by code_simp
  from frame_round_trip [OF h this, of "''z''"] show ?thesis by auto
qed

text \<open>
  A frame is read only within its bound: a payload that is returned is nonempty and no longer
  than the maximum asked for, and exactly its header and its bytes have been consumed.
\<close>
theorem frame_read_bounded:
  assumes "readFrame (Some s) maximum = (Inr payload, rest)"
  shows "1 \<le> length payload \<and> int (length payload) \<le> maximum \<and> maximum \<le> 262144
    \<and> length s = 4 + length payload + length rest
    \<and> (\<exists>header. s = header @ payload @ rest \<and> bigEndianValue header = int (length payload))"
proof -
  from readFrame_ok [OF assms] obtain header where "frameOk maximum payload"
    "length header = HeaderBytes" "bigEndianValue header = int (length payload)" "s = header @ payload @ rest"
    by blast
  then show ?thesis
    by (auto simp: frameOk_def frame_defs MaxExecutionReportBytes_def Suc_le_eq)
qed

lemma frame_read_bounded_witness: "1 \<le> length ''hi''"
proof -
  have "readFrame (Some (frameBytes ''hi'')) 16 = (Inr ''hi'', [])" by code_simp
  from frame_read_bounded [OF this] show ?thesis by blast
qed

end
