(* ===== verification/Json_Parse.thy ===== *)
theory Json_Parse
  imports Json
begin

text \<open>
  The decoding half of \<open>encoding/json\<close> as the strict decoders of the program use it: the
  token loop over \<open>json.Decoder\<close> with its duplicate-key test (\<open>consumeJSONValue\<close>), which
  accepts exactly the JSON grammar, read here into a \<open>json\<close> tree.  Strings are unquoted the
  way the library does it (escapes, surrogate pairs, a lone surrogate becomes U+FFFD); the bytes of
  the input are known to be valid UTF-8 when it runs, so other bytes are copied.  The recursion is
  bounded by fuel, and a loop that runs out of it says so (\<open>OutOfFuel\<close>), apart from every
  refusal; two units per byte and two more are always enough (\<open>parse_answers\<close>).
\<close>

section \<open>White space and literals\<close>

definition isJsonSpace :: "char \<Rightarrow> bool" where
  "isJsonSpace c \<longleftrightarrow> byte c = 32 \<or> byte c = 9 \<or> byte c = 13 \<or> byte c = 10"

definition skipSpace :: "string \<Rightarrow> string" where
  "skipSpace = dropWhile isJsonSpace"

definition hexVal :: "char \<Rightarrow> nat option" where
  "hexVal c =
     (if isDigit c then Some (byte c - 48)
      else if inRange CHR ''a'' CHR ''f'' c then Some (byte c - 87)
      else if inRange CHR ''A'' CHR ''F'' c then Some (byte c - 55)
      else None)"

definition hex4 :: "string \<Rightarrow> nat option" where
  "hex4 s = (case s of
     a # b # c # d # _ \<Rightarrow>
       (case (hexVal a, hexVal b, hexVal c, hexVal d) of
          (Some w, Some x, Some y, Some z) \<Rightarrow> Some (w * 4096 + x * 256 + y * 16 + z)
        | _ \<Rightarrow> None)
   | _ \<Rightarrow> None)"

text \<open>\<open>utf16.DecodeRune\<close>.\<close>

definition surrogatePair :: "nat \<Rightarrow> nat \<Rightarrow> nat" where
  "surrogatePair r s =
     (if 55296 \<le> r \<and> r < 56320 \<and> 56320 \<le> s \<and> s < 57344
      then (r - 55296) * 1024 + (s - 56320) + 65536 else runeError)"

definition isSurrogate :: "nat \<Rightarrow> bool" where
  "isSurrogate r \<longleftrightarrow> 55296 \<le> r \<and> r < 57344"

text \<open>What follows a backslash: the bytes it stands for and how many characters it takes.\<close>

definition unescape :: "string \<Rightarrow> (string \<times> nat) option" where
  "unescape s = (case s of
     [] \<Rightarrow> None
   | c # t \<Rightarrow>
      (if c = CHR 0x22 \<or> c = backslash \<or> c = CHR ''/'' then Some ([c], 1)
       else if c = CHR ''b'' then Some ([CHR 0x08], 1)
       else if c = CHR ''f'' then Some ([CHR 0x0C], 1)
       else if c = CHR ''n'' then Some ([CHR 0x0A], 1)
       else if c = CHR ''r'' then Some ([CHR 0x0D], 1)
       else if c = CHR ''t'' then Some ([CHR 0x09], 1)
       else if c = CHR ''u'' then
         (case hex4 t of
            None \<Rightarrow> None
          | Some r \<Rightarrow>
             (if \<not> isSurrogate r then Some (encodeRune r, 5)
              else
                (let second = (if take 2 (drop 4 t) = [backslash, CHR ''u''] then hex4 (drop 6 t) else None) in
                 case second of
                   Some r2 \<Rightarrow>
                     if surrogatePair r r2 \<noteq> runeError then Some (encodeRune (surrogatePair r r2), 11)
                     else Some (encodeRune runeError, 5)
                 | None \<Rightarrow> Some (encodeRune runeError, 5))))
       else None))"

text \<open>The rest of a string literal after its opening quote: its bytes and the remaining input.\<close>

function unquote :: "string \<Rightarrow> (string \<times> string) option" where
  "unquote s = (case s of
     [] \<Rightarrow> None
   | c # t \<Rightarrow>
      (if c = CHR 0x22 then Some ([], t)
       else if byte c < 32 then None
       else if c = backslash then
         (case unescape t of
            None \<Rightarrow> None
          | Some (bytes, n) \<Rightarrow> map_option (\<lambda>(x, rest). (bytes @ x, rest)) (unquote (drop n t)))
       else map_option (\<lambda>(x, rest). (c # x, rest)) (unquote t)))"
  by pat_completeness auto
termination by (relation "measure length") auto

declare unquote.simps [simp del]

lemma unquote_simps:
  "unquote [] = None"
  "unquote (c # t) =
     (if c = CHR 0x22 then Some ([], t)
      else if byte c < 32 then None
      else if c = backslash then
        (case unescape t of
           None \<Rightarrow> None
         | Some (bytes, n) \<Rightarrow> map_option (\<lambda>(x, rest). (bytes @ x, rest)) (unquote (drop n t)))
      else map_option (\<lambda>(x, rest). (c # x, rest)) (unquote t))"
  by (subst unquote.simps, simp)+

text \<open>
  The longest number literal at the start of the input, with the rest: an optional minus sign,
  an integer without leading zeros, an optional fraction and an optional exponent.
\<close>

definition scanDigits :: "string \<Rightarrow> (string \<times> string) option" where
  "scanDigits s = (let ds = takeWhile isDigit s in
     if ds = [] then None else Some (ds, drop (length ds) s))"

definition scanInteger :: "string \<Rightarrow> (string \<times> string) option" where
  "scanInteger s = (case s of
     [] \<Rightarrow> None
   | c # t \<Rightarrow> if c = CHR ''0'' then Some ([c], t) else scanDigits s)"

definition scanFraction :: "string \<Rightarrow> (string \<times> string) option" where
  "scanFraction s = (case s of
     c # t \<Rightarrow> if c = CHR ''.'' then map_option (\<lambda>(ds, r). (c # ds, r)) (scanDigits t) else Some ([], s)
   | [] \<Rightarrow> Some ([], []))"

definition scanExponent :: "string \<Rightarrow> (string \<times> string) option" where
  "scanExponent s = (case s of
     c # t \<Rightarrow>
       if c = CHR ''e'' \<or> c = CHR ''E'' then
         (case t of
            d # u \<Rightarrow>
              if d = CHR ''+'' \<or> d = CHR ''-'' then map_option (\<lambda>(ds, r). (c # d # ds, r)) (scanDigits u)
              else map_option (\<lambda>(ds, r). (c # ds, r)) (scanDigits t)
          | [] \<Rightarrow> None)
       else Some ([], s)
   | [] \<Rightarrow> Some ([], []))"

definition scanNumber :: "string \<Rightarrow> (string \<times> string) option" where
  "scanNumber s =
     (let (sign, t) = (case s of c # u \<Rightarrow> if c = CHR ''-'' then ([c], u) else ([], s) | [] \<Rightarrow> ([], [])) in
      Option.bind (scanInteger t) (\<lambda>(whole, t).
      Option.bind (scanFraction t) (\<lambda>(fraction, t).
      Option.bind (scanExponent t) (\<lambda>(exponent, t).
      Some (sign @ whole @ fraction @ exponent, t)))))"

text \<open>Strings, numbers and the three names.\<close>

definition parseScalar :: "string \<Rightarrow> (json \<times> string) option" where
  "parseScalar s = (case s of
     [] \<Rightarrow> None
   | c # t \<Rightarrow>
      (if c = CHR 0x22 then map_option (\<lambda>(x, rest). (JStr x, rest)) (unquote t)
       else if hasPrefix s ''true'' then Some (JBool True, drop 4 s)
       else if hasPrefix s ''false'' then Some (JBool False, drop 5 s)
       else if hasPrefix s ''null'' then Some (JNull, drop 4 s)
       else if c = CHR ''-'' \<or> isDigit c then map_option (\<lambda>(x, rest). (JNum x, rest)) (scanNumber s)
       else None))"

section \<open>The token loop\<close>

text \<open>
  \<open>first\<close> says whether no member or element of the enclosing object or array was read yet;
  after the first one a comma must come, and after a comma a member or element.
\<close>

definition afterComma :: "bool \<Rightarrow> string \<Rightarrow> string option" where
  "afterComma first s =
     (if first then Some s
      else case s of [] \<Rightarrow> None | c # t \<Rightarrow> if c = CHR '','' then Some (skipSpace t) else None)"

text \<open>\<open>OutOfFuel\<close> is not an error of the code: it is a loop that has not returned yet.\<close>

datatype ParseError = Malformed | DuplicateKey | OutOfFuel

fun parseValue :: "nat \<Rightarrow> string \<Rightarrow> ParseError + (json \<times> string)"
and parseMembers :: "nat \<Rightarrow> string list \<Rightarrow> bool \<Rightarrow> string \<Rightarrow> ParseError + ((string \<times> json) list \<times> string)"
and parseElements :: "nat \<Rightarrow> bool \<Rightarrow> string \<Rightarrow> ParseError + (json list \<times> string)" where
  "parseValue 0 s = Inl OutOfFuel"
| "parseValue (Suc n) s = (case skipSpace s of
     [] \<Rightarrow> Inl Malformed
   | c # t \<Rightarrow>
      (if c = CHR ''{'' then bindR (parseMembers n [] True t) (\<lambda>(ms, rest). Inr (JObj ms, rest))
       else if c = CHR ''['' then bindR (parseElements n True t) (\<lambda>(xs, rest). Inr (JArr xs, rest))
       else case parseScalar (c # t) of None \<Rightarrow> Inl Malformed | Some r \<Rightarrow> Inr r))"
| "parseMembers 0 seen first s = Inl OutOfFuel"
| "parseMembers (Suc n) seen first s = (case skipSpace s of
     [] \<Rightarrow> Inl Malformed
   | c # t \<Rightarrow>
      (if c = CHR ''}'' then Inr ([], t)
       else case afterComma first (c # t) of None \<Rightarrow> Inl Malformed | Some u \<Rightarrow>
       (if take 1 u \<noteq> [CHR 0x22] then Inl Malformed
        else case unquote (drop 1 u) of None \<Rightarrow> Inl Malformed | Some (key, v) \<Rightarrow>
        (if key \<in> set seen then Inl DuplicateKey
         else if take 1 (skipSpace v) \<noteq> [CHR '':''] then Inl Malformed
         else bindR (parseValue n (drop 1 (skipSpace v))) (\<lambda>(x, rest).
              bindR (parseMembers n (key # seen) False rest) (\<lambda>(ms, rest). Inr ((key, x) # ms, rest)))))))"
| "parseElements 0 first s = Inl OutOfFuel"
| "parseElements (Suc n) first s = (case skipSpace s of
     [] \<Rightarrow> Inl Malformed
   | c # t \<Rightarrow>
      (if c = CHR '']'' then Inr ([], t)
       else case afterComma first (c # t) of None \<Rightarrow> Inl Malformed | Some u \<Rightarrow>
         bindR (parseValue n u) (\<lambda>(x, rest).
         bindR (parseElements n False rest) (\<lambda>(xs, rest). Inr (x # xs, rest)))))"

text \<open>
  A document: one value and nothing but white space after it.  With the fuel given here the loop
  never runs out of it (\<open>parse_answers\<close>), so that its last branch is never taken.
\<close>

datatype DocumentError = MalformedDocument | DuplicateObjectKey | TrailingDocument

definition parseDocument :: "string \<Rightarrow> DocumentError + json" where
  "parseDocument s = (case parseValue (2 * length s + 2) s of
     Inl Malformed \<Rightarrow> Inl MalformedDocument
   | Inl DuplicateKey \<Rightarrow> Inl DuplicateObjectKey
   | Inr (j, rest) \<Rightarrow> if skipSpace rest = [] then Inr j else Inl TrailingDocument
   | Inl OutOfFuel \<Rightarrow> Inl MalformedDocument)"

end
