(* ===== verification/Json_Roundtrip.thy ===== *)
theory Json_Roundtrip
  imports Json_Parse
begin

text \<open>
  Reading back what the encoder writes: the string, number and document round trips, and the
  independence of the parser from its fuel.
\<close>

section \<open>Strings\<close>

lemma hexDigits_table: "list_all (\<lambda>k. hexVal (hexDigit k) = Some k) [0..<16]"
  by code_simp

lemma hexVal_hexDigit: "k < 16 \<Longrightarrow> hexVal (hexDigit k) = Some k"
  using hexDigits_table by (simp add: list_all_iff)

lemma hex4_digits:
  "a < 16 \<Longrightarrow> b < 16 \<Longrightarrow> c < 16 \<Longrightarrow> d < 16 \<Longrightarrow>
     hex4 (hexDigit a # hexDigit b # hexDigit c # hexDigit d # u) = Some (a * 4096 + b * 256 + c * 16 + d)"
  by (simp add: hex4_def hexVal_hexDigit)

lemma hex4_unicode:
  assumes "r < 65536"
  shows "hex4 (hexDigit (r div 4096) # hexDigit (r div 256 mod 16) # hexDigit (r div 16 mod 16) # hexDigit (r mod 16) # u)
    = Some r"
proof -
  have parts: "c * 4096 + z * 256 + y * 16 + x = r" if "16 * a + x = r" "16 * b + y = a" "16 * c + z = b" for a b c x y z
    using that by simp
  have "r div 256 = r div 16 div 16" "r div 4096 = r div 16 div 16 div 16"
    by (simp_all add: div_mult2_eq [symmetric])
  then have sum: "r div 4096 * 4096 + r div 256 mod 16 * 256 + r div 16 mod 16 * 16 + r mod 16 = r"
    using parts [OF mult_div_mod_eq mult_div_mod_eq mult_div_mod_eq] by metis
  have "r div 4096 < 16" using assms by (simp add: less_mult_imp_div_less)
  from hex4_digits [OF this, of "r div 256 mod 16" "r div 16 mod 16" "r mod 16" u] show ?thesis
    unfolding sum by simp
qed

lemma unquote_escaped:
  assumes "unescape s = Some (bytes, n)"
  shows "unquote (backslash # s) = map_option (\<lambda>(x, rest). (bytes @ x, rest)) (unquote (drop n s))"
proof -
  have "backslash \<noteq> CHR 0x22" "\<not> byte backslash < 32" by (simp_all add: backslash_def)
  then show ?thesis
    using assms by (simp only: unquote_simps(2) if_False if_True option.case prod.case simp_thms)
qed

lemma unquote_plain:
  "c \<noteq> CHR 0x22 \<Longrightarrow> \<not> byte c < 32 \<Longrightarrow> c \<noteq> backslash \<Longrightarrow>
     unquote (c # t) = map_option (\<lambda>(x, rest). (c # x, rest)) (unquote t)"
  by (simp only: unquote_simps(2) if_False)

lemma unquote_unicode:
  assumes "r < 65536" and "\<not> isSurrogate r"
  shows "unquote (unicodeEscape r @ u) = map_option (\<lambda>(x, rest). (encodeRune r @ x, rest)) (unquote u)"
proof -
  define h where "h = [hexDigit (r div 4096), hexDigit (r div 256 mod 16), hexDigit (r div 16 mod 16), hexDigit (r mod 16)]"
  have "hex4 (h @ u) = Some r" using hex4_unicode [OF assms(1)] by (simp add: h_def)
  then have "unescape (CHR ''u'' # h @ u) = Some (encodeRune r, 5)"
    using assms(2) by (simp add: unescape_def backslash_def)
  moreover have "unicodeEscape r @ u = backslash # CHR ''u'' # h @ u" by (simp add: unicodeEscape_def h_def)
  moreover have "drop 5 (CHR ''u'' # h @ u) = u" by (simp add: h_def)
  ultimately show ?thesis using unquote_escaped by metis
qed

lemma control_chars:
  "byte c = 8 \<longleftrightarrow> c = CHR 0x08" "byte c = 12 \<longleftrightarrow> c = CHR 0x0C" "byte c = 10 \<longleftrightarrow> c = CHR 0x0A"
  "byte c = 13 \<longleftrightarrow> c = CHR 0x0D" "byte c = 9 \<longleftrightarrow> c = CHR 0x09"
  using byte_inject [of c "CHR 0x08"] byte_inject [of c "CHR 0x0C"] byte_inject [of c "CHR 0x0A"]
    byte_inject [of c "CHR 0x0D"] byte_inject [of c "CHR 0x09"] by simp_all

lemma unescape_named:
  "unescape (CHR 0x22 # u) = Some ([CHR 0x22], 1)" "unescape (backslash # u) = Some ([backslash], 1)"
  "unescape (CHR ''b'' # u) = Some ([CHR 0x08], 1)" "unescape (CHR ''f'' # u) = Some ([CHR 0x0C], 1)"
  "unescape (CHR ''n'' # u) = Some ([CHR 0x0A], 1)" "unescape (CHR ''r'' # u) = Some ([CHR 0x0D], 1)"
  "unescape (CHR ''t'' # u) = Some ([CHR 0x09], 1)"
  by (simp_all add: unescape_def backslash_def)

lemma unquote_named:
  assumes "unescape (e # u) = Some ([c], 1)"
  shows "unquote (backslash # e # u) = map_option (\<lambda>(x, rest). (c # x, rest)) (unquote u)"
  using unquote_escaped [OF assms] by simp

lemma unquote_escapeByte:
  assumes "byte c < 128"
  shows "unquote (escapeByte c @ u) = map_option (\<lambda>(x, rest). (c # x, rest)) (unquote u)"
proof -
  consider "c = CHR 0x22 \<or> c = backslash" | "byte c \<in> {8, 12, 10, 13, 9}"
    | "c \<noteq> CHR 0x22" "c \<noteq> backslash" "byte c \<notin> {8, 12, 10, 13, 9}"
        "byte c < 32 \<or> c = CHR ''<'' \<or> c = CHR ''>'' \<or> c = CHR ''&''"
    | "c \<noteq> CHR 0x22" "c \<noteq> backslash" "\<not> (byte c < 32 \<or> c = CHR ''<'' \<or> c = CHR ''>'' \<or> c = CHR ''&'')"
    by blast
  then show ?thesis
  proof cases
    case 1
    then have "escapeByte c = [backslash, c]" by (simp add: escapeByte_def)
    then show ?thesis using 1 unquote_named unescape_named(1,2) by auto
  next
    case 2
    have n: "c \<noteq> CHR 0x22 \<and> c \<noteq> backslash" if "byte c < 32" using that by (auto simp: backslash_def)
    have "escapeByte c @ u = backslash # e # u"
      if "(byte c, e) \<in> {(8, CHR ''b''), (12, CHR ''f''), (10, CHR ''n''), (13, CHR ''r''), (9, CHR ''t'')}" for e
      using that n by (auto simp: escapeByte_def)
    then show ?thesis using 2 unquote_named unescape_named(3-) control_chars by (elim insertE) auto
  next
    case 3
    then have "escapeByte c = unicodeEscape (byte c)" by (simp add: escapeByte_def)
    moreover have "encodeRune (byte c) = [c]" "\<not> isSurrogate (byte c)"
      using assms by (auto simp: encodeRune_def isSurrogate_def Let_def)
    ultimately show ?thesis using unquote_unicode [of "byte c" u] assms by simp
  next
    case 4
    then have "escapeByte c = [c]" by (auto simp: escapeByte_def)
    then show ?thesis using 4 unquote_plain by simp
  qed
qed

lemma unquote_copy:
  "list_all (\<lambda>d. 128 \<le> byte d) p \<Longrightarrow> unquote (p @ u) = map_option (\<lambda>(x, rest). (p @ x, rest)) (unquote u)"
proof (induction p)
  case Nil
  then show ?case by (simp add: option.map_ident case_prod_unfold)
next
  case (Cons c p)
  then have "128 \<le> byte c" by simp
  then have "c \<noteq> CHR 0x22" "c \<noteq> backslash" by (auto simp: backslash_def)
  with Cons show ?case by (simp add: unquote_plain option.map_comp comp_def case_prod_unfold)
qed

lemma separator_bytes:
  assumes "decodeRune (c # cs) = (r, n)" and "r = 8232 \<or> r = 8233" and "\<not> byte c < 128"
  shows "take n (c # cs) = encodeRune r"
proof -
  consider r2 c1 t where "cs = c1 # t" "128 \<le> byte c1" "decodeRune (c # cs) = (r2, 2)"
    | r3 c1 c2 t where "cs = c1 # c2 # t" "decodeRune (c # cs) = (r3, 3)"
    | r4 c1 c2 c3 t where "cs = c1 # c2 # c3 # t" "decodeRune (c # cs) = (r4, 4)"
    using decodeRune_high_cases [OF assms(3), of cs] assms(1,2) by (fastforce simp: runeError_def)
  then show ?thesis
  proof cases
    case 1
    then have "r = (byte c - 192) * 64 + (byte c1 - 128)" "byte c \<le> 223" "byte c1 \<le> 191"
      using assms(1) by (auto simp: decodeRune_def isCont_def Let_def split: if_splits list.splits)
    then show ?thesis using assms(2) by auto
  next
    case 2
    then have r: "r = (byte c - 224) * 4096 + (byte c1 - 128) * 64 + (byte c2 - 128)" "n = 3"
      and b: "224 \<le> byte c" "byte c \<le> 239" "128 \<le> byte c1" "byte c1 \<le> 191" "128 \<le> byte c2" "byte c2 \<le> 191"
      using assms(1) by (auto simp: decodeRune_def isCont_def Let_def split: if_splits list.splits)
    obtain x y z where xyz: "byte c = 224 + x" "byte c1 = 128 + y" "byte c2 = 128 + z"
      using b by (metis le_Suc_ex)
    then have sum: "x * 4096 + y * 64 + z = r" "y < 64" "z < 64" using r(1) b by simp_all
    have "x = 2" using sum assms(2) by auto
    then have "y = 0" using sum assms(2) by auto
    then have "byte c = 226 \<and> byte c1 = 128 \<and> byte c2 = r - 8064"
      using sum(1) \<open>x = 2\<close> xyz by simp
    then have "c = char_of (226::nat)" "c1 = char_of (128::nat)" "c2 = char_of (r - 8064)"
      by (metis char_of_byte)+
    then show ?thesis using assms(2) 2 r(2) by (auto simp: encodeRune_def Let_def)
  next
    case 3
    then have "r = (byte c - 240) * 262144 + (byte c1 - 128) * 4096 + (byte c2 - 128) * 64 + (byte c3 - 128)"
      "if byte c = 240 then 144 \<le> byte c1 else 241 \<le> byte c"
      using assms(1) by (auto simp: decodeRune_def isCont_def Let_def split: if_splits list.splits)
    then show ?thesis using assms(2) by (auto split: if_splits)
  qed
qed

lemma unquote_escape:
  "validString s \<Longrightarrow> unquote (escapeJson s @ CHR 0x22 # u) = Some (s, u)"
proof (induction s rule: escapeJson.induct)
  case 1
  then show ?case by (simp add: unquote_simps)
next
  case (2 c cs)
  obtain r n where rn: "decodeRune (c # cs) = (r, n)" by fastforce
  have valid: "(r, n) \<noteq> (runeError, 1)" "validString (drop (n - 1) cs)" using 2(2) rn by auto
  have IH: "unquote (escapeJson (drop (n - 1) cs) @ CHR 0x22 # u) = Some (drop (n - 1) cs, u)"
    using 2(1) valid(2) rn by simp
  show ?case
  proof (cases "byte c < 128")
    case True
    then have "n = 1" "r = byte c" using rn by (auto simp: decodeRune_ascii)
    then show ?thesis using True rn IH by (simp add: unquote_escapeByte)
  next
    case False
    note high = decodeRune_high [OF False, of cs] decodeRune_width [of c cs]
    have n: "1 \<le> n" "n - 1 \<le> length cs" using high rn by auto
    then have split: "take n (c # cs) @ drop (n - 1) cs = c # cs" by (cases n) simp_all
    show ?thesis
    proof (cases "r = 8232 \<or> r = 8233")
      case True
      then have "encodeRune r @ drop (n - 1) cs = c # cs"
        using separator_bytes [OF rn True False] split by simp
      moreover have "r < 65536" "\<not> isSurrogate r" using True by (auto simp: isSurrogate_def)
      ultimately show ?thesis
        using True False rn IH unquote_unicode [of r "escapeJson (drop (n - 1) cs) @ CHR 0x22 # u"] by auto
    next
      case other: False
      have "list_all (\<lambda>d. 128 \<le> byte d) (take n (c # cs))"
        using high(2) rn False n by (cases n) auto
      then show ?thesis
        using other False rn valid IH split by (auto simp: unquote_copy)
    qed
  qed
qed

section \<open>Numbers\<close>

definition restOk :: "string \<Rightarrow> bool" where
  "restOk s \<longleftrightarrow> (case s of [] \<Rightarrow> True | c # _ \<Rightarrow> \<not> isDigit c \<and> c \<noteq> CHR ''.'' \<and> c \<noteq> CHR ''e'' \<and> c \<noteq> CHR ''E'')"

lemma decimal_nonempty: "decimal n \<noteq> []"
  by (cases "n < 10") (simp_all add: decimal_small decimal_step)

lemma decimal_no_leading_zero: "0 < n \<Longrightarrow> hd (decimal n) \<noteq> CHR ''0''"
proof (induction n rule: decimal.induct)
  case (1 n)
  show ?case
  proof (cases "n < 10")
    case True
    then have "digitVal (digit (int n)) = int n" using isDigit_digit [of "int n"] by simp
    moreover have "digitVal CHR ''0'' = 0" by (simp add: digitVal_def)
    ultimately show ?thesis using 1(2) True by (auto simp: decimal_small)
  next
    case False
    then have "0 < n div 10" by simp
    then show ?thesis using 1(1) False by (simp add: decimal_step decimal_nonempty)
  qed
qed

lemma scanDigits_all:
  assumes "list_all isDigit ds" and "ds \<noteq> []" and "restOk u"
  shows "scanDigits (ds @ u) = Some (ds, u)"
proof -
  have u: "takeWhile isDigit u = []" using assms(3) by (cases u) (auto simp: restOk_def)
  have "takeWhile isDigit (ds @ u) = ds @ takeWhile isDigit u"
    using assms(1) by (intro takeWhile_append2) (auto simp: list_all_iff)
  then show ?thesis using u assms(2) by (simp add: scanDigits_def)
qed

lemma scanInteger_decimal:
  assumes "restOk u"
  shows "scanInteger (decimal n @ u) = Some (decimal n, u)"
proof (cases "n = 0")
  case True
  moreover have "digit 0 = CHR ''0''" by code_simp
  ultimately show ?thesis by (simp add: decimal_small scanInteger_def)
next
  case False
  obtain c t where ct: "decimal n = c # t" using decimal_nonempty [of n] by (cases "decimal n") auto
  then have "c \<noteq> CHR ''0''" using decimal_no_leading_zero [of n] False by simp
  then show ?thesis
    using scanDigits_all [OF decimal_digits [of n] decimal_nonempty assms] ct by (simp add: scanInteger_def)
qed

lemma restOk_tail: "restOk u \<Longrightarrow> scanFraction u = Some ([], u) \<and> scanExponent u = Some ([], u)"
  by (cases u) (auto simp: restOk_def scanFraction_def scanExponent_def)

lemma decimal_head_digit: "\<exists>c t. decimal n = c # t \<and> isDigit c"
  using decimal_nonempty [of n] decimal_digits [of n] by (cases "decimal n") auto

lemma scanNumber_int:
  assumes "restOk u"
  shows "scanNumber (formatInt i @ u) = Some (formatInt i, u)"
proof -
  obtain c t where ct: "decimal (nat \<bar>i\<bar>) = c # t" "isDigit c" using decimal_head_digit by blast
  have "c \<noteq> CHR ''-''" using ct(2) by (auto simp: isDigit_def inRange_def)
  then show ?thesis
    using scanInteger_decimal [OF assms, of "nat \<bar>i\<bar>"] restOk_tail [OF assms] ct
    by (simp add: scanNumber_def formatInt_def)
qed

section \<open>Documents\<close>

text \<open>Documents the encoder writes: integer literals, valid strings and distinct keys.\<close>

fun cleanJson :: "json \<Rightarrow> bool" where
  "cleanJson JNull = True"
| "cleanJson (JBool b) = True"
| "cleanJson (JNum n) = (\<exists>i. n = formatInt i)"
| "cleanJson (JStr s) = validString s"
| "cleanJson (JArr xs) = (\<forall>x\<in>set xs. cleanJson x)"
| "cleanJson (JObj ms) = (distinct (map fst ms) \<and> (\<forall>m\<in>set ms. validString (fst m) \<and> cleanJson (snd m)))"

text \<open>The fuel a document takes: nested values and the rest of their container are read with one unit less.\<close>

fun jsonFuel :: "json \<Rightarrow> nat" where
  "jsonFuel (JArr xs) = length xs + sum_list (map jsonFuel xs) + 2"
| "jsonFuel (JObj ms) = length ms + sum_list (map (\<lambda>m. jsonFuel (snd m)) ms) + 2"
| "jsonFuel j = 1"

lemma jsonFuel_pos: "0 < jsonFuel j"
  by (cases j) simp_all

lemma formatInt_head: "\<exists>c t. formatInt i = c # t \<and> (c = CHR ''-'' \<or> isDigit c)"
  using decimal_head_digit [of "nat \<bar>i\<bar>"] by (cases "i < 0") (auto simp: formatInt_def)

lemma digit_char: "isDigit c \<Longrightarrow> c \<noteq> CHR 0x22 \<and> c \<noteq> CHR ''t'' \<and> c \<noteq> CHR ''f'' \<and> c \<noteq> CHR ''n''
    \<and> c \<noteq> CHR ''{'' \<and> c \<noteq> CHR ''['' \<and> c \<noteq> CHR '']'' \<and> c \<noteq> CHR ''}'' \<and> c \<noteq> CHR '','' \<and> \<not> isJsonSpace c"
  by (auto simp: isDigit_def inRange_def isJsonSpace_def)

text \<open>The first character of a written value: not white space and not a closing delimiter.\<close>

lemma encodeJson_head:
  assumes "cleanJson j"
  shows "\<exists>c t. encodeJson j = c # t \<and> \<not> isJsonSpace c \<and> c \<noteq> CHR '']'' \<and> c \<noteq> CHR ''}''"
proof (cases j)
  case (JNum n)
  then obtain i where "n = formatInt i" using assms by auto
  then show ?thesis using formatInt_head [of i] digit_char JNum by (fastforce simp: isJsonSpace_def)
qed (auto simp: isJsonSpace_def encodeString_def)

lemma skipSpace_id: "\<not> isJsonSpace c \<Longrightarrow> skipSpace (c # t) = c # t"
  by (simp add: skipSpace_def)

lemma parseScalar_ok:
  assumes "cleanJson j" and "\<forall>xs. j \<noteq> JArr xs" and "\<forall>ms. j \<noteq> JObj ms" and "restOk u"
  shows "parseScalar (encodeJson j @ u) = Some (j, u)"
proof (cases j)
  case (JNum n)
  then obtain i where i: "n = formatInt i" using assms(1) by auto
  obtain c t where ct: "formatInt i = c # t" "c = CHR ''-'' \<or> isDigit c" using formatInt_head by blast
  have "c \<noteq> CHR 0x22" "c \<noteq> CHR ''t''" "c \<noteq> CHR ''f''" "c \<noteq> CHR ''n''" using ct(2) digit_char by auto
  then show ?thesis
    using scanNumber_int [OF assms(4), of i] ct JNum i by (simp add: parseScalar_def hasPrefix_def)
next
  case (JStr s)
  then show ?thesis using assms(1) by (simp add: parseScalar_def encodeString_def unquote_escape)
qed (use assms(2,3) in \<open>auto simp: parseScalar_def hasPrefix_def\<close>)

lemma scalar_head:
  assumes "cleanJson j" and "\<forall>xs. j \<noteq> JArr xs" and "\<forall>ms. j \<noteq> JObj ms"
  shows "\<exists>c t. encodeJson j = c # t \<and> \<not> isJsonSpace c \<and> c \<noteq> CHR ''{'' \<and> c \<noteq> CHR ''[''"
proof (cases j)
  case (JNum n)
  then obtain i where "n = formatInt i" using assms by auto
  then show ?thesis using formatInt_head [of i] digit_char JNum by (fastforce simp: isJsonSpace_def)
qed (use assms in \<open>auto simp: isJsonSpace_def encodeString_def\<close>)

definition tailOf :: "string list \<Rightarrow> string" where
  "tailOf ps = concat (map (\<lambda>p. CHR '','' # p) ps)"

lemma tailOf_simps [simp]: "tailOf [] = []" "tailOf (p # ps) = CHR '','' # p @ tailOf ps"
  by (simp_all add: tailOf_def)

lemma joinWith_tail: "joinWith '','' (p # ps) = p @ tailOf ps"
  by (induction ps arbitrary: p) auto

definition memberText :: "string \<times> json \<Rightarrow> string" where
  "memberText m = encodeString (fst m) @ CHR '':'' # encodeJson (snd m)"

lemma memberText_pair:
  "memberText (key, x) = CHR 0x22 # escapeJson key @ CHR 0x22 # CHR '':'' # encodeJson x"
  by (simp add: memberText_def encodeString_def)

lemma encodeJson_JObj: "encodeJson (JObj ms) = CHR ''{'' # joinWith '','' (map memberText ms) @ ''}''"
  by (simp add: memberText_def [abs_def] case_prod_unfold)

lemma tailOf_restOk: "restOk (tailOf ps @ CHR '']'' # u)" "restOk (tailOf ps @ CHR ''}'' # u)"
  by (cases ps; simp add: tailOf_def restOk_def isDigit_def inRange_def)+

lemma parseElements_tail:
  assumes "\<And>x m u. x \<in> set xs \<Longrightarrow> jsonFuel x \<le> m \<Longrightarrow> restOk u \<Longrightarrow> parseValue m (encodeJson x @ u) = Inr (x, u)"
    and "\<forall>x\<in>set xs. cleanJson x" and "length xs + sum_list (map jsonFuel xs) + 1 \<le> n"
  shows "parseElements n False (tailOf (map encodeJson xs) @ CHR '']'' # u) = Inr (xs, u)"
  using assms
proof (induction xs arbitrary: n)
  case Nil
  then show ?case by (cases n) (simp_all add: skipSpace_id isJsonSpace_def)
next
  case (Cons x xs)
  then obtain k where n: "n = Suc k" by (cases n) auto
  have x: "parseValue k (encodeJson x @ v) = Inr (x, v)" if "restOk v" for v
    using Cons.prems n that by simp
  obtain c t where ct: "encodeJson x = c # t" "\<not> isJsonSpace c"
    using encodeJson_head Cons.prems(2) by (metis list.set_intros(1))
  have IH: "parseElements k False (tailOf (map encodeJson xs) @ CHR '']'' # u) = Inr (xs, u)"
    using jsonFuel_pos [of x] n by (intro Cons.IH Cons.prems(1)) (use Cons.prems(2,3) in auto)
  have x': "parseValue k (c # t @ v) = Inr (x, v)" if "restOk v" for v
    using x [OF that] ct by simp
  show ?case
    using x' [OF tailOf_restOk(1), of "map encodeJson xs" u] IH ct
    by (simp add: n skipSpace_id isJsonSpace_def afterComma_def)
qed

lemma parseElements_all:
  assumes "\<And>x m u. x \<in> set xs \<Longrightarrow> jsonFuel x \<le> m \<Longrightarrow> restOk u \<Longrightarrow> parseValue m (encodeJson x @ u) = Inr (x, u)"
    and "\<forall>x\<in>set xs. cleanJson x" and "length xs + sum_list (map jsonFuel xs) + 1 \<le> n"
  shows "parseElements n True (joinWith '','' (map encodeJson xs) @ CHR '']'' # u) = Inr (xs, u)"
proof (cases xs)
  case Nil
  then show ?thesis using assms(3) by (cases n) (simp_all add: skipSpace_id isJsonSpace_def)
next
  case (Cons x ys)
  then obtain k where n: "n = Suc k" using assms(3) by (cases n) auto
  obtain c t where ct: "encodeJson x = c # t" "\<not> isJsonSpace c" "c \<noteq> CHR '']''"
    using encodeJson_head assms(2) Cons by (metis list.set_intros(1))
  have x: "parseValue k (c # t @ v) = Inr (x, v)" if "restOk v" for v
    using assms(1) [of x k v] assms(3) Cons n that ct by simp
  have tail: "parseElements k False (tailOf (map encodeJson ys) @ CHR '']'' # u) = Inr (ys, u)"
    using jsonFuel_pos [of x] n by (intro parseElements_tail assms(1)) (use assms(2,3) Cons in auto)
  show ?thesis
    using x [OF tailOf_restOk(1), of "map encodeJson ys" u] tail ct
    by (simp add: Cons joinWith_tail n skipSpace_id afterComma_def)
qed

lemma parseMembers_tail:
  assumes "\<And>m k u. m \<in> set ms \<Longrightarrow> jsonFuel (snd m) \<le> k \<Longrightarrow> restOk u \<Longrightarrow>
      parseValue k (encodeJson (snd m) @ u) = Inr (snd m, u)"
    and "\<forall>m\<in>set ms. validString (fst m) \<and> cleanJson (snd m)" and "distinct (map fst ms)"
    and "fst ` set ms \<inter> set seen = {}"
    and "length ms + sum_list (map (\<lambda>m. jsonFuel (snd m)) ms) + 1 \<le> n"
  shows "parseMembers n seen False (tailOf (map memberText ms) @ CHR ''}'' # u) = Inr (ms, u)"
  using assms
proof (induction ms arbitrary: n seen)
  case Nil
  then show ?case by (cases n) (simp_all add: skipSpace_id isJsonSpace_def)
next
  case (Cons m ms)
  obtain key x where m: "m = (key, x)" by (cases m)
  from Cons.prems(5) obtain k where n: "n = Suc k" by (cases n) auto
  have x: "parseValue k (encodeJson x @ v) = Inr (x, v)" if "restOk v" for v
    using Cons.prems(1) [of m k v] Cons.prems(5) n that m by simp
  have IH: "parseMembers k (key # seen) False (tailOf (map memberText ms) @ CHR ''}'' # u) = Inr (ms, u)"
    using jsonFuel_pos [of x] n by (intro Cons.IH Cons.prems(1)) (use Cons.prems(2-5) m in auto)
  have "key \<notin> set seen" "validString key" using Cons.prems(2,4) m by auto
  then show ?case
    using x [OF tailOf_restOk(2), of "map memberText ms" u] IH
    by (simp add: n m memberText_pair skipSpace_id isJsonSpace_def afterComma_def unquote_escape)
qed

lemma parseMembers_all:
  assumes "\<And>m k u. m \<in> set ms \<Longrightarrow> jsonFuel (snd m) \<le> k \<Longrightarrow> restOk u \<Longrightarrow>
      parseValue k (encodeJson (snd m) @ u) = Inr (snd m, u)"
    and "\<forall>m\<in>set ms. validString (fst m) \<and> cleanJson (snd m)" and "distinct (map fst ms)"
    and "length ms + sum_list (map (\<lambda>m. jsonFuel (snd m)) ms) + 1 \<le> n"
  shows "parseMembers n [] True (joinWith '','' (map memberText ms) @ CHR ''}'' # u) = Inr (ms, u)"
proof (cases ms)
  case Nil
  then show ?thesis using assms(4) by (cases n) (simp_all add: skipSpace_id isJsonSpace_def)
next
  case (Cons m ns)
  obtain key x where m: "m = (key, x)" by (cases m)
  from assms(4) Cons obtain k where n: "n = Suc k" by (cases n) auto
  have x: "parseValue k (encodeJson x @ v) = Inr (x, v)" if "restOk v" for v
    using assms(1) [of m k v] assms(4) n that m Cons by simp
  have tail: "parseMembers k [key] False (tailOf (map memberText ns) @ CHR ''}'' # u) = Inr (ns, u)"
    using jsonFuel_pos [of x] n by (intro parseMembers_tail assms(1)) (use assms(2-4) Cons m in auto)
  have "validString key" using assms(2) m Cons by auto
  then show ?thesis
    using x [OF tailOf_restOk(2), of "map memberText ns" u] tail
    by (simp add: Cons joinWith_tail n m memberText_pair skipSpace_id isJsonSpace_def afterComma_def unquote_escape)
qed

lemma parseValue_scalar:
  assumes "cleanJson j" and "\<forall>xs. j \<noteq> JArr xs" and "\<forall>ms. j \<noteq> JObj ms" and "restOk u" and "0 < n"
  shows "parseValue n (encodeJson j @ u) = Inr (j, u)"
proof -
  obtain k where n: "n = Suc k" using assms(5) by (cases n) auto
  obtain c t where ct: "encodeJson j = c # t" "\<not> isJsonSpace c" "c \<noteq> CHR ''{''" "c \<noteq> CHR ''[''"
    using scalar_head [OF assms(1-3)] by blast
  then show ?thesis using parseScalar_ok [OF assms(1-4)] by (simp add: n skipSpace_id)
qed

lemma parseValue_encode:
  "cleanJson j \<Longrightarrow> jsonFuel j \<le> n \<Longrightarrow> restOk u \<Longrightarrow> parseValue n (encodeJson j @ u) = Inr (j, u)"
proof (induction j arbitrary: n u rule: cleanJson.induct)
  case (5 xs)
  then obtain k where n: "n = Suc k" by (cases n) auto
  have "parseElements k True (joinWith '','' (map encodeJson xs) @ CHR '']'' # u) = Inr (xs, u)"
    using 5 n by (intro parseElements_all) auto
  then show ?case by (simp add: n skipSpace_id isJsonSpace_def)
next
  case (6 ms)
  then obtain k where n: "n = Suc k" by (cases n) auto
  have "parseMembers k [] True (joinWith '','' (map memberText ms) @ CHR ''}'' # u) = Inr (ms, u)"
    using 6 n by (intro parseMembers_all) auto
  then show ?case by (simp add: n skipSpace_id isJsonSpace_def encodeJson_JObj del: encodeJson.simps)
qed (rule parseValue_scalar; simp)+

section \<open>Fuel\<close>

lemma unquote_shorter: "unquote s = Some (x, t) \<Longrightarrow> length t < length s"
proof (induction "length s" arbitrary: s x t rule: less_induct)
  case less
  then obtain c u where s: "s = c # u" by (cases s) (auto simp: unquote_simps)
  have IH: "length t < length u - n" if "unquote (drop n u) = Some (x, t)" for n x t
    using less.hyps [of "drop n u" x t] that s by simp
  show ?case
    using less.prems IH IH [of 0] s by (fastforce simp: unquote_simps split: if_splits option.splits)
qed

lemma scanDigits_shorter: "scanDigits s = Some (x, t) \<Longrightarrow> length t < length s"
  by (cases s) (auto simp: scanDigits_def Let_def split: if_splits)

lemma scanInteger_shorter: "scanInteger s = Some (x, t) \<Longrightarrow> length t < length s"
  using scanDigits_shorter by (cases s) (fastforce simp: scanInteger_def split: if_splits)+

lemma scanFraction_shorter: "scanFraction s = Some (x, t) \<Longrightarrow> length t \<le> length s"
  using scanDigits_shorter by (cases s) (fastforce simp: scanFraction_def split: if_splits)+

lemma scanExponent_shorter: "scanExponent s = Some (x, t) \<Longrightarrow> length t \<le> length s"
  using scanDigits_shorter
  by (cases s; cases "tl s") (fastforce simp: scanExponent_def split: if_splits)+

lemma scanNumber_shorter: "scanNumber s = Some (x, t) \<Longrightarrow> length t < length s"
  by (cases s) (fastforce simp: scanNumber_def bind_eq_Some_conv split: if_splits
    dest: scanInteger_shorter scanFraction_shorter scanExponent_shorter)+

lemma parseScalar_shorter: "parseScalar s = Some (x, t) \<Longrightarrow> length t < length s"
  using unquote_shorter scanNumber_shorter
  by (cases s) (fastforce simp: parseScalar_def split: if_splits)+

lemma skipSpace_length: "length (skipSpace s) \<le> length s"
  by (simp add: skipSpace_def length_dropWhile_le)

lemma afterComma_length: "afterComma first s = Some u \<Longrightarrow> length u \<le> length s"
  using skipSpace_length le_SucI by (cases s) (fastforce simp: afterComma_def split: if_splits)+

lemma parse_shorter:
  "parseValue n s = Inr (x, t) \<Longrightarrow> length t < length s"
  "parseMembers n seen first s = Inr (ms, t) \<Longrightarrow> length t < length s"
  "parseElements n first s = Inr (xs, t) \<Longrightarrow> length t < length s"
proof (induction n arbitrary: s x t seen first ms xs)
  case (Suc n)
  {
    case 1
    have "length t < length (skipSpace s)"
      using 1 Suc parseScalar_shorter
      by (cases "skipSpace s") (fastforce simp: bindR_eq_Inr split: if_splits option.splits)+
    then show ?case using skipSpace_length [of s] by simp
  next
    case 2
    show ?case
    proof (cases "skipSpace s")
      case Nil
      then show ?thesis using 2 by simp
    next
      case (Cons c u)
      have len: "length (c # u) \<le> length s" using skipSpace_length [of s] Cons by simp
      show ?thesis
      proof (cases "c = CHR ''}''")
        case True
        then show ?thesis using 2 Cons len by simp
      next
        case False
        then obtain v key w y r ms' where step: "afterComma first (c # u) = Some v" "unquote (drop 1 v) = Some (key, w)"
            "parseValue n (drop 1 (skipSpace w)) = Inr (y, r)" "parseMembers n (key # seen) False r = Inr (ms', t)"
          using 2 Cons by (auto simp: bindR_eq_Inr split: option.splits if_splits)
        have "length t < length r" "length r < length (drop 1 (skipSpace w))" using Suc step by blast+
        then show ?thesis
          using skipSpace_length [of w] unquote_shorter [OF step(2)] afterComma_length [OF step(1)] len by simp
      qed
    qed
  next
    case 3
    show ?case
    proof (cases "skipSpace s")
      case Nil
      then show ?thesis using 3 by simp
    next
      case (Cons c u)
      have len: "length (c # u) \<le> length s" using skipSpace_length [of s] Cons by simp
      show ?thesis
      proof (cases "c = CHR '']''")
        case True
        then show ?thesis using 3 Cons len by simp
      next
        case False
        then obtain v y r xs' where step: "afterComma first (c # u) = Some v"
            "parseValue n v = Inr (y, r)" "parseElements n False r = Inr (xs', t)"
          using 3 Cons by (auto simp: bindR_eq_Inr split: option.splits if_splits)
        have "length t < length r" "length r < length v" using Suc step by blast+
        then show ?thesis using afterComma_length [OF step(1)] len by simp
      qed
    qed
  }
qed simp_all

lemma bindR_cong: "m = m' \<Longrightarrow> (\<And>a. m' = Inr a \<Longrightarrow> k a = k' a) \<Longrightarrow> bindR m k = bindR m' k'"
  by (cases m') simp_all

text \<open>More fuel than the input can use changes nothing.\<close>

lemma parse_fuel_step:
  "2 * length s + 1 \<le> n \<Longrightarrow> parseValue n s = parseValue (Suc n) s"
  "2 * length s + 2 \<le> n \<Longrightarrow> parseMembers n seen first s = parseMembers (Suc n) seen first s"
  "2 * length s + 2 \<le> n \<Longrightarrow> parseElements n first s = parseElements (Suc n) first s"
proof (induction n arbitrary: s seen first)
  case (Suc n)
  {
    case 1
    show ?case
    proof (cases "skipSpace s")
      case Nil
      then show ?thesis by simp
    next
      case (Cons c u)
      have "2 * length u + 2 \<le> n" using skipSpace_length [of s] Cons 1 by simp
      then show ?thesis using Suc.IH(2,3) [of u] Cons by (simp del: parseMembers.simps parseElements.simps)
    qed
  next
    case 2
    show ?case
    proof (cases "skipSpace s")
      case Nil
      then show ?thesis by simp
    next
      case (Cons c u)
      have len: "length (c # u) \<le> length s" using skipSpace_length [of s] Cons by simp
      have val: "parseValue n (drop 1 (skipSpace w)) = parseValue (Suc n) (drop 1 (skipSpace w))"
        and mem: "parseValue (Suc n) (drop 1 (skipSpace w)) = Inr (y, r) \<Longrightarrow>
            parseMembers n k False r = parseMembers (Suc n) k False r"
        if "afterComma first (c # u) = Some v" "unquote (drop 1 v) = Some (key, w)" for v key w y r k
      proof -
        have w: "length (drop 1 (skipSpace w)) + 1 \<le> length s"
          using skipSpace_length [of w] unquote_shorter [OF that(2)] afterComma_length [OF that(1)] len by simp
        then show "parseValue n (drop 1 (skipSpace w)) = parseValue (Suc n) (drop 1 (skipSpace w))"
          using 2 by (intro Suc.IH(1)) simp
        assume "parseValue (Suc n) (drop 1 (skipSpace w)) = Inr (y, r)"
        from parse_shorter(1) [OF this] show "parseMembers n k False r = parseMembers (Suc n) k False r"
          using 2 w by (intro Suc.IH(2)) simp
      qed
      show ?thesis
        using Cons val mem
        by (auto simp del: parseValue.simps intro!: bindR_cong split: option.splits)
    qed
  next
    case 3
    show ?case
    proof (cases "skipSpace s")
      case Nil
      then show ?thesis by simp
    next
      case (Cons c u)
      have len: "length (c # u) \<le> length s" using skipSpace_length [of s] Cons by simp
      have val: "parseValue n v = parseValue (Suc n) v"
        and mem: "parseValue (Suc n) v = Inr (y, r) \<Longrightarrow> parseElements n False r = parseElements (Suc n) False r"
        if "afterComma first (c # u) = Some v" for v y r
      proof -
        have v: "length v \<le> length s" using afterComma_length [OF that] len by simp
        then show "parseValue n v = parseValue (Suc n) v"
          using 3 by (intro Suc.IH(1)) simp
        assume "parseValue (Suc n) v = Inr (y, r)"
        from parse_shorter(1) [OF this] show "parseElements n False r = parseElements (Suc n) False r"
          using 3 v by (intro Suc.IH(3)) simp
      qed
      show ?thesis
        using Cons val mem
        by (auto simp del: parseValue.simps intro!: bindR_cong split: option.splits)
    qed
  }
qed simp_all

lemma parse_fuel: "2 * length s + 1 \<le> n \<Longrightarrow> n \<le> m \<Longrightarrow> parseValue m s = parseValue n s"
  by (induction m) (auto simp: le_Suc_eq parse_fuel_step(1) [symmetric] simp del: parseValue.simps)

text \<open>With that fuel the loop returns: it gives a value or refuses, and never runs out.\<close>

lemma parse_answers:
  "2 * length s + 1 \<le> n \<Longrightarrow> parseValue n s \<noteq> Inl OutOfFuel"
  "2 * length s + 2 \<le> n \<Longrightarrow> parseMembers n seen first s \<noteq> Inl OutOfFuel"
  "2 * length s + 2 \<le> n \<Longrightarrow> parseElements n first s \<noteq> Inl OutOfFuel"
proof (induction n arbitrary: s seen first)
  case (Suc n)
  {
    case 1
    show ?case
    proof (cases "skipSpace s")
      case Nil
      then show ?thesis by simp
    next
      case (Cons c u)
      have "2 * length u + 2 \<le> n" using skipSpace_length [of s] Cons 1 by simp
      then show ?thesis using Suc.IH(2,3) [of u] Cons
        by (auto simp: bindR_eq_Inl simp del: parseMembers.simps parseElements.simps split: option.splits)
    qed
  next
    case 2
    show ?case
    proof (cases "skipSpace s")
      case Nil
      then show ?thesis by simp
    next
      case (Cons c u)
      have len: "length (c # u) \<le> length s" using skipSpace_length [of s] Cons by simp
      have "parseValue n (drop 1 (skipSpace w)) \<noteq> Inl OutOfFuel"
        and "parseValue n (drop 1 (skipSpace w)) = Inr (y, r) \<Longrightarrow> parseMembers n k False r \<noteq> Inl OutOfFuel"
        if "afterComma first (c # u) = Some v" "unquote (drop 1 v) = Some (key, w)" for v key w y r k
      proof -
        have w: "length (drop 1 (skipSpace w)) + 1 \<le> length s"
          using skipSpace_length [of w] unquote_shorter [OF that(2)] afterComma_length [OF that(1)] len by simp
        then show "parseValue n (drop 1 (skipSpace w)) \<noteq> Inl OutOfFuel" using 2 by (intro Suc.IH(1)) simp
        assume "parseValue n (drop 1 (skipSpace w)) = Inr (y, r)"
        from parse_shorter(1) [OF this] show "parseMembers n k False r \<noteq> Inl OutOfFuel"
          using 2 w by (intro Suc.IH(2)) simp
      qed
      then show ?thesis
        using Cons by (auto simp: bindR_eq_Inl simp del: parseValue.simps split: option.splits if_splits)
    qed
  next
    case 3
    show ?case
    proof (cases "skipSpace s")
      case Nil
      then show ?thesis by simp
    next
      case (Cons c u)
      have len: "length (c # u) \<le> length s" using skipSpace_length [of s] Cons by simp
      have "parseValue n v \<noteq> Inl OutOfFuel"
        and "parseValue n v = Inr (y, r) \<Longrightarrow> parseElements n False r \<noteq> Inl OutOfFuel"
        if "afterComma first (c # u) = Some v" for v y r
      proof -
        have v: "length v \<le> length s" using afterComma_length [OF that] len by simp
        then show "parseValue n v \<noteq> Inl OutOfFuel" using 3 by (intro Suc.IH(1)) simp
        assume "parseValue n v = Inr (y, r)"
        from parse_shorter(1) [OF this] show "parseElements n False r \<noteq> Inl OutOfFuel"
          using 3 v by (intro Suc.IH(3)) simp
      qed
      then show ?thesis
        using Cons by (auto simp: bindR_eq_Inl simp del: parseValue.simps split: option.splits if_splits)
    qed
  }
qed simp_all

theorem parseDocument_encode:
  assumes "cleanJson j"
  shows "parseDocument (encodeJson j) = Inr j"
proof -
  let ?s = "encodeJson j" let ?n = "2 * length ?s + 2"
  have "parseValue (max ?n (jsonFuel j)) ?s = Inr (j, [])"
    using parseValue_encode [OF assms, of "max ?n (jsonFuel j)" "[]"] by (simp add: restOk_def)
  then have "parseValue ?n ?s = Inr (j, [])" using parse_fuel [of ?s ?n "max ?n (jsonFuel j)"] by simp
  then show ?thesis by (simp add: parseDocument_def skipSpace_def del: parseValue.simps)
qed

end
