(* ===== verification/Strict_Json.thy ===== *)
theory Strict_Json
  imports Json_Roundtrip Protocol_Types
begin

text \<open>
  The strict decoders: \<open>decodeStrictObject\<close> of \<open>protocol/v1/decode.go\<close> and
  \<open>DecodeObject\<close> of \<open>internal/strictjson/decode.go\<close>, which walk a Go type by reflection.
  \<open>kind\<close> is the part of a \<open>reflect.Type\<close> they look at, with the names of the struct tags in
  the order of the fields.  The token loop of both (\<open>consumeJSONValue\<close>, \<open>consumeValue\<close>) is
  \<open>parseDocument\<close>; the library limits the nesting of what it unmarshals to 10000, and a test
  that fails to unmarshal says nothing, which leaves the refusal to the final typed decode.
\<close>

section \<open>Types and typed values\<close>

datatype kind =
    KString
  | KBool
  | KInt int int    \<comment> \<open>a signed type with its least and greatest value\<close>
  | KUint int       \<comment> \<open>an unsigned type with its greatest value\<close>
  | KPointer kind
  | KSlice kind
  | KStruct "(string \<times> kind) list"

definition KInt64 :: kind where
  "KInt64 = KInt minInt64 maxInt64"

definition KUint8 :: kind where
  "KUint8 = KUint 255"

text \<open>\<open>strconv.ParseUint\<close> and \<open>ParseInt\<close> on the literal of a JSON number.\<close>

definition parseUintLiteral :: "string \<Rightarrow> int option" where
  "parseUintLiteral s = (if s \<noteq> [] \<and> list_all isDigit s then Some (digitsVal s) else None)"

definition parseIntLiteral :: "string \<Rightarrow> int option" where
  "parseIntLiteral s = (case s of
     [] \<Rightarrow> None
   | c # t \<Rightarrow> if c = CHR ''-'' then map_option uminus (parseUintLiteral t) else parseUintLiteral s)"

text \<open>
  Whether \<open>Decode\<close> stores a value in a variable of the type without an error; \<open>null\<close> leaves
  any variable alone.  Structs are decoded after the names of their members were checked.
\<close>

fun fits :: "kind \<Rightarrow> json \<Rightarrow> bool" where
  "fits k JNull = True"
| "fits KString (JStr s) = True"
| "fits KBool (JBool b) = True"
| "fits (KInt lo hi) (JNum s) = (case parseIntLiteral s of None \<Rightarrow> False | Some n \<Rightarrow> lo \<le> n \<and> n \<le> hi)"
| "fits (KUint hi) (JNum s) = (case parseUintLiteral s of None \<Rightarrow> False | Some n \<Rightarrow> n \<le> hi)"
| "fits (KPointer k) j = fits k j"
| "fits (KSlice k) (JArr xs) = (\<forall>x\<in>set xs. fits k x)"
| "fits (KStruct fs) (JObj ms) =
     (\<forall>f\<in>set fs. case map_of ms (fst f) of None \<Rightarrow> True | Some v \<Rightarrow> fits (snd f) v)"
| "fits _ _ = False"

text \<open>The nesting of arrays and objects, and the library's limit on it.\<close>

fun jsonDepth :: "json \<Rightarrow> nat" where
  "jsonDepth (JArr xs) = Suc (foldr max (map jsonDepth xs) 0)"
| "jsonDepth (JObj ms) = Suc (foldr max (map (\<lambda>m. jsonDepth (snd m)) ms) 0)"
| "jsonDepth j = 0"

definition maxNestingDepth :: nat where "maxNestingDepth = 10000"

definition typedDecode :: "kind \<Rightarrow> json \<Rightarrow> bool" where
  "typedDecode k j \<longleftrightarrow> jsonDepth j \<le> maxNestingDepth \<and> fits k j"

text \<open>The first byte of \<open>bytes.TrimSpace(encoded)\<close>, if any is left.\<close>

function firstNonSpace :: "string \<Rightarrow> char option" where
  "firstNonSpace s = (case s of
     [] \<Rightarrow> None
   | c # t \<Rightarrow>
      if isSpaceRune (fst (decodeRune (c # t))) then firstNonSpace (drop (snd (decodeRune (c # t)) - 1) t)
      else Some c)"
  by pat_completeness auto
termination by (relation "measure length") auto

declare firstNonSpace.simps [simp del]

text \<open>The values \<open>Decode\<close> stores: the zero value where it stores none.\<close>

definition memberOf :: "string \<Rightarrow> json \<Rightarrow> json" where
  "memberOf name j = (case j of JObj ms \<Rightarrow> (case map_of ms name of None \<Rightarrow> JNull | Some v \<Rightarrow> v) | _ \<Rightarrow> JNull)"

definition stringOf :: "json \<Rightarrow> string" where
  "stringOf j = (case j of JStr s \<Rightarrow> s | _ \<Rightarrow> [])"

definition boolOf :: "json \<Rightarrow> bool" where
  "boolOf j = (case j of JBool b \<Rightarrow> b | _ \<Rightarrow> False)"

definition intOf :: "json \<Rightarrow> int" where
  "intOf j = (case j of JNum s \<Rightarrow> (case parseIntLiteral s of None \<Rightarrow> 0 | Some n \<Rightarrow> n) | _ \<Rightarrow> 0)"

definition uint8Of :: "json \<Rightarrow> 8 word" where
  "uint8Of j = (case j of JNum s \<Rightarrow> (case parseUintLiteral s of None \<Rightarrow> 0 | Some n \<Rightarrow> word_of_int n) | _ \<Rightarrow> 0)"

definition sliceOf :: "(json \<Rightarrow> 'a) \<Rightarrow> json \<Rightarrow> 'a slice" where
  "sliceOf f j = (case j of JArr xs \<Rightarrow> Some (map f xs) | _ \<Rightarrow> None)"

definition pointerOf :: "(json \<Rightarrow> 'a) \<Rightarrow> json \<Rightarrow> 'a option" where
  "pointerOf f j = (if j = JNull then None else Some (f j))"

section \<open>Version 1 (\<open>protocol/v1/decode.go\<close>)\<close>

fun requireJSONFieldsForType :: "kind \<Rightarrow> json \<Rightarrow> string + unit" where
  "requireJSONFieldsForType (KPointer k) j = (if j = JNull then Inr () else requireJSONFieldsForType k j)"
| "requireJSONFieldsForType (KStruct fs) j = (case j of
     JNull \<Rightarrow> Inl ''schema-decode''
   | JObj ms \<Rightarrow>
      checks (failIf (\<not> set (map fst ms) \<subseteq> set (map fst fs)) ''schema-decode''
        # map (\<lambda>f. case map_of ms (fst f) of
                 None \<Rightarrow> Inl ''missing-required-field''
               | Some v \<Rightarrow> requireJSONFieldsForType (snd f) v) fs)
   | _ \<Rightarrow> Inr ())"
| "requireJSONFieldsForType (KSlice k) j = (case j of
     JNull \<Rightarrow> Inl ''schema-decode''
   | JArr xs \<Rightarrow> checks (map (requireJSONFieldsForType k) xs)
   | _ \<Rightarrow> Inr ())"
| "requireJSONFieldsForType _ j = (if j = JNull then Inl ''schema-decode'' else Inr ())"

text \<open>A document nested too deeply does not unmarshal, so its fields are not looked at.\<close>

definition requireJSONFields :: "kind \<Rightarrow> json \<Rightarrow> string + unit" where
  "requireJSONFields k j = (if jsonDepth j > maxNestingDepth then Inr () else requireJSONFieldsForType k j)"

definition validateJSONStructure :: "string \<Rightarrow> string + json" where
  "validateJSONStructure s = (case parseDocument s of
     Inl MalformedDocument \<Rightarrow> Inl ''malformed-json''
   | Inl DuplicateObjectKey \<Rightarrow> Inl ''duplicate-object-key''
   | Inl TrailingDocument \<Rightarrow> Inl ''trailing-json''
   | Inr j \<Rightarrow> Inr j)"

definition rootChecks :: "nat \<Rightarrow> string \<Rightarrow> string + unit" where
  "rootChecks maximumBytes s = checks
     [failIf (length s > maximumBytes) ''record-too-large'',
      failIf (\<not> validString s) ''invalid-utf8'',
      failIf (firstNonSpace s = None) ''empty-json'',
      failIf (firstNonSpace s \<noteq> Some CHR ''{'') ''root-not-object'']"

definition decodeStrictObject :: "kind \<Rightarrow> nat \<Rightarrow> string \<Rightarrow> string \<Rightarrow> ProtocolError + json" where
  "decodeStrictObject k maximumBytes field s = mapErr (decodeError field)
     (bindR (rootChecks maximumBytes s) (\<lambda>_.
      bindR (validateJSONStructure s) (\<lambda>j.
      bindR (requireJSONFields k j) (\<lambda>_.
      bindR (failIf (\<not> typedDecode k j) ''schema-decode'') (\<lambda>_.
      Inr j)))))"

section \<open>Other records (\<open>internal/strictjson/decode.go\<close>)\<close>

text \<open>
  The members of an object and the fields of a struct are visited in the random order of a Go
  map, so several rules may be reported for one document: the list holds them all and is empty
  when the document passes.
\<close>

fun requireExactFields :: "kind \<Rightarrow> json \<Rightarrow> string list" where
  "requireExactFields (KPointer k) j = (if j = JNull then [] else requireExactFields k j)"
| "requireExactFields (KStruct fs) j = (case j of
     JNull \<Rightarrow> [''schema-decode'']
   | JObj ms \<Rightarrow>
      if \<not> set (map fst ms) \<subseteq> set (map fst fs) then [''unknown-field'']
      else concat (map (\<lambda>f. case map_of ms (fst f) of
                 None \<Rightarrow> [''missing-required-field'']
               | Some v \<Rightarrow> requireExactFields (snd f) v) fs)
   | _ \<Rightarrow> [])"
| "requireExactFields (KSlice k) j = (case j of
     JNull \<Rightarrow> [''schema-decode'']
   | JArr xs \<Rightarrow> (case filter (\<lambda>rules. rules \<noteq> []) (map (requireExactFields k) xs) of
        [] \<Rightarrow> [] | rules # _ \<Rightarrow> rules)
   | _ \<Rightarrow> [])"
| "requireExactFields _ j = (if j = JNull then [''schema-decode''] else [])"

text \<open>\<open>pick\<close> is the choice the map iteration makes among the possible rules.\<close>

definition DecodeObject :: "(string list \<Rightarrow> string) \<Rightarrow> kind \<Rightarrow> nat \<Rightarrow> string \<Rightarrow> string + json" where
  "DecodeObject pick k maximumBytes s =
     bindR (rootChecks maximumBytes s) (\<lambda>_.
     bindR (validateJSONStructure s) (\<lambda>j.
     let rules = (if jsonDepth j > maxNestingDepth then [] else requireExactFields k j) in
     bindR (failIf (rules \<noteq> []) (pick rules)) (\<lambda>_.
     bindR (failIf (\<not> typedDecode k j) ''schema-decode'') (\<lambda>_.
     Inr j))))"

end
