(* ===== verification/Utf8_Facts.thy ===== *)
theory Utf8_Facts
  imports Json_Roundtrip
begin

text \<open>Valid UTF-8 through the JSON encoder and decoder.\<close>

text \<open>
  Facts about UTF-8: which bytes encode one rune, and how a valid string decodes into its runes.
\<close>

section \<open>The bytes of one rune\<close>

definition runeBytes :: "string \<Rightarrow> bool" where
  "runeBytes p = (case p of
     [a] \<Rightarrow> byte a < 128
   | [a, b] \<Rightarrow> 194 \<le> byte a \<and> byte a \<le> 223 \<and> isCont b
   | [a, b, c] \<Rightarrow> 224 \<le> byte a \<and> byte a \<le> 239 \<and> (if byte a = 224 then 160 else 128) \<le> byte b
       \<and> byte b \<le> (if byte a = 237 then 159 else 191) \<and> isCont c
   | [a, b, c, d] \<Rightarrow> 240 \<le> byte a \<and> byte a \<le> 244 \<and> (if byte a = 240 then 144 else 128) \<le> byte b
       \<and> byte b \<le> (if byte a = 244 then 143 else 191) \<and> isCont c \<and> isCont d
   | _ \<Rightarrow> False)"

lemma runeBytes_decode:
  assumes "runeBytes p"
  shows "decodeRune (p @ t) \<noteq> (runeError, 1) \<and> snd (decodeRune (p @ t)) = length p \<and> p \<noteq> []"
proof -
  consider a where "p = [a]" | a b where "p = [a, b]" | a b c where "p = [a, b, c]" | a b c d where "p = [a, b, c, d]"
    using assms by (auto simp: runeBytes_def split: list.splits)
  then show ?thesis
  proof cases
    case 1
    then show ?thesis using assms by (simp add: runeBytes_def decodeRune_ascii runeError_def)
  next
    case 2
    then show ?thesis using assms by (simp add: runeBytes_def decodeRune_def)
  next
    case 3
    then show ?thesis using assms by (simp add: runeBytes_def decodeRune_def)
  next
    case 4
    then show ?thesis using assms by (simp add: runeBytes_def decodeRune_def)
  qed
qed

lemma decodeRune_bytes:
  assumes "decodeRune (c # cs) \<noteq> (runeError, 1)"
  obtains p t where "c # cs = p @ t" "runeBytes p" "snd (decodeRune (c # cs)) = length p"
proof -
  consider "byte c < 128" | "194 \<le> byte c" "byte c \<le> 223" | "224 \<le> byte c" "byte c \<le> 239"
    | "240 \<le> byte c" "byte c \<le> 244" | "128 \<le> byte c" "byte c < 194 \<or> 244 < byte c"
    by linarith
  then have "\<exists>p t. c # cs = p @ t \<and> runeBytes p"
  proof cases
    case 1
    then show ?thesis by (intro exI [of _ "[c]"] exI [of _ cs]) (simp add: runeBytes_def)
  next
    case 2
    then obtain b t where "cs = b # t" "isCont b"
      using assms by (cases cs) (auto simp: decodeRune_def split: if_splits)
    then show ?thesis using 2 by (intro exI [of _ "[c, b]"] exI [of _ t]) (simp add: runeBytes_def)
  next
    case 3
    then obtain b d t where cs: "cs = b # d # t"
      using assms by (cases cs; cases "tl cs") (auto simp: decodeRune_def)
    then have "runeBytes [c, b, d]" using 3 assms by (simp add: decodeRune_def runeBytes_def Let_def split: if_splits)
    then show ?thesis using cs by (intro exI [of _ "[c, b, d]"] exI [of _ t]) simp
  next
    case 4
    then obtain b d e t where cs: "cs = b # d # e # t"
      using assms by (cases cs; cases "tl cs"; cases "tl (tl cs)") (auto simp: decodeRune_def)
    then have "runeBytes [c, b, d, e]" using 4 assms by (simp add: decodeRune_def runeBytes_def Let_def split: if_splits)
    then show ?thesis using cs by (intro exI [of _ "[c, b, d, e]"] exI [of _ t]) simp
  next
    case 5
    then show ?thesis using assms by (auto simp: decodeRune_def)
  qed
  then obtain p t where pt: "c # cs = p @ t" "runeBytes p" by blast
  then show ?thesis using runeBytes_decode [OF pt(2), of t] that by simp
qed

lemma validString_runeBytes: "runeBytes p \<Longrightarrow> validString (p @ t) \<longleftrightarrow> validString t"
  using runeBytes_decode [of p t] by (cases p) auto

text \<open>A valid string is a sequence of such runs of bytes.\<close>

lemma validString_induct [consumes 1, case_names empty rune]:
  assumes "validString s" and "P []"
    and "\<And>p t. runeBytes p \<Longrightarrow> validString t \<Longrightarrow> P t \<Longrightarrow> P (p @ t)"
  shows "P s"
  using assms(1)
proof (induction "length s" arbitrary: s rule: less_induct)
  case less
  show ?case
  proof (cases s)
    case (Cons c cs)
    then have "decodeRune (c # cs) \<noteq> (runeError, 1)" using less.prems by simp
    then obtain p t where pt: "s = p @ t" "runeBytes p"
      using Cons by (metis decodeRune_bytes)
    then have "validString t" "length t < length s"
      using less.prems validString_runeBytes runeBytes_decode [OF pt(2)] by auto
    then show ?thesis using less.hyps assms(3) pt by blast
  qed (simp add: assms(2))
qed

lemma validString_append: "validString s \<Longrightarrow> validString (s @ t) \<longleftrightarrow> validString t"
  by (induction s rule: validString_induct) (simp_all add: validString_runeBytes)

lemma runeBytes_char_of:
  fixes r x y z w :: nat
  shows "r < 128 \<Longrightarrow> runeBytes [char_of r]"
  and "2 \<le> x \<Longrightarrow> x < 32 \<Longrightarrow> y < 64 \<Longrightarrow> runeBytes [char_of (192 + x), char_of (128 + y)]"
  and "x < 16 \<Longrightarrow> y < 64 \<Longrightarrow> z < 64 \<Longrightarrow> x = 0 \<longrightarrow> 32 \<le> y \<Longrightarrow> x = 13 \<longrightarrow> y < 32 \<Longrightarrow>
     runeBytes [char_of (224 + x), char_of (128 + y), char_of (128 + z)]"
  and "x \<le> 4 \<Longrightarrow> y < 64 \<Longrightarrow> z < 64 \<Longrightarrow> w < 64 \<Longrightarrow> x = 0 \<longrightarrow> 16 \<le> y \<Longrightarrow> x = 4 \<longrightarrow> y < 16 \<Longrightarrow>
     runeBytes [char_of (240 + x), char_of (128 + y), char_of (128 + z), char_of (128 + w)]"
  by (auto simp: runeBytes_def isCont_def byte_char_of)

lemma runeBytes_encodeRune: "runeBytes (encodeRune r)"
proof -
  have *: "runeBytes (encodeRune r)" if r: "\<not> (55296 \<le> r \<and> r \<le> 57343)" "r \<le> 1114111" for r
  proof -
    consider "r < 128" | "128 \<le> r" "r < 2048" | "2048 \<le> r" "r < 65536" | "65536 \<le> r" by linarith
    then show ?thesis
    proof cases
      case 1
      then show ?thesis by (simp add: encodeRune_def runeBytes_char_of)
    next
      case 2
      define x y where "x = r div 64" and "y = r mod 64"
      have "r = x * 64 + y" "y < 64" by (simp_all add: x_def y_def)
      then have "runeBytes [char_of (192 + x), char_of (128 + y)]" using 2 by (intro runeBytes_char_of) auto
      then show ?thesis using 2 by (auto simp: encodeRune_def x_def y_def Let_def)
    next
      case 3
      define x y z where "x = r div 4096" and "y = r div 64 mod 64" and "z = r mod 64"
      have "r = (x * 64 + y) * 64 + z" "y < 64" "z < 64"
        using div_mult_mod_eq [of r 64] div_mult_mod_eq [of "r div 64" 64]
        by (simp_all add: x_def y_def z_def div_mult2_eq [symmetric])
      then have "runeBytes [char_of (224 + x), char_of (128 + y), char_of (128 + z)]"
        using 3 r by (intro runeBytes_char_of) auto
      then show ?thesis using 3 r by (auto simp: encodeRune_def x_def y_def z_def Let_def)
    next
      case 4
      define x y z w where "x = r div 262144" and "y = r div 4096 mod 64" and "z = r div 64 mod 64" and "w = r mod 64"
      have "r = ((x * 64 + y) * 64 + z) * 64 + w" "y < 64" "z < 64" "w < 64"
        using div_mult_mod_eq [of r 64] div_mult_mod_eq [of "r div 64" 64] div_mult_mod_eq [of "r div 4096" 64]
        by (simp_all add: x_def y_def z_def w_def div_mult2_eq [symmetric])
      then have "runeBytes [char_of (240 + x), char_of (128 + y), char_of (128 + z), char_of (128 + w)]"
        using 4 r by (intro runeBytes_char_of) auto
      then show ?thesis using 4 r by (auto simp: encodeRune_def x_def y_def z_def w_def Let_def)
    qed
  qed
  show ?thesis
  proof (cases "(55296 \<le> r \<and> r \<le> 57343) \<or> 1114111 < r")
    case True
    then have "encodeRune r = encodeRune runeError" by (auto simp: encodeRune_def runeError_def Let_def)
    then show ?thesis using * [of runeError] by (simp add: runeError_def)
  qed (use * in auto)
qed

section \<open>Encoding\<close>

lemma isASCII_hexDigit: "k < 16 \<Longrightarrow> byte (hexDigit k) < 128"
  by (auto simp: hexDigit_def byte_char_of)

lemma isASCII_escapeByte: "byte c < 128 \<Longrightarrow> isASCII (escapeByte c)"
  by (auto simp: escapeByte_def unicodeEscape_def backslash_def isASCII_hexDigit)

lemma isASCII_separator: "isASCII (unicodeEscape 8232)" "isASCII (unicodeEscape 8233)"
  by (simp_all add: unicodeEscape_def backslash_def isASCII_hexDigit)

lemma validString_escape: "validString s \<Longrightarrow> validString (escapeJson s)"
proof (induction s rule: validString_induct)
  case (rune p t)
  then obtain c cs where p: "p = c # cs" by (cases p) (auto simp: runeBytes_def)
  note dec = runeBytes_decode [OF rune(1), of t]
  have "snd (decodeRune (c # cs @ t)) = Suc (length cs)" using dec p by simp
  then have esc: "escapeJson (p @ t) =
     (if byte c < 128 then escapeByte c
      else if fst (decodeRune (p @ t)) = 8232 \<or> fst (decodeRune (p @ t)) = 8233 then
        unicodeEscape (fst (decodeRune (p @ t)))
      else p) @ escapeJson t"
    using dec p by (cases "decodeRune (c # cs @ t)") auto
  show ?case
    unfolding esc using rune isASCII_escapeByte [of c] isASCII_separator
    by (auto simp: validString_append validString_ascii validString_runeBytes)
qed simp

lemma validString_joinWith:
  "isASCII sep \<Longrightarrow> \<forall>p\<in>set ps. validString p \<Longrightarrow> validString (joinWith sep ps)"
  by (induction sep ps rule: joinWith.induct) (simp_all add: validString_append validString_ascii)

lemma isASCII_formatInt: "isASCII (formatInt i)"
proof -
  have "isASCII (decimal n)" for n
    using decimal_digits [of n] by (auto simp: isASCII_def list_all_iff isDigit_def inRange_def)
  then show ?thesis by (simp add: formatInt_def)
qed

lemma validString_encodeString: "validString s \<Longrightarrow> validString (encodeString s)"
  using validString_ascii [of "[CHR 0x22]"] validString_append [of "[CHR 0x22]"]
  by (simp add: encodeString_def validString_append validString_escape decodeRune_ascii runeError_def)

lemma validString_encodeJson: "cleanJson j \<Longrightarrow> validString (encodeJson j)"
proof (induction j rule: cleanJson.induct)
  case (3 n)
  then show ?case by (auto intro: validString_ascii isASCII_formatInt)
next
  case (5 xs)
  then have "validString (joinWith '','' (map encodeJson xs))" by (intro validString_joinWith) auto
  then show ?case by (simp add: validString_append decodeRune_ascii runeError_def)
next
  case (6 ms)
  have "validString (memberText m)" if "m \<in> set ms" for m
    using that 6 by (simp add: memberText_def validString_append validString_encodeString decodeRune_ascii runeError_def)
  then have "validString (joinWith '','' (map memberText ms))" by (intro validString_joinWith) auto
  then show ?case
    unfolding encodeJson_JObj by (simp add: validString_append decodeRune_ascii runeError_def)
qed (auto intro: validString_ascii simp del: validString.simps simp: validString_encodeString)

section \<open>Decoding\<close>

lemma validString_Cons: "byte c < 128 \<Longrightarrow> validString (c # t) \<longleftrightarrow> validString t"
  by (simp add: decodeRune_ascii runeError_def)

lemma byte_hex: "hexVal c \<noteq> None \<Longrightarrow> byte c < 128"
  by (auto simp: hexVal_def isDigit_def inRange_def split: if_splits)

lemma hex4_split: "hex4 s = Some r \<Longrightarrow> \<exists>p t. s = p @ t \<and> length p = 4 \<and> isASCII p"
proof -
  assume *: "hex4 s = Some r"
  then obtain a b c d t where s: "s = a # b # c # d # t" by (auto simp: hex4_def split: list.splits)
  then have "hexVal a \<noteq> None" "hexVal b \<noteq> None" "hexVal c \<noteq> None" "hexVal d \<noteq> None"
    using * by (auto simp: hex4_def split: option.splits)
  then show ?thesis using s byte_hex by (intro exI [of _ "[a, b, c, d]"] exI [of _ t]) simp
qed

lemma validString_encodeRune: "validString (encodeRune r)"
  using validString_runeBytes [OF runeBytes_encodeRune, of r "[]"] by simp

lemma isASCII_take_u: "take 2 u = [backslash, CHR ''u''] \<Longrightarrow> \<exists>v. u = backslash # CHR ''u'' # v"
  by (cases u; cases "tl u") auto

text \<open>An escape consumes ASCII characters and stands for a valid string.\<close>

lemma unescape_split:
  assumes "unescape s = Some (b, n)"
  shows "validString b \<and> (\<exists>p t. s = p @ t \<and> length p = n \<and> isASCII p)"
proof -
  obtain c t where s: "s = c # t" using assms by (cases s) (auto simp: unescape_def)
  show ?thesis
  proof (cases "c = CHR ''u''")
    case False
    then have "isASCII b \<and> n = 1 \<and> byte c < 128"
      using assms s by (auto simp: unescape_def backslash_def split: if_splits)
    then show ?thesis using s validString_ascii by (intro conjI exI [of _ "[c]"] exI [of _ t]) auto
  next
    case True
    then obtain r where r: "hex4 t = Some r"
      using assms s by (auto simp: unescape_def backslash_def split: if_splits option.splits)
    then obtain p u where p: "t = p @ u" "length p = 4" "isASCII p" using hex4_split by blast
    have short: ?thesis if "b = encodeRune x" "n = 5" for x
      using that p s True validString_encodeRune by (intro conjI exI [of _ "c # p"] exI [of _ u]) auto
    show ?thesis
    proof (cases "n = 5")
      case 5: True
      then have "\<exists>x. b = encodeRune x"
        using assms s True r by (auto simp: unescape_def backslash_def Let_def split: if_splits option.splits)
      then show ?thesis using short 5 by blast
    next
      case False
      then obtain r2 where r2: "take 2 u = [backslash, CHR ''u'']" "hex4 (drop 2 u) = Some r2"
          "b = encodeRune (surrogatePair r r2)" "n = 11"
        using assms s True r p
        by (auto simp: unescape_def Let_def backslash_def split: if_splits option.splits)
      obtain v where v: "u = backslash # CHR ''u'' # v" using isASCII_take_u r2(1) by blast
      then obtain q w where "v = q @ w" "length q = 4" "isASCII q"
        using r2(2) hex4_split [of v r2] by auto
      then show ?thesis
        using r2 p s True v validString_encodeRune
        by (intro conjI exI [of _ "c # p @ backslash # CHR ''u'' # q"] exI [of _ w]) (auto simp: backslash_def)
    qed
  qed
qed

lemma unquote_valid: "validString s \<Longrightarrow> unquote s = Some (x, t) \<Longrightarrow> validString x \<and> validString t"
proof (induction "length s" arbitrary: s x t rule: less_induct)
  case less
  then obtain c u where s: "s = c # u" by (cases s) (auto simp: unquote_simps)
  show ?case
  proof (cases "byte c < 128")
    case ascii: True
    then have u: "validString u" using less.prems(1) validString_Cons [OF ascii] unfolding s by blast
    consider "c = CHR 0x22" | "c \<noteq> CHR 0x22" "c = backslash" | "c \<noteq> CHR 0x22" "c \<noteq> backslash" by blast
    then show ?thesis
    proof cases
      case 1
      then show ?thesis using less.prems s u by (simp add: unquote_simps)
    next
      case 2
      then obtain b n y where y: "unescape u = Some (b, n)" "unquote (drop n u) = Some (y, t)" "x = b @ y"
        using less.prems(2) s by (auto simp: unquote_simps split: if_splits option.splits)
      from unescape_split [OF y(1)] have "validString b" "validString (drop n u)"
        using u by (auto simp: validString_append validString_ascii)
      then show ?thesis using less.hyps [OF _ _ y(2)] y(3) s by (simp add: validString_append)
    next
      case 3
      then obtain y where "unquote u = Some (y, t)" "x = c # y"
        using less.prems(2) s by (auto simp: unquote_simps split: if_splits)
      then show ?thesis using less.hyps [OF _ u] s ascii by (simp add: validString_Cons del: validString.simps)
    qed
  next
    case False
    have "decodeRune (c # u) \<noteq> (runeError, 1)" using less.prems(1) s by simp
    then obtain p v where p: "s = p @ v" "runeBytes p" using s by (metis decodeRune_bytes)
    then have v: "validString v" using less.prems(1) validString_runeBytes by blast
    have high: "list_all (\<lambda>d. 128 \<le> byte d) p"
      using p s False by (auto simp: runeBytes_def isCont_def split: list.splits if_splits)
    then obtain y where "unquote v = Some (y, t)" "x = p @ y"
      using less.prems(2) p(1) by (auto simp: unquote_copy)
    moreover have "length v < length s" using p by (auto simp: runeBytes_def split: list.splits)
    ultimately show ?thesis using less.hyps [OF _ v] p by (simp add: validString_runeBytes)
  qed
qed

text \<open>The strings of a document.\<close>

fun validJson :: "json \<Rightarrow> bool" where
  "validJson (JStr s) = validString s"
| "validJson (JArr xs) = (\<forall>x\<in>set xs. validJson x)"
| "validJson (JObj ms) = (distinct (map fst ms) \<and> (\<forall>m\<in>set ms. validString (fst m) \<and> validJson (snd m)))"
| "validJson _ = True"

lemma validString_dropWhile:
  "(\<And>c. P c \<Longrightarrow> byte c < 128) \<Longrightarrow> validString s \<Longrightarrow> validString (dropWhile P s)"
  by (induction s) (auto simp: validString_Cons simp del: validString.simps(2))

lemma validString_skipSpace: "validString s \<Longrightarrow> validString (skipSpace s)"
  unfolding skipSpace_def by (rule validString_dropWhile) (auto simp: isJsonSpace_def)

lemma scanDigits_valid: "scanDigits s = Some (x, t) \<Longrightarrow> validString s \<Longrightarrow> validString t"
  using validString_dropWhile [of isDigit s]
  by (auto simp: scanDigits_def Let_def dropWhile_eq_drop isDigit_def inRange_def split: if_splits)

lemma validString_tl: "validString (c # t) \<Longrightarrow> byte c < 128 \<Longrightarrow> validString t"
  using validString_Cons by blast

lemma scanInteger_valid: "scanInteger s = Some (x, t) \<Longrightarrow> validString s \<Longrightarrow> validString t"
  using scanDigits_valid validString_tl [of "CHR ''0''"]
  by (cases s) (fastforce simp: scanInteger_def simp del: validString.simps split: if_splits)+

lemma scanFraction_valid: "scanFraction s = Some (x, t) \<Longrightarrow> validString s \<Longrightarrow> validString t"
  using scanDigits_valid validString_tl [of "CHR ''.''"]
  by (cases s) (fastforce simp: scanFraction_def simp del: validString.simps split: if_splits)+

lemma scanExponent_valid: "scanExponent s = Some (x, t) \<Longrightarrow> validString s \<Longrightarrow> validString t"
proof -
  assume *: "scanExponent s = Some (x, t)" "validString s"
  show ?thesis
  proof (cases s)
    case (Cons c u)
    show ?thesis
    proof (cases "c = CHR ''e'' \<or> c = CHR ''E''")
      case True
      then have "validString u" using * Cons validString_tl [of c u] by auto
      moreover obtain d v where "u = d # v" using * True Cons by (cases u) (auto simp: scanExponent_def)
      ultimately show ?thesis
        using * True Cons scanDigits_valid validString_tl [of d v]
        by (fastforce simp: scanExponent_def simp del: validString.simps split: if_splits)
    qed (use * Cons in \<open>simp add: scanExponent_def del: validString.simps\<close>)
  qed (use * in \<open>simp add: scanExponent_def\<close>)
qed

lemma scanNumber_valid: "scanNumber s = Some (x, t) \<Longrightarrow> validString s \<Longrightarrow> validString t"
  using validString_tl [of "CHR ''-''"]
  by (cases s) (fastforce simp: scanNumber_def bind_eq_Some_conv simp del: validString.simps split: if_splits
    dest: scanInteger_valid scanFraction_valid scanExponent_valid)+

lemma validString_prefix: "hasPrefix s p \<Longrightarrow> isASCII p \<Longrightarrow> validString s \<Longrightarrow> validString (drop (length p) s)"
  using validString_append [OF validString_ascii, of p "drop (length p) s"]
  by (metis append_take_drop_id hasPrefix_def)

lemma parseScalar_valid:
  "parseScalar s = Some (x, t) \<Longrightarrow> validString s \<Longrightarrow> validJson x \<and> validString t"
proof -
  assume *: "parseScalar s = Some (x, t)" "validString s"
  then obtain c u where s: "s = c # u" by (cases s) (auto simp: parseScalar_def)
  consider "c = CHR 0x22" | "hasPrefix s ''true''" "c \<noteq> CHR 0x22" | "hasPrefix s ''false''" "c \<noteq> CHR 0x22"
    | "hasPrefix s ''null''" "c \<noteq> CHR 0x22"
    | "c \<noteq> CHR 0x22" "\<not> hasPrefix s ''true''" "\<not> hasPrefix s ''false''" "\<not> hasPrefix s ''null''" by blast
  then show ?thesis
  proof cases
    case 1
    then obtain y where "unquote u = Some (y, t)" "x = JStr y" using *(1) s by (auto simp: parseScalar_def)
    moreover have "validString u" using *(2) s 1 by (intro validString_tl [of c u]) simp_all
    ultimately show ?thesis using unquote_valid [of u y t] by simp
  next
    case 2
    then show ?thesis using * s validString_prefix [OF 2(1)]
      by (auto simp: parseScalar_def eval_nat_numeral simp del: validString.simps)
  next
    case 3
    then have "\<not> hasPrefix s ''true''" using s by (auto simp: hasPrefix_def)
    then show ?thesis using 3 * s validString_prefix [OF 3(1)]
      by (auto simp: parseScalar_def eval_nat_numeral simp del: validString.simps)
  next
    case 4
    then have "\<not> hasPrefix s ''true''" "\<not> hasPrefix s ''false''" using s by (auto simp: hasPrefix_def)
    then show ?thesis using 4 * s validString_prefix [OF 4(1)]
      by (auto simp: parseScalar_def eval_nat_numeral simp del: validString.simps)
  next
    case 5
    then show ?thesis using * s scanNumber_valid [of s _ t]
      by (auto simp: parseScalar_def simp del: validString.simps split: if_splits)
  qed
qed

lemma afterComma_valid: "afterComma first s = Some u \<Longrightarrow> validString s \<Longrightarrow> validString u"
  using validString_skipSpace validString_tl
  by (cases s) (fastforce simp: afterComma_def simp del: validString.simps split: if_splits)+

lemma validString_drop1: "take 1 s = [c] \<Longrightarrow> byte c < 128 \<Longrightarrow> validString s \<Longrightarrow> validString (drop 1 s)"
  using validString_tl by (cases s) (auto simp del: validString.simps)

lemma parse_valid:
  "parseValue n s = Inr (x, t) \<Longrightarrow> validString s \<Longrightarrow> validJson x \<and> validString t"
  "parseMembers n seen first s = Inr (ms, t) \<Longrightarrow> validString s \<Longrightarrow>
     validJson (JObj ms) \<and> fst ` set ms \<inter> set seen = {} \<and> validString t"
  "parseElements n first s = Inr (xs, t) \<Longrightarrow> validString s \<Longrightarrow> validJson (JArr xs) \<and> validString t"
proof (induction n arbitrary: s x t seen first ms xs)
  case (Suc n)
  {
    case 1
    note v = validString_skipSpace [OF 1(2)]
    obtain c u where cu: "skipSpace s = c # u" using 1 by (cases "skipSpace s") auto
    then have u: "validString u" if "byte c < 128" using that v by (intro validString_tl [of c u]) (simp_all del: validString.simps)
    consider "c = CHR ''{''" | "c = CHR ''[''" | "c \<noteq> CHR ''{''" "c \<noteq> CHR ''[''" by blast
    then show ?case
    proof cases
      case object: 1
      then obtain ms where "parseMembers n [] True u = Inr (ms, t)" "x = JObj ms"
        using 1(1) cu by (auto simp: bindR_eq_Inr simp del: parseMembers.simps)
      then show ?thesis using Suc.IH(2) u object by simp
    next
      case array: 2
      then obtain xs where "parseElements n True u = Inr (xs, t)" "x = JArr xs"
        using 1(1) cu by (auto simp: bindR_eq_Inr simp del: parseElements.simps)
      then show ?thesis using Suc.IH(3) u array by simp
    next
      case 3
      then have "parseScalar (c # u) = Some (x, t)" using 1(1) cu by (auto split: option.splits)
      then show ?thesis using parseScalar_valid v cu by simp
    qed
  next
    case 2
    note v = validString_skipSpace [OF 2(2)]
    obtain c u where cu: "skipSpace s = c # u" using 2 by (cases "skipSpace s") auto
    show ?case
    proof (cases "c = CHR ''}''")
      case True
      then show ?thesis using 2 cu v validString_tl [of c u] by (auto simp del: validString.simps)
    next
      case False
      then obtain a key w y r ms' where step: "afterComma first (c # u) = Some a" "take 1 a = [CHR 0x22]"
          "unquote (drop 1 a) = Some (key, w)" "key \<notin> set seen" "take 1 (skipSpace w) = [CHR '':'']"
          "parseValue n (drop 1 (skipSpace w)) = Inr (y, r)" "parseMembers n (key # seen) False r = Inr (ms', t)"
          "ms = (key, y) # ms'"
        using 2 cu by (auto simp: bindR_eq_Inr split: option.splits if_splits)
      have "validString (drop 1 a)" using afterComma_valid [OF step(1)] v cu validString_drop1 [OF step(2)] by simp
      then have key: "validString key" "validString w" using unquote_valid step(3) by blast+
      then have "validString (drop 1 (skipSpace w))" using validString_skipSpace validString_drop1 [OF step(5)] by simp
      then have y: "validJson y" "validString r" using Suc.IH(1) step(6) by blast+
      then show ?thesis using Suc.IH(2) [OF step(7)] key step(4,8) by auto
    qed
  next
    case 3
    note v = validString_skipSpace [OF 3(2)]
    obtain c u where cu: "skipSpace s = c # u" using 3 by (cases "skipSpace s") auto
    show ?case
    proof (cases "c = CHR '']''")
      case True
      then show ?thesis using 3 cu v validString_tl [of c u] by (auto simp del: validString.simps)
    next
      case False
      then obtain a y r xs' where step: "afterComma first (c # u) = Some a"
          "parseValue n a = Inr (y, r)" "parseElements n False r = Inr (xs', t)" "xs = y # xs'"
        using 3 cu by (auto simp: bindR_eq_Inr split: option.splits if_splits)
      have "validString a" using afterComma_valid [OF step(1)] v cu by simp
      then have "validJson y" "validString r" using Suc.IH(1) step(2) by blast+
      then show ?thesis using Suc.IH(3) [OF step(3)] step(4) by auto
    qed
  }
qed simp_all

lemma parseDocument_valid:
  assumes "parseDocument s = Inr j" and "validString s"
  shows "validJson j"
proof -
  obtain rest where "parseValue (2 * length s + 2) s = Inr (j, rest)"
    using assms(1) by (auto simp: parseDocument_def split: sum.splits ParseError.splits if_splits)
  then show ?thesis using parse_valid(1) assms(2) by blast
qed

end
