(* ===== verification/Strict_Facts.thy ===== *)
theory Strict_Facts
  imports Strict_Json Utf8_Facts
begin

text \<open>
  What the strict decoders accept: a reference description of the documents that match a type
  exactly (\<open>matches\<close>), the agreement of both decoders with it, and the decoding of what
  the encoder writes.
\<close>

section \<open>The reference description\<close>

fun matches :: "kind \<Rightarrow> json \<Rightarrow> bool" where
  "matches KString (JStr s) = True"
| "matches KBool (JBool b) = True"
| "matches (KInt lo hi) (JNum s) = (case parseIntLiteral s of None \<Rightarrow> False | Some n \<Rightarrow> lo \<le> n \<and> n \<le> hi)"
| "matches (KUint hi) (JNum s) = (case parseUintLiteral s of None \<Rightarrow> False | Some n \<Rightarrow> n \<le> hi)"
| "matches (KPointer k) j = (j = JNull \<or> matches k j)"
| "matches (KSlice k) (JArr xs) = (\<forall>x\<in>set xs. matches k x)"
| "matches (KStruct fs) (JObj ms) = (set (map fst ms) = set (map fst fs)
     \<and> (\<forall>f\<in>set fs. \<forall>v. map_of ms (fst f) = Some v \<longrightarrow> matches (snd f) v))"
| "matches _ _ = False"

lemma map_of_None_iff: "map_of ms k = None \<longleftrightarrow> k \<notin> fst ` set ms"
  by (simp add: map_of_eq_None_iff)

lemma requireFields_matches:
  "requireJSONFieldsForType k j = Inr () \<and> fits k j \<longleftrightarrow> matches k j"
proof (induction k j rule: requireJSONFieldsForType.induct)
  case (1 k j)
  then show ?case by (cases j) auto
next
  case (2 fs j)
  show ?case
  proof (cases j)
    case (JObj ms)
    have IH: "requireJSONFieldsForType (snd f) v = Inr () \<and> fits (snd f) v \<longleftrightarrow> matches (snd f) v"
      if "f \<in> set fs" "map_of ms (fst f) = Some v" for f v
      using 2 JObj that by blast
    have "(case map_of ms (fst f) of None \<Rightarrow> Inl ''missing-required-field''
             | Some v \<Rightarrow> requireJSONFieldsForType (snd f) v) = Inr ()
        \<and> (case map_of ms (fst f) of None \<Rightarrow> True | Some v \<Rightarrow> fits (snd f) v)
      \<longleftrightarrow> fst f \<in> fst ` set ms \<and> (\<forall>v. map_of ms (fst f) = Some v \<longrightarrow> matches (snd f) v)"
      if "f \<in> set fs" for f
      using IH [OF that] map_of_None_iff [of ms "fst f"] by (cases "map_of ms (fst f)") auto
    then show ?thesis using JObj by (simp add: ball_conj_distrib [symmetric]) blast
  qed auto
next
  case (3 k j)
  then show ?case by (cases j) auto
qed (auto split: option.splits; case_tac j; auto)+

lemma requireFields_rules:
  "requireJSONFieldsForType k j = Inl r \<Longrightarrow> r = ''schema-decode'' \<or> r = ''missing-required-field''"
proof (induction k j arbitrary: r rule: requireJSONFieldsForType.induct)
  case (1 k j)
  then show ?case by (auto split: if_splits)
next
  case (2 fs j)
  note IH = 2(1) and err = 2(2)
  show ?case
  proof (cases j)
    case (JObj ms)
    let ?test = "\<lambda>f. case map_of ms (fst f) of None \<Rightarrow> Inl ''missing-required-field''
        | Some v \<Rightarrow> requireJSONFieldsForType (snd f) v"
    have "Inl r \<in> set (failIf (\<not> set (map fst ms) \<subseteq> set (map fst fs)) ''schema-decode'' # map ?test fs)"
      using err JObj by (intro checks_InlD) simp
    then have "r = ''schema-decode'' \<or> Inl r \<in> ?test ` set fs" by (simp add: failIf_def split: if_splits)
    then consider "r = ''schema-decode''" | f where "f \<in> set fs" "?test f = Inl r" by (metis (no_types, lifting) imageE)
    then show ?thesis
    proof cases
      case (2 f)
      then show ?thesis using IH [OF JObj] by (cases "map_of ms (fst f)") auto
    qed simp
  qed (use err in auto)
next
  case (3 k j)
  show ?case
  proof (cases j)
    case (JArr xs)
    then have "Inl r \<in> requireJSONFieldsForType k ` set xs" using 3(2) checks_InlD by fastforce
    then obtain x where x: "x \<in> set xs" "requireJSONFieldsForType k x = Inl r" by (metis imageE)
    from 3(1) [OF JArr this] show ?thesis .
  qed (use 3 in auto)
qed (auto split: if_splits)

lemma rootChecks_rules:
  "rootChecks n s = Inl r \<Longrightarrow> r = ''record-too-large'' \<and> n < length s \<or>
     \<not> n < length s \<and> (r = ''invalid-utf8'' \<or> r = ''empty-json'' \<or> r = ''root-not-object'')"
  by (auto simp: rootChecks_def checks_Cons split: if_splits)

lemma rootChecks_size: "rootChecks n s = Inr u \<Longrightarrow> \<not> n < length s"
  by (auto simp: rootChecks_def)

lemma structure_rules:
  "validateJSONStructure s = Inl r \<Longrightarrow>
     r = ''malformed-json'' \<or> r = ''duplicate-object-key'' \<or> r = ''trailing-json''"
  by (auto simp: validateJSONStructure_def split: sum.splits DocumentError.splits)

lemma first_failing:
  "(case filter (\<lambda>rules. rules \<noteq> []) xss of [] \<Rightarrow> [] | rules # _ \<Rightarrow> rules) = [] \<longleftrightarrow> (\<forall>rules\<in>set xss. rules = [])"
  by (induction xss) auto

lemma requireExactFields_iff:
  "requireExactFields k j = [] \<longleftrightarrow> requireJSONFieldsForType k j = Inr ()"
proof (induction k j rule: requireJSONFieldsForType.induct)
  case (2 fs j)
  show ?case
  proof (cases j)
    case (JObj ms)
    have "(case map_of ms (fst f) of None \<Rightarrow> [''missing-required-field''] | Some v \<Rightarrow> requireExactFields (snd f) v) = []
      \<longleftrightarrow> (case map_of ms (fst f) of None \<Rightarrow> Inl ''missing-required-field''
             | Some v \<Rightarrow> requireJSONFieldsForType (snd f) v) = Inr ()" if "f \<in> set fs" for f
      using 2 JObj that by (cases "map_of ms (fst f)") auto
    then show ?thesis using JObj by auto
  qed auto
next
  case (3 k j)
  then show ?case by (cases j) (auto simp: first_failing)
qed (auto split: if_splits)

lemma matches_struct: "matches (KStruct fs) j \<Longrightarrow> \<exists>ms. j = JObj ms"
  by (cases j) auto

lemma firstNonSpace_simps:
  "firstNonSpace [] = None"
  "byte c < 128 \<Longrightarrow> firstNonSpace (c # t) = (if isSpaceRune (byte c) then firstNonSpace t else Some c)"
  by (subst firstNonSpace.simps, simp add: decodeRune_ascii)+

lemma firstNonSpace_skipSpace: "skipSpace s = c # t \<Longrightarrow> byte c < 128 \<Longrightarrow> \<not> isSpaceRune (byte c) \<Longrightarrow>
    firstNonSpace s = Some c"
proof (induction s)
  case Nil
  then show ?case by (simp add: skipSpace_def)
next
  case (Cons d s)
  then show ?case
    by (cases "isJsonSpace d") (auto simp: skipSpace_def firstNonSpace_simps isJsonSpace_def isSpaceRune_def)
qed

lemma parseScalar_not_object: "parseScalar s \<noteq> Some (JObj ms, t)"
  by (cases s) (auto simp: parseScalar_def)

lemma parseDocument_object:
  assumes "parseDocument s = Inr (JObj ms)"
  shows "firstNonSpace s = Some CHR ''{''"
proof -
  have "\<exists>rest. parseValue (2 * length s + 2) s = Inr (JObj ms, rest)"
    using assms by (auto simp: parseDocument_def split: sum.splits ParseError.splits if_splits)
  then have "\<exists>t. skipSpace s = CHR ''{'' # t"
    using parseScalar_not_object
    by (cases "skipSpace s") (auto simp: numeral_2_eq_2 bindR_eq_Inr split: if_splits option.splits)
  then show ?thesis by (auto intro: firstNonSpace_skipSpace simp: isSpaceRune_def)
qed

lemma validateJSONStructure_ok [simp]: "validateJSONStructure s = Inr j \<longleftrightarrow> parseDocument s = Inr j"
  by (auto simp: validateJSONStructure_def split: sum.splits DocumentError.splits)

text \<open>The documents both decoders accept.\<close>

definition accepts :: "kind \<Rightarrow> nat \<Rightarrow> string \<Rightarrow> json \<Rightarrow> bool" where
  "accepts k n s j \<longleftrightarrow> length s \<le> n \<and> validString s \<and> parseDocument s = Inr j
     \<and> jsonDepth j \<le> maxNestingDepth \<and> matches k j"

lemma decodeStrictObject_ok:
  "decodeStrictObject (KStruct fs) n field s = Inr j \<longleftrightarrow> accepts (KStruct fs) n s j"
  using requireFields_matches [of "KStruct fs" j] parseDocument_object [of s] matches_struct [of fs j]
  by (auto simp: decodeStrictObject_def accepts_def rootChecks_def bindR_eq_Inr requireJSONFields_def typedDecode_def
      simp del: requireJSONFieldsForType.simps matches.simps fits.simps)

lemma DecodeObject_ok:
  "DecodeObject pick (KStruct fs) n s = Inr j \<longleftrightarrow> accepts (KStruct fs) n s j"
  using requireFields_matches [of "KStruct fs" j] requireExactFields_iff [of "KStruct fs" j]
    parseDocument_object [of s] matches_struct [of fs j]
  by (auto simp: DecodeObject_def accepts_def rootChecks_def bindR_eq_Inr typedDecode_def Let_def
      simp del: requireJSONFieldsForType.simps matches.simps fits.simps requireExactFields.simps)

section \<open>Reading back a written record\<close>

lemma parseUintLiteral_decimal [simp]: "parseUintLiteral (decimal n) = Some (int n)"
  by (simp add: parseUintLiteral_def decimal_nonempty decimal_digits)

lemma parseIntLiteral_formatInt [simp]: "parseIntLiteral (formatInt i) = Some i"
proof -
  obtain c t where ct: "decimal (nat \<bar>i\<bar>) = c # t" "isDigit c" using decimal_head_digit by blast
  then have "c \<noteq> CHR ''-''" by (auto simp: isDigit_def inRange_def)
  then show ?thesis using ct(1) parseUintLiteral_decimal [of "nat \<bar>i\<bar>"]
    by (auto simp: formatInt_def parseIntLiteral_def)
qed

lemma parseUintLiteral_formatInt [simp]: "0 \<le> i \<Longrightarrow> parseUintLiteral (formatInt i) = Some i"
  by (simp add: formatInt_def)

lemma matches_JInt [simp]:
  "matches KInt64 (JInt i) \<longleftrightarrow> isInt64 i" "0 \<le> i \<Longrightarrow> matches KUint8 (JInt i) \<longleftrightarrow> i \<le> 255"
  by (auto simp: KInt64_def KUint8_def JInt_def isInt64_def)

lemma matches_slice [simp]:
  "matches (KSlice k) (jsonSlice f s) \<longleftrightarrow> (\<exists>xs. s = Some xs \<and> (\<forall>x\<in>set xs. matches k (f x)))"
  by (auto simp: jsonSlice_def split: option.splits)

lemma matches_pointer [simp]:
  "(\<And>x. f x \<noteq> JNull) \<Longrightarrow> matches (KPointer k) (jsonPointer f p) \<longleftrightarrow> (\<forall>x. p = Some x \<longrightarrow> matches k (f x))"
  by (auto simp: jsonPointer_def split: option.splits)

lemma JInt_not_null [simp]: "JInt i \<noteq> JNull"
  by (simp add: JInt_def)

lemma cleanJson_JInt [simp]: "cleanJson (JInt i)"
  by (auto simp: JInt_def)

lemma cleanJson_slice [simp]: "cleanJson (jsonSlice f s) \<longleftrightarrow> (\<forall>x\<in>set (sl s). cleanJson (f x))"
  by (auto simp: jsonSlice_def split: option.splits)

lemma cleanJson_pointer [simp]: "cleanJson (jsonPointer f p) \<longleftrightarrow> (\<forall>x. p = Some x \<longrightarrow> cleanJson (f x))"
  by (auto simp: jsonPointer_def split: option.splits)

section \<open>Depth\<close>

text \<open>A document that matches a type is nested no deeper than the type, so the library's limit is never met.\<close>

fun kindDepth :: "kind \<Rightarrow> nat" where
  "kindDepth (KPointer k) = kindDepth k"
| "kindDepth (KSlice k) = Suc (kindDepth k)"
| "kindDepth (KStruct fs) = Suc (foldr max (map (\<lambda>f. kindDepth (snd f)) fs) 0)"
| "kindDepth _ = 0"

lemma foldr_max_le: "foldr max ns (0::nat) \<le> n \<longleftrightarrow> (\<forall>m\<in>set ns. m \<le> n)"
  by (induction ns) auto

lemma foldr_max_ge: "m \<in> set ns \<Longrightarrow> m \<le> foldr max ns (0::nat)"
  by (induction ns) (auto intro: le_max_iff_disj [THEN iffD2])

lemma matches_depth: "matches k j \<Longrightarrow> validJson j \<Longrightarrow> jsonDepth j \<le> kindDepth k"
proof (induction k j rule: matches.induct)
  case (7 fs ms)
  have "jsonDepth (snd m) \<le> foldr max (map (\<lambda>f. kindDepth (snd f)) fs) 0" if m: "m \<in> set ms" for m
  proof -
    have "map_of ms (fst m) = Some (snd m)" using 7(3) m by (simp add: map_of_eq_Some_iff)
    moreover have "fst m \<in> set (map fst fs)" using 7(2) m by (metis image_eqI list.set_map matches.simps(7))
    then obtain k where "(fst m, k) \<in> set fs" by auto
    ultimately have "jsonDepth (snd m) \<le> kindDepth k" using 7 m by auto
    then show ?thesis using \<open>(fst m, k) \<in> set fs\<close> by (force intro: order_trans foldr_max_ge)
  qed
  then show ?case by (simp add: foldr_max_le)
qed (auto simp: foldr_max_le)

lemma cleanJson_validJson: "cleanJson j \<Longrightarrow> validJson j"
  by (induction j rule: cleanJson.induct) auto

lemma accepts_encode:
  assumes "cleanJson j" and "matches k j" and "kindDepth k \<le> maxNestingDepth" and "length (encodeJson j) \<le> n"
  shows "accepts k n (encodeJson j) j"
  using assms matches_depth [OF assms(2) cleanJson_validJson [OF assms(1)]]
  by (simp add: accepts_def parseDocument_encode validString_encodeJson)

lemma accepts_valid: "accepts k n s j \<Longrightarrow> validJson j \<and> matches k j"
  using parseDocument_valid by (auto simp: accepts_def)

section \<open>Reading the members of a record\<close>

lemma memberOf_JObj [simp]:
  "memberOf name (JObj []) = JNull"
  "memberOf name (JObj ((name', v) # ms)) = (if name' = name then v else memberOf name (JObj ms))"
  by (simp_all add: memberOf_def)

lemma readers [simp]:
  "stringOf (JStr s) = s" "boolOf (JBool b) = b" "intOf (JInt i) = i" "uint8Of (JInt (uint w)) = w"
  by (simp_all add: stringOf_def boolOf_def intOf_def uint8Of_def JInt_def)

lemma sliceOf_slice [simp]: "sliceOf f (jsonSlice g s) = map_option (map (\<lambda>x. f (g x))) s"
  by (simp add: sliceOf_def jsonSlice_def comp_def split: option.splits)

lemma sliceOf_JArr [simp]: "sliceOf f (JArr xs) = Some (map f xs)"
  by (simp add: sliceOf_def)

lemma pointerOf_pointer [simp]: "(\<And>x. g x \<noteq> JNull) \<Longrightarrow> pointerOf f (jsonPointer g p) = map_option (\<lambda>x. f (g x)) p"
  by (simp add: pointerOf_def jsonPointer_def split: option.splits)

lemma matches_memberOf:
  assumes "matches (KStruct fs) j" and "validJson j" and "(name, k) \<in> set fs"
  shows "matches k (memberOf name j) \<and> validJson (memberOf name j)"
proof -
  obtain ms where j: "j = JObj ms" using assms(1) matches_struct by blast
  have "name \<in> fst ` set ms" using assms(1,3) j by force
  then obtain v where v: "map_of ms name = Some v" by (meson map_of_eq_None_iff not_None_eq)
  then have "(name, v) \<in> set ms" by (rule map_of_SomeD)
  then show ?thesis using assms j v by (fastforce simp: memberOf_def)
qed

lemma matches_scalar:
  "matches KString j \<Longrightarrow> validJson j \<Longrightarrow> validString (stringOf j)"
  "matches KInt64 j \<Longrightarrow> isInt64 (intOf j)"
  by (cases j; auto simp: KInt64_def stringOf_def intOf_def isInt64_def split: option.splits)+

lemma matches_slice_elim:
  assumes "matches (KSlice k) j" and "validJson j"
  obtains xs where "j = JArr xs" "\<forall>x\<in>set xs. matches k x \<and> validJson x"
  using assms by (cases j) auto

end
