(* ===== verification/Protocol_Decode.thy ===== *)
theory Protocol_Decode
  imports Strict_Json Execution_Policy Install_Config
begin

text \<open>
  The decoders of the records: \<open>DecodeRequest\<close> (\<open>protocol/v1/decode.go\<close>), the decoders of
  \<open>records_codec.go\<close>, \<open>DecodeExecuteEnvelope\<close> (\<open>internal/brokerproto/codec.go\<close>) and
  \<open>Decode\<close> of \<open>internal/installconfig/codec.go\<close>.  For every record type there is its \<open>kind\<close>
  (the struct tags and types of its fields) and the reader of its value from a document.
\<close>

section \<open>Requests\<close>

definition selectionKind :: kind where
  "selectionKind = KStruct [(''name'', KString), (''paths'', KSlice KString)]"

definition selectionOf :: "json \<Rightarrow> ArtifactSelection" where
  "selectionOf j = \<lparr>sel_Name = stringOf (memberOf ''name'' j), sel_Paths = sl (sliceOf stringOf (memberOf ''paths'' j))\<rparr>"

definition requestKind :: kind where
  "requestKind = KStruct
     [(''protocol_version'', KUint8), (''request_id'', KString), (''session_id'', KString), (''actor'', KString),
      (''operation'', KString), (''process_id'', KString), (''shell'', KString), (''working_directory'', KString),
      (''script'', KString), (''timeout_seconds'', KInt64), (''max_output_bytes'', KInt64),
      (''artifacts'', KSlice selectionKind)]"

definition requestOf :: "json \<Rightarrow> Request" where
  "requestOf j = \<lparr>rq_ProtocolVersion = uint8Of (memberOf ''protocol_version'' j),
     rq_RequestID = stringOf (memberOf ''request_id'' j), rq_SessionID = stringOf (memberOf ''session_id'' j),
     rq_Actor = stringOf (memberOf ''actor'' j), rq_Operation = stringOf (memberOf ''operation'' j),
     rq_ProcessID = stringOf (memberOf ''process_id'' j), rq_Shell = stringOf (memberOf ''shell'' j),
     rq_WorkingDirectory = stringOf (memberOf ''working_directory'' j), rq_Script = stringOf (memberOf ''script'' j),
     rq_TimeoutSeconds = intOf (memberOf ''timeout_seconds'' j),
     rq_MaxOutputBytes = intOf (memberOf ''max_output_bytes'' j),
     rq_Artifacts = sliceOf selectionOf (memberOf ''artifacts'' j)\<rparr>"

definition DecodeRequest :: "string \<Rightarrow> ProtocolError + Request" where
  "DecodeRequest encodedRequest =
     bindR (decodeStrictObject requestKind MaxRequestBytes ''request'' encodedRequest) (\<lambda>j.
     bindR (ValidateRequest (requestOf j)) (\<lambda>_. Inr (requestOf j)))"

section \<open>Accepted requests\<close>

definition issueKind :: kind where
  "issueKind = KStruct [(''number'', KInt64), (''node_id'', KString), (''sender_id'', KInt64), (''sender_login'', KString)]"

definition issueOf :: "json \<Rightarrow> IssueProvenance" where
  "issueOf j = \<lparr>is_Number = intOf (memberOf ''number'' j), is_NodeID = stringOf (memberOf ''node_id'' j),
     is_SenderID = intOf (memberOf ''sender_id'' j), is_SenderLogin = stringOf (memberOf ''sender_login'' j)\<rparr>"

definition workflowKind :: kind where
  "workflowKind = KStruct [(''repository'', KString), (''run_id'', KInt64), (''run_attempt'', KInt64),
     (''event_name'', KString), (''event_action'', KString), (''head_sha'', KString)]"

definition workflowOf :: "json \<Rightarrow> WorkflowProvenance" where
  "workflowOf j = \<lparr>wf_Repository = stringOf (memberOf ''repository'' j), wf_RunID = intOf (memberOf ''run_id'' j),
     wf_RunAttempt = intOf (memberOf ''run_attempt'' j), wf_EventName = stringOf (memberOf ''event_name'' j),
     wf_EventAction = stringOf (memberOf ''event_action'' j), wf_HeadSHA = stringOf (memberOf ''head_sha'' j)\<rparr>"

definition acceptedKind :: kind where
  "acceptedKind = KStruct
     [(''protocol_version'', KUint8), (''request_id'', KString), (''request_digest'', KString),
      (''request'', requestKind), (''issue'', issueKind), (''workflow'', workflowKind),
      (''control_source_sha'', KString), (''accepted_at'', KString)]"

definition acceptedOf :: "json \<Rightarrow> AcceptedRequestRecord" where
  "acceptedOf j = \<lparr>ar_ProtocolVersion = uint8Of (memberOf ''protocol_version'' j),
     ar_RequestID = stringOf (memberOf ''request_id'' j), ar_RequestDigest = stringOf (memberOf ''request_digest'' j),
     ar_Request = requestOf (memberOf ''request'' j), ar_Issue = issueOf (memberOf ''issue'' j),
     ar_Workflow = workflowOf (memberOf ''workflow'' j),
     ar_ControlSourceSHA = stringOf (memberOf ''control_source_sha'' j),
     ar_AcceptedAt = stringOf (memberOf ''accepted_at'' j)\<rparr>"

definition DecodeAcceptedRequestRecord :: "string \<Rightarrow> ProtocolError + AcceptedRequestRecord" where
  "DecodeAcceptedRequestRecord encodedRecord =
     bindR (decodeStrictObject acceptedKind MaxAcceptedRecordBytes ''accepted_request'' encodedRecord) (\<lambda>j.
     bindR (ValidateAcceptedRequestRecord (acceptedOf j)) (\<lambda>_. Inr (acceptedOf j)))"

section \<open>Reports and results\<close>

definition outputKind :: kind where
  "outputKind = KStruct [(''sha256'', KString), (''total_bytes'', KInt64), (''retained_bytes'', KInt64), (''truncated'', KBool)]"

definition outputOf :: "json \<Rightarrow> OutputMetadata" where
  "outputOf j = \<lparr>om_SHA256 = stringOf (memberOf ''sha256'' j), om_TotalBytes = intOf (memberOf ''total_bytes'' j),
     om_RetainedBytes = intOf (memberOf ''retained_bytes'' j), om_Truncated = boolOf (memberOf ''truncated'' j)\<rparr>"

definition fileKind :: kind where
  "fileKind = KStruct [(''group'', KString), (''path'', KString), (''sha256'', KString), (''size_bytes'', KInt64)]"

definition fileOf :: "json \<Rightarrow> ArtifactFile" where
  "fileOf j = \<lparr>af_Group = stringOf (memberOf ''group'' j), af_Path = stringOf (memberOf ''path'' j),
     af_SHA256 = stringOf (memberOf ''sha256'' j), af_SizeBytes = intOf (memberOf ''size_bytes'' j)\<rparr>"

definition omissionKind :: kind where
  "omissionKind = KStruct [(''group'', KString), (''pattern'', KString), (''reason'', KString)]"

definition omissionOf :: "json \<Rightarrow> ArtifactOmission" where
  "omissionOf j = \<lparr>ao_Group = stringOf (memberOf ''group'' j), ao_Pattern = stringOf (memberOf ''pattern'' j),
     ao_Reason = stringOf (memberOf ''reason'' j)\<rparr>"

definition manifestKind :: kind where
  "manifestKind = KStruct [(''status'', KString), (''files'', KSlice fileKind), (''omissions'', KSlice omissionKind)]"

definition manifestOf :: "json \<Rightarrow> ArtifactManifest" where
  "manifestOf j = \<lparr>am_Status = stringOf (memberOf ''status'' j), am_Files = sliceOf fileOf (memberOf ''files'' j),
     am_Omissions = sliceOf omissionOf (memberOf ''omissions'' j)\<rparr>"

definition reportFields :: "(string \<times> kind) list" where
  "reportFields =
     [(''protocol_version'', KUint8), (''request_id'', KString), (''request_digest'', KString),
      (''attempt_id'', KString), (''gateway_source_sha'', KString), (''command_status'', KString),
      (''exit_code'', KPointer KInt64), (''started_at'', KString), (''finished_at'', KString),
      (''duration_ms'', KInt64), (''stdout'', outputKind), (''stderr'', outputKind), (''artifacts'', manifestKind)]"

definition reportOf :: "json \<Rightarrow> ExecutionReport" where
  "reportOf j = \<lparr>er_ProtocolVersion = uint8Of (memberOf ''protocol_version'' j),
     er_RequestID = stringOf (memberOf ''request_id'' j), er_RequestDigest = stringOf (memberOf ''request_digest'' j),
     er_AttemptID = stringOf (memberOf ''attempt_id'' j),
     er_GatewaySourceSHA = stringOf (memberOf ''gateway_source_sha'' j),
     er_CommandStatus = stringOf (memberOf ''command_status'' j),
     er_ExitCode = pointerOf intOf (memberOf ''exit_code'' j), er_StartedAt = stringOf (memberOf ''started_at'' j),
     er_FinishedAt = stringOf (memberOf ''finished_at'' j), er_DurationMilliseconds = intOf (memberOf ''duration_ms'' j),
     er_Stdout = outputOf (memberOf ''stdout'' j), er_Stderr = outputOf (memberOf ''stderr'' j),
     er_Artifacts = manifestOf (memberOf ''artifacts'' j)\<rparr>"

definition resultFields :: "(string \<times> kind) list" where
  "resultFields = reportFields @ [(''finalized_at'', KString), (''workflow'', workflowKind)]"

definition resultOf :: "json \<Rightarrow> ResultRecord" where
  "resultOf j = finalizedResult (reportOf j) (stringOf (memberOf ''finalized_at'' j)) (workflowOf (memberOf ''workflow'' j))"

definition DecodeExecutionReport :: "string \<Rightarrow> ProtocolError + ExecutionReport" where
  "DecodeExecutionReport encodedReport =
     bindR (decodeStrictObject (KStruct reportFields) MaxExecutionReportBytes ''execution_report'' encodedReport) (\<lambda>j.
     bindR (ValidateExecutionReport (reportOf j)) (\<lambda>_. Inr (reportOf j)))"

definition DecodeResultRecord :: "string \<Rightarrow> ProtocolError + ResultRecord" where
  "DecodeResultRecord encodedRecord =
     bindR (decodeStrictObject (KStruct resultFields) MaxResultRecordBytes ''result'' encodedRecord) (\<lambda>j.
     bindR (ValidateResultRecord (resultOf j)) (\<lambda>_. Inr (resultOf j)))"

section \<open>Execute envelopes\<close>

definition envelopeKind :: kind where
  "envelopeKind = KStruct [(''protocol_version'', KUint8), (''operation'', KString), (''attempt_id'', KString),
     (''accepted_request'', acceptedKind)]"

definition envelopeOf :: "json \<Rightarrow> ExecuteEnvelope" where
  "envelopeOf j = \<lparr>ee_ProtocolVersion = uint8Of (memberOf ''protocol_version'' j),
     ee_Operation = stringOf (memberOf ''operation'' j), ee_AttemptID = stringOf (memberOf ''attempt_id'' j),
     ee_AcceptedRequest = acceptedOf (memberOf ''accepted_request'' j)\<rparr>"

definition DecodeExecuteEnvelope :: "(string list \<Rightarrow> string) \<Rightarrow> string \<Rightarrow> BrokerError + ExecuteEnvelope" where
  "DecodeExecuteEnvelope pick encoded =
     bindR (mapErr (\<lambda>rule. BrokerError ''envelope'' (''json-'' @ rule))
              (DecodeObject pick envelopeKind MaxExecuteEnvelopeBytes encoded)) (\<lambda>j.
     bindR (ValidateExecuteEnvelope (envelopeOf j)) (\<lambda>_. Inr (envelopeOf j)))"

section \<open>Installation configurations\<close>

definition principalKind :: kind where
  "principalKind = KStruct [(''name'', KString), (''identifier'', KString), (''primary_group_identifier'', KString)]"

definition principalOf :: "json \<Rightarrow> Principal" where
  "principalOf j = \<lparr>pr_Name = stringOf (memberOf ''name'' j), pr_Identifier = stringOf (memberOf ''identifier'' j),
     pr_PrimaryGroupIdentifier = stringOf (memberOf ''primary_group_identifier'' j)\<rparr>"

definition shellBindingKind :: kind where
  "shellBindingKind = KStruct [(''shell'', KString), (''executable'', KString)]"

definition shellBindingOf :: "json \<Rightarrow> ShellBinding" where
  "shellBindingOf j = \<lparr>sb_Shell = stringOf (memberOf ''shell'' j), sb_Executable = stringOf (memberOf ''executable'' j)\<rparr>"

definition configKind :: kind where
  "configKind = KStruct
     [(''config_version'', KUint8), (''platform'', KString), (''control_identity'', principalKind),
      (''execution_identity'', principalKind), (''approved_roots'', KSlice KString),
      (''shells'', KSlice shellBindingKind), (''profile_root'', KString), (''temp_root'', KString),
      (''path_entries'', KSlice KString), (''capabilities'', KSlice KString)]"

definition configOf :: "json \<Rightarrow> Config" where
  "configOf j = \<lparr>cf_ConfigVersion = uint8Of (memberOf ''config_version'' j),
     cf_Platform = stringOf (memberOf ''platform'' j),
     cf_ControlIdentity = principalOf (memberOf ''control_identity'' j),
     cf_ExecutionIdentity = principalOf (memberOf ''execution_identity'' j),
     cf_ApprovedRoots = sliceOf stringOf (memberOf ''approved_roots'' j),
     cf_Shells = sliceOf shellBindingOf (memberOf ''shells'' j),
     cf_ProfileRoot = stringOf (memberOf ''profile_root'' j), cf_TempRoot = stringOf (memberOf ''temp_root'' j),
     cf_PathEntries = sliceOf stringOf (memberOf ''path_entries'' j),
     cf_Capabilities = sliceOf stringOf (memberOf ''capabilities'' j)\<rparr>"

definition DecodeConfig :: "(string list \<Rightarrow> string) \<Rightarrow> string \<Rightarrow> ConfigError + Config" where
  "DecodeConfig pick encoded =
     bindR (mapErr (\<lambda>rule. ConfigError ''config'' (''json-'' @ rule))
              (DecodeObject pick configKind MaxConfigBytes encoded)) (\<lambda>j.
     bindR (ValidateConfig (configOf j)) (\<lambda>_. Inr (configOf j)))"

end
