(* ===== verification/Codec_Facts.thy ===== *)
theory Codec_Facts
  imports Strict_Facts Protocol_Decode
begin

text \<open>
  The contract between the encoder and the decoder of a record, stated once as a locale, and its
  interpretation for every record the program decodes.
\<close>

section \<open>Documents that can be written\<close>

text \<open>
  A document is \<open>wireJson\<close> for a type when it matches it and is one the encoder writes: its
  numbers are integers in the range of their Go types, its slices are not nil, its strings are
  valid UTF-8.
\<close>

definition wireJson :: "kind \<Rightarrow> json \<Rightarrow> bool" where
  "wireJson k j \<longleftrightarrow> cleanJson j \<and> matches k j"

section \<open>The codecs of the records\<close>

text \<open>What the reader makes of a matching document can be written again.\<close>

lemma wireJson_scalar:
  "matches KString j \<Longrightarrow> validJson j \<Longrightarrow> wireJson KString (JStr (stringOf j))"
  "matches KInt64 j \<Longrightarrow> wireJson KInt64 (JInt (intOf j))"
  "wireJson KUint8 (JInt (uint (w :: 8 word)))"
  "wireJson KBool (JBool b)"
  using uint_lt2p [of w] by (auto simp: wireJson_def matches_scalar)

lemma wireJson_pointer:
  "matches (KPointer KInt64) j \<Longrightarrow> wireJson (KPointer KInt64) (jsonPointer JInt (pointerOf intOf j))"
  by (auto simp: wireJson_def pointerOf_def jsonPointer_def matches_scalar)

lemma wireJson_slice:
  assumes "\<And>x. matches k x \<Longrightarrow> validJson x \<Longrightarrow> wireJson k (f (g x))" and "matches (KSlice k) j" and "validJson j"
  shows "wireJson (KSlice k) (jsonSlice f (sliceOf g j))"
proof -
  obtain xs where "j = JArr xs" "\<forall>x\<in>set xs. matches k x \<and> validJson x"
    using matches_slice_elim assms(2,3) by metis
  then show ?thesis using assms(1) by (auto simp: wireJson_def)
qed

lemma wireJson_struct:
  assumes "matches (KStruct fs) j" and "validJson j"
    and "distinct (map fst fs)" and "list_all isASCII (map fst fs)"
    and "list_all2 (\<lambda>f m. fst m = fst f \<and>
      (matches (snd f) (memberOf (fst f) j) \<longrightarrow> validJson (memberOf (fst f) j) \<longrightarrow> wireJson (snd f) (snd m))) fs ms"
  shows "wireJson (KStruct fs) (JObj ms)"
proof -
  have keys: "map fst ms = map fst fs"
    using assms(5) by (induction rule: list_all2_induct) auto
  have member: "matches (snd f) (memberOf (fst f) j) \<and> validJson (memberOf (fst f) j)" if "f \<in> set fs" for f
    using matches_memberOf [OF assms(1,2), of "fst f" "snd f"] that by simp
  have wire: "wireJson (snd f) v" if "f \<in> set fs" "map_of ms (fst f) = Some v" for f v
  proof -
    from that(1) have "\<exists>i<length fs. fs ! i = f" by (simp add: in_set_conv_nth)
    then obtain i where i: "i < length fs" "f = fs ! i" by blast
    have len: "length ms = length fs" using assms(5) by (simp add: list_all2_lengthD)
    have fst_i: "fst (ms ! i) = fst f" "wireJson (snd f) (snd (ms ! i))"
      using list_all2_nthD [OF assms(5) i(1)] member that(1) i(2) by auto
    have "distinct (map fst ms)" "ms ! i \<in> set ms" using keys assms(3) i len by auto
    then have "map_of ms (fst f) = Some (snd (ms ! i))"
      using fst_i(1) by (metis map_of_eq_Some_iff prod.collapse)
    then show ?thesis using that(2) fst_i(2) by simp
  qed
  have clean: "validString (fst m) \<and> cleanJson (snd m)" if "m \<in> set ms" for m
  proof -
    have "fst m \<in> set (map fst fs)" using keys that by (metis image_eqI list.set_map)
    then obtain f where f: "f \<in> set fs" "fst f = fst m" by auto
    have "map_of ms (fst m) = Some (snd m)" using keys assms(3) that by (simp add: map_of_eq_Some_iff)
    then have "wireJson (snd f) (snd m)" using wire f by simp
    then show ?thesis using assms(4) f validString_ascii by (auto simp: wireJson_def list_all_iff)
  qed
  have "set (map fst ms) = set (map fst fs)" "distinct (map fst ms)" using keys assms(3) by simp_all
  then show ?thesis unfolding wireJson_def matches.simps cleanJson.simps using wire clean
    by (auto simp: wireJson_def)
qed

lemmas wireJson_rules = wireJson_scalar wireJson_pointer wireJson_slice

lemma selection_back:
  "matches selectionKind j \<Longrightarrow> validJson j \<Longrightarrow> wireJson selectionKind (selectionJson (selectionOf j))"
proof -
  assume *: "matches selectionKind j" "validJson j"
  have paths: "wireJson (KSlice KString) (JArr (map JStr (sl (sliceOf stringOf v))))"
    if "matches (KSlice KString) v" "validJson v" for v
    using wireJson_slice [OF _ that, of JStr stringOf] that
    by (auto simp: wireJson_scalar jsonSlice_def sliceOf_def split: json.splits)
  show ?thesis
    unfolding selectionKind_def selectionJson_def selectionOf_def
    by (rule wireJson_struct [of _ j]) (use * paths in \<open>simp_all add: selectionKind_def wireJson_rules del: matches.simps\<close>)
qed

lemma request_back:
  assumes "matches requestKind j" and "validJson j"
  shows "wireJson requestKind (requestJson (requestOf j))"
  unfolding requestKind_def requestJson_def requestOf_def
  by (rule wireJson_struct [of _ j])
    (use assms in \<open>simp_all add: requestKind_def wireJson_rules selection_back del: matches.simps\<close>)

lemma issue_back:
  assumes "matches issueKind j" and "validJson j"
  shows "wireJson issueKind (issueJson (issueOf j))"
  unfolding issueKind_def issueJson_def issueOf_def
  by (rule wireJson_struct [of _ j])
    (use assms in \<open>simp_all add: issueKind_def wireJson_rules  del: matches.simps\<close>)

lemma workflow_back:
  assumes "matches workflowKind j" and "validJson j"
  shows "wireJson workflowKind (workflowJson (workflowOf j))"
  unfolding workflowKind_def workflowJson_def workflowOf_def
  by (rule wireJson_struct [of _ j])
    (use assms in \<open>simp_all add: workflowKind_def wireJson_rules  del: matches.simps\<close>)

lemma accepted_back:
  assumes "matches acceptedKind j" and "validJson j"
  shows "wireJson acceptedKind (acceptedJson (acceptedOf j))"
  unfolding acceptedKind_def acceptedJson_def acceptedOf_def
  by (rule wireJson_struct [of _ j])
    (use assms in \<open>simp_all add: acceptedKind_def wireJson_rules request_back issue_back workflow_back del: matches.simps\<close>)

lemma output_back:
  assumes "matches outputKind j" and "validJson j"
  shows "wireJson outputKind (outputJson (outputOf j))"
  unfolding outputKind_def outputJson_def outputOf_def
  by (rule wireJson_struct [of _ j])
    (use assms in \<open>simp_all add: outputKind_def wireJson_rules  del: matches.simps\<close>)

lemma manifest_back:
  assumes "matches manifestKind j" and "validJson j"
  shows "wireJson manifestKind (manifestJson (manifestOf j))"
proof -
  have "wireJson fileKind (JObj [(''group'', JStr (af_Group (fileOf j))), (''path'', JStr (af_Path (fileOf j))),
      (''sha256'', JStr (af_SHA256 (fileOf j))), (''size_bytes'', JInt (af_SizeBytes (fileOf j)))])"
    if "matches fileKind j" "validJson j" for j
    unfolding fileKind_def fileOf_def
    by (rule wireJson_struct [of _ j]) (use that in \<open>simp_all add: fileKind_def wireJson_rules del: matches.simps\<close>)
  moreover have "wireJson omissionKind (JObj [(''group'', JStr (ao_Group (omissionOf j))),
      (''pattern'', JStr (ao_Pattern (omissionOf j))), (''reason'', JStr (ao_Reason (omissionOf j)))])"
    if "matches omissionKind j" "validJson j" for j
    unfolding omissionKind_def omissionOf_def
    by (rule wireJson_struct [of _ j]) (use that in \<open>simp_all add: omissionKind_def wireJson_rules del: matches.simps\<close>)
  ultimately show ?thesis
    unfolding manifestKind_def manifestJson_def manifestOf_def
    by (intro wireJson_struct [of _ j]) (use assms in \<open>simp_all add: manifestKind_def wireJson_rules del: matches.simps\<close>)
qed

lemma report_back:
  assumes "matches (KStruct reportFields) j" and "validJson j"
  shows "wireJson (KStruct reportFields) (reportJson (reportOf j))"
  unfolding reportFields_def reportJson_def reportMembers_def reportOf_def
  by (rule wireJson_struct [of _ j])
    (use assms in \<open>simp_all add: reportFields_def wireJson_rules output_back manifest_back del: matches.simps\<close>)

lemma result_back:
  assumes "matches (KStruct resultFields) j" and "validJson j"
  shows "wireJson (KStruct resultFields) (resultJson (resultOf j))"
  unfolding resultFields_def reportFields_def resultJson_def reportMembers_def resultOf_def reportOf_def
    executionReportFromResult_finalized append.simps
  by (rule wireJson_struct [of _ j])
    (use assms in \<open>simp_all add: resultFields_def reportFields_def wireJson_rules output_back manifest_back workflow_back
      del: matches.simps\<close>)

lemma envelope_back:
  assumes "matches envelopeKind j" and "validJson j"
  shows "wireJson envelopeKind (envelopeJson (envelopeOf j))"
  unfolding envelopeKind_def envelopeJson_def envelopeOf_def
  by (rule wireJson_struct [of _ j])
    (use assms in \<open>simp_all add: envelopeKind_def wireJson_rules accepted_back del: matches.simps\<close>)

lemma principal_back:
  assumes "matches principalKind j" and "validJson j"
  shows "wireJson principalKind (principalJson (principalOf j))"
  unfolding principalKind_def principalJson_def principalOf_def
  by (rule wireJson_struct [of _ j])
    (use assms in \<open>simp_all add: principalKind_def wireJson_rules  del: matches.simps\<close>)

lemma config_back:
  assumes "matches configKind j" and "validJson j"
  shows "wireJson configKind (configJson (configOf j))"
proof -
  have "wireJson shellBindingKind (JObj [(''shell'', JStr (sb_Shell (shellBindingOf j))),
      (''executable'', JStr (sb_Executable (shellBindingOf j)))])"
    if "matches shellBindingKind j" "validJson j" for j
    unfolding shellBindingKind_def shellBindingOf_def
    by (rule wireJson_struct [of _ j]) (use that in \<open>simp_all add: shellBindingKind_def wireJson_rules del: matches.simps\<close>)
  then show ?thesis
    unfolding configKind_def configJson_def configOf_def
    by (intro wireJson_struct [of _ j])
      (use assms in \<open>simp_all add: configKind_def wireJson_rules principal_back del: matches.simps\<close>)
qed

section \<open>Reading what was written\<close>

lemma selection_read [simp]: "selectionOf (selectionJson a) = a"
  by (cases a) (simp add: selectionOf_def selectionJson_def comp_def)

lemma request_read [simp]: "requestOf (requestJson r) = r"
  by (cases r) (simp add: requestOf_def requestJson_def option.map_ident)

lemma issue_read [simp]: "issueOf (issueJson r) = r"
  by (cases r) (simp add: issueOf_def issueJson_def)

lemma workflow_read [simp]: "workflowOf (workflowJson r) = r"
  by (cases r) (simp add: workflowOf_def workflowJson_def)

lemma accepted_read [simp]: "acceptedOf (acceptedJson r) = r"
  by (cases r) (simp add: acceptedOf_def acceptedJson_def)

lemma output_read [simp]: "outputOf (outputJson r) = r"
  by (cases r) (simp add: outputOf_def outputJson_def)

lemma manifest_read [simp]: "manifestOf (manifestJson r) = r"
proof -
  have "fileOf (JObj [(''group'', JStr (af_Group f)), (''path'', JStr (af_Path f)), (''sha256'', JStr (af_SHA256 f)),
      (''size_bytes'', JInt (af_SizeBytes f))]) = f" for f
    by (cases f) (simp add: fileOf_def)
  moreover have "omissionOf (JObj [(''group'', JStr (ao_Group f)), (''pattern'', JStr (ao_Pattern f)),
      (''reason'', JStr (ao_Reason f))]) = f" for f
    by (cases f) (simp add: omissionOf_def)
  ultimately show ?thesis by (cases r) (simp add: manifestOf_def manifestJson_def option.map_ident)
qed

lemma pointer_read: "pointerOf intOf (jsonPointer JInt p) = p"
  by (simp add: option.map_ident)

lemma report_read [simp]: "reportOf (JObj (reportMembers r @ ms)) = r"
  by (cases r) (simp add: reportOf_def reportMembers_def pointer_read)

lemma result_read [simp]: "resultOf (resultJson r) = r"
proof -
  have "memberOf ''finalized_at'' (resultJson r) = JStr (rr_FinalizedAt r)"
    and "memberOf ''workflow'' (resultJson r) = workflowJson (rr_Workflow r)"
    by (simp_all add: resultJson_def reportMembers_def)
  moreover have "reportOf (resultJson r) = executionReportFromResult r" by (simp add: resultJson_def)
  ultimately show ?thesis by (simp add: resultOf_def finalizedResult_executionReport)
qed

lemma envelope_read [simp]: "envelopeOf (envelopeJson r) = r"
  by (cases r) (simp add: envelopeOf_def envelopeJson_def)

lemma principal_read [simp]: "principalOf (principalJson r) = r"
  by (cases r) (simp add: principalOf_def principalJson_def)

lemma config_read [simp]: "configOf (configJson r) = r"
proof -
  have "shellBindingOf (JObj [(''shell'', JStr (sb_Shell b)), (''executable'', JStr (sb_Executable b))]) = b" for b
    by (cases b) (simp add: shellBindingOf_def)
  then show ?thesis by (cases r) (simp add: configOf_def configJson_def option.map_ident)
qed

section \<open>The contract of a codec\<close>

text \<open>
  \<open>kind\<close> is the type of the record, \<open>enc\<close> writes a record as a document and \<open>dec\<close> reads
  one; both strict decoders then read back what was written, and whatever they read can be
  written.
\<close>

locale codec =
  fixes kind :: kind and enc :: "'r \<Rightarrow> json" and dec :: "json \<Rightarrow> 'r"
  assumes struct: "\<exists>fields. kind = KStruct fields"
    and read_written: "dec (enc r) = r"
    and write_read: "matches kind j \<Longrightarrow> validJson j \<Longrightarrow> wireJson kind (enc (dec j))"
    and shallow: "kindDepth kind \<le> maxNestingDepth"
begin

lemma strict_ok: "decodeStrictObject kind n field s = Inr j \<longleftrightarrow> accepts kind n s j"
  using struct decodeStrictObject_ok by blast

lemma object_ok: "DecodeObject pick kind n s = Inr j \<longleftrightarrow> accepts kind n s j"
  using struct DecodeObject_ok by blast

lemma written:
  "wireJson kind (enc r) \<Longrightarrow> length (encodeJson (enc r)) \<le> n \<Longrightarrow> accepts kind n (encodeJson (enc r)) (enc r)"
  using accepts_encode shallow by (auto simp: wireJson_def)

lemma wire_accepted: "accepts kind n s j \<Longrightarrow> wireJson kind (enc (dec j))"
  using accepts_valid write_read by blast

end

lemmas kind_defs = selectionKind_def requestKind_def issueKind_def workflowKind_def acceptedKind_def outputKind_def
  fileKind_def omissionKind_def manifestKind_def reportFields_def resultFields_def envelopeKind_def
  principalKind_def shellBindingKind_def configKind_def KInt64_def KUint8_def maxNestingDepth_def

text \<open>One interpretation per record.\<close>

lemma report_read_written: "reportOf (reportJson r) = r"
  using report_read [of r "[]"] by (simp add: reportJson_def)

interpretation request_codec: codec requestKind requestJson requestOf
proof
  show "\<exists>fields. requestKind = KStruct fields" by (simp add: kind_defs)
  show "kindDepth (requestKind) \<le> maxNestingDepth" by (simp add: kind_defs)
qed (simp_all only: request_read request_back)

interpretation accepted_codec: codec acceptedKind acceptedJson acceptedOf
proof
  show "\<exists>fields. acceptedKind = KStruct fields" by (simp add: kind_defs)
  show "kindDepth (acceptedKind) \<le> maxNestingDepth" by (simp add: kind_defs)
qed (simp_all only: accepted_read accepted_back)

interpretation report_codec: codec "KStruct reportFields" reportJson reportOf
proof
  show "\<exists>fields. KStruct reportFields = KStruct fields" by (simp add: kind_defs)
  show "kindDepth (KStruct reportFields) \<le> maxNestingDepth" by (simp add: kind_defs)
qed (simp_all only: report_read_written report_back)

interpretation result_codec: codec "KStruct resultFields" resultJson resultOf
proof
  show "\<exists>fields. KStruct resultFields = KStruct fields" by (simp add: kind_defs)
  show "kindDepth (KStruct resultFields) \<le> maxNestingDepth" by (simp add: kind_defs)
qed (simp_all only: result_read result_back)

interpretation envelope_codec: codec envelopeKind envelopeJson envelopeOf
proof
  show "\<exists>fields. envelopeKind = KStruct fields" by (simp add: kind_defs)
  show "kindDepth (envelopeKind) \<le> maxNestingDepth" by (simp add: kind_defs)
qed (simp_all only: envelope_read envelope_back)

interpretation config_codec: codec configKind configJson configOf
proof
  show "\<exists>fields. configKind = KStruct fields" by (simp add: kind_defs)
  show "kindDepth (configKind) \<le> maxNestingDepth" by (simp add: kind_defs)
qed (simp_all only: config_read config_back)

section \<open>The decoders\<close>

lemma DecodeRequest_ok:
  "DecodeRequest s = Inr r \<longleftrightarrow>
     (\<exists>j. accepts requestKind MaxRequestBytes s j \<and> r = requestOf j \<and> ValidateRequest r = Inr ())"
  by (auto simp: DecodeRequest_def bindR_eq_Inr request_codec.strict_ok)

lemma DecodeAcceptedRequestRecord_ok:
  "DecodeAcceptedRequestRecord s = Inr r \<longleftrightarrow>
     (\<exists>j. accepts acceptedKind MaxAcceptedRecordBytes s j \<and> r = acceptedOf j \<and> ValidateAcceptedRequestRecord r = Inr ())"
  by (auto simp: DecodeAcceptedRequestRecord_def bindR_eq_Inr accepted_codec.strict_ok)

lemma DecodeExecutionReport_ok:
  "DecodeExecutionReport s = Inr r \<longleftrightarrow>
     (\<exists>j. accepts (KStruct reportFields) MaxExecutionReportBytes s j \<and> r = reportOf j \<and> ValidateExecutionReport r = Inr ())"
  by (auto simp: DecodeExecutionReport_def bindR_eq_Inr report_codec.strict_ok)

lemma DecodeResultRecord_ok:
  "DecodeResultRecord s = Inr r \<longleftrightarrow>
     (\<exists>j. accepts (KStruct resultFields) MaxResultRecordBytes s j \<and> r = resultOf j \<and> ValidateResultRecord r = Inr ())"
  by (auto simp: DecodeResultRecord_def bindR_eq_Inr result_codec.strict_ok)

lemma DecodeExecuteEnvelope_ok:
  "DecodeExecuteEnvelope pick s = Inr r \<longleftrightarrow>
     (\<exists>j. accepts envelopeKind MaxExecuteEnvelopeBytes s j \<and> r = envelopeOf j \<and> ValidateExecuteEnvelope r = Inr ())"
  by (auto simp: DecodeExecuteEnvelope_def bindR_eq_Inr envelope_codec.object_ok)

lemma DecodeConfig_ok:
  "DecodeConfig pick s = Inr r \<longleftrightarrow>
     (\<exists>j. accepts configKind MaxConfigBytes s j \<and> r = configOf j \<and> ValidateConfig r = Inr ())"
  by (auto simp: DecodeConfig_def bindR_eq_Inr config_codec.object_ok)

lemma DecodeRequest_written:
  "wireJson requestKind (requestJson r) \<Longrightarrow> MarshalCanonicalRequest r = Inr s \<Longrightarrow> DecodeRequest s = Inr r"
  using request_codec.written [of r MaxRequestBytes]
  by (auto simp: MarshalCanonicalRequest_def bindR_eq_Inr marshalCanonicalRecord_ok DecodeRequest_ok)

lemma DecodeAcceptedRequestRecord_written:
  "wireJson acceptedKind (acceptedJson r) \<Longrightarrow> MarshalCanonicalAcceptedRequestRecord r = Inr s \<Longrightarrow>
     DecodeAcceptedRequestRecord s = Inr r"
  using accepted_codec.written [of r MaxAcceptedRecordBytes]
  by (auto simp: MarshalCanonicalAcceptedRequestRecord_def bindR_eq_Inr marshalCanonicalRecord_ok
      DecodeAcceptedRequestRecord_ok)

lemma DecodeExecutionReport_written:
  "wireJson (KStruct reportFields) (reportJson r) \<Longrightarrow> MarshalCanonicalExecutionReport r = Inr s \<Longrightarrow>
     DecodeExecutionReport s = Inr r"
  using report_codec.written [of r MaxExecutionReportBytes] report_read_written [of r]
  by (auto simp: MarshalCanonicalExecutionReport_def bindR_eq_Inr marshalCanonicalRecord_ok DecodeExecutionReport_ok)

lemma DecodeResultRecord_written:
  "wireJson (KStruct resultFields) (resultJson r) \<Longrightarrow> MarshalCanonicalResultRecord r = Inr s \<Longrightarrow>
     DecodeResultRecord s = Inr r"
  using result_codec.written [of r MaxResultRecordBytes]
  by (auto simp: MarshalCanonicalResultRecord_def bindR_eq_Inr marshalCanonicalRecord_ok DecodeResultRecord_ok)

lemma DecodeExecuteEnvelope_written:
  "wireJson envelopeKind (envelopeJson r) \<Longrightarrow> MarshalCanonicalExecuteEnvelope r = Inr s \<Longrightarrow>
     DecodeExecuteEnvelope pick s = Inr r"
  using envelope_codec.written [of r MaxExecuteEnvelopeBytes]
  by (auto simp: MarshalCanonicalExecuteEnvelope_def bindR_eq_Inr Let_def DecodeExecuteEnvelope_ok split: if_splits)

lemma DecodeConfig_written:
  "wireJson configKind (configJson r) \<Longrightarrow> MarshalCanonicalConfig r = Inr s \<Longrightarrow> DecodeConfig pick s = Inr r"
  using config_codec.written [of r MaxConfigBytes]
  by (auto simp: MarshalCanonicalConfig_def bindR_eq_Inr Let_def DecodeConfig_ok split: if_splits)

text \<open>A valid request can be written: every text of it was checked.\<close>

lemma identifier_valid: "identifierPattern s \<Longrightarrow> validString s"
  by (rule validString_ascii)
    (auto simp: identifierPattern_def matchHeadTail_def isASCII_def list_all_iff isLowerLetter_def isDigit_def inRange_def
      split: list.splits)

lemma table_valid: "t \<in> set supportedRequestOperations \<or> t \<in> set supportedShells \<Longrightarrow> validString t"
proof -
  have "list_all isASCII (supportedRequestOperations @ supportedShells)" by code_simp
  then show "t \<in> set supportedRequestOperations \<or> t \<in> set supportedShells \<Longrightarrow> validString t"
    using validString_ascii by (auto simp: list_all_iff)
qed

lemma selection_wire: "groupOk a \<Longrightarrow> wireJson selectionKind (selectionJson a)"
proof -
  assume "groupOk a"
  then have "validString (sel_Name a)" "\<forall>p\<in>set (sel_Paths a). validString p"
    by (auto simp: groupOk_def identifier_valid validateArtifactPath_def validateRelativeArtifactPath_ok)
  then show ?thesis
    by (auto simp: wireJson_def selectionKind_def selectionJson_def validString_ascii simp del: validString.simps)
qed

lemma artifacts_wire:
  assumes "validateArtifactSelections s = Inr ()"
  shows "\<exists>xs. s = Some xs \<and> (\<forall>a\<in>set xs. wireJson selectionKind (selectionJson a))"
proof -
  obtain xs where "s = Some xs" "\<forall>a\<in>set xs. groupOk a"
    using assms by (auto simp: validateArtifactSelections_ok)
  then show ?thesis using selection_wire by blast
qed

lemma request_wire:
  assumes "ValidateRequest r = Inr ()"
  shows "wireJson requestKind (requestJson r)"
proof -
  have texts: "validString (rq_RequestID r)" "validString (rq_SessionID r)" "validString (rq_Actor r)"
    "validString (rq_Operation r)" "validString (rq_ProcessID r)" "validString (rq_Shell r)"
    "validString (rq_WorkingDirectory r)" "validString (rq_Script r)"
    using assms identifier_valid table_valid
    by (auto simp: ValidateRequest_def validateWorkingDirectory_def validateScript_def split: if_splits)
  have "MinTimeoutSeconds \<le> rq_TimeoutSeconds r" "rq_TimeoutSeconds r \<le> MaxTimeoutSeconds"
    "MinOutputBytes \<le> rq_MaxOutputBytes r" "rq_MaxOutputBytes r \<le> MaxOutputBytes" "rq_ProtocolVersion r = Version"
    using assms by (auto simp: ValidateRequest_def)
  then have ints: "isInt64 (rq_TimeoutSeconds r)" "isInt64 (rq_MaxOutputBytes r)" "rq_ProtocolVersion r = Version"
    by (auto simp: isInt64_def minInt64_def maxInt64_def limit_defs)
  obtain xs where xs: "rq_Artifacts r = Some xs" "\<forall>a\<in>set xs. wireJson selectionKind (selectionJson a)"
    using assms artifacts_wire [of "rq_Artifacts r"] by (auto simp: ValidateRequest_def)
  show ?thesis
    using texts ints xs
    by (auto simp: wireJson_def requestKind_def requestJson_def Version_def validString_ascii simp del: validString.simps)
qed

lemma envelope_wire:
  assumes "ValidateExecuteEnvelope e = Inr ()" and "wireJson acceptedKind (acceptedJson (ee_AcceptedRequest e))"
  shows "wireJson envelopeKind (envelopeJson e)"
proof -
  have "ee_ProtocolVersion e = 1" "ee_Operation e = ''execute''" "validString (ee_AttemptID e)"
    using assms(1) identifier_valid
    by (auto simp: ValidateExecuteEnvelope_def BrokerCurrentVersion_def OperationExecute_def)
  then show ?thesis using assms(2)
    by (auto simp: wireJson_def envelopeKind_def envelopeJson_def validString_ascii simp del: validString.simps)
qed

end
