(* ===== verification/Codec_Samples.thy ===== *)
theory Codec_Samples
  imports Codec_Facts Policy_Properties
begin

text \<open>The sample records on the wire: they can be written, and within their limits.\<close>

text \<open>
  Sizes of encodings, and concrete records at which the properties of the decoders are exercised.
\<close>

section \<open>The size of an encoding\<close>

lemma length_escapeJson: "length (escapeJson s) \<le> 6 * length s"
proof (induction s rule: escapeJson.induct)
  case (2 c cs)
  obtain r n where rn: "decodeRune (c # cs) = (r, n)" by fastforce
  have "length (escapeByte c) \<le> 6" by (simp add: escapeByte_def unicodeEscape_def)
  moreover have "length (drop (n - 1) cs) = length cs - (n - 1)" by simp
  ultimately show ?case using 2 rn decodeRune_high(3) [of c cs] by (auto simp: unicodeEscape_def)
qed simp

fun sizeBound :: "json \<Rightarrow> nat" where
  "sizeBound JNull = 4"
| "sizeBound (JBool b) = 5"
| "sizeBound (JNum n) = length n"
| "sizeBound (JStr s) = 6 * length s + 2"
| "sizeBound (JArr xs) = sum_list (map (\<lambda>x. sizeBound x + 1) xs) + 2"
| "sizeBound (JObj ms) = sum_list (map (\<lambda>m. 6 * length (fst m) + sizeBound (snd m) + 4) ms) + 2"

lemma length_joinWith: "length (joinWith [c] ps) \<le> sum_list (map (\<lambda>p. length p + 1) ps)"
  by (induction "[c]" ps rule: joinWith.induct) auto

lemma length_encodeString: "length (encodeString s) \<le> 6 * length s + 2"
  using length_escapeJson [of s] by (simp add: encodeString_def)

lemma length_encodeJson: "length (encodeJson j) \<le> sizeBound j"
proof (induction j rule: sizeBound.induct)
  case (4 s)
  then show ?case using length_encodeString by simp
next
  case (5 xs)
  have "length (joinWith '','' (map encodeJson xs)) \<le> sum_list (map (\<lambda>x. length (encodeJson x) + 1) xs)"
    using length_joinWith [of "CHR '',''" "map encodeJson xs"] by (simp add: comp_def)
  also have "\<dots> \<le> sum_list (map (\<lambda>x. sizeBound x + 1) xs)" using 5 by (intro sum_list_mono) auto
  finally show ?case by simp
next
  case (6 ms)
  have "length (joinWith '','' (map memberText ms)) \<le> sum_list (map (\<lambda>m. length (memberText m) + 1) ms)"
    using length_joinWith [of "CHR '',''" "map memberText ms"] by (simp add: comp_def)
  also have "length (memberText m) + 1 \<le> 6 * length (fst m) + sizeBound (snd m) + 4" if "m \<in> set ms" for m
    using 6 that length_encodeString [of "fst m"] by (fastforce simp: memberText_def)
  then have "sum_list (map (\<lambda>m. length (memberText m) + 1) ms)
      \<le> sum_list (map (\<lambda>m. 6 * length (fst m) + sizeBound (snd m) + 4) ms)"
    by (intro sum_list_mono)
  finally show ?case unfolding encodeJson_JObj by simp
qed simp_all

lemma fits_limit: "sizeBound j \<le> n \<Longrightarrow> marshalCanonicalRecord j n field = Inr (encodeJson j)"
  using length_encodeJson [of j] by (simp add: marshalCanonicalRecord_ok)

section \<open>The samples\<close>

lemma sampleTime_text: "isASCII sampleTime" "length sampleTime = 20"
  by code_simp+

lemma sampleDigest_text: "isASCII sampleDigest" "length sampleDigest = 64"
  using isLowerHex_sha256Hex [of "encodeJson (requestJson sampleRequest)"]
  by (auto simp del: isLowerHex_sha256Hex simp: sampleDigest_def isLowerHex_def isASCII_def list_all_iff isLowerHexChar_def isDigit_def inRange_def)

lemma sha256Hex_text: "isASCII (sha256Hex m)" "length (sha256Hex m) = 64"
  using isLowerHex_sha256Hex [of m]
  by (auto simp del: isLowerHex_sha256Hex
      simp: isLowerHex_def isASCII_def list_all_iff isLowerHexChar_def isDigit_def inRange_def)

lemmas wire_simps = wireJson_def validString_ascii isInt64_def minInt64_def maxInt64_def

lemma isASCII_replicate: "isASCII (replicate n c) \<longleftrightarrow> n = 0 \<or> byte c < 128"
  by (auto simp: isASCII_def list_all_iff)

lemma jsonPointer_Some: "jsonPointer f (Some x) = f x"
  by (simp add: jsonPointer_def)

lemma sampleIssue_wire: "wireJson issueKind (issueJson sampleIssue)"
  by (simp add: wire_simps issueKind_def issueJson_def sampleIssue_def del: validString.simps)

lemma sampleWorkflow_wire: "wireJson workflowKind (workflowJson sampleWorkflow)"
  by (simp add: wire_simps workflowKind_def workflowJson_def sampleWorkflow_def isASCII_replicate jsonPointer_Some del: validString.simps)

lemma sampleAccepted_wire: "wireJson acceptedKind (acceptedJson sampleAccepted)"
  using sampleIssue_wire sampleWorkflow_wire request_wire [OF sampleRequest_valid] sampleTime_text sampleDigest_text
  by (simp add: wire_simps acceptedKind_def acceptedJson_def sampleAccepted_def isASCII_replicate jsonPointer_Some del: validString.simps)

lemma sampleReport_wire: "wireJson (KStruct reportFields) (reportJson sampleReport)"
  using sampleTime_text sampleDigest_text sha256Hex_text
  by (simp add: wire_simps reportFields_def reportJson_def reportMembers_def sampleReport_def outputKind_def
      outputJson_def sampleOutput_def manifestKind_def manifestJson_def sampleManifest_def fileKind_def
      omissionKind_def sampleFile_def isASCII_replicate jsonPointer_Some del: validString.simps)

lemma jsonSlice_Some [simp]: "jsonSlice f (Some xs) = JArr (map f xs)"
  by (simp add: jsonSlice_def)

lemma sampleRequest_bound: "sizeBound (requestJson sampleRequest) \<le> 2000"
  by code_simp

lemma sizeBound_int: "sizeBound (JInt i) = length (formatInt i)"
  by (simp add: JInt_def)

lemma sampleAccepted_bound: "sizeBound (acceptedJson sampleAccepted) \<le> 10000"
proof -
  have "sizeBound (issueJson sampleIssue) \<le> 1000" "sizeBound (workflowJson sampleWorkflow) \<le> 2000"
    "length (formatInt 1) \<le> 10" by code_simp+
  then show ?thesis
    using sampleRequest_bound sampleTime_text sampleDigest_text
    by (simp add: acceptedJson_def sampleAccepted_def sizeBound_int)
qed

lemma sampleAccepted_written:
  "MarshalCanonicalAcceptedRequestRecord sampleAccepted = Inr (encodeJson (acceptedJson sampleAccepted))"
  using fits_limit [of "acceptedJson sampleAccepted" MaxAcceptedRecordBytes] sampleAccepted_bound sampleAccepted_valid
  by (simp add: MarshalCanonicalAcceptedRequestRecord_def limit_defs)

lemma sampleReport_bound: "sizeBound (reportJson sampleReport) \<le> 10000"
proof -
  have "length (formatInt 0) \<le> 10" "length (formatInt 1) \<le> 10" "length (formatInt 2) \<le> 10" by code_simp+
  then show ?thesis
    using sampleTime_text sampleDigest_text sha256Hex_text
    by (simp add: reportJson_def reportMembers_def sampleReport_def outputJson_def sampleOutput_def manifestJson_def
        sampleManifest_def sampleFile_def sizeBound_int jsonPointer_def)
qed

lemma sampleReport_written:
  "MarshalCanonicalExecutionReport sampleReport = Inr (encodeJson (reportJson sampleReport))"
  using fits_limit [of "reportJson sampleReport" MaxExecutionReportBytes] sampleReport_bound sampleReport_valid
  by (simp add: MarshalCanonicalExecutionReport_def limit_defs)

lemma sampleEnvelope_written:
  "MarshalCanonicalExecuteEnvelope sampleEnvelope = Inr (encodeJson (envelopeJson sampleEnvelope))"
proof -
  have "length (formatInt 1) \<le> 10" by code_simp
  then have "sizeBound (envelopeJson sampleEnvelope) \<le> 100000"
    using sampleAccepted_bound by (simp add: envelopeJson_def sampleEnvelope_def sizeBound_int)
  then show ?thesis
    using length_encodeJson [of "envelopeJson sampleEnvelope"]
    unfolding MarshalCanonicalExecuteEnvelope_def sampleEnvelope_valid bindR_simps Let_def
    by (simp add: MaxExecuteEnvelopeBytes_def)
qed

lemma sampleConfig_wire: "wireJson configKind (configJson sampleConfig)"
  by (simp add: wire_simps configKind_def configJson_def sampleConfig_def principalKind_def principalJson_def
      shellBindingKind_def del: validString.simps)

lemma sampleConfig_written: "MarshalCanonicalConfig sampleConfig = Inr (encodeJson (configJson sampleConfig))"
proof -
  have "length (encodeJson (configJson sampleConfig)) \<le> MaxConfigBytes" by code_simp
  then show ?thesis by (simp add: MarshalCanonicalConfig_def sampleConfig_valid Let_def)
qed

definition sampleResult :: ResultRecord where
  "sampleResult = finalizedResult sampleReport sampleTime sampleWorkflow"

lemma sampleResult_wire: "wireJson (KStruct resultFields) (resultJson sampleResult)"
  using sampleTime_text sampleDigest_text sha256Hex_text sampleWorkflow_wire
  by (simp add: wire_simps reportFields_def resultJson_def resultFields_def reportMembers_def sampleResult_def
      sampleReport_def outputKind_def
      outputJson_def sampleOutput_def manifestKind_def manifestJson_def sampleManifest_def fileKind_def
      omissionKind_def sampleFile_def isASCII_replicate jsonPointer_Some del: validString.simps)

lemma sampleResult_record: "ValidateResultRecord sampleResult = Inr ()"
  using sampleResult_valid by (simp add: ValidateResultBinding_def sampleResult_def)

lemma sampleResult_written: "MarshalCanonicalResultRecord sampleResult = Inr (encodeJson (resultJson sampleResult))"
proof -
  have "sizeBound (workflowJson sampleWorkflow) \<le> 2000" by code_simp
  then have "sizeBound (resultJson sampleResult) \<le> 20000"
    using sampleReport_bound sampleTime_text by (simp add: resultJson_def reportJson_def sampleResult_def)
  then show ?thesis
    using fits_limit [of "resultJson sampleResult" MaxResultRecordBytes] sampleResult_record
    by (simp add: MarshalCanonicalResultRecord_def limit_defs)
qed

end
