(* ===== verification/Codec_Properties.thy ===== *)
theory Codec_Properties
  imports Codec_Samples
begin

text \<open>
  The properties of the decoders: what they accept, that their recursion never stops short, and
  that a record survives its canonical encoding.
\<close>

section \<open>The strict decoders\<close>

text \<open>
  C30. The two strict decoders of the program accept the same documents, those of the reference
  description: within the size limit, valid UTF-8, one JSON value with no duplicate key, whose
  members are exactly the fields of the type at every level, with a value of the field's type.
\<close>

theorem strict_decoders_agree:
  "(decodeStrictObject (KStruct fs) n field s = Inr j \<longleftrightarrow> accepts (KStruct fs) n s j)
   \<and> (DecodeObject pick (KStruct fs) n s = Inr j \<longleftrightarrow> accepts (KStruct fs) n s j)
   \<and> (isOk (decodeStrictObject (KStruct fs) n field s) \<longleftrightarrow> isOk (DecodeObject pick (KStruct fs) n s))"
  by (simp add: decodeStrictObject_ok DecodeObject_ok isOk_iff)

text \<open>
  C31. The token loop terminates: on every input, two nested calls per byte and one more are enough
  for it to return a value or to refuse the input, without running out of fuel, and more fuel
  changes neither.
\<close>

theorem token_loop_terminates:
  "parseValue (2 * length s + 1) s \<noteq> Inl OutOfFuel
   \<and> parseValue (2 * length s + 1 + k) s = parseValue (2 * length s + 1) s"
  by (intro conjI parse_answers(1) parse_fuel) simp_all

text \<open>
  A refused document is refused as a decoding error of the record's field, never as a
  validation error, and an oversized one always for its size, whatever it holds.
\<close>

theorem strict_decoder_errors:
  assumes "decodeStrictObject kind n field s = Inl e"
  shows "\<exists>rule. e = decodeError field rule
      \<and> rule \<in> set [''record-too-large'', ''invalid-utf8'', ''empty-json'', ''root-not-object'', ''malformed-json'',
          ''duplicate-object-key'', ''trailing-json'', ''schema-decode'', ''missing-required-field'']
      \<and> (n < length s \<longleftrightarrow> rule = ''record-too-large'')"
proof -
  obtain rule where rule: "e = decodeError field rule"
      "bindR (rootChecks n s) (\<lambda>_. bindR (validateJSONStructure s) (\<lambda>j. bindR (requireJSONFields kind j)
         (\<lambda>_. bindR (failIf (\<not> typedDecode kind j) ''schema-decode'') (\<lambda>_. Inr j)))) = Inl rule"
    using assms by (auto simp: decodeStrictObject_def mapErr_eq_Inl)
  have rules: "r = ''schema-decode'' \<or> r = ''missing-required-field''" if "requireJSONFields kind j = Inl r" for j r
    using that requireFields_rules by (auto simp: requireJSONFields_def split: if_splits)
  consider "rootChecks n s = Inl rule" | "rootChecks n s = Inr ()" "validateJSONStructure s = Inl rule"
    | j where "rootChecks n s = Inr ()" "requireJSONFields kind j = Inl rule" | "rootChecks n s = Inr ()" "rule = ''schema-decode''"
    using rule(2) by (auto simp: bindR_eq_Inl split: if_splits)
  then show ?thesis
  proof cases
    case 1
    from rootChecks_rules [OF this] show ?thesis by (intro exI [of _ rule] conjI rule(1); elim disjE conjE; simp)
  next
    case 2
    from structure_rules [OF 2(2)] rootChecks_size [OF 2(1)] show ?thesis by (intro exI [of _ rule] conjI rule(1); elim disjE conjE; simp)
  next
    case (3 j)
    from rules [OF 3(2)] rootChecks_size [OF 3(1)] show ?thesis by (intro exI [of _ rule] conjI rule(1); elim disjE conjE; simp)
  next
    case 4
    with rootChecks_size [OF 4(1)] show ?thesis by (intro exI [of _ rule] conjI rule(1)) simp_all
  qed
qed

lemma strict_decoder_errors_witness:
  "decodeStrictObject requestKind 3 ''request'' ''{{{{'' = Inl (decodeError ''request'' ''record-too-large'')"
proof -
  obtain e where e: "decodeStrictObject requestKind 3 ''request'' ''{{{{'' = Inl e"
    by (auto simp: decodeStrictObject_def rootChecks_def)
  from strict_decoder_errors [OF this] have "e = decodeError ''request'' ''record-too-large''" by auto
  then show ?thesis using e by simp
qed

section \<open>Records on the wire\<close>

text \<open>
  C32. A request survives its canonical encoding: whatever \<open>MarshalCanonicalRequest\<close> writes,
  \<open>DecodeRequest\<close> reads back as the same request, so no two requests share a canonical form.
\<close>

theorem request_roundtrip:
  assumes "MarshalCanonicalRequest r = Inr s"
  shows "DecodeRequest s = Inr r \<and> (\<forall>r'. MarshalCanonicalRequest r' = Inr s \<longrightarrow> r' = r)"
proof -
  have "DecodeRequest s = Inr r" if "MarshalCanonicalRequest r = Inr s" for r
  proof -
    have "ValidateRequest r = Inr ()" using that by (simp add: MarshalCanonicalRequest_def bindR_eq_Inr)
    then show ?thesis using DecodeRequest_written [OF request_wire that] by simp
  qed
  from this [OF assms] this show ?thesis by (metis sum.inject(2))
qed

lemma request_roundtrip_witness:
  "DecodeRequest (encodeJson (requestJson sampleRequest)) = Inr sampleRequest"
proof -
  have "MarshalCanonicalRequest sampleRequest = Inr (encodeJson (requestJson sampleRequest))"
    using sampleRequest_size by (simp add: MarshalCanonicalRequest_def sampleRequest_valid marshalCanonicalRecord_ok)
  then show ?thesis using request_roundtrip by blast
qed

text \<open>
  C33. Canonical encoding is stable on decoded records: an accepted request, a report or a result
  that was decoded from any text, written in its canonical form and decoded again is the same
  record.
\<close>

theorem records_stable:
  "DecodeAcceptedRequestRecord s = Inr a \<Longrightarrow> MarshalCanonicalAcceptedRequestRecord a = Inr s' \<Longrightarrow>
     DecodeExecutionReport t = Inr r \<Longrightarrow> MarshalCanonicalExecutionReport r = Inr t' \<Longrightarrow>
     DecodeResultRecord u = Inr q \<Longrightarrow> MarshalCanonicalResultRecord q = Inr u' \<Longrightarrow>
     DecodeAcceptedRequestRecord s' = Inr a \<and> DecodeExecutionReport t' = Inr r \<and> DecodeResultRecord u' = Inr q"
  by (auto simp: DecodeAcceptedRequestRecord_ok [of s] DecodeExecutionReport_ok [of t] DecodeResultRecord_ok [of u]
      intro!: DecodeAcceptedRequestRecord_written DecodeExecutionReport_written DecodeResultRecord_written
      dest: accepted_codec.wire_accepted report_codec.wire_accepted result_codec.wire_accepted)

lemma records_stable_witness:
  "DecodeAcceptedRequestRecord (encodeJson (acceptedJson sampleAccepted)) = Inr sampleAccepted
   \<and> DecodeExecutionReport (encodeJson (reportJson sampleReport)) = Inr sampleReport
   \<and> DecodeResultRecord (encodeJson (resultJson sampleResult)) = Inr sampleResult"
  by (rule records_stable [OF DecodeAcceptedRequestRecord_written [OF sampleAccepted_wire sampleAccepted_written]
      sampleAccepted_written DecodeExecutionReport_written [OF sampleReport_wire sampleReport_written]
      sampleReport_written DecodeResultRecord_written [OF sampleResult_wire sampleResult_written] sampleResult_written])

text \<open>
  The broker reads what the client sends: an envelope around an accepted request that the
  client decoded arrives at \<open>DecodeExecuteEnvelope\<close> unchanged, whichever order the maps of the
  strict decoder are visited in.
\<close>

theorem envelope_delivered:
  assumes "DecodeAcceptedRequestRecord t = Inr (ee_AcceptedRequest e)"
    and "MarshalCanonicalExecuteEnvelope e = Inr s"
  shows "DecodeExecuteEnvelope pick s = Inr e"
proof -
  have accepted: "wireJson acceptedKind (acceptedJson (ee_AcceptedRequest e))"
    using assms(1) accepted_codec.wire_accepted by (auto simp: DecodeAcceptedRequestRecord_ok)
  have "ValidateExecuteEnvelope e = Inr ()" using assms(2) by (simp add: MarshalCanonicalExecuteEnvelope_def bindR_eq_Inr)
  then have "wireJson envelopeKind (envelopeJson e)" using accepted by (rule envelope_wire)
  then show ?thesis using DecodeExecuteEnvelope_written assms(2) by blast
qed

lemma envelope_delivered_witness:
  "DecodeExecuteEnvelope hd (encodeJson (envelopeJson sampleEnvelope)) = Inr sampleEnvelope"
proof -
  have "DecodeAcceptedRequestRecord (encodeJson (acceptedJson sampleAccepted)) = Inr sampleAccepted"
    using DecodeAcceptedRequestRecord_written sampleAccepted_wire sampleAccepted_written by blast
  moreover have "ee_AcceptedRequest sampleEnvelope = sampleAccepted" by (simp add: sampleEnvelope_def)
  ultimately show ?thesis using envelope_delivered sampleEnvelope_written by metis
qed

text \<open>
  The installed configuration survives its storage: a decoded configuration, written in
  canonical form and decoded again, is the same and still valid.
\<close>

theorem config_roundtrip:
  assumes "DecodeConfig pick s = Inr c" and "MarshalCanonicalConfig c = Inr t"
  shows "DecodeConfig pick' t = Inr c \<and> ValidateConfig c = Inr ()"
  using assms config_codec.wire_accepted DecodeConfig_written
  by (auto simp: DecodeConfig_ok [of pick s])

lemma config_roundtrip_witness:
  "DecodeConfig last (encodeJson (configJson sampleConfig)) = Inr sampleConfig"
  using config_roundtrip [OF DecodeConfig_written [OF sampleConfig_wire sampleConfig_written] sampleConfig_written]
  by blast

section \<open>What the accepted record leaves open\<close>

definition withNodeID :: "string \<Rightarrow> AcceptedRequestRecord" where
  "withNodeID n = sampleAccepted\<lparr>ar_Issue := sampleIssue\<lparr>is_NodeID := n\<rparr>\<rparr>"

text \<open>
  \<open>validateIssueProvenance\<close> does not ask for UTF-8 in the node id of the issue, and the encoder
  replaces what is not: two different valid accepted records have the same canonical bytes and
  digest, and neither is what those bytes decode to.
\<close>

theorem node_id_collision:
  "withNodeID [CHR 0xFE] \<noteq> withNodeID [CHR 0xFF]
   \<and> (\<exists>d. DigestAcceptedRequestRecord (withNodeID [CHR 0xFE]) = Inr d
        \<and> DigestAcceptedRequestRecord (withNodeID [CHR 0xFF]) = Inr d)"
proof -
  have issue: "validateIssueProvenance (sampleIssue\<lparr>is_NodeID := [CHR 0xFE]\<rparr>) = Inr ()"
    "validateIssueProvenance (sampleIssue\<lparr>is_NodeID := [CHR 0xFF]\<rparr>) = Inr ()" by code_simp+
  have json: "encodeJson (issueJson (sampleIssue\<lparr>is_NodeID := [CHR 0xFE]\<rparr>))
      = encodeJson (issueJson (sampleIssue\<lparr>is_NodeID := [CHR 0xFF]\<rparr>))" by code_simp
  have valid: "ValidateAcceptedRequestRecord (withNodeID n) = Inr ()"
    if "validateIssueProvenance (sampleIssue\<lparr>is_NodeID := n\<rparr>) = Inr ()" for n
    using that sampleAccepted_valid
    unfolding ValidateAcceptedRequestRecord_ok by (auto simp: withNodeID_def)
  have bytes: "encodeJson (acceptedJson (withNodeID [CHR 0xFE])) = encodeJson (acceptedJson (withNodeID [CHR 0xFF]))"
    using json by (simp add: acceptedJson_def withNodeID_def)
  have size: "sizeBound (acceptedJson (withNodeID [c])) \<le> 20000" for c
  proof -
    have "sizeBound (workflowJson sampleWorkflow) \<le> 2000" "length (formatInt 1) \<le> 10" "length (formatInt 42) \<le> 10"
      "length (formatInt 1001) \<le> 10" by code_simp+
    then show ?thesis
      using sampleRequest_bound sampleTime_text sampleDigest_text
      by (simp add: acceptedJson_def withNodeID_def sampleAccepted_def sizeBound_int issueJson_def sampleIssue_def)
  qed
  have "MarshalCanonicalAcceptedRequestRecord (withNodeID [c]) = Inr (encodeJson (acceptedJson (withNodeID [c])))"
    if "validateIssueProvenance (sampleIssue\<lparr>is_NodeID := [c]\<rparr>) = Inr ()" for c
    using fits_limit [of "acceptedJson (withNodeID [c])" MaxAcceptedRecordBytes] size [of c] valid [OF that]
    by (simp add: MarshalCanonicalAcceptedRequestRecord_def limit_defs)
  then have "DigestAcceptedRequestRecord (withNodeID [CHR 0xFE]) = DigestAcceptedRequestRecord (withNodeID [CHR 0xFF])"
    "\<exists>d. DigestAcceptedRequestRecord (withNodeID [CHR 0xFE]) = Inr d"
    using issue bytes by (simp_all add: DigestAcceptedRequestRecord_def)
  moreover have "withNodeID [CHR 0xFE] \<noteq> withNodeID [CHR 0xFF]"
  proof
    assume "withNodeID [CHR 0xFE] = withNodeID [CHR 0xFF]"
    then have "is_NodeID (ar_Issue (withNodeID [CHR 0xFE])) = is_NodeID (ar_Issue (withNodeID [CHR 0xFF]))" by simp
    then show False by (simp add: withNodeID_def)
  qed
  ultimately show ?thesis by metis
qed

end
