(* ===== verification/State_Result.thy ===== *)
theory State_Result
  imports Prelude
begin

text \<open>
  Functions that act on a state and may return early with an error: the Go functions that call
  out to a transport, a store or the host.  The state they act on is the record of the calls made
  so far (and what else a component keeps); it survives an error, as the effects of the calls do.
\<close>

type_synonym ('s, 'e, 'a) act = "'s \<Rightarrow> ('e + 'a) \<times> 's"

definition bindS :: "('s, 'e, 'a) act \<Rightarrow> ('a \<Rightarrow> ('s, 'e, 'b) act) \<Rightarrow> ('s, 'e, 'b) act" where
  "bindS m k st = (case m st of (Inl e, st') \<Rightarrow> (Inl e, st') | (Inr a, st') \<Rightarrow> k a st')"

definition liftS :: "'e + 'a \<Rightarrow> ('s, 'e, 'a) act" where
  "liftS r st = (r, st)"

definition mapErrS :: "('e \<Rightarrow> 'f) \<Rightarrow> ('s, 'e, 'a) act \<Rightarrow> ('s, 'f, 'a) act" where
  "mapErrS f m st = (mapErr f (fst (m st)), snd (m st))"

fun forS :: "('x \<Rightarrow> ('s, 'e, unit) act) \<Rightarrow> 'x list \<Rightarrow> ('s, 'e, unit) act" where
  "forS f [] st = (Inr (), st)"
| "forS f (x # xs) st = bindS (f x) (\<lambda>_. forS f xs) st"

lemma bindS_Inr [result_simps]:
  "bindS m k st = (Inr b, st'') \<longleftrightarrow> (\<exists>a st'. m st = (Inr a, st') \<and> k a st' = (Inr b, st''))"
  by (auto simp: bindS_def split: prod.splits sum.splits)

lemma bindS_simps [simp]:
  "m st = (Inr a, st') \<Longrightarrow> bindS m k st = k a st'"
  "m st = (Inl e, st') \<Longrightarrow> bindS m k st = (Inl e, st')"
  by (simp_all add: bindS_def)

lemma bindS_eq: "bindS m k st = (case m st of (Inl e, st') \<Rightarrow> (Inl e, st') | (Inr a, st') \<Rightarrow> k a st')"
  by (fact bindS_def)

lemma liftS_simps [simp]: "liftS r st = (r, st)" "bindS (liftS (Inr a)) k = k a"
  by (auto simp: liftS_def bindS_def)

lemma liftS_Inr [result_simps]: "liftS r st = (Inr a, st') \<longleftrightarrow> r = Inr a \<and> st' = st"
  by (auto simp: liftS_def)

lemma mapErrS_Inr [result_simps]: "mapErrS f m st = (Inr a, st') \<longleftrightarrow> m st = (Inr a, st')"
  by (cases "m st") (auto simp: mapErrS_def)

text \<open>
  A relation between the states before and after a step that is a preorder and holds of each part
  of a sequence holds of the sequence.
\<close>

lemma bindS_rel:
  assumes "bindS m k st = (r, st'')" and "\<And>s s' s''. R s s' \<Longrightarrow> R s' s'' \<Longrightarrow> R s s''"
    and "\<And>a st'. m st = (a, st') \<Longrightarrow> R st st'"
    and "\<And>a st'. m st = (Inr a, st') \<Longrightarrow> k a st' = (r, st'') \<Longrightarrow> R st' st''"
  shows "R st st''"
  using assms(1,3,4) by (cases "m st"; cases "fst (m st)") (auto simp: bindS_def intro: assms(2))

lemma forS_rel:
  assumes "forS f xs st = (r, st')" and "\<And>s. R s s" and "\<And>s s' s''. R s s' \<Longrightarrow> R s' s'' \<Longrightarrow> R s s''"
    and "\<And>x s r s'. x \<in> set xs \<Longrightarrow> f x s = (r, s') \<Longrightarrow> R s s'"
  shows "R st st'"
  using assms(1,4)
proof (induction xs arbitrary: st)
  case (Cons x xs)
  from Cons.prems(1) have "bindS (f x) (\<lambda>_. forS f xs) st = (r, st')" by simp
  then show ?case
  proof (rule bindS_rel [where R = R])
    show "R st s" if "f x st = (a, s)" for a s by (rule Cons.prems(2) [OF _ that]) simp
    show "R s st'" if "forS f xs s = (r, st')" for s
      by (rule Cons.IH [OF that]) (meson Cons.prems(2) list.set_intros(2))
  qed (rule assms(3))
qed (use assms(2) in simp)

text \<open>The cases of a sequence.\<close>

lemma bindS_cases:
  assumes "bindS m k st = (r, st'')"
  obtains (failed) e where "m st = (Inl e, st'')" and "r = Inl e"
    | (ran) a st' where "m st = (Inr a, st')" and "k a st' = (r, st'')"
  using assms by (auto simp: bindS_def split: prod.splits sum.splits)

end
