(* ===== verification/Broker_Wire.thy ===== *)
theory Broker_Wire
  imports State_Result Execution_Run Ipc_Frame Protocol_Decode
begin

text \<open>
  The response stream of the broker: \<open>internal/brokerwire/types.go\<close>, \<open>preamble.go\<close>,
  \<open>write.go\<close> and \<open>read.go\<close>.  Both ends talk to interfaces: the stream, the artifact bundle on
  the broker's side, the artifact sink on the client's.  The state of an exchange is the bytes
  still to arrive and the calls made so far, in order; an environment answers every call, and its
  answer may depend on all the calls before it.  Errors are the rules of \<open>wireError\<close>, or the
  failure the other side reported.
\<close>

section \<open>Types (\<open>types.go\<close>)\<close>

type_synonym Outcome = string
type_synonym Failure = string

definition WireCurrentVersion :: "8 word" where "WireCurrentVersion = 1"
definition OutcomeExecution :: Outcome where "OutcomeExecution = ''execution''"
definition OutcomeRejected :: Outcome where "OutcomeRejected = ''rejected''"
definition FailureNone :: Failure where "FailureNone = ''none''"
definition FailureInvalidFrame :: Failure where "FailureInvalidFrame = ''invalid_frame''"
definition FailureInvalidEnvelope :: Failure where "FailureInvalidEnvelope = ''invalid_envelope''"
definition FailureAuthorizationDenied :: Failure where "FailureAuthorizationDenied = ''authorization_denied''"
definition FailureExecutionUnavailable :: Failure where "FailureExecutionUnavailable = ''execution_unavailable''"
definition FailureResponseUnavailable :: Failure where "FailureResponseUnavailable = ''response_unavailable''"

lemmas wire_constants [go_defs] = WireCurrentVersion_def OutcomeExecution_def OutcomeRejected_def FailureNone_def
  FailureInvalidFrame_def FailureInvalidEnvelope_def FailureAuthorizationDenied_def
  FailureExecutionUnavailable_def FailureResponseUnavailable_def

definition MaxPreambleBytes :: nat where "MaxPreambleBytes = 1024"
definition MaxDataChunkBytes :: nat where "MaxDataChunkBytes = 65536"
definition MaxExchangeMarkerBytes :: nat where "MaxExchangeMarkerBytes = 16"
definition terminalMarker :: string where "terminalMarker = ''AWG'' @ CHR 0x01 # ''DONE''"
definition acknowledgementMarker :: string where "acknowledgementMarker = ''AWG'' @ CHR 0x01 # ''ACK''"

record Preamble =
  pb_ProtocolVersion :: "8 word"
  pb_Outcome :: Outcome
  pb_Failure :: Failure
  pb_StdoutRetainedSHA256 :: string
  pb_StderrRetainedSHA256 :: string

record Response =
  rp_Report :: ExecutionReport
  rp_Stdout :: string
  rp_Stderr :: string

datatype WireError = WireError string | RemoteError Failure

section \<open>Preambles (\<open>preamble.go\<close>)\<close>

definition supportedFailures :: "Failure list" where
  "supportedFailures = [FailureNone, FailureInvalidFrame, FailureInvalidEnvelope, FailureAuthorizationDenied,
     FailureExecutionUnavailable, FailureResponseUnavailable]"

definition lowerHexDigest :: "string \<Rightarrow> bool" where
  "lowerHexDigest v = isLowerHex 64 v"

definition ValidatePreamble :: "Preamble \<Rightarrow> WireError + unit" where
  "ValidatePreamble p = checks
     ([failIf (pb_ProtocolVersion p \<noteq> WireCurrentVersion) (WireError ''unsupported-version''),
       failIf (pb_Failure p \<notin> set supportedFailures) (WireError ''unsupported-failure'')]
      @ (if pb_Outcome p = OutcomeExecution then
           [failIf (pb_Failure p \<noteq> FailureNone) (WireError ''execution-cannot-carry-failure''),
            failIf (\<not> lowerHexDigest (pb_StdoutRetainedSHA256 p) \<or> \<not> lowerHexDigest (pb_StderrRetainedSHA256 p))
              (WireError ''retained-digest-invalid'')]
         else if pb_Outcome p = OutcomeRejected then
           [failIf (pb_Failure p = FailureNone) (WireError ''rejection-requires-failure''),
            failIf (pb_StdoutRetainedSHA256 p \<noteq> [] \<or> pb_StderrRetainedSHA256 p \<noteq> [])
              (WireError ''rejection-cannot-carry-digests'')]
         else [Inl (WireError ''unsupported-outcome'')]))"

definition preambleKind :: kind where
  "preambleKind = KStruct [(''protocol_version'', KUint8), (''outcome'', KString), (''failure'', KString),
     (''stdout_retained_sha256'', KString), (''stderr_retained_sha256'', KString)]"

definition preambleJson :: "Preamble \<Rightarrow> json" where
  "preambleJson p = JObj [(''protocol_version'', JInt (uint (pb_ProtocolVersion p))),
     (''outcome'', JStr (pb_Outcome p)), (''failure'', JStr (pb_Failure p)),
     (''stdout_retained_sha256'', JStr (pb_StdoutRetainedSHA256 p)),
     (''stderr_retained_sha256'', JStr (pb_StderrRetainedSHA256 p))]"

definition preambleOf :: "json \<Rightarrow> Preamble" where
  "preambleOf j = \<lparr>pb_ProtocolVersion = uint8Of (memberOf ''protocol_version'' j),
     pb_Outcome = stringOf (memberOf ''outcome'' j), pb_Failure = stringOf (memberOf ''failure'' j),
     pb_StdoutRetainedSHA256 = stringOf (memberOf ''stdout_retained_sha256'' j),
     pb_StderrRetainedSHA256 = stringOf (memberOf ''stderr_retained_sha256'' j)\<rparr>"

definition DecodePreamble :: "(string list \<Rightarrow> string) \<Rightarrow> string \<Rightarrow> WireError + Preamble" where
  "DecodePreamble pick encoded =
     bindR (mapErr (\<lambda>rule. WireError (''preamble-json-'' @ rule)) (DecodeObject pick preambleKind MaxPreambleBytes encoded)) (\<lambda>j.
     bindR (ValidatePreamble (preambleOf j)) (\<lambda>_. Inr (preambleOf j)))"

definition MarshalCanonicalPreamble :: "Preamble \<Rightarrow> WireError + string" where
  "MarshalCanonicalPreamble p =
     bindR (ValidatePreamble p) (\<lambda>_.
     bindR (failIf (length (encodeJson (preambleJson p)) > MaxPreambleBytes) (WireError ''preamble-encode-failed'')) (\<lambda>_.
     Inr (encodeJson (preambleJson p))))"

section \<open>Exchanges\<close>

text \<open>The calls an end of the exchange makes, with their arguments.\<close>

datatype Call =
    Sent string                  \<comment> \<open>bytes the stream took\<close>
  | BundleOpen string string     \<comment> \<open>a reader of the artifact bundle, by group and path\<close>
  | ReaderClose
  | BundleClose
  | SinkBegin "ArtifactFile list"
  | SinkOpen ArtifactFile
  | Stored string                \<comment> \<open>bytes a destination took\<close>
  | DestinationClose
  | SinkCommit
  | SinkAbort
  | Dial
  | TransportClose
  | Publish Response
  | DestinationAbort

text \<open>
  The environment: what the stream and a destination answer to a write, whether the incoming bytes
  end with EOF or with an error, whether the client has a sink, whether any other call succeeds,
  and the order in which the strict decoder visits its maps.
\<close>

record Env =
  en_Write :: "Call list \<Rightarrow> string \<Rightarrow> int \<times> bool"
  en_Store :: "Call list \<Rightarrow> string \<Rightarrow> int \<times> bool"
  en_EOF :: bool
  en_Sink :: bool
  en_Ok :: "Call list \<Rightarrow> bool"
  en_Pick :: "string list \<Rightarrow> string"

record Exchange =
  ex_incoming :: string
  ex_calls :: "Call list"

text \<open>An artifact bundle: the bytes a reader delivers and whether it then reports EOF.\<close>

type_synonym Bundle = "string \<Rightarrow> string \<Rightarrow> (string \<times> bool) option"

text \<open>Functions that act on an exchange and may fail.\<close>

type_synonym ('e, 'a) io = "(Exchange, 'e, 'a) act"

definition logCall :: "Call \<Rightarrow> Exchange \<Rightarrow> Exchange" where
  "logCall c st = st\<lparr>ex_calls := ex_calls st @ [c]\<rparr>"

text \<open>A call that succeeds or fails, without a value.\<close>

definition callS :: "Env \<Rightarrow> Call \<Rightarrow> (unit, unit) io" where
  "callS env c st = ((if en_Ok env (ex_calls st @ [c]) then Inr () else Inl ()), logCall c st)"

text \<open>
  A deferred call guarded by a flag that is set at the end of the normal path (\<open>closed\<close>,
  \<open>committed\<close>): it is made on every early return, and its own result is dropped.
\<close>

definition onError :: "Env \<Rightarrow> Call \<Rightarrow> ('e, 'a) io \<Rightarrow> ('e, 'a) io" where
  "onError env c m st = (case m st of (r, st') \<Rightarrow> (r, if isOk r then st' else snd (callS env c st')))"

definition streamWriter :: "Env \<Rightarrow> Call list writer" where
  "streamWriter env calls s = (en_Write env calls s, calls @ [Sent (take (nat (fst (en_Write env calls s))) s)])"

definition destinationWriter :: "Env \<Rightarrow> Call list writer" where
  "destinationWriter env calls s = (en_Store env calls s, calls @ [Stored (take (nat (fst (en_Store env calls s))) s)])"

text \<open>\<open>ipcframe.Write\<close> and \<open>ipcframe.Read\<close> on the stream.\<close>

definition sendFrame :: "Env \<Rightarrow> string \<Rightarrow> nat \<Rightarrow> (string, unit) io" where
  "sendFrame env payload maximum st =
     (case writeFrame (Some (streamWriter env)) payload (int maximum) (ex_calls st) of
        (r, calls) \<Rightarrow> (r, st\<lparr>ex_calls := calls\<rparr>))"

definition receiveFrame :: "nat \<Rightarrow> (string, string) io" where
  "receiveFrame maximum st =
     (case readFrame (Some (ex_incoming st)) (int maximum) of (r, rest) \<Rightarrow> (r, st\<lparr>ex_incoming := rest\<rparr>))"

definition failS :: "string \<Rightarrow> (string, 'a) io \<Rightarrow> (WireError, 'a) io" where
  "failS rule m = mapErrS (\<lambda>_. WireError rule) m"

section \<open>The broker's side (\<open>write.go\<close>)\<close>

definition digestBytes :: "string \<Rightarrow> string" where
  "digestBytes content = sha256Hex content"

definition WriteRejection :: "Env option \<Rightarrow> Failure \<Rightarrow> (WireError, unit) io" where
  "WriteRejection writer failure = (case writer of
     None \<Rightarrow> liftS (Inl (WireError ''rejection-invalid''))
   | Some env \<Rightarrow>
      if failure = FailureNone then liftS (Inl (WireError ''rejection-invalid''))
      else bindS (liftS (MarshalCanonicalPreamble
             \<lparr>pb_ProtocolVersion = WireCurrentVersion, pb_Outcome = OutcomeRejected, pb_Failure = failure,
              pb_StdoutRetainedSHA256 = [], pb_StderrRetainedSHA256 = []\<rparr>))
           (\<lambda>preamble. failS ''preamble-write-failed'' (sendFrame env preamble MaxPreambleBytes)))"

definition finishServerExchange :: "Env \<Rightarrow> (WireError, unit) io" where
  "finishServerExchange env =
     bindS (failS ''terminal-marker-write-failed'' (sendFrame env terminalMarker MaxExchangeMarkerBytes)) (\<lambda>_.
     bindS (failS ''acknowledgement-invalid'' (receiveFrame MaxExchangeMarkerBytes)) (\<lambda>acknowledgement.
     liftS (failIf (acknowledgement \<noteq> acknowledgementMarker) (WireError ''acknowledgement-invalid''))))"

definition WriteRejectionExchange :: "Env option \<Rightarrow> Failure \<Rightarrow> (WireError, unit) io" where
  "WriteRejectionExchange stream failure = (case stream of
     None \<Rightarrow> liftS (Inl (WireError ''stream-required''))
   | Some env \<Rightarrow> bindS (WriteRejection stream failure) (\<lambda>_. finishServerExchange env))"

definition validateOutput :: "Bundle Output \<Rightarrow> WireError + unit" where
  "validateOutput output = (let report = ot_Report output in checks
     [mapErr (\<lambda>_. WireError ''report-invalid'') (ValidateExecutionReport report),
      failIf (int (length (ot_Stdout output)) \<noteq> om_RetainedBytes (er_Stdout report)
              \<or> int (length (ot_Stderr output)) \<noteq> om_RetainedBytes (er_Stderr report))
        (WireError ''retained-length-mismatch''),
      failIf (\<not> om_Truncated (er_Stdout report) \<and> digestBytes (ot_Stdout output) \<noteq> om_SHA256 (er_Stdout report))
        (WireError ''stdout-digest-mismatch''),
      failIf (\<not> om_Truncated (er_Stderr report) \<and> digestBytes (ot_Stderr output) \<noteq> om_SHA256 (er_Stderr report))
        (WireError ''stderr-digest-mismatch''),
      failIf ((length (sl (am_Files (er_Artifacts report))) = 0) \<noteq> (ot_ArtifactBundle output = None))
        (WireError ''artifact-bundle-shape-invalid'')])"

function writeBytes :: "Env \<Rightarrow> string \<Rightarrow> (string, unit) io" where
  "writeBytes env content st =
     (if content = [] then (Inr (), st)
      else bindS (sendFrame env (take MaxDataChunkBytes content) MaxDataChunkBytes)
             (\<lambda>_. writeBytes env (drop MaxDataChunkBytes content)) st)"
  by pat_completeness auto
termination
  by (relation "measure (\<lambda>(env, content, st). length content)") (auto simp: MaxDataChunkBytes_def)

declare writeBytes.simps [simp del]

text \<open>
  The loop over an artifact: the content the reader still has, the bytes hashed so far, and the
  bytes still to send; it returns what the reader has left and the hash.
\<close>

function sendContent :: "Env \<Rightarrow> string \<Rightarrow> hash \<Rightarrow> int \<Rightarrow> (WireError, string \<times> hash) io" where
  "sendContent env content hasher remaining st =
     (if remaining \<le> 0 then (Inr (content, hasher), st)
      else let want = (if remaining < int MaxDataChunkBytes then remaining else int MaxDataChunkBytes) in
        case readFull (nat want) content of
          (None, rest) \<Rightarrow> (Inl (WireError ''artifact-content-truncated''), st)
        | (Some chunk, rest) \<Rightarrow>
            bindS (failS ''artifact-write-failed'' (sendFrame env chunk MaxDataChunkBytes))
              (\<lambda>_. sendContent env rest (hashWrite hasher chunk) (remaining - want)) st)"
  by pat_completeness auto
termination
  by (relation "measure (\<lambda>(env, content, hasher, remaining, st). nat remaining)") (auto simp: MaxDataChunkBytes_def)

declare sendContent.simps [simp del]

definition emptyHash :: hash where "emptyHash = []"

text \<open>
  The reader is closed once at the end; on every earlier return, and when that close fails, the
  deferred close is made.
\<close>

definition writeArtifact :: "Env \<Rightarrow> Bundle \<Rightarrow> ArtifactFile \<Rightarrow> (WireError, unit) io" where
  "writeArtifact env bundle file st =
     (let st = logCall (BundleOpen (af_Group file) (af_Path file)) st in
      case bundle (af_Group file) (af_Path file) of
        None \<Rightarrow> (Inl (WireError ''artifact-open-failed''), st)
      | Some (content, eof) \<Rightarrow>
          onError env ReaderClose
            (bindS (sendContent env content emptyHash (af_SizeBytes file)) (\<lambda>(rest, hasher).
             bindS (liftS (checks
               [failIf (rest \<noteq> []) (WireError ''artifact-content-overrun''),
                failIf (\<not> eof) (WireError ''artifact-final-read-failed''),
                failIf (hashSumHex hasher \<noteq> af_SHA256 file) (WireError ''artifact-digest-mismatch'')])) (\<lambda>_.
             failS ''artifact-reader-close-failed'' (mapErrS (\<lambda>_. []) (callS env ReaderClose))))) st)"

definition closeOutputS :: "Env \<Rightarrow> Bundle Output \<Rightarrow> (unit, unit) io" where
  "closeOutputS env output =
     (case ot_ArtifactBundle output of None \<Rightarrow> liftS (Inr ()) | Some _ \<Rightarrow> callS env BundleClose)"

definition closeAlways :: "Env \<Rightarrow> Bundle Output \<Rightarrow> (WireError, unit) io \<Rightarrow> (WireError, unit) io" where
  "closeAlways env output m st =
     (case m st of (r, st1) \<Rightarrow> case closeOutputS env output st1 of (closed, st2) \<Rightarrow>
       (if \<not> isOk closed \<and> isOk r then Inl (WireError ''artifact-bundle-close-failed'') else r, st2))"

definition WriteExecution :: "Env \<Rightarrow> bool \<Rightarrow> Bundle Output \<Rightarrow> (WireError, unit) io" where
  "WriteExecution env writer output = closeAlways env output
     (if \<not> writer then liftS (Inl (WireError ''writer-required''))
      else
        bindS (liftS (validateOutput output)) (\<lambda>_.
        bindS (liftS (MarshalCanonicalPreamble
          \<lparr>pb_ProtocolVersion = WireCurrentVersion, pb_Outcome = OutcomeExecution, pb_Failure = FailureNone,
           pb_StdoutRetainedSHA256 = digestBytes (ot_Stdout output),
           pb_StderrRetainedSHA256 = digestBytes (ot_Stderr output)\<rparr>)) (\<lambda>preamble.
        bindS (liftS (mapErr (\<lambda>_. WireError ''report-encode-failed'')
          (MarshalCanonicalExecutionReport (ot_Report output)))) (\<lambda>report.
        bindS (failS ''preamble-write-failed'' (sendFrame env preamble MaxPreambleBytes)) (\<lambda>_.
        bindS (failS ''report-write-failed'' (sendFrame env report MaxExecutionReportBytes)) (\<lambda>_.
        bindS (failS ''stdout-write-failed'' (writeBytes env (ot_Stdout output))) (\<lambda>_.
        bindS (failS ''stderr-write-failed'' (writeBytes env (ot_Stderr output))) (\<lambda>_.
        forS (\<lambda>file. writeArtifact env (case ot_ArtifactBundle output of None \<Rightarrow> \<lambda>_ _. None | Some b \<Rightarrow> b) file)
          (sl (am_Files (er_Artifacts (ot_Report output))))))))))))"

definition WriteExecutionExchange :: "Env \<Rightarrow> bool \<Rightarrow> Bundle Output \<Rightarrow> (WireError, unit) io" where
  "WriteExecutionExchange env stream output =
     (if \<not> stream then
        (\<lambda>st. (Inl (WireError ''stream-required''), snd (closeOutputS env output st)))
      else bindS (WriteExecution env True output) (\<lambda>_. finishServerExchange env))"

section \<open>The client's side (\<open>read.go\<close>)\<close>

definition expectEOF :: "Env \<Rightarrow> (WireError, unit) io" where
  "expectEOF env st =
     (if ex_incoming st \<noteq> [] then (Inl (WireError ''trailing-data''), st\<lparr>ex_incoming := drop 1 (ex_incoming st)\<rparr>)
      else if \<not> en_EOF env then (Inl (WireError ''response-close-failed''), st)
      else (Inr (), st))"

definition finishClientExchange :: "Env \<Rightarrow> (WireError, unit) io" where
  "finishClientExchange env =
     bindS (failS ''terminal-marker-invalid'' (receiveFrame MaxExchangeMarkerBytes)) (\<lambda>terminal.
     bindS (liftS (failIf (terminal \<noteq> terminalMarker) (WireError ''terminal-marker-invalid''))) (\<lambda>_.
     bindS (failS ''acknowledgement-write-failed'' (sendFrame env acknowledgementMarker MaxExchangeMarkerBytes)) (\<lambda>_.
     expectEOF env)))"

text \<open>The loop of \<open>readBytes\<close>: \<open>remaining\<close> is the length of the part of the buffer not filled yet.\<close>

lemma receiveFrame_progress:
  "receiveFrame n st = (Inr p, st') \<Longrightarrow> p \<noteq> [] \<and> length p \<le> n"
  using readFrame_ok [of "ex_incoming st" "int n" p "ex_incoming st'"]
  by (auto simp: receiveFrame_def frameOk_def split: prod.splits)

function readChunks :: "string \<Rightarrow> nat \<Rightarrow> (string, string) io" where
  "readChunks content remaining st =
     (if remaining = 0 then (Inr content, st)
      else case receiveFrame MaxDataChunkBytes st of
        (Inl e, st') \<Rightarrow> (Inl e, st')
      | (Inr chunk, st') \<Rightarrow>
          if length chunk > remaining then (Inl ''content-chunk-overrun'', st')
          else readChunks (content @ chunk) (remaining - length chunk) st')"
  by pat_completeness auto
termination
  by (relation "measure (\<lambda>(content, remaining, st). remaining)") (auto dest!: receiveFrame_progress [OF sym])

declare readChunks.simps [simp del]

definition readBytes :: "int \<Rightarrow> (string, string) io" where
  "readBytes n =
     (if n < 0 \<or> n > MaxOutputBytes then liftS (Inl ''content-length-invalid'') else readChunks [] (nat n))"

definition writeAll :: "Env \<Rightarrow> string \<Rightarrow> (string, unit) io" where
  "writeAll env content st =
     (case writeLoop (destinationWriter env) content (ex_calls st) of (r, calls) \<Rightarrow> (r, st\<lparr>ex_calls := calls\<rparr>))"

function receiveContent :: "Env \<Rightarrow> hash \<Rightarrow> int \<Rightarrow> (WireError, hash) io" where
  "receiveContent env hasher remaining st =
     (if remaining \<le> 0 then (Inr hasher, st)
      else case receiveFrame MaxDataChunkBytes st of
        (Inl e, st') \<Rightarrow> (Inl (WireError ''artifact-content-truncated''), st')
      | (Inr chunk, st') \<Rightarrow>
          if int (length chunk) > remaining then (Inl (WireError ''artifact-content-overrun''), st')
          else bindS (failS ''artifact-destination-write-failed'' (writeAll env chunk))
                 (\<lambda>_. receiveContent env (hashWrite hasher chunk) (remaining - int (length chunk))) st')"
  by pat_completeness auto
termination
  by (relation "measure (\<lambda>(env, hasher, remaining, st). nat remaining)") (auto dest!: receiveFrame_progress [OF sym])

declare receiveContent.simps [simp del]

definition readArtifact :: "Env \<Rightarrow> ArtifactFile \<Rightarrow> (WireError, unit) io" where
  "readArtifact env file =
     bindS (failS ''artifact-destination-open-failed'' (mapErrS (\<lambda>_. []) (callS env (SinkOpen file)))) (\<lambda>_.
     onError env DestinationClose
       (bindS (receiveContent env emptyHash (af_SizeBytes file)) (\<lambda>hasher.
        bindS (liftS (failIf (hashSumHex hasher \<noteq> af_SHA256 file) (WireError ''artifact-digest-mismatch''))) (\<lambda>_.
        failS ''artifact-destination-close-failed'' (mapErrS (\<lambda>_. []) (callS env DestinationClose))))))"

text \<open>The artifacts, when the report names any: they are published only after the exchange has finished.\<close>

definition receiveArtifacts :: "Env \<Rightarrow> (WireError, unit) io \<Rightarrow> ArtifactFile list \<Rightarrow> (WireError, unit) io" where
  "receiveArtifacts env finish files =
     (if files = [] then finish
      else if \<not> en_Sink env then liftS (Inl (WireError ''artifact-sink-required''))
      else
        bindS (failS ''artifact-transaction-begin-failed'' (mapErrS (\<lambda>_. []) (callS env (SinkBegin files)))) (\<lambda>_.
        onError env SinkAbort
          (bindS (forS (readArtifact env) files) (\<lambda>_.
           bindS finish (\<lambda>_.
           failS ''artifact-transaction-commit-failed'' (mapErrS (\<lambda>_. []) (callS env SinkCommit)))))))"

text \<open>The report and the retained output streams, checked against the digests of the preamble.\<close>

definition readOutput :: "Preamble \<Rightarrow> (WireError, Response) io" where
  "readOutput preamble =
     bindS (failS ''report-read-failed'' (receiveFrame MaxExecutionReportBytes)) (\<lambda>encodedReport.
     bindS (liftS (mapErr (\<lambda>_. WireError ''report-invalid'') (DecodeExecutionReport encodedReport))) (\<lambda>report.
     bindS (failS ''stdout-read-failed'' (readBytes (om_RetainedBytes (er_Stdout report)))) (\<lambda>stdout.
     bindS (liftS (failIf (digestBytes stdout \<noteq> pb_StdoutRetainedSHA256 preamble)
       (WireError ''stdout-retained-digest-mismatch''))) (\<lambda>_.
     bindS (failS ''stderr-read-failed'' (readBytes (om_RetainedBytes (er_Stderr report)))) (\<lambda>stderr.
     bindS (liftS (failIf (digestBytes stderr \<noteq> pb_StderrRetainedSHA256 preamble)
       (WireError ''stderr-retained-digest-mismatch''))) (\<lambda>_.
     liftS (Inr \<lparr>rp_Report = report, rp_Stdout = stdout, rp_Stderr = stderr\<rparr>)))))))"

definition readResponse :: "Env option \<Rightarrow> (WireError, unit) io option \<Rightarrow> (WireError, Response) io" where
  "readResponse reader finish = (case reader of
     None \<Rightarrow> liftS (Inl (WireError ''reader-required''))
   | Some env \<Rightarrow> (case finish of
     None \<Rightarrow> liftS (Inl (WireError ''finish-required''))
   | Some fin \<Rightarrow>
      bindS (failS ''preamble-read-failed'' (receiveFrame MaxPreambleBytes)) (\<lambda>encodedPreamble.
      bindS (liftS (DecodePreamble (en_Pick env) encodedPreamble)) (\<lambda>preamble.
      if pb_Outcome preamble = OutcomeRejected
      then bindS fin (\<lambda>_. liftS (Inl (RemoteError (pb_Failure preamble))))
      else bindS (readOutput preamble) (\<lambda>response.
           bindS (receiveArtifacts env fin (sl (am_Files (er_Artifacts (rp_Report response))))) (\<lambda>_.
           liftS (Inr response)))))))"

definition ReadResponse :: "Env option \<Rightarrow> (WireError, Response) io" where
  "ReadResponse reader = readResponse reader (map_option expectEOF reader)"

definition ReadResponseExchange :: "Env option \<Rightarrow> (WireError, Response) io" where
  "ReadResponseExchange stream = (case stream of
     None \<Rightarrow> liftS (Inl (WireError ''stream-required''))
   | Some env \<Rightarrow> readResponse stream (Some (finishClientExchange env)))"

end
