(* ===== verification/Broker_Session.thy ===== *)
theory Broker_Session
  imports Background Broker_Wire
begin

text \<open>
  The two callers of the wire: \<open>internal/brokersession/session.go\<close> and \<open>types.go\<close> with
  \<open>internal/sourceversion/source.go\<close>, which answer one connection on the broker's side, and
  \<open>internal/controlclient/client.go\<close>, which makes one on the control side.  What happens around
  a connection (the context, the clock, the native side, the registry) is the record
  \<open>Attempt\<close>; the transport and the destination are the environment of the exchange.
\<close>

section \<open>Source versions (\<open>source.go\<close>)\<close>

definition IsCanonicalGitSHA :: "string \<Rightarrow> bool" where
  "IsCanonicalGitSHA v \<longleftrightarrow> length v = 40
     \<and> list_all (\<lambda>character. 48 \<le> character \<and> character \<le> 57 \<or> 97 \<le> character \<and> character \<le> 102) (runes v)"

section \<open>Sessions (\<open>brokersession\<close>)\<close>

definition minute :: duration where "minute = 60 * second"
definition defaultRequestReadTimeout :: duration where "defaultRequestReadTimeout = 30 * second"
definition defaultResponseWriteTimeout :: duration where "defaultResponseWriteTimeout = 30 * minute"
definition defaultAcknowledgementTimeout :: duration where "defaultAcknowledgementTimeout = 30 * second"
definition maxRequestReadTimeout :: duration where "maxRequestReadTimeout = 5 * minute"
definition maxResponseWriteTimeout :: duration where "maxResponseWriteTimeout = 60 * minute"
definition maxAcknowledgementTimeout :: duration where "maxAcknowledgementTimeout = 5 * minute"

lemmas session_limits = minute_def second_def defaultRequestReadTimeout_def defaultResponseWriteTimeout_def
  defaultAcknowledgementTimeout_def maxRequestReadTimeout_def maxResponseWriteTimeout_def
  maxAcknowledgementTimeout_def

record SessionOptions =
  so_RequestReadTimeout :: duration
  so_ResponseWriteTimeout :: duration
  so_AcknowledgementTimeout :: duration

record Session =
  se_configuration :: Config
  se_safeBaseEnvironment :: "string list"
  se_resolver :: Resolver
  se_runner :: "Bundle Runner"
  se_gatewaySourceSHA :: string
  se_requestReadTimeout :: duration
  se_responseWriteTimeout :: duration
  se_acknowledgementTimeout :: duration

datatype SessionError = SessionError string

definition boundedDuration :: "duration \<Rightarrow> duration \<Rightarrow> duration \<Rightarrow> SessionError + duration" where
  "boundedDuration v fallback maximum =
     (if v = 0 then Inr fallback
      else if v < 0 \<or> v > maximum then Inl (SessionError ''duration-outside-limit'')
      else Inr v)"

text \<open>Slices of a copy are never nil.\<close>

definition cloneConfiguration :: "Config \<Rightarrow> Config" where
  "cloneConfiguration cfg = cfg\<lparr>cf_ApprovedRoots := Some (sl (cf_ApprovedRoots cfg)),
     cf_Shells := Some (sl (cf_Shells cfg)), cf_PathEntries := Some (sl (cf_PathEntries cfg)),
     cf_Capabilities := Some (sl (cf_Capabilities cfg))\<rparr>"

definition NewSession ::
    "Config \<Rightarrow> string list \<Rightarrow> Resolver option \<Rightarrow> Bundle Runner option \<Rightarrow> string \<Rightarrow> SessionOptions \<Rightarrow> SessionError + Session" where
  "NewSession cfg safeBaseEnvironment resolver runner gatewaySourceSHA options =
     bindR (mapErr (\<lambda>_. SessionError ''installed-configuration-invalid'') (ValidateConfig cfg)) (\<lambda>_.
     bindR (fromOption (SessionError ''execution-dependency-required'') resolver) (\<lambda>resolver.
     bindR (fromOption (SessionError ''execution-dependency-required'') runner) (\<lambda>runner.
     bindR (failIf (\<not> IsCanonicalGitSHA gatewaySourceSHA) (SessionError ''gateway-source-sha-invalid'')) (\<lambda>_.
     bindR (mapErr (\<lambda>_. SessionError ''safe-base-environment-invalid'') (BuildEnvironment cfg safeBaseEnvironment
        \<lparr>cx_RequestID = ''preflight-request'', cx_SessionID = ''preflight-session'', cx_AttemptID = ''preflight-attempt''\<rparr>)) (\<lambda>_.
     bindR (mapErr (\<lambda>_. SessionError ''request-read-timeout-invalid'')
        (boundedDuration (so_RequestReadTimeout options) defaultRequestReadTimeout maxRequestReadTimeout)) (\<lambda>requestTimeout.
     bindR (mapErr (\<lambda>_. SessionError ''response-write-timeout-invalid'')
        (boundedDuration (so_ResponseWriteTimeout options) defaultResponseWriteTimeout maxResponseWriteTimeout)) (\<lambda>responseTimeout.
     bindR (mapErr (\<lambda>_. SessionError ''acknowledgement-timeout-invalid'')
        (boundedDuration (so_AcknowledgementTimeout options) defaultAcknowledgementTimeout maxAcknowledgementTimeout))
        (\<lambda>acknowledgementTimeout.
     Inr \<lparr>se_configuration = cloneConfiguration cfg, se_safeBaseEnvironment = safeBaseEnvironment,
          se_resolver = resolver, se_runner = runner, se_gatewaySourceSHA = gatewaySourceSHA,
          se_requestReadTimeout = requestTimeout, se_responseWriteTimeout = responseTimeout,
          se_acknowledgementTimeout = acknowledgementTimeout\<rparr>))))))))"

text \<open>
  What a connection meets: whether the context has ended when it is asked, before the
  authorization and after it, the clock, the native side, and the registry a background request
  meets, with all that happens to it between the steps of the request.
\<close>

record Attempt =
  at_CancelledBefore :: bool
  at_CancelledAfter :: bool
  at_StartedAt :: instant
  at_FinishedAt :: instant
  at_Native :: Native
  at_Background :: Registry

definition rejectSession :: "Env \<Rightarrow> Failure \<Rightarrow> Exchange \<Rightarrow> (SessionError + unit) \<times> Exchange" where
  "rejectSession env failure =
     mapErrS (\<lambda>_. SessionError ''rejection-write-failed'') (WriteRejectionExchange (Some env) failure)"

text \<open>The answer to an envelope, with the effects of the run.\<close>

definition handleEnvelope ::
    "Session \<Rightarrow> Env \<Rightarrow> Attempt \<Rightarrow> ExecuteEnvelope \<Rightarrow> Exchange \<Rightarrow> ((SessionError + unit) \<times> Exchange) \<times> Bundle Effect list" where
  "handleEnvelope session env attempt envelope st =
     (if at_CancelledBefore attempt then (rejectSession env FailureExecutionUnavailable st, [])
      else case Authorize (se_configuration session) envelope (se_safeBaseEnvironment session)
             (Some (se_resolver session)) of
        Inl _ \<Rightarrow> (rejectSession env FailureAuthorizationDenied st, [])
      | Inr plan \<Rightarrow>
          if at_CancelledAfter attempt then (rejectSession env FailureExecutionUnavailable st, [])
          else case Run (se_runner session) plan (se_gatewaySourceSHA session) (at_StartedAt attempt)
                 (at_FinishedAt attempt) (at_Native attempt) (at_Background attempt) of
            (Inl _, effects) \<Rightarrow> (rejectSession env FailureExecutionUnavailable st, effects)
          | (Inr output', effects) \<Rightarrow>
              if \<not> isOk (ValidateExecutionReportBinding (ee_AcceptedRequest envelope) (ot_Report output'))
                 \<or> er_AttemptID (ot_Report output') \<noteq> ee_AttemptID envelope
                 \<or> er_GatewaySourceSHA (ot_Report output') \<noteq> se_gatewaySourceSHA session
              then (rejectSession env FailureResponseUnavailable (snd (closeOutputS env output' st)), effects)
              else (mapErrS (\<lambda>_. SessionError ''execution-response-write-failed'')
                      (WriteExecutionExchange env True output') st, effects))"

definition Handle ::
    "Session option \<Rightarrow> Env option \<Rightarrow> bool \<Rightarrow> Attempt \<Rightarrow> Exchange \<Rightarrow> ((SessionError + unit) \<times> Exchange) \<times> Bundle Effect list" where
  "Handle session transport ctx attempt st =
     (case (session, transport) of
        (Some session, Some env) \<Rightarrow>
          if \<not> ctx then ((Inl (SessionError ''session-input-invalid''), st), [])
          else (case receiveFrame MaxExecuteEnvelopeBytes st of
             (Inl _, st) \<Rightarrow> (rejectSession env FailureInvalidFrame st, [])
           | (Inr encodedEnvelope, st) \<Rightarrow>
               (case DecodeExecuteEnvelope (en_Pick env) encodedEnvelope of
                  Inl _ \<Rightarrow> (rejectSession env FailureInvalidEnvelope st, [])
                | Inr envelope \<Rightarrow> handleEnvelope session env attempt envelope st))
      | _ \<Rightarrow> ((Inl (SessionError ''session-input-invalid''), st), []))"

section \<open>The control client (\<open>controlclient\<close>)\<close>

datatype ExchangeError = ExchangeError string "WireError option"

definition exchangeError :: "string \<Rightarrow> ExchangeError" where
  "exchangeError rule = ExchangeError rule None"

definition callX :: "Env \<Rightarrow> string \<Rightarrow> Call \<Rightarrow> (ExchangeError, unit) io" where
  "callX env rule c = mapErrS (\<lambda>_. exchangeError rule) (callS env c)"

text \<open>
  From the connection to its close: the deferred close is made on every return before the close
  at the end has succeeded.
\<close>

definition exchangeStream :: "Env \<Rightarrow> string \<Rightarrow> (ExchangeError, Response) io" where
  "exchangeStream env encodedEnvelope = onError env TransportClose
     (bindS (mapErrS (\<lambda>_. exchangeError ''request-write-failed'')
        (sendFrame env encodedEnvelope MaxExecuteEnvelopeBytes)) (\<lambda>_.
      bindS (mapErrS (\<lambda>cause. ExchangeError ''response-read-failed'' (Some cause))
        (ReadResponseExchange (Some (env\<lparr>en_Sink := True\<rparr>)))) (\<lambda>response.
      bindS (callX env ''connection-close-failed'' TransportClose) (\<lambda>_.
      liftS (Inr response)))))"

definition ExchangeRequest ::
    "bool \<Rightarrow> Env option \<Rightarrow> bool \<Rightarrow> AcceptedRequestRecord \<Rightarrow> string \<Rightarrow> (ExchangeError, unit) io" where
  "ExchangeRequest ctx destination cancelled accepted attemptID = (case destination of
     None \<Rightarrow> liftS (Inl (exchangeError ''input-invalid''))
   | Some env \<Rightarrow>
      if \<not> ctx then liftS (Inl (exchangeError ''input-invalid''))
      else onError env DestinationAbort
        (bindS (liftS (mapErr (\<lambda>_. exchangeError ''envelope-invalid'') (MarshalCanonicalExecuteEnvelope
           \<lparr>ee_ProtocolVersion = BrokerCurrentVersion, ee_Operation = OperationExecute, ee_AttemptID = attemptID,
            ee_AcceptedRequest = accepted\<rparr>))) (\<lambda>encodedEnvelope.
         bindS (liftS (failIf cancelled (exchangeError ''cancelled''))) (\<lambda>_.
         bindS (callX env ''connect-failed'' Dial) (\<lambda>_.
         bindS (exchangeStream env encodedEnvelope) (\<lambda>response.
         bindS (liftS (failIf (\<not> isOk (ValidateExecutionReportBinding accepted (rp_Report response))
             \<or> er_AttemptID (rp_Report response) \<noteq> attemptID) (exchangeError ''response-binding-invalid''))) (\<lambda>_.
         callX env ''response-publish-failed'' (Publish response))))))))"

end
