(* ===== verification/Wire_Facts.thy ===== *)
theory Wire_Facts
  imports Broker_Wire Codec_Facts
begin

text \<open>
  What an exchange does: the calls every part of it makes, the bytes it sends and consumes.
\<close>

section \<open>Sequencing\<close>

lemma failS_Inr [result_simps]: "failS rule m st = (Inr a, st') \<longleftrightarrow> m st = (Inr a, st')"
  by (cases "m st") (auto simp: failS_def mapErrS_def)

lemma mapErrS_snd [simp]: "snd (mapErrS f m st) = snd (m st)" "snd (failS rule m st) = snd (m st)"
  by (simp_all add: mapErrS_def failS_def)

lemma callS_Inr [result_simps]:
  "callS env c st = (Inr u, st') \<longleftrightarrow> en_Ok env (ex_calls st @ [c]) \<and> st' = logCall c st"
  by (auto simp: callS_def)

lemma onError_Inr [result_simps]: "onError env c m st = (Inr a, st') \<longleftrightarrow> m st = (Inr a, st')"
  by (cases "m st") (auto simp: onError_def)

lemma onError_cases:
  "onError env c m st = (r, st') \<Longrightarrow> \<exists>st1. m st = (r, st1) \<and> (if isOk r then st' = st1 else st' = logCall c st1)"
  by (cases "m st") (auto simp: onError_def callS_def)

lemmas io_Inr = bindS_Inr liftS_Inr failS_Inr mapErrS_Inr onError_Inr callS_Inr

lemma callS_snd [simp]: "snd (callS env c st) = logCall c st"
  by (simp add: callS_def)

lemma logCall_simps [simp]:
  "ex_calls (logCall c st) = ex_calls st @ [c]" "ex_incoming (logCall c st) = ex_incoming st"
  by (simp_all add: logCall_def)

lemma call_logged: "failS rule (mapErrS g (callS env c)) st = (a, s) \<Longrightarrow> s = logCall c st"
  by (auto simp: failS_def mapErrS_def callS_def)

text \<open>The calls of a step, as an extension of the calls before it.\<close>

definition extends :: "(Call \<Rightarrow> bool) \<Rightarrow> Exchange \<Rightarrow> Exchange \<Rightarrow> bool" where
  "extends P st st' \<longleftrightarrow> (\<exists>cs. ex_calls st' = ex_calls st @ cs \<and> (\<forall>c\<in>set cs. P c))"

lemma extends_refl [simp]: "extends P st st"
  by (simp add: extends_def)

lemma extends_trans: "extends P st st' \<Longrightarrow> extends P st' st'' \<Longrightarrow> extends P st st''"
  by (fastforce simp: extends_def)

lemma extends_mono: "extends P st st' \<Longrightarrow> (\<And>c. P c \<Longrightarrow> Q c) \<Longrightarrow> extends Q st st'"
  by (fastforce simp: extends_def)

lemma extends_bindS:
  assumes "bindS m k st = (r, st'')" and "\<And>a st'. m st = (a, st') \<Longrightarrow> extends P st st'"
    and "\<And>a st'. m st = (Inr a, st') \<Longrightarrow> k a st' = (r, st'') \<Longrightarrow> extends P st' st''"
  shows "extends P st st''"
  using assms by (cases "m st"; cases "fst (m st)") (auto simp: bindS_def intro: extends_trans)

definition isSent :: "Call \<Rightarrow> bool" where "isSent c \<longleftrightarrow> (\<exists>s. c = Sent s)"
definition isStored :: "Call \<Rightarrow> bool" where "isStored c \<longleftrightarrow> (\<exists>s. c = Stored s)"

section \<open>Writers\<close>

text \<open>The contract of \<open>io.Writer\<close>: the count is between zero and the length offered.\<close>

definition honest :: "(Call list \<Rightarrow> string \<Rightarrow> int \<times> bool) \<Rightarrow> bool" where
  "honest f \<longleftrightarrow> (\<forall>calls s. 0 \<le> fst (f calls s) \<and> fst (f calls s) \<le> int (length s))"

definition sentBytes :: "Call list \<Rightarrow> string" where
  "sentBytes calls = concat (map (\<lambda>c. case c of Sent s \<Rightarrow> s | _ \<Rightarrow> []) calls)"

definition storedBytes :: "Call list \<Rightarrow> string" where
  "storedBytes calls = concat (map (\<lambda>c. case c of Stored s \<Rightarrow> s | _ \<Rightarrow> []) calls)"

lemma bytes_simps [simp]:
  "sentBytes [] = []" "sentBytes (a @ b) = sentBytes a @ sentBytes b"
  "sentBytes (c # cs) = (case c of Sent s \<Rightarrow> s | _ \<Rightarrow> []) @ sentBytes cs"
  "storedBytes [] = []" "storedBytes (a @ b) = storedBytes a @ storedBytes b"
  "storedBytes (c # cs) = (case c of Stored s \<Rightarrow> s | _ \<Rightarrow> []) @ storedBytes cs"
  by (simp_all add: sentBytes_def storedBytes_def)

lemma streamWriter_honest:
  assumes "honest (en_Write env)" shows "honestWriter (streamWriter env) sentBytes"
proof -
  have "0 \<le> count \<and> count \<le> int (length s) \<and> sentBytes w' = sentBytes w @ take (nat count) s"
    if "streamWriter env w s = ((count, failed), w')" for w s count failed w'
  proof -
    have "en_Write env w s = (count, failed)" "w' = w @ [Sent (take (nat count) s)]"
      using that by (auto simp: streamWriter_def)
    moreover have "0 \<le> fst (en_Write env w s)" "fst (en_Write env w s) \<le> int (length s)"
      using assms by (simp_all add: honest_def)
    ultimately show ?thesis by simp
  qed
  then show ?thesis unfolding honestWriter_def by blast
qed

lemma destinationWriter_honest:
  assumes "honest (en_Store env)" shows "honestWriter (destinationWriter env) storedBytes"
proof -
  have "0 \<le> count \<and> count \<le> int (length s) \<and> storedBytes w' = storedBytes w @ take (nat count) s"
    if "destinationWriter env w s = ((count, failed), w')" for w s count failed w'
  proof -
    have "en_Store env w s = (count, failed)" "w' = w @ [Stored (take (nat count) s)]"
      using that by (auto simp: destinationWriter_def)
    moreover have "0 \<le> fst (en_Store env w s)" "fst (en_Store env w s) \<le> int (length s)"
      using assms by (simp_all add: honest_def)
    ultimately show ?thesis by simp
  qed
  then show ?thesis unfolding honestWriter_def by blast
qed

text \<open>A write loop makes calls of one kind only.\<close>

lemma writeLoop_calls:
  assumes "\<forall>w s. \<exists>c. snd (wr w s) = w @ [c] \<and> P c"
  shows "writeLoop wr frame w = (r, w') \<Longrightarrow> \<exists>cs. w' = w @ cs \<and> (\<forall>c\<in>set cs. P c)"
  using assms
proof (induction wr frame w arbitrary: r w' rule: writeLoop.induct)
  case (1 wr frame w)
  show ?case
  proof (cases "frame = []")
    case True
    then show ?thesis using 1(2) by (simp add: writeLoop.simps)
  next
    case False
    obtain count failed w1 where w1: "wr w frame = ((count, failed), w1)" by (metis surj_pair)
    then obtain c where c: "w1 = w @ [c]" "P c" using 1(3) by (metis snd_conv)
    show ?thesis
    proof (cases "(count < 0 \<or> count > int (length frame)) \<or> failed \<or> count = 0")
      case True
      then have "w' = w1" using 1(2) False w1 by (auto simp: writeLoop.simps [of wr frame w] split: if_splits)
      then show ?thesis using c by (intro exI [of _ "[c]"]) simp
    next
      case more: False
      then have "writeLoop wr (drop (nat count) frame) w1 = (r, w')"
        using 1(2) False w1 by (simp add: writeLoop.simps [of wr frame w])
      then have "\<exists>cs. w' = w1 @ cs \<and> (\<forall>c\<in>set cs. P c)"
        using 1(1) [OF False w1 [symmetric] refl _ _ _ _ 1(3)] more by auto
      then obtain cs where "w' = w1 @ cs" "\<forall>c\<in>set cs. P c" by blast
      then show ?thesis using c by (intro exI [of _ "c # cs"]) simp
    qed
  qed
qed

lemma sendFrame_extends: "sendFrame env p m st = (r, st') \<Longrightarrow> extends isSent st st' \<and> ex_incoming st' = ex_incoming st"
proof -
  assume *: "sendFrame env p m st = (r, st')"
  then obtain calls where w: "writeFrame (Some (streamWriter env)) p (int m) (ex_calls st) = (r, calls)"
    and st': "st' = st\<lparr>ex_calls := calls\<rparr>" by (auto simp: sendFrame_def split: prod.splits)
  have "\<forall>w s. \<exists>c. snd (streamWriter env w s) = w @ [c] \<and> isSent c"
    by (simp add: streamWriter_def isSent_def)
  then have "\<exists>cs. calls = ex_calls st @ cs \<and> (\<forall>c\<in>set cs. isSent c)"
    using w writeLoop_calls [of "streamWriter env" isSent "frameBytes p" "ex_calls st" r calls]
    by (auto simp: writeFrame_def split: if_splits)
  then show ?thesis using st' by (simp add: extends_def)
qed

text \<open>What a successful send puts on the stream.\<close>

lemma sendFrame_sent:
  assumes "honest (en_Write env)" and "sendFrame env p m st = (Inr (), st')"
  shows "frameOk (int m) p \<and> sentBytes (ex_calls st') = sentBytes (ex_calls st) @ frameBytes p"
proof -
  obtain calls where w: "writeFrame (Some (streamWriter env)) p (int m) (ex_calls st) = (Inr (), calls)"
    and st': "st' = st\<lparr>ex_calls := calls\<rparr>" using assms(2) by (auto simp: sendFrame_def split: prod.splits)
  from writeFrame_honest [OF streamWriter_honest [OF assms(1)] w] st' show ?thesis by auto
qed

lemma receiveFrame_frame:
  "frameOk (int m) p \<Longrightarrow> ex_incoming st = frameBytes p @ rest \<Longrightarrow>
     receiveFrame m st = (Inr p, st\<lparr>ex_incoming := rest\<rparr>)"
  by (simp add: receiveFrame_def readFrame_frameBytes)

lemma receiveFrame_calls: "receiveFrame m st = (r, st') \<Longrightarrow> ex_calls st' = ex_calls st"
  by (auto simp: receiveFrame_def split: prod.splits)

section \<open>Receiving an artifact\<close>

lemma writeAll_extends:
  assumes "writeAll env s st = (r, st')" shows "extends isStored st st' \<and> ex_incoming st' = ex_incoming st"
proof -
  obtain calls where w: "writeLoop (destinationWriter env) s (ex_calls st) = (r, calls)"
    and st': "st' = st\<lparr>ex_calls := calls\<rparr>" using assms by (auto simp: writeAll_def split: prod.splits)
  have "\<forall>w s. \<exists>c. snd (destinationWriter env w s) = w @ [c] \<and> isStored c"
    by (simp add: destinationWriter_def isStored_def)
  from writeLoop_calls [OF this w] st' show ?thesis by (simp add: extends_def)
qed

lemma writeAll_stored:
  assumes "honest (en_Store env)" and "writeAll env s st = (Inr (), st')"
  shows "storedBytes (ex_calls st') = storedBytes (ex_calls st) @ s"
proof -
  obtain calls where w: "writeLoop (destinationWriter env) s (ex_calls st) = (Inr (), calls)"
    and st': "st' = st\<lparr>ex_calls := calls\<rparr>" using assms(2) by (auto simp: writeAll_def split: prod.splits)
  from writeLoop_honest [OF destinationWriter_honest [OF assms(1)] w] st' show ?thesis by auto
qed

lemma receiveContent_step:
  "receiveContent env h n st =
     (if n \<le> 0 then (Inr h, st)
      else case receiveFrame MaxDataChunkBytes st of
        (Inl e, st') \<Rightarrow> (Inl (WireError ''artifact-content-truncated''), st')
      | (Inr chunk, st') \<Rightarrow>
          if int (length chunk) > n then (Inl (WireError ''artifact-content-overrun''), st')
          else bindS (failS ''artifact-destination-write-failed'' (writeAll env chunk))
                 (\<lambda>_. receiveContent env (hashWrite h chunk) (n - int (length chunk))) st')"
  by (rule receiveContent.simps)

lemma failS_cases: "failS rule m st = (r, st') \<Longrightarrow> \<exists>r'. m st = (r', st') \<and> r = mapErr (\<lambda>_. WireError rule) r'"
  by (cases "m st") (auto simp: failS_def mapErrS_def)

lemma receiveContent_extends:
  "receiveContent env h n st = (r, st') \<Longrightarrow> extends isStored st st'"
proof (induction env h n st arbitrary: r st' rule: receiveContent.induct)
  case (1 env h n st)
  show ?case
  proof (cases "n \<le> 0")
    case True
    then show ?thesis using 1(2) by (simp add: receiveContent_step)
  next
    case False
    obtain c st1 where rc: "receiveFrame MaxDataChunkBytes st = (c, st1)" by fastforce
    have calls: "extends isStored st st1" using receiveFrame_calls [OF rc] by (simp add: extends_def)
    show ?thesis
    proof (cases c)
      case (Inl e)
      then show ?thesis using 1(2) False rc calls by (simp add: receiveContent_step)
    next
      case (Inr chunk)
      show ?thesis
      proof (cases "int (length chunk) > n")
        case True
        then show ?thesis using 1(2) False rc calls Inr by (simp add: receiveContent_step)
      next
        case fits: False
        then have "bindS (failS ''artifact-destination-write-failed'' (writeAll env chunk))
            (\<lambda>_. receiveContent env (hashWrite h chunk) (n - int (length chunk))) st1 = (r, st')"
          using 1(2) False rc Inr by (simp add: receiveContent_step [of env h n st])
        then have "extends isStored st1 st'"
        proof (rule extends_bindS)
          fix a st2 assume "failS ''artifact-destination-write-failed'' (writeAll env chunk) st1 = (a, st2)"
          then show "extends isStored st1 st2" using failS_cases writeAll_extends by blast
        next
          fix a st2
          assume "receiveContent env (hashWrite h chunk) (n - int (length chunk)) st2 = (r, st')"
          then show "extends isStored st2 st'" using 1(1) [OF False rc [symmetric] Inr fits] by blast
        qed
        then show ?thesis using calls extends_trans by blast
      qed
    qed
  qed
qed

lemma receiveContent_ok:
  "honest (en_Store env) \<Longrightarrow> 0 \<le> n \<Longrightarrow> receiveContent env h n st = (Inr h', st') \<Longrightarrow>
     \<exists>d. h' = h @ d \<and> int (length d) = n \<and> storedBytes (ex_calls st') = storedBytes (ex_calls st) @ d"
proof (induction env h n st arbitrary: h' st' rule: receiveContent.induct)
  case (1 env h n st)
  show ?case
  proof (cases "n \<le> 0")
    case True
    then show ?thesis using 1(3,4) by (simp add: receiveContent_step)
  next
    case False
    then obtain chunk st1 where rc: "receiveFrame MaxDataChunkBytes st = (Inr chunk, st1)"
      and fits: "\<not> int (length chunk) > n"
      and rest: "bindS (failS ''artifact-destination-write-failed'' (writeAll env chunk))
          (\<lambda>_. receiveContent env (hashWrite h chunk) (n - int (length chunk))) st1 = (Inr h', st')"
      using 1(4) by (auto simp: receiveContent_step [of env h n st] split: prod.splits sum.splits if_splits)
    then obtain st2 where st2: "writeAll env chunk st1 = (Inr (), st2)"
        "receiveContent env (hashWrite h chunk) (n - int (length chunk)) st2 = (Inr h', st')"
      by (auto simp: result_simps)
    have "0 \<le> n - int (length chunk)" using fits by simp
    from 1(1) [OF False rc [symmetric] refl fits 1(2) this st2(2)]
    obtain d where d: "h' = hashWrite h chunk @ d" "int (length d) = n - int (length chunk)"
        "storedBytes (ex_calls st') = storedBytes (ex_calls st2) @ d" by blast
    have "storedBytes (ex_calls st2) = storedBytes (ex_calls st) @ chunk"
      using writeAll_stored [OF 1(2) st2(1)] receiveFrame_calls [OF rc] by simp
    then show ?thesis using d by (intro exI [of _ "chunk @ d"]) (simp add: hashWrite_def)
  qed
qed

text \<open>A received artifact: opened, filled with the announced bytes, closed.\<close>

definition received :: "ArtifactFile \<Rightarrow> Call list \<Rightarrow> bool" where
  "received f cs \<longleftrightarrow> (\<exists>ds. cs = SinkOpen f # ds @ [DestinationClose] \<and> (\<forall>c\<in>set ds. isStored c)
     \<and> int (length (storedBytes ds)) = af_SizeBytes f \<and> sha256Hex (storedBytes ds) = af_SHA256 f)"

lemma readArtifact_ok:
  assumes "honest (en_Store env)" and "0 \<le> af_SizeBytes f" and "readArtifact env f st = (Inr (), st')"
  shows "\<exists>cs. ex_calls st' = ex_calls st @ cs \<and> received f cs"
proof -
  let ?st = "logCall (SinkOpen f) st"
  obtain h st2 where rc: "receiveContent env emptyHash (af_SizeBytes f) ?st = (Inr h, st2)"
    and hash: "hashSumHex h = af_SHA256 f" and st': "st' = logCall DestinationClose st2"
    using assms(3) unfolding readArtifact_def io_Inr failIf_eq_Inr by auto
  from receiveContent_extends [OF rc] obtain ds where ds: "ex_calls st2 = ex_calls st @ SinkOpen f # ds"
      "\<forall>c\<in>set ds. isStored c" by (auto simp: extends_def)
  from receiveContent_ok [OF assms(1,2) rc] ds(1) hash
  have "int (length (storedBytes ds)) = af_SizeBytes f" "sha256Hex (storedBytes ds) = af_SHA256 f"
    by (auto simp: emptyHash_def hashSumHex_def)
  then show ?thesis using ds st' by (auto simp: received_def)
qed

definition artifactCall :: "Call \<Rightarrow> bool" where
  "artifactCall c \<longleftrightarrow> isStored c \<or> c = DestinationClose \<or> (\<exists>f. c = SinkOpen f)"

lemma readArtifact_extends:
  assumes "readArtifact env f st = (r, st')" shows "extends artifactCall st st'"
proof -
  have log: "extends artifactCall s (logCall c s)" if "artifactCall c" for c s
    using that by (simp add: extends_def)
  show ?thesis
    using assms unfolding readArtifact_def
  proof (rule extends_bindS)
    fix a s1 assume "failS ''artifact-destination-open-failed'' (mapErrS (\<lambda>_. []) (callS env (SinkOpen f))) st = (a, s1)"
    then have "s1 = logCall (SinkOpen f) st" by (rule call_logged)
    then show "extends artifactCall st s1" using log by (simp add: artifactCall_def)
  next
    fix s1
    let ?close = "failS ''artifact-destination-close-failed'' (mapErrS (\<lambda>_. []) (callS env DestinationClose))"
    let ?check = "\<lambda>hasher. liftS (failIf (hashSumHex hasher \<noteq> af_SHA256 f) (WireError ''artifact-digest-mismatch''))"
    let ?m = "bindS (receiveContent env emptyHash (af_SizeBytes f)) (\<lambda>hasher. bindS (?check hasher) (\<lambda>_. ?close))"
    assume "onError env DestinationClose ?m s1 = (r, st')"
    then obtain s2 where m: "?m s1 = (r, s2)" and st': "st' = s2 \<or> st' = logCall DestinationClose s2"
      using onError_cases by (metis (no_types, lifting))
    have "extends artifactCall s1 s2"
    proof (rule extends_bindS [OF m])
      fix a s assume "receiveContent env emptyHash (af_SizeBytes f) s1 = (a, s)"
      then show "extends artifactCall s1 s" using receiveContent_extends extends_mono by (metis artifactCall_def)
    next
      fix h s
      assume "bindS (?check h) (\<lambda>_. ?close) s = (r, s2)"
      then have "s2 = s \<or> s2 = logCall DestinationClose s"
        by (cases "hashSumHex h = af_SHA256 f") (auto simp: bindS_def failS_def mapErrS_def callS_def)
      then show "extends artifactCall s s2" using log [of DestinationClose] by (auto simp: artifactCall_def)
    qed
    then show "extends artifactCall s1 st'" using st' log by (metis artifactCall_def extends_trans)
  qed
qed

section \<open>The artifact transaction\<close>

lemma forS_extends:
  "(\<And>x st r st'. x \<in> set xs \<Longrightarrow> f x st = (r, st') \<Longrightarrow> extends P st st') \<Longrightarrow> forS f xs st = (r, st') \<Longrightarrow>
     extends P st st'"
proof (induction xs arbitrary: st r st')
  case (Cons x xs)
  from Cons.prems(2) have "bindS (f x) (\<lambda>_. forS f xs) st = (r, st')" by simp
  then show ?case
  proof (rule extends_bindS)
    fix a s assume "f x st = (a, s)"
    then show "extends P st s" using Cons.prems(1) [of x st a s] by simp
  next
    fix a s assume rest: "forS f xs s = (r, st')"
    show "extends P s st'" by (rule Cons.IH [OF Cons.prems(1) rest]) simp_all
  qed
qed simp

lemma readArtifacts_ok:
  "honest (en_Store env) \<Longrightarrow> \<forall>f\<in>set fs. 0 \<le> af_SizeBytes f \<Longrightarrow> forS (readArtifact env) fs st = (Inr (), st') \<Longrightarrow>
     \<exists>css. ex_calls st' = ex_calls st @ concat css \<and> list_all2 received fs css"
proof (induction fs arbitrary: st)
  case (Cons f fs)
  then obtain s where s: "readArtifact env f st = (Inr (), s)" "forS (readArtifact env) fs s = (Inr (), st')"
    by (auto simp: bindS_Inr)
  from readArtifact_ok [OF Cons.prems(1) _ s(1)] Cons.prems(2)
  obtain cs where cs: "ex_calls s = ex_calls st @ cs" "received f cs" by auto
  from Cons.IH [OF Cons.prems(1) _ s(2)] Cons.prems(2)
  obtain css where "ex_calls st' = ex_calls s @ concat css" "list_all2 received fs css" by auto
  then show ?case using cs by (intro exI [of _ "cs # css"]) simp
qed simp

definition isTransaction :: "Call \<Rightarrow> bool" where
  "isTransaction c \<longleftrightarrow> c = SinkCommit \<or> c = SinkAbort \<or> (\<exists>fs. c = SinkBegin fs)"

text \<open>How a transaction may go, given whether the response was returned.\<close>

definition transactionEnds :: "bool \<Rightarrow> bool \<Rightarrow> Call list \<Rightarrow> bool" where
  "transactionEnds returned refused ts \<longleftrightarrow>
     ts = []
     \<or> (\<exists>fs. ts = [SinkBegin fs] \<and> \<not> returned \<and> refused)
     \<or> (\<exists>fs. ts = [SinkBegin fs, SinkCommit] \<and> returned)
     \<or> (\<exists>fs. (ts = [SinkBegin fs, SinkAbort] \<or> ts = [SinkBegin fs, SinkCommit, SinkAbort]) \<and> \<not> returned)"

lemma extends_no_transaction:
  assumes "extends P st st'" and "\<And>c. P c \<Longrightarrow> \<not> isTransaction c"
  shows "\<exists>cs. ex_calls st' = ex_calls st @ cs \<and> filter isTransaction cs = []"
  using assms by (fastforce simp: extends_def filter_empty_conv)

lemma plain_calls: "isSent c \<Longrightarrow> \<not> isTransaction c" "artifactCall c \<Longrightarrow> \<not> isTransaction c"
  by (auto simp: isSent_def artifactCall_def isStored_def isTransaction_def)

lemma expectEOF_calls: "expectEOF env st = (r, st') \<Longrightarrow> ex_calls st' = ex_calls st"
  by (auto simp: expectEOF_def split: if_splits)

lemma failS_extends: "failS rule m st = (r, st') \<Longrightarrow> (\<And>a s. m st = (a, s) \<Longrightarrow> extends P st s) \<Longrightarrow> extends P st st'"
  using failS_cases by blast

lemma finishClientExchange_extends:
  assumes "finishClientExchange env st = (r, st')" shows "extends isSent st st'"
  using assms unfolding finishClientExchange_def
proof (rule extends_bindS)
  fix a s assume "failS ''terminal-marker-invalid'' (receiveFrame MaxExchangeMarkerBytes) st = (a, s)"
  then show "extends isSent st s" using receiveFrame_calls by (auto dest!: failS_cases simp: extends_def)
next
  fix t s
  assume "bindS (liftS (failIf (t \<noteq> terminalMarker) (WireError ''terminal-marker-invalid''))) (\<lambda>_.
     bindS (failS ''acknowledgement-write-failed'' (sendFrame env acknowledgementMarker MaxExchangeMarkerBytes)) (\<lambda>_.
     expectEOF env)) s = (r, st')"
  then show "extends isSent s st'"
  proof (rule extends_bindS)
    fix a u assume "liftS (failIf (t \<noteq> terminalMarker) (WireError ''terminal-marker-invalid'')) s = (a, u)"
    then show "extends isSent s u" by simp
  next
    fix u
    assume "bindS (failS ''acknowledgement-write-failed'' (sendFrame env acknowledgementMarker MaxExchangeMarkerBytes))
       (\<lambda>_. expectEOF env) u = (r, st')"
    then show "extends isSent u st'"
    proof (rule extends_bindS)
      fix a v
      assume "failS ''acknowledgement-write-failed'' (sendFrame env acknowledgementMarker MaxExchangeMarkerBytes) u = (a, v)"
      then show "extends isSent u v" using sendFrame_extends by (blast dest: failS_cases)
    next
      fix v assume "expectEOF env v = (r, st')"
      then show "extends isSent v st'" using expectEOF_calls by (simp add: extends_def)
    qed
  qed
qed

lemma filter_append_Nil: "filter P as = [] \<Longrightarrow> filter P (as @ bs) = filter P bs"
  by simp

lemma receiveArtifacts_transaction:
  assumes "\<And>st r st'. finish st = (r, st') \<Longrightarrow> extends isSent st st'"
    and "receiveArtifacts env finish files st = (r, st')"
  shows "\<exists>cs. ex_calls st' = ex_calls st @ cs
      \<and> transactionEnds (isOk r) (\<not> en_Ok env (ex_calls st')) (filter isTransaction cs)"
proof -
  consider "files = []" | "files \<noteq> []" "\<not> en_Sink env" | "files \<noteq> []" "en_Sink env" by blast
  then show ?thesis
  proof cases
    case 1
    then have "finish st = (r, st')" using assms(2) by (simp add: receiveArtifacts_def)
    from extends_no_transaction [OF assms(1) [OF this] plain_calls(1)]
    show ?thesis by (auto simp: transactionEnds_def)
  next
    case 2
    then show ?thesis using assms(2) by (auto simp: receiveArtifacts_def transactionEnds_def)
  next
    case 3
    let ?start = "failS ''artifact-transaction-begin-failed'' (mapErrS (\<lambda>_. []) (callS env (SinkBegin files)))"
    let ?commit = "failS ''artifact-transaction-commit-failed'' (mapErrS (\<lambda>_. []) (callS env SinkCommit))"
    let ?body = "bindS (forS (readArtifact env) files) (\<lambda>_. bindS finish (\<lambda>_. ?commit))"
    let ?s1 = "logCall (SinkBegin files) st"
    have all: "bindS ?start (\<lambda>_. onError env SinkAbort ?body) st = (r, st')"
      using assms(2) 3 by (simp add: receiveArtifacts_def)
    show ?thesis
    proof (cases "en_Ok env (ex_calls st @ [SinkBegin files])")
      case False
      then have "(\<exists>e. r = Inl e) \<and> st' = ?s1"
        using all by (auto simp: bindS_def failS_def mapErrS_def callS_def)
      then show ?thesis
        using False by (intro exI [of _ "[SinkBegin files]"]) (auto simp: transactionEnds_def isTransaction_def)
    next
      case True
      then have "onError env SinkAbort ?body ?s1 = (r, st')"
        using all by (auto simp: bindS_def failS_def mapErrS_def callS_def)
      then obtain s2 where body: "?body ?s1 = (r, s2)" and st': "if isOk r then st' = s2 else st' = logCall SinkAbort s2"
        using onError_cases by (metis (no_types, lifting))
      have "\<exists>cs. ex_calls s2 = ex_calls ?s1 @ cs \<and> (filter isTransaction cs = [] \<and> \<not> isOk r
          \<or> filter isTransaction cs = [SinkCommit])"
      proof -
        obtain a s3 where files: "forS (readArtifact env) files ?s1 = (a, s3)" by fastforce
        have "extends artifactCall ?s1 s3" by (rule forS_extends [OF readArtifact_extends files])
        then obtain c1 where c1: "ex_calls s3 = ex_calls ?s1 @ c1" "filter isTransaction c1 = []"
          using extends_no_transaction plain_calls(2) by blast
        show ?thesis
        proof (cases a)
          case (Inl e)
          then have "r = Inl e \<and> s2 = s3" using body files by simp
          then show ?thesis using c1 by (intro exI [of _ c1]) simp
        next
          case (Inr u)
          then have rest: "bindS finish (\<lambda>_. ?commit) s3 = (r, s2)" using body files by simp
          obtain b s4 where fin: "finish s3 = (b, s4)" by fastforce
          from extends_no_transaction [OF assms(1) [OF fin] plain_calls(1)]
          obtain c2 where c2: "ex_calls s4 = ex_calls s3 @ c2" "filter isTransaction c2 = []" by blast
          show ?thesis
          proof (cases b)
            case (Inl e)
            then have "r = Inl e \<and> s2 = s4" using rest fin by simp
            then show ?thesis using c1 c2 by (intro exI [of _ "c1 @ c2"]) simp
          next
            case (Inr u)
            then have "s2 = logCall SinkCommit s4" using rest fin call_logged by simp
            then show ?thesis using c1 c2 by (intro exI [of _ "c1 @ c2 @ [SinkCommit]"]) (simp add: isTransaction_def)
          qed
        qed
      qed
      then obtain cs where cs: "ex_calls s2 = ex_calls ?s1 @ cs"
          "filter isTransaction cs = [] \<and> \<not> isOk r \<or> filter isTransaction cs = [SinkCommit]" by blast
      show ?thesis
      proof (cases "isOk r")
        case True
        then show ?thesis using cs st'
          by (intro exI [of _ "SinkBegin files # cs"]) (auto simp: transactionEnds_def isTransaction_def)
      next
        case False
        then show ?thesis using cs st'
          by (intro exI [of _ "SinkBegin files # cs @ [SinkAbort]"]) (auto simp: transactionEnds_def isTransaction_def)
      qed
    qed
  qed
qed

section \<open>A whole response\<close>

lemma readChunks_ok:
  "readChunks c n st = (r, st') \<Longrightarrow> ex_calls st' = ex_calls st
     \<and> (\<forall>c'. r = Inr c' \<longrightarrow> (\<exists>d. c' = c @ d \<and> length d = n))"
proof (induction c n st arbitrary: r st' rule: readChunks.induct)
  case (1 c n st)
  show ?case
  proof (cases "n = 0")
    case True
    then show ?thesis using 1(2) by (auto simp: readChunks.simps)
  next
    case False
    obtain a s1 where rc: "receiveFrame MaxDataChunkBytes st = (a, s1)" by fastforce
    note calls = receiveFrame_calls [OF rc]
    show ?thesis
    proof (cases a)
      case (Inl e)
      then show ?thesis using 1(2) False rc calls by (auto simp: readChunks.simps [of c n st])
    next
      case (Inr chunk)
      show ?thesis
      proof (cases "length chunk > n")
        case True
        then show ?thesis using 1(2) False rc calls Inr by (auto simp: readChunks.simps [of c n st])
      next
        case fits: False
        then have "readChunks (c @ chunk) (n - length chunk) s1 = (r, st')"
          using 1(2) False rc Inr by (simp add: readChunks.simps [of c n st])
        from 1(1) [OF False rc [symmetric] Inr fits this] calls fits show ?thesis by fastforce
      qed
    qed
  qed
qed

lemma readBytes_ok:
  "readBytes n st = (r, st') \<Longrightarrow> ex_calls st' = ex_calls st \<and> (\<forall>c. r = Inr c \<longrightarrow> int (length c) = n)"
  using readChunks_ok [of "[]" "nat n" st r st'] by (auto simp: readBytes_def split: if_splits)

lemma finishClientExchange_ok:
  assumes "finishClientExchange env st = (Inr (), st')"
  shows "ex_incoming st' = [] \<and> en_EOF env \<and> extends isSent st st'"
  using finishClientExchange_extends [OF assms] assms
  unfolding finishClientExchange_def io_Inr by (auto simp: expectEOF_def split: if_splits)

lemma report_files_ok:
  "ValidateExecutionReport r = Inr () \<Longrightarrow> f \<in> set (sl (am_Files (er_Artifacts r))) \<Longrightarrow> fileOk f"
  by (auto simp: ValidateExecutionReport_ok validateArtifactManifest_ok)

text \<open>What a returned response means for the calls the client made.\<close>

definition committed :: "ArtifactFile list \<Rightarrow> Call list \<Rightarrow> bool" where
  "committed files cs \<longleftrightarrow> (if files = [] then \<forall>c\<in>set cs. isSent c
     else \<exists>css ack. cs = SinkBegin files # concat css @ ack @ [SinkCommit]
       \<and> list_all2 received files css \<and> (\<forall>c\<in>set ack. isSent c))"

lemma receiveArtifacts_ok:
  assumes "honest (en_Store env)" and "\<forall>f\<in>set files. 0 \<le> af_SizeBytes f"
    and "receiveArtifacts env (finishClientExchange env) files st = (Inr (), st')"
  shows "ex_incoming st' = [] \<and> en_EOF env \<and> (\<exists>cs. ex_calls st' = ex_calls st @ cs \<and> committed files cs)"
proof (cases "files = []")
  case True
  then show ?thesis using assms(3) finishClientExchange_ok
    by (fastforce simp: receiveArtifacts_def committed_def extends_def)
next
  case False
  then obtain s2 s3 where s: "forS (readArtifact env) files (logCall (SinkBegin files) st) = (Inr (), s2)"
      "finishClientExchange env s2 = (Inr (), s3)" "st' = logCall SinkCommit s3"
    using assms(3) by (auto simp: receiveArtifacts_def io_Inr split: if_splits)
  from readArtifacts_ok [OF assms(1,2) s(1)] obtain css where
    css: "ex_calls s2 = ex_calls st @ SinkBegin files # concat css" "list_all2 received files css" by auto
  from finishClientExchange_ok [OF s(2)] obtain ack where
    ack: "ex_calls s3 = ex_calls s2 @ ack" "\<forall>c\<in>set ack. isSent c" "ex_incoming s3 = []" "en_EOF env"
    by (auto simp: extends_def)
  have "committed files (SinkBegin files # concat css @ ack @ [SinkCommit])"
    using css(2) ack(2) False by (auto simp: committed_def)
  then show ?thesis using css ack s(3)
    by (intro conjI exI [of _ "SinkBegin files # concat css @ ack @ [SinkCommit]"]) auto
qed

lemma reads_quiet [simp]:
  "ex_calls (snd (receiveFrame m st)) = ex_calls st" "ex_calls (snd (readBytes n st)) = ex_calls st"
  using receiveFrame_calls [of m st] readBytes_ok [of n st] by (simp_all add: prod_eq_iff)

lemma readOutput_ok:
  "readOutput preamble st = (r, st') \<Longrightarrow> ex_calls st' = ex_calls st"
  by (auto simp: readOutput_def bindS_def failS_def mapErrS_def split: prod.splits sum.splits)

lemma readOutput_valid:
  assumes "readOutput preamble st = (Inr resp, st')"
  shows "ValidateExecutionReport (rp_Report resp) = Inr ()
    \<and> int (length (rp_Stdout resp)) = om_RetainedBytes (er_Stdout (rp_Report resp))
    \<and> int (length (rp_Stderr resp)) = om_RetainedBytes (er_Stderr (rp_Report resp))"
  using assms unfolding readOutput_def io_Inr
  by (auto dest!: readBytes_ok simp: DecodeExecutionReport_ok)

lemma readResponse_ok:
  assumes "honest (en_Store env)" and "ReadResponseExchange (Some env) st = (Inr resp, st')"
  shows "ValidateExecutionReport (rp_Report resp) = Inr ()
    \<and> int (length (rp_Stdout resp)) = om_RetainedBytes (er_Stdout (rp_Report resp))
    \<and> int (length (rp_Stderr resp)) = om_RetainedBytes (er_Stderr (rp_Report resp))
    \<and> ex_incoming st' = [] \<and> en_EOF env
    \<and> (\<exists>cs. ex_calls st' = ex_calls st @ cs \<and> committed (sl (am_Files (er_Artifacts (rp_Report resp)))) cs)"
proof -
  obtain p s1 preamble s2 where s: "receiveFrame MaxPreambleBytes st = (Inr p, s1)"
      "readOutput preamble s1 = (Inr resp, s2)"
      "receiveArtifacts env (finishClientExchange env) (sl (am_Files (er_Artifacts (rp_Report resp)))) s2 = (Inr (), st')"
    using assms(2) unfolding ReadResponseExchange_def readResponse_def option.case io_Inr
    by (auto simp: io_Inr split: if_splits)
  note valid = readOutput_valid [OF s(2)]
  have "\<forall>f\<in>set (sl (am_Files (er_Artifacts (rp_Report resp)))). 0 \<le> af_SizeBytes f"
    using report_files_ok valid by (auto simp: fileOk_def)
  from receiveArtifacts_ok [OF assms(1) this s(3)] valid readOutput_ok [OF s(2)] receiveFrame_calls [OF s(1)]
  show ?thesis by simp
qed

text \<open>However a response ends, its artifact transaction was refused, committed or aborted.\<close>

lemma readResponse_transaction:
  assumes "ReadResponseExchange (Some env) st = (r, st')"
  shows "\<exists>cs. ex_calls st' = ex_calls st @ cs
      \<and> transactionEnds (isOk r) (\<not> en_Ok env (ex_calls st')) (filter isTransaction cs)"
proof -
  have none: ?thesis if "ex_calls st' = ex_calls st"
    using that by (intro exI [of _ "[]"]) (simp add: transactionEnds_def)
  obtain a s1 where s1: "receiveFrame MaxPreambleBytes st = (a, s1)" by fastforce
  note calls1 = receiveFrame_calls [OF s1]
  show ?thesis
  proof (cases a)
    case (Inl e)
    then have "st' = s1" using assms s1
      by (simp add: ReadResponseExchange_def readResponse_def bindS_def failS_def mapErrS_def)
    then show ?thesis using none calls1 by simp
  next
    case (Inr p)
    note p = this
    show ?thesis
    proof (cases "DecodePreamble (en_Pick env) p")
      case (Inl e)
      then have "st' = s1" using assms s1 p
        by (simp add: ReadResponseExchange_def readResponse_def bindS_def failS_def mapErrS_def)
      then show ?thesis using none calls1 by simp
    next
      case (Inr preamble)
      note pre = this
      show ?thesis
      proof (cases "pb_Outcome preamble = OutcomeRejected")
        case True
        then obtain b where "finishClientExchange env s1 = (b, st')" "\<not> isOk r"
          using assms s1 p pre
          by (auto simp: ReadResponseExchange_def readResponse_def bindS_def failS_def mapErrS_def
              split: prod.splits sum.splits)
        from extends_no_transaction [OF finishClientExchange_extends [OF this(1)] plain_calls(1)] calls1
        show ?thesis by (auto simp: transactionEnds_def)
      next
        case False
        obtain b s2 where s2: "readOutput preamble s1 = (b, s2)" by fastforce
        note calls2 = readOutput_ok [OF s2]
        show ?thesis
        proof (cases b)
          case (Inl e)
          then have "st' = s2" using assms s1 p pre False s2
            by (simp add: ReadResponseExchange_def readResponse_def bindS_def failS_def mapErrS_def)
          then show ?thesis using none calls1 calls2 by simp
        next
          case (Inr resp)
          let ?files = "sl (am_Files (er_Artifacts (rp_Report resp)))"
          obtain c s3 where s3: "receiveArtifacts env (finishClientExchange env) ?files s2 = (c, s3)" by fastforce
          have r: "st' = s3 \<and> isOk r = isOk c"
            using assms s1 p pre False s2 Inr s3
            by (cases c) (auto simp: ReadResponseExchange_def readResponse_def bindS_def failS_def mapErrS_def)
          from receiveArtifacts_transaction [OF finishClientExchange_extends s3] show ?thesis
            using r calls1 calls2 by auto
        qed
      qed
    qed
  qed
qed

end
