(* ===== verification/Wire_Delivery.thy ===== *)
theory Wire_Delivery
  imports Wire_Facts
begin

text \<open>
  The broker's side of an exchange and its composition with the client's: a valid report can be
  written, what the broker puts on the stream, and what a client makes of exactly those bytes.
\<close>

section \<open>Every valid report can be written\<close>

lemma isASCII_append [simp]: "isASCII (a @ b) \<longleftrightarrow> isASCII a \<and> isASCII b"
  and isASCII_Cons [simp]: "isASCII (c # a) \<longleftrightarrow> byte c < 128 \<and> isASCII a"
  and isASCII_Nil [simp]: "isASCII []"
  by (simp_all add: isASCII_def)

lemma digits_ASCII: "list_all isDigit s \<Longrightarrow> isASCII s"
  by (auto simp: isASCII_def list_all_iff isDigit_def inRange_def)

lemma appendInt_ASCII: "isASCII (appendInt n w)"
  by (simp add: appendInt_def digits_ASCII padZeros_digits decimal_digits)

lemma fractionOf_ASCII: "isASCII (fractionOf ns)"
proof -
  have "list_all isDigit (rev (dropWhile P (rev s)))" if "list_all isDigit s" for P s
    using that set_dropWhileD by (fastforce simp: list_all_iff)
  then show ?thesis by (simp add: fractionOf_def digits_ASCII padZeros_digits decimal_digits)
qed

lemma formatRFC3339Nano_ASCII: "isASCII (formatRFC3339Nano t)"
  by (simp add: formatRFC3339Nano_def Let_def appendInt_ASCII fractionOf_ASCII split: prod.splits)

lemma timestamp_valid: "validateCanonicalUTCTimestamp field v = Inr t \<Longrightarrow> validString v"
  using formatRFC3339Nano_ASCII [of t] validString_ascii
  by (auto simp: validateCanonicalUTCTimestamp_def split: option.splits if_splits)

lemma isLowerHex_valid: "isLowerHex n s \<Longrightarrow> validString s"
  by (rule validString_ascii)
    (auto simp: isLowerHex_def isASCII_def list_all_iff isLowerHexChar_def isDigit_def inRange_def)

lemma validGroup_valid: "validGroup g \<Longrightarrow> validString g"
  by (simp add: validGroup_def identifier_valid)

lemma report_table_valid:
  "t \<in> set supportedCommandStatuses \<or> t \<in> set supportedArtifactStatuses \<or> t \<in> set supportedArtifactOmissionReasons
     \<Longrightarrow> validString t"
proof -
  have "list_all isASCII (supportedCommandStatuses @ supportedArtifactStatuses @ supportedArtifactOmissionReasons)"
    by code_simp
  then show "t \<in> set supportedCommandStatuses \<or> t \<in> set supportedArtifactStatuses
      \<or> t \<in> set supportedArtifactOmissionReasons \<Longrightarrow> validString t"
    using validString_ascii by (auto simp: list_all_iff)
qed

lemma outcome_wire:
  assumes "validateCommandOutcome status code = Inr ()"
  shows "validString status \<and> (\<forall>c. code = Some c \<longrightarrow> isInt64 c)"
  using assms report_table_valid
  by (auto simp: validateCommandOutcome_def isInt64_def minInt64_def maxInt64_def split: if_splits option.splits)

lemma output_wire:
  assumes "outputOk out" and "isInt64 (om_TotalBytes out)"
  shows "wireJson outputKind (outputJson out)"
proof -
  have "isInt64 (om_RetainedBytes out)" "validString (om_SHA256 out)"
    using assms isLowerHex_valid by (auto simp: outputOk_def isInt64_def minInt64_def maxInt64_def MaxOutputBytes_def)
  then show ?thesis using assms(2)
    by (simp add: wireJson_def outputKind_def outputJson_def validString_ascii del: validString.simps)
qed

lemma manifest_wire:
  assumes "validateArtifactManifest m = Inr ()"
  shows "wireJson manifestKind (manifestJson m)"
proof -
  obtain fs os where m: "am_Files m = Some fs" "am_Omissions m = Some os" "validString (am_Status m)"
      "\<forall>f\<in>set fs. fileOk f" "\<forall>x\<in>set os. omissionOk x"
    using assms report_table_valid by (auto simp: validateArtifactManifest_ok)
  have files: "validString (af_Group f) \<and> validString (af_Path f) \<and> validString (af_SHA256 f) \<and> isInt64 (af_SizeBytes f)"
    if "f \<in> set fs" for f
    using m(4) that validGroup_valid isLowerHex_valid
    by (fastforce simp: fileOk_def validateArtifactFilePath_def validateRelativeArtifactPath_ok isInt64_def minInt64_def
        maxInt64_def MaxArtifactFileBytes_def)
  have omission: "validString (ao_Group x) \<and> validString (ao_Pattern x) \<and> validString (ao_Reason x)"
    if "x \<in> set os" for x
    using m(5) that validGroup_valid report_table_valid
    by (fastforce simp: omissionOk_def validateArtifactOmissionPattern_def validateRelativeArtifactPath_ok)
  show ?thesis
    using m(1-3) files omission
    by (auto simp: wireJson_def manifestKind_def manifestJson_def fileKind_def omissionKind_def jsonSlice_def
        validString_ascii simp del: validString.simps)
qed

lemma milliseconds_int64: "isInt64 (milliseconds (subTime a b))"
proof -
  have range: "minInt64 \<le> subTime a b" "subTime a b \<le> maxInt64" by (auto simp: subTime_def minInt64_def maxInt64_def)
  have "\<bar>subTime a b\<bar> div 1000000 \<le> 9223372036854775807"
  proof -
    have "\<bar>subTime a b\<bar> \<le> 9223372036854775808" using range by (auto simp: minInt64_def maxInt64_def)
    then have "\<bar>subTime a b\<bar> div 1000000 \<le> 9223372036854775808 div 1000000" by (rule zdiv_mono1) simp
    then show ?thesis by simp
  qed
  moreover have "0 \<le> \<bar>subTime a b\<bar> div 1000000" by simp
  ultimately show ?thesis by (auto simp: milliseconds_def isInt64_def minInt64_def maxInt64_def sgn_if)
qed

text \<open>The counts of bytes are \<open>int64\<close>; every other field of a valid report is bounded by its checks.\<close>

lemma report_wire:
  assumes "ValidateExecutionReport r = Inr ()"
    and "isInt64 (om_TotalBytes (er_Stdout r))" and "isInt64 (om_TotalBytes (er_Stderr r))"
  shows "wireJson (KStruct reportFields) (reportJson r)"
proof -
  note valid = assms(1) [unfolded ValidateExecutionReport_ok]
  have strs: "validString (er_RequestID r)" "validString (er_RequestDigest r)" "validString (er_AttemptID r)"
    "validString (er_GatewaySourceSHA r)" "validString (er_StartedAt r)" "validString (er_FinishedAt r)"
    "validString (er_CommandStatus r)"
    using valid identifier_valid isLowerHex_valid timestamp_valid outcome_wire by blast+
  have numbers: "er_ProtocolVersion r = 1" "isInt64 (er_DurationMilliseconds r)"
    using valid milliseconds_int64 by (auto simp: Version_def)
  have parts: "wireJson outputKind (outputJson (er_Stdout r))" "wireJson outputKind (outputJson (er_Stderr r))"
    "wireJson manifestKind (manifestJson (er_Artifacts r))"
    using valid assms(2,3) output_wire manifest_wire by blast+
  have code: "wireJson (KPointer KInt64) (jsonPointer JInt (er_ExitCode r))"
    using valid outcome_wire by (auto simp: wireJson_def jsonPointer_def split: option.splits)
  show ?thesis
    using strs numbers parts code
    by (simp add: wireJson_def reportFields_def reportJson_def reportMembers_def validString_ascii del: validString.simps)
qed

section \<open>Preambles\<close>

lemma preamble_read: "preambleOf (preambleJson p) = p"
  by (cases p) (simp add: preambleOf_def preambleJson_def)

lemma preamble_back:
  assumes "matches preambleKind j" and "validJson j"
  shows "wireJson preambleKind (preambleJson (preambleOf j))"
  unfolding preambleKind_def preambleJson_def preambleOf_def
  by (rule wireJson_struct [of _ j])
    (use assms in \<open>simp_all add: preambleKind_def wireJson_rules del: matches.simps\<close>)

interpretation preamble_codec: codec preambleKind preambleJson preambleOf
proof
  show "\<exists>fields. preambleKind = KStruct fields" by (simp add: preambleKind_def)
  show "kindDepth preambleKind \<le> maxNestingDepth" by (simp add: preambleKind_def kind_defs)
qed (simp_all only: preamble_read preamble_back)

lemma preamble_wire:
  assumes "ValidatePreamble p = Inr ()"
  shows "wireJson preambleKind (preambleJson p)"
proof -
  have "list_all isASCII (supportedFailures @ [OutcomeExecution, OutcomeRejected])" by code_simp
  then have tables: "pb_Failure p \<in> set supportedFailures \<Longrightarrow> validString (pb_Failure p)"
      "validString OutcomeExecution" "validString OutcomeRejected"
    using validString_ascii by (auto simp: list_all_iff)
  have digests: "validString (pb_StdoutRetainedSHA256 p) \<and> validString (pb_StderrRetainedSHA256 p)"
  proof (cases "pb_Outcome p = OutcomeExecution")
    case True
    then show ?thesis using assms isLowerHex_valid by (auto simp: ValidatePreamble_def lowerHexDigest_def)
  next
    case False
    then show ?thesis using assms by (auto simp: ValidatePreamble_def split: if_splits)
  qed
  have "validString (pb_Outcome p)" "pb_ProtocolVersion p = 1" "validString (pb_Failure p)"
    using assms tables by (auto simp: ValidatePreamble_def WireCurrentVersion_def split: if_splits)
  then show ?thesis using digests
    by (simp add: wireJson_def preambleKind_def preambleJson_def validString_ascii del: validString.simps)
qed

lemma DecodePreamble_ok:
  "DecodePreamble pick s = Inr p \<longleftrightarrow>
     (\<exists>j. accepts preambleKind MaxPreambleBytes s j \<and> p = preambleOf j \<and> ValidatePreamble p = Inr ())"
  by (auto simp: DecodePreamble_def bindR_eq_Inr preamble_codec.object_ok)

lemma preamble_written:
  "MarshalCanonicalPreamble p = Inr s \<Longrightarrow> DecodePreamble pick s = Inr p"
  using preamble_wire [of p] preamble_codec.written [of p MaxPreambleBytes] preamble_read [of p]
  by (auto simp: MarshalCanonicalPreamble_def bindR_eq_Inr DecodePreamble_ok split: if_splits)

section \<open>What the broker sends\<close>

text \<open>Content in data frames: any division into frames within the limit of a chunk.\<close>

definition framed :: "string \<Rightarrow> string \<Rightarrow> bool" where
  "framed content bytes \<longleftrightarrow> (\<exists>ps. content = concat ps \<and> bytes = concat (map frameBytes ps)
     \<and> (\<forall>p\<in>set ps. frameOk (int MaxDataChunkBytes) p))"

lemma framed_Nil [simp]: "framed [] []"
  unfolding framed_def by (intro exI [of _ "[]"]) simp

lemma framed_Cons: "frameOk (int MaxDataChunkBytes) p \<Longrightarrow> framed c b \<Longrightarrow> framed (p @ c) (frameBytes p @ b)"
  unfolding framed_def by (elim exE conjE) (rule_tac x = "p # ps" in exI, simp)

definition sends :: "Exchange \<Rightarrow> Exchange \<Rightarrow> string \<Rightarrow> bool" where
  "sends st st' b \<longleftrightarrow> sentBytes (ex_calls st') = sentBytes (ex_calls st) @ b"

lemma sends_trans: "sends st st' a \<Longrightarrow> sends st' st'' b \<Longrightarrow> sends st st'' (a @ b)"
  by (simp add: sends_def)

lemma writeBytes_ok:
  "honest (en_Write env) \<Longrightarrow> writeBytes env content st = (Inr (), st') \<Longrightarrow> \<exists>b. framed content b \<and> sends st st' b"
proof (induction env content st arbitrary: st' rule: writeBytes.induct)
  case (1 env content st)
  show ?case
  proof (cases "content = []")
    case True
    then have "st' = st" using 1(3) by (simp add: writeBytes.simps)
    then show ?thesis using True by (intro exI [of _ "[]"]) (simp add: sends_def)
  next
    case False
    then obtain s where s: "sendFrame env (take MaxDataChunkBytes content) MaxDataChunkBytes st = (Inr (), s)"
        "writeBytes env (drop MaxDataChunkBytes content) s = (Inr (), st')"
      using 1(3) by (auto simp: writeBytes.simps [of env content st] bindS_Inr)
    from sendFrame_sent [OF 1(2) s(1)]
    have "frameOk (int MaxDataChunkBytes) (take MaxDataChunkBytes content)"
      "sends st s (frameBytes (take MaxDataChunkBytes content))" by (simp_all add: sends_def)
    moreover from 1(1) [OF False 1(2) s(2)]
    obtain b where "framed (drop MaxDataChunkBytes content) b" "sends s st' b" by blast
    ultimately show ?thesis
      using framed_Cons sends_trans by (metis append_take_drop_id)
  qed
qed

lemma sendContent_ok:
  "honest (en_Write env) \<Longrightarrow> sendContent env content h n st = (Inr (rest, h'), st') \<Longrightarrow>
     \<exists>d b. content = d @ rest \<and> h' = h @ d \<and> int (length d) = max 0 n \<and> framed d b \<and> sends st st' b"
proof (induction env content h n st arbitrary: st' rule: sendContent.induct)
  case (1 env content h n st)
  show ?case
  proof (cases "n \<le> 0")
    case True
    then have "rest = content" "h' = h" "st' = st" using 1(3) by (simp_all add: sendContent.simps)
    then show ?thesis using True by (intro exI [of _ "[]"]) (simp add: sends_def)
  next
    case False
    let ?want = "if n < int MaxDataChunkBytes then n else int MaxDataChunkBytes"
    obtain chunk more s where s: "readFull (nat ?want) content = (Some chunk, more)"
        "sendFrame env chunk MaxDataChunkBytes st = (Inr (), s)"
        "sendContent env more (hashWrite h chunk) (n - ?want) s = (Inr (rest, h'), st')"
      using 1(3) False unfolding sendContent.simps [of env content h n st] Let_def
      by (auto simp: io_Inr split: prod.splits option.splits)
    have chunk: "content = chunk @ more" "length chunk = nat ?want"
      using s(1) by (auto simp: readFull_def split: if_splits)
    from sendFrame_sent [OF 1(2) s(2)] have sent: "frameOk (int MaxDataChunkBytes) chunk" "sends st s (frameBytes chunk)"
      by (simp_all add: sends_def)
    from 1(1) [OF False refl s(1) [symmetric] refl 1(2) s(3)]
    obtain d b where d: "more = d @ rest" "h' = hashWrite h chunk @ d" "int (length d) = max 0 (n - ?want)"
        "framed d b" "sends s st' b" by blast
    have "int (length (chunk @ d)) = max 0 n" using d(3) chunk(2) False by (auto simp: MaxDataChunkBytes_def)
    then show ?thesis
      using chunk d framed_Cons [OF sent(1) d(4)] sends_trans [OF sent(2) d(5)]
      by (intro exI [of _ "chunk @ d"] exI [of _ "frameBytes chunk @ b"]) (simp add: hashWrite_def)
  qed
qed

text \<open>An artifact goes out whole: the content of its reader up to EOF, of the announced size and digest.\<close>

definition artifactSent :: "Bundle \<Rightarrow> ArtifactFile \<Rightarrow> string \<Rightarrow> string \<Rightarrow> bool" where
  "artifactSent bundle f content b \<longleftrightarrow> bundle (af_Group f) (af_Path f) = Some (content, True)
     \<and> int (length content) = af_SizeBytes f \<and> sha256Hex content = af_SHA256 f \<and> framed content b"

lemma sends_logCall [simp]: "\<not> isSent c \<Longrightarrow> sends st (logCall c s) b \<longleftrightarrow> sends st s b"
  "\<not> isSent c \<Longrightarrow> sends (logCall c st) s b \<longleftrightarrow> sends st s b"
  by (auto simp: sends_def isSent_def split: Call.splits)

lemma writeArtifact_ok:
  assumes "honest (en_Write env)" and "0 \<le> af_SizeBytes f" and "writeArtifact env bundle f st = (Inr (), st')"
  shows "\<exists>content b. artifactSent bundle f content b \<and> sends st st' b"
proof -
  obtain content eof where r: "bundle (af_Group f) (af_Path f) = Some (content, eof)"
    using assms(3) by (auto simp: writeArtifact_def Let_def split: option.splits)
  let ?s = "logCall (BundleOpen (af_Group f) (af_Path f)) st"
  obtain rest h s2 where s: "sendContent env content emptyHash (af_SizeBytes f) ?s = (Inr (rest, h), s2)"
      "rest = []" "eof" "hashSumHex h = af_SHA256 f" "st' = logCall ReaderClose s2"
    using assms(3) r unfolding writeArtifact_def Let_def by (auto simp: io_Inr)
  from sendContent_ok [OF assms(1) s(1)] assms(2) s(2)
  obtain b where "content = h" "int (length content) = af_SizeBytes f" "framed content b" "sends ?s s2 b"
    by (auto simp: emptyHash_def)
  then show ?thesis using r s
    by (intro exI [of _ content] exI [of _ b]) (simp add: artifactSent_def hashSumHex_def isSent_def)
qed

lemma writeArtifacts_ok:
  "honest (en_Write env) \<Longrightarrow> \<forall>f\<in>set fs. 0 \<le> af_SizeBytes f \<Longrightarrow> forS (writeArtifact env bundle) fs st = (Inr (), st') \<Longrightarrow>
     \<exists>contents bs. list_all2 (\<lambda>f (c, b). artifactSent bundle f c b) fs (zip contents bs)
       \<and> length contents = length fs \<and> length bs = length fs \<and> sends st st' (concat bs)"
proof (induction fs arbitrary: st)
  case Nil
  then show ?case by (auto simp: sends_def)
next
  case (Cons f fs)
  then obtain s where s: "writeArtifact env bundle f st = (Inr (), s)" "forS (writeArtifact env bundle) fs s = (Inr (), st')"
    by (auto simp: bindS_Inr)
  from writeArtifact_ok [OF Cons.prems(1) _ s(1)] Cons.prems(2)
  obtain c b where cb: "artifactSent bundle f c b" "sends st s b" by auto
  from Cons.IH [OF Cons.prems(1) _ s(2)] Cons.prems(2)
  obtain cs bs where "list_all2 (\<lambda>f (c, b). artifactSent bundle f c b) fs (zip cs bs)"
      "length cs = length fs" "length bs = length fs" "sends s st' (concat bs)" by auto
  then show ?case using cb sends_trans [OF cb(2)]
    by (intro exI [of _ "c # cs"] exI [of _ "b # bs"]) simp
qed

end
