(* ===== verification/Wire_Exchange.thy ===== *)
theory Wire_Exchange
  imports Wire_Delivery
begin

text \<open>
  The two ends together: the bytes of a successful response, and a client whose stream and sink
  accept what they are given reads them back to the report, the output and the artifacts.
\<close>

section \<open>The bytes of a response\<close>

definition executionPreamble :: "Bundle Output \<Rightarrow> Preamble" where
  "executionPreamble output =
     \<lparr>pb_ProtocolVersion = WireCurrentVersion, pb_Outcome = OutcomeExecution, pb_Failure = FailureNone,
      pb_StdoutRetainedSHA256 = digestBytes (ot_Stdout output),
      pb_StderrRetainedSHA256 = digestBytes (ot_Stderr output)\<rparr>"

definition outputFiles :: "Bundle Output \<Rightarrow> ArtifactFile list" where
  "outputFiles output = sl (am_Files (er_Artifacts (ot_Report output)))"

definition outputBundle :: "Bundle Output \<Rightarrow> Bundle" where
  "outputBundle output = (case ot_ArtifactBundle output of None \<Rightarrow> \<lambda>_ _. None | Some b \<Rightarrow> b)"

definition artifactsSent :: "Bundle \<Rightarrow> ArtifactFile list \<Rightarrow> string list \<Rightarrow> string list \<Rightarrow> bool" where
  "artifactsSent bundle files contents bs \<longleftrightarrow> length contents = length files \<and> length bs = length files
     \<and> list_all2 (\<lambda>f (c, b). artifactSent bundle f c b) files (zip contents bs)"

definition responseBytes :: "Bundle Output \<Rightarrow> string list \<Rightarrow> string \<Rightarrow> bool" where
  "responseBytes output contents b \<longleftrightarrow> validateOutput output = Inr () \<and>
     (\<exists>preamble report out err bs. MarshalCanonicalPreamble (executionPreamble output) = Inr preamble
       \<and> MarshalCanonicalExecutionReport (ot_Report output) = Inr report
       \<and> framed (ot_Stdout output) out \<and> framed (ot_Stderr output) err
       \<and> artifactsSent (outputBundle output) (outputFiles output) contents bs
       \<and> frameOk (int MaxPreambleBytes) preamble \<and> frameOk (int MaxExecutionReportBytes) report
       \<and> b = frameBytes preamble @ frameBytes report @ out @ err @ concat bs)"

lemma validateOutput_ok:
  "validateOutput output = Inr () \<longleftrightarrow> ValidateExecutionReport (ot_Report output) = Inr ()
     \<and> int (length (ot_Stdout output)) = om_RetainedBytes (er_Stdout (ot_Report output))
     \<and> int (length (ot_Stderr output)) = om_RetainedBytes (er_Stderr (ot_Report output))
     \<and> (\<not> om_Truncated (er_Stdout (ot_Report output)) \<longrightarrow> digestBytes (ot_Stdout output) = om_SHA256 (er_Stdout (ot_Report output)))
     \<and> (\<not> om_Truncated (er_Stderr (ot_Report output)) \<longrightarrow> digestBytes (ot_Stderr output) = om_SHA256 (er_Stderr (ot_Report output)))
     \<and> (outputFiles output = [] \<longleftrightarrow> ot_ArtifactBundle output = None)"
  by (auto simp: validateOutput_def Let_def outputFiles_def)

lemma closeAlways_Inr:
  "closeAlways env output m st = (Inr (), st') \<Longrightarrow> \<exists>s. m st = (Inr (), s) \<and> closeOutputS env output s = (Inr (), st')"
  by (auto simp: closeAlways_def isOk_iff split: prod.splits if_splits)

lemma closeOutputS_sends: "closeOutputS env output st = (r, st') \<Longrightarrow> sends st st' []"
  by (auto simp: closeOutputS_def callS_def sends_def split: option.splits)

lemma WriteExecution_ok:
  assumes "honest (en_Write env)" and "WriteExecution env True output st = (Inr (), st')"
  shows "\<exists>contents b. responseBytes output contents b \<and> sends st st' b"
proof -
  obtain preamble report s s0 s1 s2 s3 where m: "validateOutput output = Inr ()"
      "MarshalCanonicalPreamble (executionPreamble output) = Inr preamble"
      "MarshalCanonicalExecutionReport (ot_Report output) = Inr report"
      "sendFrame env preamble MaxPreambleBytes st = (Inr (), s0)"
      "sendFrame env report MaxExecutionReportBytes s0 = (Inr (), s1)"
      "writeBytes env (ot_Stdout output) s1 = (Inr (), s2)" "writeBytes env (ot_Stderr output) s2 = (Inr (), s3)"
      "forS (writeArtifact env (outputBundle output)) (outputFiles output) s3 = (Inr (), s)"
      "closeOutputS env output s = (Inr (), st')"
    using assms(2) unfolding WriteExecution_def
    by (auto dest!: closeAlways_Inr simp: io_Inr executionPreamble_def outputBundle_def outputFiles_def)
  have sizes: "\<forall>f\<in>set (outputFiles output). 0 \<le> af_SizeBytes f"
    using m(1) report_files_ok by (auto simp: validateOutput_ok outputFiles_def fileOk_def)
  from sendFrame_sent [OF assms(1) m(4)] sendFrame_sent [OF assms(1) m(5)]
  have frames: "frameOk (int MaxPreambleBytes) preamble" "frameOk (int MaxExecutionReportBytes) report"
    "sends st s0 (frameBytes preamble)" "sends s0 s1 (frameBytes report)" by (simp_all add: sends_def)
  from writeBytes_ok [OF assms(1) m(6)] writeBytes_ok [OF assms(1) m(7)] obtain out err where
    streams: "framed (ot_Stdout output) out" "sends s1 s2 out" "framed (ot_Stderr output) err" "sends s2 s3 err" by blast
  from writeArtifacts_ok [OF assms(1) sizes m(8)] obtain contents bs where
    arts: "artifactsSent (outputBundle output) (outputFiles output) contents bs" "sends s3 s (concat bs)"
    by (auto simp: artifactsSent_def)
  have "sends st st' (frameBytes preamble @ frameBytes report @ out @ err @ concat bs)"
    using frames(3,4) streams(2,4) arts(2) closeOutputS_sends [OF m(9)] by (simp add: sends_def)
  then show ?thesis
    unfolding responseBytes_def using m(1-3) frames(1,2) streams(1,3) arts(1) by blast
qed

section \<open>A client that accepts\<close>

definition accepting :: "(Call list \<Rightarrow> string \<Rightarrow> int \<times> bool) \<Rightarrow> bool" where
  "accepting f \<longleftrightarrow> honest f \<and> (\<forall>calls s. s \<noteq> [] \<longrightarrow> 0 < fst (f calls s) \<and> \<not> snd (f calls s))"

definition willing :: "Env \<Rightarrow> bool" where
  "willing env \<longleftrightarrow> accepting (en_Write env) \<and> accepting (en_Store env) \<and> en_EOF env \<and> en_Sink env
     \<and> (\<forall>calls. en_Ok env calls)"

lemma writeLoop_accepts:
  assumes "\<forall>w s. s \<noteq> [] \<longrightarrow> 0 < fst (fst (wr w s)) \<and> fst (fst (wr w s)) \<le> int (length s) \<and> \<not> snd (fst (wr w s))"
  shows "fst (writeLoop wr frame w) = Inr ()"
  using assms
proof (induction wr frame w rule: writeLoop.induct)
  case (1 wr frame w)
  show ?case
  proof (cases "frame = []")
    case True
    then show ?thesis by (simp add: writeLoop.simps)
  next
    case False
    obtain count failed w1 where w1: "wr w frame = ((count, failed), w1)" by (metis surj_pair)
    then have "0 < count" "count \<le> int (length frame)" "\<not> failed" using 1(2) False by (metis fst_conv snd_conv)+
    with 1(1) [OF False w1 [symmetric] refl _ _ _ 1(2)] show ?thesis
      using False w1 by (simp add: writeLoop.simps [of wr frame w])
  qed
qed

lemma accepting_loop:
  "accepting (en_Write env) \<Longrightarrow> fst (writeLoop (streamWriter env) frame calls) = Inr ()"
  "accepting (en_Store env) \<Longrightarrow> fst (writeLoop (destinationWriter env) frame calls) = Inr ()"
  by (rule writeLoop_accepts; simp add: accepting_def honest_def streamWriter_def destinationWriter_def)+

lemma sendFrame_accepts:
  assumes "accepting (en_Write env)" and "frameOk (int m) p"
  obtains st' where "sendFrame env p m st = (Inr (), st')"
proof -
  have "fst (sendFrame env p m st) = Inr ()"
    using accepting_loop(1) [OF assms(1), of "frameBytes p" "ex_calls st"] assms(2)
    by (auto simp: sendFrame_def writeFrame_def frameOk_def split: prod.splits)
  then show ?thesis using that by (metis prod.collapse)
qed

lemma writeAll_accepts:
  assumes "accepting (en_Store env)"
  obtains st' where "writeAll env s st = (Inr (), st')" "ex_incoming st' = ex_incoming st"
    "storedBytes (ex_calls st') = storedBytes (ex_calls st) @ s"
proof -
  have "fst (writeAll env s st) = Inr ()"
    using accepting_loop(2) [OF assms, of s "ex_calls st"] by (auto simp: writeAll_def split: prod.splits)
  then obtain st' where *: "writeAll env s st = (Inr (), st')" by (metis prod.collapse)
  have "honest (en_Store env)" using assms by (simp add: accepting_def)
  from writeAll_stored [OF this *] writeAll_extends [OF *] that * show ?thesis by blast
qed

section \<open>Reading framed content\<close>

lemma readChunks_frames:
  "\<forall>p\<in>set ps. frameOk (int MaxDataChunkBytes) p \<Longrightarrow> ex_incoming st = concat (map frameBytes ps) @ rest \<Longrightarrow>
     readChunks c (length (concat ps)) st = (Inr (c @ concat ps), st\<lparr>ex_incoming := rest\<rparr>)"
proof (induction ps arbitrary: c st)
  case Nil
  then show ?case by (simp add: readChunks.simps)
next
  case (Cons p ps)
  have ok: "frameOk (int MaxDataChunkBytes) p" using Cons.prems(1) by simp
  then have "p \<noteq> []" by (simp add: frameOk_def)
  have "receiveFrame MaxDataChunkBytes st = (Inr p, st\<lparr>ex_incoming := concat (map frameBytes ps) @ rest\<rparr>)"
    using receiveFrame_frame [OF ok] Cons.prems(2) by simp
  with Cons.IH [of "st\<lparr>ex_incoming := concat (map frameBytes ps) @ rest\<rparr>" "c @ p"] Cons.prems(1) \<open>p \<noteq> []\<close>
  show ?case by (simp add: readChunks.simps [of c "length p + length (concat ps)" st])
qed

lemma readBytes_framed:
  assumes "framed d b" and "int (length d) \<le> MaxOutputBytes" and "ex_incoming st = b @ rest"
  shows "readBytes (int (length d)) st = (Inr d, st\<lparr>ex_incoming := rest\<rparr>)"
  using assms readChunks_frames [of _ st rest "[]"] by (auto simp: framed_def readBytes_def)

lemma receiveContent_frames:
  assumes "accepting (en_Store env)"
  shows "\<forall>p\<in>set ps. frameOk (int MaxDataChunkBytes) p \<Longrightarrow> ex_incoming st = concat (map frameBytes ps) @ rest \<Longrightarrow>
     \<exists>st'. receiveContent env h (int (length (concat ps))) st = (Inr (h @ concat ps), st') \<and> ex_incoming st' = rest
       \<and> storedBytes (ex_calls st') = storedBytes (ex_calls st) @ concat ps"
proof (induction ps arbitrary: h st)
  case Nil
  then show ?case by (intro exI [of _ st]) (simp add: receiveContent.simps)
next
  case (Cons p ps)
  have ok: "frameOk (int MaxDataChunkBytes) p" using Cons.prems(1) by simp
  then have "p \<noteq> []" by (simp add: frameOk_def)
  let ?s = "st\<lparr>ex_incoming := concat (map frameBytes ps) @ rest\<rparr>"
  have rc: "receiveFrame MaxDataChunkBytes st = (Inr p, ?s)"
    using receiveFrame_frame [OF ok] Cons.prems(2) by simp
  obtain s2 where s2: "writeAll env p ?s = (Inr (), s2)" "ex_incoming s2 = concat (map frameBytes ps) @ rest"
      "storedBytes (ex_calls s2) = storedBytes (ex_calls st) @ p"
    by (rule writeAll_accepts [OF assms, of p ?s]) simp
  have w: "failS ''artifact-destination-write-failed'' (writeAll env p) ?s = (Inr (), s2)"
    using s2(1) by (simp add: failS_def mapErrS_def)
  from Cons.IH [of s2 "h @ p"] Cons.prems(1) s2(2,3)
  obtain st' where "receiveContent env (h @ p) (int (length (concat ps))) s2 = (Inr (h @ p @ concat ps), st')"
      "ex_incoming st' = rest" "storedBytes (ex_calls st') = storedBytes (ex_calls st) @ p @ concat ps" by auto
  moreover have "0 < int (length p) + int (length (concat ps))" using \<open>p \<noteq> []\<close> by (simp add: add_pos_nonneg)
  ultimately show ?case using rc w
    by (intro exI [of _ st']) (simp add: receiveContent.simps [of env h] hashWrite_def)
qed

lemma call_ok: "willing env \<Longrightarrow> failS rule (mapErrS g (callS env c)) st = (Inr (), logCall c st)"
  by (simp add: failS_def mapErrS_def callS_def willing_def)

lemma readArtifact_sent:
  assumes "willing env" and "artifactSent bundle f content b" and "ex_incoming st = b @ rest"
  shows "\<exists>st'. readArtifact env f st = (Inr (), st') \<and> ex_incoming st' = rest
    \<and> storedBytes (ex_calls st') = storedBytes (ex_calls st) @ content"
proof -
  let ?s = "logCall (SinkOpen f) st"
  obtain ps where ps: "content = concat ps" "b = concat (map frameBytes ps)" "\<forall>p\<in>set ps. frameOk (int MaxDataChunkBytes) p"
    using assms(2) by (auto simp: artifactSent_def framed_def)
  have size: "af_SizeBytes f = int (length (concat ps))" "hashSumHex (concat ps) = af_SHA256 f"
    using assms(2) ps(1) by (simp_all add: artifactSent_def hashSumHex_def)
  have "accepting (en_Store env)" using assms(1) by (simp add: willing_def)
  from receiveContent_frames [OF this ps(3), of ?s rest emptyHash] assms(3) ps(2)
  obtain s2 where s2: "receiveContent env emptyHash (int (length (concat ps))) ?s = (Inr (concat ps), s2)"
      "ex_incoming s2 = rest" "storedBytes (ex_calls s2) = storedBytes (ex_calls st) @ concat ps"
    by (auto simp: emptyHash_def)
  have "readArtifact env f st = (Inr (), logCall DestinationClose s2)"
    unfolding readArtifact_def
    by (simp add: call_ok [OF assms(1)] onError_def s2(1) size)
  then show ?thesis using s2 ps(1) by simp
qed

lemma readArtifacts_sent:
  "willing env \<Longrightarrow> artifactsSent bundle files contents bs \<Longrightarrow> ex_incoming st = concat bs @ rest \<Longrightarrow>
     \<exists>st'. forS (readArtifact env) files st = (Inr (), st') \<and> ex_incoming st' = rest
       \<and> storedBytes (ex_calls st') = storedBytes (ex_calls st) @ concat contents"
proof (induction files arbitrary: st contents bs)
  case Nil
  then show ?case by (auto simp: artifactsSent_def)
next
  case (Cons f files)
  then obtain c cs b bs' where cb: "contents = c # cs" "bs = b # bs'"
    by (auto simp: artifactsSent_def length_Suc_conv)
  then have sent: "artifactSent bundle f c b" "artifactsSent bundle files cs bs'"
    using Cons.prems(2) by (simp_all add: artifactsSent_def)
  from readArtifact_sent [OF Cons.prems(1) sent(1), of st "concat bs' @ rest"] Cons.prems(3) cb
  obtain s where s: "readArtifact env f st = (Inr (), s)" "ex_incoming s = concat bs' @ rest"
      "storedBytes (ex_calls s) = storedBytes (ex_calls st) @ c" by auto
  from Cons.IH [OF Cons.prems(1) sent(2) s(2)] s cb show ?case by auto
qed

section \<open>Delivery\<close>

lemma MaxFrame_small: "frameOk (int MaxExchangeMarkerBytes) terminalMarker"
    "frameOk (int MaxExchangeMarkerBytes) acknowledgementMarker"
  by (simp_all add: frameOk_def terminalMarker_def acknowledgementMarker_def MaxExchangeMarkerBytes_def MaxFrameBytes_def
      MaxExecutionReportBytes_def)

lemma finishClientExchange_accepts:
  assumes "willing env" and "ex_incoming st = frameBytes terminalMarker"
  obtains st' where "finishClientExchange env st = (Inr (), st')" "ex_incoming st' = []"
    "extends isSent st st'" "sends st st' (frameBytes acknowledgementMarker)"
proof -
  have rc: "receiveFrame MaxExchangeMarkerBytes st = (Inr terminalMarker, st\<lparr>ex_incoming := []\<rparr>)"
    using receiveFrame_frame [OF MaxFrame_small(1), of st "[]"] assms(2) by simp
  have "accepting (en_Write env)" using assms(1) by (simp add: willing_def)
  then obtain s where s: "sendFrame env acknowledgementMarker MaxExchangeMarkerBytes (st\<lparr>ex_incoming := []\<rparr>) = (Inr (), s)"
    by (rule sendFrame_accepts [OF _ MaxFrame_small(2)])
  then have "ex_incoming s = []" using sendFrame_extends by fastforce
  then have *: "finishClientExchange env st = (Inr (), s)"
    using rc s assms(1) by (simp add: finishClientExchange_def failS_def mapErrS_def expectEOF_def bindS_def willing_def)
  have "honest (en_Write env)" using assms(1) by (simp add: willing_def accepting_def)
  from sendFrame_sent [OF this s] have "sends st s (frameBytes acknowledgementMarker)" by (simp add: sends_def)
  then show ?thesis by (rule that [OF * \<open>ex_incoming s = []\<close> finishClientExchange_extends [OF *]])
qed

lemma stored_sent: "extends isSent st st' \<Longrightarrow> storedBytes (ex_calls st') = storedBytes (ex_calls st)"
proof -
  have "storedBytes cs = []" if "\<forall>c\<in>set cs. isSent c" for cs
    using that by (induction cs) (auto simp: isSent_def)
  then show "extends isSent st st' \<Longrightarrow> ?thesis" by (auto simp: extends_def)
qed

lemma artifact_calls_quiet: "extends artifactCall st st' \<Longrightarrow> sends st st' []"
proof -
  have "sentBytes cs = []" if "\<forall>c\<in>set cs. artifactCall c" for cs
    using that by (induction cs) (auto simp: artifactCall_def isStored_def)
  then show "extends artifactCall st st' \<Longrightarrow> ?thesis" by (auto simp: extends_def sends_def)
qed

lemma receiveArtifacts_sent:
  assumes "willing env" and "artifactsSent bundle files contents bs"
    and "ex_incoming st = concat bs @ frameBytes terminalMarker"
  shows "\<exists>st'. receiveArtifacts env (finishClientExchange env) files st = (Inr (), st') \<and> ex_incoming st' = []
    \<and> storedBytes (ex_calls st') = storedBytes (ex_calls st) @ concat contents
    \<and> sends st st' (frameBytes acknowledgementMarker)"
proof (cases "files = []")
  case True
  then have "contents = []" "bs = []" using assms(2) by (simp_all add: artifactsSent_def)
  then have "ex_incoming st = frameBytes terminalMarker" using assms(3) by simp
  from finishClientExchange_accepts [OF assms(1) this] obtain st' where
    "finishClientExchange env st = (Inr (), st')" "ex_incoming st' = []" "extends isSent st st'"
    "sends st st' (frameBytes acknowledgementMarker)" .
  then show ?thesis using True \<open>contents = []\<close> stored_sent by (simp add: receiveArtifacts_def)
next
  case False
  let ?s = "logCall (SinkBegin files) st"
  from readArtifacts_sent [OF assms(1,2), of ?s "frameBytes terminalMarker"] assms(3)
  obtain s2 where s2: "forS (readArtifact env) files ?s = (Inr (), s2)" "ex_incoming s2 = frameBytes terminalMarker"
      "storedBytes (ex_calls s2) = storedBytes (ex_calls st) @ concat contents" by auto
  from finishClientExchange_accepts [OF assms(1) s2(2)] obtain s3 where
    s3: "finishClientExchange env s2 = (Inr (), s3)" "ex_incoming s3 = []" "extends isSent s2 s3"
      "sends s2 s3 (frameBytes acknowledgementMarker)" .
  have "extends artifactCall ?s s2" by (rule forS_extends [OF readArtifact_extends s2(1)])
  from artifact_calls_quiet [OF this] have "sends st s2 []" by (simp add: isSent_def)
  from sends_trans [OF this s3(4)] have sent: "sends st (logCall SinkCommit s3) (frameBytes acknowledgementMarker)"
    by (simp add: isSent_def)
  have "en_Sink env" using assms(1) by (simp add: willing_def)
  then have "receiveArtifacts env (finishClientExchange env) files st = (Inr (), logCall SinkCommit s3)"
    using False by (simp add: receiveArtifacts_def call_ok [OF assms(1)] onError_def s2(1) s3(1))
  then show ?thesis using s2(3) s3(2) stored_sent [OF s3(3)] sent by simp
qed

lemma response_delivered_bytes:
  assumes "willing env" and "responseBytes output contents b"
    and "isInt64 (om_TotalBytes (er_Stdout (ot_Report output)))"
    and "isInt64 (om_TotalBytes (er_Stderr (ot_Report output)))"
    and "ex_incoming st = b @ frameBytes terminalMarker"
  shows "\<exists>st'. ReadResponseExchange (Some env) st =
      (Inr \<lparr>rp_Report = ot_Report output, rp_Stdout = ot_Stdout output, rp_Stderr = ot_Stderr output\<rparr>, st')
    \<and> ex_incoming st' = [] \<and> storedBytes (ex_calls st') = storedBytes (ex_calls st) @ concat contents
    \<and> sends st st' (frameBytes acknowledgementMarker)"
proof -
  obtain preamble report out err bs where m: "validateOutput output = Inr ()"
      "MarshalCanonicalPreamble (executionPreamble output) = Inr preamble"
      "MarshalCanonicalExecutionReport (ot_Report output) = Inr report"
      "framed (ot_Stdout output) out" "framed (ot_Stderr output) err"
      "artifactsSent (outputBundle output) (outputFiles output) contents bs"
      "frameOk (int MaxPreambleBytes) preamble" "frameOk (int MaxExecutionReportBytes) report"
      "b = frameBytes preamble @ frameBytes report @ out @ err @ concat bs"
    using assms(2) unfolding responseBytes_def by blast
  let ?rest = "concat bs @ frameBytes terminalMarker"
  let ?s0 = "st\<lparr>ex_incoming := frameBytes report @ out @ err @ ?rest\<rparr>"
  let ?s1 = "st\<lparr>ex_incoming := out @ err @ ?rest\<rparr>"
  let ?s2 = "st\<lparr>ex_incoming := err @ ?rest\<rparr>"
  let ?s3 = "st\<lparr>ex_incoming := ?rest\<rparr>"
  have valid: "ValidateExecutionReport (ot_Report output) = Inr ()"
    and lens: "om_RetainedBytes (er_Stdout (ot_Report output)) = int (length (ot_Stdout output))"
      "om_RetainedBytes (er_Stderr (ot_Report output)) = int (length (ot_Stderr output))"
    using m(1) by (simp_all add: validateOutput_ok)
  then have small: "int (length (ot_Stdout output)) \<le> MaxOutputBytes" "int (length (ot_Stderr output)) \<le> MaxOutputBytes"
    by (auto simp: ValidateExecutionReport_ok outputOk_def)
  have r0: "receiveFrame MaxPreambleBytes st = (Inr preamble, ?s0)"
    using receiveFrame_frame [OF m(7), of st] assms(5) m(9) by simp
  have pre: "DecodePreamble (en_Pick env) preamble = Inr (executionPreamble output)" using m(2) by (rule preamble_written)
  have r1: "receiveFrame MaxExecutionReportBytes ?s0 = (Inr report, ?s1)" using receiveFrame_frame [OF m(8), of ?s0] by simp
  have rep: "DecodeExecutionReport report = Inr (ot_Report output)"
    by (rule DecodeExecutionReport_written [OF report_wire [OF valid assms(3,4)] m(3)])
  have r2: "readBytes (int (length (ot_Stdout output))) ?s1 = (Inr (ot_Stdout output), ?s2)"
    using readBytes_framed [OF m(4) small(1), of ?s1] by simp
  have r3: "readBytes (int (length (ot_Stderr output))) ?s2 = (Inr (ot_Stderr output), ?s3)"
    using readBytes_framed [OF m(5) small(2), of ?s2] by simp
  have out: "readOutput (executionPreamble output) ?s0 =
      (Inr \<lparr>rp_Report = ot_Report output, rp_Stdout = ot_Stdout output, rp_Stderr = ot_Stderr output\<rparr>, ?s3)"
    using r1 rep r2 r3 lens by (simp add: readOutput_def failS_def mapErrS_def bindS_def executionPreamble_def)
  from receiveArtifacts_sent [OF assms(1) m(6), of ?s3]
  obtain st' where st': "receiveArtifacts env (finishClientExchange env) (outputFiles output) ?s3 = (Inr (), st')"
      "ex_incoming st' = []" "storedBytes (ex_calls st') = storedBytes (ex_calls st) @ concat contents"
      "sends st st' (frameBytes acknowledgementMarker)" by (auto simp: sends_def)
  have outcome: "pb_Outcome (executionPreamble output) \<noteq> OutcomeRejected"
    by (simp add: executionPreamble_def OutcomeExecution_def OutcomeRejected_def)
  have "ReadResponseExchange (Some env) st =
      (Inr \<lparr>rp_Report = ot_Report output, rp_Stdout = ot_Stdout output, rp_Stderr = ot_Stderr output\<rparr>, st')"
    using r0 pre out st'(1) outcome
    by (simp add: ReadResponseExchange_def readResponse_def failS_def mapErrS_def bindS_def outputFiles_def)
  then show ?thesis using st' by blast
qed

section \<open>What the broker gives back\<close>

text \<open>Readers held open after a sequence of calls: a close of a reader that is closed is dropped.\<close>

definition holdReader :: "Bundle \<Rightarrow> nat \<Rightarrow> Call \<Rightarrow> nat" where
  "holdReader bundle n c = (case c of
     BundleOpen g p \<Rightarrow> (if bundle g p = None then n else Suc n)
   | ReaderClose \<Rightarrow> n - 1
   | _ \<Rightarrow> n)"

definition heldReaders :: "Bundle \<Rightarrow> nat \<Rightarrow> Call list \<Rightarrow> nat" where
  "heldReaders bundle n cs = foldl (holdReader bundle) n cs"

lemma heldReaders_simps [simp]:
  "heldReaders b n [] = n" "heldReaders b n (c # cs) = heldReaders b (holdReader b n c) cs"
  "heldReaders b n (as @ cs) = heldReaders b (heldReaders b n as) cs"
  by (simp_all add: heldReaders_def)

lemma heldReaders_sent: "\<forall>c\<in>set cs. isSent c \<Longrightarrow> heldReaders b n cs = n"
  by (induction cs) (auto simp: isSent_def holdReader_def)

text \<open>A step that leaves no reader open and does not close the bundle.\<close>

definition tidy :: "Bundle \<Rightarrow> Exchange \<Rightarrow> Exchange \<Rightarrow> bool" where
  "tidy b st st' \<longleftrightarrow> (\<exists>cs. ex_calls st' = ex_calls st @ cs \<and> BundleClose \<notin> set cs \<and> heldReaders b 0 cs = 0)"

lemma tidy_refl [simp]: "tidy b st st"
  by (simp add: tidy_def)

lemma tidy_trans: "tidy b st st' \<Longrightarrow> tidy b st' st'' \<Longrightarrow> tidy b st st''"
  unfolding tidy_def by (elim exE conjE) (rule_tac x = "cs @ csa" in exI, simp)

lemma tidy_sent: "extends isSent st st' \<Longrightarrow> tidy b st st'"
  unfolding extends_def tidy_def using heldReaders_sent by (fastforce simp: isSent_def)

lemma tidy_bindS:
  assumes "bindS m k st = (r, st'')" and "\<And>a st'. m st = (a, st') \<Longrightarrow> tidy b st st'"
    and "\<And>a st'. m st = (Inr a, st') \<Longrightarrow> k a st' = (r, st'') \<Longrightarrow> tidy b st' st''"
  shows "tidy b st st''"
  using assms by (cases "m st"; cases "fst (m st)") (auto simp: bindS_def intro: tidy_trans)

lemma tidy_failS: "failS rule m st = (r, st') \<Longrightarrow> (\<And>a s. m st = (a, s) \<Longrightarrow> extends isSent st s) \<Longrightarrow> tidy b st st'"
  using failS_cases tidy_sent by blast

lemma sendContent_extends: "sendContent env content h n st = (r, st') \<Longrightarrow> extends isSent st st'"
proof (induction env content h n st arbitrary: r st' rule: sendContent.induct)
  case (1 env content h n st)
  show ?case
  proof (cases "n \<le> 0")
    case True
    then show ?thesis using 1(2) by (simp add: sendContent.simps)
  next
    case False
    let ?want = "if n < int MaxDataChunkBytes then n else int MaxDataChunkBytes"
    obtain c more where c: "readFull (nat ?want) content = (c, more)" by fastforce
    show ?thesis
    proof (cases c)
      case None
      then show ?thesis using 1(2) False c unfolding sendContent.simps [of env content h n st] Let_def by simp
    next
      case (Some chunk)
      then have "bindS (failS ''artifact-write-failed'' (sendFrame env chunk MaxDataChunkBytes))
          (\<lambda>_. sendContent env more (hashWrite h chunk) (n - ?want)) st = (r, st')"
        using 1(2) False c unfolding sendContent.simps [of env content h n st] Let_def by simp
      then show ?thesis
      proof (rule extends_bindS)
        fix a s assume "failS ''artifact-write-failed'' (sendFrame env chunk MaxDataChunkBytes) st = (a, s)"
        then show "extends isSent st s" by (rule failS_extends) (use sendFrame_extends in blast)
      next
        fix s assume "sendContent env more (hashWrite h chunk) (n - ?want) s = (r, st')"
        then show "extends isSent s st'" using 1(1) [OF False refl c [symmetric] Some] by blast
      qed
    qed
  qed
qed

text \<open>The body of \<open>writeArtifact\<close> after the reader is open: it closes it at the end of the normal path.\<close>

lemma sendContent_close:
  assumes "bindS (sendContent env content h n) (\<lambda>(rest, hasher).
      bindS (liftS (check rest hasher)) (\<lambda>_. failS rule (mapErrS g (callS env ReaderClose)))) st = (r, s)"
  shows "extends isSent st s \<or> (\<exists>s'. extends isSent st s' \<and> s = logCall ReaderClose s')"
    and "isOk r \<longrightarrow> (\<exists>s'. extends isSent st s' \<and> s = logCall ReaderClose s')"
proof -
  obtain a s1 where a: "sendContent env content h n st = (a, s1)" by fastforce
  note sent = sendContent_extends [OF a]
  have "(isOk r \<longrightarrow> s = logCall ReaderClose s1) \<and> (s = s1 \<or> s = logCall ReaderClose s1)"
  proof (cases a)
    case (Inl e)
    then have "r = Inl e \<and> s = s1" using assms a by simp
    then show ?thesis by simp
  next
    case (Inr x)
    obtain rest hasher where x: "x = (rest, hasher)" by fastforce
    show ?thesis
    proof (cases "check rest hasher")
      case (Inl e)
      then have "bindS (liftS (check rest hasher)) (\<lambda>_. failS rule (mapErrS g (callS env ReaderClose))) s1 = (Inl e, s1)"
        by simp
      then have "r = Inl e \<and> s = s1" using assms a Inr x by simp
      then show ?thesis by simp
    next
      case ok: (Inr u)
      then have "failS rule (mapErrS g (callS env ReaderClose)) s1 = (r, s)" using assms a Inr x by simp
      then show ?thesis using call_logged by blast
    qed
  qed
  then show "extends isSent st s \<or> (\<exists>s'. extends isSent st s' \<and> s = logCall ReaderClose s')"
    and "isOk r \<longrightarrow> (\<exists>s'. extends isSent st s' \<and> s = logCall ReaderClose s')" using sent by blast+
qed

lemma writeArtifact_tidy:
  assumes "writeArtifact env bundle f st = (r, st')" shows "tidy bundle st st'"
proof -
  let ?open = "BundleOpen (af_Group f) (af_Path f)"
  show ?thesis
  proof (cases "bundle (af_Group f) (af_Path f)")
    case None
    then have "st' = logCall ?open st" using assms by (simp add: writeArtifact_def)
    then show ?thesis using None by (auto simp: tidy_def holdReader_def)
  next
    case (Some reader)
    then obtain content eof where reader: "bundle (af_Group f) (af_Path f) = Some (content, eof)" by (cases reader) simp
    let ?m = "bindS (sendContent env content emptyHash (af_SizeBytes f)) (\<lambda>(rest, hasher).
         bindS (liftS (checks
           [failIf (rest \<noteq> []) (WireError ''artifact-content-overrun''),
            failIf (\<not> eof) (WireError ''artifact-final-read-failed''),
            failIf (hashSumHex hasher \<noteq> af_SHA256 f) (WireError ''artifact-digest-mismatch'')])) (\<lambda>_.
         failS ''artifact-reader-close-failed'' (mapErrS (\<lambda>_. []) (callS env ReaderClose))))"
    have "onError env ReaderClose ?m (logCall ?open st) = (r, st')"
      using assms reader by (simp add: writeArtifact_def)
    then obtain s where m: "?m (logCall ?open st) = (r, s)"
      and st': "if isOk r then st' = s else st' = logCall ReaderClose s" using onError_cases by blast
    note close = sendContent_close [OF m]
    have "\<exists>s' n. extends isSent (logCall ?open st) s' \<and> (st' = logCall ReaderClose s'
        \<or> st' = logCall ReaderClose (logCall ReaderClose s'))"
      using close st' by (cases "isOk r") auto
    then obtain cs where cs: "\<forall>c\<in>set cs. isSent c" "ex_calls st' = ex_calls st @ ?open # cs @ [ReaderClose]
        \<or> ex_calls st' = ex_calls st @ ?open # cs @ [ReaderClose, ReaderClose]" by (auto simp: extends_def)
    moreover have "BundleClose \<notin> set cs" using cs(1) by (auto simp: isSent_def)
    ultimately show ?thesis unfolding tidy_def using heldReaders_sent [OF cs(1)] reader
      by (elim disjE) (simp_all add: holdReader_def)
  qed
qed

lemma writeBytes_extends: "writeBytes env content st = (r, st') \<Longrightarrow> extends isSent st st'"
proof (induction env content st arbitrary: r st' rule: writeBytes.induct)
  case (1 env content st)
  show ?case
  proof (cases "content = []")
    case True
    then show ?thesis using 1(2) by (simp add: writeBytes.simps)
  next
    case False
    then have "bindS (sendFrame env (take MaxDataChunkBytes content) MaxDataChunkBytes)
        (\<lambda>_. writeBytes env (drop MaxDataChunkBytes content)) st = (r, st')"
      using 1(2) by (simp add: writeBytes.simps [of env content st])
    then show ?thesis
      by (rule extends_bindS) (use sendFrame_extends 1(1) [OF False] in blast)+
  qed
qed

lemma forS_tidy:
  "(\<And>x st r st'. f x st = (r, st') \<Longrightarrow> tidy b st st') \<Longrightarrow> forS f xs st = (r, st') \<Longrightarrow> tidy b st st'"
proof (induction xs arbitrary: st r st')
  case (Cons x xs)
  from Cons.prems(2) have "bindS (f x) (\<lambda>_. forS f xs) st = (r, st')" by simp
  then show ?case by (rule tidy_bindS) (use Cons in blast)+
qed simp

text \<open>What a call to the broker's writer leaves behind: no reader open, the bundle closed once, last.\<close>

definition released :: "Bundle Output \<Rightarrow> Exchange \<Rightarrow> Exchange \<Rightarrow> bool" where
  "released output st st' \<longleftrightarrow> (\<exists>cs. ex_calls st' = ex_calls st @ cs
     @ (case ot_ArtifactBundle output of None \<Rightarrow> [] | Some _ \<Rightarrow> [BundleClose])
     \<and> BundleClose \<notin> set cs \<and> heldReaders (outputBundle output) 0 cs = 0)"

lemma closeAlways_released:
  assumes "closeAlways env output m st = (r, st')" and "\<And>a s. m st = (a, s) \<Longrightarrow> tidy (outputBundle output) st s"
  shows "released output st st'"
proof -
  obtain a s where a: "m st = (a, s)" by fastforce
  then have "st' = snd (closeOutputS env output s)"
    using assms(1) by (auto simp: closeAlways_def split: prod.splits)
  then have "ex_calls st' = ex_calls s @ (case ot_ArtifactBundle output of None \<Rightarrow> [] | Some _ \<Rightarrow> [BundleClose])"
    by (simp add: closeOutputS_def split: option.splits)
  then show ?thesis using assms(2) [OF a] by (auto simp: tidy_def released_def)
qed

lemma WriteExecution_released:
  assumes "WriteExecution env writer output st = (r, st')"
  shows "released output st st'"
  using assms unfolding WriteExecution_def
proof (rule closeAlways_released)
  fix a s
  let ?b = "outputBundle output"
  let ?sends = "\<lambda>preamble report. bindS (failS ''preamble-write-failed'' (sendFrame env preamble MaxPreambleBytes)) (\<lambda>_.
        bindS (failS ''report-write-failed'' (sendFrame env report MaxExecutionReportBytes)) (\<lambda>_.
        bindS (failS ''stdout-write-failed'' (writeBytes env (ot_Stdout output))) (\<lambda>_.
        bindS (failS ''stderr-write-failed'' (writeBytes env (ot_Stderr output))) (\<lambda>_.
        forS (writeArtifact env ?b) (outputFiles output)))))"
  have "tidy ?b u v" if "?sends preamble report u = (c, v)" for preamble report u v c
  proof -
    have frame: "tidy ?b x y" if "failS rule (sendFrame env p m) x = (e, y)" for rule p m x y e
      using that by (rule tidy_failS) (use sendFrame_extends in blast)
    have bytes: "tidy ?b x y" if "failS rule (writeBytes env content) x = (e, y)" for rule content x y e
      using that by (rule tidy_failS) (use writeBytes_extends in blast)
    have files: "tidy ?b x y" if "forS (writeArtifact env ?b) (outputFiles output) x = (e, y)" for x y e
      by (rule forS_tidy [OF _ that]) (rule writeArtifact_tidy)
    show ?thesis using that
      by (elim tidy_bindS) (erule frame bytes files)+
  qed
  note sends = this
  assume "(if \<not> writer then liftS (Inl (WireError ''writer-required''))
      else
        bindS (liftS (validateOutput output)) (\<lambda>_.
        bindS (liftS (MarshalCanonicalPreamble
          \<lparr>pb_ProtocolVersion = WireCurrentVersion, pb_Outcome = OutcomeExecution, pb_Failure = FailureNone,
           pb_StdoutRetainedSHA256 = digestBytes (ot_Stdout output),
           pb_StderrRetainedSHA256 = digestBytes (ot_Stderr output)\<rparr>)) (\<lambda>preamble.
        bindS (liftS (mapErr (\<lambda>_. WireError ''report-encode-failed'')
          (MarshalCanonicalExecutionReport (ot_Report output)))) (\<lambda>report.
        bindS (failS ''preamble-write-failed'' (sendFrame env preamble MaxPreambleBytes)) (\<lambda>_.
        bindS (failS ''report-write-failed'' (sendFrame env report MaxExecutionReportBytes)) (\<lambda>_.
        bindS (failS ''stdout-write-failed'' (writeBytes env (ot_Stdout output))) (\<lambda>_.
        bindS (failS ''stderr-write-failed'' (writeBytes env (ot_Stderr output))) (\<lambda>_.
        forS (\<lambda>file. writeArtifact env (case ot_ArtifactBundle output of None \<Rightarrow> \<lambda>_ _. None | Some b \<Rightarrow> b) file)
          (sl (am_Files (er_Artifacts (ot_Report output)))))))))))) st = (a, s)"
  then have "s = st \<or> (\<exists>preamble report. ?sends preamble report st = (a, s))"
    unfolding outputBundle_def outputFiles_def
    by (auto simp: bindS_def liftS_def split: if_splits sum.splits)
  then show "tidy ?b st s" using sends by auto
qed

end
