(* ===== verification/Session_Facts.thy ===== *)
theory Session_Facts
  imports Broker_Session Wire_Exchange Codec_Samples
begin

text \<open>
  What a connection does on the broker's side and on the control side, case by case.
\<close>

section \<open>Outputs of a run\<close>

lemma snapshot_int64: "captureSnapshot c = Inr s \<Longrightarrow> isInt64 (om_TotalBytes (snap_Metadata s))"
proof -
  assume "captureSnapshot c = Inr s"
  then have "om_TotalBytes (snap_Metadata s) = uint (cap_total c)" "uint (cap_total c) \<le> maxInt64"
    by (auto simp: captureSnapshot_def split: if_splits)
  moreover have "0 \<le> uint (cap_total c)" by (rule uint_ge_0)
  ultimately show ?thesis unfolding isInt64_def minInt64_def by linarith
qed

lemma assembled_streams [simp]:
  "er_Stdout (assembleReport plan sha status code s f out err m) = snap_Metadata out"
  "er_Stderr (assembleReport plan sha status code s f out err m) = snap_Metadata err"
  by (simp_all add: assembleReport_def)

lemma Run_int64:
  assumes "Run runner plan sha s f native registry = (Inr out, effects)"
  shows "isInt64 (om_TotalBytes (er_Stdout (ot_Report out))) \<and> isInt64 (om_TotalBytes (er_Stderr (ot_Report out)))"
proof -
  have foreground: ?thesis
    if "completeForeground runner plan sha s f outcome c1 c2 = (Inr out, e)" for outcome c1 c2 e
    using that snapshot_int64 by (auto simp: completeForeground_def Let_def split: prod.splits if_splits sum.splits)
  have background: ?thesis
    if "buildBackgroundOutput plan sha status code s f x y = Inr out" for status code x y
    using that snapshot_int64 by (auto simp: buildBackgroundOutput_def bindR_eq_Inr Let_def)
  show ?thesis
    using assms foreground background
    by (auto simp: Run_def runForeground_def runBackground_def answerBackground_def split: if_splits sum.splits prod.splits)
qed

section \<open>Rejections\<close>

definition rejectionPreamble :: "Failure \<Rightarrow> Preamble" where
  "rejectionPreamble failure = \<lparr>pb_ProtocolVersion = WireCurrentVersion, pb_Outcome = OutcomeRejected,
     pb_Failure = failure, pb_StdoutRetainedSHA256 = [], pb_StderrRetainedSHA256 = []\<rparr>"

definition rejectionBytes :: "Failure \<Rightarrow> string \<Rightarrow> bool" where
  "rejectionBytes failure b \<longleftrightarrow> (\<exists>p. MarshalCanonicalPreamble (rejectionPreamble failure) = Inr p
     \<and> frameOk (int MaxPreambleBytes) p \<and> b = frameBytes p)"

lemma finishServerExchange_ok:
  assumes "honest (en_Write env)" and "finishServerExchange env st = (Inr (), st')"
  shows "sends st st' (frameBytes terminalMarker)
    \<and> (\<exists>s. receiveFrame MaxExchangeMarkerBytes s = (Inr acknowledgementMarker, st') \<and> ex_incoming s = ex_incoming st)"
proof -
  obtain s where s: "sendFrame env terminalMarker MaxExchangeMarkerBytes st = (Inr (), s)"
      "receiveFrame MaxExchangeMarkerBytes s = (Inr acknowledgementMarker, st')"
    using assms(2) unfolding finishServerExchange_def io_Inr by auto
  from sendFrame_sent [OF assms(1) s(1)] sendFrame_extends [OF s(1)] receiveFrame_calls [OF s(2)] s(2)
  show ?thesis by (auto simp: sends_def)
qed

lemma WriteRejectionExchange_ok:
  assumes "honest (en_Write env)" and "WriteRejectionExchange (Some env) failure st = (Inr (), st')"
  shows "\<exists>b. rejectionBytes failure b \<and> sends st st' (b @ frameBytes terminalMarker)"
proof -
  obtain p s where s: "MarshalCanonicalPreamble (rejectionPreamble failure) = Inr p"
      "sendFrame env p MaxPreambleBytes st = (Inr (), s)" "finishServerExchange env s = (Inr (), st')"
    using assms(2) unfolding WriteRejectionExchange_def option.case io_Inr
    by (auto simp: WriteRejection_def io_Inr rejectionPreamble_def split: if_splits)
  from sendFrame_sent [OF assms(1) s(2)] finishServerExchange_ok [OF assms(1) s(3)] s(1)
  show ?thesis
    by (intro exI [of _ "frameBytes p"]) (auto simp: rejectionBytes_def sends_def)
qed

lemma rejection_read:
  assumes "willing env" and "rejectionBytes failure b" and "ex_incoming st = b @ frameBytes terminalMarker"
  shows "\<exists>st'. ReadResponseExchange (Some env) st = (Inl (RemoteError failure), st') \<and> ex_incoming st' = []
    \<and> extends isSent st st' \<and> sends st st' (frameBytes acknowledgementMarker)"
proof -
  obtain p where p: "MarshalCanonicalPreamble (rejectionPreamble failure) = Inr p" "frameOk (int MaxPreambleBytes) p"
      "b = frameBytes p" using assms(2) by (auto simp: rejectionBytes_def)
  let ?s = "st\<lparr>ex_incoming := frameBytes terminalMarker\<rparr>"
  have rc: "receiveFrame MaxPreambleBytes st = (Inr p, ?s)"
    using receiveFrame_frame [OF p(2), of st] assms(3) p(3) by simp
  have pre: "DecodePreamble (en_Pick env) p = Inr (rejectionPreamble failure)" using p(1) by (rule preamble_written)
  obtain st' where st': "finishClientExchange env ?s = (Inr (), st')" "ex_incoming st' = []" "extends isSent ?s st'"
      "sends ?s st' (frameBytes acknowledgementMarker)"
    by (rule finishClientExchange_accepts [OF assms(1), of ?s]) simp_all
  have "ReadResponseExchange (Some env) st = (Inl (RemoteError failure), st')"
    using rc pre st'(1)
    by (simp add: ReadResponseExchange_def readResponse_def failS_def mapErrS_def bindS_def rejectionPreamble_def liftS_def)
  then show ?thesis using st' by (auto simp: extends_def sends_def)
qed

lemma WriteExecutionExchange_ok:
  assumes "honest (en_Write env)" and "WriteExecutionExchange env True output st = (Inr (), st')"
  shows "\<exists>contents b. responseBytes output contents b \<and> sends st st' (b @ frameBytes terminalMarker)"
proof -
  obtain s where s: "WriteExecution env True output st = (Inr (), s)" "finishServerExchange env s = (Inr (), st')"
    using assms(2) by (auto simp: WriteExecutionExchange_def bindS_Inr)
  from WriteExecution_ok [OF assms(1) s(1)] finishServerExchange_ok [OF assms(1) s(2)]
  show ?thesis using sends_trans by blast
qed

section \<open>A connection on the broker's side\<close>

text \<open>What the broker ran for an envelope.\<close>

definition ran ::
    "Session \<Rightarrow> Attempt \<Rightarrow> ExecuteEnvelope \<Rightarrow> (RunError + Bundle Output) \<times> Bundle Effect list \<Rightarrow> bool" where
  "ran session attempt envelope outcome \<longleftrightarrow> \<not> at_CancelledBefore attempt \<and> \<not> at_CancelledAfter attempt
     \<and> (\<exists>plan. Authorize (se_configuration session) envelope (se_safeBaseEnvironment session)
           (Some (se_resolver session)) = Inr plan
         \<and> outcome = Run (se_runner session) plan (se_gatewaySourceSHA session) (at_StartedAt attempt)
             (at_FinishedAt attempt) (at_Native attempt) (at_Background attempt))"

definition bound :: "Session \<Rightarrow> ExecuteEnvelope \<Rightarrow> ExecutionReport \<Rightarrow> bool" where
  "bound session envelope report \<longleftrightarrow> ValidateExecutionReportBinding (ee_AcceptedRequest envelope) report = Inr ()
     \<and> er_AttemptID report = ee_AttemptID envelope \<and> er_GatewaySourceSHA report = se_gatewaySourceSHA session"

lemma handleEnvelope_cases:
  assumes "handleEnvelope session env attempt envelope st = ((r, st'), effects)"
  obtains (refused) failure where "effects = []" "rejectSession env failure st = (r, st')"
      "\<not> (\<exists>outcome. ran session attempt envelope outcome)" "failure \<in> {FailureExecutionUnavailable, FailureAuthorizationDenied}"
  | (failed) e where "ran session attempt envelope (Inl e, effects)"
      "rejectSession env FailureExecutionUnavailable st = (r, st')"
  | (unbound) output' where "ran session attempt envelope (Inr output', effects)" "\<not> bound session envelope (ot_Report output')"
      "rejectSession env FailureResponseUnavailable (snd (closeOutputS env output' st)) = (r, st')"
  | (answered) output' where "ran session attempt envelope (Inr output', effects)" "bound session envelope (ot_Report output')"
      "mapErrS (\<lambda>_. SessionError ''execution-response-write-failed'') (WriteExecutionExchange env True output') st = (r, st')"
proof (cases "at_CancelledBefore attempt")
  case True
  then show ?thesis using assms refused [of FailureExecutionUnavailable] by (simp add: handleEnvelope_def ran_def)
next
  case started: False
  show ?thesis
  proof (cases "Authorize (se_configuration session) envelope (se_safeBaseEnvironment session) (Some (se_resolver session))")
    case (Inl e)
    then show ?thesis using assms started refused [of FailureAuthorizationDenied]
      by (simp add: handleEnvelope_def ran_def)
  next
    case (Inr plan)
    note plan = this
    show ?thesis
    proof (cases "at_CancelledAfter attempt")
      case True
      then show ?thesis using assms started plan refused [of FailureExecutionUnavailable]
        by (simp add: handleEnvelope_def ran_def)
    next
      case False
      obtain outcome e where o: "Run (se_runner session) plan (se_gatewaySourceSHA session) (at_StartedAt attempt)
          (at_FinishedAt attempt) (at_Native attempt) (at_Background attempt) = (outcome, e)" by fastforce
      have ran: "ran session attempt envelope (outcome, e)" using started False plan o by (simp add: ran_def)
      show ?thesis
      proof (cases outcome)
        case (Inl err)
        then have "e = effects" "rejectSession env FailureExecutionUnavailable st = (r, st')"
          using assms started False plan o by (simp_all add: handleEnvelope_def)
        then show ?thesis using failed ran Inl by blast
      next
        case (Inr output')
        show ?thesis
        proof (cases "bound session envelope (ot_Report output')")
          case True
          then have "e = effects" "mapErrS (\<lambda>_. SessionError ''execution-response-write-failed'')
              (WriteExecutionExchange env True output') st = (r, st')"
            using assms started False plan o Inr by (simp_all add: handleEnvelope_def bound_def isOk_iff)
          then show ?thesis using answered ran Inr True by blast
        next
          case out: False
          then have "e = effects" "rejectSession env FailureResponseUnavailable (snd (closeOutputS env output' st)) = (r, st')"
            using assms started False plan o Inr
            by (auto simp: handleEnvelope_def bound_def isOk_iff split: if_splits)
          then show ?thesis using unbound ran Inr out by blast
        qed
      qed
    qed
  qed
qed

lemma Handle_cases:
  assumes "Handle (Some session) (Some env) True attempt st = ((r, st'), effects)"
  obtains (refused) failure s where "effects = []" "ex_calls s = ex_calls st" "rejectSession env failure s = (r, st')"
      "failure \<in> {FailureInvalidFrame, FailureInvalidEnvelope}"
  | (decoded) encoded s envelope where "receiveFrame MaxExecuteEnvelopeBytes st = (Inr encoded, s)"
      "DecodeExecuteEnvelope (en_Pick env) encoded = Inr envelope"
      "handleEnvelope session env attempt envelope s = ((r, st'), effects)"
proof -
  obtain a s where s: "receiveFrame MaxExecuteEnvelopeBytes st = (a, s)" by fastforce
  note calls = receiveFrame_calls [OF s]
  show ?thesis
  proof (cases a)
    case (Inl e)
    then show ?thesis using assms s calls refused [of s FailureInvalidFrame] by (simp add: Handle_def)
  next
    case (Inr encoded)
    note encoded = this
    show ?thesis
    proof (cases "DecodeExecuteEnvelope (en_Pick env) encoded")
      case (Inl e)
      then show ?thesis using assms s encoded calls refused [of s FailureInvalidEnvelope] by (simp add: Handle_def)
    next
      case (Inr envelope)
      then show ?thesis using assms s encoded decoded by (simp add: Handle_def)
    qed
  qed
qed

lemma rejectSession_sends:
  "honest (en_Write env) \<Longrightarrow> rejectSession env failure st = (Inr (), st') \<Longrightarrow>
     \<exists>b. rejectionBytes failure b \<and> sends st st' (b @ frameBytes terminalMarker)"
  using WriteRejectionExchange_ok by (auto simp: rejectSession_def mapErrS_Inr)

section \<open>A broker whose stream accepts\<close>

text \<open>The contract of an artifact bundle: a reader delivers the file the manifest describes.\<close>

definition bundleMatches :: "Bundle \<Rightarrow> ArtifactFile list \<Rightarrow> bool" where
  "bundleMatches bundle files \<longleftrightarrow> (\<forall>f\<in>set files. \<exists>content. bundle (af_Group f) (af_Path f) = Some (content, True)
     \<and> int (length content) = af_SizeBytes f \<and> sha256Hex content = af_SHA256 f)"

definition serving :: "Env \<Rightarrow> bool" where
  "serving env \<longleftrightarrow> accepting (en_Write env) \<and> (\<forall>calls. en_Ok env calls)"

lemma MaxDataChunk_frame: "p \<noteq> [] \<Longrightarrow> length p \<le> MaxDataChunkBytes \<Longrightarrow> frameOk (int MaxDataChunkBytes) p"
  by (simp add: frameOk_def MaxDataChunkBytes_def MaxFrameBytes_def MaxExecutionReportBytes_def)

lemma failS_Inr_eq: "m st = (Inr a, st') \<Longrightarrow> failS rule m st = (Inr a, st')"
  by (simp add: failS_def mapErrS_def)

lemma writeBytes_accepts:
  assumes "accepting (en_Write env)"
  shows "\<exists>st'. writeBytes env content st = (Inr (), st') \<and> ex_incoming st' = ex_incoming st"
  using assms
proof (induction env content st rule: writeBytes.induct)
  case (1 env content st)
  show ?case
  proof (cases "content = []")
    case True
    then show ?thesis by (simp add: writeBytes.simps)
  next
    case False
    then have "frameOk (int MaxDataChunkBytes) (take MaxDataChunkBytes content)"
      by (intro MaxDataChunk_frame) (simp_all add: MaxDataChunkBytes_def)
    then obtain s where s: "sendFrame env (take MaxDataChunkBytes content) MaxDataChunkBytes st = (Inr (), s)"
      by (rule sendFrame_accepts [OF 1(2)])
    from 1(1) [OF False 1(2), of s] sendFrame_extends [OF s] s False
    show ?thesis by (auto simp: writeBytes.simps [of env content st])
  qed
qed

lemma sendContent_accepts:
  "accepting (en_Write env) \<Longrightarrow> n = int (length content) \<Longrightarrow>
     \<exists>st'. sendContent env content h n st = (Inr ([], h @ content), st') \<and> ex_incoming st' = ex_incoming st"
proof (induction env content h n st rule: sendContent.induct)
  case (1 env content h n st)
  show ?case
  proof (cases "n \<le> 0")
    case True
    then show ?thesis using 1(3) by (simp add: sendContent.simps)
  next
    case False
    let ?want = "if n < int MaxDataChunkBytes then n else int MaxDataChunkBytes"
    let ?chunk = "take (nat ?want) content" and ?more = "drop (nat ?want) content"
    have len: "nat ?want \<le> length content" "0 < nat ?want" "?want \<le> int MaxDataChunkBytes"
      using 1(3) False by (auto simp: MaxDataChunkBytes_def)
    then have full: "readFull (nat ?want) content = (Some ?chunk, ?more)" by (simp add: readFull_def)
    have "frameOk (int MaxDataChunkBytes) ?chunk"
      using len 1(3) False by (intro MaxDataChunk_frame) (auto simp: MaxDataChunkBytes_def)
    then obtain s where s: "sendFrame env ?chunk MaxDataChunkBytes st = (Inr (), s)"
      by (rule sendFrame_accepts [OF 1(2)])
    have "n - ?want = int (length ?more)" using 1(3) len(1,2) by auto
    from 1(1) [OF False refl full [symmetric] refl 1(2) this, of s]
    obtain st' where st': "sendContent env ?more (hashWrite h ?chunk) (n - ?want) s = (Inr ([], hashWrite h ?chunk @ ?more), st')"
        "ex_incoming st' = ex_incoming s" by blast
    have "sendContent env content h n st = (Inr ([], hashWrite h ?chunk @ ?more), st')"
      using st'(1) False full failS_Inr_eq [where st = st and m = "sendFrame env ?chunk MaxDataChunkBytes" and rule = "''artifact-write-failed''", OF s] unfolding sendContent.simps [of env content h n st] Let_def by simp
    then show ?thesis using st'(2) sendFrame_extends [OF s] by (simp add: hashWrite_def)
  qed
qed

lemma writeArtifact_accepts:
  assumes "serving env" and "bundleMatches bundle files" and "f \<in> set files"
  shows "\<exists>st'. writeArtifact env bundle f st = (Inr (), st') \<and> ex_incoming st' = ex_incoming st"
proof -
  obtain content where c: "bundle (af_Group f) (af_Path f) = Some (content, True)"
      "af_SizeBytes f = int (length content)" "sha256Hex content = af_SHA256 f"
    using assms(2,3) unfolding bundleMatches_def by metis
  let ?s = "logCall (BundleOpen (af_Group f) (af_Path f)) st"
  have "accepting (en_Write env)" using assms(1) by (simp add: serving_def)
  from sendContent_accepts [OF this refl, of content emptyHash ?s]
  obtain s where s: "sendContent env content emptyHash (int (length content)) ?s = (Inr ([], content), s)"
      "ex_incoming s = ex_incoming st" by (auto simp: emptyHash_def)
  have close: "failS ''artifact-reader-close-failed'' (mapErrS (\<lambda>_. []) (callS env ReaderClose)) s = (Inr (), logCall ReaderClose s)"
    using assms(1) by (simp add: failS_def mapErrS_def callS_def serving_def)
  have "writeArtifact env bundle f st = (Inr (), logCall ReaderClose s)"
    using c s(1) close by (simp add: writeArtifact_def Let_def onError_def bindS_def liftS_def hashSumHex_def)
  then show ?thesis using s(2) by simp
qed

lemma forS_accepts:
  "(\<And>x st. x \<in> set xs \<Longrightarrow> \<exists>st'. f x st = (Inr (), st') \<and> ex_incoming st' = ex_incoming st) \<Longrightarrow>
     \<exists>st'. forS f xs st = (Inr (), st') \<and> ex_incoming st' = ex_incoming st"
proof (induction xs arbitrary: st)
  case (Cons x xs)
  obtain s where s: "f x st = (Inr (), s)" "ex_incoming s = ex_incoming st" using Cons.prems [of x st] by auto
  from Cons.IH [of s] Cons.prems s show ?case by auto
qed simp

text \<open>Text the encoder copies.\<close>

definition plainText :: "string \<Rightarrow> bool" where
  "plainText s \<longleftrightarrow> list_all (\<lambda>c. byte c < 128 \<and> escapeByte c = [c]) s"

lemma encodeString_plain: "plainText s \<Longrightarrow> encodeString s = CHR 0x22 # s @ [CHR 0x22]"
proof -
  have "escapeJson s = s" if "plainText s" using that
    by (induction s) (auto simp: plainText_def decodeRune_ascii)
  then show "plainText s \<Longrightarrow> ?thesis" by (simp add: encodeString_def)
qed

lemma hex_plain: "isLowerHex n s \<Longrightarrow> plainText s"
  by (auto simp: isLowerHex_def plainText_def list_all_iff isLowerHexChar_def isDigit_def inRange_def escapeByte_def
      backslash_def)

lemma executionPreamble_size: "length (encodeJson (preambleJson (executionPreamble output))) \<le> 1024"
proof -
  have digest: "encodeString (digestBytes b) = CHR 0x22 # digestBytes b @ [CHR 0x22]" "length (digestBytes b) = 64" for b
    using sha256Hex_text(2) hex_plain [of 64 "sha256Hex b"] encodeString_plain by (simp_all add: digestBytes_def)
  have names: "length (encodeString ''protocol_version'') = 18" "length (encodeString ''outcome'') = 9"
    "length (encodeString ''failure'') = 9" "length (encodeString ''stdout_retained_sha256'') = 24"
    "length (encodeString ''stderr_retained_sha256'') = 24" "length (encodeString OutcomeExecution) = 11"
    "length (encodeString FailureNone) = 6" "length (formatInt 1) = 1" by code_simp+
  show ?thesis
    by (simp add: preambleJson_def executionPreamble_def encodeJson_JObj memberText_def JInt_def
        WireCurrentVersion_def digest names)
qed

lemma executionPreamble_written:
  "MarshalCanonicalPreamble (executionPreamble output) = Inr (encodeJson (preambleJson (executionPreamble output)))"
proof -
  have digest: "lowerHexDigest (digestBytes b)" for b by (simp add: lowerHexDigest_def digestBytes_def)
  have "ValidatePreamble (executionPreamble output) = Inr ()"
    using digest by (simp add: ValidatePreamble_def executionPreamble_def wire_constants supportedFailures_def)
  then show ?thesis
    using executionPreamble_size [of "output"] by (simp add: MarshalCanonicalPreamble_def MaxPreambleBytes_def)
qed

lemma WriteExecutionExchange_accepts:
  assumes "serving env" and "validateOutput output = Inr ()"
    and "MarshalCanonicalExecutionReport (ot_Report output) = Inr report"
    and "bundleMatches (outputBundle output) (outputFiles output)"
    and "ex_incoming st = frameBytes acknowledgementMarker @ rest"
  shows "\<exists>st'. WriteExecutionExchange env True output st = (Inr (), st') \<and> ex_incoming st' = rest"
proof -
  have w: "accepting (en_Write env)" using assms(1) by (simp add: serving_def)
  note pre = executionPreamble_written [of "output"]
  let ?p = "encodeJson (preambleJson (executionPreamble output))"
  have report: "length report \<le> MaxExecutionReportBytes" "report \<noteq> []"
    using assms(3) by (auto simp: MarshalCanonicalExecutionReport_def bindR_eq_Inr marshalCanonicalRecord_ok reportJson_def)
  have frames: "frameOk (int MaxPreambleBytes) ?p" "frameOk (int MaxExecutionReportBytes) report"
    using executionPreamble_size [of "output"] report
    by (simp_all add: frameOk_def MaxPreambleBytes_def MaxFrameBytes_def MaxExecutionReportBytes_def preambleJson_def)
  obtain s0 where s0: "sendFrame env ?p MaxPreambleBytes st = (Inr (), s0)" by (rule sendFrame_accepts [OF w frames(1)])
  obtain s1 where s1: "sendFrame env report MaxExecutionReportBytes s0 = (Inr (), s1)" by (rule sendFrame_accepts [OF w frames(2)])
  obtain s2 where s2: "writeBytes env (ot_Stdout output) s1 = (Inr (), s2)" "ex_incoming s2 = ex_incoming s1"
    using writeBytes_accepts [OF w] by blast
  obtain s3 where s3: "writeBytes env (ot_Stderr output) s2 = (Inr (), s3)" "ex_incoming s3 = ex_incoming s2"
    using writeBytes_accepts [OF w] by blast
  obtain s4 where s4: "forS (writeArtifact env (outputBundle output)) (outputFiles output) s3 = (Inr (), s4)"
      "ex_incoming s4 = ex_incoming s3"
    using forS_accepts [of "outputFiles output" "writeArtifact env (outputBundle output)" s3]
      writeArtifact_accepts [OF assms(1,4)] by blast
  obtain s5 where s5: "closeOutputS env output s4 = (Inr (), s5)" "ex_incoming s5 = ex_incoming s4"
    using assms(1) by (cases "ot_ArtifactBundle output") (auto simp: closeOutputS_def callS_def serving_def)
  have execution: "WriteExecution env True output st = (Inr (), s5)"
    using assms(2) pre assms(3) s0 s1 s2(1) s3(1) s4(1) s5(1)
    by (simp add: WriteExecution_def closeAlways_def executionPreamble_def outputBundle_def outputFiles_def
        failS_def mapErrS_def bindS_def liftS_def)
  obtain s6 where s6: "sendFrame env terminalMarker MaxExchangeMarkerBytes s5 = (Inr (), s6)"
    by (rule sendFrame_accepts [OF w MaxFrame_small(1)])
  have "ex_incoming s6 = frameBytes acknowledgementMarker @ rest"
    using assms(5) s2(2) s3(2) s4(2) s5(2) sendFrame_extends [OF s0] sendFrame_extends [OF s1] sendFrame_extends [OF s6]
    by simp
  then have "receiveFrame MaxExchangeMarkerBytes s6 = (Inr acknowledgementMarker, s6\<lparr>ex_incoming := rest\<rparr>)"
    by (rule receiveFrame_frame [OF MaxFrame_small(2)])
  then have "finishServerExchange env s5 = (Inr (), s6\<lparr>ex_incoming := rest\<rparr>)"
    using s6 by (simp add: finishServerExchange_def failS_def mapErrS_def bindS_def liftS_def)
  then show ?thesis using execution by (simp add: WriteExecutionExchange_def)
qed

section \<open>The calls of the client\<close>

lemma onError_extends:
  "onError env c m st = (r, st') \<Longrightarrow> P c \<Longrightarrow> (\<And>a s. m st = (a, s) \<Longrightarrow> extends P st s) \<Longrightarrow> extends P st st'"
proof -
  assume *: "onError env c m st = (r, st')" "P c" "\<And>a s. m st = (a, s) \<Longrightarrow> extends P st s"
  obtain s where s: "m st = (r, s)" "if isOk r then st' = s else st' = logCall c s" using onError_cases [OF *(1)] by blast
  have "extends P s (logCall c s)" using *(2) by (simp add: extends_def)
  then show ?thesis using *(3) [OF s(1)] s(2) extends_trans by (cases "isOk r") auto
qed

lemma call_extends: "P c \<Longrightarrow> failS rule (mapErrS g (callS env c)) st = (r, s) \<Longrightarrow> extends P st s"
  using call_logged by (fastforce simp: extends_def)

definition wireCall :: "Call \<Rightarrow> bool" where
  "wireCall c \<longleftrightarrow> isSent c \<or> artifactCall c \<or> isTransaction c"

lemma finishClientExchange_wire: "finishClientExchange env st = (r, st') \<Longrightarrow> extends wireCall st st'"
  using finishClientExchange_extends extends_mono by (metis wireCall_def)

lemma receiveArtifacts_wire:
  assumes "receiveArtifacts env (finishClientExchange env) files st = (r, st')"
  shows "extends wireCall st st'"
proof (cases "files = []")
  case True
  then show ?thesis using assms finishClientExchange_wire by (simp add: receiveArtifacts_def)
next
  case False
  show ?thesis
  proof (cases "en_Sink env")
    case True
    with assms False have all: "bindS (failS ''artifact-transaction-begin-failed'' (mapErrS (\<lambda>_. []) (callS env (SinkBegin files)))) (\<lambda>_.
        onError env SinkAbort (bindS (forS (readArtifact env) files) (\<lambda>_. bindS (finishClientExchange env) (\<lambda>_.
           failS ''artifact-transaction-commit-failed'' (mapErrS (\<lambda>_. []) (callS env SinkCommit)))))) st = (r, st')"
      by (simp add: receiveArtifacts_def)
    show ?thesis using all
    proof (rule extends_bindS)
      fix a s assume "failS ''artifact-transaction-begin-failed'' (mapErrS (\<lambda>_. []) (callS env (SinkBegin files))) st = (a, s)"
      then show "extends wireCall st s" by (rule call_extends [rotated]) (simp add: wireCall_def isTransaction_def)
    next
      fix s
      assume "onError env SinkAbort (bindS (forS (readArtifact env) files) (\<lambda>_. bindS (finishClientExchange env) (\<lambda>_.
           failS ''artifact-transaction-commit-failed'' (mapErrS (\<lambda>_. []) (callS env SinkCommit))))) s = (r, st')"
      then show "extends wireCall s st'"
      proof (rule onError_extends)
        show "wireCall SinkAbort" by (simp add: wireCall_def isTransaction_def)
        fix a u
        assume body: "bindS (forS (readArtifact env) files) (\<lambda>_. bindS (finishClientExchange env) (\<lambda>_.
           failS ''artifact-transaction-commit-failed'' (mapErrS (\<lambda>_. []) (callS env SinkCommit)))) s = (a, u)"
        have files: "extends wireCall x y" if "forS (readArtifact env) files x = (e, y)" for x y e
        proof -
          have "extends artifactCall x y" by (rule forS_extends [OF readArtifact_extends that])
          then show ?thesis by (rule extends_mono) (simp add: wireCall_def)
        qed
        have commit: "extends wireCall x y"
          if "failS ''artifact-transaction-commit-failed'' (mapErrS (\<lambda>_. []) (callS env SinkCommit)) x = (e, y)" for x y e
          using that by (rule call_extends [rotated]) (simp add: wireCall_def isTransaction_def)
        show "extends wireCall s u" using body
          by (elim extends_bindS) (erule files finishClientExchange_wire commit)+
      qed
    qed
  next
    case no: False
    then show ?thesis using assms False by (auto simp: receiveArtifacts_def)
  qed
qed

lemma readResponse_wire:
  assumes "ReadResponseExchange (Some env) st = (r, st')" shows "extends wireCall st st'"
proof -
  have quiet: "extends wireCall x y" if "ex_calls y = ex_calls x" for x y :: Exchange
    using that by (simp add: extends_def)
  have frame: "extends wireCall x y" if "failS rule (receiveFrame m) x = (a, y)" for rule m x a y
    using that receiveFrame_calls quiet by (blast dest: failS_cases)
  have lift: "extends wireCall x y" if "liftS (v :: WireError + 'v) x = (a, y)" for v x a y
    using that by simp
  show ?thesis
    using assms unfolding ReadResponseExchange_def readResponse_def option.case
  proof (elim extends_bindS)
    fix a s assume "failS ''preamble-read-failed'' (receiveFrame MaxPreambleBytes) st = (a, s)"
    then show "extends wireCall st s" by (rule frame)
  next
    fix p a and s u :: Exchange assume "liftS (DecodePreamble (en_Pick env) p) s = (a, u)"
    then show "extends wireCall s u" by simp
  next
    fix p s preamble u
    assume "(if pb_Outcome preamble = OutcomeRejected
        then bindS (finishClientExchange env) (\<lambda>_. liftS (Inl (RemoteError (pb_Failure preamble))))
        else bindS (readOutput preamble) (\<lambda>response.
             bindS (receiveArtifacts env (finishClientExchange env) (sl (am_Files (er_Artifacts (rp_Report response)))))
               (\<lambda>_. liftS (Inr response)))) u = (r, st')"
    then consider "bindS (finishClientExchange env) (\<lambda>_. liftS (Inl (RemoteError (pb_Failure preamble)))) u = (r, st')"
      | "bindS (readOutput preamble) (\<lambda>response.
             bindS (receiveArtifacts env (finishClientExchange env) (sl (am_Files (er_Artifacts (rp_Report response)))))
               (\<lambda>_. liftS (Inr response))) u = (r, st')" by (auto split: if_splits)
    then show "extends wireCall u st'"
    proof cases
      case 1
      then show ?thesis by (rule extends_bindS) (use finishClientExchange_wire in \<open>auto\<close>)
    next
      case 2
      then show ?thesis
      proof (rule extends_bindS)
        fix a v assume "readOutput preamble u = (a, v)"
        then show "extends wireCall u v" using readOutput_ok quiet by blast
      next
        fix response v
        assume "bindS (receiveArtifacts env (finishClientExchange env) (sl (am_Files (er_Artifacts (rp_Report response)))))
               (\<lambda>_. liftS (Inr response)) v = (r, st')"
        then show "extends wireCall v st'" by (rule extends_bindS) (use receiveArtifacts_wire in auto)
      qed
    qed
  qed
qed

definition streamCall :: "Call \<Rightarrow> bool" where
  "streamCall c \<longleftrightarrow> wireCall c \<or> c = TransportClose"

lemma mapErrS_cases: "mapErrS f m st = (r, st') \<Longrightarrow> \<exists>r'. m st = (r', st') \<and> r = mapErr f r'"
  by (cases "m st") (auto simp: mapErrS_def)

lemma exchangeStream_calls:
  assumes "exchangeStream env encoded st = (r, st')" shows "extends streamCall st st'"
  using assms unfolding exchangeStream_def
proof (rule onError_extends)
  show "streamCall TransportClose" by (simp add: streamCall_def)
  fix a s
  assume body: "bindS (mapErrS (\<lambda>_. exchangeError ''request-write-failed'') (sendFrame env encoded MaxExecuteEnvelopeBytes)) (\<lambda>_.
      bindS (mapErrS (\<lambda>cause. ExchangeError ''response-read-failed'' (Some cause))
        (ReadResponseExchange (Some (env\<lparr>en_Sink := True\<rparr>)))) (\<lambda>response.
      bindS (callX env ''connection-close-failed'' TransportClose) (\<lambda>_. liftS (Inr response)))) st = (a, s)"
  have send: "extends streamCall x y"
    if "mapErrS (\<lambda>_. exchangeError ''request-write-failed'') (sendFrame env encoded MaxExecuteEnvelopeBytes) x = (e, y)" for x e y
  proof -
    from that obtain e' where "sendFrame env encoded MaxExecuteEnvelopeBytes x = (e', y)" by (blast dest: mapErrS_cases)
    then have "extends isSent x y" using sendFrame_extends by blast
    then show ?thesis by (rule extends_mono) (simp add: streamCall_def wireCall_def)
  qed
  have read: "extends streamCall x y"
    if "mapErrS (\<lambda>cause. ExchangeError ''response-read-failed'' (Some cause))
        (ReadResponseExchange (Some (env\<lparr>en_Sink := True\<rparr>))) x = (e, y)" for x e y
  proof -
    from that obtain e' where "ReadResponseExchange (Some (env\<lparr>en_Sink := True\<rparr>)) x = (e', y)" by (blast dest: mapErrS_cases)
    then have "extends wireCall x y" by (rule readResponse_wire)
    then show ?thesis by (rule extends_mono) (simp add: streamCall_def)
  qed
  have close: "extends streamCall x y" if "callX env ''connection-close-failed'' TransportClose x = (e, y)" for x e y
    using that by (auto simp: callX_def mapErrS_def callS_def extends_def streamCall_def)
  show "extends streamCall st s" using body
    by (elim extends_bindS) (erule send read close | simp)+
qed

text \<open>A stream that returned a response closed the connection last.\<close>

lemma exchangeStream_ok:
  assumes "honest (en_Store env)" and "exchangeStream env encoded st = (Inr resp, st')"
  shows "\<exists>s s'. sendFrame env encoded MaxExecuteEnvelopeBytes st = (Inr (), s)
    \<and> ReadResponseExchange (Some (env\<lparr>en_Sink := True\<rparr>)) s = (Inr resp, s') \<and> st' = logCall TransportClose s'"
  using assms(2) unfolding exchangeStream_def callX_def io_Inr by auto

end
