(* ===== verification/Session_Properties.thy ===== *)
theory Session_Properties
  imports Session_Facts Codec_Properties System_Properties
begin

text \<open>
  The properties of a connection: what the broker may run, that it answers once and gives its
  resources back, what the client publishes, and that the two agree.
\<close>

section \<open>Samples\<close>

text \<open>A stream and a sink that take everything.\<close>

definition sampleEnv :: Env where
  "sampleEnv = \<lparr>en_Write = \<lambda>_ s. (int (length s), False), en_Store = \<lambda>_ s. (int (length s), False), en_EOF = True,
     en_Sink = True, en_Ok = \<lambda>_. True, en_Pick = hd\<rparr>"

lemma sampleEnv_accepts: "willing sampleEnv" "serving sampleEnv" "honest (en_Write sampleEnv)" "honest (en_Store sampleEnv)"
  by (simp_all add: willing_def serving_def accepting_def honest_def sampleEnv_def)

definition sampleBundle :: Bundle where
  "sampleBundle g p = Some (''{}'', True)"

definition sampleSession :: Session where
  "sampleSession = \<lparr>se_configuration = sampleConfig, se_safeBaseEnvironment = sampleBase, se_resolver = sampleResolver,
     se_runner = \<lparr>rn_collector = Some (\<lambda>_. (\<lparr>ac_Manifest = sampleManifest, ac_Bundle = Some sampleBundle\<rparr>, False)),
        rn_treeTerminationGrace = defaultTreeTerminationGrace,
        rn_artifactCollectionTimeout = defaultArtifactCollectionTimeout\<rparr>,
     se_gatewaySourceSHA = sampleSHA, se_requestReadTimeout = defaultRequestReadTimeout,
     se_responseWriteTimeout = defaultResponseWriteTimeout,
     se_acknowledgementTimeout = defaultAcknowledgementTimeout\<rparr>"

definition sampleAttempt :: Attempt where
  "sampleAttempt = \<lparr>at_CancelledBefore = False, at_CancelledAfter = False, at_StartedAt = sampleInstant,
     at_FinishedAt = sampleInstant, at_Native = failingNative, at_Background = idleRegistry\<rparr>"

definition connection :: "string \<Rightarrow> Exchange" where
  "connection s = \<lparr>ex_incoming = s, ex_calls = []\<rparr>"

lemma connection_simps [simp]: "ex_incoming (connection s) = s" "ex_calls (connection s) = []"
  by (simp_all add: connection_def)

section \<open>The broker\<close>

text \<open>
  C3. Nothing runs without authorization: if a connection has any effect on the workstation, be it
  a command that is run or a background process that is looked up, started or stopped, then
  a whole envelope arrived in one frame within its limit, it decoded, the installation authorized
  it before the context ended, the effects are those of the run of its plan, and each of them is one
  that plan allows: a launch is the plan's own, an artifact collection is the plan's own, and the
  registry is touched under the plan's own session and process, in the way its operation says.
\<close>

theorem effects_authorized:
  assumes "Handle (Some session) (Some env) True attempt st = ((r, st'), effects)" and "effects \<noteq> []"
  shows "\<exists>encoded s envelope plan. receiveFrame MaxExecuteEnvelopeBytes st = (Inr encoded, s)
    \<and> DecodeExecuteEnvelope (en_Pick env) encoded = Inr envelope
    \<and> Authorize (se_configuration session) envelope (se_safeBaseEnvironment session) (Some (se_resolver session)) = Inr plan
    \<and> \<not> at_CancelledBefore attempt \<and> \<not> at_CancelledAfter attempt
    \<and> effects = snd (Run (se_runner session) plan (se_gatewaySourceSHA session) (at_StartedAt attempt)
        (at_FinishedAt attempt) (at_Native attempt) (at_Background attempt))
    \<and> (\<forall>e\<in>set effects. effectAllowed (se_runner session) plan e)"
  using assms(1)
proof (cases rule: Handle_cases)
  case refused
  then show ?thesis using assms(2) by simp
next
  case (decoded encoded s envelope)
  have "\<exists>outcome. ran session attempt envelope (outcome, effects)"
    using decoded(3) by (cases rule: handleEnvelope_cases) (use assms(2) in auto)
  then show ?thesis using decoded(1,2) Run_allowed unfolding ran_def by (metis snd_conv)
qed

text \<open>Why an envelope is refused, if it is: the failure that tells the client so.\<close>

definition refusal :: "Session \<Rightarrow> Attempt \<Rightarrow> ExecuteEnvelope \<Rightarrow> Failure option" where
  "refusal session attempt envelope =
     (if at_CancelledBefore attempt then Some FailureExecutionUnavailable
      else case Authorize (se_configuration session) envelope (se_safeBaseEnvironment session)
             (Some (se_resolver session)) of
        Inl _ \<Rightarrow> Some FailureAuthorizationDenied
      | Inr plan \<Rightarrow>
          if at_CancelledAfter attempt then Some FailureExecutionUnavailable
          else case fst (Run (se_runner session) plan (se_gatewaySourceSHA session) (at_StartedAt attempt)
                 (at_FinishedAt attempt) (at_Native attempt) (at_Background attempt)) of
            Inl _ \<Rightarrow> Some FailureExecutionUnavailable
          | Inr out \<Rightarrow> if bound session envelope (ot_Report out) then None else Some FailureResponseUnavailable)"

lemma handle_refused:
  assumes "refusal session attempt envelope = Some failure"
  shows "\<exists>s effects. handleEnvelope session env attempt envelope st = (rejectSession env failure s, effects) \<and> sends st s []"
proof -
  have "sends st (snd (closeOutputS env out st)) []" for out
    using closeOutputS_sends by (metis prod.collapse)
  moreover have "sends st st []" by (simp add: sends_def)
  ultimately show ?thesis
    using assms
    by (auto simp: refusal_def handleEnvelope_def bound_def isOk_iff split: if_splits sum.splits prod.splits)
qed

lemma handle_answered:
  assumes "refusal session attempt envelope = None"
  shows "\<exists>out effects. ran session attempt envelope (Inr out, effects) \<and> bound session envelope (ot_Report out)
    \<and> handleEnvelope session env attempt envelope st
      = (mapErrS (\<lambda>_. SessionError ''execution-response-write-failed'') (WriteExecutionExchange env True out) st, effects)"
  using assms
  by (auto simp: refusal_def handleEnvelope_def ran_def bound_def isOk_iff split: if_splits sum.splits prod.splits)

text \<open>What a connection leaves to the transport, when it ends without an error.\<close>

lemma handleEnvelope_answers:
  assumes "honest (en_Write env)" and "handleEnvelope session env attempt envelope st = ((Inr (), st'), effects)"
  shows "(\<exists>failure b. refusal session attempt envelope = Some failure \<and> rejectionBytes failure b
      \<and> sends st st' (b @ frameBytes terminalMarker))
    \<or> (\<exists>out contents b. refusal session attempt envelope = None \<and> ran session attempt envelope (Inr out, effects)
      \<and> bound session envelope (ot_Report out) \<and> responseBytes out contents b
      \<and> sends st st' (b @ frameBytes terminalMarker))"
proof (cases "refusal session attempt envelope")
  case (Some failure)
  obtain s where "rejectSession env failure s = (Inr (), st')" "sends st s []"
    using handle_refused [OF Some, of env st] assms(2) by auto
  from rejectSession_sends [OF assms(1) this(1)] this(2) Some show ?thesis by (auto simp: sends_def)
next
  case None
  obtain out where "ran session attempt envelope (Inr out, effects)" "bound session envelope (ot_Report out)"
      and "mapErrS (\<lambda>_. SessionError ''execution-response-write-failed'') (WriteExecutionExchange env True out) st = (Inr (), st')"
    using handle_answered [OF None, of env st] assms(2) by auto
  moreover from this(3) have "WriteExecutionExchange env True out st = (Inr (), st')" by (simp add: mapErrS_Inr)
  ultimately show ?thesis using WriteExecutionExchange_ok [OF assms(1)] None by blast
qed

text \<open>The envelope the control client sends.\<close>

definition executeEnvelope :: "string \<Rightarrow> AcceptedRequestRecord \<Rightarrow> ExecuteEnvelope" where
  "executeEnvelope attemptID accepted = \<lparr>ee_ProtocolVersion = BrokerCurrentVersion, ee_Operation = OperationExecute,
     ee_AttemptID = attemptID, ee_AcceptedRequest = accepted\<rparr>"

lemma executeEnvelope_fields [simp]:
  "ee_AcceptedRequest (executeEnvelope attemptID accepted) = accepted" "ee_AttemptID (executeEnvelope attemptID accepted) = attemptID"
  by (simp_all add: executeEnvelope_def)

lemma envelope_frame:
  assumes "MarshalCanonicalExecuteEnvelope e = Inr encoded" shows "frameOk (int MaxExecuteEnvelopeBytes) encoded"
proof -
  have "encoded = encodeJson (envelopeJson e)" "length encoded \<le> MaxExecuteEnvelopeBytes"
    using assms by (auto simp: MarshalCanonicalExecuteEnvelope_def bindR_eq_Inr Let_def split: if_splits)
  moreover have "encodeJson (envelopeJson e) \<noteq> []" by (simp add: envelopeJson_def)
  moreover have "0 < int MaxExecuteEnvelopeBytes" "int MaxExecuteEnvelopeBytes \<le> MaxFrameBytes" by code_simp+
  ultimately show ?thesis by (simp add: frameOk_def)
qed

lemma decode_delivered:
  assumes "DecodeAcceptedRequestRecord t = Inr accepted"
    and "MarshalCanonicalExecuteEnvelope (executeEnvelope attemptID accepted) = Inr encoded"
  shows "DecodeExecuteEnvelope pick encoded = Inr (executeEnvelope attemptID accepted)"
proof -
  have "wireJson acceptedKind (acceptedJson accepted)"
    using assms(1) accepted_codec.wire_accepted by (auto simp: DecodeAcceptedRequestRecord_ok)
  moreover have "ValidateExecuteEnvelope (executeEnvelope attemptID accepted) = Inr ()"
    using assms(2) by (simp add: MarshalCanonicalExecuteEnvelope_def bindR_eq_Inr)
  ultimately show ?thesis using DecodeExecuteEnvelope_written [OF envelope_wire assms(2)] by simp
qed

text \<open>The broker's view of a connection the client opened.\<close>

lemma Handle_delivered:
  assumes "DecodeAcceptedRequestRecord t = Inr accepted"
    and "MarshalCanonicalExecuteEnvelope (executeEnvelope attemptID accepted) = Inr encoded"
  shows "Handle (Some session) (Some env) True attempt (connection (frameBytes encoded @ rest))
    = handleEnvelope session env attempt (executeEnvelope attemptID accepted) (connection rest)"
proof -
  have rc: "receiveFrame MaxExecuteEnvelopeBytes (connection (frameBytes encoded @ rest)) = (Inr encoded, connection rest)"
    using receiveFrame_frame [OF envelope_frame [OF assms(2)], of "connection (frameBytes encoded @ rest)" rest]
    by (simp add: connection_def)
  note decode_delivered [OF assms, of "en_Pick env"]
  then show ?thesis using rc by (simp add: Handle_def)
qed

section \<open>The control client\<close>

text \<open>How the calls of an exchange end, given its result.\<close>

definition exchangeEnds :: "ExchangeError + unit \<Rightarrow> Call list \<Rightarrow> bool" where
  "exchangeEnds r cs \<longleftrightarrow> (\<exists>pre. (\<forall>c\<in>set pre. c = Dial \<or> streamCall c) \<and>
     ((\<exists>resp. r = Inr () \<and> cs = pre @ [TransportClose, Publish resp])
      \<or> (\<exists>e. r = Inl e \<and> (cs = pre @ [DestinationAbort]
            \<or> (\<exists>resp. cs = pre @ [TransportClose, Publish resp, DestinationAbort])))))"

lemma calls_appended: "extends P st st' \<Longrightarrow> \<exists>cs. ex_calls st' = ex_calls st @ cs \<and> (\<forall>c\<in>set cs. P c)"
  by (simp add: extends_def)

lemma Exchange_body:
  assumes "bindS (exchangeStream env encoded) (\<lambda>response.
      bindS (liftS (failIf (\<not> isOk (ValidateExecutionReportBinding accepted (rp_Report response))
          \<or> er_AttemptID (rp_Report response) \<noteq> attemptID) (exchangeError ''response-binding-invalid''))) (\<lambda>_.
      callX env ''response-publish-failed'' (Publish response))) st = (r, st')"
  shows "(\<exists>e cs. r = Inl e \<and> ex_calls st' = ex_calls st @ cs \<and> (\<forall>c\<in>set cs. streamCall c))
    \<or> (\<exists>resp s. exchangeStream env encoded st = (Inr resp, s) \<and> st' = logCall (Publish resp) s
        \<and> ValidateExecutionReportBinding accepted (rp_Report resp) = Inr () \<and> er_AttemptID (rp_Report resp) = attemptID
        \<and> (r = Inr () \<longleftrightarrow> en_Ok env (ex_calls st')))"
proof -
  obtain a s where a: "exchangeStream env encoded st = (a, s)" by fastforce
  note calls = calls_appended [OF exchangeStream_calls [OF a]]
  show ?thesis
  proof (cases a)
    case (Inl e)
    then have "r = Inl e \<and> st' = s" using assms a by simp
    then show ?thesis using calls by blast
  next
    case (Inr resp)
    show ?thesis
    proof (cases "ValidateExecutionReportBinding accepted (rp_Report resp) = Inr () \<and> er_AttemptID (rp_Report resp) = attemptID")
      case False
      then have "(\<exists>e. r = Inl e) \<and> st' = s" using assms a Inr
        by (auto simp: bindS_def liftS_def failIf_def isOk_iff split: if_splits)
      then show ?thesis using calls by blast
    next
      case True
      then have "callX env ''response-publish-failed'' (Publish resp) s = (r, st')" using assms a Inr
        by (simp add: bindS_def liftS_def failIf_def isOk_iff)
      then have "st' = logCall (Publish resp) s \<and> (r = Inr () \<longleftrightarrow> en_Ok env (ex_calls st'))"
        by (auto simp: callX_def mapErrS_def callS_def split: if_splits)
      then show ?thesis using a Inr True by blast
    qed
  qed
qed

lemma ExchangeRequest_cases:
  assumes "ExchangeRequest True (Some env) cancelled accepted attemptID st = (r, st')"
  obtains (stopped) cs s e where "r = Inl e" "ex_calls s = ex_calls st @ cs" "\<forall>c\<in>set cs. c = Dial \<or> streamCall c"
      "st' = logCall DestinationAbort s"
  | (published) encoded resp s where "MarshalCanonicalExecuteEnvelope (executeEnvelope attemptID accepted) = Inr encoded"
      "exchangeStream env encoded (logCall Dial st) = (Inr resp, s)"
      "ValidateExecutionReportBinding accepted (rp_Report resp) = Inr ()" "er_AttemptID (rp_Report resp) = attemptID"
      "if isOk r then st' = logCall (Publish resp) s else st' = logCall DestinationAbort (logCall (Publish resp) s)"
proof -
  let ?body = "\<lambda>encoded. bindS (exchangeStream env encoded) (\<lambda>response.
      bindS (liftS (failIf (\<not> isOk (ValidateExecutionReportBinding accepted (rp_Report response))
          \<or> er_AttemptID (rp_Report response) \<noteq> attemptID) (exchangeError ''response-binding-invalid''))) (\<lambda>_.
      callX env ''response-publish-failed'' (Publish response)))"
  let ?m = "bindS (liftS (mapErr (\<lambda>_. exchangeError ''envelope-invalid'')
       (MarshalCanonicalExecuteEnvelope (executeEnvelope attemptID accepted)))) (\<lambda>encodedEnvelope.
     bindS (liftS (failIf cancelled (exchangeError ''cancelled''))) (\<lambda>_.
     bindS (callX env ''connect-failed'' Dial) (\<lambda>_. ?body encodedEnvelope)))"
  have "onError env DestinationAbort ?m st = (r, st')"
    using assms by (simp add: ExchangeRequest_def executeEnvelope_def)
  then obtain s where m: "?m st = (r, s)" and st': "if isOk r then st' = s else st' = logCall DestinationAbort s"
    using onError_cases by (metis (no_types, lifting))
  show ?thesis
  proof (cases "MarshalCanonicalExecuteEnvelope (executeEnvelope attemptID accepted)")
    case (Inl e)
    then have "r = Inl (exchangeError ''envelope-invalid'') \<and> s = st" using m by (simp add: bindS_def liftS_def)
    then show ?thesis using st' stopped [of _ s "[]"] by simp
  next
    case (Inr encoded)
    note encoded = this
    show ?thesis
    proof (cases "cancelled \<or> \<not> en_Ok env (ex_calls st @ [Dial])")
      case True
      then have "\<not> isOk r \<and> (s = st \<or> s = logCall Dial st)"
        using m encoded by (auto simp: bindS_def liftS_def failIf_def callX_def mapErrS_def callS_def split: if_splits)
      then obtain e cs where "r = Inl e" "ex_calls s = ex_calls st @ cs" "\<forall>c\<in>set cs. c = Dial"
        by (cases r; fastforce)
      then show ?thesis using st' stopped [of e s cs] by simp
    next
      case False
      then have "?body encoded (logCall Dial st) = (r, s)"
        using m encoded by (simp add: bindS_def [of "liftS _"] liftS_def bindS_def [of "callX _ _ _"] callX_def mapErrS_def callS_def)
      from Exchange_body [OF this] show ?thesis
      proof (elim disjE exE conjE)
        fix e cs assume "r = Inl e" "ex_calls s = ex_calls (logCall Dial st) @ cs" "\<forall>c\<in>set cs. streamCall c"
        then show ?thesis using st' stopped [of e s "Dial # cs"] by simp
      next
        fix resp u
        assume "exchangeStream env encoded (logCall Dial st) = (Inr resp, u)" "s = logCall (Publish resp) u"
          "ValidateExecutionReportBinding accepted (rp_Report resp) = Inr ()" "er_AttemptID (rp_Report resp) = attemptID"
        then show ?thesis using st' published [OF encoded] by (cases "isOk r") simp_all
      qed
    qed
  qed
qed

text \<open>What a stream that returned a response has done.\<close>

lemma exchangeStream_response:
  assumes "honest (en_Store env)" and "exchangeStream env encoded st = (Inr resp, s)"
  shows "\<exists>request received. ex_calls s = ex_calls st @ request @ received @ [TransportClose]
    \<and> (\<forall>c\<in>set request. isSent c) \<and> committed (sl (am_Files (er_Artifacts (rp_Report resp)))) received
    \<and> (\<forall>c\<in>set (request @ received). streamCall c)
    \<and> int (length (rp_Stdout resp)) = om_RetainedBytes (er_Stdout (rp_Report resp))
    \<and> int (length (rp_Stderr resp)) = om_RetainedBytes (er_Stderr (rp_Report resp))"
proof -
  obtain s1 s2 where s12: "sendFrame env encoded MaxExecuteEnvelopeBytes st = (Inr (), s1)"
      "ReadResponseExchange (Some (env\<lparr>en_Sink := True\<rparr>)) s1 = (Inr resp, s2)" "s = logCall TransportClose s2"
    using exchangeStream_ok [OF assms] by blast
  from sendFrame_extends [OF s12(1)] obtain request where
    request: "ex_calls s1 = ex_calls st @ request" "\<forall>c\<in>set request. isSent c" by (auto simp: extends_def)
  have "honest (en_Store (env\<lparr>en_Sink := True\<rparr>))" using assms(1) by simp
  from readResponse_ok [OF this s12(2)] obtain received where
    received: "ex_calls s2 = ex_calls s1 @ received" "committed (sl (am_Files (er_Artifacts (rp_Report resp)))) received"
    and lens: "int (length (rp_Stdout resp)) = om_RetainedBytes (er_Stdout (rp_Report resp))"
      "int (length (rp_Stderr resp)) = om_RetainedBytes (er_Stderr (rp_Report resp))" by blast
  from readResponse_wire [OF s12(2)] received(1) have "\<forall>c\<in>set received. wireCall c" by (auto simp: extends_def)
  then have "\<forall>c\<in>set (request @ received). streamCall c" using request(2) by (auto simp: streamCall_def wireCall_def)
  then show ?thesis using request received lens s12(3)
    by (intro exI [of _ request] exI [of _ received]) simp
qed

lemma plain_stream [simp]: "\<not> streamCall (Publish resp)" "\<not> streamCall DestinationAbort" "\<not> streamCall Dial"
  by (simp_all add: streamCall_def wireCall_def isSent_def artifactCall_def isStored_def isTransaction_def)

text \<open>
  C4. The client publishes only what answers its request: an exchange publishes at most one
  response, after the connection has closed; that response is bound to the accepted request and
  the attempt, its output streams have the lengths its report states, and its artifacts, if any,
  were received whole with their digests and committed before.  An exchange that succeeds ends
  with that publication, one that fails ends with the abort of the destination.
\<close>

theorem published_only_bound:
  assumes "honest (en_Store env)" and "ExchangeRequest True (Some env) cancelled accepted attemptID st = (r, st')"
  shows "\<exists>cs. ex_calls st' = ex_calls st @ cs \<and> exchangeEnds r cs
    \<and> (\<forall>resp. Publish resp \<in> set cs \<longrightarrow>
         ValidateExecutionReportBinding accepted (rp_Report resp) = Inr () \<and> er_AttemptID (rp_Report resp) = attemptID
         \<and> int (length (rp_Stdout resp)) = om_RetainedBytes (er_Stdout (rp_Report resp))
         \<and> int (length (rp_Stderr resp)) = om_RetainedBytes (er_Stderr (rp_Report resp))
         \<and> (\<exists>request received rest. cs = Dial # request @ received @ rest \<and> (\<forall>c\<in>set request. isSent c)
             \<and> committed (sl (am_Files (er_Artifacts (rp_Report resp)))) received \<and> hd rest = TransportClose))"
  using assms(2)
proof (cases rule: ExchangeRequest_cases)
  case (stopped cs s e)
  have "Publish resp \<notin> set cs" for resp using stopped(3) by auto
  then show ?thesis using stopped
    by (intro exI [of _ "cs @ [DestinationAbort]"]) (auto simp: exchangeEnds_def)
next
  case (published encoded resp s)
  from exchangeStream_response [OF assms(1) published(2)] obtain request received where
    calls: "ex_calls s = ex_calls st @ Dial # request @ received @ [TransportClose]"
      "\<forall>c\<in>set request. isSent c" "committed (sl (am_Files (er_Artifacts (rp_Report resp)))) received"
      "\<forall>c\<in>set (request @ received). streamCall c"
    and lens: "int (length (rp_Stdout resp)) = om_RetainedBytes (er_Stdout (rp_Report resp))"
      "int (length (rp_Stderr resp)) = om_RetainedBytes (er_Stderr (rp_Report resp))" by auto
  let ?tail = "if isOk r then [Publish resp] else [Publish resp, DestinationAbort]"
  let ?cs = "(Dial # request @ received) @ TransportClose # ?tail"
  have all: "ex_calls st' = ex_calls st @ ?cs" using published(5) calls(1) by (cases "isOk r") auto
  have pre: "\<forall>c\<in>set (Dial # request @ received). c = Dial \<or> streamCall c" using calls(4) by auto
  have "exchangeEnds r ?cs"
    unfolding exchangeEnds_def by (rule exI [of _ "Dial # request @ received"], intro conjI pre) (cases r; auto)
  moreover have "\<exists>q w rest. ?cs = Dial # q @ w @ rest \<and> (\<forall>c\<in>set q. isSent c)
      \<and> committed (sl (am_Files (er_Artifacts (rp_Report resp)))) w \<and> hd rest = TransportClose"
    using calls(2,3) by (intro exI [of _ request] exI [of _ received] exI [of _ "TransportClose # ?tail"]) simp
  moreover have "Publish x \<notin> set (request @ received)" for x using calls(4) plain_stream(1) by blast
  then have "x = resp" if "Publish x \<in> set ?cs" for x using that by (auto split: if_splits)
  ultimately show ?thesis using all published(3,4) lens by blast
qed

section \<open>Both ends\<close>

lemma willing_sink: "willing env \<Longrightarrow> willing (env\<lparr>en_Sink := True\<rparr>)"
  by (simp add: willing_def)

lemma exchange_call: "willing env \<Longrightarrow> callX env rule c st = (Inr (), logCall c st)"
  by (simp add: callX_def mapErrS_def callS_def willing_def)

lemma ran_int64:
  assumes "ran session attempt envelope (Inr out, effects)"
  shows "isInt64 (om_TotalBytes (er_Stdout (ot_Report out)))" "isInt64 (om_TotalBytes (er_Stderr (ot_Report out)))"
  using assms Run_int64 unfolding ran_def by metis+

text \<open>A client that meets a willing stream which holds a response to its request.\<close>

lemma client_publishes:
  assumes "willing env" and "MarshalCanonicalExecuteEnvelope (executeEnvelope attemptID accepted) = Inr encoded"
    and "responseBytes out contents b" and "ValidateExecutionReportBinding accepted (ot_Report out) = Inr ()"
    and "er_AttemptID (ot_Report out) = attemptID"
    and "isInt64 (om_TotalBytes (er_Stdout (ot_Report out)))" and "isInt64 (om_TotalBytes (er_Stderr (ot_Report out)))"
  shows "\<exists>st'. ExchangeRequest True (Some env) False accepted attemptID (connection (b @ frameBytes terminalMarker)) = (Inr (), st')
    \<and> last (ex_calls st') = Publish \<lparr>rp_Report = ot_Report out, rp_Stdout = ot_Stdout out, rp_Stderr = ot_Stderr out\<rparr>
    \<and> storedBytes (ex_calls st') = concat contents
    \<and> sentBytes (ex_calls st') = frameBytes encoded @ frameBytes acknowledgementMarker"
proof -
  let ?resp = "\<lparr>rp_Report = ot_Report out, rp_Stdout = ot_Stdout out, rp_Stderr = ot_Stderr out\<rparr>"
  let ?st = "logCall Dial (connection (b @ frameBytes terminalMarker))"
  have w: "accepting (en_Write env)" "honest (en_Write env)" using assms(1) by (simp_all add: willing_def accepting_def)
  obtain s1 where s1: "sendFrame env encoded MaxExecuteEnvelopeBytes ?st = (Inr (), s1)"
    by (rule sendFrame_accepts [OF w(1) envelope_frame [OF assms(2)]])
  have incoming: "ex_incoming s1 = b @ frameBytes terminalMarker" using sendFrame_extends [OF s1] by simp
  have request: "sentBytes (ex_calls s1) = frameBytes encoded" using sendFrame_sent [OF w(2) s1] by simp
  have store: "storedBytes (ex_calls s1) = []" using stored_sent sendFrame_extends [OF s1] by fastforce
  obtain s2 where s2: "ReadResponseExchange (Some (env\<lparr>en_Sink := True\<rparr>)) s1 = (Inr ?resp, s2)"
      "storedBytes (ex_calls s2) = concat contents" "sends s1 s2 (frameBytes acknowledgementMarker)"
    using response_delivered_bytes [OF willing_sink [OF assms(1)] assms(3,6,7) incoming] store by auto
  have stream: "exchangeStream env encoded ?st = (Inr ?resp, logCall TransportClose s2)"
    using s1 s2(1) exchange_call [OF assms(1)]
    by (simp add: exchangeStream_def onError_def bindS_def mapErrS_def liftS_def)
  have "ExchangeRequest True (Some env) False accepted attemptID (connection (b @ frameBytes terminalMarker))
      = (Inr (), logCall (Publish ?resp) (logCall TransportClose s2))"
    using assms(2,4,5) exchange_call [OF assms(1)] stream
    by (simp add: ExchangeRequest_def executeEnvelope_def onError_def bindS_def liftS_def failIf_def)
  then show ?thesis using s2(2,3) request by (simp add: sends_def)
qed

lemma client_rejected:
  assumes "willing env" and "MarshalCanonicalExecuteEnvelope (executeEnvelope attemptID accepted) = Inr encoded"
    and "rejectionBytes failure b"
  shows "\<exists>st'. ExchangeRequest True (Some env) False accepted attemptID (connection (b @ frameBytes terminalMarker))
      = (Inl (ExchangeError ''response-read-failed'' (Some (RemoteError failure))), st')
    \<and> last (ex_calls st') = DestinationAbort \<and> storedBytes (ex_calls st') = []
    \<and> sentBytes (ex_calls st') = frameBytes encoded @ frameBytes acknowledgementMarker"
proof -
  let ?st = "logCall Dial (connection (b @ frameBytes terminalMarker))"
  have w: "accepting (en_Write env)" "honest (en_Write env)" using assms(1) by (simp_all add: willing_def accepting_def)
  obtain s1 where s1: "sendFrame env encoded MaxExecuteEnvelopeBytes ?st = (Inr (), s1)"
    by (rule sendFrame_accepts [OF w(1) envelope_frame [OF assms(2)]])
  have incoming: "ex_incoming s1 = b @ frameBytes terminalMarker" using sendFrame_extends [OF s1] by simp
  have request: "sentBytes (ex_calls s1) = frameBytes encoded" using sendFrame_sent [OF w(2) s1] by simp
  have store: "storedBytes (ex_calls s1) = []" using stored_sent sendFrame_extends [OF s1] by fastforce
  obtain s2 where s2: "ReadResponseExchange (Some (env\<lparr>en_Sink := True\<rparr>)) s1 = (Inl (RemoteError failure), s2)"
      "extends isSent s1 s2" "sends s1 s2 (frameBytes acknowledgementMarker)"
    using rejection_read [OF willing_sink [OF assms(1)] assms(3) incoming] by blast
  have "exchangeStream env encoded ?st
      = (Inl (ExchangeError ''response-read-failed'' (Some (RemoteError failure))), logCall TransportClose s2)"
    using s1 s2(1) by (simp add: exchangeStream_def onError_def bindS_def mapErrS_def callS_def)
  then have "ExchangeRequest True (Some env) False accepted attemptID (connection (b @ frameBytes terminalMarker))
      = (Inl (ExchangeError ''response-read-failed'' (Some (RemoteError failure))),
         logCall DestinationAbort (logCall TransportClose s2))"
    using assms(2) exchange_call [OF assms(1)]
    by (simp add: ExchangeRequest_def executeEnvelope_def onError_def bindS_def liftS_def failIf_def callS_def)
  then show ?thesis using s2(2,3) request store stored_sent by (simp add: sends_def)
qed

text \<open>
  C2. The two ends agree: when the broker's side of a connection ends without an error, the bytes
  it sent make a client whose stream and destination accept what they are given either publish
  exactly the report, the output streams and the artifact contents of the run of its request, or,
  exactly when the broker refused the request, fail with nothing stored and with the failure that
  says why: it is the one the broker's bytes carry, that of the authorization when it was denied, of
  the execution when it was cancelled or could not be run, of the response when it was not bound.
  The client sends exactly the bytes the broker read: its request and the acknowledgement.
\<close>

theorem exchange_end_to_end:
  assumes "DecodeAcceptedRequestRecord t = Inr accepted"
    and "MarshalCanonicalExecuteEnvelope (executeEnvelope attemptID accepted) = Inr encoded"
    and "honest (en_Write broker)" and "willing client"
    and "Handle (Some session) (Some broker) True attempt
           (connection (frameBytes encoded @ frameBytes acknowledgementMarker)) = ((Inr (), st'), effects)"
  shows "\<exists>r st''. ExchangeRequest True (Some client) False accepted attemptID (connection (sentBytes (ex_calls st'))) = (r, st'')
    \<and> sentBytes (ex_calls st'') = frameBytes encoded @ frameBytes acknowledgementMarker
    \<and> ((\<exists>out contents bs. refusal session attempt (executeEnvelope attemptID accepted) = None \<and> r = Inr () \<and> ran session attempt (executeEnvelope attemptID accepted) (Inr out, effects)
          \<and> last (ex_calls st'') = Publish \<lparr>rp_Report = ot_Report out, rp_Stdout = ot_Stdout out, rp_Stderr = ot_Stderr out\<rparr>
          \<and> artifactsSent (outputBundle out) (outputFiles out) contents bs \<and> storedBytes (ex_calls st'') = concat contents)
       \<or> (\<exists>failure b. refusal session attempt (executeEnvelope attemptID accepted) = Some failure
          \<and> rejectionBytes failure b \<and> sentBytes (ex_calls st') = b @ frameBytes terminalMarker
          \<and> r = Inl (ExchangeError ''response-read-failed'' (Some (RemoteError failure)))
          \<and> last (ex_calls st'') = DestinationAbort \<and> storedBytes (ex_calls st'') = []))"
proof -
  let ?ack = "frameBytes acknowledgementMarker" let ?envelope = "executeEnvelope attemptID accepted"
  have handled: "handleEnvelope session broker attempt ?envelope (connection ?ack) = ((Inr (), st'), effects)"
    using assms(5) by (simp only: Handle_delivered [OF assms(1,2)])
  from handleEnvelope_answers [OF assms(3) handled] show ?thesis
  proof (elim disjE exE conjE)
    fix failure b
    assume refused: "refusal session attempt ?envelope = Some failure" "rejectionBytes failure b"
      and "sends (connection ?ack) st' (b @ frameBytes terminalMarker)"
    then have sent: "sentBytes (ex_calls st') = b @ frameBytes terminalMarker" by (simp add: sends_def)
    from client_rejected [OF assms(4,2) refused(2)] refused show ?thesis unfolding sent by blast
  next
    fix out contents b
    assume a: "refusal session attempt ?envelope = None" "ran session attempt ?envelope (Inr out, effects)"
      "bound session ?envelope (ot_Report out)" "responseBytes out contents b"
      and "sends (connection ?ack) st' (b @ frameBytes terminalMarker)"
    then have sent: "sentBytes (ex_calls st') = b @ frameBytes terminalMarker" by (simp add: sends_def)
    note ints = ran_int64 [OF a(2)]
    have bound: "ValidateExecutionReportBinding accepted (ot_Report out) = Inr ()" "er_AttemptID (ot_Report out) = attemptID"
      using a(3) by (simp_all add: bound_def)
    obtain bs where bs: "artifactsSent (outputBundle out) (outputFiles out) contents bs"
      using a(4) unfolding responseBytes_def by blast
    from client_publishes [OF assms(4,2) a(4) bound ints] a(1,2) bs show ?thesis unfolding sent by blast
  qed
qed

section \<open>Resources\<close>

lemma finishServerExchange_extends: "finishServerExchange env st = (r, st') \<Longrightarrow> extends isSent st st'"
proof -
  have send: "extends isSent x y" if "failS rule (sendFrame env p m) x = (a, y)" for rule p m x a y
    using that sendFrame_extends by (blast dest: failS_cases)
  have receive: "extends isSent x y" if "failS rule (receiveFrame m) x = (a, y)" for rule m x a y
    using that receiveFrame_calls by (fastforce dest!: failS_cases simp: extends_def)
  assume "finishServerExchange env st = (r, st')"
  then show ?thesis unfolding finishServerExchange_def
    by (elim extends_bindS) (erule send receive | simp)+
qed

lemma rejectSession_extends: "rejectSession env failure st = (r, st') \<Longrightarrow> extends isSent st st'"
proof -
  assume "rejectSession env failure st = (r, st')"
  then obtain r' where *: "WriteRejectionExchange (Some env) failure st = (r', st')"
    unfolding rejectSession_def by (blast dest: mapErrS_cases)
  have rejection: "extends isSent x y" if "WriteRejection (Some env) failure x = (a, y)" for x a y
  proof -
    have send: "extends isSent x (snd (sendFrame env p m x))" for p m by (metis sendFrame_extends prod.collapse)
    show ?thesis using that send
      by (auto simp: WriteRejection_def bindS_def liftS_def failS_def mapErrS_def split: if_splits sum.splits prod.splits)
  qed
  show ?thesis using * unfolding WriteRejectionExchange_def option.case
    by (elim extends_bindS) (erule rejection finishServerExchange_extends)+
qed

lemma ran_unique: "ran session attempt envelope x \<Longrightarrow> ran session attempt envelope y \<Longrightarrow> x = y"
  unfolding ran_def by auto

lemma closeOutputS_calls:
  "ex_calls (snd (closeOutputS env out st)) = ex_calls st @ (case ot_ArtifactBundle out of None \<Rightarrow> [] | Some _ \<Rightarrow> [BundleClose])"
  by (simp add: closeOutputS_def split: option.splits)

lemma sent_tail: "\<forall>c\<in>set cs. isSent c \<Longrightarrow> count_list cs BundleClose = 0 \<and> heldReaders b n cs = n"
  using heldReaders_sent by (auto simp: isSent_def)

text \<open>
  C5. A connection gives back what the run handed over: whatever the transport and the readers do
  and whether the response, a rejection or nothing arrives, the artifact bundle is closed exactly
  once and no reader of it stays open.
\<close>

theorem connection_releases:
  assumes "handleEnvelope session env attempt envelope st = ((r, st'), effects)"
    and "ran session attempt envelope (Inr out, effects)"
  shows "\<exists>cs. ex_calls st' = ex_calls st @ cs
    \<and> count_list cs BundleClose = (if ot_ArtifactBundle out = None then 0 else 1)
    \<and> heldReaders (outputBundle out) 0 cs = 0"
  using assms(1)
proof (cases rule: handleEnvelope_cases)
  case (refused failure)
  then show ?thesis using assms(2) by blast
next
  case (failed e)
  then show ?thesis using ran_unique [OF assms(2)] by auto
next
  case (unbound out')
  then have out: "out' = out" using ran_unique [OF assms(2)] by auto
  from rejectSession_extends [OF unbound(3)] obtain cs where
    cs: "ex_calls st' = ex_calls (snd (closeOutputS env out' st)) @ cs" "\<forall>c\<in>set cs. isSent c" by (auto simp: extends_def)
  show ?thesis using cs(1) sent_tail [OF cs(2)] out
    by (cases "ot_ArtifactBundle out") (simp_all add: closeOutputS_calls holdReader_def)
next
  case (answered out')
  then have out: "out' = out" using ran_unique [OF assms(2)] by auto
  obtain a where a: "WriteExecutionExchange env True out st = (a, st')"
    using answered(3) out by (blast dest: mapErrS_cases)
  obtain b s where b: "WriteExecution env True out st = (b, s)" by fastforce
  from WriteExecution_released [OF b] obtain cs where
    cs: "ex_calls s = ex_calls st @ cs @ (case ot_ArtifactBundle out of None \<Rightarrow> [] | Some _ \<Rightarrow> [BundleClose])"
      "BundleClose \<notin> set cs" "heldReaders (outputBundle out) 0 cs = 0" unfolding released_def by blast
  have "extends isSent s st'"
    using a b finishServerExchange_extends by (cases b) (auto simp: WriteExecutionExchange_def bindS_def)
  then obtain ds where ds: "ex_calls st' = ex_calls s @ ds" "\<forall>c\<in>set ds. isSent c" by (auto simp: extends_def)
  show ?thesis using cs ds(1) sent_tail [OF ds(2)]
    by (cases "ot_ArtifactBundle out") (simp_all add: count_list_0_iff holdReader_def)
qed

text \<open>
  C6. The artifacts of a response are a transaction: however the reading of a response ends, the
  sink saw no transaction, a refused one, one that was begun and committed, and then the response
  was returned, or one that was begun and at last aborted, and then it was not.
\<close>

theorem artifact_transaction_closed:
  assumes "ReadResponseExchange (Some env) st = (r, st')"
  shows "\<exists>cs. ex_calls st' = ex_calls st @ cs
      \<and> transactionEnds (isOk r) (\<not> en_Ok env (ex_calls st')) (filter isTransaction cs)"
  using assms by (rule readResponse_transaction)

end
