(* ===== verification/Session_Liveness.thy ===== *)
theory Session_Liveness
  imports Session_Properties
begin

text \<open>
  Requests that are answered: a report without artifacts always fits its limit, so over a
  transport that works its request is answered to the end.  With artifacts it may not fit.
\<close>

section \<open>The size of a report\<close>

lemma identifier_length: "identifierPattern s \<Longrightarrow> length s \<le> 64"
  by (auto simp: identifierPattern_def matchHeadTail_def split: list.splits)

lemma isLowerHex_length: "isLowerHex n s \<Longrightarrow> length s = n"
  by (simp add: isLowerHex_def)

lemma formatInt_length: "isInt64 n \<Longrightarrow> length (formatInt n) \<le> 20"
proof -
  assume "isInt64 n"
  then have "nat \<bar>n\<bar> < 10 ^ Suc 18" by (auto simp: isInt64_def minInt64_def maxInt64_def)
  from decimal_length [OF this] show ?thesis by (cases "n < 0") (simp_all add: formatInt_def)
qed

lemma fractionOf_length: "0 \<le> ns \<Longrightarrow> ns < 1000000000 \<Longrightarrow> length (fractionOf ns) \<le> 10"
proof -
  assume ns: "0 \<le> ns" "ns < 1000000000"
  have "length (decimal (nat ns)) \<le> Suc 8" using ns by (intro decimal_length) (simp add: nat_less_iff)
  then have "length (padZeros 9 (decimal (nat ns))) \<le> 9" by (simp add: padZeros_def)
  moreover have "length (dropWhile P xs) \<le> length xs" for P and xs :: string by (rule length_dropWhile_le)
  ultimately have "length (dropWhile (\<lambda>c. c = CHR ''0'') (rev (padZeros 9 (decimal (nat ns))))) \<le> 9"
    by (metis le_trans length_rev)
  then show ?thesis by (simp add: fractionOf_def)
qed

lemma timestamp_length:
  assumes "validateCanonicalUTCTimestamp field v = Inr t" shows "length v \<le> 40"
proof -
  let ?secs = "t div nanosPerSecond" and ?ns = "t mod nanosPerSecond"
  let ?sod = "?secs mod 86400" and ?day = "?secs div 86400 + epochDay"
  have v: "v = formatRFC3339Nano t" "0 \<le> yearOf t" "yearOf t \<le> 9999" using assms by (simp_all add: timestamp_ok)
  obtain y m d where civil: "civilOfDay ?day = (y, m, d)" by (cases "civilOfDay ?day") auto
  note c = civilOfDay_correct [OF civil]
  have y: "0 \<le> y" "y < 10 ^ Suc 3" using v(2,3) c(1) by (simp_all add: yearOf_def)
  have "list_all (\<lambda>l. l \<le> 31) (monthLengths (isLeap y))" by (simp add: monthLengths_def)
  moreover have "nat (m - 1) < length (monthLengths (isLeap y))" using c(2,3) by (simp add: monthLengths_def)
  ultimately have "daysIn m y \<le> 31" by (simp add: daysIn_def list_all_length)
  then have d: "0 \<le> d" "d < 100" "0 \<le> m" "m < 100" using c by simp_all
  have hh: "0 \<le> ?sod div 3600" "?sod div 3600 < 100" by simp_all
  have mi: "0 \<le> ?sod mod 3600 div 60" "?sod mod 3600 div 60 < 100" by simp_all
  have ss: "0 \<le> ?sod mod 60" "?sod mod 60 < 100" by simp_all
  have two: "length (appendInt n 2) = 2" if "0 \<le> n" "n < 100" for n
    using appendInt_field(1) [of n 1] that by (simp add: numeral_2_eq_2)
  have four: "length (appendInt y 4) = 4" using appendInt_field(1) [OF y] by (simp add: eval_nat_numeral)
  have "length (fractionOf ?ns) \<le> 10" by (rule fractionOf_length) (simp_all add: nanosPerSecond_def)
  moreover have "v = appendInt y 4 @ CHR ''-'' # appendInt m 2 @ CHR ''-'' # appendInt d 2
        @ CHR ''T'' # appendInt (?sod div 3600) 2 @ CHR '':'' # appendInt (?sod mod 3600 div 60) 2
        @ CHR '':'' # appendInt (?sod mod 60) 2 @ fractionOf ?ns @ ''Z''"
    unfolding v(1) formatRFC3339Nano_def Let_def civil by (simp only: prod.case)
  ultimately show ?thesis
    by (simp only: length_append list.size two [OF d(1,2)] two [OF d(3,4)] two [OF hh] two [OF mi] two [OF ss] four)
qed

lemma status_length: "s \<in> set supportedCommandStatuses \<or> s \<in> set supportedArtifactStatuses \<Longrightarrow> length s \<le> 40"
proof -
  have "list_all (\<lambda>s. length s \<le> 40) (supportedCommandStatuses @ supportedArtifactStatuses)" by code_simp
  then show "s \<in> set supportedCommandStatuses \<or> s \<in> set supportedArtifactStatuses \<Longrightarrow> ?thesis"
    by (auto simp: list_all_iff)
qed

lemma output_size: "outputOk out \<Longrightarrow> isInt64 (om_TotalBytes out) \<Longrightarrow> sizeBound (outputJson out) \<le> 1000"
proof -
  assume out: "outputOk out" "isInt64 (om_TotalBytes out)"
  then have "isInt64 (om_RetainedBytes out)"
    by (auto simp: outputOk_def isInt64_def minInt64_def maxInt64_def MaxOutputBytes_def)
  then have "length (formatInt (om_RetainedBytes out)) \<le> 20" "length (formatInt (om_TotalBytes out)) \<le> 20"
    "length (om_SHA256 out) = 64"
    using out formatInt_length isLowerHex_length by (auto simp: outputOk_def)
  then show ?thesis by (simp add: outputJson_def sizeBound_int)
qed

lemma plain_report_fits:
  assumes "ValidateExecutionReport r = Inr ()" and "er_Artifacts r = failedArtifactManifest []"
    and "isInt64 (om_TotalBytes (er_Stdout r))" and "isInt64 (om_TotalBytes (er_Stderr r))"
  shows "MarshalCanonicalExecutionReport r = Inr (encodeJson (reportJson r))"
proof -
  note valid = assms(1) [unfolded ValidateExecutionReport_ok]
  have wire: "wireJson (KStruct reportFields) (reportJson r)" by (rule report_wire [OF assms(1,3,4)])
  have texts: "length (er_RequestID r) \<le> 64" "length (er_AttemptID r) \<le> 64" "length (er_RequestDigest r) = 64"
    "length (er_GatewaySourceSHA r) = 40" "length (er_StartedAt r) \<le> 40" "length (er_FinishedAt r) \<le> 40"
    using valid identifier_length isLowerHex_length timestamp_length by blast+
  have status: "length (er_CommandStatus r) \<le> 40"
    using valid status_length by (auto simp: validateCommandOutcome_def split: if_splits)
  have code: "sizeBound (jsonPointer JInt (er_ExitCode r)) \<le> 20"
    using valid outcome_wire formatInt_length by (auto simp: jsonPointer_def sizeBound_int split: option.splits)
  have duration: "length (formatInt (er_DurationMilliseconds r)) \<le> 20"
    using valid formatInt_length milliseconds_int64 by auto
  have "length (formatInt 1) = 1" by code_simp
  then have version: "length (formatInt (uint (er_ProtocolVersion r))) = 1" using valid by (simp add: Version_def)
  have manifest: "sizeBound (manifestJson (failedArtifactManifest [])) \<le> 1000" by code_simp
  have "sizeBound (reportJson r) \<le> 262144"
    using texts status code duration version manifest output_size [of "er_Stdout r"] output_size [of "er_Stderr r"] assms(2-4) valid
    by (simp add: reportJson_def reportMembers_def sizeBound_int)
  then show ?thesis using fits_limit [of "reportJson r" MaxExecutionReportBytes] assms(1)
    by (simp add: MarshalCanonicalExecutionReport_def MaxExecutionReportBytes_def)
qed

section \<open>Plain requests\<close>

text \<open>The output of a run without artifacts, from its two streams.\<close>

definition plainOutput :: "ExecutionReport \<Rightarrow> int \<Rightarrow> string \<Rightarrow> string \<Rightarrow> Bundle Output" where
  "plainOutput r limit x y = \<lparr>ot_Report = r, ot_Stdout = take (nat limit) x, ot_Stderr = take (nat limit) y,
     ot_ArtifactBundle = None\<rparr>"

lemma plainOutput_valid:
  assumes "ValidateExecutionReport r = Inr ()" and "er_Artifacts r = failedArtifactManifest []" and "0 \<le> limit"
    and "er_Stdout r = snap_Metadata (streamSnapshot limit x)" and "er_Stderr r = snap_Metadata (streamSnapshot limit y)"
  shows "validateOutput (plainOutput r limit x y) = Inr ()" and "outputFiles (plainOutput r limit x y) = []"
proof -
  show files: "outputFiles (plainOutput r limit x y) = []"
    using assms(2) by (simp add: outputFiles_def plainOutput_def failedArtifactManifest_def)
  have lens: "int (length (take (nat limit) z)) = om_RetainedBytes (snap_Metadata (streamSnapshot limit z))" for z
    using assms(3) by (auto simp: streamSnapshot_def)
  have digest: "\<not> om_Truncated (snap_Metadata (streamSnapshot limit z)) \<longrightarrow>
      digestBytes (take (nat limit) z) = om_SHA256 (snap_Metadata (streamSnapshot limit z))" for z
    by (auto simp: streamSnapshot_def digestBytes_def)
  show "validateOutput (plainOutput r limit x y) = Inr ()"
    unfolding validateOutput_ok files using assms(1,4,5) lens digest by (simp add: plainOutput_def)
qed

text \<open>An answer that is bound and can be written arrives.\<close>

lemma answer_arrives:
  assumes "DecodeAcceptedRequestRecord t = Inr accepted"
    and "MarshalCanonicalExecuteEnvelope (executeEnvelope attemptID accepted) = Inr encoded"
    and "serving broker" and "willing client"
    and "ran session attempt (executeEnvelope attemptID accepted) (Inr out, effects)"
    and "bound session (executeEnvelope attemptID accepted) (ot_Report out)"
    and "validateOutput out = Inr ()" and "MarshalCanonicalExecutionReport (ot_Report out) = Inr report"
    and "bundleMatches (outputBundle out) (outputFiles out)"
  shows "\<exists>st' st''. Handle (Some session) (Some broker) True attempt
        (connection (frameBytes encoded @ frameBytes acknowledgementMarker)) = ((Inr (), st'), effects)
    \<and> ExchangeRequest True (Some client) False accepted attemptID (connection (sentBytes (ex_calls st'))) = (Inr (), st'')
    \<and> last (ex_calls st'') = Publish \<lparr>rp_Report = ot_Report out, rp_Stdout = ot_Stdout out, rp_Stderr = ot_Stderr out\<rparr>"
proof -
  let ?ack = "frameBytes acknowledgementMarker"
  have honest: "honest (en_Write broker)" using assms(3) by (simp add: serving_def accepting_def)
  obtain st' where st': "WriteExecutionExchange broker True out (connection ?ack) = (Inr (), st')"
    using WriteExecutionExchange_accepts [OF assms(3,7,8,9), of "connection ?ack" "[]"] by auto
  have "handleEnvelope session broker attempt (executeEnvelope attemptID accepted) (connection ?ack) = ((Inr (), st'), effects)"
  proof -
    obtain plan where plan: "Authorize (se_configuration session) (executeEnvelope attemptID accepted)
        (se_safeBaseEnvironment session) (Some (se_resolver session)) = Inr plan"
      "Run (se_runner session) plan (se_gatewaySourceSHA session) (at_StartedAt attempt)
        (at_FinishedAt attempt) (at_Native attempt) (at_Background attempt) = (Inr out, effects)"
      "\<not> at_CancelledBefore attempt" "\<not> at_CancelledAfter attempt"
      using assms(5) unfolding ran_def by metis
    then show ?thesis using assms(6) st' by (simp add: handleEnvelope_def bound_def mapErrS_def)
  qed
  then have handle: "Handle (Some session) (Some broker) True attempt (connection (frameBytes encoded @ ?ack)) = ((Inr (), st'), effects)"
    by (simp add: Handle_delivered [OF assms(1,2)])
  obtain contents b where b: "responseBytes out contents b" "sends (connection ?ack) st' (b @ frameBytes terminalMarker)"
    using WriteExecutionExchange_ok [OF honest st'] by blast
  have bound: "ValidateExecutionReportBinding accepted (ot_Report out) = Inr ()" "er_AttemptID (ot_Report out) = attemptID"
    using assms(6) by (simp_all add: bound_def)
  from client_publishes [OF assms(4,2) b(1) bound ran_int64 [OF assms(5)]] b(2) handle
  show ?thesis by (auto simp: sends_def)
qed

text \<open>The streams a request without artifacts produces.\<close>

definition producedStreams :: "Session \<Rightarrow> LaunchPlan \<Rightarrow> Attempt \<Rightarrow> string \<times> string" where
  "producedStreams session plan attempt =
     (if lp_Operation plan = RequestOperationExecute
      then (concat (nt_Stdout (at_Native attempt)), concat (nt_Stderr (at_Native attempt)))
      else case backgroundAnswer plan (fst (fst (dispatchBackground (rn_treeTerminationGrace (se_runner session)) plan
          (at_Native attempt) (at_Background attempt)))) of (status, code, x, y) \<Rightarrow> (x, y))"

lemma plain_run:
  assumes "Authorize (se_configuration session) envelope (se_safeBaseEnvironment session) (Some (se_resolver session)) = Inr plan"
    and "lp_Artifacts plan = []" and "isLowerHex 40 (se_gatewaySourceSHA session)"
    and "\<not> at_CancelledBefore attempt" and "\<not> at_CancelledAfter attempt"
    and "at_StartedAt attempt \<le> at_FinishedAt attempt"
    and "reportableYear (at_StartedAt attempt)" and "reportableYear (at_FinishedAt attempt)"
    and "producedStreams session plan attempt = (x, y)" and "length x < 2 ^ 63" and "length y < 2 ^ 63"
  obtains status code effects where "ran session attempt envelope (Inr (plainOutput
      (assembleReport plan (se_gatewaySourceSHA session) status code (at_StartedAt attempt) (at_FinishedAt attempt)
         (streamSnapshot (lp_MaxOutputBytes plan) x) (streamSnapshot (lp_MaxOutputBytes plan) y) (failedArtifactManifest []))
      (lp_MaxOutputBytes plan) x y), effects)"
    "ValidateExecutionReportBinding (ee_AcceptedRequest envelope)
      (assembleReport plan (se_gatewaySourceSHA session) status code (at_StartedAt attempt) (at_FinishedAt attempt)
         (streamSnapshot (lp_MaxOutputBytes plan) x) (streamSnapshot (lp_MaxOutputBytes plan) y) (failedArtifactManifest [])) = Inr ()"
proof (cases "lp_Operation plan = RequestOperationExecute")
  case True
  then have xy: "x = concat (nt_Stdout (at_Native attempt))" "y = concat (nt_Stderr (at_Native attempt))"
    using assms(9) by (simp_all add: producedStreams_def)
  obtain status code effects where run: "Run (se_runner session) plan (se_gatewaySourceSHA session) (at_StartedAt attempt)
      (at_FinishedAt attempt) (at_Native attempt) (at_Background attempt) = (Inr (plainOutput
      (assembleReport plan (se_gatewaySourceSHA session) status code (at_StartedAt attempt) (at_FinishedAt attempt)
         (streamSnapshot (lp_MaxOutputBytes plan) x) (streamSnapshot (lp_MaxOutputBytes plan) y) (failedArtifactManifest []))
      (lp_MaxOutputBytes plan) x y), effects)"
    using authorized_plain_run [OF assms(1) True assms(2,3,6-8) assms(10,11) [unfolded xy], folded xy]
    unfolding plainOutput_def by blast
  then have "runForeground (se_runner session) plan (se_gatewaySourceSHA session) (at_StartedAt attempt)
      (at_FinishedAt attempt) (at_Native attempt) = (Inr (plainOutput
      (assembleReport plan (se_gatewaySourceSHA session) status code (at_StartedAt attempt) (at_FinishedAt attempt)
         (streamSnapshot (lp_MaxOutputBytes plan) x) (streamSnapshot (lp_MaxOutputBytes plan) y) (failedArtifactManifest []))
      (lp_MaxOutputBytes plan) x y), effects)" using True by (simp add: Run_def)
  from authorized_run_binding [OF assms(1) this] assms(10,11) xy run assms(1,4,5)
  show ?thesis by (intro that [of status code effects]) (auto simp: ran_def plainOutput_def)
next
  case False
  let ?dispatched = "dispatchBackground (rn_treeTerminationGrace (se_runner session)) plan (at_Native attempt) (at_Background attempt)"
  obtain status code where answer: "backgroundAnswer plan (fst (fst ?dispatched)) = (status, code, x, y)"
    using assms(9) False by (auto simp: producedStreams_def split: prod.splits)
  note bg = authorized_background_run [where 'b = Bundle, OF assms(1) False assms(3,6-8) answer assms(10,11)]
  show ?thesis
  proof (rule that [of status "answerExit status code" "map BackgroundDone (snd ?dispatched)"])
    show "ValidateExecutionReportBinding (ee_AcceptedRequest envelope)
      (assembleReport plan (se_gatewaySourceSHA session) status (answerExit status code) (at_StartedAt attempt) (at_FinishedAt attempt)
         (streamSnapshot (lp_MaxOutputBytes plan) x) (streamSnapshot (lp_MaxOutputBytes plan) y) (failedArtifactManifest [])) = Inr ()"
      using bg(3) by simp
  qed (use assms(1,4,5) bg(2) [OF refl] in \<open>simp add: ran_def plainOutput_def\<close>)
qed

lemma plain_answer:
  assumes "DecodeAcceptedRequestRecord t = Inr accepted"
    and "MarshalCanonicalExecuteEnvelope (executeEnvelope attemptID accepted) = Inr encoded"
    and "Authorize (se_configuration session) (executeEnvelope attemptID accepted) (se_safeBaseEnvironment session)
           (Some (se_resolver session)) = Inr plan"
    and "lp_Artifacts plan = []" and "isLowerHex 40 (se_gatewaySourceSHA session)"
    and "\<not> at_CancelledBefore attempt" and "\<not> at_CancelledAfter attempt"
    and "at_StartedAt attempt \<le> at_FinishedAt attempt"
    and "reportableYear (at_StartedAt attempt)" and "reportableYear (at_FinishedAt attempt)"
    and "producedStreams session plan attempt = (x, y)" and "length x < 2 ^ 63" and "length y < 2 ^ 63"
    and "serving broker" and "willing client"
  shows "\<exists>st' effects st'' report. Handle (Some session) (Some broker) True attempt
        (connection (frameBytes encoded @ frameBytes acknowledgementMarker)) = ((Inr (), st'), effects)
    \<and> ExchangeRequest True (Some client) False accepted attemptID (connection (sentBytes (ex_calls st'))) = (Inr (), st'')
    \<and> last (ex_calls st'') = Publish \<lparr>rp_Report = report, rp_Stdout = take (nat (rq_MaxOutputBytes (ar_Request accepted))) x,
        rp_Stderr = take (nat (rq_MaxOutputBytes (ar_Request accepted))) y\<rparr>"
proof -
  let ?report = "\<lambda>status code. assembleReport plan (se_gatewaySourceSHA session) status code (at_StartedAt attempt)
      (at_FinishedAt attempt) (streamSnapshot (lp_MaxOutputBytes plan) x) (streamSnapshot (lp_MaxOutputBytes plan) y)
      (failedArtifactManifest [])"
  obtain status code effects where
    ran: "ran session attempt (executeEnvelope attemptID accepted)
      (Inr (plainOutput (?report status code) (lp_MaxOutputBytes plan) x y), effects)"
    and binding: "ValidateExecutionReportBinding accepted (?report status code) = Inr ()"
    using plain_run [OF assms(3-13)] by auto
  let ?out = "plainOutput (?report status code) (lp_MaxOutputBytes plan) x y"
  have limit: "lp_MaxOutputBytes plan = rq_MaxOutputBytes (ar_Request accepted)" "0 \<le> lp_MaxOutputBytes plan"
    using Authorize_ok(12) [OF assms(3)] authorized_limits [OF assms(3)] by (auto simp: planLimits_def MinOutputBytes_def)
  have valid: "ValidateExecutionReport (?report status code) = Inr ()"
    using binding by (simp add: ValidateExecutionReportBinding_ok)
  have manifest: "er_Artifacts (?report status code) = failedArtifactManifest []" by (simp add: assembleReport_def)
  note out = plainOutput_valid [OF valid manifest limit(2), of x y]
  have ints: "isInt64 (om_TotalBytes (er_Stdout (?report status code)))" "isInt64 (om_TotalBytes (er_Stderr (?report status code)))"
    using assms(12,13) by (simp_all add: streamSnapshot_def isInt64_def minInt64_def maxInt64_def)
  have "bound session (executeEnvelope attemptID accepted) (ot_Report ?out)"
    using binding Authorize_ok(14) [OF assms(3)] by (simp add: bound_def plainOutput_def assembleReport_def)
  moreover have "MarshalCanonicalExecutionReport (ot_Report ?out) = Inr (encodeJson (reportJson (?report status code)))"
    using plain_report_fits [OF valid manifest ints] by (simp add: plainOutput_def)
  moreover have "bundleMatches (outputBundle ?out) (outputFiles ?out)" using out(2) by (simp add: bundleMatches_def)
  ultimately show ?thesis
    using answer_arrives [OF assms(1,2,14,15) ran _ out(1)] limit(1) by (fastforce simp: plainOutput_def)
qed

text \<open>
  C1. Every authorized request without artifacts is answered to the end: for an accepted request
  the client decoded, an installation that authorizes it, an honest clock, streams shorter than
  $2^{63}$ bytes and a transport and destination that work, the broker's side ends without an
  error and the client publishes a response that carries the first bytes of the streams the
  command, or the background operation, produced, up to the limit of the request.
\<close>

theorem plain_request_answered:
  assumes "DecodeAcceptedRequestRecord t = Inr accepted"
    and "MarshalCanonicalExecuteEnvelope (executeEnvelope attemptID accepted) = Inr encoded"
    and "Authorize (se_configuration session) (executeEnvelope attemptID accepted) (se_safeBaseEnvironment session)
           (Some (se_resolver session)) = Inr plan"
    and "lp_Artifacts plan = []" and "isLowerHex 40 (se_gatewaySourceSHA session)"
    and "\<not> at_CancelledBefore attempt" and "\<not> at_CancelledAfter attempt"
    and "at_StartedAt attempt \<le> at_FinishedAt attempt"
    and "reportableYear (at_StartedAt attempt)" and "reportableYear (at_FinishedAt attempt)"
    and "producedStreams session plan attempt = (x, y)" and "length x < 2 ^ 63" and "length y < 2 ^ 63"
    and "serving broker" and "willing client"
  shows "\<exists>st' effects st'' report. Handle (Some session) (Some broker) True attempt
        (connection (frameBytes encoded @ frameBytes acknowledgementMarker)) = ((Inr (), st'), effects)
    \<and> ExchangeRequest True (Some client) False accepted attemptID (connection (sentBytes (ex_calls st'))) = (Inr (), st'')
    \<and> last (ex_calls st'') = Publish \<lparr>rp_Report = report, rp_Stdout = take (nat (rq_MaxOutputBytes (ar_Request accepted))) x,
        rp_Stderr = take (nat (rq_MaxOutputBytes (ar_Request accepted))) y\<rparr>"
  using assms by (rule plain_answer)

section \<open>Reports that do not fit\<close>

text \<open>A lower bound of an encoding: the text the encoder copies.\<close>

fun sizeLower :: "json \<Rightarrow> nat" where
  "sizeLower (JStr s) = (if plainText s then length s else 0)"
| "sizeLower (JArr xs) = sum_list (map sizeLower xs)"
| "sizeLower (JObj ms) = sum_list (map (\<lambda>m. sizeLower (snd m)) ms)"
| "sizeLower _ = 0"

lemma joinWith_lower: "sum_list (map length ps) \<le> length (joinWith sep ps)"
  by (induction sep ps rule: joinWith.induct) auto

lemma sizeLower_encode: "sizeLower j \<le> length (encodeJson j)"
proof (induction j rule: sizeLower.induct)
  case (1 s)
  then show ?case by (simp add: encodeString_plain)
next
  case (2 xs)
  have "sum_list (map sizeLower xs) \<le> sum_list (map (\<lambda>x. length (encodeJson x)) xs)"
    using 2 by (intro sum_list_mono) auto
  also have "\<dots> \<le> length (joinWith '','' (map encodeJson xs))"
    using joinWith_lower [of "map encodeJson xs" "'',''"] by (simp add: comp_def)
  finally show ?case by simp
next
  case (3 ms)
  have "sizeLower (snd m) \<le> length (memberText m)" if "m \<in> set ms" for m
    using 3 [OF that] by (simp add: memberText_def)
  then have "sum_list (map (\<lambda>m. sizeLower (snd m)) ms) \<le> sum_list (map (\<lambda>m. length (memberText m)) ms)"
    by (intro sum_list_mono) auto
  also have "\<dots> \<le> length (joinWith '','' (map memberText ms))"
    using joinWith_lower [of "map memberText ms" "'',''"] by (simp add: comp_def)
  finally show ?case unfolding encodeJson_JObj by simp
qed simp_all

definition longFile :: "char \<Rightarrow> nat \<Rightarrow> ArtifactFile" where
  "longFile c i = \<lparr>af_Group = ''results'', af_Path = replicate (896 + i) c, af_SHA256 = sha256Hex ''{}'', af_SizeBytes = 2\<rparr>"

definition longFiles :: "ArtifactFile list" where
  "longFiles = map (longFile CHR ''a'') [0..<128] @ map (longFile CHR ''b'') [0..<128]"

lemma lowerByte_ab: "lowerByte CHR ''a'' = CHR ''a''" "lowerByte CHR ''b'' = CHR ''b''"
  by code_simp+

lemma longPath_ok:
  assumes "c = CHR ''a'' \<or> c = CHR ''b''" and "i < 128"
  shows "validateArtifactFilePath (replicate (896 + i) c) = Inr ()"
proof -
  let ?p = "replicate (896 + i) c"
  have ascii: "isASCII ?p" using assms(1) by (auto simp: isASCII_replicate)
  have lower: "toLower ?p = ?p"
  proof -
    have "toLower ?p = map lowerByte ?p" using ascii by (simp add: toLower_def)
    then show ?thesis using assms(1) lowerByte_ab by auto
  qed
  have "list_all (\<lambda>s. length s < 896) (''.env'' # forbiddenArtifactSegments)" by code_simp
  moreover have "896 \<le> length ?p" by simp
  ultimately have forbidden: "?p \<notin> set forbiddenArtifactSegments" "?p \<noteq> ''.env''"
    by (force simp only: list_all_iff list.set)+
  have head: "?p = c # replicate (895 + i) c" by (simp flip: replicate_Suc)
  have "splitOn CHR ''/'' ?p = [?p]" using assms(1) by (intro splitOn_single) auto
  moreover have "artifactSegment field ?p = Inr ()" for field
  proof -
    have "\<not> isDotSegment ?p" using head assms(1) by (auto simp: isDotSegment_def)
    moreover have "\<not> containsControlCharacter ?p"
      using assms(1) by (auto simp: containsControlCharacter_def runes_ascii [OF ascii] list_ex_iff)
    moreover have "\<not> hasPrefix ?p ''.env.''" using assms(1) by (subst head) (auto simp: hasPrefix_def)
    ultimately show ?thesis using forbidden by (simp add: artifactSegment_ok lower)
  qed
  moreover have "\<not> hasPrefix ?p ''/''" using assms(1) by (subst head) (auto simp: hasPrefix_def)
  moreover have "\<not> containsAny ?p [CHR 0x5C, CHR '':'', CHR 0x00]" "\<not> containsAny ?p ''*?[''"
    using assms(1) by (auto simp: containsAny_def list_ex_iff)
  moreover have "?p \<noteq> []" using head by simp
  ultimately show ?thesis
    using assms(2) validString_ascii [OF ascii]
    by (simp add: validateArtifactFilePath_def validateRelativeArtifactPath_ok MaxArtifactFilePathBytes_def del: validString.simps)
qed

lemma longFiles_ok: "f \<in> set longFiles \<Longrightarrow> fileOk f \<and> af_Group f = ''results'' \<and> af_SizeBytes f = 2
    \<and> af_SHA256 f = sha256Hex ''{}''"
proof -
  assume "f \<in> set longFiles"
  then obtain c i where f: "f = longFile c i" "c = CHR ''a'' \<or> c = CHR ''b''" "i < 128"
    by (auto simp: longFiles_def)
  have "validGroup ''results''" by code_simp
  then show ?thesis using longPath_ok [OF f(2,3)] f(1) by (simp add: fileOk_def longFile_def limit_defs)
qed

lemma longFiles_distinct: "distinct (map fileIdentity longFiles)"
proof -
  have path: "af_Path f = af_Path g" if "f \<in> set longFiles" "g \<in> set longFiles" "fileIdentity f = fileIdentity g" for f g
    using that fileIdentity_inject longFiles_ok by blast
  have "inj_on fileIdentity (set longFiles)"
  proof (rule inj_onI)
    fix f g assume fg: "f \<in> set longFiles" "g \<in> set longFiles" "fileIdentity f = fileIdentity g"
    from path [OF fg] longFiles_ok [OF fg(1)] longFiles_ok [OF fg(2)] show "f = g"
      by (cases f; cases g) simp
  qed
  moreover have "distinct longFiles"
  proof -
    have one: "distinct (map (longFile c) [0..<128])" for c
      by (simp add: distinct_map inj_on_def longFile_def)
    have "longFile CHR ''a'' i \<noteq> longFile CHR ''b'' j" for i j
      by (simp add: longFile_def replicate_eq_replicate)
    then show ?thesis using one by (auto simp: longFiles_def)
  qed
  ultimately show ?thesis by (simp add: distinct_map)
qed

definition longManifest :: ArtifactManifest where
  "longManifest = \<lparr>am_Status = ''complete'', am_Files = Some longFiles, am_Omissions = Some []\<rparr>"

lemma longManifest_valid: "validateArtifactManifest longManifest = Inr ()"
proof -
  have len: "length longFiles = 256" by (simp add: longFiles_def)
  have "map af_SizeBytes longFiles = map (\<lambda>_. 2) longFiles" using longFiles_ok by simp
  then have "sum_list (map af_SizeBytes longFiles) = 512" using len by (simp only: sum_list_triv)
  moreover note len
  ultimately show ?thesis
    using longFiles_ok longFiles_distinct
    by (auto simp: validateArtifactManifest_ok longManifest_def validateArtifactStatusShape_def
        supportedArtifactStatuses_def artifact_status_defs limit_defs)
qed

definition longReport :: ExecutionReport where "longReport = sampleReport\<lparr>er_Artifacts := longManifest\<rparr>"

lemma longReport_bound: "ValidateExecutionReportBinding sampleAccepted longReport = Inr ()"
proof -
  have valid: "ValidateExecutionReport longReport = Inr ()"
    using sampleReport_valid longManifest_valid by (simp add: ValidateExecutionReport_ok longReport_def)
  have "ValidateExecutionReportBinding sampleAccepted sampleReport = Inr ()" by (rule sampleBinding_valid)
  moreover have "af_Group ` set longFiles \<subseteq> {''results''}" using longFiles_ok by auto
  ultimately show ?thesis using valid
    by (auto simp: ValidateExecutionReportBinding_ok longReport_def longManifest_def acceptedArtifactGroups_def
        sampleAccepted_def sampleRequest_def artifact_status_defs)
qed

lemma longReport_size: "MaxExecutionReportBytes < length (encodeJson (reportJson longReport))"
proof -
  have plain: "plainText (replicate n c)" if "c = CHR ''a'' \<or> c = CHR ''b''" for n c
  proof -
    have "escapeByte CHR ''a'' = ''a''" "escapeByte CHR ''b'' = ''b''" by code_simp+
    then show ?thesis using that by (auto simp: plainText_def list_all_iff)
  qed
  have digest: "plainText (sha256Hex ''{}'')" "length (sha256Hex ''{}'') = 64"
    using hex_plain [of 64] sha256Hex_text(2) by simp_all
  have names: "plainText ''results''" by code_simp
  let ?file = "\<lambda>f. JObj [(''group'', JStr (af_Group f)), (''path'', JStr (af_Path f)),
          (''sha256'', JStr (af_SHA256 f)), (''size_bytes'', JInt (af_SizeBytes f))]"
  have entry: "sizeLower (?file (longFile c i)) = 967 + i" if "c = CHR ''a'' \<or> c = CHR ''b''" for c i
    using plain [OF that] digest names by (simp add: longFile_def JInt_def)
  have total: "sum_list (map (\<lambda>i. 967 + i) [0..<128]) = (131904 :: nat)" by code_simp
  have "sum_list (map (\<lambda>f. sizeLower (?file f)) longFiles) = 263808"
    using entry total by (simp add: longFiles_def comp_def)
  moreover have "sizeLower (manifestJson longManifest) \<ge> sum_list (map (\<lambda>f. sizeLower (?file f)) longFiles)"
    by (simp add: manifestJson_def longManifest_def comp_def)
  moreover have "sizeLower (reportJson longReport) \<ge> sizeLower (manifestJson longManifest)"
    by (simp add: reportJson_def reportMembers_def longReport_def)
  ultimately show ?thesis using sizeLower_encode [of "reportJson longReport"]
    by (simp add: MaxExecutionReportBytes_def)
qed

definition longOutput :: "Bundle Output" where
  "longOutput = \<lparr>ot_Report = longReport, ot_Stdout = ''ok'', ot_Stderr = ''ok'', ot_ArtifactBundle = Some sampleBundle\<rparr>"

text \<open>
  The limits of an artifact manifest and the limit of a report do not fit: there is an output
  whose report is valid and bound to its request, whose streams and bundle agree with it, and
  that passes every check of the writer, but whose report cannot be encoded.  The response is
  then given up before its first byte, and no rejection is sent in its place.
\<close>

theorem valid_report_not_sent:
  "ValidateExecutionReportBinding sampleAccepted (ot_Report longOutput) = Inr ()
   \<and> validateOutput longOutput = Inr () \<and> bundleMatches (outputBundle longOutput) (outputFiles longOutput)
   \<and> WriteExecutionExchange env True longOutput st
      = (Inl (WireError ''report-encode-failed''), logCall BundleClose st)"
proof -
  have files: "outputFiles longOutput = longFiles"
    by (simp add: outputFiles_def longOutput_def longReport_def longManifest_def)
  have binding: "ValidateExecutionReportBinding sampleAccepted (ot_Report longOutput) = Inr ()"
    using longReport_bound by (simp add: longOutput_def)
  have lens: "longFiles \<noteq> []" by (simp add: longFiles_def)
  have valid: "validateOutput longOutput = Inr ()"
  proof -
    have "ValidateExecutionReport longReport = Inr ()" using longReport_bound by (simp add: ValidateExecutionReportBinding_ok)
    then show ?thesis using lens unfolding validateOutput_ok files
      by (simp add: longOutput_def) (simp add: longReport_def sampleReport_def sampleOutput_def digestBytes_def)
  qed
  have readers: "bundleMatches (outputBundle longOutput) (outputFiles longOutput)"
    using longFiles_ok unfolding files by (simp add: bundleMatches_def outputBundle_def longOutput_def sampleBundle_def)
  have report: "\<exists>e. MarshalCanonicalExecutionReport (ot_Report longOutput) = Inl e"
    using longReport_size binding
    by (simp add: MarshalCanonicalExecutionReport_def ValidateExecutionReportBinding_ok longOutput_def marshalCanonicalRecord_def)
  then obtain e where e: "MarshalCanonicalExecutionReport (ot_Report longOutput) = Inl e" by blast
  have pre: "\<exists>p. MarshalCanonicalPreamble (executionPreamble longOutput) = Inr p"
    using executionPreamble_written by blast
  then obtain p where p: "MarshalCanonicalPreamble (executionPreamble longOutput) = Inr p" by blast
  have "WriteExecutionExchange env True longOutput st
      = (Inl (WireError ''report-encode-failed''), logCall BundleClose st)"
    using valid p e
    by (simp add: WriteExecutionExchange_def WriteExecution_def closeAlways_def executionPreamble_def
        bindS_def liftS_def closeOutputS_def callS_def longOutput_def)
  then show ?thesis using binding valid readers by blast
qed

section \<open>Witnesses\<close>

lemma sampleSession_fields [simp]:
  "se_configuration sampleSession = sampleConfig" "se_safeBaseEnvironment sampleSession = sampleBase"
  "se_resolver sampleSession = sampleResolver" "se_gatewaySourceSHA sampleSession = sampleSHA"
  by (simp_all add: sampleSession_def)

lemma sampleAttempt_fields [simp]:
  "\<not> at_CancelledBefore sampleAttempt" "\<not> at_CancelledAfter sampleAttempt" "at_StartedAt sampleAttempt = sampleInstant"
  "at_FinishedAt sampleAttempt = sampleInstant" "at_Native sampleAttempt = failingNative" "at_Background sampleAttempt = idleRegistry"
  by (simp_all add: sampleAttempt_def)

lemma sampleSHA_hex: "isLowerHex 40 sampleSHA"
  by code_simp

lemma sampleEnvelope_execute: "executeEnvelope ''attempt-000001'' sampleAccepted = sampleEnvelope"
  by (simp add: executeEnvelope_def sampleEnvelope_def BrokerCurrentVersion_def OperationExecute_def)

lemma sampleStart_execute: "executeEnvelope ''attempt-000001'' sampleStartAccepted = sampleStartEnvelope"
  by (simp add: executeEnvelope_def sampleEnvelope_def sampleStartEnvelope_def BrokerCurrentVersion_def OperationExecute_def)

lemma sampleStart_wire: "wireJson acceptedKind (acceptedJson sampleStartAccepted)"
proof -
  have "wireJson requestKind (requestJson sampleStartRequest)" by (rule request_wire [OF sampleStart_valid(1)])
  moreover have "isASCII (ar_RequestDigest sampleStartAccepted)" using sha256Hex_text by (simp add: sampleStartAccepted_def)
  ultimately show ?thesis
    using sampleIssue_wire sampleWorkflow_wire sampleTime_text sha256Hex_text
    by (simp add: wire_simps acceptedKind_def acceptedJson_def sampleStartAccepted_def sampleAccepted_def isASCII_replicate
        jsonPointer_Some del: validString.simps)
qed

lemma sampleStart_bound: "sizeBound (acceptedJson sampleStartAccepted) \<le> 10000"
proof -
  have "sizeBound (issueJson sampleIssue) \<le> 1000" "sizeBound (workflowJson sampleWorkflow) \<le> 2000"
    "length (formatInt 1) \<le> 10" "sizeBound (requestJson sampleStartRequest) \<le> 2000" by code_simp+
  then show ?thesis
    using sampleTime_text sha256Hex_text
    by (simp add: acceptedJson_def sampleStartAccepted_def sampleAccepted_def sizeBound_int)
qed

lemma sampleStart_decoded:
  "DecodeAcceptedRequestRecord (encodeJson (acceptedJson sampleStartAccepted)) = Inr sampleStartAccepted"
proof -
  have "ValidateAcceptedRequestRecord sampleStartAccepted = Inr ()"
    using sampleStartEnvelope_valid by (simp add: sampleStartEnvelope_def)
  then have "MarshalCanonicalAcceptedRequestRecord sampleStartAccepted = Inr (encodeJson (acceptedJson sampleStartAccepted))"
    using fits_limit [of "acceptedJson sampleStartAccepted" MaxAcceptedRecordBytes] sampleStart_bound
    by (simp add: MarshalCanonicalAcceptedRequestRecord_def limit_defs)
  then show ?thesis using DecodeAcceptedRequestRecord_written [OF sampleStart_wire] by blast
qed

lemma sampleStart_written:
  "MarshalCanonicalExecuteEnvelope (executeEnvelope ''attempt-000001'' sampleStartAccepted)
     = Inr (encodeJson (envelopeJson sampleStartEnvelope))"
proof -
  have "length (formatInt 1) \<le> 10" by code_simp
  then have "sizeBound (envelopeJson sampleStartEnvelope) \<le> 100000"
    using sampleStart_bound
    by (simp add: envelopeJson_def sampleStartEnvelope_def sampleEnvelope_def sizeBound_int)
  then show ?thesis
    using length_encodeJson [of "envelopeJson sampleStartEnvelope"]
    unfolding sampleStart_execute MarshalCanonicalExecuteEnvelope_def sampleStartEnvelope_valid bindR_simps Let_def
    by (simp add: MaxExecuteEnvelopeBytes_def)
qed

text \<open>A start of a background process that the launcher answers with an error.\<close>

lemma sampleStart_plan:
  obtains plan where "Authorize sampleConfig sampleStartEnvelope sampleBase (Some sampleResolver) = Inr plan"
    "lp_Operation plan = ''start''" "lp_Artifacts plan = []"
proof -
  obtain plan where plan: "Authorize sampleConfig sampleStartEnvelope sampleBase (Some sampleResolver) = Inr plan"
    using sampleStartAuthorize by blast
  have "lp_Operation plan = ''start''"
    by (simp add: Authorize_ok(15) [OF plan] sampleStartEnvelope_def sampleStartAccepted_def sampleStartRequest_def)
  moreover have "lp_Artifacts plan = []"
    by (simp add: Authorize_ok(18) [OF plan] sampleStartEnvelope_def sampleStartAccepted_def sampleStartRequest_def)
  ultimately show ?thesis using that plan by blast
qed

lemma sampleStart_made:
  assumes "Authorize sampleConfig sampleStartEnvelope sampleBase (Some sampleResolver) = Inr plan"
    and "lp_Operation plan = ''start''"
  obtains invocation where "\<And>grace. dispatchBackground grace plan failingNative idleRegistry = ((None, initSystem),
    [RegistryRead (backgroundKey (lp_SessionID plan) (lp_ProcessID plan)), ProcessLaunched (nativeLaunch plan invocation),
     ProcessTerminated grace])"
proof -
  obtain invocation capture where made: "BuildInvocation plan = Inr invocation" "NewCapture (lp_MaxOutputBytes plan) = Inr capture"
    using authorized_invocation [OF assms(1)] authorized_capture [OF assms(1)] by blast
  show ?thesis by (rule that [of invocation]) (rule failing_start [OF _ made], simp add: assms(2) operation_defs)
qed

lemma sampleStart_streams:
  assumes "Authorize sampleConfig sampleStartEnvelope sampleBase (Some sampleResolver) = Inr plan"
    and "lp_Operation plan = ''start''"
  shows "producedStreams sampleSession plan sampleAttempt = ([], ''background process operation denied'' @ [CHR 0x0A])"
proof -
  obtain invocation where "\<And>grace. dispatchBackground grace plan failingNative idleRegistry = ((None, initSystem),
    [RegistryRead (backgroundKey (lp_SessionID plan) (lp_ProcessID plan)), ProcessLaunched (nativeLaunch plan invocation),
     ProcessTerminated grace])"
    using sampleStart_made [OF assms] by blast
  then show ?thesis
    by (simp add: producedStreams_def backgroundAnswer_def backgroundOperationFailure_def operation_defs assms(2))
qed

lemma sampleStart_arrives:
  "\<exists>st' effects st'' report. Handle (Some sampleSession) (Some sampleEnv) True sampleAttempt
        (connection (frameBytes (encodeJson (envelopeJson sampleStartEnvelope)) @ frameBytes acknowledgementMarker)) = ((Inr (), st'), effects)
    \<and> ExchangeRequest True (Some sampleEnv) False sampleStartAccepted ''attempt-000001'' (connection (sentBytes (ex_calls st'))) = (Inr (), st'')
    \<and> last (ex_calls st'') = Publish \<lparr>rp_Report = report, rp_Stdout = take (nat (rq_MaxOutputBytes (ar_Request sampleStartAccepted))) [],
        rp_Stderr = take (nat (rq_MaxOutputBytes (ar_Request sampleStartAccepted))) (''background process operation denied'' @ [CHR 0x0A])\<rparr>"
proof (rule sampleStart_plan)
  fix plan
  assume plan: "Authorize sampleConfig sampleStartEnvelope sampleBase (Some sampleResolver) = Inr plan"
    "lp_Operation plan = ''start''" "lp_Artifacts plan = []"
  then have authorized: "Authorize (se_configuration sampleSession) (executeEnvelope ''attempt-000001'' sampleStartAccepted)
      (se_safeBaseEnvironment sampleSession) (Some (se_resolver sampleSession)) = Inr plan"
    by (simp add: sampleStart_execute)
  show ?thesis
    by (rule plain_answer [OF sampleStart_decoded sampleStart_written authorized plan(3) _ _ _ _ _ _ sampleStart_streams [OF plan(1,2)]
        _ _ sampleEnv_accepts(2,1)]) (simp_all add: sampleSHA_hex sampleYear)
qed

lemma plain_request_answered_witness:
  "\<exists>st' effects. Handle (Some sampleSession) (Some sampleEnv) True sampleAttempt
     (connection (frameBytes (encodeJson (envelopeJson sampleStartEnvelope)) @ frameBytes acknowledgementMarker)) = ((Inr (), st'), effects)"
proof (rule sampleStart_plan)
  fix plan
  assume plan: "Authorize sampleConfig sampleStartEnvelope sampleBase (Some sampleResolver) = Inr plan"
    "lp_Operation plan = ''start''" "lp_Artifacts plan = []"
  then have authorized: "Authorize (se_configuration sampleSession) (executeEnvelope ''attempt-000001'' sampleStartAccepted)
      (se_safeBaseEnvironment sampleSession) (Some (se_resolver sampleSession)) = Inr plan"
    by (simp add: sampleStart_execute)
  from plain_request_answered [OF sampleStart_decoded sampleStart_written authorized plan(3) _ _ _ _ _ _
      sampleStart_streams [OF plan(1,2)] _ _ sampleEnv_accepts(2,1)]
  show ?thesis using sampleSHA_hex sampleYear by auto
qed

lemma exchange_end_to_end_witness:
  "\<exists>(st' :: Exchange) r st''. ExchangeRequest True (Some sampleEnv) False sampleStartAccepted ''attempt-000001''
      (connection (sentBytes (ex_calls st'))) = (r, st'')
    \<and> sentBytes (ex_calls st'') = frameBytes (encodeJson (envelopeJson sampleStartEnvelope)) @ frameBytes acknowledgementMarker"
proof -
  obtain st' effects where "Handle (Some sampleSession) (Some sampleEnv) True sampleAttempt
     (connection (frameBytes (encodeJson (envelopeJson sampleStartEnvelope)) @ frameBytes acknowledgementMarker)) = ((Inr (), st'), effects)"
    using sampleStart_arrives by blast
  from exchange_end_to_end [OF sampleStart_decoded sampleStart_written sampleEnv_accepts(3,1) this]
  show ?thesis by (elim exE conjE) (intro exI conjI, assumption+)
qed

lemma connection_releases_witness:
  "\<exists>st' effects out. handleEnvelope sampleSession sampleEnv sampleAttempt sampleStartEnvelope (connection []) = (st', effects)
     \<and> ran sampleSession sampleAttempt sampleStartEnvelope (Inr out, effects)
     \<and> (\<exists>cs. ex_calls (snd st') = cs \<and> heldReaders (outputBundle out) 0 cs = 0)"
proof (rule sampleStart_plan)
  fix plan
  assume plan: "Authorize sampleConfig sampleStartEnvelope sampleBase (Some sampleResolver) = Inr plan"
    "lp_Operation plan = ''start''" "lp_Artifacts plan = []"
  then have authorized: "Authorize (se_configuration sampleSession) sampleStartEnvelope
      (se_safeBaseEnvironment sampleSession) (Some (se_resolver sampleSession)) = Inr plan" by simp
  obtain out effects where ran: "ran sampleSession sampleAttempt sampleStartEnvelope (Inr out, effects)"
    by (rule plain_run [OF authorized plan(3) _ _ _ _ _ _ sampleStart_streams [OF plan(1,2)]])
      (simp_all add: sampleSHA_hex sampleYear)
  obtain r st' effects' where handle: "handleEnvelope sampleSession sampleEnv sampleAttempt sampleStartEnvelope (connection []) = ((r, st'), effects')"
    by (metis prod.exhaust)
  then have same: "effects' = effects"
    using ran by (cases rule: handleEnvelope_cases) (auto dest: ran_unique)
  from connection_releases [OF handle [unfolded same] ran] handle ran same show ?thesis by auto
qed

text \<open>The start reaches the launcher; the process it gave with an error is terminated.\<close>

lemma effects_authorized_witness:
  "\<exists>plan launch r effects.
     Handle (Some sampleSession) (Some sampleEnv) True sampleAttempt
       (connection (frameBytes (encodeJson (envelopeJson sampleStartEnvelope)) @ frameBytes acknowledgementMarker)) = (r, effects)
     \<and> Authorize sampleConfig sampleStartEnvelope sampleBase (Some sampleResolver) = Inr plan
     \<and> BackgroundDone (ProcessLaunched launch) \<in> set effects
     \<and> (\<exists>invocation. BuildInvocation plan = Inr invocation \<and> launch = nativeLaunch plan invocation)"
proof (rule sampleStart_plan)
  fix plan
  assume plan: "Authorize sampleConfig sampleStartEnvelope sampleBase (Some sampleResolver) = Inr plan"
    "lp_Operation plan = ''start''" "lp_Artifacts plan = []"
  let ?st = "connection (frameBytes (encodeJson (envelopeJson sampleStartEnvelope)) @ frameBytes acknowledgementMarker)"
  obtain r st' e where handle: "Handle (Some sampleSession) (Some sampleEnv) True sampleAttempt ?st = ((r, st'), e)"
    by (metis prod.exhaust)
  have delivered: "handleEnvelope sampleSession sampleEnv sampleAttempt sampleStartEnvelope (connection (frameBytes acknowledgementMarker))
      = ((r, st'), e)"
    using handle by (simp only: Handle_delivered [OF sampleStart_decoded sampleStart_written] sampleStart_execute)
  have e: "e = snd (Run (se_runner sampleSession) plan sampleSHA sampleInstant sampleInstant failingNative idleRegistry)"
    using delivered plan(1) by (auto simp: handleEnvelope_def split: prod.splits sum.splits if_splits)
  obtain invocation where made: "\<And>grace. dispatchBackground grace plan failingNative idleRegistry = ((None, initSystem),
    [RegistryRead (backgroundKey (lp_SessionID plan) (lp_ProcessID plan)), ProcessLaunched (nativeLaunch plan invocation),
     ProcessTerminated grace])"
    using sampleStart_made [OF plan(1,2)] by blast
  have "lp_Operation plan \<noteq> RequestOperationExecute" by (simp add: plan(2) operation_defs)
  then have "validateBackgroundPlan plan sampleSHA = Inr ()"
    by (rule authorized_background_plan [OF plan(1) _ sampleSHA_hex])
  then have effects: "BackgroundDone (ProcessLaunched (nativeLaunch plan invocation)) \<in> set e"
    by (simp add: e Run_def runBackground_def made plan(2) operation_defs)
  then have "e \<noteq> []" by auto
  from effects_authorized [OF handle this] obtain encoded s envelope plan' where
    a: "receiveFrame MaxExecuteEnvelopeBytes ?st = (Inr encoded, s)" "DecodeExecuteEnvelope (en_Pick sampleEnv) encoded = Inr envelope"
      "Authorize (se_configuration sampleSession) envelope (se_safeBaseEnvironment sampleSession) (Some (se_resolver sampleSession)) = Inr plan'"
      "\<forall>x\<in>set e. effectAllowed (se_runner sampleSession) plan' x" by blast
  have "receiveFrame MaxExecuteEnvelopeBytes ?st = (Inr (encodeJson (envelopeJson sampleStartEnvelope)), connection (frameBytes acknowledgementMarker))"
    using receiveFrame_frame [OF envelope_frame [OF sampleStart_written], of ?st] by (simp add: connection_def)
  then have "envelope = sampleStartEnvelope"
    using a(1,2) decode_delivered [OF sampleStart_decoded sampleStart_written, of "en_Pick sampleEnv"] by (simp add: sampleStart_execute)
  then have "plan' = plan" using a(3) plan(1) by simp
  then have "effectAllowed (se_runner sampleSession) plan (BackgroundDone (ProcessLaunched (nativeLaunch plan invocation)))"
    using a(4) effects by blast
  then have "\<exists>i. BuildInvocation plan = Inr i \<and> nativeLaunch plan invocation = nativeLaunch plan i"
    by (simp add: effectAllowed_def backgroundAllowed_def Let_def)
  then show ?thesis using handle plan(1) effects by blast
qed

lemma published_only_bound_witness:
  "\<exists>r st'. ExchangeRequest True (Some sampleEnv) False sampleStartAccepted ''attempt-000001'' (connection []) = (r, st')
     \<and> exchangeEnds r (ex_calls st')"
proof -
  obtain r st' where *: "ExchangeRequest True (Some sampleEnv) False sampleStartAccepted ''attempt-000001'' (connection []) = (r, st')"
    by fastforce
  from published_only_bound [OF sampleEnv_accepts(4) *] * show ?thesis by auto
qed

lemma artifact_transaction_closed_witness:
  "\<exists>r st'. ReadResponseExchange (Some sampleEnv) (connection []) = (r, st')
     \<and> transactionEnds (isOk r) False (filter isTransaction (ex_calls st'))"
proof -
  obtain r st' where *: "ReadResponseExchange (Some sampleEnv) (connection []) = (r, st')" by fastforce
  have "en_Ok sampleEnv calls" for calls by (simp add: sampleEnv_def)
  with artifact_transaction_closed [OF *] * show ?thesis by auto
qed

end
