(* ===== verification/Go_Path.thy ===== *)
theory Go_Path
  imports Platform_Path
begin

text \<open>
  The part of the packages \<open>path\<close> and \<open>path/filepath\<close> (on Linux, where the two agree) the
  sources use: \<open>Clean\<close>, \<open>Join\<close>, \<open>Dir\<close>, \<open>IsAbs\<close>, and two functions of \<open>strings\<close>.
\<close>

section \<open>Lexical paths\<close>

text \<open>The segments kept so far, the last one first.\<close>

fun cleanSegments :: "bool \<Rightarrow> string list \<Rightarrow> string list \<Rightarrow> string list" where
  "cleanSegments rooted kept [] = rev kept"
| "cleanSegments rooted kept (s # ss) =
     (if s = [] \<or> s = ''.'' then cleanSegments rooted kept ss
      else if s = ''..'' then
        (case kept of
           [] \<Rightarrow> cleanSegments rooted (if rooted then [] else [s]) ss
         | k # rest \<Rightarrow> cleanSegments rooted (if k = ''..'' then s # kept else rest) ss)
      else cleanSegments rooted (s # kept) ss)"

definition isAbs :: "string \<Rightarrow> bool" where
  "isAbs p \<longleftrightarrow> hasPrefix p ''/''"

definition pathClean :: "string \<Rightarrow> string" where
  "pathClean p =
     (let segments = joinWith ''/'' (cleanSegments (isAbs p) [] (splitOn CHR ''/'' p)) in
      if isAbs p then ''/'' @ segments else if segments = [] then ''.'' else segments)"

definition pathJoin :: "string list \<Rightarrow> string" where
  "pathJoin elements =
     (case dropWhile (\<lambda>e. e = []) elements of [] \<Rightarrow> [] | es \<Rightarrow> pathClean (joinWith ''/'' es))"

text \<open>Everything up to the last slash, cleaned.\<close>

definition pathDir :: "string \<Rightarrow> string" where
  "pathDir p = pathClean (rev (dropWhile (\<lambda>c. c \<noteq> CHR ''/'') (rev p)))"

section \<open>Functions of \<open>strings\<close>\<close>

text \<open>\<open>strings.Replace(s, old, new, 1)\<close> for a non-empty \<open>old\<close>.\<close>

fun replaceFirst :: "string \<Rightarrow> string \<Rightarrow> string \<Rightarrow> string" where
  "replaceFirst old new [] = []"
| "replaceFirst old new (c # s) =
     (if hasPrefix (c # s) old then new @ drop (length old) (c # s) else c # replaceFirst old new s)"

text \<open>\<open>strings.Contains\<close> and \<open>bytes.Contains\<close>.\<close>

fun containsSub :: "string \<Rightarrow> string \<Rightarrow> bool" where
  "containsSub s sub = (hasPrefix s sub \<or> (case s of [] \<Rightarrow> False | c # t \<Rightarrow> containsSub t sub))"

declare containsSub.simps [simp del]

section \<open>What is clean stays\<close>

definition plainSegment :: "string \<Rightarrow> bool" where
  "plainSegment s \<longleftrightarrow> s \<noteq> [] \<and> s \<noteq> ''.'' \<and> s \<noteq> ''..'' \<and> CHR ''/'' \<notin> set s"

lemma cleanSegments_plain:
  "list_all plainSegment ss \<Longrightarrow> cleanSegments rooted kept ss = rev kept @ ss"
  by (induction ss arbitrary: kept) (auto simp: plainSegment_def)

lemma splitOn_plain:
  "ss \<noteq> [] \<Longrightarrow> list_all plainSegment ss \<Longrightarrow> splitOn CHR ''/'' (joinWith ''/'' ss) = ss"
  by (rule splitOn_joinWith) (auto simp: plainSegment_def list_all_iff)

lemma cleanSegments_empty [simp]: "cleanSegments rooted kept ([] # ss) = cleanSegments rooted kept ss"
  by simp

text \<open>A rooted path of plain segments is clean, also after more plain segments are joined to it.\<close>

lemma isAbs_slash [simp]: "isAbs (CHR ''/'' # s)"
  by (simp add: isAbs_def hasPrefix_def)

lemma pathClean_rooted:
  assumes "ss \<noteq> []" "list_all plainSegment ss"
  shows "pathClean (CHR ''/'' # joinWith ''/'' ss) = CHR ''/'' # joinWith ''/'' ss"
  using splitOn_plain [OF assms] cleanSegments_plain [OF assms(2), of True "[]"]
  by (simp add: pathClean_def)

lemma joinWith_join: "a \<noteq> [] \<Longrightarrow> joinWith sep (joinWith sep a # b) = joinWith sep (a @ b)"
  by (cases b) (simp_all add: joinWith_append)

lemma pathJoin_rooted:
  assumes "ss \<noteq> []" "list_all plainSegment ss" "list_all plainSegment ts"
  shows "pathJoin ((CHR ''/'' # joinWith ''/'' ss) # ts) = CHR ''/'' # joinWith ''/'' (ss @ ts)"
proof -
  have "joinWith ''/'' ((CHR ''/'' # joinWith ''/'' ss) # ts) = CHR ''/'' # joinWith ''/'' (joinWith ''/'' ss # ts)"
    by (cases ts) simp_all
  then show ?thesis
    using pathClean_rooted [of "ss @ ts"] assms by (simp add: pathJoin_def joinWith_join)
qed

end
