(* ===== verification/Install_Plan.thy ===== *)
theory Install_Plan
  imports Go_Path Protocol_Decode
begin

text \<open>
  The installation plan: \<open>internal/installplan/types.go\<close>, \<open>plan.go\<close> and \<open>codec.go\<close>.  A
  specification names the accounts, the roots and the tools of an installation; the plan derives
  every protected path from the installation root, and \<open>Bind\<close> completes the configuration with
  the identities the platform assigned.
\<close>

section \<open>Types (\<open>types.go\<close>)\<close>

definition MaxSpecBytes :: nat where "MaxSpecBytes = 65536"

record Spec =
  sp_ConfigVersion :: "8 word"
  sp_Platform :: Platform
  sp_InstallationRoot :: string
  sp_ControlAccount :: string
  sp_ExecutionAccount :: string
  sp_ApprovedRoots :: "string slice"
  sp_Shells :: "ShellBinding slice"
  sp_ProfileRoot :: string
  sp_TempRoot :: string
  sp_PathEntries :: "string slice"
  sp_Capabilities :: "Capability slice"

record Layout =
  ly_Root :: string
  ly_BinDirectory :: string
  ly_BrokerExecutable :: string
  ly_ControlExecutable :: string
  ly_StateDirectory :: string
  ly_InstallationConfig :: string
  ly_InstallationMetadata :: string
  ly_ExecutionCredential :: string
  ly_RunnerRoot :: string
  ly_RunnerControlExecutable :: string
  ly_RunnerWorkDirectory :: string
  ly_RunnerResponseDirectory :: string

record Operation =
  op_Kind :: string
  op_Target :: string

record Plan =
  pn_PlanVersion :: "8 word"
  pn_Platform :: Platform
  pn_Layout :: Layout
  pn_Operations :: "Operation list"

record IdentityBinding =
  ib_ControlIdentifier :: string
  ib_ControlPrimaryGroupIdentifier :: string
  ib_ExecutionIdentifier :: string
  ib_ExecutionPrimaryGroupIdentifier :: string

datatype PlanError = PlanError (pe_Field: string) (pe_Rule: string)

section \<open>From a specification to a configuration\<close>

text \<open>\<open>append([]T(nil), xs...)\<close> is nil when \<open>xs\<close> is empty; a made slice never is.\<close>

definition appendNil :: "'a slice \<Rightarrow> 'a slice" where
  "appendNil xs = (if sl xs = [] then None else Some (sl xs))"

definition cloneCapabilities :: "Capability slice \<Rightarrow> Capability slice" where
  "cloneCapabilities capabilities = Some (sl capabilities)"

definition configurationFromSpec :: "Spec \<Rightarrow> IdentityBinding \<Rightarrow> Config" where
  "configurationFromSpec spec binding =
     \<lparr>cf_ConfigVersion = sp_ConfigVersion spec, cf_Platform = sp_Platform spec,
      cf_ControlIdentity = \<lparr>pr_Name = sp_ControlAccount spec, pr_Identifier = ib_ControlIdentifier binding,
        pr_PrimaryGroupIdentifier = ib_ControlPrimaryGroupIdentifier binding\<rparr>,
      cf_ExecutionIdentity = \<lparr>pr_Name = sp_ExecutionAccount spec, pr_Identifier = ib_ExecutionIdentifier binding,
        pr_PrimaryGroupIdentifier = ib_ExecutionPrimaryGroupIdentifier binding\<rparr>,
      cf_ApprovedRoots = appendNil (sp_ApprovedRoots spec), cf_Shells = appendNil (sp_Shells spec),
      cf_ProfileRoot = sp_ProfileRoot spec, cf_TempRoot = sp_TempRoot spec,
      cf_PathEntries = appendNil (sp_PathEntries spec),
      cf_Capabilities = cloneCapabilities (sp_Capabilities spec)\<rparr>"

definition translateConfigError :: "ConfigError \<Rightarrow> PlanError" where
  "translateConfigError failure = (case failure of ConfigError field rule \<Rightarrow>
     PlanError (replaceFirst ''execution_identity.name'' ''execution_account''
       (replaceFirst ''control_identity.name'' ''control_account'' field)) rule)"

definition runnerRoot :: "Platform \<Rightarrow> string \<Rightarrow> PlanError + string" where
  "runnerRoot platform installationRoot =
     (let root = installationRoot @ ''-runner'' in
      bindR (failIf (\<not> isOk (ValidateAbsolute platform root) \<or> IsFilesystemRoot platform root)
        (PlanError ''installation_root'' ''derived-runner-root-invalid'')) (\<lambda>_. Inr root))"

section \<open>Validation\<close>

text \<open>The identities a specification is tested with before the accounts exist.\<close>

definition placeholderBinding :: "Platform \<Rightarrow> IdentityBinding" where
  "placeholderBinding platform =
     (if platform = Linux then
        \<lparr>ib_ControlIdentifier = ''uid:1001'', ib_ControlPrimaryGroupIdentifier = ''gid:1001'',
         ib_ExecutionIdentifier = ''uid:1002'', ib_ExecutionPrimaryGroupIdentifier = ''gid:1002''\<rparr>
      else
        \<lparr>ib_ControlIdentifier = ''S-1-5-21-1000-1000-1000-1001'', ib_ControlPrimaryGroupIdentifier = ''S-1-5-32-545'',
         ib_ExecutionIdentifier = ''S-1-5-21-1000-1000-1000-1002'',
         ib_ExecutionPrimaryGroupIdentifier = ''S-1-5-32-545''\<rparr>)"

definition ValidateSpec :: "Spec \<Rightarrow> PlanError + unit" where
  "ValidateSpec spec =
     (let platform = sp_Platform spec; protected = sp_InstallationRoot spec;
          outside = (\<lambda>rule root. failIf (Overlaps platform protected root) (PlanError ''installation_root'' rule)) in
      bindR (checks
        ([failIf (sp_ConfigVersion spec \<noteq> ConfigCurrentVersion) (PlanError ''config_version'' ''unsupported-version''),
          failIf (platform \<noteq> Windows \<and> platform \<noteq> Linux) (PlanError ''platform'' ''unsupported-platform''),
          failIf (\<not> isOk (ValidateAbsolute platform protected) \<or> IsFilesystemRoot platform protected)
            (PlanError ''installation_root'' ''invalid-or-filesystem-root''),
          mapErr translateConfigError (ValidateConfig (configurationFromSpec spec (placeholderBinding platform))),
          failIf (equalFold (sp_ControlAccount spec) (sp_ExecutionAccount spec))
            (PlanError ''execution_account'' ''must-differ-from-control'')]
         @ map (outside ''overlaps-approved-root'') (sl (sp_ApprovedRoots spec))
         @ [outside ''overlaps-profile-root'' (sp_ProfileRoot spec), outside ''overlaps-temp-root'' (sp_TempRoot spec)]))
      (\<lambda>_. bindR (runnerRoot platform protected) (\<lambda>runner.
      let outsideRunner = (\<lambda>rule root. failIf (Overlaps platform runner root) (PlanError ''installation_root'' rule)) in
      checks
        (map (outsideRunner ''derived-runner-overlaps-approved-root'') (sl (sp_ApprovedRoots spec))
         @ [outsideRunner ''derived-runner-overlaps-profile-root'' (sp_ProfileRoot spec),
            outsideRunner ''derived-runner-overlaps-temp-root'' (sp_TempRoot spec)]
         @ map (\<lambda>shell. failIf (Contains platform runner (sb_Executable shell))
             (PlanError ''shells.executable'' ''inside-derived-runner-root'')) (sl (sp_Shells spec))
         @ map (\<lambda>entry. failIf (Contains platform runner entry)
             (PlanError ''path_entries'' ''inside-derived-runner-root'')) (sl (sp_PathEntries spec))))))"

section \<open>Layouts\<close>

definition joinWindows :: "string \<Rightarrow> string list \<Rightarrow> string" where
  "joinWindows root segments = root @ [CHR 0x5C] @ joinWith [CHR 0x5C] segments"

definition joinPlatform :: "Platform \<Rightarrow> string \<Rightarrow> string list \<Rightarrow> string" where
  "joinPlatform platform root segments =
     (if platform = Windows then joinWindows root segments else pathJoin (root # segments))"

definition WindowsLayout :: "string \<Rightarrow> PlanError + Layout" where
  "WindowsLayout root =
     bindR (failIf (\<not> isOk (ValidateAbsolute Windows root) \<or> IsFilesystemRoot Windows root)
       (PlanError ''installation_root'' ''invalid-or-filesystem-root'')) (\<lambda>_.
     bindR (runnerRoot Windows root) (\<lambda>runner.
     Inr \<lparr>ly_Root = root, ly_BinDirectory = joinWindows root [''bin''],
          ly_BrokerExecutable = joinWindows root [''bin'', ''awg-broker.exe''],
          ly_ControlExecutable = joinWindows root [''bin'', ''awg.exe''],
          ly_StateDirectory = joinWindows root [''state''],
          ly_InstallationConfig = joinWindows root [''state'', ''installation.json''],
          ly_InstallationMetadata = joinWindows root [''state'', ''management.json''],
          ly_ExecutionCredential = joinWindows root [''state'', ''execution-credential.dpapi''],
          ly_RunnerRoot = runner, ly_RunnerControlExecutable = joinWindows runner [''_awg'', ''awg.exe''],
          ly_RunnerWorkDirectory = joinWindows runner [''_work''],
          ly_RunnerResponseDirectory = joinWindows runner [''responses'']\<rparr>))"

definition LinuxLayout :: "string \<Rightarrow> PlanError + Layout" where
  "LinuxLayout root =
     bindR (failIf (\<not> isOk (ValidateAbsolute Linux root) \<or> IsFilesystemRoot Linux root)
       (PlanError ''installation_root'' ''invalid-or-filesystem-root'')) (\<lambda>_.
     bindR (runnerRoot Linux root) (\<lambda>runner.
     Inr \<lparr>ly_Root = root, ly_BinDirectory = pathJoin [root, ''bin''],
          ly_BrokerExecutable = pathJoin [root, ''bin'', ''awg-broker''],
          ly_ControlExecutable = pathJoin [root, ''bin'', ''awg''],
          ly_StateDirectory = pathJoin [root, ''state''],
          ly_InstallationConfig = pathJoin [root, ''state'', ''installation.json''],
          ly_InstallationMetadata = pathJoin [root, ''state'', ''management.json''],
          ly_ExecutionCredential = [],
          ly_RunnerRoot = runner, ly_RunnerControlExecutable = pathJoin [runner, ''_awg'', ''awg''],
          ly_RunnerWorkDirectory = pathJoin [runner, ''_work''],
          ly_RunnerResponseDirectory = pathJoin [runner, ''responses'']\<rparr>))"

section \<open>Plans\<close>

definition workloadFilesystemOperations :: "Spec \<Rightarrow> Operation list" where
  "workloadFilesystemOperations spec =
     map (\<lambda>root. \<lparr>op_Kind = ''grant_execution_modify'', op_Target = root\<rparr>) (sl (sp_ApprovedRoots spec))
     @ [\<lparr>op_Kind = ''ensure_execution_profile'', op_Target = sp_ProfileRoot spec\<rparr>,
        \<lparr>op_Kind = ''ensure_execution_temp'', op_Target = sp_TempRoot spec\<rparr>]"

definition planOperations :: "Spec \<Rightarrow> Layout \<Rightarrow> Operation list" where
  "planOperations spec layout =
     [\<lparr>op_Kind = ''ensure_protected_directory'', op_Target = ly_Root layout\<rparr>,
      \<lparr>op_Kind = ''ensure_protected_directory'', op_Target = ly_BinDirectory layout\<rparr>,
      \<lparr>op_Kind = ''ensure_protected_directory'', op_Target = ly_StateDirectory layout\<rparr>,
      \<lparr>op_Kind = ''create_control_runner_root'', op_Target = ly_RunnerRoot layout\<rparr>,
      \<lparr>op_Kind = ''create_control_client_directory'',
       op_Target = joinPlatform (sp_Platform spec) (ly_RunnerRoot layout) [''_awg'']\<rparr>,
      \<lparr>op_Kind = ''write_control_client'', op_Target = ly_RunnerControlExecutable layout\<rparr>,
      \<lparr>op_Kind = ''create_control_runner_work'', op_Target = ly_RunnerWorkDirectory layout\<rparr>,
      \<lparr>op_Kind = ''create_control_runner_responses'', op_Target = ly_RunnerResponseDirectory layout\<rparr>]
     @ workloadFilesystemOperations spec
     @ (if ly_ExecutionCredential layout \<noteq> []
        then [\<lparr>op_Kind = ''write_execution_credential'', op_Target = ly_ExecutionCredential layout\<rparr>] else [])
     @ [\<lparr>op_Kind = ''write_installed_configuration'', op_Target = ly_InstallationConfig layout\<rparr>,
        \<lparr>op_Kind = ''write_installation_metadata'', op_Target = ly_InstallationMetadata layout\<rparr>]"

definition Build :: "Spec \<Rightarrow> PlanError + Plan" where
  "Build spec =
     bindR (ValidateSpec spec) (\<lambda>_.
     bindR (if sp_Platform spec = Windows then WindowsLayout (sp_InstallationRoot spec)
            else LinuxLayout (sp_InstallationRoot spec)) (\<lambda>layout.
     Inr \<lparr>pn_PlanVersion = ConfigCurrentVersion, pn_Platform = sp_Platform spec, pn_Layout = layout,
          pn_Operations = planOperations spec layout\<rparr>))"

definition Bind :: "Spec \<Rightarrow> IdentityBinding \<Rightarrow> PlanError + Config" where
  "Bind spec binding =
     bindR (ValidateSpec spec) (\<lambda>_.
     bindR (mapErr (\<lambda>_. PlanError ''identity_binding'' ''invalid'')
       (ValidateConfig (configurationFromSpec spec binding))) (\<lambda>_.
     Inr (configurationFromSpec spec binding)))"

section \<open>Encoding (\<open>codec.go\<close>)\<close>

definition specKind :: kind where
  "specKind = KStruct
     [(''config_version'', KUint8), (''platform'', KString), (''installation_root'', KString),
      (''control_account'', KString), (''execution_account'', KString), (''approved_roots'', KSlice KString),
      (''shells'', KSlice shellBindingKind), (''profile_root'', KString), (''temp_root'', KString),
      (''path_entries'', KSlice KString), (''capabilities'', KSlice KString)]"

definition specOf :: "json \<Rightarrow> Spec" where
  "specOf j = \<lparr>sp_ConfigVersion = uint8Of (memberOf ''config_version'' j),
     sp_Platform = stringOf (memberOf ''platform'' j),
     sp_InstallationRoot = stringOf (memberOf ''installation_root'' j),
     sp_ControlAccount = stringOf (memberOf ''control_account'' j),
     sp_ExecutionAccount = stringOf (memberOf ''execution_account'' j),
     sp_ApprovedRoots = sliceOf stringOf (memberOf ''approved_roots'' j),
     sp_Shells = sliceOf shellBindingOf (memberOf ''shells'' j),
     sp_ProfileRoot = stringOf (memberOf ''profile_root'' j), sp_TempRoot = stringOf (memberOf ''temp_root'' j),
     sp_PathEntries = sliceOf stringOf (memberOf ''path_entries'' j),
     sp_Capabilities = sliceOf stringOf (memberOf ''capabilities'' j)\<rparr>"

definition DecodeSpec :: "(string list \<Rightarrow> string) \<Rightarrow> string \<Rightarrow> PlanError + Spec" where
  "DecodeSpec pick encoded =
     bindR (mapErr (\<lambda>rule. PlanError ''spec'' (''json-'' @ rule)) (DecodeObject pick specKind MaxSpecBytes encoded)) (\<lambda>j.
     bindR (ValidateSpec (specOf j)) (\<lambda>_. Inr (specOf j)))"

definition layoutJson :: "Layout \<Rightarrow> json" where
  "layoutJson l = JObj
     [(''root'', JStr (ly_Root l)), (''bin_directory'', JStr (ly_BinDirectory l)),
      (''broker_executable'', JStr (ly_BrokerExecutable l)), (''control_executable'', JStr (ly_ControlExecutable l)),
      (''state_directory'', JStr (ly_StateDirectory l)), (''installation_config'', JStr (ly_InstallationConfig l)),
      (''installation_metadata'', JStr (ly_InstallationMetadata l)),
      (''execution_credential'', JStr (ly_ExecutionCredential l)), (''runner_root'', JStr (ly_RunnerRoot l)),
      (''runner_control_executable'', JStr (ly_RunnerControlExecutable l)),
      (''runner_work_directory'', JStr (ly_RunnerWorkDirectory l)),
      (''runner_response_directory'', JStr (ly_RunnerResponseDirectory l))]"

definition planJson :: "Plan \<Rightarrow> json" where
  "planJson p = JObj
     [(''plan_version'', JInt (uint (pn_PlanVersion p))), (''platform'', JStr (pn_Platform p)),
      (''layout'', layoutJson (pn_Layout p)),
      (''operations'', JArr (map (\<lambda>operation. JObj [(''kind'', JStr (op_Kind operation)), (''target'', JStr (op_Target operation))])
         (pn_Operations p)))]"

definition MarshalPlan :: "Plan \<Rightarrow> PlanError + string" where
  "MarshalPlan plan =
     (let encoded = encodeJson (planJson plan) in
      bindR (failIf (length encoded > MaxSpecBytes) (PlanError ''plan'' ''canonical-size-limit'')) (\<lambda>_. Inr encoded))"

end
