(* ===== verification/Install_Host.thy ===== *)
theory Install_Host
  imports State_Result Install_Plan
begin

text \<open>
  The host an installation acts on.  Every native call is an event with the answer it got, and
  the host answers a call from the events before it, so all of its behaviours are covered.  A
  step of the installation acts on the events; while it holds a lease it acts on the lease too.
  The second half is the contract of leases: what a provisioning acquired is recorded in its lease,
  and closing the lease releases exactly that.
\<close>

section \<open>Events and answers\<close>

type_synonym Role = string

definition RoleControl :: Role where "RoleControl = ''control''"
definition RoleExecution :: Role where "RoleExecution = ''execution''"

record Account =
  ac_Name :: string
  ac_Identifier :: string
  ac_PrimaryGroupIdentifier :: string

datatype FileKind = StateFile | ExecutableFile

datatype Service = BrokerService | RunnerService

record RunnerInvocation =
  ri_Executable :: string
  ri_WorkingDirectory :: string
  ri_Arguments :: "string list"
  ri_TokenEnvironment :: string

record ProcessResult =
  pr_Started :: bool
  pr_ExitCode :: int

text \<open>
  Where a call may fail after it took effect, the answer has both: whether the object was created
  and whether the call succeeded.
\<close>

datatype Event =
    ContextAsked bool
  | AccountAsked string "bool option"
  | PasswordAsked "string option"
  | AccountMade string string Account bool bool
  | PolicyApplied Role Account bool
  | AccountDeleted string bool
  | AccountsOpened bool
  | FilesystemOpened bool
  | Converged bool string string bool bool
  | RolledBack string bool
  | Discarded string
  | DirectoryMade string bool bool
  | DirectoryVerified string bool
  | FileMade FileKind string string bool bool
  | FileRemoved FileKind string bool
  | DirectoryRemoved string bool
  | Sealed string "string option"
  | ManagerAsked Service bool
  | ManagerClosed Service bool
  | BinaryChecked string bool
  | ServiceAsked Service "bool option"
  | ServiceMade Service string bool bool bool
  | ServiceApplied Service bool
  | ServiceVerified Service bool
  | ServiceDeleted Service bool
  | ServiceHandleClosed Service bool
  | RunnerRan RunnerInvocation string ProcessResult bool
  | GeneratedSealed bool
  | RegistrationVerified bool
  | StorageMade bool
  | ClientInstalled string bool
  | ExecutableVerified bool
  | StorageClosed bool

text \<open>The answers: \<open>None\<close> is an error without a value.\<close>

record Host =
  ho_ContextEnded :: "Event list \<Rightarrow> bool"
  ho_AccountExists :: "Event list \<Rightarrow> string \<Rightarrow> bool option"
  ho_Generate :: "Event list \<Rightarrow> string option"
  ho_CreateAccount :: "Event list \<Rightarrow> string \<Rightarrow> string \<Rightarrow> Account \<times> bool \<times> bool"
  ho_ApplyPolicy :: "Event list \<Rightarrow> Role \<Rightarrow> Account \<Rightarrow> bool"
  ho_DeleteAccount :: "Event list \<Rightarrow> string \<Rightarrow> bool"
  ho_OpenAccounts :: "Event list \<Rightarrow> bool"
  ho_OpenFilesystem :: "Event list \<Rightarrow> bool"
  ho_Converge :: "Event list \<Rightarrow> bool \<Rightarrow> string \<Rightarrow> string \<Rightarrow> bool \<times> bool"
  ho_Rollback :: "Event list \<Rightarrow> string \<Rightarrow> bool"
  ho_CreateDirectory :: "Event list \<Rightarrow> string \<Rightarrow> bool \<times> bool"
  ho_VerifyDirectory :: "Event list \<Rightarrow> string \<Rightarrow> bool"
  ho_CreateFile :: "Event list \<Rightarrow> FileKind \<Rightarrow> string \<Rightarrow> string \<Rightarrow> bool \<times> bool"
  ho_RemoveFile :: "Event list \<Rightarrow> FileKind \<Rightarrow> string \<Rightarrow> bool"
  ho_RemoveDirectory :: "Event list \<Rightarrow> string \<Rightarrow> bool"
  ho_Seal :: "Event list \<Rightarrow> string \<Rightarrow> string option"
  ho_Connect :: "Event list \<Rightarrow> Service \<Rightarrow> bool"
  ho_Disconnect :: "Event list \<Rightarrow> Service \<Rightarrow> bool"
  ho_BinaryReady :: "Event list \<Rightarrow> string \<Rightarrow> bool"
  ho_ServiceExists :: "Event list \<Rightarrow> Service \<Rightarrow> bool option"
  ho_CreateService :: "Event list \<Rightarrow> Service \<Rightarrow> string \<Rightarrow> bool \<times> bool \<times> bool"
  ho_ApplyService :: "Event list \<Rightarrow> Service \<Rightarrow> bool"
  ho_VerifyService :: "Event list \<Rightarrow> Service \<Rightarrow> bool"
  ho_DeleteService :: "Event list \<Rightarrow> Service \<Rightarrow> bool"
  ho_CloseService :: "Event list \<Rightarrow> Service \<Rightarrow> bool"
  ho_RunRunner :: "Event list \<Rightarrow> RunnerInvocation \<Rightarrow> string \<Rightarrow> ProcessResult \<times> bool"
  ho_SealGenerated :: "Event list \<Rightarrow> bool"
  ho_VerifyRegistration :: "Event list \<Rightarrow> bool"
  ho_ProvisionStorage :: "Event list \<Rightarrow> bool"
  ho_InstallClient :: "Event list \<Rightarrow> string \<Rightarrow> bool"
  ho_VerifyExecutable :: "Event list \<Rightarrow> bool"
  ho_CloseStorage :: "Event list \<Rightarrow> bool"

section \<open>Steps\<close>

type_synonym 'r query = "Event list \<Rightarrow> 'r \<times> Event list"

definition ask :: "(Event list \<Rightarrow> 'r) \<Rightarrow> ('r \<Rightarrow> Event) \<Rightarrow> 'r query" where
  "ask answer event h = (answer h, h @ [event (answer h)])"

definition query :: "'r query \<Rightarrow> (Event list, 'e, 'r) act" where
  "query q h = (case q h of (r, h') \<Rightarrow> (Inr r, h'))"

definition require :: "bool query \<Rightarrow> 'e \<Rightarrow> (Event list, 'e, unit) act" where
  "require q e h = (case q h of (ok, h') \<Rightarrow> (if ok then Inr () else Inl e, h'))"

definition contextError :: "Host \<Rightarrow> 'e \<Rightarrow> (Event list, 'e, unit) act" where
  "contextError host e =
     (\<lambda>h. case ask (ho_ContextEnded host) ContextAsked h of (ended, h') \<Rightarrow> (if ended then Inl e else Inr (), h'))"

text \<open>A loop that attempts every item and remembers whether one failed.\<close>

fun attemptAll :: "('x \<Rightarrow> bool query) \<Rightarrow> 'x list \<Rightarrow> bool query" where
  "attemptAll f [] h = (True, h)"
| "attemptAll f (x # xs) h =
     (case f x h of (ok, h') \<Rightarrow> case attemptAll f xs h' of (rest, h'') \<Rightarrow> (ok \<and> rest, h''))"

text \<open>Steps that hold a lease.\<close>

type_synonym 'l held = "'l \<times> Event list"

definition onHost :: "(Event list, 'e, 'a) act \<Rightarrow> ('l held, 'e, 'a) act" where
  "onHost m st = (case m (snd st) of (r, h) \<Rightarrow> (r, (fst st, h)))"

definition modifyLease :: "('l \<Rightarrow> 'l) \<Rightarrow> ('l held, 'e, unit) act" where
  "modifyLease f st = (Inr (), (f (fst st), snd st))"

text \<open>
  The deferred rollback: when the body fails the lease is closed, and a failure to close replaces
  the error of the body.
\<close>

definition rollbackOnError :: "('l held, 'f, unit) act \<Rightarrow> 'e \<Rightarrow> ('l held, 'e, 'a) act \<Rightarrow> ('l held, 'e, 'a) act" where
  "rollbackOnError close rollbackFailed body st = (case body st of
     (Inr a, st') \<Rightarrow> (Inr a, st')
   | (Inl e, st') \<Rightarrow> (case close st' of
       (Inl _, st'') \<Rightarrow> (Inl rollbackFailed, st'')
     | (Inr _, st'') \<Rightarrow> (Inl e, st'')))"

definition leased :: "'l \<Rightarrow> ('l held, 'e, unit) act \<Rightarrow> (Event list, 'e, 'l) act" where
  "leased l m h = (case m (l, h) of (r, (l', h')) \<Rightarrow> (bindR r (\<lambda>_. Inr l'), h'))"

section \<open>What an installation owns\<close>

datatype Resource =
    OwnedAccount string
  | OwnedChange string
  | OwnedDirectory string
  | OwnedFile FileKind string
  | OwnedService Service
  | OwnedRegistration
  | OwnedStorage

text \<open>
  The objects an event brought into being, and those whose removal it is (a removal that failed
  was attempted all the same).  A change of a directory is handed over by a call without an error;
  with an error the interface leaves it to the native side, whose own undoing is no call of the
  installation.
\<close>

fun gains :: "Event \<Rightarrow> Resource list" where
  "gains (AccountMade name _ _ created _) = (if created then [OwnedAccount name] else [])"
| "gains (Converged _ path _ given ok) = (if given \<and> ok then [OwnedChange path] else [])"
| "gains (DirectoryMade path created _) = (if created then [OwnedDirectory path] else [])"
| "gains (FileMade kind path _ created _) = (if created then [OwnedFile kind path] else [])"
| "gains (ServiceMade s _ present created _) = (if present \<and> created then [OwnedService s] else [])"
| "gains (RunnerRan i _ result _) =
     (if ri_Arguments i \<noteq> [''remove''] \<and> pr_Started result then [OwnedRegistration] else [])"
| "gains (StorageMade given) = (if given then [OwnedStorage] else [])"
| "gains _ = []"

fun losses :: "Event \<Rightarrow> Resource list" where
  "losses (AccountDeleted name _) = [OwnedAccount name]"
| "losses (RolledBack path _) = [OwnedChange path]"
| "losses (DirectoryRemoved path _) = [OwnedDirectory path]"
| "losses (FileRemoved kind path _) = [OwnedFile kind path]"
| "losses (ServiceDeleted s _) = [OwnedService s]"
| "losses (RunnerRan i _ _ _) = (if ri_Arguments i = [''remove''] then [OwnedRegistration] else [])"
| "losses (StorageClosed _) = [OwnedStorage]"
| "losses _ = []"

definition acquired :: "Event list \<Rightarrow> Resource list" where "acquired es = concat (map gains es)"
definition released :: "Event list \<Rightarrow> Resource list" where "released es = concat (map losses es)"

lemma acquired_simps [simp]:
  "acquired [] = []" "acquired (e # es) = gains e @ acquired es" "acquired (es @ fs) = acquired es @ acquired fs"
  by (simp_all add: acquired_def)

lemma released_simps [simp]:
  "released [] = []" "released (e # es) = losses e @ released es" "released (es @ fs) = released es @ released fs"
  by (simp_all add: released_def)

text \<open>A call that neither acquires nor releases, and a query that makes one.\<close>

definition quietEvents :: "Event list \<Rightarrow> bool" where
  "quietEvents es \<longleftrightarrow> acquired es = [] \<and> released es = []"

definition quiet :: "(Event list, 'e, 'a) act \<Rightarrow> bool" where
  "quiet m \<longleftrightarrow> (\<forall>h r h'. m h = (r, h') \<longrightarrow> (\<exists>es. h' = h @ es \<and> quietEvents es))"

lemma quietEvents_append: "quietEvents es \<Longrightarrow> quietEvents fs \<Longrightarrow> quietEvents (es @ fs)"
  by (simp add: quietEvents_def)

lemma quiet_ask: "(\<And>r. gains (event r) = [] \<and> losses (event r) = []) \<Longrightarrow> quiet (query (ask answer event))"
  by (auto simp: quiet_def query_def ask_def quietEvents_def)

lemma quiet_require: "(\<And>r. gains (event r) = [] \<and> losses (event r) = []) \<Longrightarrow> quiet (require (ask answer event) e)"
  by (auto simp: quiet_def require_def ask_def quietEvents_def)

lemma quiet_context [simp]: "quiet (contextError host e)"
  by (auto simp: quiet_def contextError_def ask_def quietEvents_def)

lemma quiet_lift [simp]: "quiet (liftS r)"
  by (auto simp: quiet_def quietEvents_def)

lemma quiet_bind:
  assumes "quiet m" and "\<And>a. quiet (k a)"
  shows "quiet (bindS m k)"
  unfolding quiet_def
proof (intro allI impI)
  fix h r h' assume "bindS m k h = (r, h')"
  then show "\<exists>es. h' = h @ es \<and> quietEvents es"
  proof (cases rule: bindS_cases)
    case (failed e)
    then show ?thesis using assms(1) by (auto simp: quiet_def)
  next
    case (ran a st')
    obtain es fs where "st' = h @ es" "quietEvents es" "h' = st' @ fs" "quietEvents fs"
      using assms ran unfolding quiet_def by blast
    then show ?thesis using quietEvents_append by fastforce
  qed
qed

lemma quiet_for: "(\<And>x. quiet (f x)) \<Longrightarrow> quiet (forS f xs)"
proof (induction xs)
  case (Cons x xs)
  have "quiet (bindS (f x) (\<lambda>_. forS f xs))" by (rule quiet_bind [OF Cons.prems Cons.IH [OF Cons.prems]])
  then show ?case by (simp add: quiet_def)
qed (auto simp: quiet_def quietEvents_def)

text \<open>A loop of removals releases what each of them does, in the order of the loop.\<close>

lemma attemptAll_Cons: "snd (attemptAll f (x # xs) h) = snd (attemptAll f xs (snd (f x h)))"
  by (simp split: prod.splits)

lemma attemptAll_Cons_ask [simp]:
  "snd (attemptAll (\<lambda>x. ask (f x) (g x)) (x # xs) h) = snd (attemptAll (\<lambda>x. ask (f x) (g x)) xs (h @ [g x (f x h)]))"
  by (simp add: ask_def split: prod.splits)

lemma attemptAll_releases:
  assumes "\<And>x r. gains (g x r) = [] \<and> losses (g x r) = [R x]"
  shows "\<exists>es. snd (attemptAll (\<lambda>x. ask (f x) (g x)) xs h) = h @ es \<and> acquired es = [] \<and> released es = map R xs"
proof (induction xs arbitrary: h)
  case (Cons x xs)
  obtain es where "snd (attemptAll (\<lambda>x. ask (f x) (g x)) xs (h @ [g x (f x h)])) = (h @ [g x (f x h)]) @ es"
      "acquired es = []" "released es = map R xs"
    using Cons.IH by blast
  then show ?case using assms by (intro exI [of _ "g x (f x h) # es"]) (simp del: attemptAll.simps(2))
qed simp

section \<open>The contract of leases\<close>

text \<open>
  A live lease owns resources; closing it releases them in reverse order and leaves it spent, as a
  commit does; closing a spent lease does nothing.
\<close>

locale lease =
  fixes owned :: "'l \<Rightarrow> Resource list" and live :: "'l \<Rightarrow> bool" and spent :: "'l \<Rightarrow> bool"
    and commit :: "('l held, 'f, unit) act" and close :: "('l held, 'f, unit) act"
  assumes close_releases: "live l \<Longrightarrow> close (l, h) = (r, (l', h')) \<Longrightarrow>
      spent l' \<and> (\<exists>es. h' = h @ es \<and> acquired es = [] \<and> released es = rev (owned l))"
    and close_again: "spent l \<Longrightarrow> close (l, h) = (r, (l', h')) \<Longrightarrow> r = Inr () \<and> h' = h \<and> spent l'"
    and commit_keeps: "live l \<Longrightarrow> commit (l, h) = (Inr (), (l', h')) \<Longrightarrow>
      spent l' \<and> (\<exists>es. h' = h @ es \<and> quietEvents es)"
begin

lemma closed_once:
  assumes "live l \<or> spent l" "close (l, h) = (r, (l', h'))" "close (l', h') = (r2, (l2, h2))"
  shows "r2 = Inr () \<and> h2 = h'"
proof -
  have "spent l'"
    using assms(1) close_releases [OF _ assms(2)] close_again [OF _ assms(2)] by blast
  then show ?thesis using close_again assms(3) by blast
qed

lemma committed_stays:
  assumes "live l" "commit (l, h) = (Inr (), (l', h'))" "close (l', h') = (r, (l2, h2))"
  shows "r = Inr () \<and> (\<exists>es. h2 = h @ es \<and> released es = [])"
  using commit_keeps [OF assms(1,2)] close_again [OF _ assms(3)] by (auto simp: quietEvents_def)

text \<open>
  A step that keeps the lease truthful: what it acquired is owned, but for what it released again
  before it failed.  \<open>P\<close> is what the steps of one phase know of the lease.
\<close>

definition tracks :: "('l \<Rightarrow> bool) \<Rightarrow> ('l held, 'e, 'a) act \<Rightarrow> bool" where
  "tracks P m \<longleftrightarrow> (\<forall>l h r l' h'. live l \<longrightarrow> P l \<longrightarrow> m (l, h) = (r, (l', h')) \<longrightarrow> live l' \<and> P l'
     \<and> (\<exists>es g. h' = h @ es \<and> owned l' @ g = owned l @ acquired es \<and> released es = rev g \<and> (isOk r \<longrightarrow> g = [])))"

lemma tracksI:
  assumes "\<And>l h r l' h'. live l \<Longrightarrow> P l \<Longrightarrow> m (l, h) = (r, (l', h')) \<Longrightarrow> live l' \<and> P l'
     \<and> (\<exists>es g. h' = h @ es \<and> owned l' @ g = owned l @ acquired es \<and> released es = rev g \<and> (isOk r \<longrightarrow> g = []))"
  shows "tracks P m"
  using assms unfolding tracks_def by blast

lemma tracksD:
  assumes "tracks P m" "live l" "P l" "m (l, h) = (r, (l', h'))"
  obtains es g where "live l'" "P l'" "h' = h @ es" "owned l' @ g = owned l @ acquired es" "released es = rev g"
    "isOk r \<longrightarrow> g = []"
  using assms(1) [unfolded tracks_def, rule_format, OF assms(2-4)] that by blast

lemma tracks_bind:
  assumes "tracks P m" and "\<And>a. tracks P (k a)"
  shows "tracks P (bindS m k)"
proof (rule tracksI)
  fix l h r l' h' assume l: "live l" "P l" and "bindS m k (l, h) = (r, (l', h'))"
  from this(3) show "live l' \<and> P l' \<and> (\<exists>es g. h' = h @ es \<and> owned l' @ g = owned l @ acquired es
      \<and> released es = rev g \<and> (isOk r \<longrightarrow> g = []))"
  proof (cases rule: bindS_cases)
    case (failed e)
    obtain es g where "live l'" "P l'" "h' = h @ es" "owned l' @ g = owned l @ acquired es" "released es = rev g"
      using tracksD [OF assms(1) l failed(1)] by blast
    then show ?thesis using failed(2) by (intro conjI exI [of _ es] exI [of _ g]) simp_all
  next
    case (ran a st')
    obtain l1 h1 where st': "st' = (l1, h1)" by (cases st')
    obtain es where first: "live l1" "P l1" "h1 = h @ es" "owned l1 = owned l @ acquired es" "released es = []"
      using tracksD [OF assms(1) l ran(1) [unfolded st']] by (metis append_Nil2 isOk_simps(2) rev.simps(1))
    obtain fs g where "live l'" "P l'" "h' = h1 @ fs" "owned l' @ g = owned l1 @ acquired fs" "released fs = rev g"
        "isOk r \<longrightarrow> g = []"
      using tracksD [OF assms(2) first(1,2) ran(2) [unfolded st']] by blast
    then show ?thesis using first by (intro conjI exI [of _ "es @ fs"] exI [of _ g]) simp_all
  qed
qed

lemma tracks_quiet:
  assumes "quiet m"
  shows "tracks P (onHost m)"
proof (rule tracksI)
  fix l h r l' h' assume l: "live l" "P l" and m: "onHost m (l, h) = (r, (l', h'))"
  then have "m h = (r, h')" "l' = l" by (auto simp: onHost_def split: prod.splits)
  then obtain es where "h' = h @ es" "quietEvents es" using assms unfolding quiet_def by blast
  then show "live l' \<and> P l' \<and> (\<exists>es g. h' = h @ es \<and> owned l' @ g = owned l @ acquired es
      \<and> released es = rev g \<and> (isOk r \<longrightarrow> g = []))"
    using l \<open>l' = l\<close> by (intro conjI exI [of _ es] exI [of _ "[]"]) (simp_all add: quietEvents_def)
qed

lemma tracks_lift: "tracks P (liftS r)"
  by (rule tracksI) (auto intro: exI [of _ "[]"])

lemma tracks_map:
  assumes "tracks P m"
  shows "tracks P (mapErrS f m)"
proof (rule tracksI)
  fix l h r l' h' assume l: "live l" "P l" and run: "mapErrS f m (l, h) = (r, (l', h'))"
  then have m: "m (l, h) = (fst (m (l, h)), (l', h'))" and same: "isOk r = isOk (fst (m (l, h)))"
    by (cases "m (l, h)"; auto simp: mapErrS_def mapErr_def split: sum.splits)+
  then show "live l' \<and> P l' \<and> (\<exists>es g. h' = h @ es \<and> owned l' @ g = owned l @ acquired es
      \<and> released es = rev g \<and> (isOk r \<longrightarrow> g = []))"
    using tracksD [OF assms l m] by (metis (no_types))
qed

lemma tracks_for: "(\<And>x. tracks P (f x)) \<Longrightarrow> tracks P (forS f xs)"
proof (induction xs)
  case (Cons x xs)
  have "forS f (x # xs) = bindS (f x) (\<lambda>_. forS f xs)" by (simp add: fun_eq_iff)
  then show ?case using tracks_bind [OF Cons.prems Cons.IH [OF Cons.prems]] by simp
next
  case Nil
  have none: "forS f [] = liftS (Inr ())" by (simp add: fun_eq_iff)
  show ?case unfolding none by (rule tracks_lift)
qed

lemma tracks_keep:
  "(\<And>l. live l \<Longrightarrow> P l \<Longrightarrow> live (f l) \<and> P (f l) \<and> owned (f l) = owned l) \<Longrightarrow> tracks P (modifyLease f)"
  by (rule tracksI) (auto simp: modifyLease_def)

lemma tracks_unless:
  assumes "tracks P m"
  shows "tracks P (\<lambda>st. if c st then (Inl e, st) else m st)"
proof (rule tracksI)
  fix l h r l' h' assume l: "live l" "P l" and run: "(if c (l, h) then (Inl e, (l, h)) else m (l, h)) = (r, (l', h'))"
  show "live l' \<and> P l' \<and> (\<exists>es g. h' = h @ es \<and> owned l' @ g = owned l @ acquired es
      \<and> released es = rev g \<and> (isOk r \<longrightarrow> g = []))"
  proof (cases "c (l, h)")
    case True
    then show ?thesis using l run by (intro conjI exI [of _ "[]"]) auto
  next
    case False
    then show ?thesis using run tracksD [OF assms l] by (metis (full_types))
  qed
qed

lemma tracks_depending:
  assumes "\<And>x. tracks P (m x)"
  shows "tracks P (\<lambda>st. m (f st) st)"
  by (rule tracksI, rule assms [unfolded tracks_def, rule_format])

text \<open>A step from one phase to the next: what is known of the lease changes if it succeeds.\<close>

definition leads :: "('l \<Rightarrow> bool) \<Rightarrow> ('l \<Rightarrow> bool) \<Rightarrow> ('l held, 'e, 'a) act \<Rightarrow> bool" where
  "leads P Q m \<longleftrightarrow> (\<forall>l h r l' h'. live l \<longrightarrow> P l \<longrightarrow> m (l, h) = (r, (l', h')) \<longrightarrow> live l' \<and> (isOk r \<longrightarrow> Q l')
     \<and> (\<exists>es g. h' = h @ es \<and> owned l' @ g = owned l @ acquired es \<and> released es = rev g \<and> (isOk r \<longrightarrow> g = [])))"

lemma leadsI:
  assumes "\<And>l h r l' h'. live l \<Longrightarrow> P l \<Longrightarrow> m (l, h) = (r, (l', h')) \<Longrightarrow> live l' \<and> (isOk r \<longrightarrow> Q l')
     \<and> (\<exists>es g. h' = h @ es \<and> owned l' @ g = owned l @ acquired es \<and> released es = rev g \<and> (isOk r \<longrightarrow> g = []))"
  shows "leads P Q m"
  using assms unfolding leads_def by blast

lemma leadsD:
  assumes "leads P Q m" "live l" "P l" "m (l, h) = (r, (l', h'))"
  obtains es g where "live l'" "isOk r \<longrightarrow> Q l'" "h' = h @ es" "owned l' @ g = owned l @ acquired es" "released es = rev g"
    "isOk r \<longrightarrow> g = []"
  using assms(1) [unfolded leads_def, rule_format, OF assms(2-4)] that by blast

lemma leads_tracks:
  assumes "tracks P m"
  shows "leads P P m"
proof (rule leadsI)
  fix l h r l' h' assume l: "live l" "P l" and run: "m (l, h) = (r, (l', h'))"
  obtain es g where "live l'" "P l'" "h' = h @ es" "owned l' @ g = owned l @ acquired es" "released es = rev g" "isOk r \<longrightarrow> g = []"
    by (rule tracksD [OF assms l run])
  then show "live l' \<and> (isOk r \<longrightarrow> P l') \<and> (\<exists>es g. h' = h @ es \<and> owned l' @ g = owned l @ acquired es
      \<and> released es = rev g \<and> (isOk r \<longrightarrow> g = []))"
    by (intro conjI exI [of _ es] exI [of _ g]) auto
qed

lemma leads_weaken:
  assumes "leads P Q m" "\<And>l. P' l \<Longrightarrow> P l" "\<And>l. Q l \<Longrightarrow> Q' l"
  shows "leads P' Q' m"
proof (rule leadsI)
  fix l h r l' h' assume l: "live l" "P' l" and run: "m (l, h) = (r, (l', h'))"
  obtain es g where "live l'" "isOk r \<longrightarrow> Q l'" "h' = h @ es" "owned l' @ g = owned l @ acquired es" "released es = rev g"
    "isOk r \<longrightarrow> g = []"
    by (rule leadsD [OF assms(1) l(1) assms(2) [OF l(2)] run])
  then show "live l' \<and> (isOk r \<longrightarrow> Q' l') \<and> (\<exists>es g. h' = h @ es \<and> owned l' @ g = owned l @ acquired es
      \<and> released es = rev g \<and> (isOk r \<longrightarrow> g = []))"
    using assms(3) by (intro conjI exI [of _ es] exI [of _ g]) auto
qed

lemma leads_bind:
  assumes "leads P Q m" and "\<And>a. leads Q R (k a)"
  shows "leads P R (bindS m k)"
proof (rule leadsI)
  fix l h r l' h' assume l: "live l" "P l" and "bindS m k (l, h) = (r, (l', h'))"
  from this(3) show "live l' \<and> (isOk r \<longrightarrow> R l') \<and> (\<exists>es g. h' = h @ es \<and> owned l' @ g = owned l @ acquired es
      \<and> released es = rev g \<and> (isOk r \<longrightarrow> g = []))"
  proof (cases rule: bindS_cases)
    case (failed e)
    obtain es g where "live l'" "h' = h @ es" "owned l' @ g = owned l @ acquired es" "released es = rev g"
      using leadsD [OF assms(1) l failed(1)] by blast
    then show ?thesis using failed(2) by (intro conjI exI [of _ es] exI [of _ g]) simp_all
  next
    case (ran a st')
    obtain l1 h1 where st': "st' = (l1, h1)" by (cases st')
    obtain es where first: "live l1" "Q l1" "h1 = h @ es" "owned l1 = owned l @ acquired es" "released es = []"
      using leadsD [OF assms(1) l ran(1) [unfolded st']] by (metis append_Nil2 isOk_simps(2) rev.simps(1))
    obtain fs g where "live l'" "isOk r \<longrightarrow> R l'" "h' = h1 @ fs" "owned l' @ g = owned l1 @ acquired fs" "released fs = rev g"
        "isOk r \<longrightarrow> g = []"
      using leadsD [OF assms(2) first(1,2) ran(2) [unfolded st']] by blast
    then show ?thesis using first by (intro conjI exI [of _ "es @ fs"] exI [of _ g]) simp_all
  qed
qed

text \<open>A provisioning under the deferred rollback.\<close>

lemma provision_failed:
  assumes "leads P Q body" "live l" "P l" "owned l = []"
    and "leased l (rollbackOnError close e body) h = (Inl f, h')"
  shows "\<exists>es. h' = h @ es \<and> released es = rev (acquired es)"
proof -
  obtain r l1 h1 where body: "body (l, h) = (r, (l1, h1))" by (metis prod_cases3)
  obtain es g where first: "live l1" "h1 = h @ es" "owned l1 @ g = acquired es" "released es = rev g"
    using leadsD [OF assms(1-3) body] assms(4) by (metis append_Nil)
  obtain c l2 h2 where closed: "close (l1, h1) = (c, (l2, h2))" by (metis prod_cases3)
  obtain fs where "h2 = h1 @ fs" "acquired fs = []" "released fs = rev (owned l1)"
    using close_releases [OF first(1) closed] by blast
  moreover have "h' = h2"
    using assms(5) body closed by (auto simp: leased_def rollbackOnError_def split: sum.splits)
  ultimately show ?thesis
    using first by (intro exI [of _ "es @ fs"]) (auto simp flip: first(3))
qed

lemma provision_succeeded:
  assumes "leads P Q body" "live l" "P l" "owned l = []"
    and "leased l (rollbackOnError close e body) h = (Inr l', h')"
  shows "live l' \<and> Q l' \<and> (\<exists>es. h' = h @ es \<and> released es = [] \<and> owned l' = acquired es)"
proof -
  obtain r l1 h1 where body: "body (l, h) = (r, (l1, h1))" by (metis prod_cases3)
  have "r = Inr () \<and> l1 = l' \<and> h1 = h'"
    using assms(5) body by (auto simp: leased_def rollbackOnError_def split: sum.splits prod.splits)
  then show ?thesis using leadsD [OF assms(1-3) body] assms(4) by (metis append_Nil append_Nil2 isOk_simps(2) rev.simps(1))
qed

text \<open>
  A provisioning releases what it acquired when it fails; when it succeeds its lease owns what it
  acquired and satisfies \<open>Q\<close>.  What comes before the lease is taken is quiet.
\<close>

definition balanced :: "('l \<Rightarrow> bool) \<Rightarrow> 'e + 'l \<Rightarrow> Event list \<Rightarrow> Event list \<Rightarrow> bool" where
  "balanced Q r h h' \<longleftrightarrow> (\<exists>es. h' = h @ es \<and> (case r of
     Inl _ \<Rightarrow> released es = rev (acquired es)
   | Inr l \<Rightarrow> live l \<and> Q l \<and> released es = [] \<and> owned l = acquired es))"

definition balances :: "('l \<Rightarrow> bool) \<Rightarrow> (Event list, 'e, 'l) act \<Rightarrow> bool" where
  "balances Q p \<longleftrightarrow> (\<forall>h r h'. p h = (r, h') \<longrightarrow> balanced Q r h h')"

lemma balances_leads:
  assumes "leads P Q body" "live l" "P l" "owned l = []"
  shows "balances Q (leased l (rollbackOnError close e body))"
  unfolding balances_def
proof (intro allI impI)
  fix h r h' assume "leased l (rollbackOnError close e body) h = (r, h')"
  then show "balanced Q r h h'"
    using provision_failed [OF assms, of e h _ h'] provision_succeeded [OF assms, of e h _ h']
    by (cases r) (auto simp: balanced_def)
qed

lemmas balances_leased = balances_leads [OF leads_tracks]

lemma balances_error: "balances Q (liftS (Inl e))"
  by (auto simp: balances_def balanced_def intro: exI [of _ "[]"])

lemma balances_after:
  assumes "quiet m" "\<And>a. balances Q (k a)"
  shows "balances Q (bindS m k)"
  unfolding balances_def
proof (intro allI impI)
  fix h r h' assume "bindS m k h = (r, h')"
  then show "balanced Q r h h'"
  proof (cases rule: bindS_cases)
    case (failed e)
    then obtain es where "h' = h @ es" "quietEvents es" using assms(1) unfolding quiet_def by blast
    then show ?thesis using failed(2) unfolding balanced_def by (intro exI [of _ es]) (simp add: quietEvents_def)
  next
    case (ran a h1)
    obtain es where es: "h1 = h @ es" "quietEvents es" using assms(1) ran(1) unfolding quiet_def by blast
    have "balanced Q r h1 h'" using assms(2) ran(2) unfolding balances_def by blast
    then obtain fs where "h' = h1 @ fs" "case r of Inl _ \<Rightarrow> released fs = rev (acquired fs)
        | Inr l \<Rightarrow> live l \<and> Q l \<and> released fs = [] \<and> owned l = acquired fs"
      by (auto simp: balanced_def)
    then show ?thesis
      using es unfolding balanced_def
      by (intro exI [of _ "es @ fs"]) (auto simp: quietEvents_def split: sum.splits)
  qed
qed

end

end
