(* ===== verification/Account_Provision.thy ===== *)
theory Account_Provision
  imports Install_Host
begin

text \<open>
  The two accounts of an installation: \<open>internal/accountprovision/provision.go\<close>.  The lease keeps
  the generated passwords until they are cleared and the names of the accounts it created until
  it is committed; a nil password is \<open>None\<close>, and clearing drops the bytes.
\<close>

section \<open>Leases\<close>

datatype AccountError = AccountError string

record AccountLease =
  al_Binding :: IdentityBinding
  al_ControlPassword :: "string option"
  al_ExecutionPassword :: "string option"
  al_Created :: "string list"
  al_Committed :: bool
  al_Closed :: bool

definition emptyBinding :: IdentityBinding where
  "emptyBinding = \<lparr>ib_ControlIdentifier = [], ib_ControlPrimaryGroupIdentifier = [], ib_ExecutionIdentifier = [],
     ib_ExecutionPrimaryGroupIdentifier = []\<rparr>"

definition newAccountLease :: AccountLease where
  "newAccountLease = \<lparr>al_Binding = emptyBinding, al_ControlPassword = None, al_ExecutionPassword = None,
     al_Created = [], al_Committed = False, al_Closed = False\<rparr>"

definition validGeneratedPassword :: "string \<Rightarrow> bool" where
  "validGeneratedPassword password \<longleftrightarrow> 0 < length password \<and> length password \<le> 256 \<and> validString password
     \<and> CHR 0x00 \<notin> set password"

definition clearPasswords :: "AccountLease \<Rightarrow> AccountLease" where
  "clearPasswords l = l\<lparr>al_ControlPassword := None, al_ExecutionPassword := None\<rparr>"

definition ControlPassword :: "AccountLease \<Rightarrow> string option" where
  "ControlPassword l = (if al_Closed l then None else al_ControlPassword l)"

definition ExecutionPassword :: "AccountLease \<Rightarrow> string option" where
  "ExecutionPassword l = (if al_Closed l then None else al_ExecutionPassword l)"

definition ClearExecutionPassword :: "(AccountLease held, AccountError, unit) act" where
  "ClearExecutionPassword st =
     (if al_Closed (fst st) then (Inl (AccountError ''lease-closed''), st)
      else modifyLease (\<lambda>l. l\<lparr>al_ExecutionPassword := None\<rparr>) st)"

definition commitAccounts :: "(AccountLease held, AccountError, unit) act" where
  "commitAccounts st =
     (if al_Closed (fst st) then (Inl (AccountError ''lease-closed''), st)
      else modifyLease (\<lambda>l. clearPasswords (l\<lparr>al_Committed := True\<rparr>)) st)"

definition closeAccounts :: "Host \<Rightarrow> (AccountLease held, AccountError, unit) act" where
  "closeAccounts host st = (case st of (l, h) \<Rightarrow>
     if al_Closed l then (Inr (), st)
     else let l' = clearPasswords (l\<lparr>al_Closed := True\<rparr>) in
       if al_Committed l' then (Inr (), (l', h))
       else case attemptAll (\<lambda>name. ask (\<lambda>h. ho_DeleteAccount host h name) (AccountDeleted name)) (rev (al_Created l')) h of
         (ok, h') \<Rightarrow> (if ok then Inr () else Inl (AccountError ''rollback-failed''), (l', h')))"

section \<open>Provisioning\<close>

definition accountFree :: "Host \<Rightarrow> string \<Rightarrow> (Event list, AccountError, unit) act" where
  "accountFree host name =
     bindS (contextError host (AccountError ''context-cancelled'')) (\<lambda>_.
     bindS (query (ask (\<lambda>h. ho_AccountExists host h name) (AccountAsked name))) (\<lambda>exists. liftS (case exists of
       None \<Rightarrow> Inl (AccountError ''account-preflight-failed'')
     | Some True \<Rightarrow> Inl (AccountError ''account-already-exists'')
     | Some False \<Rightarrow> Inr ())))"

definition newPassword :: "Host \<Rightarrow> string \<Rightarrow> (AccountLease held, AccountError, string) act" where
  "newPassword host rule =
     bindS (onHost (query (ask (ho_Generate host) PasswordAsked))) (\<lambda>password. liftS (case password of
       None \<Rightarrow> Inl (AccountError rule)
     | Some p \<Rightarrow> if validGeneratedPassword p then Inr p else Inl (AccountError rule)))"

text \<open>The account is recorded as soon as the host says it was created, whether or not the call failed.\<close>

definition makeAccount :: "Host \<Rightarrow> string \<Rightarrow> string \<Rightarrow> string \<Rightarrow> (AccountLease held, AccountError, Account) act" where
  "makeAccount host name password rule st =
     (case ho_CreateAccount host (snd st) name password of (account, created, ok) \<Rightarrow>
      (if \<not> ok \<or> \<not> equalFold (ac_Name account) name then Inl (AccountError rule) else Inr account,
       (if created then (fst st)\<lparr>al_Created := al_Created (fst st) @ [name]\<rparr> else fst st,
        snd st @ [AccountMade name password account created ok])))"

definition applyPolicy :: "Host \<Rightarrow> Role \<Rightarrow> Account \<Rightarrow> string \<Rightarrow> (AccountLease held, AccountError, unit) act" where
  "applyPolicy host role account rule =
     onHost (require (ask (\<lambda>h. ho_ApplyPolicy host h role account) (PolicyApplied role account)) (AccountError rule))"

definition accountBinding :: "Account \<Rightarrow> Account \<Rightarrow> IdentityBinding" where
  "accountBinding control execution =
     \<lparr>ib_ControlIdentifier = ac_Identifier control, ib_ControlPrimaryGroupIdentifier = ac_PrimaryGroupIdentifier control,
      ib_ExecutionIdentifier = ac_Identifier execution,
      ib_ExecutionPrimaryGroupIdentifier = ac_PrimaryGroupIdentifier execution\<rparr>"

definition makeAccounts :: "Host \<Rightarrow> Spec \<Rightarrow> (AccountLease held, AccountError, unit) act" where
  "makeAccounts host spec =
     bindS (newPassword host ''control-password-failed'') (\<lambda>controlPassword.
     bindS (modifyLease (\<lambda>l. l\<lparr>al_ControlPassword := Some controlPassword\<rparr>)) (\<lambda>_.
     bindS (newPassword host ''execution-password-failed'') (\<lambda>executionPassword.
     bindS (modifyLease (\<lambda>l. l\<lparr>al_ExecutionPassword := Some executionPassword\<rparr>)) (\<lambda>_.
     bindS (makeAccount host (sp_ControlAccount spec) controlPassword ''control-account-create-failed'') (\<lambda>control.
     bindS (makeAccount host (sp_ExecutionAccount spec) executionPassword ''execution-account-create-failed'') (\<lambda>execution.
     bindS (onHost (contextError host (AccountError ''context-cancelled''))) (\<lambda>_.
     bindS (applyPolicy host RoleControl control ''control-account-policy-failed'') (\<lambda>_.
     bindS (applyPolicy host RoleExecution execution ''execution-account-policy-failed'') (\<lambda>_.
     bindS (liftS (mapErr (\<lambda>_. AccountError ''resolved-identity-invalid'') (Bind spec (accountBinding control execution)))) (\<lambda>_.
     modifyLease (\<lambda>l. l\<lparr>al_Binding := accountBinding control execution\<rparr>)))))))))))"

definition accountsPreflight :: "Host \<Rightarrow> Spec \<Rightarrow> (Event list, AccountError, unit) act" where
  "accountsPreflight host spec =
     bindS (liftS (mapErr (\<lambda>_. AccountError ''install-plan-invalid'') (Build spec))) (\<lambda>_.
     forS (accountFree host) [sp_ControlAccount spec, sp_ExecutionAccount spec])"

definition ProvisionAccounts :: "bool \<Rightarrow> Host \<Rightarrow> Spec \<Rightarrow> (Event list, AccountError, AccountLease) act" where
  "ProvisionAccounts dependencies host spec =
     (if \<not> dependencies then liftS (Inl (AccountError ''dependency-required''))
      else bindS (accountsPreflight host spec) (\<lambda>_.
        leased newAccountLease
          (rollbackOnError (closeAccounts host) (AccountError ''rollback-failed'') (makeAccounts host spec))))"

text \<open>The native side is opened for the specification first, which may fail.\<close>

definition nativeAccounts :: "Host \<Rightarrow> Spec \<Rightarrow> (Event list, AccountError, AccountLease) act" where
  "nativeAccounts host spec =
     bindS (require (ask (ho_OpenAccounts host) AccountsOpened) (AccountError ''native-unavailable''))
       (\<lambda>_. ProvisionAccounts True host spec)"

section \<open>The contract\<close>

definition ownedAccounts :: "AccountLease \<Rightarrow> Resource list" where
  "ownedAccounts l = map OwnedAccount (al_Created l)"

definition liveAccounts :: "AccountLease \<Rightarrow> bool" where
  "liveAccounts l \<longleftrightarrow> \<not> al_Closed l \<and> \<not> al_Committed l"

interpretation account_lease: lease ownedAccounts liveAccounts "\<lambda>l. \<not> liveAccounts l" commitAccounts "closeAccounts host"
proof unfold_locales
  fix l h r l' h'
  assume live: "liveAccounts l" and closed: "closeAccounts host (l, h) = (r, (l', h'))"
  obtain es where "snd (attemptAll (\<lambda>name. ask (\<lambda>h. ho_DeleteAccount host h name) (AccountDeleted name)) (rev (al_Created l)) h) = h @ es"
      "acquired es = []" "released es = map OwnedAccount (rev (al_Created l))"
    using attemptAll_releases [of AccountDeleted OwnedAccount] by fastforce
  then show "\<not> liveAccounts l' \<and> (\<exists>es. h' = h @ es \<and> acquired es = [] \<and> released es = rev (ownedAccounts l))"
    using live closed
    by (auto simp: closeAccounts_def liveAccounts_def clearPasswords_def ownedAccounts_def rev_map Let_def split: prod.splits)
next
  fix l h r l' h'
  assume "\<not> liveAccounts l" and "closeAccounts host (l, h) = (r, (l', h'))"
  then show "r = Inr () \<and> h' = h \<and> \<not> liveAccounts l'"
    by (auto simp: closeAccounts_def liveAccounts_def clearPasswords_def Let_def split: if_splits)
next
  fix l h l' h'
  assume "commitAccounts (l, h) = (Inr (), (l', h'))"
  then show "\<not> liveAccounts l' \<and> (\<exists>es. h' = h @ es \<and> quietEvents es)"
    by (auto simp: commitAccounts_def modifyLease_def clearPasswords_def liveAccounts_def quietEvents_def split: if_splits)
qed

section \<open>Provisioning keeps the lease truthful\<close>

lemma quiet_query [simp]:
  "quiet (query (ask f (AccountAsked n)))" "quiet (query (ask g PasswordAsked))"
  by (rule quiet_ask; simp)+

lemma accountsPreflight_quiet: "quiet (accountsPreflight host spec)"
  unfolding accountsPreflight_def accountFree_def
  by (intro quiet_bind quiet_for quiet_lift quiet_context quiet_query)

lemma makeAccounts_tracks: "account_lease.tracks (\<lambda>_. True) (makeAccounts host spec)"
proof -
  have keep: "account_lease.tracks (\<lambda>_. True) (modifyLease f)"
    if "\<And>l. al_Created (f l) = al_Created l \<and> al_Closed (f l) = al_Closed l \<and> al_Committed (f l) = al_Committed l" for f
    by (rule account_lease.tracks_keep) (simp add: that liveAccounts_def ownedAccounts_def)
  have password: "account_lease.tracks (\<lambda>_. True) (newPassword host rule)" for rule
    unfolding newPassword_def by (intro account_lease.tracks_bind account_lease.tracks_quiet account_lease.tracks_lift quiet_query)
  have account: "account_lease.tracks (\<lambda>_. True) (makeAccount host name password rule)" for name password rule
    by (rule account_lease.tracksI)
      (force simp: makeAccount_def liveAccounts_def ownedAccounts_def split: prod.splits if_splits)
  have policy: "account_lease.tracks (\<lambda>_. True) (applyPolicy host role account rule)" for role account rule
    unfolding applyPolicy_def by (rule account_lease.tracks_quiet, rule quiet_require) simp
  show ?thesis
    unfolding makeAccounts_def
    by (intro account_lease.tracks_bind password account policy account_lease.tracks_lift keep account_lease.tracks_quiet
        quiet_context) simp_all
qed

lemma ProvisionAccounts_balances: "account_lease.balances (\<lambda>_. True) (ProvisionAccounts dependencies host spec)"
proof -
  have "account_lease.balances (\<lambda>_. True) (leased newAccountLease
      (rollbackOnError (closeAccounts host) (AccountError ''rollback-failed'') (makeAccounts host spec)))"
    by (rule account_lease.balances_leased [OF makeAccounts_tracks])
      (simp_all add: newAccountLease_def liveAccounts_def ownedAccounts_def)
  then show ?thesis
    unfolding ProvisionAccounts_def
    by (auto intro: account_lease.balances_after accountsPreflight_quiet account_lease.balances_error)
qed

lemma nativeAccounts_balances: "account_lease.balances (\<lambda>_. True) (nativeAccounts host spec)"
  unfolding nativeAccounts_def
  by (intro account_lease.balances_after quiet_require ProvisionAccounts_balances) simp

end
