(* ===== verification/Filesystem_Provision.thy ===== *)
theory Filesystem_Provision
  imports Install_Host
begin

text \<open>
  The directories of the workload: \<open>internal/filesystemprovision/provision.go\<close>.  A change is named by
  the path it converged; the lease keeps the changes until they are rolled back or discarded.
\<close>

datatype FilesystemError = FilesystemError string

record ChangeLease =
  cl_Changes :: "string list"
  cl_Committed :: bool
  cl_Closed :: bool

definition newChangeLease :: ChangeLease where
  "newChangeLease = \<lparr>cl_Changes = [], cl_Committed = False, cl_Closed = False\<rparr>"

text \<open>\<open>Rollback\<close> and then \<open>Discard\<close>, whatever the first said.\<close>

definition rollbackChange :: "Host \<Rightarrow> string \<Rightarrow> bool query" where
  "rollbackChange host path h =
     (ho_Rollback host h path, h @ [RolledBack path (ho_Rollback host h path), Discarded path])"

definition closeChanges :: "Host \<Rightarrow> (ChangeLease held, FilesystemError, unit) act" where
  "closeChanges host st = (case st of (l, h) \<Rightarrow>
     if cl_Closed l then (Inr (), st)
     else if cl_Committed l then (Inr (), (l\<lparr>cl_Closed := True\<rparr>, h))
     else case attemptAll (rollbackChange host) (rev (cl_Changes l)) h of (ok, h') \<Rightarrow>
       (if ok then Inr () else Inl (FilesystemError ''rollback-failed''), (l\<lparr>cl_Closed := True, cl_Changes := []\<rparr>, h')))"

definition commitChanges :: "(ChangeLease held, FilesystemError, unit) act" where
  "commitChanges st = (case st of (l, h) \<Rightarrow>
     if cl_Closed l then (Inl (FilesystemError ''lease-closed''), st)
     else (Inr (), (l\<lparr>cl_Committed := True, cl_Changes := []\<rparr>, h @ map Discarded (cl_Changes l))))"

text \<open>
  One root: the answer is a change, an error, or both.  A change that comes with an error is not
  recorded, so it is neither rolled back nor discarded here.
\<close>

definition converge :: "Host \<Rightarrow> Config \<Rightarrow> bool \<Rightarrow> string \<Rightarrow> (ChangeLease held, FilesystemError, unit) act" where
  "converge host cfg approved path =
     bindS (onHost (contextError host (FilesystemError ''context-cancelled''))) (\<lambda>_ (l, h).
       let identifier = pr_Identifier (cf_ExecutionIdentity cfg); (given, ok) = ho_Converge host h approved path identifier in
       (if given \<and> ok then Inr ()
        else Inl (FilesystemError (if approved then ''approved-root-convergence-failed'' else ''isolated-root-convergence-failed'')),
        (if given \<and> ok then l\<lparr>cl_Changes := cl_Changes l @ [path]\<rparr> else l, h @ [Converged approved path identifier given ok])))"

definition convergeRoots :: "Host \<Rightarrow> Config \<Rightarrow> (ChangeLease held, FilesystemError, unit) act" where
  "convergeRoots host cfg =
     bindS (forS (converge host cfg True) (sl (cf_ApprovedRoots cfg)))
       (\<lambda>_. forS (converge host cfg False) [cf_ProfileRoot cfg, cf_TempRoot cfg])"

definition ProvisionFilesystem :: "bool \<Rightarrow> Host \<Rightarrow> Config \<Rightarrow> (Event list, FilesystemError, ChangeLease) act" where
  "ProvisionFilesystem dependencies host cfg =
     (if \<not> dependencies then liftS (Inl (FilesystemError ''dependency-required''))
      else if cf_Platform cfg \<noteq> Windows \<or> \<not> isOk (ValidateConfig cfg)
      then liftS (Inl (FilesystemError ''installed-configuration-invalid''))
      else leased newChangeLease
        (rollbackOnError (closeChanges host) (FilesystemError ''rollback-failed'') (convergeRoots host cfg)))"

text \<open>The native side is opened for the configuration first, which may fail.\<close>

definition nativeFilesystem :: "Host \<Rightarrow> Config \<Rightarrow> (Event list, FilesystemError, ChangeLease) act" where
  "nativeFilesystem host cfg =
     bindS (require (ask (ho_OpenFilesystem host) FilesystemOpened) (FilesystemError ''native-unavailable''))
       (\<lambda>_. ProvisionFilesystem True host cfg)"

section \<open>The contract\<close>

definition ownedChanges :: "ChangeLease \<Rightarrow> Resource list" where
  "ownedChanges l = map OwnedChange (cl_Changes l)"

definition liveChanges :: "ChangeLease \<Rightarrow> bool" where
  "liveChanges l \<longleftrightarrow> \<not> cl_Closed l \<and> \<not> cl_Committed l"

lemma rollbackChanges_release:
  "\<exists>es. snd (attemptAll (rollbackChange host) xs h) = h @ es \<and> acquired es = [] \<and> released es = map OwnedChange xs"
proof (induction xs arbitrary: h)
  case (Cons x xs)
  let ?es = "[RolledBack x (ho_Rollback host h x), Discarded x]"
  obtain es where "snd (attemptAll (rollbackChange host) xs (h @ ?es)) = (h @ ?es) @ es"
      "acquired es = []" "released es = map OwnedChange xs"
    using Cons.IH by blast
  then show ?case
    using attemptAll_Cons [of "rollbackChange host" x xs h]
    by (intro exI [of _ "?es @ es"]) (simp add: rollbackChange_def [of host x h] del: attemptAll.simps(2))
qed simp

lemma discards_quiet [simp]: "quietEvents (map Discarded xs)"
  by (induction xs) (simp_all add: quietEvents_def)

interpretation change_lease: lease ownedChanges liveChanges "\<lambda>l. \<not> liveChanges l" commitChanges "closeChanges host"
proof unfold_locales
  fix l h r l' h'
  assume live: "liveChanges l" and closed: "closeChanges host (l, h) = (r, (l', h'))"
  obtain es where "snd (attemptAll (rollbackChange host) (rev (cl_Changes l)) h) = h @ es"
      "acquired es = []" "released es = map OwnedChange (rev (cl_Changes l))"
    using rollbackChanges_release by blast
  then show "\<not> liveChanges l' \<and> (\<exists>es. h' = h @ es \<and> acquired es = [] \<and> released es = rev (ownedChanges l))"
    using live closed by (auto simp: closeChanges_def liveChanges_def ownedChanges_def rev_map split: prod.splits)
next
  fix l h r l' h'
  assume "\<not> liveChanges l" and "closeChanges host (l, h) = (r, (l', h'))"
  then show "r = Inr () \<and> h' = h \<and> \<not> liveChanges l'"
    by (auto simp: closeChanges_def liveChanges_def split: if_splits)
next
  fix l h l' h'
  assume "commitChanges (l, h) = (Inr (), (l', h'))"
  then show "\<not> liveChanges l' \<and> (\<exists>es. h' = h @ es \<and> quietEvents es)"
    by (auto simp: commitChanges_def liveChanges_def split: if_splits)
qed

lemma ProvisionFilesystem_balances: "change_lease.balances (\<lambda>_. True) (ProvisionFilesystem dependencies host cfg)"
proof -
  have step: "change_lease.tracks (\<lambda>_. True) (converge host cfg approved path)" for approved path
    unfolding converge_def
  proof (rule change_lease.tracks_bind)
    show "change_lease.tracks (\<lambda>_. True) (onHost (contextError host (FilesystemError ''context-cancelled'')))"
      by (intro change_lease.tracks_quiet quiet_context)
  qed (rule change_lease.tracksI, force simp: Let_def liveChanges_def ownedChanges_def split: if_splits prod.splits)
  have "change_lease.tracks (\<lambda>_. True) (convergeRoots host cfg)"
    unfolding convergeRoots_def by (intro change_lease.tracks_bind change_lease.tracks_for step)
  then have "change_lease.balances (\<lambda>_. True) (leased newChangeLease
      (rollbackOnError (closeChanges host) (FilesystemError ''rollback-failed'') (convergeRoots host cfg)))"
    by (rule change_lease.balances_leased) (simp_all add: newChangeLease_def liveChanges_def ownedChanges_def)
  then show ?thesis unfolding ProvisionFilesystem_def by (auto intro: change_lease.balances_error)
qed

lemma nativeFilesystem_balances: "change_lease.balances (\<lambda>_. True) (nativeFilesystem host cfg)"
  unfolding nativeFilesystem_def
  by (intro change_lease.balances_after quiet_require ProvisionFilesystem_balances) simp

text \<open>A change that came with an error leaves no trace in the lease.\<close>

lemma converge_error_unrecorded:
  assumes "converge host cfg approved path (l, h) = (r, (l', h'))"
    and "snd (ho_Converge host (h @ [ContextAsked False]) approved path (pr_Identifier (cf_ExecutionIdentity cfg))) = False"
  shows "l' = l \<and> \<not> isOk r \<and> acquired h' = acquired h"
  using assms by (auto simp: converge_def bindS_def onHost_def contextError_def ask_def Let_def split: if_splits prod.splits)

end
