(* ===== verification/Install_Root.thy ===== *)
theory Install_Root
  imports Install_Host
begin

text \<open>
  The protected root of a Windows installation: \<open>internal/platform/windows/installroot/root_windows.go\<close>.
  The lease owns the directories and the files it created and refuses any other path, and it
  attempts each file once.
\<close>

datatype RootError = RootError string

record RootLease =
  rl_Layout :: Layout
  rl_Directories :: "string list"
  rl_Files :: "(FileKind \<times> string) list"
  rl_Attempted :: "string list"
  rl_Committed :: bool
  rl_Closed :: bool

definition newRootLease :: "Layout \<Rightarrow> RootLease" where
  "newRootLease layout = \<lparr>rl_Layout = layout, rl_Directories = [], rl_Files = [], rl_Attempted = [],
     rl_Committed = False, rl_Closed = False\<rparr>"

definition removeFile :: "Host \<Rightarrow> FileKind \<times> string \<Rightarrow> bool query" where
  "removeFile host item = ask (\<lambda>h. ho_RemoveFile host h (fst item) (snd item)) (FileRemoved (fst item) (snd item))"

definition removeDirectory :: "Host \<Rightarrow> string \<Rightarrow> bool query" where
  "removeDirectory host path = ask (\<lambda>h. ho_RemoveDirectory host h path) (DirectoryRemoved path)"

definition closeRoot :: "Host \<Rightarrow> (RootLease held, RootError, unit) act" where
  "closeRoot host st = (case st of (l, h) \<Rightarrow>
     if rl_Closed l then (Inr (), st)
     else if rl_Committed l then (Inr (), (l\<lparr>rl_Closed := True\<rparr>, h))
     else case attemptAll (removeFile host) (rev (rl_Files l)) h of (files, h1) \<Rightarrow>
       case attemptAll (removeDirectory host) (rev (rl_Directories l)) h1 of (directories, h2) \<Rightarrow>
       (if files \<and> directories then Inr () else Inl (RootError ''rollback-failed''),
        (l\<lparr>rl_Closed := True, rl_Directories := [], rl_Files := [], rl_Attempted := []\<rparr>, h2)))"

definition commitRoot :: "(RootLease held, RootError, unit) act" where
  "commitRoot st =
     (if rl_Closed (fst st) then (Inl (RootError ''lease-closed''), st)
      else modifyLease (\<lambda>l. l\<lparr>rl_Committed := True, rl_Closed := True, rl_Directories := [], rl_Files := [],
        rl_Attempted := []\<rparr>) st)"

section \<open>Provisioning\<close>

text \<open>\<open>first\<close> is the installation root itself.\<close>

definition makeDirectory :: "Host \<Rightarrow> bool \<times> string \<Rightarrow> (RootLease held, RootError, unit) act" where
  "makeDirectory host item = (case item of (first, path) \<Rightarrow>
     bindS (onHost (contextError host (RootError ''context-cancelled''))) (\<lambda>_ (l, h).
       case ho_CreateDirectory host h path of (created, ok) \<Rightarrow>
         (if ok \<and> created then Inr ()
          else if first \<and> \<not> created then Inl (RootError ''installation-root-unavailable'')
          else Inl (RootError ''protected-directory-create-failed''),
          (if created then l\<lparr>rl_Directories := rl_Directories l @ [path]\<rparr> else l, h @ [DirectoryMade path created ok]))))"

definition makeDirectories :: "Host \<Rightarrow> Layout \<Rightarrow> (RootLease held, RootError, unit) act" where
  "makeDirectories host layout =
     bindS (forS (makeDirectory host)
       [(True, ly_Root layout), (False, ly_BinDirectory layout), (False, ly_StateDirectory layout)])
       (\<lambda>_. onHost (contextError host (RootError ''context-cancelled'')))"

definition ProvisionRoot :: "bool \<Rightarrow> Host \<Rightarrow> string \<Rightarrow> (Event list, RootError, RootLease) act" where
  "ProvisionRoot dependencies host installationRoot =
     (if \<not> dependencies then liftS (Inl (RootError ''dependency-required''))
      else bindS (liftS (mapErr (\<lambda>_. RootError ''installation-root-invalid'') (WindowsLayout installationRoot))) (\<lambda>layout.
        leased (newRootLease layout)
          (rollbackOnError (closeRoot host) (RootError ''rollback-failed'') (makeDirectories host layout))))"

section \<open>The operations of a lease\<close>

definition fixedDirectory :: "RootLease \<Rightarrow> string \<Rightarrow> bool" where
  "fixedDirectory l path \<longleftrightarrow> path = ly_Root (rl_Layout l) \<or> path = ly_BinDirectory (rl_Layout l)
     \<or> path = ly_StateDirectory (rl_Layout l)"

definition EnsureProtectedDirectory :: "Host \<Rightarrow> string \<Rightarrow> (RootLease held, RootError, unit) act" where
  "EnsureProtectedDirectory host path st =
    (if rl_Closed (fst st) then (Inl (RootError ''lease-closed''), st)
     else if \<not> fixedDirectory (fst st) path then (Inl (RootError ''directory-not-owned''), st)
     else onHost (require (ask (\<lambda>h. ho_VerifyDirectory host h path) (DirectoryVerified path))
       (RootError ''directory-verification-failed'')) st)"

text \<open>A file is created once: its path counts as attempted before the call.\<close>

definition createFile :: "Host \<Rightarrow> FileKind \<Rightarrow> string \<Rightarrow> string \<Rightarrow> string \<Rightarrow> (RootLease held, RootError, unit) act" where
  "createFile host kind path content rule st = (case st of (l, h) \<Rightarrow>
     case ho_CreateFile host h kind path content of (created, ok) \<Rightarrow>
       (if ok \<and> created then Inr () else Inl (RootError rule),
        (l\<lparr>rl_Attempted := path # rl_Attempted l,
           rl_Files := rl_Files l @ (if created then [(kind, path)] else [])\<rparr>,
         h @ [FileMade kind path content created ok])))"

definition WriteProtectedFile :: "Host \<Rightarrow> string \<Rightarrow> string \<Rightarrow> (RootLease held, RootError, unit) act" where
  "WriteProtectedFile host path content st =
    (if rl_Closed (fst st) then (Inl (RootError ''lease-closed''), st)
     else if path \<noteq> ly_ExecutionCredential (rl_Layout (fst st)) \<and> path \<noteq> ly_InstallationConfig (rl_Layout (fst st))
          \<and> path \<noteq> ly_InstallationMetadata (rl_Layout (fst st))
     then (Inl (RootError ''state-path-not-owned''), st)
     else if path \<in> set (rl_Attempted (fst st)) then (Inl (RootError ''state-path-already-attempted''), st)
     else createFile host StateFile path content ''protected-state-create-failed'' st)"

definition writeExecutable :: "Host \<Rightarrow> string \<Rightarrow> string \<Rightarrow> string \<Rightarrow> (RootLease held, RootError, unit) act" where
  "writeExecutable host path component binary st =
     (if rl_Closed (fst st) then (Inl (RootError ''lease-closed''), st)
      else bindS (onHost (contextError host (RootError ''context-cancelled''))) (\<lambda>_ st.
        if path \<in> set (rl_Attempted (fst st)) then (Inl (RootError (component @ ''-image-already-attempted'')), st)
        else createFile host ExecutableFile path binary (component @ ''-image-create-failed'') st) st)"

definition WriteBrokerImage :: "Host \<Rightarrow> string \<Rightarrow> (RootLease held, RootError, unit) act" where
  "WriteBrokerImage host binary st = writeExecutable host (ly_BrokerExecutable (rl_Layout (fst st))) ''broker'' binary st"

definition WriteControlImage :: "Host \<Rightarrow> string \<Rightarrow> (RootLease held, RootError, unit) act" where
  "WriteControlImage host binary st = writeExecutable host (ly_ControlExecutable (rl_Layout (fst st))) ''control'' binary st"

definition InstallationLayout :: "RootLease \<Rightarrow> RootError + Layout" where
  "InstallationLayout l = (if rl_Closed l then Inl (RootError ''lease-closed'') else Inr (rl_Layout l))"

section \<open>The contract\<close>

definition ownedRoot :: "RootLease \<Rightarrow> Resource list" where
  "ownedRoot l = map OwnedDirectory (rl_Directories l) @ map (\<lambda>item. OwnedFile (fst item) (snd item)) (rl_Files l)"

definition liveRoot :: "RootLease \<Rightarrow> bool" where
  "liveRoot l \<longleftrightarrow> \<not> rl_Closed l \<and> \<not> rl_Committed l"

lemma removeFiles_release:
  "\<exists>es. snd (attemptAll (removeFile host) items h) = h @ es \<and> acquired es = []
     \<and> released es = map (\<lambda>item. OwnedFile (fst item) (snd item)) items"
  unfolding removeFile_def [abs_def] by (rule attemptAll_releases) simp

lemma removeDirectories_release:
  "\<exists>es. snd (attemptAll (removeDirectory host) paths h) = h @ es \<and> acquired es = [] \<and> released es = map OwnedDirectory paths"
  unfolding removeDirectory_def [abs_def] by (rule attemptAll_releases) simp

interpretation root_lease: lease ownedRoot liveRoot "\<lambda>l. \<not> liveRoot l" commitRoot "closeRoot host"
proof unfold_locales
  fix l h r l' h'
  assume live: "liveRoot l" and closed: "closeRoot host (l, h) = (r, (l', h'))"
  obtain ok1 h1 where files: "attemptAll (removeFile host) (rev (rl_Files l)) h = (ok1, h1)" by fastforce
  obtain ok2 h2 where directories: "attemptAll (removeDirectory host) (rev (rl_Directories l)) h1 = (ok2, h2)" by fastforce
  obtain es where "h1 = h @ es" "acquired es = []"
      "released es = map (\<lambda>item. OwnedFile (fst item) (snd item)) (rev (rl_Files l))"
    using removeFiles_release [of host "rev (rl_Files l)" h] files by auto
  moreover obtain fs where "h2 = h1 @ fs" "acquired fs = []" "released fs = map OwnedDirectory (rev (rl_Directories l))"
    using removeDirectories_release [of host "rev (rl_Directories l)" h1] directories by auto
  moreover have "h' = h2 \<and> \<not> liveRoot l'"
    using live closed files directories by (auto simp: closeRoot_def liveRoot_def)
  ultimately show "\<not> liveRoot l' \<and> (\<exists>es. h' = h @ es \<and> acquired es = [] \<and> released es = rev (ownedRoot l))"
    by (intro conjI exI [of _ "es @ fs"]) (simp_all add: ownedRoot_def rev_map)
next
  fix l h r l' h'
  assume "\<not> liveRoot l" and "closeRoot host (l, h) = (r, (l', h'))"
  then show "r = Inr () \<and> h' = h \<and> \<not> liveRoot l'"
    by (auto simp: closeRoot_def liveRoot_def split: if_splits)
next
  fix l h l' h'
  assume "commitRoot (l, h) = (Inr (), (l', h'))"
  then show "\<not> liveRoot l' \<and> (\<exists>es. h' = h @ es \<and> quietEvents es)"
    by (auto simp: commitRoot_def modifyLease_def liveRoot_def quietEvents_def split: if_splits)
qed

text \<open>
  Every operation of the lease keeps it truthful; while it is provisioned it has directories only.
\<close>

lemma createFile_tracks: "root_lease.tracks (\<lambda>_. True) (createFile host kind path content rule)"
  by (rule root_lease.tracksI) (force simp: createFile_def liveRoot_def ownedRoot_def split: prod.splits if_splits)

lemma WriteProtectedFile_tracks: "root_lease.tracks (\<lambda>_. True) (WriteProtectedFile host path content)"
  unfolding WriteProtectedFile_def [abs_def] by (intro root_lease.tracks_unless createFile_tracks)

lemma EnsureProtectedDirectory_tracks: "root_lease.tracks (\<lambda>_. True) (EnsureProtectedDirectory host path)"
  unfolding EnsureProtectedDirectory_def [abs_def]
  by (intro root_lease.tracks_unless root_lease.tracks_quiet quiet_require) simp

lemma writeExecutable_tracks: "root_lease.tracks (\<lambda>_. True) (writeExecutable host path component content)"
  unfolding writeExecutable_def [abs_def]
  by (intro root_lease.tracks_unless root_lease.tracks_bind root_lease.tracks_quiet quiet_context createFile_tracks)

lemma WriteImage_tracks:
  "root_lease.tracks (\<lambda>_. True) (WriteBrokerImage host content)" "root_lease.tracks (\<lambda>_. True) (WriteControlImage host content)"
  using root_lease.tracks_depending [where m = "\<lambda>path. writeExecutable host path ''broker'' content"
      and f = "\<lambda>st. ly_BrokerExecutable (rl_Layout (fst st))", OF writeExecutable_tracks]
    root_lease.tracks_depending [where m = "\<lambda>path. writeExecutable host path ''control'' content"
      and f = "\<lambda>st. ly_ControlExecutable (rl_Layout (fst st))", OF writeExecutable_tracks]
  unfolding WriteBrokerImage_def [abs_def] WriteControlImage_def [abs_def] by blast+

lemma ProvisionRoot_balances: "root_lease.balances (\<lambda>l. rl_Files l = []) (ProvisionRoot dependencies host installationRoot)"
proof -
  have step: "root_lease.tracks (\<lambda>l. rl_Files l = []) (makeDirectory host item)" for item
    unfolding makeDirectory_def case_prod_beta
  proof (rule root_lease.tracks_bind)
    show "root_lease.tracks (\<lambda>l. rl_Files l = []) (onHost (contextError host (RootError ''context-cancelled'')))"
      by (intro root_lease.tracks_quiet quiet_context)
  qed (rule root_lease.tracksI, force simp: liveRoot_def ownedRoot_def split: prod.splits if_splits)
  have "root_lease.tracks (\<lambda>l. rl_Files l = []) (makeDirectories host layout)" for layout
    unfolding makeDirectories_def
    by (intro root_lease.tracks_bind root_lease.tracks_for step root_lease.tracks_quiet quiet_context)
  then have "root_lease.balances (\<lambda>l. rl_Files l = []) (leased (newRootLease layout)
      (rollbackOnError (closeRoot host) (RootError ''rollback-failed'') (makeDirectories host layout)))" for layout
    by (rule root_lease.balances_leased) (simp_all add: newRootLease_def liveRoot_def ownedRoot_def)
  then show ?thesis
    unfolding ProvisionRoot_def by (auto intro: root_lease.balances_error root_lease.balances_after)
qed

end
