(* ===== verification/Install_State.thy ===== *)
theory Install_State
  imports Install_Root
begin

text \<open>
  The protected state of an installation: \<open>internal/installstate/materialize.go\<close>.  It acts on any
  store; the locale states what it relies on, and the root lease is the store the installer uses.
  An error carries the receipt the function returns with it.
\<close>

definition MaxPasswordBytes :: nat where "MaxPasswordBytes = 1024"

datatype StateError = StateError string

definition emptyLayout :: Layout where
  "emptyLayout = \<lparr>ly_Root = [], ly_BinDirectory = [], ly_BrokerExecutable = [], ly_ControlExecutable = [],
     ly_StateDirectory = [], ly_InstallationConfig = [], ly_InstallationMetadata = [], ly_ExecutionCredential = [],
     ly_RunnerRoot = [], ly_RunnerControlExecutable = [], ly_RunnerWorkDirectory = [], ly_RunnerResponseDirectory = []\<rparr>"

record Receipt =
  rc_Layout :: Layout
  rc_CredentialWritten :: bool
  rc_ConfigWritten :: bool

definition emptyReceipt :: Receipt where
  "emptyReceipt = \<lparr>rc_Layout = emptyLayout, rc_CredentialWritten = False, rc_ConfigWritten = False\<rparr>"

definition validPassword :: "string \<Rightarrow> bool" where
  "validPassword password \<longleftrightarrow> 0 < length password \<and> length password \<le> MaxPasswordBytes \<and> validString password
     \<and> CHR 0x00 \<notin> set password"

text \<open>What the installation is about to write, before anything is touched.\<close>

definition preparedState :: "Spec \<Rightarrow> IdentityBinding \<Rightarrow> string \<Rightarrow> StateError + (Layout \<times> string)" where
  "preparedState spec binding password =
     bindR (mapErr (\<lambda>_. StateError ''install-plan-invalid'') (Build spec)) (\<lambda>plan.
     bindR (mapErr (\<lambda>_. StateError ''identity-binding-invalid'') (Bind spec binding)) (\<lambda>configuration.
     bindR (mapErr (\<lambda>_. StateError ''configuration-encode-failed'') (MarshalCanonicalConfig configuration)) (\<lambda>canonical.
     bindR (failIf (\<not> validPassword password) (StateError ''password-invalid'')) (\<lambda>_.
     Inr (pn_Layout plan, canonical)))))"

definition withReceipt :: "StateError \<Rightarrow> Receipt \<Rightarrow> ('s, 'x, 'a) act \<Rightarrow> ('s, StateError \<times> Receipt, 'a) act" where
  "withReceipt e receipt m = mapErrS (\<lambda>_. (e, receipt)) m"

text \<open>
  \<open>alive\<close> is the test of the context, \<open>ensure\<close> and \<open>put\<close> the store, \<open>seal\<close> the sealer, whose
  empty answer counts as a failure.
\<close>

definition Materialize ::
    "bool \<Rightarrow> ('s, StateError, unit) act \<Rightarrow> (string \<Rightarrow> ('s, 'x, unit) act) \<Rightarrow> (string \<Rightarrow> string \<Rightarrow> ('s, 'x, unit) act)
     \<Rightarrow> (string \<Rightarrow> ('s, 'y, string) act) \<Rightarrow> Spec \<Rightarrow> IdentityBinding \<Rightarrow> string \<Rightarrow> ('s, StateError \<times> Receipt, Receipt) act" where
  "Materialize dependencies alive ensure put seal spec binding password =
     (if \<not> dependencies then liftS (Inl (StateError ''dependency-required'', emptyReceipt))
      else bindS (liftS (mapErr (\<lambda>e. (e, emptyReceipt)) (preparedState spec binding password))) (\<lambda>(layout, canonical).
        let sealed = \<lparr>rc_Layout = layout, rc_CredentialWritten = True, rc_ConfigWritten = False\<rparr> in
        bindS (forS (\<lambda>directory.
            bindS (mapErrS (\<lambda>e. (e, emptyReceipt)) alive) (\<lambda>_.
            withReceipt (StateError ''protected-directory-failed'') emptyReceipt (ensure directory)))
          [ly_Root layout, ly_BinDirectory layout, ly_StateDirectory layout]) (\<lambda>_.
        bindS (mapErrS (\<lambda>e. (e, emptyReceipt)) alive) (\<lambda>_.
        bindS (withReceipt (StateError ''credential-seal-failed'') emptyReceipt (seal password)) (\<lambda>protected.
        bindS (liftS (failIf (protected = []) (StateError ''credential-seal-failed'', emptyReceipt))) (\<lambda>_.
        bindS (withReceipt (StateError ''credential-write-failed'') emptyReceipt
          (put (ly_ExecutionCredential layout) protected)) (\<lambda>_.
        bindS (mapErrS (\<lambda>e. (e, sealed)) alive) (\<lambda>_.
        bindS (withReceipt (StateError ''configuration-write-failed'') sealed
          (put (ly_InstallationConfig layout) canonical)) (\<lambda>_.
        liftS (Inr (sealed\<lparr>rc_ConfigWritten := True\<rparr>)))))))))))"

lemma withReceipt_failed: "withReceipt e x m s = (Inl y, s') \<Longrightarrow> y = (e, x)"
  by (cases "fst (m s)") (auto simp: withReceipt_def mapErrS_def)

lemma withReceipt_state: "withReceipt e x m s = (y, s') \<Longrightarrow> m s = (fst (m s), s') \<and> isOk y = isOk (fst (m s))"
  by (cases "m s"; cases "fst (m s)") (auto simp: withReceipt_def mapErrS_def)

lemma withReceipt_ran: "withReceipt e x m s = (Inr a, s') \<longleftrightarrow> m s = (Inr a, s')"
  by (simp add: withReceipt_def mapErrS_Inr)

section \<open>Stores\<close>

text \<open>
  A file of the store: its path, what it was created with, and whether the call that created it
  succeeded.  A call may fail after the file was put in place, when it is read back and does not
  verify; such a file is there all the same, but is not vouched for.
\<close>

type_synonym storedFile = "string \<times> string \<times> bool"

text \<open>
  What a receipt says of the files before and after.  A flag that is set stands for a file that was
  created and verified: the sealed credential, and then the canonical configuration.  A flag that
  is not set means that there is no such file, but for one case: when the error is that of the
  file's own write, the file may have been left in place, unverified.  \<open>sealed c\<close> is that the
  sealer answered \<open>c\<close>.
\<close>

definition truthful ::
    "(string \<Rightarrow> bool) \<Rightarrow> Layout \<Rightarrow> string \<Rightarrow> storedFile list \<Rightarrow> (StateError \<times> Receipt) + Receipt
     \<Rightarrow> storedFile list \<Rightarrow> bool" where
  "truthful sealed layout canonical before r after \<longleftrightarrow>
     (let credential = \<lambda>c ok. (ly_ExecutionCredential layout, c, ok);
          configuration = \<lambda>ok. (ly_InstallationConfig layout, canonical, ok) in
      case r of Inl (e, receipt) \<Rightarrow> \<not> rc_ConfigWritten receipt \<and>
        (if rc_CredentialWritten receipt
         then rc_Layout receipt = layout \<and> (\<exists>c. sealed c \<and> c \<noteq> [] \<and>
           (after = before @ [credential c True]
            \<or> e = StateError ''configuration-write-failed''
              \<and> after = before @ [credential c True, configuration False]))
         else after = before
           \<or> e = StateError ''credential-write-failed''
             \<and> (\<exists>c. sealed c \<and> c \<noteq> [] \<and> after = before @ [credential c False]))
      | Inr receipt \<Rightarrow> rc_Layout receipt = layout \<and> rc_CredentialWritten receipt \<and> rc_ConfigWritten receipt \<and>
        (\<exists>c. sealed c \<and> c \<noteq> [] \<and> after = before @ [credential c True, configuration True]))"

lemma truthful_none: "snd e = emptyReceipt \<Longrightarrow> truthful sealed layout canonical before (Inl e) before"
  by (auto simp: truthful_def emptyReceipt_def split: prod.splits)

lemma truthful_half:
  "rc_Layout (snd e) = layout \<Longrightarrow> rc_CredentialWritten (snd e) \<Longrightarrow> \<not> rc_ConfigWritten (snd e) \<Longrightarrow> sealed c \<Longrightarrow> c \<noteq> []
   \<Longrightarrow> truthful sealed layout canonical before (Inl e) (before @ [(ly_ExecutionCredential layout, c, True)])"
  by (auto simp: truthful_def split: prod.splits)

locale store =
  fixes ensure :: "string \<Rightarrow> ('s, 'x, unit) act" and put :: "string \<Rightarrow> string \<Rightarrow> ('s, 'x, unit) act"
    and files :: "'s \<Rightarrow> storedFile list"
  assumes ensure_keeps: "ensure path st = (r, st') \<Longrightarrow> files st' = files st"
    and put_adds: "put path content st = (r, st') \<Longrightarrow> files st' = files st @ [(path, content, isOk r)] \<or> \<not> isOk r \<and> files st' = files st"
begin

lemma ensured: "withReceipt e x (ensure p) s = (y, s') \<Longrightarrow> files s' = files s \<and> (\<forall>z. y = Inl z \<longrightarrow> z = (e, x))"
  using withReceipt_state [of e x "ensure p" s y s'] withReceipt_failed [of e x "ensure p" s _ s'] ensure_keeps by metis

lemma written:
  "withReceipt e x (put p c) s = (y, s') \<Longrightarrow>
   (files s' = files s @ [(p, c, isOk y)] \<or> \<not> isOk y \<and> files s' = files s) \<and> (\<forall>z. y = Inl z \<longrightarrow> z = (e, x))"
proof -
  assume run: "withReceipt e x (put p c) s = (y, s')"
  obtain r u where put: "put p c s = (r, u)" by (metis surj_pair)
  from withReceipt_state [OF run, unfolded put] have u: "u = s'" "isOk y = isOk r" by (simp_all only: fst_conv prod.inject)
  have "z = (e, x)" if "y = Inl z" for z using withReceipt_failed [OF run [unfolded that]] .
  then have "\<forall>z. y = Inl z \<longrightarrow> z = (e, x)" by blast
  with put_adds [OF put] show ?thesis unfolding u by blast
qed

lemma ended:
  assumes "\<And>st r st'. alive st = (r, st') \<Longrightarrow> files st' = files st"
    and "mapErrS (\<lambda>e. (e, x)) alive s = (y, s')"
  shows "files s' = files s \<and> (\<forall>z. y = Inl z \<longrightarrow> snd z = x)"
  using assms by (cases "alive s"; cases "fst (alive s)") (auto simp: mapErrS_def)

lemma directories:
  assumes alive: "\<And>st r st'. alive st = (r, st') \<Longrightarrow> files st' = files st"
    and "forS (\<lambda>p. bindS (mapErrS (\<lambda>e. (e, x)) alive) (\<lambda>_. withReceipt e x (ensure p))) ps s = (y, s')"
  shows "files s' = files s \<and> (\<forall>z. y = Inl z \<longrightarrow> snd z = x)"
  using assms(2)
proof (induction ps arbitrary: s)
  case (Cons p ps)
  from Cons.prems have "bindS (bindS (mapErrS (\<lambda>e. (e, x)) alive) (\<lambda>_. withReceipt e x (ensure p)))
      (\<lambda>_. forS (\<lambda>p. bindS (mapErrS (\<lambda>e. (e, x)) alive) (\<lambda>_. withReceipt e x (ensure p))) ps) s = (y, s')" by simp
  then show ?case
  proof (cases rule: bindS_cases)
    case (failed z)
    from failed(1) show ?thesis
    proof (cases rule: bindS_cases)
      case inner: (failed z')
      then show ?thesis using ended [OF alive inner(1)] failed(2) by simp
    next
      case (ran a s1)
      then show ?thesis using ended [OF alive ran(1)] ensured [OF ran(2)] failed(2) by auto
    qed
  next
    case (ran a s1)
    from ran(1) have "files s1 = files s"
      by (rule bindS_cases) (simp_all add: ended [OF alive] ensured)
    then show ?thesis using Cons.IH [OF ran(2)] by simp
  qed
qed auto

lemma configuration_truthful:
  assumes run: "bindS (withReceipt (StateError ''configuration-write-failed'') x (put (ly_InstallationConfig layout) canonical))
      (\<lambda>_. liftS (Inr (x\<lparr>rc_ConfigWritten := True\<rparr>))) s = (r, s')"
    and x: "rc_Layout x = layout" "rc_CredentialWritten x" "\<not> rc_ConfigWritten x" and c: "sealed c" "c \<noteq> []"
    and files: "files s = before @ [(ly_ExecutionCredential layout, c, True)]"
  shows "truthful sealed layout canonical before r (files s')"
  using run
proof (cases rule: bindS_cases)
  case (failed z)
  have z: "z = (StateError ''configuration-write-failed'', x)"
    "files s' = files s \<or> files s' = files s @ [(ly_InstallationConfig layout, canonical, False)]"
    using written [OF failed(1)] by auto
  from z(2) show ?thesis
  proof
    assume "files s' = files s"
    then show ?thesis using z(1) files x c truthful_half [of z layout sealed c canonical before] failed(2) by simp
  next
    assume "files s' = files s @ [(ly_InstallationConfig layout, canonical, False)]"
    then show ?thesis using z(1) failed(2) files x c by (auto simp: truthful_def)
  qed
next
  case (ran u s1)
  then show ?thesis using written [OF ran(1)] x c files by (auto simp: truthful_def)
qed

lemma credential_truthful:
  assumes run: "bindS (withReceipt (StateError ''credential-write-failed'') emptyReceipt
        (put (ly_ExecutionCredential layout) c)) (\<lambda>_.
      bindS (mapErrS (\<lambda>e. (e, x)) alive) (\<lambda>_.
      bindS (withReceipt (StateError ''configuration-write-failed'') x (put (ly_InstallationConfig layout) canonical))
        (\<lambda>_. liftS (Inr (x\<lparr>rc_ConfigWritten := True\<rparr>))))) s = (r, s')"
    and alive: "\<And>st r st'. alive st = (r, st') \<Longrightarrow> files st' = files st"
    and x: "rc_Layout x = layout" "rc_CredentialWritten x" "\<not> rc_ConfigWritten x" and c: "sealed c" "c \<noteq> []"
  shows "truthful sealed layout canonical (files s) r (files s')"
  using run
proof (cases rule: bindS_cases)
  case (failed z)
  have z: "z = (StateError ''credential-write-failed'', emptyReceipt)"
    "files s' = files s \<or> files s' = files s @ [(ly_ExecutionCredential layout, c, False)]"
    using written [OF failed(1)] by auto
  then show ?thesis using failed(2) c by (auto simp: truthful_def emptyReceipt_def)
next
  case (ran u s1)
  have s1: "files s1 = files s @ [(ly_ExecutionCredential layout, c, True)]" using written [OF ran(1)] by simp
  from ran(2) show ?thesis
  proof (cases rule: bindS_cases)
    case (failed z)
    then show ?thesis
      using ended [OF alive failed(1)] s1 x truthful_half [of z layout sealed c canonical "files s"] c by auto
  next
    case (ran u s2)
    then show ?thesis using ended [OF alive ran(1)] s1 configuration_truthful [where sealed = sealed, OF ran(2) x c] by simp
  qed
qed

lemma Materialize_truthful:
  assumes alive: "\<And>st r st'. alive st = (r, st') \<Longrightarrow> files st' = files st"
    and seal: "\<And>st r st'. seal password st = (r, st') \<Longrightarrow> files st' = files st"
    and run: "Materialize True alive ensure put seal spec binding password st = (r, st')"
    and prepared: "preparedState spec binding password = Inr (layout, canonical)"
  shows "truthful (\<lambda>c. \<exists>s s'. seal password s = (Inr c, s')) layout canonical (files st) r (files st')"
proof -
  let ?sealed = "\<lambda>c. \<exists>s s'. seal password s = (Inr c, s')"
  define x where "x = \<lparr>rc_Layout = layout, rc_CredentialWritten = True, rc_ConfigWritten = False\<rparr>"
  have x: "rc_Layout x = layout" "rc_CredentialWritten x" "\<not> rc_ConfigWritten x" by (simp_all add: x_def)
  have early: "truthful ?sealed layout canonical (files st) (Inl e) (files s)"
    if "snd e = emptyReceipt" "files s = files st" for e s
    using truthful_none [OF that(1), of ?sealed layout canonical "files s"] that(2) by simp
  note steps = run [unfolded Materialize_def Let_def, simplified prepared, simplified, folded x_def [simplified]]
  from steps show ?thesis
  proof (cases rule: bindS_cases)
    case (failed e)
    then show ?thesis using directories [OF alive failed(1)] early by simp
  next
    case (ran u s1)
    have s1: "files s1 = files st" using directories [OF alive ran(1)] by simp
    from ran(2) show ?thesis
    proof (cases rule: bindS_cases)
      case (failed e)
      then show ?thesis using ended [OF alive failed(1)] s1 early by simp
    next
      case (ran v s2)
      have s2: "files s2 = files st" using ended [OF alive ran(1)] s1 by simp
      from ran(2) show ?thesis
      proof (cases rule: bindS_cases)
        case (failed e)
        then show ?thesis
          using withReceipt_failed [OF failed(1)] seal [OF conjunct1 [OF withReceipt_state [OF failed(1)]]] s2 early by simp
      next
        case (ran c s3)
        have c: "seal password s2 = (Inr c, s3)" using ran(1) by (simp add: withReceipt_ran)
        then have s3: "files s3 = files st" using seal s2 by simp
        show ?thesis
        proof (cases "c = []")
          case True
          then show ?thesis using ran(2) s3 early by (auto simp: failIf_def)
        next
          case False
          then have "bindS (withReceipt (StateError ''credential-write-failed'') emptyReceipt
              (put (ly_ExecutionCredential layout) c)) (\<lambda>_.
              bindS (mapErrS (\<lambda>e. (e, x)) alive) (\<lambda>_.
              bindS (withReceipt (StateError ''configuration-write-failed'') x (put (ly_InstallationConfig layout) canonical))
                (\<lambda>_. liftS (Inr (x\<lparr>rc_ConfigWritten := True\<rparr>))))) s3 = (r, st')"
            using ran(2) by (simp add: failIf_def x_def)
          from credential_truthful [where sealed = ?sealed, OF this _ x _ False] alive c s3 show ?thesis by metis
        qed
      qed
    qed
  qed
qed

end

section \<open>The root lease as the store\<close>

text \<open>The state files that were created, in order, with whether their call succeeded.\<close>

fun stateFile :: "Event \<Rightarrow> storedFile list" where
  "stateFile (FileMade StateFile path content created ok) = (if created then [(path, content, ok)] else [])"
| "stateFile _ = []"

definition stateFiles :: "RootLease held \<Rightarrow> storedFile list" where
  "stateFiles st = concat (map stateFile (snd st))"

interpretation root_store: store "EnsureProtectedDirectory host" "WriteProtectedFile host" stateFiles
proof unfold_locales
  fix path st r st' assume "EnsureProtectedDirectory host path st = (r, st')"
  then show "stateFiles st' = stateFiles st"
    by (auto simp: EnsureProtectedDirectory_def onHost_def require_def ask_def stateFiles_def split: if_splits)
next
  fix path content st r st' assume "WriteProtectedFile host path content st = (r, st')"
  then show "stateFiles st' = stateFiles st @ [(path, content, isOk r)] \<or> \<not> isOk r \<and> stateFiles st' = stateFiles st"
    by (cases st) (auto simp: WriteProtectedFile_def createFile_def stateFiles_def split: if_splits prod.splits)
qed

text \<open>The state the installer leaves under a root lease.\<close>

definition contextAlive :: "Host \<Rightarrow> (RootLease held, StateError, unit) act" where
  "contextAlive host = onHost (contextError host (StateError ''context-cancelled''))"

definition sealWith :: "Host \<Rightarrow> string \<Rightarrow> (RootLease held, unit, string) act" where
  "sealWith host password =
     onHost (\<lambda>h. case ask (\<lambda>h. ho_Seal host h password) (Sealed password) h of (r, h') \<Rightarrow> (case r of None \<Rightarrow> Inl () | Some c \<Rightarrow> Inr c, h'))"

end
