(* ===== verification/Windows_Command.thy ===== *)
theory Windows_Command
  imports Go_Strings
begin

text \<open>
  Command lines on Windows, as the Go library writes and reads them: \<open>syscall.EscapeArg\<close>, with
  which the services' command lines are built, and the splitting of a command line into
  \<open>os.Args\<close>, which the started program sees.
\<close>

section \<open>Writing an argument\<close>

definition backslashes :: "nat \<Rightarrow> string" where "backslashes n = replicate n CHR 0x5C"

text \<open>\<open>slashes\<close> counts the backslashes just written; a quotation mark doubles them.\<close>

fun escapeChars :: "nat \<Rightarrow> string \<Rightarrow> string \<times> nat" where
  "escapeChars slashes [] = ([], slashes)"
| "escapeChars slashes (c # s) =
     (if c = CHR 0x5C then (case escapeChars (Suc slashes) s of (b, n) \<Rightarrow> (c # b, n))
      else if c = CHR 0x22 then (case escapeChars 0 s of (b, n) \<Rightarrow> (backslashes slashes @ CHR 0x5C # c # b, n))
      else (case escapeChars 0 s of (b, n) \<Rightarrow> (c # b, n)))"

definition isBlank :: "char \<Rightarrow> bool" where "isBlank c \<longleftrightarrow> c = CHR '' '' \<or> c = CHR 0x09"

definition EscapeArg :: "string \<Rightarrow> string" where
  "EscapeArg s =
     (let needsBackslash = CHR 0x22 \<in> set s \<or> CHR 0x5C \<in> set s; hasSpace = list_ex isBlank s in
      if s = [] then [CHR 0x22, CHR 0x22]
      else if \<not> needsBackslash \<and> \<not> hasSpace then s
      else if \<not> needsBackslash then CHR 0x22 # s @ [CHR 0x22]
      else case escapeChars 0 s of (b, slashes) \<Rightarrow>
        if hasSpace then CHR 0x22 # b @ backslashes slashes @ [CHR 0x22] else b)"

fun escapeArgs :: "string list \<Rightarrow> string" where
  "escapeArgs [] = []"
| "escapeArgs [a] = EscapeArg a"
| "escapeArgs (a # b # as) = EscapeArg a @ CHR '' '' # escapeArgs (b # as)"

section \<open>Reading a command line\<close>

text \<open>
  The scan of one argument: \<open>quoted\<close> is whether it is inside quotation marks and \<open>n\<close> the number of
  backslashes that are pending.
\<close>

fun readNextArg :: "bool \<Rightarrow> nat \<Rightarrow> string \<Rightarrow> string \<times> string" where
  "readNextArg quoted n [] = (backslashes n, [])"
| "readNextArg quoted n (c # cmd) =
     (if isBlank c \<and> \<not> quoted then (backslashes n, cmd)
      else if c = CHR 0x22 then
        if even n then
          if quoted \<and> cmd \<noteq> [] \<and> hd cmd = CHR 0x22
          then (case readNextArg False 0 (tl cmd) of (b, rest) \<Rightarrow> (backslashes (n div 2) @ c # b, rest))
          else (case readNextArg (\<not> quoted) 0 cmd of (b, rest) \<Rightarrow> (backslashes (n div 2) @ b, rest))
        else (case readNextArg quoted 0 cmd of (b, rest) \<Rightarrow> (backslashes (n div 2) @ c # b, rest))
      else if c = CHR 0x5C then readNextArg quoted (Suc n) cmd
      else (case readNextArg quoted 0 cmd of (b, rest) \<Rightarrow> (backslashes n @ c # b, rest)))"

lemma readNextArg_rest: "length (snd (readNextArg quoted n cmd)) \<le> length cmd"
proof (induction quoted n cmd rule: readNextArg.induct)
  case (2 quoted n c cmd)
  then show ?case by (cases "c = CHR 0x22"; cases "even n"; cases quoted) (auto split: prod.splits simp: le_SucI)
qed simp

lemma readNextArg_shorter: "length (snd (readNextArg False 0 (c # cmd))) \<le> length cmd"
  using readNextArg_rest [of True 0 cmd] readNextArg_rest [of False 0 cmd] readNextArg_rest [of False 1 cmd]
  by (auto split: prod.splits)

function commandLineToArgv :: "string \<Rightarrow> string list" where
  "commandLineToArgv [] = []"
| "commandLineToArgv (c # cmd) =
     (if isBlank c then commandLineToArgv cmd
      else case readNextArg False 0 (c # cmd) of (arg, rest) \<Rightarrow> arg # commandLineToArgv rest)"
  by pat_completeness auto

termination
proof (relation "measure length")
  fix c cmd arg rest
  assume "(arg, rest) = readNextArg False 0 (c # cmd)"
  then show "(rest, c # cmd) \<in> measure length"
    using readNextArg_shorter [of c cmd] by (cases "readNextArg False 0 (c # cmd)") simp
qed simp_all

section \<open>What is written is read back\<close>

lemma backslashes_simps [simp]:
  "backslashes 0 = []" "backslashes (Suc n) = CHR 0x5C # backslashes n" "backslashes n @ CHR 0x5C # s = CHR 0x5C # backslashes n @ s"
  by (simp_all add: backslashes_def replicate_app_Cons_same)

lemma read_backslashes: "readNextArg quoted n (backslashes m @ cmd) = readNextArg quoted (n + m) cmd"
  by (induction m arbitrary: n) (simp_all add: isBlank_def)

lemma read_escaped:
  assumes "readNextArg quoted (snd (escapeChars k s)) tail = (backslashes (snd (escapeChars k s)) @ x, rest)"
    and "quoted \<or> \<not> list_ex isBlank s"
  shows "readNextArg quoted k (fst (escapeChars k s) @ tail) = (backslashes k @ s @ x, rest)"
  using assms
proof (induction k s rule: escapeChars.induct)
  case (2 k c s)
  consider "c = CHR 0x5C" | "c = CHR 0x22" | "c \<noteq> CHR 0x5C" "c \<noteq> CHR 0x22" by blast
  then show ?case
  proof cases
    case 1
    then show ?thesis using 2 by (simp add: isBlank_def split: prod.splits)
  next
    case quote: 2
    then have "readNextArg quoted 0 (fst (escapeChars 0 s) @ tail) = (s @ x, rest)"
      using 2 by (auto split: prod.splits)
    then show ?thesis
      using quote read_backslashes [of quoted k k "CHR 0x5C # CHR 0x22 # fst (escapeChars 0 s) @ tail"]
      by (cases "escapeChars 0 s") (simp add: isBlank_def)
  next
    case 3
    then have "readNextArg quoted 0 (fst (escapeChars 0 s) @ tail) = (s @ x, rest)"
      using 2 by (auto split: prod.splits)
    then show ?thesis using 3 2 by (auto split: prod.splits)
  qed
qed simp

lemma escape_nothing: "CHR 0x22 \<notin> set s \<Longrightarrow> CHR 0x5C \<notin> set s \<Longrightarrow> escapeChars 0 s = (s, 0)"
  by (induction s) auto

lemma EscapeArg_cases:
  "EscapeArg s = (if s = [] \<or> list_ex isBlank s
     then CHR 0x22 # fst (escapeChars 0 s) @ backslashes (snd (escapeChars 0 s)) @ [CHR 0x22] else fst (escapeChars 0 s))"
  using escape_nothing [of s] by (auto simp: EscapeArg_def Let_def split: prod.splits)

definition separated :: "string \<Rightarrow> string \<Rightarrow> bool" where
  "separated tail rest \<longleftrightarrow> tail = [] \<and> rest = [] \<or> tail = CHR '' '' # rest"

lemma read_EscapeArg:
  assumes "separated tail rest"
  shows "readNextArg False 0 (EscapeArg s @ tail) = (s, rest)"
proof (cases "s = [] \<or> list_ex isBlank s")
  case True
  let ?m = "snd (escapeChars 0 s)"
  have "readNextArg True ?m (backslashes ?m @ CHR 0x22 # tail) = readNextArg True (?m + ?m) (CHR 0x22 # tail)"
    by (rule read_backslashes)
  also have "\<dots> = (backslashes ?m @ [], rest)"
    using assms by (auto simp: separated_def isBlank_def)
  finally have "readNextArg True 0 (fst (escapeChars 0 s) @ backslashes ?m @ CHR 0x22 # tail) = (backslashes 0 @ s @ [], rest)"
    by (rule read_escaped) simp
  then show ?thesis using True by (simp add: EscapeArg_cases isBlank_def)
next
  case False
  have "readNextArg False 0 (fst (escapeChars 0 s) @ tail) = (backslashes 0 @ s @ [], rest)"
    by (rule read_escaped) (use assms False in \<open>auto simp: separated_def isBlank_def\<close>)
  then show ?thesis using False by (simp add: EscapeArg_cases)
qed

lemma EscapeArg_starts: "\<exists>c b. EscapeArg s = c # b \<and> \<not> isBlank c"
proof (cases s)
  case (Cons c t)
  then show ?thesis
    by (auto simp: EscapeArg_cases isBlank_def backslashes_def split: prod.splits)
qed (simp add: EscapeArg_cases isBlank_def)

lemma read_first:
  assumes "separated tail rest"
  shows "commandLineToArgv (EscapeArg s @ tail) = s # commandLineToArgv rest"
proof -
  obtain c b where "EscapeArg s = c # b" "\<not> isBlank c" using EscapeArg_starts by blast
  then show ?thesis using read_EscapeArg [OF assms, of s] by simp
qed

lemma commandLineToArgv_escapeArgs: "commandLineToArgv (escapeArgs args) = args"
proof (induction args rule: escapeArgs.induct)
  case (2 a)
  then show ?case using read_first [of "[]" "[]" a] by (simp add: separated_def)
next
  case (3 a b as)
  then show ?case using read_first [of "CHR '' '' # escapeArgs (b # as)" "escapeArgs (b # as)" a] by (simp add: separated_def)
qed simp

end
