(* ===== verification/Service_Policy.thy ===== *)
theory Service_Policy
  imports Windows_Command Install_Plan
begin

text \<open>
  The two Windows services of an installation: \<open>internal/platform/windows/serviceinstall/policy_windows.go\<close>
  and \<open>internal/platform/windows/runnerservice/policy_windows.go\<close>.  The constants of the service
  control manager come from a third-party package and are the parameter \<open>Scm\<close>; a security
  descriptor is what its accessors answer.
\<close>

section \<open>Plans\<close>

record Scm =
  sc_OwnProcess :: nat
  sc_Automatic :: nat
  sc_Disabled :: nat
  sc_ErrorNormal :: nat
  sc_SidNone :: nat
  sc_Restart :: nat
  sc_NoAction :: nat

record ServiceConfig =
  sv_ServiceType :: nat
  sv_StartType :: nat
  sv_ErrorControl :: nat
  sv_BinaryPathName :: string
  sv_LoadOrderGroup :: string
  sv_TagId :: nat
  sv_Dependencies :: "string list"
  sv_ServiceStartName :: string
  sv_DisplayName :: string
  sv_Password :: string
  sv_Description :: string
  sv_SidType :: nat
  sv_DelayedAutoStart :: bool

record RecoveryAction =
  ra_Type :: nat
  ra_DelaySeconds :: nat

record ServicePlan =
  sv_Name :: string
  sv_Executable :: string
  sv_Arguments :: "string list"
  sv_Command :: string
  sv_Configuration :: ServiceConfig
  sv_RecoveryActions :: "RecoveryAction list"
  sv_RecoveryResetPeriodSeconds :: nat
  sv_RecoveryOnNonCrash :: bool
  sv_SecurityDescriptor :: string

datatype ServiceError = ServiceError string

definition brokerServiceName :: string where "brokerServiceName = ''AgentWorkstationGatewayBroker''"
definition runnerServiceName :: string where "runnerServiceName = ''AgentWorkstationGatewayRunner''"
definition ServiceSDDL :: string where "ServiceSDDL = ''O:SYG:SYD:P(A;;0xF01FF;;;SY)(A;;0xF01FF;;;BA)''"
definition recoveryResetSecs :: nat where "recoveryResetSecs = 24 * 60 * 60"

definition recoveryActions :: "Scm \<Rightarrow> RecoveryAction list" where
  "recoveryActions scm =
     [\<lparr>ra_Type = sc_Restart scm, ra_DelaySeconds = 5\<rparr>, \<lparr>ra_Type = sc_Restart scm, ra_DelaySeconds = 30\<rparr>,
      \<lparr>ra_Type = sc_NoAction scm, ra_DelaySeconds = 0\<rparr>]"

text \<open>The part of the two configurations that is the same.\<close>

definition serviceConfiguration :: "Scm \<Rightarrow> string \<Rightarrow> string list \<Rightarrow> string \<Rightarrow> string \<Rightarrow> string \<Rightarrow> ServiceConfig" where
  "serviceConfiguration scm command dependencies account display description =
     \<lparr>sv_ServiceType = sc_OwnProcess scm, sv_StartType = sc_Automatic scm, sv_ErrorControl = sc_ErrorNormal scm,
      sv_BinaryPathName = command, sv_LoadOrderGroup = [], sv_TagId = 0, sv_Dependencies = dependencies,
      sv_ServiceStartName = account, sv_DisplayName = display, sv_Password = [], sv_Description = description,
      sv_SidType = sc_SidNone scm, sv_DelayedAutoStart = False\<rparr>"

definition BuildBrokerServicePlan :: "Scm \<Rightarrow> string \<Rightarrow> ServiceError + ServicePlan" where
  "BuildBrokerServicePlan scm installationRoot =
     bindR (mapErr (\<lambda>_. ServiceError ''installation-root-invalid'') (WindowsLayout installationRoot)) (\<lambda>layout.
       let executable = ly_BrokerExecutable layout;
           arguments = [''--installation-root'', installationRoot];
           command = foldl (\<lambda>command argument. command @ '' '' @ EscapeArg argument) (EscapeArg executable) arguments
       in Inr \<lparr>sv_Name = brokerServiceName, sv_Executable = executable, sv_Arguments = arguments, sv_Command = command,
           sv_Configuration = serviceConfiguration scm command [] ''LocalSystem'' ''Agent Workstation Gateway Broker''
             ''Runs bounded Agent Workstation Gateway workloads under the installed restricted identity.'',
           sv_RecoveryActions = recoveryActions scm, sv_RecoveryResetPeriodSeconds = recoveryResetSecs,
           sv_RecoveryOnNonCrash = True, sv_SecurityDescriptor = ServiceSDDL\<rparr>)"

definition BuildRunnerServicePlan :: "Scm \<Rightarrow> string \<Rightarrow> string \<Rightarrow> ServiceError + ServicePlan" where
  "BuildRunnerServicePlan scm installationRoot controlAccount =
     bindR (mapErr (\<lambda>_. ServiceError ''installation-root-invalid'') (WindowsLayout installationRoot)) (\<lambda>layout.
     bindR (failIf (\<not> principalNamePattern controlAccount) (ServiceError ''control-account-invalid'')) (\<lambda>_.
       let executable = ly_RunnerRoot layout @ [CHR 0x5C] @ ''bin'' @ [CHR 0x5C] @ ''RunnerService.exe'';
           command = EscapeArg executable @ '' '' @ EscapeArg runnerServiceName
       in Inr \<lparr>sv_Name = runnerServiceName, sv_Executable = executable, sv_Arguments = [runnerServiceName],
           sv_Command = command,
           sv_Configuration = serviceConfiguration scm command [brokerServiceName] (CHR ''.'' # CHR 0x5C # controlAccount)
             ''Agent Workstation Gateway Runner'' ''Runs the fixed private Agent Workstation Gateway control workflow.'',
           sv_RecoveryActions = recoveryActions scm, sv_RecoveryResetPeriodSeconds = recoveryResetSecs,
           sv_RecoveryOnNonCrash = True, sv_SecurityDescriptor = ServiceSDDL\<rparr>))"

text \<open>The service is created disabled and without a description.\<close>

definition createConfiguration :: "Scm \<Rightarrow> ServicePlan \<Rightarrow> ServiceConfig" where
  "createConfiguration scm plan =
     (sv_Configuration plan)\<lparr>sv_StartType := sc_Disabled scm, sv_Description := [], sv_DelayedAutoStart := False\<rparr>"

text \<open>
  The command the service starts, \<open>run\<close> of \<open>cmd/awg-broker/main.go\<close>: its exit code, and the
  installation root and source version with which \<open>start\<close> is called, if it is.
\<close>

definition brokerRun :: "string list \<Rightarrow> string \<Rightarrow> (string \<Rightarrow> string \<Rightarrow> bool) \<Rightarrow> int \<times> (string \<times> string) option" where
  "brokerRun args sourceSHA start =
     (if length args \<noteq> 2 \<or> args ! 0 \<noteq> ''--installation-root'' \<or> args ! 1 = [] then (1, None)
      else (if start (args ! 1) sourceSHA then 0 else 1, Some (args ! 1, sourceSHA)))"

section \<open>Checking what was installed\<close>

definition equalStrings :: "string list \<Rightarrow> string list \<Rightarrow> bool" where
  "equalStrings left right \<longleftrightarrow> length left = length right \<and> list_all (\<lambda>(l, r). l = r) (zip left right)"

text \<open>What the two packages compare in the same way.\<close>

definition sameConfiguration :: "ServiceConfig \<Rightarrow> ServiceConfig \<Rightarrow> bool" where
  "sameConfiguration c e \<longleftrightarrow> sv_ServiceType c = sv_ServiceType e \<and> sv_StartType c = sv_StartType e
     \<and> sv_ErrorControl c = sv_ErrorControl e \<and> sv_BinaryPathName c = sv_BinaryPathName e
     \<and> sv_LoadOrderGroup c = [] \<and> sv_TagId c = 0 \<and> equalFold (sv_ServiceStartName c) (sv_ServiceStartName e)
     \<and> sv_DisplayName c = sv_DisplayName e \<and> sv_Description c = sv_Description e \<and> sv_SidType c = sv_SidType e
     \<and> sv_DelayedAutoStart c = sv_DelayedAutoStart e"

definition validRecovery :: "ServicePlan \<Rightarrow> RecoveryAction list \<Rightarrow> nat \<Rightarrow> bool \<Rightarrow> string \<Rightarrow> string \<Rightarrow> ServiceError + unit" where
  "validRecovery plan actions resetPeriod onNonCrash recoveryCommand rebootMessage =
     checks [failIf (length actions \<noteq> length (sv_RecoveryActions plan)) (ServiceError ''service-recovery-mismatch''),
       failIf (\<exists>i \<in> {..<length actions}. actions ! i \<noteq> sv_RecoveryActions plan ! i) (ServiceError ''service-recovery-mismatch''),
       failIf (resetPeriod \<noteq> sv_RecoveryResetPeriodSeconds plan \<or> onNonCrash \<noteq> sv_RecoveryOnNonCrash plan
         \<or> recoveryCommand \<noteq> [] \<or> rebootMessage \<noteq> []) (ServiceError ''service-recovery-mismatch'')]"

definition validateBrokerPolicy ::
    "ServicePlan \<Rightarrow> ServiceConfig \<Rightarrow> RecoveryAction list \<Rightarrow> nat \<Rightarrow> bool \<Rightarrow> string \<Rightarrow> string \<Rightarrow> ServiceError + unit" where
  "validateBrokerPolicy plan c actions resetPeriod onNonCrash recoveryCommand rebootMessage =
     bindR (failIf (\<not> sameConfiguration c (sv_Configuration plan) \<or> sv_Dependencies c \<noteq> [])
       (ServiceError ''service-configuration-mismatch''))
     (\<lambda>_. validRecovery plan actions resetPeriod onNonCrash recoveryCommand rebootMessage)"

definition validateRunnerPolicy ::
    "ServicePlan \<Rightarrow> ServiceConfig \<Rightarrow> RecoveryAction list \<Rightarrow> nat \<Rightarrow> bool \<Rightarrow> string \<Rightarrow> string \<Rightarrow> ServiceError + unit" where
  "validateRunnerPolicy plan c actions resetPeriod onNonCrash recoveryCommand rebootMessage =
     bindR (failIf (\<not> sameConfiguration c (sv_Configuration plan) \<or> sv_Password c \<noteq> []
         \<or> \<not> equalStrings (sv_Dependencies c) (sv_Dependencies (sv_Configuration plan)))
       (ServiceError ''service-configuration-mismatch''))
     (\<lambda>_. validRecovery plan actions resetPeriod onNonCrash recoveryCommand rebootMessage)"

section \<open>Security descriptors\<close>

datatype Sid = LocalSystem | Administrators | OtherSid

text \<open>
  An entry of an access list: whether it could be read, whether it is an access-allowed entry, its
  flags, size and mask, and its SID with its validity and length.  The SID starts 8 bytes in.
\<close>

record Ace =
  ae_Read :: bool
  ae_Allowed :: bool
  ae_Flags :: nat
  ae_Size :: nat
  ae_Mask :: nat
  ae_SidValid :: bool
  ae_SidLen :: nat
  ae_Sid :: Sid

text \<open>\<open>None\<close> is an accessor that failed or answered nil.\<close>

record Descriptor =
  de_Owner :: "Sid option"
  de_Group :: "Sid option"
  de_Present :: bool
  de_Protected :: bool
  de_Dacl :: "Ace list option"

definition allAccess :: nat where "allAccess = 0xF01FF"

text \<open>The test of one entry, which both services have as a copy of their own.\<close>

definition brokerAceInvalid :: "Ace \<Rightarrow> bool" where
  "brokerAceInvalid a \<longleftrightarrow> \<not> ae_Read a \<or> \<not> ae_Allowed a \<or> ae_Flags a \<noteq> 0 \<or> ae_Size a < 8 + 8 \<or> ae_Mask a \<noteq> allAccess
     \<or> \<not> ae_SidValid a \<or> ae_Size a < 8 + ae_SidLen a"

definition runnerAceInvalid :: "Ace \<Rightarrow> bool" where
  "runnerAceInvalid a \<longleftrightarrow> \<not> ae_Read a \<or> \<not> ae_Allowed a \<or> ae_Flags a \<noteq> 0 \<or> ae_Size a < 8 + 8 \<or> ae_Mask a \<noteq> allAccess
     \<or> \<not> ae_SidValid a \<or> ae_Size a < 8 + ae_SidLen a"

definition descriptorChecks :: "Descriptor option \<Rightarrow> ServiceError + Ace list" where
  "descriptorChecks descriptor = (case descriptor of
     None \<Rightarrow> Inl (ServiceError ''service-security-invalid'')
   | Some d \<Rightarrow>
       bindR (checks [failIf (de_Owner d \<noteq> Some LocalSystem) (ServiceError ''service-owner-mismatch''),
           failIf (de_Group d \<noteq> Some LocalSystem) (ServiceError ''service-group-mismatch''),
           failIf (\<not> de_Present d \<or> \<not> de_Protected d) (ServiceError ''service-dacl-not-protected'')])
         (\<lambda>_. case de_Dacl d of
            None \<Rightarrow> Inl (ServiceError ''service-dacl-not-exact'')
          | Some dacl \<Rightarrow> if length dacl \<noteq> 2 then Inl (ServiceError ''service-dacl-not-exact'') else Inr dacl))"

text \<open>The loop of the broker service keeps two flags, that of the runner service a set of the keys it saw.\<close>

fun brokerAces :: "bool \<Rightarrow> bool \<Rightarrow> Ace list \<Rightarrow> ServiceError + bool \<times> bool" where
  "brokerAces system administrators [] = Inr (system, administrators)"
| "brokerAces system administrators (a # as) =
     (if brokerAceInvalid a then Inl (ServiceError ''service-ace-invalid'')
      else case ae_Sid a of
        LocalSystem \<Rightarrow> brokerAces True administrators as
      | Administrators \<Rightarrow> brokerAces system True as
      | OtherSid \<Rightarrow> Inl (ServiceError ''service-principal-denied''))"

definition validateBrokerDescriptor :: "Descriptor option \<Rightarrow> ServiceError + unit" where
  "validateBrokerDescriptor descriptor =
     bindR (descriptorChecks descriptor) (\<lambda>dacl. bindR (brokerAces False False dacl) (\<lambda>(system, administrators).
       failIf (\<not> system \<or> \<not> administrators) (ServiceError ''service-dacl-incomplete'')))"

fun runnerAces :: "string list \<Rightarrow> Ace list \<Rightarrow> ServiceError + string list" where
  "runnerAces seen [] = Inr seen"
| "runnerAces seen (a # as) =
     (if runnerAceInvalid a then Inl (ServiceError ''service-ace-invalid'')
      else case (case ae_Sid a of LocalSystem \<Rightarrow> Some ''system'' | Administrators \<Rightarrow> Some ''administrators'' | OtherSid \<Rightarrow> None) of
        None \<Rightarrow> Inl (ServiceError ''service-principal-denied'')
      | Some key \<Rightarrow> if key \<in> set seen then Inl (ServiceError ''service-principal-denied'') else runnerAces (key # seen) as)"

definition validateRunnerDescriptor :: "Descriptor option \<Rightarrow> ServiceError + unit" where
  "validateRunnerDescriptor descriptor =
     bindR (descriptorChecks descriptor) (\<lambda>dacl. bindR (runnerAces [] dacl) (\<lambda>seen.
       failIf (length seen \<noteq> 2) (ServiceError ''service-dacl-incomplete'')))"

end
