(* ===== verification/Service_Provision.thy ===== *)
theory Service_Provision
  imports Service_Policy Install_Host
begin

text \<open>
  The transactions of the two services: \<open>internal/platform/windows/serviceinstall/provision_windows.go\<close>
  and \<open>internal/platform/windows/runnerservice/provision_windows.go\<close>.  The two packages have the
  same lease and the same steps but for the check of the executable; the service is the parameter
  \<open>s\<close>.  A nil service is \<open>sl_Service = False\<close>.
\<close>

section \<open>Leases\<close>

record ServiceLease =
  sl_Service :: bool
  sl_Committed :: bool
  sl_Closed :: bool

definition deleteService :: "Host \<Rightarrow> Service \<Rightarrow> bool query" where
  "deleteService host s = ask (\<lambda>h. ho_DeleteService host h s) (ServiceDeleted s)"

definition closeHandle :: "Host \<Rightarrow> Service \<Rightarrow> bool query" where
  "closeHandle host s = ask (\<lambda>h. ho_CloseService host h s) (ServiceHandleClosed s)"

definition commitService :: "Host \<Rightarrow> Service \<Rightarrow> (ServiceLease held, ServiceError, unit) act" where
  "commitService host s st = (case st of (l, h) \<Rightarrow>
     if sl_Closed l \<or> \<not> sl_Service l then (Inl (ServiceError ''lease-closed''), st)
     else case closeHandle host s h of (ok, h') \<Rightarrow>
       if \<not> ok then (Inl (ServiceError ''service-handle-close-failed''), (l, h'))
       else (Inr (), (l\<lparr>sl_Committed := True, sl_Closed := True, sl_Service := False\<rparr>, h')))"

text \<open>A service that was not committed is deleted; its handle is closed in any case.\<close>

definition closeService :: "Host \<Rightarrow> Service \<Rightarrow> (ServiceLease held, ServiceError, unit) act" where
  "closeService host s st = (case st of (l, h) \<Rightarrow>
     if sl_Closed l then (Inr (), st)
     else if \<not> sl_Service l then (Inr (), (l\<lparr>sl_Closed := True\<rparr>, h))
     else case (if sl_Committed l then (True, h) else deleteService host s h) of (deleted, h1) \<Rightarrow>
       case closeHandle host s h1 of (handleClosed, h2) \<Rightarrow>
       (if deleted \<and> handleClosed then Inr () else Inl (ServiceError ''service-rollback-failed''),
        (l\<lparr>sl_Closed := True, sl_Service := False\<rparr>, h2)))"

section \<open>Provisioning\<close>

definition serviceContext :: "Host \<Rightarrow> (Event list, ServiceError, unit) act" where
  "serviceContext host = contextError host (ServiceError ''context-cancelled'')"

definition serviceFree :: "Host \<Rightarrow> Service \<Rightarrow> (Event list, ServiceError, unit) act" where
  "serviceFree host s =
     bindS (query (ask (\<lambda>h. ho_ServiceExists host h s) (ServiceAsked s))) (\<lambda>exists. liftS (case exists of
       None \<Rightarrow> Inl (ServiceError ''service-preflight-failed'')
     | Some True \<Rightarrow> Inl (ServiceError ''service-already-exists'')
     | Some False \<Rightarrow> Inr ()))"

text \<open>The answer to a creation: a service or nil, whether it was created, and whether the call succeeded.\<close>

definition makeService :: "Host \<Rightarrow> Service \<Rightarrow> string \<Rightarrow> (ServiceLease held, ServiceError, unit) act" where
  "makeService host s command st = (case st of (l, h) \<Rightarrow>
     case ho_CreateService host h s command of (present, created, ok) \<Rightarrow>
       (if \<not> ok \<or> \<not> created \<or> \<not> present then Inl (ServiceError ''service-create-failed'') else Inr (),
        (l\<lparr>sl_Service := created \<and> present\<rparr>, h @ [ServiceMade s command present created ok])))"

definition configureService :: "Host \<Rightarrow> Service \<Rightarrow> string \<Rightarrow> (ServiceLease held, ServiceError, unit) act" where
  "configureService host s command =
     bindS (makeService host s command) (\<lambda>_.
     bindS (onHost (require (ask (\<lambda>h. ho_ApplyService host h s) (ServiceApplied s)) (ServiceError ''service-policy-apply-failed''))) (\<lambda>_.
     bindS (onHost (serviceContext host)) (\<lambda>_.
     bindS (onHost (require (ask (\<lambda>h. ho_VerifyService host h s) (ServiceVerified s))
       (ServiceError ''service-policy-verification-failed''))) (\<lambda>_.
     onHost (serviceContext host)))))"

definition newServiceLease :: ServiceLease where
  "newServiceLease = \<lparr>sl_Service = False, sl_Committed = False, sl_Closed = False\<rparr>"

text \<open>\<open>ready\<close> is the check of the executable.\<close>

definition provisionService ::
    "Host \<Rightarrow> Service \<Rightarrow> (Event list, ServiceError, unit) act \<Rightarrow> string \<Rightarrow> (Event list, ServiceError, ServiceLease) act" where
  "provisionService host s ready command =
     bindS (serviceContext host) (\<lambda>_.
     bindS ready (\<lambda>_.
     bindS (serviceFree host s) (\<lambda>_.
     bindS (serviceContext host) (\<lambda>_.
       leased newServiceLease
         (rollbackOnError (closeService host s) (ServiceError ''service-rollback-failed'') (configureService host s command))))))"

text \<open>The connection to the service manager is closed whatever the provisioning answered.\<close>

definition thenDisconnect :: "Host \<Rightarrow> Service \<Rightarrow> (Event list, ServiceError, ServiceLease) act
    \<Rightarrow> (Event list, ServiceError, ServiceLease) act" where
  "thenDisconnect host s provision h =
     (case provision h of (r, h1) \<Rightarrow>
      case ask (\<lambda>h. ho_Disconnect host h s) (ManagerClosed s) h1 of (disconnected, h2) \<Rightarrow>
      case r of Inl e \<Rightarrow> (Inl e, h2)
      | Inr l \<Rightarrow>
         if disconnected then (Inr l, h2)
         else case closeService host s (l, h2) of
           (Inl e, (_, h3)) \<Rightarrow> (Inl e, h3)
         | (Inr _, (_, h3)) \<Rightarrow> (Inl (ServiceError ''scm-close-failed''), h3))"

definition withManager :: "Host \<Rightarrow> Service \<Rightarrow> (Event list, ServiceError, ServiceLease) act
    \<Rightarrow> (Event list, ServiceError, ServiceLease) act" where
  "withManager host s provision =
     bindS (require (ask (\<lambda>h. ho_Connect host h s) (ManagerAsked s)) (ServiceError ''scm-connect-failed''))
       (\<lambda>_. thenDisconnect host s provision)"

definition ProvisionBrokerService :: "Scm \<Rightarrow> bool \<Rightarrow> Host \<Rightarrow> string \<Rightarrow> (Event list, ServiceError, ServiceLease) act" where
  "ProvisionBrokerService scm dependencies host installationRoot =
     (if \<not> dependencies then liftS (Inl (ServiceError ''dependency-required''))
      else bindS (liftS (BuildBrokerServicePlan scm installationRoot)) (\<lambda>plan.
        withManager host BrokerService (provisionService host BrokerService
          (require (ask (\<lambda>h. ho_BinaryReady host h (sv_Executable plan)) (BinaryChecked (sv_Executable plan)))
            (ServiceError ''broker-binary-invalid''))
          (sv_Command plan))))"

definition validServicePassword :: "string \<Rightarrow> bool" where
  "validServicePassword password \<longleftrightarrow> 0 < length password \<and> length password \<le> 1024 \<and> validString password
     \<and> CHR 0x00 \<notin> set password"

definition ProvisionRunnerService ::
    "Scm \<Rightarrow> bool \<Rightarrow> Host \<Rightarrow> string \<Rightarrow> string \<Rightarrow> string \<Rightarrow> (Event list, ServiceError, ServiceLease) act" where
  "ProvisionRunnerService scm dependencies host installationRoot controlAccount controlPassword =
     (if \<not> dependencies \<or> \<not> validServicePassword controlPassword then liftS (Inl (ServiceError ''dependency-required''))
      else bindS (liftS (BuildRunnerServicePlan scm installationRoot controlAccount)) (\<lambda>plan.
        withManager host RunnerService (provisionService host RunnerService
          (require (ask (ho_VerifyExecutable host) ExecutableVerified) (ServiceError ''runner-service-image-invalid''))
          (sv_Command plan))))"

section \<open>The contract\<close>

definition ownedService :: "Service \<Rightarrow> ServiceLease \<Rightarrow> Resource list" where
  "ownedService s l = (if sl_Service l \<and> \<not> sl_Committed l then [OwnedService s] else [])"

definition liveService :: "ServiceLease \<Rightarrow> bool" where
  "liveService l \<longleftrightarrow> \<not> sl_Closed l"

interpretation service_lease: lease "ownedService s" liveService "\<lambda>l. \<not> liveService l" "commitService host s" "closeService host s"
proof unfold_locales
  fix l h r l' h'
  assume "liveService l" and "closeService host s (l, h) = (r, (l', h'))"
  then show "\<not> liveService l' \<and> (\<exists>es. h' = h @ es \<and> acquired es = [] \<and> released es = rev (ownedService s l))"
    by (auto simp: closeService_def deleteService_def closeHandle_def ask_def liveService_def ownedService_def split: if_splits)
next
  fix l h r l' h'
  assume "\<not> liveService l" and "closeService host s (l, h) = (r, (l', h'))"
  then show "r = Inr () \<and> h' = h \<and> \<not> liveService l'"
    by (auto simp: closeService_def liveService_def)
next
  fix l h l' h'
  assume "commitService host s (l, h) = (Inr (), (l', h'))"
  then show "\<not> liveService l' \<and> (\<exists>es. h' = h @ es \<and> quietEvents es)"
    by (auto simp: commitService_def closeHandle_def ask_def liveService_def quietEvents_def split: if_splits)
qed

section \<open>Provisioning keeps the lease truthful\<close>

lemma service_quiet:
  "quiet (serviceContext host)" "quiet (serviceFree host s)" "quiet (require (ask f (ManagerAsked s)) e)"
  "quiet (require (ask g (BinaryChecked p)) e)" "quiet (require (ask k ExecutableVerified) e)"
  "quiet (require (ask f (ServiceApplied s)) e)" "quiet (require (ask f (ServiceVerified s)) e)"
proof -
  have "quiet (query (ask f (ServiceAsked s)))" for f by (rule quiet_ask) simp
  then show "quiet (serviceFree host s)" unfolding serviceFree_def by (intro quiet_bind quiet_lift)
qed (simp_all add: serviceContext_def quiet_require)

definition madeService :: "ServiceLease \<Rightarrow> bool" where
  "madeService l \<longleftrightarrow> sl_Service l \<and> \<not> sl_Committed l"

lemma configureService_leads:
  "service_lease.leads s (\<lambda>l. \<not> sl_Service l \<and> \<not> sl_Committed l) madeService (configureService host s command)"
  unfolding configureService_def
proof (rule service_lease.leads_bind)
  show "service_lease.leads s (\<lambda>l. \<not> sl_Service l \<and> \<not> sl_Committed l) madeService (makeService host s command)"
  proof (rule service_lease.leadsI)
    fix l h r l' h'
    assume l: "liveService l" "\<not> sl_Service l \<and> \<not> sl_Committed l" and run: "makeService host s command (l, h) = (r, (l', h'))"
    obtain present created ok where answer: "ho_CreateService host h s command = (present, created, ok)" by (metis prod_cases3)
    have "l' = l\<lparr>sl_Service := created \<and> present\<rparr>" "h' = h @ [ServiceMade s command present created ok]"
        "isOk r \<longleftrightarrow> ok \<and> created \<and> present"
      using run answer by (auto simp: makeService_def split: if_splits)
    then show "liveService l' \<and> (isOk r \<longrightarrow> madeService l') \<and> (\<exists>es g. h' = h @ es
        \<and> ownedService s l' @ g = ownedService s l @ acquired es \<and> released es = rev g \<and> (isOk r \<longrightarrow> g = []))"
      using l by (intro conjI exI [of _ "[ServiceMade s command present created ok]"] exI [of _ "[]"])
        (simp_all add: madeService_def liveService_def ownedService_def)
  qed
qed (intro service_lease.leads_tracks service_lease.tracks_bind service_lease.tracks_quiet service_quiet)

lemma provisionService_balances:
  assumes "quiet ready"
  shows "service_lease.balances s madeService (provisionService host s ready command)"
proof -
  have "service_lease.balances s madeService (leased newServiceLease
      (rollbackOnError (closeService host s) (ServiceError ''service-rollback-failed'') (configureService host s command)))"
    by (rule service_lease.balances_leads [OF configureService_leads])
      (simp_all add: newServiceLease_def liveService_def ownedService_def)
  then show ?thesis
    unfolding provisionService_def by (intro service_lease.balances_after service_quiet assms)
qed

lemma thenDisconnect_balances:
  assumes "service_lease.balances s Q provision"
  shows "service_lease.balances s Q (thenDisconnect host s provision)"
  unfolding service_lease.balances_def
proof (intro allI impI)
  fix h r h' assume run: "thenDisconnect host s provision h = (r, h')"
  obtain p h1 where p: "provision h = (p, h1)" by fastforce
  have balanced: "service_lease.balanced s Q p h h1" using assms p unfolding service_lease.balances_def by blast
  show "service_lease.balanced s Q r h h'"
  proof (cases p)
    case (Inl e)
    then obtain es where "h1 = h @ es" "released es = rev (acquired es)" using balanced by (auto simp: service_lease.balanced_def)
    then show ?thesis using run p Inl by (auto simp: thenDisconnect_def service_lease.balanced_def ask_def)
  next
    case (Inr l)
    then obtain es where es: "h1 = h @ es" "liveService l" "Q l" "released es = []" "ownedService s l = acquired es"
      using balanced by (auto simp: service_lease.balanced_def)
    let ?ok = "ho_Disconnect host h1 s"
    obtain c l3 h3 where close: "closeService host s (l, h1 @ [ManagerClosed s ?ok]) = (c, (l3, h3))" by (metis prod_cases3)
    obtain fs where fs: "h3 = (h1 @ [ManagerClosed s ?ok]) @ fs" "acquired fs = []" "released fs = rev (ownedService s l)"
      using service_lease.close_releases [OF es(2) close] by blast
    show ?thesis
    proof (cases ?ok)
      case True
      then show ?thesis using run p Inr es by (auto simp: thenDisconnect_def service_lease.balanced_def ask_def)
    next
      case False
      then have "\<exists>e. r = Inl e" "h' = h3" using run p Inr close by (auto simp: thenDisconnect_def ask_def split: sum.splits)
      then show ?thesis using fs es by (auto simp: service_lease.balanced_def)
    qed
  qed
  qed

lemma withManager_balances: "service_lease.balances s Q provision \<Longrightarrow> service_lease.balances s Q (withManager host s provision)"
  unfolding withManager_def by (intro service_lease.balances_after thenDisconnect_balances service_quiet)

lemma ProvisionBrokerService_balances:
  "service_lease.balances BrokerService madeService (ProvisionBrokerService scm dependencies host installationRoot)"
  unfolding ProvisionBrokerService_def
  by (auto intro!: service_lease.balances_error service_lease.balances_after withManager_balances provisionService_balances
      service_quiet)

lemma ProvisionRunnerService_balances:
  "service_lease.balances RunnerService madeService (ProvisionRunnerService scm dependencies host installationRoot account password)"
  unfolding ProvisionRunnerService_def
  by (auto intro!: service_lease.balances_error service_lease.balances_after withManager_balances provisionService_balances
      service_quiet)

end
