(* ===== verification/Runner_Registration.thy ===== *)
theory Runner_Registration
  imports Windows_Command Install_Host
begin

text \<open>
  Registering the runner: \<open>internal/runnerregistration/registration.go\<close>, and from
  \<open>executor_windows.go\<close> the test of an invocation and the command line.  The state and the executor
  a lease points to are nil after it was closed: \<open>rg_Attached\<close>.  A token that was cleared is \<open>[]\<close>.
\<close>

section \<open>Requests\<close>

definition MaxRepositoryBytes :: nat where "MaxRepositoryBytes = 201"
definition MaxRunnerNameBytes :: nat where "MaxRunnerNameBytes = 64"
definition MaxTokenBytes :: nat where "MaxTokenBytes = 1024"
definition MinTokenBytes :: nat where "MinTokenBytes = 16"
definition RegistrationLabel :: string where "RegistrationLabel = ''agent-workstation-gateway''"
definition TokenEnvironment :: string where "TokenEnvironment = ''ACTIONS_RUNNER_INPUT_TOKEN''"
definition githubPrefix :: string where "githubPrefix = ''https://github.com/''"

datatype RegistrationError = RegistrationError string

record PrivateRepository =
  pv_Name :: string
  pv_Url :: string

record RegistrationRequest =
  rr_Repository :: PrivateRepository
  rr_RunnerName :: string
  rr_RegistrationToken :: string
  rr_RemovalToken :: string

definition isAlnum :: "char \<Rightarrow> bool" where
  "isAlnum c \<longleftrightarrow> isASCIILetter c \<or> isDigit c"

text \<open>\<open>^[A-Za-z0-9](?:[A-Za-z0-9-]{0,37}[A-Za-z0-9])?$\<close>\<close>

definition ownerPattern :: "string \<Rightarrow> bool" where
  "ownerPattern s \<longleftrightarrow> s \<noteq> [] \<and> isAlnum (hd s) \<and> isAlnum (last s) \<and> length s \<le> 39
     \<and> list_all (\<lambda>c. isAlnum c \<or> c = CHR ''-'') s"

definition repositoryNamePattern :: "string \<Rightarrow> bool" where
  "repositoryNamePattern = matchHeadTail isAlnum (\<lambda>c. isAlnum c \<or> c \<in> set ''._-'') 99"

definition runnerNamePattern :: "string \<Rightarrow> bool" where
  "runnerNamePattern = matchHeadTail isAlnum (\<lambda>c. isAlnum c \<or> c \<in> set ''._-'') 63"

definition VerifyPrivateRepository :: "string \<Rightarrow> bool \<Rightarrow> RegistrationError + PrivateRepository" where
  "VerifyPrivateRepository repository private =
     (if \<not> private \<or> repository = [] \<or> length repository > MaxRepositoryBytes
         \<or> length (filter (\<lambda>c. c = CHR ''/'') repository) \<noteq> 1
      then Inl (RegistrationError ''private-repository-required'')
      else case splitOn CHR ''/'' repository of
        owner # name # _ \<Rightarrow>
          (if \<not> ownerPattern owner \<or> \<not> repositoryNamePattern name \<or> name = ''.'' \<or> name = ''..''
              \<or> hasSuffix name ''.'' \<or> hasSuffix (toLower name) ''.git''
           then Inl (RegistrationError ''repository-invalid'')
           else Inr \<lparr>pv_Name = repository, pv_Url = githubPrefix @ repository\<rparr>)
      | _ \<Rightarrow> Inl (RegistrationError ''repository-invalid''))"

definition validToken :: "string \<Rightarrow> bool" where
  "validToken token \<longleftrightarrow> MinTokenBytes \<le> length token \<and> length token \<le> MaxTokenBytes
     \<and> list_all (\<lambda>c. 0x21 \<le> byte c \<and> byte c \<le> 0x7E) token"

record PreparedRequest =
  pp_Configure :: RunnerInvocation
  pp_Remove :: RunnerInvocation
  pp_RegistrationToken :: string
  pp_RemovalToken :: string

definition listenerSuffix :: string where
  "listenerSuffix = [CHR 0x5C] @ ''bin'' @ [CHR 0x5C] @ ''Runner.Listener.exe''"

definition prepare :: "string \<Rightarrow> RegistrationRequest \<Rightarrow> RegistrationError + PreparedRequest" where
  "prepare installationRoot request =
     bindR (mapErr (\<lambda>_. RegistrationError ''installation-root-invalid'') (WindowsLayout installationRoot)) (\<lambda>layout.
     let repository = rr_Repository request; listener = ly_RunnerRoot layout @ listenerSuffix;
         invocation = \<lparr>ri_Executable = listener, ri_WorkingDirectory = ly_RunnerRoot layout, ri_Arguments = [''remove''],
           ri_TokenEnvironment = TokenEnvironment\<rparr> in
     bindR (checks
       [failIf (pv_Name repository = [] \<or> pv_Url repository = [] \<or> pv_Url repository \<noteq> githubPrefix @ pv_Name repository)
          (RegistrationError ''private-repository-required''),
        failIf (\<not> runnerNamePattern (rr_RunnerName request) \<or> rr_RunnerName request = ''.'' \<or> rr_RunnerName request = ''..'')
          (RegistrationError ''runner-name-invalid''),
        failIf (\<not> validToken (rr_RegistrationToken request) \<or> \<not> validToken (rr_RemovalToken request))
          (RegistrationError ''token-invalid''),
        failIf (\<not> isOk (ValidateAbsolute Windows listener) \<or> \<not> Contains Windows (ly_RunnerRoot layout) listener)
          (RegistrationError ''listener-path-invalid'')]) (\<lambda>_.
     Inr \<lparr>pp_Configure = invocation\<lparr>ri_Arguments :=
            [''configure'', ''--unattended'', ''--url'', pv_Url repository, ''--name'', rr_RunnerName request,
             ''--work'', ly_RunnerWorkDirectory layout, ''--disableupdate'', ''--no-default-labels'', ''--labels'',
             RegistrationLabel]\<rparr>,
          pp_Remove = invocation, pp_RegistrationToken = rr_RegistrationToken request,
          pp_RemovalToken = rr_RemovalToken request\<rparr>))"

definition ValidateRegistrationRequest :: "string \<Rightarrow> RegistrationRequest \<Rightarrow> RegistrationError + unit" where
  "ValidateRegistrationRequest installationRoot request = bindR (prepare installationRoot request) (\<lambda>_. Inr ())"

section \<open>The executor\<close>

definition validateInvocation :: "RunnerInvocation \<Rightarrow> RegistrationError + unit" where
  "validateInvocation invocation =
     (let arguments = ri_Arguments invocation; directory = ri_WorkingDirectory invocation in
      bindR (checks
        [failIf (ri_TokenEnvironment invocation \<noteq> TokenEnvironment \<or> \<not> isOk (ValidateAbsolute Windows directory)
           \<or> \<not> isOk (ValidateAbsolute Windows (ri_Executable invocation))
           \<or> \<not> Contains Windows directory (ri_Executable invocation)
           \<or> \<not> equalFold (ri_Executable invocation) (directory @ listenerSuffix))
           (RegistrationError ''executor-invocation-denied''),
         failIf (list_ex (\<lambda>argument. argument = [] \<or> CHR 0x00 \<in> set argument) arguments)
           (RegistrationError ''executor-argument-invalid'')]) (\<lambda>_.
      if arguments = [''remove''] then Inr ()
      else bindR (failIf (length arguments \<noteq> 12 \<or> arguments ! 0 \<noteq> ''configure'' \<or> arguments ! 1 \<noteq> ''--unattended''
             \<or> arguments ! 2 \<noteq> ''--url'' \<or> arguments ! 4 \<noteq> ''--name'' \<or> \<not> runnerNamePattern (arguments ! 5)
             \<or> arguments ! 6 \<noteq> ''--work'' \<or> \<not> Equal Windows (arguments ! 7) (directory @ CHR 0x5C # ''_work'')
             \<or> arguments ! 8 \<noteq> ''--disableupdate'' \<or> arguments ! 9 \<noteq> ''--no-default-labels''
             \<or> arguments ! 10 \<noteq> ''--labels'' \<or> arguments ! 11 \<noteq> RegistrationLabel)
           (RegistrationError ''executor-configure-shape-denied'')) (\<lambda>_.
         case VerifyPrivateRepository (trimPrefix (arguments ! 3) githubPrefix) True of
           Inl _ \<Rightarrow> Inl (RegistrationError ''executor-repository-denied'')
         | Inr receipt \<Rightarrow> failIf (arguments ! 3 \<noteq> pv_Url receipt) (RegistrationError ''executor-repository-denied''))))"

text \<open>\<open>windows.UTF16PtrFromString\<close> refuses a string with a NUL inside; what it makes carries the string.\<close>

definition utf16Ptr :: "string \<Rightarrow> string option" where
  "utf16Ptr s = (if CHR 0x00 \<in> set s then None else Some s)"

definition commandLine :: "RunnerInvocation \<Rightarrow> string" where
  "commandLine invocation =
     foldl (\<lambda>command argument. command @ '' '' @ EscapeArg argument) (EscapeArg (ri_Executable invocation))
       (ri_Arguments invocation)"

text \<open>The application, the command line and the directory of the process.\<close>

definition nativeCommand :: "RunnerInvocation \<Rightarrow> RegistrationError + (string \<times> string \<times> string)" where
  "nativeCommand invocation =
     bindR (fromOption (RegistrationError ''executor-path-invalid'') (utf16Ptr (ri_Executable invocation))) (\<lambda>application.
     bindR (fromOption (RegistrationError ''executor-command-invalid'') (utf16Ptr (commandLine invocation))) (\<lambda>command.
     bindR (fromOption (RegistrationError ''executor-directory-invalid'') (utf16Ptr (ri_WorkingDirectory invocation))) (\<lambda>directory.
     Inr (application, command, directory))))"

section \<open>Leases\<close>

record RegistrationLease =
  rg_Attached :: bool
  rg_Remove :: RunnerInvocation
  rg_RemovalToken :: string
  rg_CleanupRequired :: bool
  rg_Committed :: bool
  rg_Closed :: bool

definition detach :: "RegistrationLease \<Rightarrow> RegistrationLease" where
  "detach l = l\<lparr>rg_Attached := False, rg_RemovalToken := []\<rparr>"

definition runRunner :: "Host \<Rightarrow> RunnerInvocation \<Rightarrow> string \<Rightarrow> (ProcessResult \<times> bool) query" where
  "runRunner host invocation token =
     ask (\<lambda>h. ho_RunRunner host h invocation token) (\<lambda>(result, ok). RunnerRan invocation token result ok)"

definition sealGenerated :: "Host \<Rightarrow> bool query" where
  "sealGenerated host = ask (ho_SealGenerated host) GeneratedSealed"

definition commitRegistration :: "(RegistrationLease held, RegistrationError, unit) act" where
  "commitRegistration st =
     (if rg_Closed (fst st) \<or> \<not> rg_Attached (fst st) \<or> rg_RemovalToken (fst st) = []
      then (Inl (RegistrationError ''lease-closed''), st)
      else modifyLease (\<lambda>l. detach (l\<lparr>rg_Committed := True, rg_Closed := True\<rparr>)) st)"

text \<open>The removal is attempted whenever a configuration process was started, and the state is sealed after it.\<close>

definition closeRegistration :: "Host \<Rightarrow> (RegistrationLease held, RegistrationError, unit) act" where
  "closeRegistration host st = (case st of (l, h) \<Rightarrow>
     if rg_Closed l then (Inr (), st)
     else if rg_Committed l then (Inr (), (l\<lparr>rg_Closed := True\<rparr>, h))
     else let closed = detach (l\<lparr>rg_Closed := True\<rparr>) in
       if \<not> rg_CleanupRequired l then (Inr (), (closed, h))
       else if \<not> rg_Attached l \<or> rg_RemovalToken l = [] then (Inl (RegistrationError ''remote-cleanup-failed''), (closed, h))
       else case runRunner host (rg_Remove l) (rg_RemovalToken l) h of ((result, ok), h1) \<Rightarrow>
         case sealGenerated host h1 of (sealed, h2) \<Rightarrow>
         (if ok \<and> pr_Started result \<and> pr_ExitCode result = 0 \<and> sealed then Inr ()
          else Inl (RegistrationError ''remote-cleanup-failed''), (closed, h2)))"

text \<open>The configuration: the generated state is sealed whatever the process answered.\<close>

definition configureRunner :: "Host \<Rightarrow> PreparedRequest \<Rightarrow> (RegistrationLease held, RegistrationError, unit) act" where
  "configureRunner host prepared st = (case st of (l, h) \<Rightarrow>
     case runRunner host (pp_Configure prepared) (pp_RegistrationToken prepared) h of ((result, ok), h1) \<Rightarrow>
     case sealGenerated host h1 of (sealed, h2) \<Rightarrow>
       (if \<not> sealed then Inl (RegistrationError ''generated-state-seal-failed'')
        else if \<not> ok \<or> \<not> pr_Started result \<or> pr_ExitCode result \<noteq> 0 then Inl (RegistrationError ''configure-process-failed'')
        else Inr (),
        (l\<lparr>rg_CleanupRequired := pr_Started result\<rparr>, h2)))"

definition registrationContext :: "Host \<Rightarrow> (Event list, RegistrationError, unit) act" where
  "registrationContext host = contextError host (RegistrationError ''context-cancelled'')"

definition registerRunner :: "bool \<Rightarrow> Host \<Rightarrow> PreparedRequest \<Rightarrow> (RegistrationLease held, RegistrationError, unit) act" where
  "registerRunner dependencies host prepared =
     bindS (liftS (failIf (\<not> dependencies) (RegistrationError ''dependency-required''))) (\<lambda>_.
     bindS (onHost (registrationContext host)) (\<lambda>_.
     bindS (configureRunner host prepared) (\<lambda>_.
     bindS (onHost (require (ask (ho_VerifyRegistration host) RegistrationVerified)
       (RegistrationError ''registration-state-invalid''))) (\<lambda>_.
     onHost (registrationContext host)))))"

definition newRegistrationLease :: "bool \<Rightarrow> PreparedRequest \<Rightarrow> RegistrationLease" where
  "newRegistrationLease dependencies prepared =
     \<lparr>rg_Attached = dependencies, rg_Remove = pp_Remove prepared, rg_RemovalToken = pp_RemovalToken prepared,
      rg_CleanupRequired = False, rg_Committed = False, rg_Closed = False\<rparr>"

definition ProvisionRegistration ::
    "bool \<Rightarrow> Host \<Rightarrow> string \<Rightarrow> RegistrationRequest \<Rightarrow> (Event list, RegistrationError, RegistrationLease) act" where
  "ProvisionRegistration dependencies host installationRoot request =
     bindS (liftS (prepare installationRoot request)) (\<lambda>prepared.
       leased (newRegistrationLease dependencies prepared)
         (rollbackOnError (closeRegistration host) (RegistrationError ''registration-rollback-failed'')
           (registerRunner dependencies host prepared)))"

section \<open>The contract\<close>

definition ownedRegistration :: "RegistrationLease \<Rightarrow> Resource list" where
  "ownedRegistration l = (if rg_CleanupRequired l then [OwnedRegistration] else [])"

text \<open>A live lease that must clean up can: it has its token, its executor and the invocation that removes.\<close>

definition liveRegistration :: "RegistrationLease \<Rightarrow> bool" where
  "liveRegistration l \<longleftrightarrow> \<not> rg_Closed l \<and> \<not> rg_Committed l \<and> ri_Arguments (rg_Remove l) = [''remove'']
     \<and> (rg_CleanupRequired l \<longrightarrow> rg_Attached l \<and> rg_RemovalToken l \<noteq> [])"

definition spentRegistration :: "RegistrationLease \<Rightarrow> bool" where
  "spentRegistration l \<longleftrightarrow> rg_Closed l \<or> rg_Committed l"

interpretation registration_lease:
  lease ownedRegistration liveRegistration spentRegistration commitRegistration "closeRegistration host"
proof unfold_locales
  fix l h r l' h'
  assume "liveRegistration l" and "closeRegistration host (l, h) = (r, (l', h'))"
  then show "spentRegistration l' \<and> (\<exists>es. h' = h @ es \<and> acquired es = [] \<and> released es = rev (ownedRegistration l))"
    by (auto simp: closeRegistration_def runRunner_def sealGenerated_def ask_def liveRegistration_def ownedRegistration_def
        spentRegistration_def detach_def Let_def split: prod.splits if_splits)
next
  fix l h r l' h'
  assume "spentRegistration l" and "closeRegistration host (l, h) = (r, (l', h'))"
  then show "r = Inr () \<and> h' = h \<and> spentRegistration l'"
    by (auto simp: closeRegistration_def spentRegistration_def split: if_splits)
next
  fix l h l' h'
  assume "commitRegistration (l, h) = (Inr (), (l', h'))"
  then show "spentRegistration l' \<and> (\<exists>es. h' = h @ es \<and> quietEvents es)"
    by (auto simp: commitRegistration_def modifyLease_def detach_def spentRegistration_def quietEvents_def split: if_splits)
qed

section \<open>Provisioning keeps the lease truthful\<close>

lemma prepare_ok:
  "prepare root request = Inr prepared \<Longrightarrow> ri_Arguments (pp_Remove prepared) = [''remove'']
     \<and> length (ri_Arguments (pp_Configure prepared)) = 12 \<and> validToken (pp_RemovalToken prepared)"
  by (auto simp: prepare_def bindR_eq_Inr Let_def)

text \<open>The lease that is prepared is able to clean up after the one configuration it will run.\<close>

definition ableRegistration :: "RegistrationLease \<Rightarrow> bool" where
  "ableRegistration l \<longleftrightarrow> rg_Attached l \<and> rg_RemovalToken l \<noteq> [] \<and> \<not> rg_CleanupRequired l"

lemma registerRunner_leads:
  assumes "length (ri_Arguments (pp_Configure prepared)) = 12"
  shows "registration_lease.leads (\<lambda>l. dependencies = rg_Attached l \<and> rg_RemovalToken l \<noteq> [] \<and> \<not> rg_CleanupRequired l)
    rg_CleanupRequired (registerRunner dependencies host prepared)"
proof -
  have configure: "registration_lease.leads ableRegistration rg_CleanupRequired (configureRunner host prepared)"
    using assms by (intro registration_lease.leadsI) (auto simp: configureRunner_def runRunner_def sealGenerated_def ask_def
        ableRegistration_def liveRegistration_def ownedRegistration_def split: prod.splits if_splits)
  have alive: "registration_lease.tracks P (onHost (registrationContext host))" for P
    unfolding registrationContext_def by (intro registration_lease.tracks_quiet quiet_context)
  have verified: "registration_lease.tracks P (onHost (require (ask f RegistrationVerified) e))" for P f and e :: RegistrationError
    by (intro registration_lease.tracks_quiet quiet_require) simp
  have depends: "registration_lease.leads (\<lambda>l. dependencies = rg_Attached l \<and> rg_RemovalToken l \<noteq> [] \<and> \<not> rg_CleanupRequired l)
      ableRegistration (liftS (failIf (\<not> dependencies) (RegistrationError ''dependency-required'')))"
    by (rule registration_lease.leadsI) (auto simp: failIf_def ableRegistration_def)
  show ?thesis
    unfolding registerRunner_def
    by (rule registration_lease.leads_bind [OF depends])
      (rule registration_lease.leads_bind [OF registration_lease.leads_tracks [OF alive]],
       rule registration_lease.leads_bind [OF configure],
       intro registration_lease.leads_tracks registration_lease.tracks_bind alive verified)
qed

lemma ProvisionRegistration_balances:
  "registration_lease.balances rg_CleanupRequired (ProvisionRegistration dependencies host installationRoot request)"
proof (cases "prepare installationRoot request")
  case (Inl e)
  then show ?thesis unfolding ProvisionRegistration_def
    by (simp add: bindS_def [abs_def] registration_lease.balances_error [unfolded liftS_def [abs_def]] liftS_def [abs_def])
next
  case (Inr prepared)
  have prepared: "ri_Arguments (pp_Remove prepared) = [''remove'']" "length (ri_Arguments (pp_Configure prepared)) = 12"
      "pp_RemovalToken prepared \<noteq> []"
    using prepare_ok [OF Inr] by (auto simp: validToken_def MinTokenBytes_def)
  show ?thesis
    unfolding ProvisionRegistration_def Inr liftS_simps
    by (rule registration_lease.balances_leads [OF registerRunner_leads [OF prepared(2), of dependencies]])
      (use prepared in \<open>simp_all add: newRegistrationLease_def liveRegistration_def ownedRegistration_def\<close>)
qed

end
