(* ===== verification/Install_Metadata.thy ===== *)
theory Install_Metadata
  imports Codec_Facts Broker_Session Runner_Registration
begin

text \<open>
  The record of an installation that the doctor and the uninstaller read back:
  \<open>internal/installmetadata/metadata.go\<close>.
\<close>

datatype MetadataError = MetadataError string

record ControlFile =
  ct_Path :: string
  ct_SHA256 :: string
  ct_Owned :: bool

record Metadata =
  md_MetadataVersion :: int
  md_Platform :: Platform
  md_InstallationRoot :: string
  md_ControlRepository :: string
  md_RunnerName :: string
  md_GatewaySourceSHA :: string
  md_ControlFiles :: "ControlFile slice"

definition MetadataVersion :: int where "MetadataVersion = 1"
definition MaxMetadataBytes :: nat where "MaxMetadataBytes = 32 * 1024"

definition digestPattern :: "string \<Rightarrow> bool" where "digestPattern = isLowerHex 64"

definition ValidateMetadata :: "Metadata \<Rightarrow> MetadataError + unit" where
  "ValidateMetadata m = checks
     ([failIf (md_MetadataVersion m \<noteq> MetadataVersion \<or> (md_Platform m \<noteq> Windows \<and> md_Platform m \<noteq> Linux)
         \<or> \<not> isOk (ValidateAbsolute (md_Platform m) (md_InstallationRoot m))
         \<or> IsFilesystemRoot (md_Platform m) (md_InstallationRoot m) \<or> \<not> IsCanonicalGitSHA (md_GatewaySourceSHA m))
         (MetadataError ''identity-invalid''),
       failIf (\<not> isOk (VerifyPrivateRepository (md_ControlRepository m) True)) (MetadataError ''repository-invalid''),
       failIf (length (md_RunnerName m) > MaxRunnerNameBytes \<or> \<not> runnerNamePattern (md_RunnerName m)
         \<or> md_RunnerName m = ''.'' \<or> md_RunnerName m = ''..'') (MetadataError ''runner-name-invalid''),
       failIf (map ct_Path (sl (md_ControlFiles m)) \<noteq> [''.github/workflows/execute-request.yml'', ''control-version.json''])
         (MetadataError ''control-files-invalid'')]
      @ map (\<lambda>f. failIf (\<not> digestPattern (ct_SHA256 f)) (MetadataError ''control-file-digest-invalid''))
          (sl (md_ControlFiles m)))"

definition controlFileKind :: kind where
  "controlFileKind = KStruct [(''path'', KString), (''sha256'', KString), (''owned'', KBool)]"

definition controlFileJson :: "ControlFile \<Rightarrow> json" where
  "controlFileJson f = JObj [(''path'', JStr (ct_Path f)), (''sha256'', JStr (ct_SHA256 f)), (''owned'', JBool (ct_Owned f))]"

definition controlFileOf :: "json \<Rightarrow> ControlFile" where
  "controlFileOf j = \<lparr>ct_Path = stringOf (memberOf ''path'' j), ct_SHA256 = stringOf (memberOf ''sha256'' j),
     ct_Owned = boolOf (memberOf ''owned'' j)\<rparr>"

definition metadataKind :: kind where
  "metadataKind = KStruct
     [(''metadata_version'', KInt64), (''platform'', KString), (''installation_root'', KString),
      (''control_repository'', KString), (''runner_name'', KString), (''gateway_source_sha'', KString),
      (''control_files'', KSlice controlFileKind)]"

definition metadataJson :: "Metadata \<Rightarrow> json" where
  "metadataJson m = JObj
     [(''metadata_version'', JInt (md_MetadataVersion m)), (''platform'', JStr (md_Platform m)),
      (''installation_root'', JStr (md_InstallationRoot m)), (''control_repository'', JStr (md_ControlRepository m)),
      (''runner_name'', JStr (md_RunnerName m)), (''gateway_source_sha'', JStr (md_GatewaySourceSHA m)),
      (''control_files'', jsonSlice controlFileJson (md_ControlFiles m))]"

definition metadataOf :: "json \<Rightarrow> Metadata" where
  "metadataOf j = \<lparr>md_MetadataVersion = intOf (memberOf ''metadata_version'' j), md_Platform = stringOf (memberOf ''platform'' j),
     md_InstallationRoot = stringOf (memberOf ''installation_root'' j),
     md_ControlRepository = stringOf (memberOf ''control_repository'' j),
     md_RunnerName = stringOf (memberOf ''runner_name'' j),
     md_GatewaySourceSHA = stringOf (memberOf ''gateway_source_sha'' j),
     md_ControlFiles = sliceOf controlFileOf (memberOf ''control_files'' j)\<rparr>"

definition MarshalCanonicalMetadata :: "Metadata \<Rightarrow> MetadataError + string" where
  "MarshalCanonicalMetadata m =
     bindR (ValidateMetadata m) (\<lambda>_.
     let encoded = encodeJson (metadataJson m) in
     if length encoded > MaxMetadataBytes then Inl (MetadataError ''encode-failed'') else Inr encoded)"

definition DecodeMetadata :: "(string list \<Rightarrow> string) \<Rightarrow> string \<Rightarrow> MetadataError + Metadata" where
  "DecodeMetadata pick encoded =
     bindR (failIf (encoded = [] \<or> length encoded > MaxMetadataBytes) (MetadataError ''encoded-size-invalid'')) (\<lambda>_.
     bindR (mapErr (\<lambda>_. MetadataError ''decode-failed'') (DecodeObject pick metadataKind MaxMetadataBytes encoded)) (\<lambda>j.
     bindR (ValidateMetadata (metadataOf j)) (\<lambda>_. Inr (metadataOf j))))"

section \<open>The codec\<close>

lemma metadata_read [simp]: "metadataOf (metadataJson m) = m"
proof -
  have "controlFileOf (controlFileJson f) = f" for f by (cases f) (simp add: controlFileOf_def controlFileJson_def)
  then show ?thesis by (cases m) (simp add: metadataOf_def metadataJson_def option.map_ident)
qed

lemma metadata_back:
  assumes "matches metadataKind j" and "validJson j"
  shows "wireJson metadataKind (metadataJson (metadataOf j))"
proof -
  have entry: "wireJson controlFileKind (controlFileJson (controlFileOf j))" if "matches controlFileKind j" "validJson j" for j
    unfolding controlFileKind_def controlFileJson_def controlFileOf_def
    by (rule wireJson_struct [of _ j]) (use that in \<open>simp_all add: controlFileKind_def wireJson_rules del: matches.simps\<close>)
  show ?thesis
    unfolding metadataKind_def metadataJson_def metadataOf_def
    by (rule wireJson_struct [of _ j]) (use assms in \<open>simp_all add: metadataKind_def wireJson_rules entry del: matches.simps\<close>)
qed

interpretation metadata_codec: codec metadataKind metadataJson metadataOf
proof
  show "\<exists>fields. metadataKind = KStruct fields" by (simp add: metadataKind_def)
  show "kindDepth metadataKind \<le> maxNestingDepth"
    by (simp add: metadataKind_def controlFileKind_def KInt64_def maxNestingDepth_def)
qed (simp_all only: metadata_read metadata_back)

text \<open>A valid record can be written.\<close>

lemma alnum_ascii: "isAlnum c \<Longrightarrow> byte c < 128"
  by (auto simp: isAlnum_def isASCIILetter_def isLowerLetter_def isUpperLetter_def isDigit_def inRange_def byte_def)

lemma nameTail_ascii:
  assumes "matchHeadTail isAlnum (\<lambda>c. isAlnum c \<or> c \<in> set ''._-'') n s"
  shows "isASCII s"
proof -
  have "byte c < 128" if "isAlnum c \<or> c \<in> set ''._-''" for c
    using that alnum_ascii by (auto simp: byte_def)
  then show ?thesis
    using assms by (auto simp: matchHeadTail_def isASCII_def list_all_iff alnum_ascii split: list.splits)
qed

lemma owner_ascii: "ownerPattern s \<Longrightarrow> isASCII s"
  using alnum_ascii by (fastforce simp: ownerPattern_def isASCII_def list_all_iff byte_def)

lemma ascii_append [simp]: "isASCII (s @ t) \<longleftrightarrow> isASCII s \<and> isASCII t" "isASCII (c # t) \<longleftrightarrow> byte c < 128 \<and> isASCII t"
  by (auto simp: isASCII_def)

lemma splitOn_count: "length (splitOn sep s) = Suc (length (filter (\<lambda>c. c = sep) s))"
  by (induction s) (auto split: list.splits)

lemma VerifyPrivateRepository_ok:
  assumes "VerifyPrivateRepository repository visible = Inr r"
  shows "visible \<and> r = \<lparr>pv_Name = repository, pv_Url = githubPrefix @ repository\<rparr>
    \<and> (\<exists>owner name. repository = owner @ CHR ''/'' # name \<and> ownerPattern owner \<and> repositoryNamePattern name)"
proof -
  have count: "length (filter (\<lambda>c. c = CHR ''/'') repository) = 1"
    using assms by (auto simp: VerifyPrivateRepository_def split: if_splits)
  then have "length (splitOn CHR ''/'' repository) = 2" using splitOn_count [of "CHR ''/''" repository] by simp
  then obtain owner name where parts: "splitOn CHR ''/'' repository = [owner, name]"
    by (auto simp: numeral_2_eq_2 length_Suc_conv)
  then have "repository = owner @ CHR ''/'' # name"
    using joinWith_splitOn [of "CHR ''/''" repository] by simp
  then show ?thesis using assms parts by (auto simp: VerifyPrivateRepository_def split: if_splits)
qed

lemma repository_ascii: "VerifyPrivateRepository repository visible = Inr r \<Longrightarrow> isASCII repository"
  using VerifyPrivateRepository_ok [of repository visible r] owner_ascii nameTail_ascii
  by (auto simp: repositoryNamePattern_def byte_def)

lemma runes_valid: "runeError \<notin> set (runes s) \<Longrightarrow> validString s"
  by (induction s rule: runes.induct) auto

lemma sha_valid: "IsCanonicalGitSHA s \<Longrightarrow> validString s"
  by (rule runes_valid) (auto simp: IsCanonicalGitSHA_def list_all_iff runeError_def)

lemma digest_ascii: "digestPattern s \<Longrightarrow> isASCII s"
  by (auto simp: digestPattern_def isLowerHex_def isASCII_def list_all_iff isLowerHexChar_ascii)

lemma metadata_wire:
  assumes "ValidateMetadata m = Inr ()"
  shows "wireJson metadataKind (metadataJson m)"
proof -
  obtain r where "VerifyPrivateRepository (md_ControlRepository m) True = Inr r"
    using assms by (auto simp: ValidateMetadata_def isOk_iff)
  then have repository: "validString (md_ControlRepository m)" using repository_ascii validString_ascii by blast
  have "matchHeadTail isAlnum (\<lambda>c. isAlnum c \<or> c \<in> set ''._-'') 63 (md_RunnerName m)"
    using assms by (simp add: ValidateMetadata_def runnerNamePattern_def)
  then have name: "validString (md_RunnerName m)" using nameTail_ascii validString_ascii by blast
  have root: "validString (md_InstallationRoot m)" "md_Platform m = Windows \<or> md_Platform m = Linux" "md_MetadataVersion m = 1"
      "validString (md_GatewaySourceSHA m)"
    using assms sha_valid by (auto simp: ValidateMetadata_def MetadataVersion_def ValidateAbsolute_def isOk_iff split: if_splits)
  have entries: "validString (ct_Path f) \<and> validString (ct_SHA256 f)" if "f \<in> set (sl (md_ControlFiles m))" for f
  proof -
    have "map ct_Path (sl (md_ControlFiles m)) = [''.github/workflows/execute-request.yml'', ''control-version.json'']"
        "digestPattern (ct_SHA256 f)"
      using assms that by (auto simp: ValidateMetadata_def checks_append list_all_iff)
    moreover have "ct_Path f \<in> set (map ct_Path (sl (md_ControlFiles m)))" using that by simp
    ultimately have "ct_Path f = ''.github/workflows/execute-request.yml'' \<or> ct_Path f = ''control-version.json''"
        "digestPattern (ct_SHA256 f)"
      by auto
    then show ?thesis using digest_ascii validString_ascii by (auto simp: isASCII_def byte_def simp del: validString.simps)
  qed
  obtain xs where xs: "md_ControlFiles m = Some xs"
    using assms by (cases "md_ControlFiles m") (auto simp: ValidateMetadata_def)
  then show ?thesis
    using repository name root entries
    by (auto simp: wireJson_def metadataKind_def metadataJson_def controlFileKind_def controlFileJson_def jsonSlice_def
        validString_ascii isInt64_def minInt64_def maxInt64_def Windows_def Linux_def simp del: validString.simps)
qed

lemma metadata_written:
  assumes "MarshalCanonicalMetadata m = Inr s"
  shows "DecodeMetadata pick s = Inr m"
proof -
  have m: "ValidateMetadata m = Inr ()" "s = encodeJson (metadataJson m)" "length s \<le> MaxMetadataBytes"
    using assms by (auto simp: MarshalCanonicalMetadata_def bindR_eq_Inr Let_def split: if_splits)
  have "accepts metadataKind MaxMetadataBytes s (metadataJson m)"
    using metadata_codec.written [OF metadata_wire [OF m(1)], of MaxMetadataBytes] m by simp
  moreover have "s \<noteq> []" using m(2) by (simp add: metadataJson_def)
  ultimately show ?thesis
    using m metadata_codec.object_ok [of pick MaxMetadataBytes s "metadataJson m"]
    by (simp add: DecodeMetadata_def bindR_eq_Inr failIf_def)
qed

end
