(* ===== verification/Installer.thy ===== *)
theory Installer
  imports Account_Provision Filesystem_Provision Install_State Service_Provision Install_Metadata
begin

text \<open>
  The installation on Windows as one transaction: \<open>internal/platform/windows/installer/input_windows.go\<close>
  and \<open>transaction_windows.go\<close>.  The lease holds the leases of its seven stages; a stage that was
  not reached, or was closed or committed, is \<open>None\<close>.  The copies of slices and the clearing of
  buffers the caller does not see are the identity.  The storage of the runner is the one stage
  that is not modelled below its interface: one resource, made and closed by the host.
\<close>

datatype InstallError = InstallError string

section \<open>Input (\<open>input_windows.go\<close>)\<close>

text \<open>\<open>ig_Pinned\<close> is the answer of \<open>PinnedWindowsX64\<close>.\<close>

record RunnerImage =
  ig_Version :: string
  ig_Pinned :: bool

record InstallInput =
  in_Specification :: Spec
  in_GatewaySourceSHA :: string
  in_BrokerImage :: string
  in_ControlImage :: string
  in_RunnerImage :: "RunnerImage option"
  in_RunnerRegistration :: RegistrationRequest
  in_Metadata :: Metadata

record PreparedInput =
  pi_Specification :: Spec
  pi_GatewaySourceSHA :: string
  pi_BrokerImage :: string
  pi_ControlImage :: string
  pi_RunnerImage :: "RunnerImage option"
  pi_RunnerRegistration :: RegistrationRequest
  pi_Metadata :: string

definition peOffsetLocation :: nat where "peOffsetLocation = 0x3C"
definition peFileHeaderBytes :: nat where "peFileHeaderBytes = 24"
definition peMachineAMD64 :: nat where "peMachineAMD64 = 0x8664"
definition peOptionalMagicPE32P :: nat where "peOptionalMagicPE32P = 0x20B"
definition peExecutableImageFlag :: nat where "peExecutableImageFlag = 0x0002"
definition peDLLFlag :: nat where "peDLLFlag = 0x2000"
definition MaxProtectedExecutableBytes :: nat where "MaxProtectedExecutableBytes = 256 * 1024 * 1024"

text \<open>\<open>image[from : from + n]\<close>, and the little-endian reading of it.\<close>

definition sliceAt :: "string \<Rightarrow> nat \<Rightarrow> nat \<Rightarrow> string" where
  "sliceAt s start n = take n (drop start s)"

fun littleEndian :: "string \<Rightarrow> nat" where
  "littleEndian [] = 0"
| "littleEndian (c # s) = byte c + 256 * littleEndian s"

definition validBrokerImage :: "string \<Rightarrow> string \<Rightarrow> bool" where
  "validBrokerImage binary sourceSHA =
     (if length binary < peOffsetLocation + 4 \<or> length binary > MaxProtectedExecutableBytes
         \<or> binary ! 0 \<noteq> CHR ''M'' \<or> binary ! 1 \<noteq> CHR ''Z'' \<or> \<not> containsSub binary sourceSHA then False
      else let offset = littleEndian (sliceAt binary peOffsetLocation 4) in
        if offset > length binary - peFileHeaderBytes then False
        else if sliceAt binary offset 4 \<noteq> ''PE'' @ [CHR 0x00, CHR 0x00]
            \<or> littleEndian (sliceAt binary (offset + 4) 2) \<noteq> peMachineAMD64 then False
        else let optionalBytes = littleEndian (sliceAt binary (offset + 20) 2);
                 characteristics = littleEndian (sliceAt binary (offset + 22) 2);
                 optionalStart = offset + peFileHeaderBytes in
          if optionalBytes < 2 \<or> int optionalStart > int (length binary) - int optionalBytes then False
          else littleEndian (sliceAt binary optionalStart 2) = peOptionalMagicPE32P
            \<and> and characteristics peExecutableImageFlag \<noteq> 0 \<and> and characteristics peDLLFlag = 0)"

definition ValidateReleaseImages :: "string \<Rightarrow> string \<Rightarrow> string \<Rightarrow> InstallError + unit" where
  "ValidateReleaseImages gatewaySourceSHA brokerImage controlImage = checks
     [failIf (\<not> IsCanonicalGitSHA gatewaySourceSHA) (InstallError ''gateway-source-sha-invalid''),
      failIf (\<not> validBrokerImage brokerImage gatewaySourceSHA) (InstallError ''broker-image-invalid''),
      failIf (\<not> validBrokerImage controlImage gatewaySourceSHA) (InstallError ''control-image-invalid'')]"

definition prepareInputWithPolicy :: "InstallInput \<Rightarrow> bool \<Rightarrow> InstallError + PreparedInput" where
  "prepareInputWithPolicy input requirePinnedRunner =
     (let spec = in_Specification input; registration = in_RunnerRegistration input; metadata = in_Metadata input in
      bindR (mapErr (\<lambda>_. InstallError ''install-specification-invalid'') (Build spec)) (\<lambda>_.
      bindR (ValidateReleaseImages (in_GatewaySourceSHA input) (in_BrokerImage input) (in_ControlImage input)) (\<lambda>_.
      bindR (checks
        [failIf (case in_RunnerImage input of None \<Rightarrow> True
            | Some runner \<Rightarrow> ig_Version runner = [] \<or> requirePinnedRunner \<and> \<not> ig_Pinned runner) (InstallError ''runner-image-invalid''),
         mapErr (\<lambda>_. InstallError ''runner-registration-invalid'')
           (ValidateRegistrationRequest (sp_InstallationRoot spec) registration),
         failIf (\<not> isOk (ValidateMetadata metadata) \<or> md_InstallationRoot metadata \<noteq> sp_InstallationRoot spec
           \<or> md_GatewaySourceSHA metadata \<noteq> in_GatewaySourceSHA input
           \<or> md_ControlRepository metadata \<noteq> pv_Name (rr_Repository registration)
           \<or> md_RunnerName metadata \<noteq> rr_RunnerName registration) (InstallError ''installation-metadata-invalid'')]) (\<lambda>_.
      bindR (mapErr (\<lambda>_. InstallError ''installation-metadata-invalid'') (MarshalCanonicalMetadata metadata)) (\<lambda>encoded.
      Inr \<lparr>pi_Specification = spec\<lparr>sp_ApprovedRoots := appendNil (sp_ApprovedRoots spec), sp_Shells := appendNil (sp_Shells spec),
             sp_PathEntries := appendNil (sp_PathEntries spec), sp_Capabilities := appendNil (sp_Capabilities spec)\<rparr>,
           pi_GatewaySourceSHA = in_GatewaySourceSHA input, pi_BrokerImage = in_BrokerImage input,
           pi_ControlImage = in_ControlImage input, pi_RunnerImage = in_RunnerImage input,
           pi_RunnerRegistration = registration, pi_Metadata = encoded\<rparr>)))))"

section \<open>The storage of the runner\<close>

record StorageLease =
  sg_Committed :: bool
  sg_Closed :: bool

definition provisionStorage :: "Host \<Rightarrow> (Event list, unit, StorageLease) act" where
  "provisionStorage host =
     bindS (require (ask (ho_ProvisionStorage host) StorageMade) ())
       (\<lambda>_. liftS (Inr \<lparr>sg_Committed = False, sg_Closed = False\<rparr>))"

definition commitStorage :: "(StorageLease held, unit, unit) act" where
  "commitStorage st =
     (if sg_Closed (fst st) then (Inl (), st) else modifyLease (\<lambda>l. l\<lparr>sg_Committed := True, sg_Closed := True\<rparr>) st)"

definition closeStorage :: "Host \<Rightarrow> (StorageLease held, unit, unit) act" where
  "closeStorage host st = (case st of (l, h) \<Rightarrow>
     if sg_Closed l then (Inr (), st)
     else if sg_Committed l then (Inr (), (l\<lparr>sg_Closed := True\<rparr>, h))
     else case ask (ho_CloseStorage host) StorageClosed h of (ok, h') \<Rightarrow>
       (if ok then Inr () else Inl (), (l\<lparr>sg_Closed := True\<rparr>, h')))"

definition installClient :: "Host \<Rightarrow> string \<Rightarrow> (StorageLease held, unit, unit) act" where
  "installClient host binary = onHost (require (ask (\<lambda>h. ho_InstallClient host h binary) (ClientInstalled binary)) ())"

end
