(* ===== verification/Install_Transaction.thy ===== *)
theory Install_Transaction
  imports Installer
begin

text \<open>
  The transaction of \<open>internal/platform/windows/installer/transaction_windows.go\<close>: the seven stages in
  order, the rollback of a failed installation, commit and close.
\<close>

section \<open>The lease\<close>

record InstallLease =
  il_Accounts :: "AccountLease option"
  il_Filesystem :: "ChangeLease option"
  il_Root :: "RootLease option"
  il_Service :: "ServiceLease option"
  il_RunnerStorage :: "StorageLease option"
  il_Registration :: "RegistrationLease option"
  il_RunnerService :: "ServiceLease option"
  il_Configuration :: "Config option"
  il_SourceSHA :: string
  il_Closed :: bool

definition newInstallLease :: "string \<Rightarrow> InstallLease" where
  "newInstallLease sourceSHA = \<lparr>il_Accounts = None, il_Filesystem = None, il_Root = None, il_Service = None,
     il_RunnerStorage = None, il_Registration = None, il_RunnerService = None, il_Configuration = None,
     il_SourceSHA = sourceSHA, il_Closed = False\<rparr>"

text \<open>An operation of a stage, on the lease the stage has; the code reaches no stage that is nil.\<close>

definition onPart :: "('l \<Rightarrow> 'p option) \<Rightarrow> ('p option \<Rightarrow> 'l \<Rightarrow> 'l) \<Rightarrow> 'e \<Rightarrow> ('p held, 'x, 'a) act \<Rightarrow> ('l held, 'e, 'a) act" where
  "onPart get put e m st = (case get (fst st) of
     None \<Rightarrow> (Inl e, st)
   | Some p \<Rightarrow> (case m (p, snd st) of (r, (p', h)) \<Rightarrow> (mapErr (\<lambda>_. e) r, (put (Some p') (fst st), h))))"

text \<open>A stage that was provisioned is taken into the lease at once.\<close>

definition adopt :: "('p option \<Rightarrow> 'l \<Rightarrow> 'l) \<Rightarrow> 'e \<Rightarrow> (Event list, 'x, 'p) act \<Rightarrow> ('l held, 'e, unit) act" where
  "adopt put e provision =
     bindS (onHost (mapErrS (\<lambda>_. e) provision)) (\<lambda>p. modifyLease (put (Some p)))"

definition readLease :: "('l \<Rightarrow> 'a) \<Rightarrow> ('l held, 'e, 'a) act" where
  "readLease f st = (Inr (f (fst st)), st)"

text \<open>One stage of the rollback: whether it failed, and the stage is forgotten.\<close>

definition closePart :: "('l \<Rightarrow> 'p option) \<Rightarrow> ('p option \<Rightarrow> 'l \<Rightarrow> 'l) \<Rightarrow> ('p held, 'x, unit) act
    \<Rightarrow> bool \<times> 'l held \<Rightarrow> bool \<times> 'l held" where
  "closePart get put close st = (case st of (failed, (l, h)) \<Rightarrow> (case get l of
     None \<Rightarrow> st
   | Some p \<Rightarrow> (case close (p, h) of (r, (_, h')) \<Rightarrow> (failed \<or> \<not> isOk r, (put None l, h')))))"

abbreviation "putAccounts p \<equiv> il_Accounts_update (\<lambda>_. p)"
abbreviation "putFilesystem p \<equiv> il_Filesystem_update (\<lambda>_. p)"
abbreviation "putRoot p \<equiv> il_Root_update (\<lambda>_. p)"
abbreviation "putService p \<equiv> il_Service_update (\<lambda>_. p)"
abbreviation "putStorage p \<equiv> il_RunnerStorage_update (\<lambda>_. p)"
abbreviation "putRegistration p \<equiv> il_Registration_update (\<lambda>_. p)"
abbreviation "putRunnerService p \<equiv> il_RunnerService_update (\<lambda>_. p)"

definition rollbackLocked :: "Host \<Rightarrow> InstallLease held \<Rightarrow> bool \<times> InstallLease held" where
  "rollbackLocked host st =
     closePart il_Accounts putAccounts (closeAccounts host)
       (closePart il_Filesystem putFilesystem (closeChanges host)
       (closePart il_Root putRoot (closeRoot host)
       (closePart il_Service putService (closeService host BrokerService)
       (closePart il_RunnerStorage putStorage (closeStorage host)
       (closePart il_Registration putRegistration (closeRegistration host)
       (closePart il_RunnerService putRunnerService (closeService host RunnerService) (False, st)))))))"

definition forget :: "InstallLease \<Rightarrow> InstallLease" where
  "forget l = l\<lparr>il_Configuration := None, il_SourceSHA := []\<rparr>"

definition closeInstall :: "Host \<Rightarrow> (InstallLease held, InstallError, unit) act" where
  "closeInstall host st =
     (if il_Closed (fst st) then (Inr (), st)
      else case rollbackLocked host ((fst st)\<lparr>il_Closed := True\<rparr>, snd st) of (failed, (l, h)) \<Rightarrow>
        (if failed then Inl (InstallError ''rollback-failed'') else Inr (), (forget l, h)))"

text \<open>A commit of a service that failed: everything the lease still has is rolled back.\<close>

definition commitFailed :: "Host \<Rightarrow> string \<Rightarrow> InstallLease held \<Rightarrow> (InstallError + unit) \<times> InstallLease held" where
  "commitFailed host rule st =
     (case rollbackLocked host st of (failed, (l, h)) \<Rightarrow>
       (Inl (InstallError (if failed then ''commit-rollback-failed'' else rule)), (l\<lparr>il_Closed := True\<rparr>, h)))"

text \<open>A finalizer: whether it failed, and the stage is forgotten.\<close>

definition commitStages :: "Host \<Rightarrow> (InstallLease held, InstallError, unit) act" where
  "commitStages host st =
     (case onPart il_RunnerService putRunnerService () (commitService host RunnerService) st of
       (Inl _, st1) \<Rightarrow> commitFailed host ''runner-service-commit-failed'' st1
     | (Inr _, (l1, h1)) \<Rightarrow> (case onPart il_Service putService () (commitService host BrokerService) (putRunnerService None l1, h1) of
         (Inl _, st2) \<Rightarrow> commitFailed host ''service-commit-failed'' st2
       | (Inr _, (l2, h2)) \<Rightarrow>
           (case closePart il_Root putRoot commitRoot
              (closePart il_Filesystem putFilesystem commitChanges
              (closePart il_Accounts putAccounts commitAccounts
              (closePart il_RunnerStorage putStorage commitStorage
              (closePart il_Registration putRegistration commitRegistration
                (False, (putService None l2, h2)))))) of (failed, (l3, h3)) \<Rightarrow>
            (if failed then Inl (InstallError ''commit-finalization-failed'') else Inr (),
             (forget (l3\<lparr>il_Closed := True\<rparr>), h3)))))"

definition commitInstall :: "Host \<Rightarrow> (InstallLease held, InstallError, unit) act" where
  "commitInstall host st =
     (let l = fst st in
      if il_Closed l \<or> il_Accounts l = None \<or> il_Filesystem l = None \<or> il_Root l = None \<or> il_Service l = None
        \<or> il_RunnerStorage l = None \<or> il_Registration l = None \<or> il_RunnerService l = None
      then (Inl (InstallError ''lease-closed''), st) else commitStages host st)"

section \<open>Provisioning\<close>

definition installContext :: "Host \<Rightarrow> (Event list, InstallError, unit) act" where
  "installContext host = contextError host (InstallError ''context-cancelled'')"

text \<open>What the preflight asks of a service: it must not exist.\<close>

definition preflight :: "Host \<Rightarrow> Service \<Rightarrow> InstallError \<Rightarrow> (Event list, InstallError, unit) act" where
  "preflight host s e =
     bindS (query (ask (\<lambda>h. ho_ServiceExists host h s) (ServiceAsked s)))
       (\<lambda>exists. liftS (failIf (exists \<noteq> Some False) e))"

definition cloneInstalled :: "Config \<Rightarrow> Config" where
  "cloneInstalled c = c\<lparr>cf_ApprovedRoots := appendNil (cf_ApprovedRoots c), cf_Shells := appendNil (cf_Shells c),
     cf_PathEntries := appendNil (cf_PathEntries c), cf_Capabilities := appendNil (cf_Capabilities c)\<rparr>"

text \<open>The steps, in three parts: the accounts and the workload's directories\<close>

definition installAccounts :: "Host \<Rightarrow> PreparedInput \<Rightarrow> (InstallLease held, InstallError, IdentityBinding \<times> Config) act" where
  "installAccounts host prepared =
     (let spec = pi_Specification prepared in
      bindS (adopt putAccounts (InstallError ''account-provision-failed'') (nativeAccounts host spec)) (\<lambda>_.
      bindS (onHost (installContext host)) (\<lambda>_.
      bindS (readLease (\<lambda>l. case il_Accounts l of None \<Rightarrow> emptyBinding | Some a \<Rightarrow> al_Binding a)) (\<lambda>binding.
      bindS (liftS (mapErr (\<lambda>_. InstallError ''identity-binding-invalid'') (Bind spec binding))) (\<lambda>configuration.
      bindS (adopt putFilesystem (InstallError ''filesystem-provision-failed'')
        (nativeFilesystem host configuration)) (\<lambda>_.
      bindS (onHost (installContext host)) (\<lambda>_.
      liftS (Inr (binding, configuration)))))))))"

text \<open>the protected root with the images and the state\<close>

definition rootStep :: "string \<Rightarrow> (RootLease held, 'x, 'a) act \<Rightarrow> (InstallLease held, InstallError, 'a) act" where
  "rootStep rule m = onPart il_Root putRoot (InstallError rule) m"

definition installRoot :: "Host \<Rightarrow> PreparedInput \<Rightarrow> IdentityBinding \<Rightarrow> (InstallLease held, InstallError, unit) act" where
  "installRoot host prepared binding =
     (let spec = pi_Specification prepared in
      bindS (adopt putRoot (InstallError ''installation-root-provision-failed'')
        (ProvisionRoot True host (sp_InstallationRoot spec))) (\<lambda>_.
      bindS (rootStep ''broker-image-materialization-failed'' (WriteBrokerImage host (pi_BrokerImage prepared))) (\<lambda>_.
      bindS (rootStep ''control-image-materialization-failed'' (WriteControlImage host (pi_ControlImage prepared))) (\<lambda>_.
      bindS (onHost (installContext host)) (\<lambda>_.
      bindS (readLease (\<lambda>l. Option.bind (il_Accounts l) ExecutionPassword)) (\<lambda>password.
      bindS (liftS (failIf (password = None \<or> password = Some []) (InstallError ''execution-password-unavailable''))) (\<lambda>_.
      bindS (rootStep ''installation-state-materialization-failed''
        (Materialize True (contextAlive host) (EnsureProtectedDirectory host) (WriteProtectedFile host) (sealWith host)
          spec binding (the password))) (\<lambda>receipt.
      bindS (readLease (\<lambda>l. case il_Root l of None \<Rightarrow> Inl (RootError ''lease-closed'') | Some r \<Rightarrow> InstallationLayout r)) (\<lambda>layout.
      bindS (liftS (case layout of
          Inl _ \<Rightarrow> Inl (InstallError ''installation-state-verification-failed'')
        | Inr layout \<Rightarrow> if rc_Layout receipt \<noteq> layout \<or> \<not> rc_CredentialWritten receipt \<or> \<not> rc_ConfigWritten receipt
            then Inl (InstallError ''installation-state-verification-failed'') else Inr layout)) (\<lambda>layout.
      bindS (onPart il_Accounts putAccounts (InstallError ''execution-password-clear-failed'') ClearExecutionPassword) (\<lambda>_.
      bindS (readLease (\<lambda>l. Option.bind (il_Accounts l) ExecutionPassword)) (\<lambda>cleared.
      bindS (liftS (failIf (cleared \<noteq> None) (InstallError ''execution-password-clear-failed''))) (\<lambda>_.
      bindS (rootStep ''installation-metadata-materialization-failed''
        (WriteProtectedFile host (ly_InstallationMetadata layout) (pi_Metadata prepared))) (\<lambda>_.
      onHost (installContext host)))))))))))))))"

text \<open>and the services with the runner between them.\<close>

definition installServices :: "Scm \<Rightarrow> Host \<Rightarrow> PreparedInput \<Rightarrow> (InstallLease held, InstallError, unit) act" where
  "installServices scm host prepared =
     (let spec = pi_Specification prepared; root = sp_InstallationRoot spec in
      bindS (adopt putService (InstallError ''service-provision-failed'') (ProvisionBrokerService scm True host root)) (\<lambda>_.
      bindS (onHost (installContext host)) (\<lambda>_.
      bindS (readLease (\<lambda>l. Option.bind (il_Accounts l) ControlPassword)) (\<lambda>control.
      bindS (liftS (failIf (control = None \<or> control = Some []) (InstallError ''control-password-unavailable''))) (\<lambda>_.
      bindS (adopt putStorage (InstallError ''runner-storage-provision-failed'') (provisionStorage host)) (\<lambda>_.
      bindS (onPart il_RunnerStorage putStorage (InstallError ''runner-control-image-materialization-failed'')
        (installClient host (pi_ControlImage prepared))) (\<lambda>_.
      bindS (adopt putRegistration (InstallError ''runner-registration-failed'')
        (ProvisionRegistration True host root (pi_RunnerRegistration prepared))) (\<lambda>_.
      bindS (adopt putRunnerService (InstallError ''runner-service-provision-failed'')
        (ProvisionRunnerService scm True host root (sp_ControlAccount spec) (the control))) (\<lambda>_.
      onHost (installContext host))))))))))"

definition installStages :: "Scm \<Rightarrow> Host \<Rightarrow> PreparedInput \<Rightarrow> (InstallLease held, InstallError, unit) act" where
  "installStages scm host prepared =
     bindS (installAccounts host prepared) (\<lambda>(binding, configuration).
     bindS (installRoot host prepared binding) (\<lambda>_.
     bindS (installServices scm host prepared) (\<lambda>_.
     modifyLease (\<lambda>l. l\<lparr>il_Configuration := Some (cloneInstalled configuration)\<rparr>))))"

definition ProvisionInstallation :: "Scm \<Rightarrow> bool \<Rightarrow> Host \<Rightarrow> PreparedInput \<Rightarrow> (Event list, InstallError, InstallLease) act" where
  "ProvisionInstallation scm dependencies host prepared =
     (if \<not> dependencies then liftS (Inl (InstallError ''dependency-required''))
      else bindS (installContext host) (\<lambda>_.
        bindS (preflight host BrokerService (InstallError ''service-preflight-failed'')) (\<lambda>_.
        bindS (preflight host RunnerService (InstallError ''runner-service-preflight-failed'')) (\<lambda>_.
        leased (newInstallLease (pi_GatewaySourceSHA prepared))
          (rollbackOnError (closeInstall host) (InstallError ''rollback-failed'') (installStages scm host prepared))))))"

definition Install :: "Scm \<Rightarrow> Host \<Rightarrow> InstallInput \<Rightarrow> (Event list, InstallError, InstallLease) act" where
  "Install scm host input =
     bindS (liftS (prepareInputWithPolicy input True)) (ProvisionInstallation scm True host)"

definition Configuration :: "InstallLease \<Rightarrow> InstallError + Config option" where
  "Configuration l =
     (if il_Closed l then Inl (InstallError ''lease-closed'')
      else Inr (map_option cloneInstalled (il_Configuration l)))"

definition GatewaySourceSHA :: "InstallLease \<Rightarrow> InstallError + string" where
  "GatewaySourceSHA l = (if il_Closed l then Inl (InstallError ''lease-closed'') else Inr (il_SourceSHA l))"

end
