(* ===== verification/Install_Facts.thy ===== *)
theory Install_Facts
  imports Install_Transaction
begin

text \<open>
  The installation keeps the contract of leases, because its stages do: what the lease owns is what
  its stages own, in the order they were provisioned.
\<close>

section \<open>What the lease owns\<close>

definition part :: "('p \<Rightarrow> Resource list) \<Rightarrow> 'p option \<Rightarrow> Resource list" where
  "part owned x = (case x of None \<Rightarrow> [] | Some p \<Rightarrow> owned p)"

definition partLive :: "('p \<Rightarrow> bool) \<Rightarrow> 'p option \<Rightarrow> bool" where
  "partLive live x = (case x of None \<Rightarrow> True | Some p \<Rightarrow> live p)"

lemma part_simps [simp]:
  "part owned None = []" "part owned (Some p) = owned p" "partLive live None" "partLive live (Some p) = live p"
  by (simp_all add: part_def partLive_def)

lemma partLive_conj [simp]: "partLive (\<lambda>p. A p \<and> B p) x \<longleftrightarrow> partLive A x \<and> partLive B x"
  by (cases x) simp_all

definition ownedStorage :: "StorageLease \<Rightarrow> Resource list" where "ownedStorage l = [OwnedStorage]"

definition liveStorage :: "StorageLease \<Rightarrow> bool" where
  "liveStorage l \<longleftrightarrow> \<not> sg_Closed l \<and> \<not> sg_Committed l"

interpretation storage_lease: lease ownedStorage liveStorage "\<lambda>l. \<not> liveStorage l" commitStorage "closeStorage host"
proof unfold_locales
  fix l h r l' h'
  assume "liveStorage l" and "closeStorage host (l, h) = (r, (l', h'))"
  then show "\<not> liveStorage l' \<and> (\<exists>es. h' = h @ es \<and> acquired es = [] \<and> released es = rev (ownedStorage l))"
    by (auto simp: closeStorage_def ask_def liveStorage_def ownedStorage_def split: if_splits)
next
  fix l h r l' h'
  assume "\<not> liveStorage l" and "closeStorage host (l, h) = (r, (l', h'))"
  then show "r = Inr () \<and> h' = h \<and> \<not> liveStorage l'"
    by (auto simp: closeStorage_def liveStorage_def split: if_splits)
next
  fix l h l' h'
  assume "commitStorage (l, h) = (Inr (), (l', h'))"
  then show "\<not> liveStorage l' \<and> (\<exists>es. h' = h @ es \<and> quietEvents es)"
    by (auto simp: commitStorage_def modifyLease_def liveStorage_def quietEvents_def split: if_splits)
qed

definition ownedInstall :: "InstallLease \<Rightarrow> Resource list" where
  "ownedInstall l = part ownedAccounts (il_Accounts l) @ part ownedChanges (il_Filesystem l) @ part ownedRoot (il_Root l)
     @ part (ownedService BrokerService) (il_Service l) @ part ownedStorage (il_RunnerStorage l)
     @ part ownedRegistration (il_Registration l) @ part (ownedService RunnerService) (il_RunnerService l)"

text \<open>A live stage was provisioned in full: its service exists, its registration must be removed.\<close>

definition liveParts :: "InstallLease \<Rightarrow> bool" where
  "liveParts l \<longleftrightarrow> partLive liveAccounts (il_Accounts l) \<and> partLive liveChanges (il_Filesystem l)
     \<and> partLive liveRoot (il_Root l) \<and> partLive (\<lambda>p. liveService p \<and> madeService p) (il_Service l)
     \<and> partLive liveStorage (il_RunnerStorage l)
     \<and> partLive (\<lambda>p. liveRegistration p \<and> rg_CleanupRequired p) (il_Registration l)
     \<and> partLive (\<lambda>p. liveService p \<and> madeService p) (il_RunnerService l)"

definition liveInstall :: "InstallLease \<Rightarrow> bool" where
  "liveInstall l \<longleftrightarrow> \<not> il_Closed l \<and> liveParts l"

section \<open>Closing\<close>

text \<open>A stage of the rollback, in terms of what it releases.\<close>

definition releases :: "(bool \<times> 'l held \<Rightarrow> bool \<times> 'l held) \<Rightarrow> 'l \<Rightarrow> 'l \<Rightarrow> Resource list \<Rightarrow> bool" where
  "releases f l l' xs \<longleftrightarrow> (\<forall>failed h. \<exists>failed' es. f (failed, (l, h)) = (failed', (l', h @ es)) \<and> acquired es = [] \<and> released es = rev xs)"

lemma releases_comp: "releases f l l' xs \<Longrightarrow> releases g l' l'' ys \<Longrightarrow> releases (\<lambda>st. g (f st)) l l'' (ys @ xs)"
  unfolding releases_def
proof (intro allI)
  fix failed h
  assume f: "\<forall>failed h. \<exists>failed' es. f (failed, (l, h)) = (failed', (l', h @ es)) \<and> acquired es = [] \<and> released es = rev xs"
    and g: "\<forall>failed h. \<exists>failed' es. g (failed, (l', h)) = (failed', (l'', h @ es)) \<and> acquired es = [] \<and> released es = rev ys"
  obtain f1 es where "f (failed, (l, h)) = (f1, (l', h @ es))" "acquired es = []" "released es = rev xs" using f by blast
  moreover obtain f2 fs where "g (f1, (l', h @ es)) = (f2, (l'', (h @ es) @ fs))" "acquired fs = []" "released fs = rev ys"
    using g by blast
  ultimately show "\<exists>failed' es. g (f (failed, (l, h))) = (failed', (l'', h @ es)) \<and> acquired es = [] \<and> released es = rev (ys @ xs)"
    by (intro exI [of _ f2] exI [of _ "es @ fs"]) simp
qed

lemma closePart_releases:
  assumes "partLive live (get l)" "get l = None \<Longrightarrow> put None l = l"
    and "\<And>p h r p' h'. live p \<Longrightarrow> close (p, h) = (r, (p', h')) \<Longrightarrow>
        spent p' \<and> (\<exists>es. h' = h @ es \<and> acquired es = [] \<and> released es = rev (owned p))"
  shows "releases (closePart get put close) l (put None l) (part owned (get l))"
  unfolding releases_def
proof (intro allI)
  fix failed h
  show "\<exists>failed' es. closePart get put close (failed, (l, h)) = (failed', (put None l, h @ es))
     \<and> acquired es = [] \<and> released es = rev (part owned (get l))"
  proof (cases "get l")
    case None
    then show ?thesis using assms(2) by (auto simp: closePart_def intro!: exI [of _ "[]"])
  next
    case (Some p)
    obtain r p' h' where close: "close (p, h) = (r, (p', h'))" by (metis prod_cases3)
    have "live p" using assms(1) Some by simp
    then obtain es where "h' = h @ es" "acquired es = []" "released es = rev (owned p)"
      using assms(3) [OF _ close] by blast
    then show ?thesis using Some close by (auto simp: closePart_def)
  qed
qed

definition emptied :: "InstallLease \<Rightarrow> InstallLease" where
  "emptied l = l\<lparr>il_RunnerService := None, il_Registration := None, il_RunnerStorage := None, il_Service := None,
     il_Root := None, il_Filesystem := None, il_Accounts := None\<rparr>"

lemma rollback_releases:
  assumes "liveParts l"
  shows "\<exists>failed es. rollbackLocked host (l, h) = (failed, (emptied l, h @ es))
     \<and> acquired es = [] \<and> released es = rev (ownedInstall l)"
proof -
  note live = assms [unfolded liveParts_def]
  let ?l1 = "putRunnerService None l"
  let ?l2 = "putRegistration None ?l1"
  let ?l3 = "putStorage None ?l2"
  let ?l4 = "putService None ?l3"
  let ?l5 = "putRoot None ?l4"
  let ?l6 = "putFilesystem None ?l5"
  let ?l7 = "putAccounts None ?l6"
  have c1: "releases (closePart il_RunnerService putRunnerService (closeService host RunnerService)) l ?l1 (part (ownedService RunnerService) (il_RunnerService l))"
    using closePart_releases [of liveService il_RunnerService l "putRunnerService", OF _ _ service_lease.close_releases] live by simp
  have c2: "releases (closePart il_Registration putRegistration (closeRegistration host)) ?l1 ?l2 (part ownedRegistration (il_Registration l))"
    using closePart_releases [of liveRegistration il_Registration ?l1 "putRegistration", OF _ _ registration_lease.close_releases] live by simp
  have c3: "releases (closePart il_RunnerStorage putStorage (closeStorage host)) ?l2 ?l3 (part ownedStorage (il_RunnerStorage l))"
    using closePart_releases [of liveStorage il_RunnerStorage ?l2 "putStorage", OF _ _ storage_lease.close_releases] live by simp
  have c4: "releases (closePart il_Service putService (closeService host BrokerService)) ?l3 ?l4 (part (ownedService BrokerService) (il_Service l))"
    using closePart_releases [of liveService il_Service ?l3 "putService", OF _ _ service_lease.close_releases] live by simp
  have c5: "releases (closePart il_Root putRoot (closeRoot host)) ?l4 ?l5 (part ownedRoot (il_Root l))"
    using closePart_releases [of liveRoot il_Root ?l4 "putRoot", OF _ _ root_lease.close_releases] live by simp
  have c6: "releases (closePart il_Filesystem putFilesystem (closeChanges host)) ?l5 ?l6 (part ownedChanges (il_Filesystem l))"
    using closePart_releases [of liveChanges il_Filesystem ?l5 "putFilesystem", OF _ _ change_lease.close_releases] live by simp
  have c7: "releases (closePart il_Accounts putAccounts (closeAccounts host)) ?l6 ?l7 (part ownedAccounts (il_Accounts l))"
    using closePart_releases [of liveAccounts il_Accounts ?l6 "putAccounts", OF _ _ account_lease.close_releases] live by simp
  note all = releases_comp [OF releases_comp [OF releases_comp [OF releases_comp [OF releases_comp [OF releases_comp [OF c1 c2] c3] c4] c5] c6] c7]
  then have "releases (\<lambda>st. closePart il_Accounts putAccounts (closeAccounts host)
       (closePart il_Filesystem putFilesystem (closeChanges host)
       (closePart il_Root putRoot (closeRoot host)
       (closePart il_Service putService (closeService host BrokerService)
       (closePart il_RunnerStorage putStorage (closeStorage host)
       (closePart il_Registration putRegistration (closeRegistration host)
       (closePart il_RunnerService putRunnerService (closeService host RunnerService) st))))))) l (emptied l) (ownedInstall l)"
    by (simp add: ownedInstall_def emptied_def)
  then show ?thesis unfolding releases_def rollbackLocked_def by blast
qed

section \<open>Committing\<close>

text \<open>A finalizer that cannot fail, and says nothing to the host that acquires or releases.\<close>

definition finalizes :: "(bool \<times> 'l held \<Rightarrow> bool \<times> 'l held) \<Rightarrow> 'l \<Rightarrow> 'l \<Rightarrow> bool" where
  "finalizes f l l' \<longleftrightarrow> (\<forall>failed h. \<exists>es. f (failed, (l, h)) = (failed, (l', h @ es)) \<and> quietEvents es)"

lemma finalizes_comp: "finalizes f l l' \<Longrightarrow> finalizes g l' l'' \<Longrightarrow> finalizes (\<lambda>st. g (f st)) l l''"
  unfolding finalizes_def
proof (intro allI)
  fix failed h
  assume f: "\<forall>failed h. \<exists>es. f (failed, (l, h)) = (failed, (l', h @ es)) \<and> quietEvents es"
    and g: "\<forall>failed h. \<exists>es. g (failed, (l', h)) = (failed, (l'', h @ es)) \<and> quietEvents es"
  obtain es where "f (failed, (l, h)) = (failed, (l', h @ es))" "quietEvents es" using f by blast
  moreover obtain fs where "g (failed, (l', h @ es)) = (failed, (l'', (h @ es) @ fs))" "quietEvents fs" using g by blast
  ultimately show "\<exists>es. g (f (failed, (l, h))) = (failed, (l'', h @ es)) \<and> quietEvents es"
    using quietEvents_append by fastforce
qed

lemma closePart_finalizes:
  assumes "partLive live (get l)" "get l = None \<Longrightarrow> put None l = l"
    and "\<And>p h. live p \<Longrightarrow> \<exists>p' es. commit (p, h) = (Inr (), (p', h @ es)) \<and> quietEvents es"
  shows "finalizes (closePart get put commit) l (put None l)"
  unfolding finalizes_def
proof (intro allI)
  fix failed h
  show "\<exists>es. closePart get put commit (failed, (l, h)) = (failed, (put None l, h @ es)) \<and> quietEvents es"
  proof (cases "get l")
    case None
    then show ?thesis using assms(2) by (auto simp: closePart_def quietEvents_def intro!: exI [of _ "[]"])
  next
    case (Some p)
    then have "live p" using assms(1) by simp
    then obtain p' es where "commit (p, h) = (Inr (), (p', h @ es))" "quietEvents es" using assms(3) by blast
    then show ?thesis using Some by (auto simp: closePart_def)
  qed
qed

lemma commits_infallible:
  "liveAccounts a \<Longrightarrow> \<exists>a' es. commitAccounts (a, h) = (Inr (), (a', h @ es)) \<and> quietEvents es"
  "liveChanges c \<Longrightarrow> \<exists>c' es. commitChanges (c, h) = (Inr (), (c', h @ es)) \<and> quietEvents es"
  "liveRoot d \<Longrightarrow> \<exists>d' es. commitRoot (d, h) = (Inr (), (d', h @ es)) \<and> quietEvents es"
  "liveStorage e \<Longrightarrow> \<exists>e' es. commitStorage (e, h) = (Inr (), (e', h @ es)) \<and> quietEvents es"
  "liveRegistration f \<and> rg_CleanupRequired f \<Longrightarrow> \<exists>f' es. commitRegistration (f, h) = (Inr (), (f', h @ es)) \<and> quietEvents es"
  using discards_quiet [of "cl_Changes c"]
  by (auto simp: commitAccounts_def liveAccounts_def commitChanges_def liveChanges_def commitRoot_def liveRoot_def
      commitStorage_def liveStorage_def commitRegistration_def liveRegistration_def modifyLease_def quietEvents_def
      intro!: exI [of _ "[]"])

definition finalized :: "InstallLease \<Rightarrow> InstallLease" where
  "finalized l = l\<lparr>il_Registration := None, il_RunnerStorage := None, il_Accounts := None, il_Filesystem := None, il_Root := None\<rparr>"

lemma finalizers_quiet:
  assumes "liveParts l"
  shows "\<exists>es. closePart il_Root putRoot commitRoot (closePart il_Filesystem putFilesystem commitChanges
      (closePart il_Accounts putAccounts commitAccounts (closePart il_RunnerStorage putStorage commitStorage
      (closePart il_Registration putRegistration commitRegistration (failed, (l, h)))))) = (failed, (finalized l, h @ es))
    \<and> quietEvents es"
proof -
  note live = assms [unfolded liveParts_def]
  let ?l1 = "putRegistration None l"
  let ?l2 = "putStorage None ?l1"
  let ?l3 = "putAccounts None ?l2"
  let ?l4 = "putFilesystem None ?l3"
  have c1: "finalizes (closePart il_Registration putRegistration commitRegistration) l ?l1"
    using closePart_finalizes [of "\<lambda>p. liveRegistration p \<and> rg_CleanupRequired p" il_Registration l "putRegistration",
        OF _ _ commits_infallible(5)] live by simp
  have c2: "finalizes (closePart il_RunnerStorage putStorage commitStorage) ?l1 ?l2"
    using closePart_finalizes [of liveStorage il_RunnerStorage ?l1 "putStorage", OF _ _ commits_infallible(4)] live by simp
  have c3: "finalizes (closePart il_Accounts putAccounts commitAccounts) ?l2 ?l3"
    using closePart_finalizes [of liveAccounts il_Accounts ?l2 "putAccounts", OF _ _ commits_infallible(1)] live by simp
  have c4: "finalizes (closePart il_Filesystem putFilesystem commitChanges) ?l3 ?l4"
    using closePart_finalizes [of liveChanges il_Filesystem ?l3 "putFilesystem", OF _ _ commits_infallible(2)] live by simp
  have c5: "finalizes (closePart il_Root putRoot commitRoot) ?l4 (putRoot None ?l4)"
    using closePart_finalizes [of liveRoot il_Root ?l4 "putRoot", OF _ _ commits_infallible(3)] live by simp
  have "putRoot None ?l4 = finalized l" by (simp add: finalized_def)
  then show ?thesis
    using finalizes_comp [OF finalizes_comp [OF finalizes_comp [OF finalizes_comp [OF c1 c2] c3] c4] c5]
    unfolding finalizes_def by metis
qed

text \<open>
  The outcomes of a commit: the two services are committed first and may fail, each by the closing
  of its handle; then everything the lease still has is rolled back, and nothing after them fails.
\<close>

definition fullInstall :: "InstallLease \<Rightarrow> bool" where
  "fullInstall l \<longleftrightarrow> il_Accounts l \<noteq> None \<and> il_Filesystem l \<noteq> None \<and> il_Root l \<noteq> None \<and> il_Service l \<noteq> None
     \<and> il_RunnerStorage l \<noteq> None \<and> il_Registration l \<noteq> None \<and> il_RunnerService l \<noteq> None"

lemma commitFailed_releases:
  assumes "liveParts l"
  shows "\<exists>e l' es. commitFailed host rule (l, h) = (Inl e, (l', h @ es)) \<and> il_Closed l' \<and> acquired es = []
    \<and> released es = rev (ownedInstall l)"
proof -
  obtain failed es where "rollbackLocked host (l, h) = (failed, (emptied l, h @ es))" "acquired es = []"
      "released es = rev (ownedInstall l)"
    using rollback_releases [OF assms] by blast
  then show ?thesis by (auto simp: commitFailed_def)
qed

lemma commitService_made:
  assumes "liveService p" "madeService p"
  shows "\<exists>ok. commitService host s (p, h) =
      (if ok then Inr () else Inl (ServiceError ''service-handle-close-failed''),
       (if ok then p\<lparr>sl_Committed := True, sl_Closed := True, sl_Service := False\<rparr> else p, h @ [ServiceHandleClosed s ok]))"
  using assms by (auto simp: commitService_def closeHandle_def ask_def liveService_def madeService_def)

lemma commit_cases:
  assumes "liveInstall l" "fullInstall l" and run: "commitInstall host (l, h) = (r, (l', h'))"
  obtains (runner) e es where "r = Inl e" "il_Closed l'" "h' = h @ ServiceHandleClosed RunnerService False # es"
      "acquired es = []" "released es = rev (ownedInstall l)"
    | (broker) e es where "r = Inl e" "il_Closed l'"
      "h' = h @ ServiceHandleClosed RunnerService True # ServiceHandleClosed BrokerService False # es"
      "acquired es = []" "released es = rev (ownedInstall (putRunnerService None l))"
    | (committed) es where "r = Inr ()" "il_Closed l'" "quietEvents es"
      "h' = h @ ServiceHandleClosed RunnerService True # ServiceHandleClosed BrokerService True # es"
proof -
  have live: "liveParts l" "\<not> il_Closed l" using assms(1) by (simp_all add: liveInstall_def)
  obtain p q where p: "il_RunnerService l = Some p" "liveService p" "madeService p"
      and q: "il_Service l = Some q" "liveService q" "madeService q"
    using assms(2) live(1) by (auto simp: fullInstall_def liveParts_def)
  obtain ok1 where c1: "commitService host RunnerService (p, h) =
      (if ok1 then Inr () else Inl (ServiceError ''service-handle-close-failed''),
       (if ok1 then p\<lparr>sl_Committed := True, sl_Closed := True, sl_Service := False\<rparr> else p, h @ [ServiceHandleClosed RunnerService ok1]))"
    using commitService_made [OF p(2,3)] by blast
  let ?h1 = "h @ [ServiceHandleClosed RunnerService True]"
  let ?l1 = "putRunnerService None l"
  obtain ok2 where c2: "commitService host BrokerService (q, ?h1) =
      (if ok2 then Inr () else Inl (ServiceError ''service-handle-close-failed''),
       (if ok2 then q\<lparr>sl_Committed := True, sl_Closed := True, sl_Service := False\<rparr> else q, ?h1 @ [ServiceHandleClosed BrokerService ok2]))"
    using commitService_made [OF q(2,3)] by blast
  have same: "putRunnerService (Some p) l = l" "putService (Some q) ?l1 = ?l1" using p(1) q(1) by simp_all
  have start: "commitInstall host (l, h) = commitStages host (l, h)"
    using live(2) assms(2) by (auto simp: commitInstall_def fullInstall_def Let_def)
  consider "\<not> ok1" | "ok1" "\<not> ok2" | "ok1" "ok2" by blast
  then show thesis
  proof cases
    case 1
    obtain e l2 es where "commitFailed host ''runner-service-commit-failed'' (l, h @ [ServiceHandleClosed RunnerService False])
        = (Inl e, (l2, (h @ [ServiceHandleClosed RunnerService False]) @ es))" "il_Closed l2" "acquired es = []"
        "released es = rev (ownedInstall l)"
      using commitFailed_releases [OF live(1)] by blast
    then show thesis using runner [of e es] run 1 c1 p(1) same(1) by (simp add: start commitStages_def onPart_def)
  next
    case 2
    have "liveParts ?l1" using live(1) by (simp add: liveParts_def)
    then obtain e l2 es where "commitFailed host ''service-commit-failed'' (?l1, ?h1 @ [ServiceHandleClosed BrokerService False])
        = (Inl e, (l2, (?h1 @ [ServiceHandleClosed BrokerService False]) @ es))" "il_Closed l2" "acquired es = []"
        "released es = rev (ownedInstall ?l1)"
      using commitFailed_releases by blast
    then show thesis using broker [of e es] run 2 c1 c2 p(1) q(1) same(2) by (simp add: start commitStages_def onPart_def)
  next
    case 3
    let ?l2 = "putService None ?l1"
    have parts: "liveParts ?l2" using live(1) by (simp add: liveParts_def)
    let ?h2 = "?h1 @ [ServiceHandleClosed BrokerService True]"
    obtain es where "closePart il_Root putRoot commitRoot (closePart il_Filesystem putFilesystem commitChanges
        (closePart il_Accounts putAccounts commitAccounts (closePart il_RunnerStorage putStorage commitStorage
        (closePart il_Registration putRegistration commitRegistration (False, (?l2, ?h2)))))) = (False, (finalized ?l2, ?h2 @ es))"
        "quietEvents es"
      using finalizers_quiet [OF parts] by blast
    then show thesis using committed [of es] run 3 c1 c2 p(1) q(1) by (auto simp: start commitStages_def onPart_def forget_def)
  qed
qed

interpretation install_lease:
  lease ownedInstall liveInstall "\<lambda>l. il_Closed l" "commitInstall host" "closeInstall host"
proof unfold_locales
  fix l h r l' h'
  assume live: "liveInstall l" and close: "closeInstall host (l, h) = (r, (l', h'))"
  have "liveParts (l\<lparr>il_Closed := True\<rparr>)" and owned: "ownedInstall (l\<lparr>il_Closed := True\<rparr>) = ownedInstall l"
    using live by (simp_all add: liveInstall_def liveParts_def ownedInstall_def)
  then obtain failed es where "rollbackLocked host (l\<lparr>il_Closed := True\<rparr>, h) = (failed, (emptied (l\<lparr>il_Closed := True\<rparr>), h @ es))"
      "acquired es = []" "released es = rev (ownedInstall (l\<lparr>il_Closed := True\<rparr>))"
    using rollback_releases by blast
  then show "il_Closed l' \<and> (\<exists>es. h' = h @ es \<and> acquired es = [] \<and> released es = rev (ownedInstall l))"
    using live close owned by (auto simp: closeInstall_def liveInstall_def forget_def emptied_def)
next
  fix l h r l' h'
  assume "il_Closed l" and "closeInstall host (l, h) = (r, (l', h'))"
  then show "r = Inr () \<and> h' = h \<and> il_Closed l'" by (simp add: closeInstall_def)
next
  fix l h l' h'
  assume live: "liveInstall l" and commit: "commitInstall host (l, h) = (Inr (), (l', h'))"
  then have "fullInstall l" by (auto simp: commitInstall_def fullInstall_def Let_def split: if_splits)
  from commit_cases [OF live this commit] show "il_Closed l' \<and> (\<exists>es. h' = h @ es \<and> quietEvents es)"
    by cases (auto simp: quietEvents_def)
qed

end
