(* ===== verification/Install_Stages.thy ===== *)
theory Install_Stages
  imports Install_Facts
begin

text \<open>
  The stages of an installation, one after the other: each leads from the phase in which it and the
  later ones are missing to the next, and keeps the lease truthful.
\<close>

definition phase :: "nat \<Rightarrow> InstallLease \<Rightarrow> bool" where
  "phase k l \<longleftrightarrow> (il_Accounts l = None \<longleftrightarrow> k \<le> 0) \<and> (il_Filesystem l = None \<longleftrightarrow> k \<le> 1) \<and> (il_Root l = None \<longleftrightarrow> k \<le> 2)
     \<and> (il_Service l = None \<longleftrightarrow> k \<le> 3) \<and> (il_RunnerStorage l = None \<longleftrightarrow> k \<le> 4) \<and> (il_Registration l = None \<longleftrightarrow> k \<le> 5)
     \<and> (il_RunnerService l = None \<longleftrightarrow> k \<le> 6)"

lemma phase_full: "phase 7 l \<Longrightarrow> fullInstall l"
  by (simp add: phase_def fullInstall_def)

lemmas install_defs = liveInstall_def liveParts_def ownedInstall_def phase_def

section \<open>Taking a stage into the lease\<close>

lemma adopt_leads:
  assumes provision: "\<And>h r h'. p h = (r, h') \<Longrightarrow> \<exists>es. h' = h @ es \<and> (case r of Inl _ \<Rightarrow> released es = rev (acquired es)
      | Inr a \<Rightarrow> good a \<and> released es = [] \<and> own a = acquired es)"
    and step: "\<And>l a. liveInstall l \<Longrightarrow> phase k l \<Longrightarrow> good a \<Longrightarrow> liveInstall (put (Some a) l) \<and> phase k' (put (Some a) l)
      \<and> ownedInstall (put (Some a) l) = ownedInstall l @ own a"
  shows "install_lease.leads (phase k) (phase k') (adopt put e p)"
proof (rule install_lease.leadsI)
  fix l h r l' h' assume l: "liveInstall l" "phase k l" and run: "adopt put e p (l, h) = (r, (l', h'))"
  obtain q h1 where p: "p h = (q, h1)" by fastforce
  show "liveInstall l' \<and> (isOk r \<longrightarrow> phase k' l') \<and> (\<exists>es g. h' = h @ es
      \<and> ownedInstall l' @ g = ownedInstall l @ acquired es \<and> released es = rev g \<and> (isOk r \<longrightarrow> g = []))"
  proof (cases q)
    case (Inl x)
    then obtain es where "h1 = h @ es" "released es = rev (acquired es)" using provision [OF p] by auto
    moreover have "l' = l" "h' = h1" "\<not> isOk r"
      using run p Inl by (auto simp: adopt_def bindS_def onHost_def mapErrS_def)
    ultimately show ?thesis using l by auto
  next
    case (Inr a)
    then obtain es where es: "h1 = h @ es" "good a" "released es = []" "own a = acquired es" using provision [OF p] by auto
    moreover have "l' = put (Some a) l" "h' = h1"
      using run p Inr by (auto simp: adopt_def bindS_def onHost_def mapErrS_def modifyLease_def)
    ultimately show ?thesis using step [OF l, of a] by (intro conjI exI [of _ es] exI [of _ "[]"]) simp_all
  qed
qed

text \<open>What \<open>balances\<close> of the stage's own contract says, in the form \<open>adopt_leads\<close> asks for.\<close>

lemma provided:
  "account_lease.balances Qa pa \<Longrightarrow> pa h = (ra, h') \<Longrightarrow> \<exists>es. h' = h @ es \<and> (case ra of Inl _ \<Rightarrow> released es = rev (acquired es)
      | Inr a \<Rightarrow> (liveAccounts a \<and> Qa a) \<and> released es = [] \<and> ownedAccounts a = acquired es)"
  "change_lease.balances Qc pc \<Longrightarrow> pc h = (rc, h') \<Longrightarrow> \<exists>es. h' = h @ es \<and> (case rc of Inl _ \<Rightarrow> released es = rev (acquired es)
      | Inr a \<Rightarrow> (liveChanges a \<and> Qc a) \<and> released es = [] \<and> ownedChanges a = acquired es)"
  "root_lease.balances Qd pd \<Longrightarrow> pd h = (rd, h') \<Longrightarrow> \<exists>es. h' = h @ es \<and> (case rd of Inl _ \<Rightarrow> released es = rev (acquired es)
      | Inr a \<Rightarrow> (liveRoot a \<and> Qd a) \<and> released es = [] \<and> ownedRoot a = acquired es)"
  "service_lease.balances s Qs ps \<Longrightarrow> ps h = (rs, h') \<Longrightarrow> \<exists>es. h' = h @ es \<and> (case rs of Inl _ \<Rightarrow> released es = rev (acquired es)
      | Inr a \<Rightarrow> (liveService a \<and> Qs a) \<and> released es = [] \<and> ownedService s a = acquired es)"
  "registration_lease.balances Qr pr \<Longrightarrow> pr h = (rr, h') \<Longrightarrow> \<exists>es. h' = h @ es \<and> (case rr of Inl _ \<Rightarrow> released es = rev (acquired es)
      | Inr a \<Rightarrow> (liveRegistration a \<and> Qr a) \<and> released es = [] \<and> ownedRegistration a = acquired es)"
  unfolding account_lease.balances_def account_lease.balanced_def change_lease.balances_def change_lease.balanced_def
    root_lease.balances_def root_lease.balanced_def service_lease.balances_def service_lease.balanced_def
    registration_lease.balances_def registration_lease.balanced_def
  by (simp_all cong: sum.case_cong)

lemma storage_provided:
  "provisionStorage host h = (r, h') \<Longrightarrow> \<exists>es. h' = h @ es \<and> (case r of Inl _ \<Rightarrow> released es = rev (acquired es)
      | Inr a \<Rightarrow> liveStorage a \<and> released es = [] \<and> ownedStorage a = acquired es)"
  by (auto simp: provisionStorage_def bindS_def require_def ask_def liveStorage_def ownedStorage_def split: if_splits)

lemma adoptions:
  "install_lease.leads (phase 0) (phase 1) (adopt putAccounts e1 (nativeAccounts host spec))"
  "install_lease.leads (phase 1) (phase 2) (adopt putFilesystem e2 (nativeFilesystem host cfg))"
  "install_lease.leads (phase 2) (phase 3) (adopt putRoot e3 (ProvisionRoot dependencies host root))"
  "install_lease.leads (phase 3) (phase 4) (adopt putService e4 (ProvisionBrokerService scm dependencies host root))"
  "install_lease.leads (phase 4) (phase 5) (adopt putStorage e5 (provisionStorage host))"
  "install_lease.leads (phase 5) (phase 6) (adopt putRegistration e6 (ProvisionRegistration dependencies host root request))"
  "install_lease.leads (phase 6) (phase 7) (adopt putRunnerService e7 (ProvisionRunnerService scm dependencies host root account password))"
proof -
  show "install_lease.leads (phase 0) (phase 1) (adopt putAccounts e1 (nativeAccounts host spec))"
    by (rule adopt_leads [OF provided(1) [OF nativeAccounts_balances]]) (auto simp: install_defs)
  show "install_lease.leads (phase 1) (phase 2) (adopt putFilesystem e2 (nativeFilesystem host cfg))"
    by (rule adopt_leads [OF provided(2) [OF nativeFilesystem_balances]]) (auto simp: install_defs)
  show "install_lease.leads (phase 2) (phase 3) (adopt putRoot e3 (ProvisionRoot dependencies host root))"
    by (rule adopt_leads [OF provided(3) [OF ProvisionRoot_balances]]) (auto simp: install_defs)
  show "install_lease.leads (phase 3) (phase 4) (adopt putService e4 (ProvisionBrokerService scm dependencies host root))"
    by (rule adopt_leads [OF provided(4) [OF ProvisionBrokerService_balances]]) (auto simp: install_defs)
  show "install_lease.leads (phase 4) (phase 5) (adopt putStorage e5 (provisionStorage host))"
    by (rule adopt_leads [OF storage_provided]) (auto simp: install_defs)
  show "install_lease.leads (phase 5) (phase 6) (adopt putRegistration e6 (ProvisionRegistration dependencies host root request))"
    by (rule adopt_leads [OF provided(5) [OF ProvisionRegistration_balances]]) (auto simp: install_defs)
  show "install_lease.leads (phase 6) (phase 7)
      (adopt putRunnerService e7 (ProvisionRunnerService scm dependencies host root account password))"
    by (rule adopt_leads [OF provided(4) [OF ProvisionRunnerService_balances]]) (auto simp: install_defs)
qed

section \<open>Steps within a phase\<close>

lemma onPart_leads:
  assumes m: "\<And>p h r p' h'. good p \<Longrightarrow> m (p, h) = (r, (p', h')) \<Longrightarrow> good p'
      \<and> (\<exists>es g. h' = h @ es \<and> own p' @ g = own p @ acquired es \<and> released es = rev g \<and> (isOk r \<longrightarrow> g = []))"
    and part: "\<And>l p p'. liveInstall l \<Longrightarrow> phase k l \<Longrightarrow> get l = Some p \<Longrightarrow> good p' \<Longrightarrow>
        liveInstall (put (Some p') l) \<and> phase k (put (Some p') l)
      \<and> (\<exists>before. ownedInstall l = before @ own p \<and> ownedInstall (put (Some p') l) = before @ own p')"
    and good: "\<And>l p. liveInstall l \<Longrightarrow> get l = Some p \<Longrightarrow> good p"
  shows "install_lease.leads (phase k) (phase k) (onPart get put e m)"
proof (rule install_lease.leadsI)
  fix l h r l' h' assume l: "liveInstall l" "phase k l" and run: "onPart get put e m (l, h) = (r, (l', h'))"
  show "liveInstall l' \<and> (isOk r \<longrightarrow> phase k l') \<and> (\<exists>es g. h' = h @ es
      \<and> ownedInstall l' @ g = ownedInstall l @ acquired es \<and> released es = rev g \<and> (isOk r \<longrightarrow> g = []))"
  proof (cases "get l")
    case None
    then show ?thesis using run l by (auto simp: onPart_def intro!: exI [of _ "[]"])
  next
    case (Some p)
    obtain q p' h1 where q: "m (p, h) = (q, (p', h1))" by (metis prod_cases3)
    obtain es g where es: "good p'" "h1 = h @ es" "own p' @ g = own p @ acquired es" "released es = rev g" "isOk q \<longrightarrow> g = []"
      using m [OF good [OF l(1) Some] q] by blast
    have "l' = put (Some p') l" "h' = h1" "isOk r = isOk q"
      using run Some q by (auto simp: onPart_def mapErr_def split: sum.splits)
    then show ?thesis using part [OF l Some es(1)] es by (intro conjI exI [of _ es] exI [of _ g]) auto
  qed
qed

lemma rootStep_leads:
  assumes "root_lease.tracks (\<lambda>_. True) m"
  shows "install_lease.leads (phase 3) (phase 3) (rootStep rule m)"
  unfolding rootStep_def
proof (rule onPart_leads [where good = liveRoot and own = ownedRoot])
  fix p h r p' h' assume "liveRoot p" "m (p, h) = (r, (p', h'))"
  then show "liveRoot p' \<and> (\<exists>es g. h' = h @ es \<and> ownedRoot p' @ g = ownedRoot p @ acquired es
      \<and> released es = rev g \<and> (isOk r \<longrightarrow> g = []))"
    using assms unfolding root_lease.tracks_def by blast
qed (auto simp: install_defs)

lemma installClient_leads: "install_lease.leads (phase 5) (phase 5) (onPart il_RunnerStorage putStorage e (installClient host binary))"
proof (rule onPart_leads [where good = liveStorage and own = ownedStorage])
  fix p h r p' h' assume "liveStorage p" "installClient host binary (p, h) = (r, (p', h'))"
  then show "liveStorage p' \<and> (\<exists>es g. h' = h @ es \<and> ownedStorage p' @ g = ownedStorage p @ acquired es
      \<and> released es = rev g \<and> (isOk r \<longrightarrow> g = []))"
    by (auto simp: installClient_def onHost_def require_def ask_def split: if_splits)
qed (auto simp: install_defs)

lemma clear_leads: "install_lease.leads (phase 3) (phase 3) (onPart il_Accounts putAccounts e ClearExecutionPassword)"
  by (rule install_lease.leadsI)
    (auto simp: onPart_def ClearExecutionPassword_def modifyLease_def install_defs liveAccounts_def ownedAccounts_def
      split: option.splits if_splits intro!: exI [of _ "[]"])

lemma readLease_tracks: "install_lease.tracks P (readLease f)"
  by (rule install_lease.tracksI) (auto simp: readLease_def intro!: exI [of _ "[]"])

lemma installContext_tracks: "install_lease.tracks P (onHost (installContext host))"
  unfolding installContext_def by (intro install_lease.tracks_quiet quiet_context)

section \<open>The stages\<close>

lemma Materialize_tracks:
  "root_lease.tracks (\<lambda>_. True) (Materialize d (contextAlive host) (EnsureProtectedDirectory host) (WriteProtectedFile host)
     (sealWith host) spec binding password)"
proof -
  have alive: "root_lease.tracks (\<lambda>_. True) (contextAlive host)"
    unfolding contextAlive_def by (intro root_lease.tracks_quiet quiet_context)
  have "quiet (\<lambda>h. case ask (\<lambda>h. ho_Seal host h password) (Sealed password) h of
      (r, h') \<Rightarrow> (case r of None \<Rightarrow> Inl () | Some c \<Rightarrow> Inr c, h'))"
    by (auto simp: quiet_def ask_def quietEvents_def)
  then have seal: "root_lease.tracks (\<lambda>_. True) (sealWith host password)"
    unfolding sealWith_def by (rule root_lease.tracks_quiet)
  show ?thesis
    unfolding Materialize_def withReceipt_def Let_def case_prod_beta
    by (cases d) (auto intro!: root_lease.tracks_lift root_lease.tracks_bind root_lease.tracks_for root_lease.tracks_map alive seal
        EnsureProtectedDirectory_tracks WriteProtectedFile_tracks)
qed

lemmas within = install_lease.leads_tracks [OF readLease_tracks] install_lease.leads_tracks [OF installContext_tracks]
  install_lease.leads_tracks [OF install_lease.tracks_lift]

lemma installAccounts_leads: "install_lease.leads (phase 0) (phase 2) (installAccounts host prepared)"
  unfolding installAccounts_def Let_def
  by (intro install_lease.leads_bind [OF adoptions(1)] install_lease.leads_bind [OF adoptions(2)]
      install_lease.leads_bind [OF within(1)] install_lease.leads_bind [OF within(2)] install_lease.leads_bind [OF within(3)] within)

lemma installRoot_leads: "install_lease.leads (phase 2) (phase 3) (installRoot host prepared binding)"
proof -
  note root = rootStep_leads [OF WriteImage_tracks(1)] rootStep_leads [OF WriteImage_tracks(2)] rootStep_leads [OF Materialize_tracks]
    rootStep_leads [OF WriteProtectedFile_tracks]
  show ?thesis
    unfolding installRoot_def Let_def
    by (intro install_lease.leads_bind [OF adoptions(3)] root [THEN install_lease.leads_bind]
        within [THEN install_lease.leads_bind] clear_leads [THEN install_lease.leads_bind] within)
qed

lemma installServices_leads: "install_lease.leads (phase 3) (phase 7) (installServices scm host prepared)"
  unfolding installServices_def Let_def
  by (intro adoptions(4-7) [THEN install_lease.leads_bind] installClient_leads [THEN install_lease.leads_bind]
      within [THEN install_lease.leads_bind] within)

lemma installStages_leads: "install_lease.leads (phase 0) (phase 7) (installStages scm host prepared)"
proof -
  have "install_lease.tracks (phase 7) (modifyLease (il_Configuration_update (\<lambda>_. x)))" for x
    by (rule install_lease.tracks_keep) (simp add: install_defs)
  then show ?thesis
    unfolding installStages_def case_prod_beta
    by (intro installAccounts_leads [THEN install_lease.leads_bind] installRoot_leads [THEN install_lease.leads_bind]
        installServices_leads [THEN install_lease.leads_bind] install_lease.leads_tracks)
qed

lemma quiet_preflight: "quiet (preflight host s e)"
  unfolding preflight_def by (intro quiet_bind quiet_lift quiet_ask) simp

lemma ProvisionInstallation_balances:
  "install_lease.balances (phase 7) (ProvisionInstallation scm dependencies host prepared)"
proof -
  have "install_lease.balances (phase 7) (leased (newInstallLease sha)
      (rollbackOnError (closeInstall host) (InstallError ''rollback-failed'') (installStages scm host prepared)))" for sha
    by (rule install_lease.balances_leads [OF installStages_leads]) (simp_all add: newInstallLease_def install_defs)
  then show ?thesis
    unfolding ProvisionInstallation_def installContext_def
    by (auto intro!: install_lease.balances_error install_lease.balances_after quiet_preflight quiet_context)
qed

lemma Install_balances: "install_lease.balances (phase 7) (Install scm host input)"
  unfolding Install_def by (intro install_lease.balances_after ProvisionInstallation_balances quiet_lift)

end
