(* ===== verification/Install_Properties.thy ===== *)
theory Install_Properties
  imports Install_Plan Codec_Facts Samples
begin

text \<open>
  What an installation plan guarantees: where the protected paths lie, that a valid specification
  always has a plan, and what a binding adds to it.
\<close>

section \<open>Roots and separators\<close>

definition separator :: "Platform \<Rightarrow> char" where
  "separator platform = (if platform = Windows then CHR 0x5C else CHR ''/'')"

definition supported :: "Platform \<Rightarrow> bool" where
  "supported platform \<longleftrightarrow> platform = Windows \<or> platform = Linux"

lemma windows_not_linux [simp]: "Windows \<noteq> Linux" "Linux \<noteq> Windows"
  by (simp_all add: platform_defs)

lemma splitOn_last: "s \<noteq> [] \<Longrightarrow> last s = sep \<Longrightarrow> [] \<in> set (splitOn sep s)"
  by (cases s rule: rev_cases) (simp_all add: splitOn_append_sep)

lemma nonRoot_last:
  assumes "supported platform" "nonRootPath platform root"
  shows "root \<noteq> [] \<and> last root \<noteq> separator platform"
proof (cases "platform = Windows")
  case True
  then have v: "validateWindows root = Inr ()" and r: "\<not> IsFilesystemRoot Windows root"
    using assms(2) by (auto simp: nonRootPath_def ValidateAbsolute_def platform_defs split: if_splits)
  then have len: "3 \<le> length root" by (auto simp: validateWindows_def split: if_splits)
  have "length root \<noteq> 3"
  proof
    assume three: "length root = 3"
    then obtain a b c where abc: "root = [a, b, c]" by (auto simp: length_Suc_conv numeral_eq_Suc)
    show False using v r by (auto simp: abc validateWindows_def IsFilesystemRoot_def platform_defs split: if_splits)
  qed
  then have long: "drop 3 root \<noteq> []" "3 < length root" using len by auto
  then have "\<forall>s\<in>set (splitOn CHR 0x5C (drop 3 root)). validateSegment True s = Inr ()"
    using v by (auto simp: validateWindows_def validateSegments_def split: if_splits)
  then have "[] \<notin> set (splitOn CHR 0x5C (drop 3 root))" by (auto simp: validateSegment_def)
  then have "last (drop 3 root) \<noteq> CHR 0x5C" using splitOn_last long(1) by blast
  then show ?thesis using long True by (auto simp: separator_def)
next
  case False
  then have l: "platform = Linux" using assms(1) by (simp add: supported_def)
  then have v: "validateLinux root = Inr ()" "root \<noteq> ''/''"
    using assms(2) by (auto simp: nonRootPath_def ValidateAbsolute_def IsFilesystemRoot_def split: if_splits)
  then obtain w where w: "root = CHR ''/'' # w" "w \<noteq> [] \<longrightarrow> last w \<noteq> CHR ''/''" using linux_shape by blast
  then show ?thesis using v(2) l by (auto simp: separator_def)
qed

lemma linux_root_segments:
  assumes "nonRootPath Linux root"
  shows "\<exists>ss. ss \<noteq> [] \<and> list_all plainSegment ss \<and> root = CHR ''/'' # joinWith ''/'' ss"
proof -
  have v: "validateLinux root = Inr ()" "root \<noteq> ''/''"
    using assms by (auto simp: nonRootPath_def ValidateAbsolute_def IsFilesystemRoot_def split: if_splits)
  then obtain w where w: "root = CHR ''/'' # w" "w \<noteq> []" "linuxSegments root = splitOn CHR ''/'' w"
    using linux_shape by blast
  have "\<forall>s\<in>set (splitOn CHR ''/'' w). validateSegment False s = Inr ()" using v(1) w(3) by (simp add: validateLinux_ok)
  then have "list_all plainSegment (splitOn CHR ''/'' w)"
    using splitOn_no_sep by (fastforce simp: plainSegment_def validateSegment_def list_all_iff)
  then show ?thesis using w(1) joinWith_splitOn [of "CHR ''/''" w] by (metis splitOn_nonempty)
qed

text \<open>Joining plain segments to a root is appending them, on both platforms.\<close>

lemma joinPlatform_append:
  assumes "supported platform" "nonRootPath platform root" "segments \<noteq> []" "list_all plainSegment segments"
  shows "joinPlatform platform root segments = root @ separator platform # joinWith [separator platform] segments"
proof (cases "platform = Windows")
  case False
  then have "platform = Linux" using assms(1) by (simp add: supported_def)
  moreover from this obtain ss where ss: "ss \<noteq> []" "list_all plainSegment ss" "root = CHR ''/'' # joinWith ''/'' ss"
    using linux_root_segments assms(2) by blast
  ultimately show ?thesis
    using pathJoin_rooted [OF ss(1,2) assms(4)] assms(3) ss(1)
    by (simp add: joinPlatform_def separator_def joinWith_append)
qed (simp add: joinPlatform_def joinWindows_def separator_def)

lemma toLower_ascii [simp]: "isASCII s \<Longrightarrow> toLower s = map lowerByte s"
  by (simp add: toLower_def)

lemma toLower_append:
  assumes "isASCII t"
  shows "toLower (s @ t) = toLower s @ map lowerByte t"
proof (cases t)
  case (Cons d u)
  then show ?thesis using assms toLower_append_ascii [of d s u] by (simp add: isASCII_def)
qed simp

lemma Contains_append:
  assumes "supported platform"
  shows "Contains platform root (root @ separator platform # rest)"
proof (cases "platform = Windows")
  case True
  have sep: "isASCII [CHR 0x5C]" by (simp add: isASCII_def)
  show ?thesis
    using True toLower_append_ascii [of "CHR 0x5C" root rest] toLower_append [OF sep, of root]
    by (simp add: separator_def Contains_def Equal_def Let_def hasPrefix_def)
next
  case False
  then show ?thesis
    using assms by (auto simp: supported_def separator_def Contains_def Equal_def Let_def hasPrefix_def)
qed

text \<open>A root and the runner root beside it are separate trees.\<close>

lemma beside_ascii: "isASCII ''-runner''" "isASCII (''-runner'' @ [CHR 0x5C])" "isASCII [CHR 0x5C]"
  by (simp_all add: isASCII_def)

lemma runes_append_length: "isASCII t \<Longrightarrow> length (runes (s @ t)) = length (runes s) + length t"
  by (cases t) (simp_all add: isASCII_def runes_append_ascii runes_ascii)

lemma equalFold_length: "equalFold a b \<Longrightarrow> length (runes a) = length (runes b)"
  unfolding equalFold_def by (metis length_map)

lemma beside_separate:
  assumes "supported platform" "nonRootPath platform root"
  shows "\<not> Overlaps platform root (root @ ''-runner'')"
proof -
  let ?runner = "root @ ''-runner''"
  have ends: "\<not> hasSuffix root [separator platform]" "\<not> hasSuffix ?runner [separator platform]"
    using nonRoot_last [OF assms] assms(1) by (auto simp: hasSuffix_single separator_def)
  show ?thesis
  proof (cases "platform = Windows")
    case True
    have "\<not> equalFold root ?runner" "\<not> equalFold ?runner root"
      using equalFold_length runes_append_length [OF beside_ascii(1), of root] by fastforce+
    moreover have "lowerByte CHR ''-'' \<noteq> lowerByte CHR 0x5C" by code_simp
    ultimately show ?thesis
      using ends True toLower_append [OF beside_ascii(1), of root] toLower_append [OF beside_ascii(2), of root]
        toLower_append [OF beside_ascii(3), of root]
      by (auto simp: Overlaps_def Contains_def Equal_def Let_def separator_def hasPrefix_def)
  next
    case False
    then show ?thesis
      using ends assms(1) by (auto simp: supported_def Overlaps_def Contains_def Equal_def Let_def separator_def hasPrefix_def)
  qed
qed

section \<open>Valid specifications\<close>

lemma runnerRoot_ok [simp]:
  "runnerRoot platform root = Inr runner \<longleftrightarrow> runner = root @ ''-runner'' \<and> nonRootPath platform runner"
  by (auto simp: runnerRoot_def Let_def nonRootPath_def isOk_iff split: if_splits)

definition workloadRoots :: "Spec \<Rightarrow> string list" where
  "workloadRoots spec = sl (sp_ApprovedRoots spec) @ [sp_ProfileRoot spec, sp_TempRoot spec]"

lemma ValidateSpec_facts:
  assumes "ValidateSpec spec = Inr ()"
  defines "platform \<equiv> sp_Platform spec" and "runner \<equiv> sp_InstallationRoot spec @ ''-runner''"
  shows "supported platform" and "nonRootPath platform (sp_InstallationRoot spec)" and "nonRootPath platform runner"
    and "ValidateConfig (configurationFromSpec spec (placeholderBinding platform)) = Inr ()"
    and "\<not> equalFold (sp_ControlAccount spec) (sp_ExecutionAccount spec)"
    and "w \<in> set (workloadRoots spec) \<Longrightarrow>
      \<not> Overlaps platform (sp_InstallationRoot spec) w \<and> \<not> Overlaps platform runner w"
    and "b \<in> set (sl (sp_Shells spec)) \<Longrightarrow> \<not> Contains platform runner (sb_Executable b)"
    and "e \<in> set (sl (sp_PathEntries spec)) \<Longrightarrow> \<not> Contains platform runner e"
  using assms(1)
  by (auto simp: ValidateSpec_def Let_def bindR_eq_Inr ball_Un supported_def nonRootPath_def isOk_iff workloadRoots_def
      platform_def runner_def)

section \<open>Layouts\<close>

text \<open>The paths of a layout under its two roots.\<close>

definition protectedPaths :: "Layout \<Rightarrow> string list" where
  "protectedPaths l = [ly_BinDirectory l, ly_BrokerExecutable l, ly_ControlExecutable l, ly_StateDirectory l,
     ly_InstallationConfig l, ly_InstallationMetadata l]
     @ (if ly_ExecutionCredential l = [] then [] else [ly_ExecutionCredential l])"

definition runnerPaths :: "Layout \<Rightarrow> string list" where
  "runnerPaths l = [ly_RunnerControlExecutable l, ly_RunnerWorkDirectory l, ly_RunnerResponseDirectory l]"

text \<open>The layout of a platform, every path appended to one of its roots.\<close>

definition layoutOf :: "Platform \<Rightarrow> string \<Rightarrow> Layout" where
  "layoutOf platform root =
     (let runner = root @ ''-runner''; exe = (if platform = Windows then ''.exe'' else []);
          under = (\<lambda>top segments. top @ separator platform # joinWith [separator platform] segments) in
      \<lparr>ly_Root = root, ly_BinDirectory = under root [''bin''],
       ly_BrokerExecutable = under root [''bin'', ''awg-broker'' @ exe],
       ly_ControlExecutable = under root [''bin'', ''awg'' @ exe], ly_StateDirectory = under root [''state''],
       ly_InstallationConfig = under root [''state'', ''installation.json''],
       ly_InstallationMetadata = under root [''state'', ''management.json''],
       ly_ExecutionCredential = (if platform = Windows then under root [''state'', ''execution-credential.dpapi''] else []),
       ly_RunnerRoot = runner, ly_RunnerControlExecutable = under runner [''_awg'', ''awg'' @ exe],
       ly_RunnerWorkDirectory = under runner [''_work''], ly_RunnerResponseDirectory = under runner [''responses'']\<rparr>)"

lemma plain_names: "list_all plainSegment [''bin'', ''state'', ''awg'', ''awg-broker'', ''installation.json'',
    ''management.json'', ''_awg'', ''_work'', ''responses'']"
  by code_simp

lemma WindowsLayout_ok:
  "WindowsLayout root = Inr l \<longleftrightarrow> nonRootPath Windows root \<and> nonRootPath Windows (root @ ''-runner'') \<and> l = layoutOf Windows root"
  by (auto simp: WindowsLayout_def bindR_eq_Inr nonRootPath_def isOk_iff layoutOf_def separator_def joinWindows_def Let_def)

lemma LinuxLayout_ok:
  "LinuxLayout root = Inr l \<longleftrightarrow> nonRootPath Linux root \<and> nonRootPath Linux (root @ ''-runner'') \<and> l = layoutOf Linux root"
proof -
  have join: "pathJoin (top # segments) = top @ CHR ''/'' # joinWith ''/'' segments"
    if "nonRootPath Linux top" "segments \<noteq> []" "list_all plainSegment segments" for top segments
    using joinPlatform_append [of Linux, OF _ that] by (simp add: joinPlatform_def separator_def supported_def)
  show ?thesis
    using plain_names by (auto simp: LinuxLayout_def bindR_eq_Inr isOk_iff layoutOf_def separator_def Let_def join
        simp flip: nonRootPath_def) (auto simp: nonRootPath_def)
qed

lemma layout_within:
  assumes "supported platform"
  shows "p \<in> set (protectedPaths (layoutOf platform root)) \<Longrightarrow> Contains platform root p"
    and "p \<in> set (runnerPaths (layoutOf platform root)) \<Longrightarrow> Contains platform (root @ ''-runner'') p"
proof -
  have under: "Contains platform top (top @ separator platform # rest)" for top rest
    using Contains_append [OF assms] .
  show "p \<in> set (protectedPaths (layoutOf platform root)) \<Longrightarrow> Contains platform root p"
    using under [of root] by (auto simp: protectedPaths_def layoutOf_def Let_def split: if_splits)
  show "p \<in> set (runnerPaths (layoutOf platform root)) \<Longrightarrow> Contains platform (root @ ''-runner'') p"
    using under [of "root @ ''-runner''"] by (auto simp: runnerPaths_def layoutOf_def Let_def)
qed

text \<open>A valid specification always has a plan: the later tests of \<open>Build\<close> cannot fail.\<close>

lemma Build_ok:
  "Build spec = Inr plan \<longleftrightarrow> ValidateSpec spec = Inr ()
     \<and> plan = \<lparr>pn_PlanVersion = ConfigCurrentVersion, pn_Platform = sp_Platform spec,
         pn_Layout = layoutOf (sp_Platform spec) (sp_InstallationRoot spec),
         pn_Operations = planOperations spec (layoutOf (sp_Platform spec) (sp_InstallationRoot spec))\<rparr>"
proof (cases "ValidateSpec spec = Inr ()")
  case True
  note facts = ValidateSpec_facts [OF True]
  have "(if sp_Platform spec = Windows then WindowsLayout (sp_InstallationRoot spec)
     else LinuxLayout (sp_InstallationRoot spec)) = Inr (layoutOf (sp_Platform spec) (sp_InstallationRoot spec))"
    using facts(1-3) by (auto simp: WindowsLayout_ok LinuxLayout_ok supported_def)
  then show ?thesis using True by (auto simp: Build_def)
qed (auto simp: Build_def bindR_eq_Inr)

section \<open>Properties\<close>

text \<open>
  C15. An installation keeps its own trees apart from the work: every path a plan derives lies
  under the installation root or the runner root, the two do not overlap each other nor any
  directory the workload may write, the tools of the workload lie outside the runner root, and
  every operation of the plan touches one of the two trees or a directory of the specification.
  On Linux this means that no path at all lies both in a tree of the installation and in a
  directory of the workload.
\<close>

theorem plan_isolates:
  assumes "Build spec = Inr plan"
  defines "platform \<equiv> sp_Platform spec" and "l \<equiv> pn_Layout plan"
  shows "(\<forall>p\<in>set (protectedPaths l). Contains platform (ly_Root l) p)
    \<and> (\<forall>p\<in>set (runnerPaths l). Contains platform (ly_RunnerRoot l) p)
    \<and> \<not> Overlaps platform (ly_Root l) (ly_RunnerRoot l)
    \<and> (\<forall>w\<in>set (workloadRoots spec). \<not> Overlaps platform (ly_Root l) w \<and> \<not> Overlaps platform (ly_RunnerRoot l) w)
    \<and> (\<forall>b\<in>set (sl (sp_Shells spec)). \<not> Contains platform (ly_RunnerRoot l) (sb_Executable b))
    \<and> (\<forall>e\<in>set (sl (sp_PathEntries spec)). \<not> Contains platform (ly_RunnerRoot l) e)
    \<and> (\<forall>w\<in>set (workloadRoots spec). \<forall>p. platform = Linux \<longrightarrow> Contains Linux w p \<longrightarrow>
         \<not> Contains Linux (ly_Root l) p \<and> \<not> Contains Linux (ly_RunnerRoot l) p)
    \<and> (\<forall>t\<in>op_Target ` set (pn_Operations plan).
         t \<in> set (workloadRoots spec) \<or> Contains platform (ly_Root l) t \<or> Contains platform (ly_RunnerRoot l) t)"
proof -
  let ?root = "sp_InstallationRoot spec"
  from assms(1) have valid: "ValidateSpec spec = Inr ()" and l: "l = layoutOf platform ?root"
    and ops: "pn_Operations plan = planOperations spec l"
    by (auto simp: Build_ok l_def platform_def)
  note facts = ValidateSpec_facts [OF valid, folded platform_def]
  have roots: "ly_Root l = ?root" "ly_RunnerRoot l = ?root @ ''-runner''" by (simp_all add: l layoutOf_def Let_def)
  note within = layout_within [OF facts(1), of _ ?root, folded l]
  have client: "Contains platform (?root @ ''-runner'') (joinPlatform platform (?root @ ''-runner'') [''_awg''])"
    using joinPlatform_append [OF facts(1,3), of "[''_awg'']"] plain_names
      Contains_append [OF facts(1), of "?root @ ''-runner''" "''_awg''"] by simp
  have inside: "w \<in> set (workloadRoots spec) \<Longrightarrow> Contains Linux w p \<Longrightarrow> platform = Linux \<Longrightarrow>
      \<not> Contains Linux ?root p \<and> \<not> Contains Linux (?root @ ''-runner'') p" for w p
    using facts(6) linuxPaths.within_tree unfolding Overlaps_def by blast
  let ?runner = "?root @ ''-runner''"
  have "op_Target ` set (pn_Operations plan) \<subseteq> set (workloadRoots spec) \<union> {?root, ?runner,
      joinPlatform platform ?runner [''_awg'']} \<union> set (protectedPaths l) \<union> set (runnerPaths l)"
    unfolding ops planOperations_def workloadFilesystemOperations_def roots
    by (auto simp: workloadRoots_def protectedPaths_def runnerPaths_def platform_def)
  note target = subsetD [OF this]
  have targets: "t \<in> set (workloadRoots spec) \<or> Contains platform ?root t \<or> Contains platform ?runner t"
    if t: "t \<in> op_Target ` set (pn_Operations plan)" for t
  proof -
    consider "t \<in> set (workloadRoots spec)" | "t = ?root" | "t = ?runner"
      | "t = joinPlatform platform ?runner [''_awg'']" | "t \<in> set (protectedPaths l)" | "t \<in> set (runnerPaths l)"
      using target [OF t] by fast
    then show ?thesis
      by cases (use client within(1) [of t] within(2) [of t] in \<open>simp_all only: Contains_refl simp_thms\<close>)
  qed
  show ?thesis
    unfolding roots
  proof (intro conjI)
    show "\<not> Overlaps platform ?root (?root @ ''-runner'')" by (rule beside_separate [OF facts(1,2)])
    show "\<forall>w\<in>set (workloadRoots spec). \<forall>p. platform = Linux \<longrightarrow> Contains Linux w p \<longrightarrow>
         \<not> Contains Linux ?root p \<and> \<not> Contains Linux (?root @ ''-runner'') p"
      using inside by (intro ballI allI impI) (assumption | rule inside)+
    show "\<forall>t\<in>op_Target ` set (pn_Operations plan). t \<in> set (workloadRoots spec) \<or> Contains platform ?root t
         \<or> Contains platform (?root @ ''-runner'') t"
      by (rule ballI) (rule targets)
  qed (use within facts(6-8) in simp_all)
qed

lemma appendNil_Some: "appendNil xs = Some ys \<longleftrightarrow> xs = Some ys \<and> ys \<noteq> []"
  by (cases xs) (auto simp: appendNil_def)

text \<open>
  C16. Binding adds identities and nothing else: the configuration that is installed is valid, has
  the names, roots and tools of the specification and the identities of the binding, whose two
  principals differ; and the specification it came from has a plan.
\<close>

theorem bound_configuration:
  assumes "Bind spec identities = Inr cfg"
  shows "ValidateConfig cfg = Inr () \<and> (\<exists>plan. Build spec = Inr plan)
    \<and> cf_ApprovedRoots cfg = sp_ApprovedRoots spec \<and> cf_Shells cfg = sp_Shells spec
    \<and> cf_PathEntries cfg = sp_PathEntries spec \<and> sl (cf_Capabilities cfg) = sl (sp_Capabilities spec)
    \<and> cf_ProfileRoot cfg = sp_ProfileRoot spec \<and> cf_TempRoot cfg = sp_TempRoot spec
    \<and> pr_Name (cf_ControlIdentity cfg) = sp_ControlAccount spec \<and> pr_Name (cf_ExecutionIdentity cfg) = sp_ExecutionAccount spec
    \<and> pr_Identifier (cf_ControlIdentity cfg) = ib_ControlIdentifier identities
    \<and> pr_Identifier (cf_ExecutionIdentity cfg) = ib_ExecutionIdentifier identities
    \<and> ib_ControlIdentifier identities \<noteq> ib_ExecutionIdentifier identities"
proof -
  from assms have cfg: "cfg = configurationFromSpec spec identities" and valid: "ValidateConfig cfg = Inr ()"
    and spec: "ValidateSpec spec = Inr ()"
    by (auto simp: Bind_def bindR_eq_Inr)
  obtain roots bs es where "cf_ApprovedRoots cfg = Some roots" "cf_Shells cfg = Some bs" "cf_PathEntries cfg = Some es"
    using ValidateConfig_facts(3-5) [OF valid] by blast
  then have "cf_ApprovedRoots cfg = sp_ApprovedRoots spec" "cf_Shells cfg = sp_Shells spec"
    "cf_PathEntries cfg = sp_PathEntries spec"
    by (simp_all add: cfg configurationFromSpec_def appendNil_Some)
  moreover have "ib_ControlIdentifier identities \<noteq> ib_ExecutionIdentifier identities"
    using ValidateConfig_facts(2) [OF valid]
    by (auto simp: cfg configurationFromSpec_def principalsEqual_def split: if_splits)
  ultimately show ?thesis
    using valid spec by (auto simp: Build_ok) (simp_all add: cfg configurationFromSpec_def cloneCapabilities_def)
qed

section \<open>Samples\<close>

definition sampleSpec :: Spec where
  "sampleSpec =
     \<lparr>sp_ConfigVersion = 1, sp_Platform = ''linux'', sp_InstallationRoot = ''/opt/awg'',
      sp_ControlAccount = ''awg-control'', sp_ExecutionAccount = ''awg-exec'',
      sp_ApprovedRoots = Some [''/srv/projects''],
      sp_Shells = Some [\<lparr>sb_Shell = ''bash'', sb_Executable = ''/bin/bash''\<rparr>],
      sp_ProfileRoot = ''/var/lib/awg/profile'', sp_TempRoot = ''/var/lib/awg/tmp'',
      sp_PathEntries = Some [''/usr/bin'', ''/bin''], sp_Capabilities = Some []\<rparr>"

definition sampleIdentities :: IdentityBinding where
  "sampleIdentities = \<lparr>ib_ControlIdentifier = ''uid:1001'', ib_ControlPrimaryGroupIdentifier = ''gid:1001'',
     ib_ExecutionIdentifier = ''uid:1002'', ib_ExecutionPrimaryGroupIdentifier = ''gid:1002''\<rparr>"

lemma sampleSpec_valid: "ValidateSpec sampleSpec = Inr ()"
  by code_simp

lemma sampleSpec_bound: "Bind sampleSpec sampleIdentities = Inr sampleConfig"
  by code_simp

lemma plan_isolates_witness:
  "\<exists>plan. Build sampleSpec = Inr plan \<and> \<not> Overlaps ''linux'' (ly_Root (pn_Layout plan)) (ly_RunnerRoot (pn_Layout plan))"
proof -
  obtain plan where plan: "Build sampleSpec = Inr plan" using sampleSpec_valid by (simp add: Build_ok)
  then show ?thesis using plan_isolates [OF plan] by (auto simp: sampleSpec_def)
qed

lemma bound_configuration_witness: "ValidateConfig sampleConfig = Inr ()"
  using bound_configuration [OF sampleSpec_bound] by blast

end
