(* ===== verification/Service_Properties.thy ===== *)
theory Service_Properties
  imports Service_Policy Runner_Registration Install_Properties Install_Metadata
begin

text \<open>
  What the policies of the services and the registration of the runner guarantee: the command line
  the service manager runs is the one the broker reads, the two checks of a security descriptor
  agree, and the executor accepts what the registration prepares.
\<close>

section \<open>Command lines\<close>

lemma escapeArgs_Cons: "as \<noteq> [] \<Longrightarrow> escapeArgs (a # as) = EscapeArg a @ '' '' @ escapeArgs as"
  by (cases as) simp_all

lemma command_of: "foldl (\<lambda>command argument. command @ '' '' @ EscapeArg argument) (escapeArgs as) bs = escapeArgs (as @ bs)"
  if "as \<noteq> []"
proof -
  have snoc: "escapeArgs (xs @ [x]) = escapeArgs xs @ '' '' @ EscapeArg x" if "xs \<noteq> []" for xs x
    using that by (induction xs rule: escapeArgs.induct) (simp_all add: escapeArgs_Cons)
  show ?thesis using that
  proof (induction bs arbitrary: as)
    case (Cons b bs)
    then show ?case using Cons.IH [of "as @ [b]"] snoc [of as b] by simp
  qed simp
qed

lemma command_parses:
  "commandLineToArgv (foldl (\<lambda>command argument. command @ '' '' @ EscapeArg argument) (EscapeArg executable) arguments)
   = executable # arguments"
  using command_of [of "[executable]" arguments] commandLineToArgv_escapeArgs [of "executable # arguments"] by simp

text \<open>
  C17. The service command is not open to a path with spaces or quotation marks: whatever the
  installation root, the program splits the command line of the planned service into the broker's
  executable and the two arguments it was built from, and the broker starts with exactly that root.
\<close>

theorem service_command_starts_broker:
  assumes "BuildBrokerServicePlan scm installationRoot = Inr plan"
  shows "commandLineToArgv (sv_BinaryPathName (sv_Configuration plan)) = sv_Executable plan # sv_Arguments plan
    \<and> brokerRun (sv_Arguments plan) sourceSHA start =
        (if start installationRoot sourceSHA then 0 else 1, Some (installationRoot, sourceSHA))"
proof -
  obtain layout where layout: "WindowsLayout installationRoot = Inr layout"
      and plan: "sv_Executable plan = ly_BrokerExecutable layout" "sv_Arguments plan = [''--installation-root'', installationRoot]"
        "sv_BinaryPathName (sv_Configuration plan) =
          foldl (\<lambda>command argument. command @ '' '' @ EscapeArg argument) (EscapeArg (ly_BrokerExecutable layout))
            [''--installation-root'', installationRoot]"
    using assms by (auto simp: BuildBrokerServicePlan_def bindR_eq_Inr Let_def serviceConfiguration_def)
  have "installationRoot \<noteq> []"
    using layout by (auto simp: WindowsLayout_ok nonRootPath_def ValidateAbsolute_def split: if_splits)
  then show ?thesis
    using plan command_parses [of "ly_BrokerExecutable layout" "[''--installation-root'', installationRoot]"]
    by (simp add: brokerRun_def)
qed

section \<open>Security descriptors\<close>

text \<open>An entry, whole and not inherited, that allows the SID every access to a service.\<close>

definition grants :: "Sid \<Rightarrow> Ace \<Rightarrow> bool" where
  "grants sid a \<longleftrightarrow> ae_Read a \<and> ae_Allowed a \<and> ae_Flags a = 0 \<and> ae_Mask a = 0xF01FF \<and> ae_Sid a = sid
     \<and> ae_SidValid a \<and> 16 \<le> ae_Size a \<and> 8 + ae_SidLen a \<le> ae_Size a"

lemma grants_iff: "grants sid a \<longleftrightarrow> \<not> brokerAceInvalid a \<and> ae_Sid a = sid"
  by (auto simp: brokerAceInvalid_def grants_def allAccess_def)

lemma same_entries: "runnerAceInvalid a = brokerAceInvalid a"
  by (simp add: brokerAceInvalid_def runnerAceInvalid_def)

text \<open>
  C18. The broker service and the runner service check a security descriptor with different
  code, two flags there and a set of seen principals here; both accept exactly the descriptors that
  the local system owns, with a protected list of two entries that grant full access to the local
  system and to the administrators, one each.
\<close>

theorem descriptor_checks_agree:
  "(isOk (validateBrokerDescriptor descriptor) \<longleftrightarrow> isOk (validateRunnerDescriptor descriptor))
   \<and> (isOk (validateBrokerDescriptor descriptor) \<longleftrightarrow>
      (\<exists>d a b. descriptor = Some d \<and> de_Owner d = Some LocalSystem \<and> de_Group d = Some LocalSystem \<and> de_Present d
        \<and> de_Protected d \<and> (de_Dacl d = Some [a, b] \<or> de_Dacl d = Some [b, a])
        \<and> grants LocalSystem a \<and> grants Administrators b))"
proof (cases "descriptorChecks descriptor")
  case (Inl e)
  then have "\<not> (\<exists>d a b. descriptor = Some d \<and> de_Owner d = Some LocalSystem \<and> de_Group d = Some LocalSystem
      \<and> de_Present d \<and> de_Protected d \<and> (de_Dacl d = Some [a, b] \<or> de_Dacl d = Some [b, a]))"
    by (auto simp: descriptorChecks_def)
  then show ?thesis using Inl by (auto simp: validateBrokerDescriptor_def validateRunnerDescriptor_def)
next
  case (Inr dacl)
  then obtain d where d: "descriptor = Some d" "de_Owner d = Some LocalSystem" "de_Group d = Some LocalSystem"
      "de_Present d" "de_Protected d" "de_Dacl d = Some dacl" "length dacl = 2"
    by (auto simp: descriptorChecks_def bindR_eq_Inr split: option.splits if_splits)
  then obtain a b where dacl: "dacl = [a, b]" by (auto simp: numeral_2_eq_2 length_Suc_conv)
  show ?thesis
    using Inr d dacl
    by (cases "ae_Sid a"; cases "ae_Sid b")
      (auto simp: validateBrokerDescriptor_def validateRunnerDescriptor_def grants_iff same_entries failIf_def)
qed

section \<open>The state of an installed service\<close>

text \<open>
  A service is created disabled and is only complete when its whole policy was applied: the
  check accepts the planned configuration of the broker with the planned recovery, and refuses the
  configuration the service was created with, as long as the service manager distinguishes a disabled
  from an automatic start.
\<close>

theorem staged_service_refused:
  assumes "BuildBrokerServicePlan scm installationRoot = Inr plan" "sc_Disabled scm \<noteq> sc_Automatic scm"
  shows "validateBrokerPolicy plan (sv_Configuration plan) (sv_RecoveryActions plan) (sv_RecoveryResetPeriodSeconds plan)
      True [] [] = Inr ()
    \<and> validateBrokerPolicy plan (createConfiguration scm plan) actions period onNonCrash command message
      = Inl (ServiceError ''service-configuration-mismatch'')"
proof -
  obtain command account display description where c: "sv_Configuration plan = serviceConfiguration scm command [] account display description"
      and recovery: "sv_RecoveryOnNonCrash plan"
    using assms(1) by (auto simp: BuildBrokerServicePlan_def bindR_eq_Inr Let_def)
  show ?thesis
    using assms(2) recovery
    by (simp add: c serviceConfiguration_def validateBrokerPolicy_def validRecovery_def sameConfiguration_def
        createConfiguration_def failIf_def)
qed

section \<open>Registration\<close>

lemma nul_not_alnum: "\<not> isAlnum CHR 0x00"
  by (simp add: isAlnum_def isASCIILetter_def isLowerLetter_def isUpperLetter_def isDigit_def inRange_def byte_def)

lemma name_without_nul:
  assumes "matchHeadTail isAlnum (\<lambda>c. isAlnum c \<or> c \<in> set ''._-'') n s"
  shows "CHR 0x00 \<notin> set s"
proof
  assume nul: "CHR 0x00 \<in> set s"
  obtain c t where s: "s = c # t" "isAlnum c" "\<forall>d\<in>set t. isAlnum d \<or> d \<in> set ''._-''"
    using assms by (auto simp: matchHeadTail_def list_all_iff split: list.splits)
  then have "CHR 0x00 = c \<or> isAlnum CHR 0x00 \<or> CHR 0x00 \<in> set ''._-''" using nul by auto
  then show False using s(2) nul_not_alnum by auto
qed

lemma repository_text:
  assumes "VerifyPrivateRepository repository visible = Inr r"
  shows "CHR 0x00 \<notin> set repository" "pv_Url r = githubPrefix @ repository" "pv_Name r = repository"
proof -
  obtain owner name where r: "r = \<lparr>pv_Name = repository, pv_Url = githubPrefix @ repository\<rparr>"
      and parts: "repository = owner @ CHR ''/'' # name" "ownerPattern owner" "repositoryNamePattern name"
    using VerifyPrivateRepository_ok [OF assms] by blast
  have "CHR 0x00 \<notin> set owner"
    using parts(2) nul_not_alnum by (auto simp: ownerPattern_def list_all_iff)
  then show "CHR 0x00 \<notin> set repository"
    using parts name_without_nul by (auto simp: repositoryNamePattern_def)
  show "pv_Url r = githubPrefix @ repository" "pv_Name r = repository" using r by simp_all
qed

lemma absolute_without_nul: "isOk (ValidateAbsolute platform v) \<Longrightarrow> CHR 0x00 \<notin> set v"
  by (auto simp: ValidateAbsolute_def containsAny_def list_ex_iff split: if_splits)

lemma trim_github: "trimPrefix (githubPrefix @ repository) githubPrefix = repository"
  by (simp add: trimPrefix_def hasPrefix_def)

lemma backslashes_without_nul: "CHR 0x00 \<notin> set (backslashes n)"
  by (simp add: backslashes_def)

lemma escapeChars_without_nul: "CHR 0x00 \<notin> set s \<Longrightarrow> CHR 0x00 \<notin> set (fst (escapeChars n s))"
  by (induction n s rule: escapeChars.induct) (auto simp: backslashes_without_nul split: prod.splits if_splits)

lemma EscapeArg_without_nul: "CHR 0x00 \<notin> set s \<Longrightarrow> CHR 0x00 \<notin> set (EscapeArg s)"
  using escapeChars_without_nul [of s 0] backslashes_without_nul by (auto simp: EscapeArg_cases)

lemma commandLine_without_nul:
  assumes "CHR 0x00 \<notin> set (ri_Executable i)" and "\<forall>a\<in>set (ri_Arguments i). CHR 0x00 \<notin> set a"
  shows "CHR 0x00 \<notin> set (commandLine i)"
proof -
  have "CHR 0x00 \<notin> set (foldl (\<lambda>command argument. command @ '' '' @ EscapeArg argument) c as)"
    if "CHR 0x00 \<notin> set c" "\<forall>a\<in>set as. CHR 0x00 \<notin> set a" for c as
    using that by (induction "as" arbitrary: c) (simp_all add: EscapeArg_without_nul)
  then show ?thesis using assms by (simp add: commandLine_def EscapeArg_without_nul)
qed

text \<open>What the executor accepts has no NUL, so that the three native strings can be made.\<close>

lemma nativeCommand_accepted:
  assumes "validateInvocation i = Inr ()"
  shows "nativeCommand i = Inr (ri_Executable i, commandLine i, ri_WorkingDirectory i)"
proof -
  have "isOk (ValidateAbsolute Windows (ri_WorkingDirectory i))" "isOk (ValidateAbsolute Windows (ri_Executable i))"
      "\<forall>a\<in>set (ri_Arguments i). CHR 0x00 \<notin> set a"
    using assms by (auto simp: validateInvocation_def bindR_eq_Inr Let_def list_ex_iff)
  then show ?thesis
    using absolute_without_nul commandLine_without_nul [of i] by (simp add: nativeCommand_def utf16Ptr_def fromOption_def)
qed

text \<open>
  C19. The executor, which checks every invocation on its own, accepts the two invocations the
  registration prepares for a verified repository; it can make the native strings of whatever it
  accepted, the process reads back the arguments as they were prepared, and neither command line depends on the tokens, which reach the process through its
  environment only.
\<close>

theorem prepared_invocations_run:
  assumes "VerifyPrivateRepository repository True = Inr (rr_Repository request)"
    and "prepare installationRoot request = Inr prepared"
    and "prepare installationRoot (request\<lparr>rr_RegistrationToken := t, rr_RemovalToken := u\<rparr>) = Inr other"
  shows "validateInvocation (pp_Configure prepared) = Inr () \<and> validateInvocation (pp_Remove prepared) = Inr ()
    \<and> (\<forall>i. validateInvocation i = Inr () \<longrightarrow> nativeCommand i = Inr (ri_Executable i, commandLine i, ri_WorkingDirectory i))
    \<and> (\<forall>i. commandLineToArgv (commandLine i) = ri_Executable i # ri_Arguments i)
    \<and> pp_Configure other = pp_Configure prepared \<and> pp_Remove other = pp_Remove prepared"
proof (intro conjI allI impI)
  let ?runner = "installationRoot @ ''-runner''"
  obtain layout where layout: "WindowsLayout installationRoot = Inr layout"
      and name: "runnerNamePattern (rr_RunnerName request)"
      and listener: "isOk (ValidateAbsolute Windows (ly_RunnerRoot layout @ listenerSuffix))"
        "Contains Windows (ly_RunnerRoot layout) (ly_RunnerRoot layout @ listenerSuffix)"
      and configure: "pp_Configure prepared = \<lparr>ri_Executable = ly_RunnerRoot layout @ listenerSuffix,
          ri_WorkingDirectory = ly_RunnerRoot layout, ri_Arguments = [''configure'', ''--unattended'', ''--url'',
            pv_Url (rr_Repository request), ''--name'', rr_RunnerName request, ''--work'', ly_RunnerWorkDirectory layout,
            ''--disableupdate'', ''--no-default-labels'', ''--labels'', RegistrationLabel],
          ri_TokenEnvironment = TokenEnvironment\<rparr>"
      and remove: "pp_Remove prepared = \<lparr>ri_Executable = ly_RunnerRoot layout @ listenerSuffix,
          ri_WorkingDirectory = ly_RunnerRoot layout, ri_Arguments = [''remove''], ri_TokenEnvironment = TokenEnvironment\<rparr>"
      and other: "pp_Configure other = pp_Configure prepared" "pp_Remove other = pp_Remove prepared"
    using assms(2,3) by (auto simp: prepare_def bindR_eq_Inr Let_def)
  have runner: "ly_RunnerRoot layout = ?runner" "ly_RunnerWorkDirectory layout = ?runner @ CHR 0x5C # ''_work''"
      "isOk (ValidateAbsolute Windows ?runner)"
    using layout by (auto simp: WindowsLayout_ok layoutOf_def separator_def nonRootPath_def Let_def)
  have "CHR 0x00 \<notin> set (ly_RunnerWorkDirectory layout)" using absolute_without_nul [OF runner(3)] runner(2) by auto
  moreover have "CHR 0x00 \<notin> set (rr_RunnerName request)" "rr_RunnerName request \<noteq> []"
    using name name_without_nul by (auto simp: runnerNamePattern_def matchHeadTail_def)
  moreover have "CHR 0x00 \<notin> set (pv_Url (rr_Repository request))" "pv_Url (rr_Repository request) \<noteq> []"
    using repository_text [OF assms(1)] by (auto simp: githubPrefix_def)
  ultimately show "validateInvocation (pp_Configure prepared) = Inr ()"
    using listener runner name assms(1) repository_text [OF assms(1)] trim_github [of repository]
    by (simp add: configure validateInvocation_def Let_def failIf_def RegistrationLabel_def Equal_def bindR_eq_Inr)
  show "validateInvocation (pp_Remove prepared) = Inr ()"
    using listener runner by (simp add: remove validateInvocation_def Let_def failIf_def)
  show "commandLineToArgv (commandLine i) = ri_Executable i # ri_Arguments i" for i
    unfolding commandLine_def by (rule command_parses)
  show "nativeCommand i = Inr (ri_Executable i, commandLine i, ri_WorkingDirectory i)" if "validateInvocation i = Inr ()" for i
    using that by (rule nativeCommand_accepted)
qed (use assms(2,3) in \<open>auto simp: prepare_def bindR_eq_Inr Let_def\<close>)

section \<open>Witnesses\<close>

definition sampleScm :: Scm where
  "sampleScm = \<lparr>sc_OwnProcess = 16, sc_Automatic = 2, sc_Disabled = 4, sc_ErrorNormal = 1, sc_SidNone = 0, sc_Restart = 1,
     sc_NoAction = 0\<rparr>"

definition windowsRoot :: string where
  "windowsRoot = ''C:'' @ CHR 0x5C # ''Program Files'' @ CHR 0x5C # ''AWG''"

lemma windowsRoot_layout: "\<exists>layout. WindowsLayout windowsRoot = Inr layout"
proof -
  have "isOk (WindowsLayout windowsRoot)" by code_simp
  then show ?thesis by (cases "WindowsLayout windowsRoot") simp_all
qed

lemma sample_service_plan: "\<exists>plan. BuildBrokerServicePlan sampleScm windowsRoot = Inr plan"
  using windowsRoot_layout by (auto simp: BuildBrokerServicePlan_def Let_def)

lemma service_command_starts_broker_witness:
  "\<exists>plan :: ServicePlan. commandLineToArgv (sv_BinaryPathName (sv_Configuration plan)) = sv_Executable plan # sv_Arguments plan"
proof -
  obtain plan where plan: "BuildBrokerServicePlan sampleScm windowsRoot = Inr plan" using sample_service_plan by blast
  show ?thesis
    using service_command_starts_broker [OF plan, of "[]" "\<lambda>_ _. True"] by blast
qed

lemma staged_service_refused_witness:
  "\<exists>plan :: ServicePlan. validateBrokerPolicy plan (createConfiguration sampleScm plan) [] 0 True [] [] \<noteq> Inr ()"
proof -
  obtain plan where plan: "BuildBrokerServicePlan sampleScm windowsRoot = Inr plan" using sample_service_plan by blast
  have "sc_Disabled sampleScm \<noteq> sc_Automatic sampleScm" by (simp add: sampleScm_def)
  from staged_service_refused [OF plan this, of "[]" 0 True "[]" "[]"] show ?thesis by (intro exI [of _ plan]) simp
qed

definition sampleRepository :: PrivateRepository where
  "sampleRepository = \<lparr>pv_Name = ''owner/control'', pv_Url = ''https://github.com/owner/control''\<rparr>"

definition sampleRegistration :: RegistrationRequest where
  "sampleRegistration = \<lparr>rr_Repository = sampleRepository, rr_RunnerName = ''runner-1'',
     rr_RegistrationToken = ''abcdefghijklmnop'', rr_RemovalToken = ''ponmlkjihgfedcba''\<rparr>"

lemma sample_prepared: "\<exists>prepared. prepare windowsRoot sampleRegistration = Inr prepared"
  "\<exists>other. prepare windowsRoot (sampleRegistration\<lparr>rr_RegistrationToken := ''0123456789abcdef'',
      rr_RemovalToken := ''fedcba9876543210''\<rparr>) = Inr other"
proof -
  have "isOk (prepare windowsRoot sampleRegistration)" "isOk (prepare windowsRoot
      (sampleRegistration\<lparr>rr_RegistrationToken := ''0123456789abcdef'', rr_RemovalToken := ''fedcba9876543210''\<rparr>))"
    by code_simp+
  then show "\<exists>prepared. prepare windowsRoot sampleRegistration = Inr prepared"
    "\<exists>other. prepare windowsRoot (sampleRegistration\<lparr>rr_RegistrationToken := ''0123456789abcdef'',
      rr_RemovalToken := ''fedcba9876543210''\<rparr>) = Inr other"
    by (auto simp: isOk_iff)
qed

lemma prepared_invocations_run_witness:
  "\<exists>prepared. prepare windowsRoot sampleRegistration = Inr prepared \<and> validateInvocation (pp_Configure prepared) = Inr ()"
proof -
  have "VerifyPrivateRepository ''owner/control'' True = Inr sampleRepository" by code_simp
  then have verified: "VerifyPrivateRepository ''owner/control'' True = Inr (rr_Repository sampleRegistration)"
    by (simp add: sampleRegistration_def)
  obtain prepared other where "prepare windowsRoot sampleRegistration = Inr prepared"
      "prepare windowsRoot (sampleRegistration\<lparr>rr_RegistrationToken := ''0123456789abcdef'',
      rr_RemovalToken := ''fedcba9876543210''\<rparr>) = Inr other"
    using sample_prepared by blast
  then show ?thesis using prepared_invocations_run [OF verified] by blast
qed

end
