(* ===== verification/Installer_Samples.thy ===== *)
theory Installer_Samples
  imports Install_Transaction Service_Properties
begin

text \<open>
  A concrete installation on Windows: its input, and a host on which every call succeeds.
\<close>

section \<open>The input\<close>

definition windowsPath :: "string list \<Rightarrow> string" where
  "windowsPath parts = ''C:'' @ concat (map (\<lambda>part. CHR 0x5C # part) parts)"

definition sampleWindowsSpec :: Spec where
  "sampleWindowsSpec =
     \<lparr>sp_ConfigVersion = 1, sp_Platform = ''windows'', sp_InstallationRoot = windowsRoot,
      sp_ControlAccount = ''awg-control'', sp_ExecutionAccount = ''awg-exec'',
      sp_ApprovedRoots = Some [windowsPath [''work'']],
      sp_Shells = Some [\<lparr>sb_Shell = ''cmd'', sb_Executable = windowsPath [''Windows'', ''System32'', ''cmd.exe'']\<rparr>],
      sp_ProfileRoot = windowsPath [''profile''], sp_TempRoot = windowsPath [''temp''],
      sp_PathEntries = Some [windowsPath [''Windows'', ''System32'']], sp_Capabilities = None\<rparr>"

definition sampleSHA :: string where
  "sampleSHA = ''0123456789abcdef0123456789abcdef01234567''"

text \<open>The smallest image the installer takes: a DOS stub, the header of a 64-bit executable, the source version.\<close>

definition sampleImage :: string where
  "sampleImage = ''MZ'' @ replicate 58 (CHR 0x00) @ [CHR 0x40, CHR 0x00, CHR 0x00, CHR 0x00]
     @ ''PE'' @ [CHR 0x00, CHR 0x00, CHR 0x64, CHR 0x86] @ replicate 14 (CHR 0x00)
     @ [CHR 0x02, CHR 0x00, CHR 0x02, CHR 0x00, CHR 0x0B, CHR 0x02] @ sampleSHA"

definition sampleMetadata :: Metadata where
  "sampleMetadata =
     \<lparr>md_MetadataVersion = 1, md_Platform = ''windows'', md_InstallationRoot = windowsRoot,
      md_ControlRepository = ''owner/control'', md_RunnerName = ''runner-1'', md_GatewaySourceSHA = sampleSHA,
      md_ControlFiles = Some
        [\<lparr>ct_Path = ''.github/workflows/execute-request.yml'',
          ct_SHA256 = ''0123456789abcdef0123456789abcdef0123456789abcdef0123456789abcdef'', ct_Owned = True\<rparr>,
         \<lparr>ct_Path = ''control-version.json'',
          ct_SHA256 = ''fedcba9876543210fedcba9876543210fedcba9876543210fedcba9876543210'', ct_Owned = False\<rparr>]\<rparr>"

definition sampleInput :: InstallInput where
  "sampleInput =
     \<lparr>in_Specification = sampleWindowsSpec, in_GatewaySourceSHA = sampleSHA, in_BrokerImage = sampleImage,
      in_ControlImage = sampleImage, in_RunnerImage = Some \<lparr>ig_Version = ''2.328.0'', ig_Pinned = True\<rparr>,
      in_RunnerRegistration = sampleRegistration, in_Metadata = sampleMetadata\<rparr>"

section \<open>The hosts\<close>

definition sampleAccount :: "string \<Rightarrow> Account" where
  "sampleAccount name =
     \<lparr>ac_Name = name,
      ac_Identifier = (if name = ''awg-control'' then ''S-1-5-21-1000-1000-1000-1001'' else ''S-1-5-21-1000-1000-1000-1002''),
      ac_PrimaryGroupIdentifier = ''S-1-5-32-545''\<rparr>"

text \<open>\<open>closes\<close> says which handles of services close, and \<open>converged\<close> whether directories can be converged.\<close>

definition sampleHost :: "bool \<Rightarrow> (Service \<Rightarrow> bool) \<Rightarrow> Host" where
  "sampleHost converged closes =
     \<lparr>ho_ContextEnded = (\<lambda>_. False), ho_AccountExists = (\<lambda>_ _. Some False), ho_Generate = (\<lambda>_. Some ''secret''),
      ho_CreateAccount = (\<lambda>_ name _. (sampleAccount name, True, True)), ho_ApplyPolicy = (\<lambda>_ _ _. True),
      ho_DeleteAccount = (\<lambda>_ _. True), ho_OpenAccounts = (\<lambda>_. True), ho_OpenFilesystem = (\<lambda>_. True), ho_Converge = (\<lambda>_ _ _ _. (converged, converged)), ho_Rollback = (\<lambda>_ _. True),
      ho_CreateDirectory = (\<lambda>_ _. (True, True)), ho_VerifyDirectory = (\<lambda>_ _. True),
      ho_CreateFile = (\<lambda>_ _ _ _. (True, True)), ho_RemoveFile = (\<lambda>_ _ _. True), ho_RemoveDirectory = (\<lambda>_ _. True),
      ho_Seal = (\<lambda>_ _. Some ''sealed''), ho_Connect = (\<lambda>_ _. True), ho_Disconnect = (\<lambda>_ _. True),
      ho_BinaryReady = (\<lambda>_ _. True), ho_ServiceExists = (\<lambda>_ _. Some False),
      ho_CreateService = (\<lambda>_ _ _. (True, True, True)), ho_ApplyService = (\<lambda>_ _. True), ho_VerifyService = (\<lambda>_ _. True),
      ho_DeleteService = (\<lambda>_ _. True), ho_CloseService = (\<lambda>_. closes),
      ho_RunRunner = (\<lambda>_ _ _. (\<lparr>pr_Started = True, pr_ExitCode = 0\<rparr>, True)), ho_SealGenerated = (\<lambda>_. True),
      ho_VerifyRegistration = (\<lambda>_. True), ho_ProvisionStorage = (\<lambda>_. True), ho_InstallClient = (\<lambda>_ _. True),
      ho_VerifyExecutable = (\<lambda>_. True), ho_CloseStorage = (\<lambda>_. True)\<rparr>"

section \<open>What their parts answer\<close>

text \<open>The parts of the answers that do not depend on the host, each evaluated once.\<close>

definition sampleLayout :: Layout where "sampleLayout = projr (WindowsLayout windowsRoot)"

definition sampleRecord :: string where "sampleRecord = projr (MarshalCanonicalMetadata sampleMetadata)"

definition samplePrepared :: PreparedInput where
  "samplePrepared =
     \<lparr>pi_Specification = sampleWindowsSpec, pi_GatewaySourceSHA = sampleSHA, pi_BrokerImage = sampleImage,
      pi_ControlImage = sampleImage, pi_RunnerImage = Some \<lparr>ig_Version = ''2.328.0'', ig_Pinned = True\<rparr>,
      pi_RunnerRegistration = sampleRegistration, pi_Metadata = sampleRecord\<rparr>"

definition sampleWindowsBinding :: IdentityBinding where
  "sampleWindowsBinding = accountBinding (sampleAccount ''awg-control'') (sampleAccount ''awg-exec'')"

definition sampleWindowsConfig :: Config where
  "sampleWindowsConfig = projr (Bind sampleWindowsSpec sampleWindowsBinding)"

definition sampleWindowsPlan :: Plan where "sampleWindowsPlan = projr (Build sampleWindowsSpec)"

definition sampleCanonical :: string where "sampleCanonical = projr (MarshalCanonicalConfig sampleWindowsConfig)"

definition sampleBrokerPlan :: ServicePlan where "sampleBrokerPlan = projr (BuildBrokerServicePlan sampleScm windowsRoot)"

definition sampleRunnerPlan :: ServicePlan where
  "sampleRunnerPlan = projr (BuildRunnerServicePlan sampleScm windowsRoot ''awg-control'')"

definition sampleInvocations :: PreparedRequest where "sampleInvocations = projr (prepare windowsRoot sampleRegistration)"

lemma projr_ok: "isOk x \<Longrightarrow> x = Inr (projr x)"
  by (cases x) simp_all

lemma sampleMetadata_encoded: "MarshalCanonicalMetadata sampleMetadata = Inr sampleRecord"
  unfolding sampleRecord_def by (rule projr_ok) code_simp

lemma sample_release: "ValidateReleaseImages sampleSHA sampleImage sampleImage = Inr ()"
  by code_simp

lemma sample_layout: "WindowsLayout windowsRoot = Inr sampleLayout"
  unfolding sampleLayout_def by (rule projr_ok) code_simp

lemma sample_bound: "Bind sampleWindowsSpec sampleWindowsBinding = Inr sampleWindowsConfig"
  unfolding sampleWindowsConfig_def by (rule projr_ok) code_simp

lemma sample_built: "Build sampleWindowsSpec = Inr sampleWindowsPlan"
  unfolding sampleWindowsPlan_def by (rule projr_ok) code_simp

lemma sample_canonical: "MarshalCanonicalConfig sampleWindowsConfig = Inr sampleCanonical"
  unfolding sampleCanonical_def by (rule projr_ok) code_simp

lemma sample_services:
  "BuildBrokerServicePlan sampleScm windowsRoot = Inr sampleBrokerPlan"
  "BuildRunnerServicePlan sampleScm windowsRoot ''awg-control'' = Inr sampleRunnerPlan"
  unfolding sampleBrokerPlan_def sampleRunnerPlan_def by (rule projr_ok, code_simp)+

lemma sample_invocations: "prepare windowsRoot sampleRegistration = Inr sampleInvocations" "pp_RemovalToken sampleInvocations \<noteq> []"
proof -
  show "prepare windowsRoot sampleRegistration = Inr sampleInvocations"
    unfolding sampleInvocations_def by (rule projr_ok) code_simp
qed code_simp

lemma sample_config:
  "cf_Platform sampleWindowsConfig = Windows" "isOk (ValidateConfig sampleWindowsConfig)"
  "sl (cf_ApprovedRoots sampleWindowsConfig) = [windowsPath [''work'']]"
  by code_simp+

lemma sample_plan: "pn_Layout sampleWindowsPlan = sampleLayout"
  by code_simp

lemma sample_files:
  "distinct [ly_BrokerExecutable sampleLayout, ly_ControlExecutable sampleLayout, ly_ExecutionCredential sampleLayout,
     ly_InstallationConfig sampleLayout, ly_InstallationMetadata sampleLayout]"
  by code_simp

lemma sample_checks:
  "validGeneratedPassword ''secret''" "validPassword ''secret''" "validServicePassword ''secret''"
  "equalFold ''awg-control'' ''awg-control''" "equalFold ''awg-exec'' ''awg-exec''"
  by code_simp+

lemma sampleSpec_root: "sp_InstallationRoot sampleWindowsSpec = windowsRoot"
  by (simp add: sampleWindowsSpec_def)

lemma sampleSpec_accounts:
  "sp_ControlAccount sampleWindowsSpec = ''awg-control''" "sp_ExecutionAccount sampleWindowsSpec = ''awg-exec''"
  by (simp_all add: sampleWindowsSpec_def)

lemma sample_prepared_input:
  "pi_Specification samplePrepared = sampleWindowsSpec" "pi_RunnerRegistration samplePrepared = sampleRegistration"
  by (simp_all add: samplePrepared_def)

lemma sampleInput_prepared: "prepareInputWithPolicy sampleInput True = Inr samplePrepared"
proof -
  have clone: "sampleWindowsSpec\<lparr>sp_ApprovedRoots := appendNil (sp_ApprovedRoots sampleWindowsSpec),
      sp_Shells := appendNil (sp_Shells sampleWindowsSpec), sp_PathEntries := appendNil (sp_PathEntries sampleWindowsSpec),
      sp_Capabilities := appendNil (sp_Capabilities sampleWindowsSpec)\<rparr> = sampleWindowsSpec"
    by (simp add: sampleWindowsSpec_def appendNil_def sl_def)
  have valid: "ValidateMetadata sampleMetadata = Inr ()"
    using sampleMetadata_encoded by (simp add: MarshalCanonicalMetadata_def bindR_eq_Inr)
  have same: "md_InstallationRoot sampleMetadata = windowsRoot" "md_GatewaySourceSHA sampleMetadata = sampleSHA"
      "md_ControlRepository sampleMetadata = pv_Name (rr_Repository sampleRegistration)"
      "md_RunnerName sampleMetadata = rr_RunnerName sampleRegistration"
    by (simp_all add: sampleMetadata_def sampleRegistration_def sampleRepository_def)
  show ?thesis
    using sample_built sample_release sample_invocations(1) sampleMetadata_encoded valid same clone
    by (simp add: prepareInputWithPolicy_def sampleInput_def ValidateRegistrationRequest_def samplePrepared_def sampleSpec_root Let_def)
qed


lemma sampleHost_answers:
  fixes converged closes defines "host \<equiv> sampleHost converged closes"
  shows "ho_ContextEnded host h = False" "ho_AccountExists host h n = Some False" "ho_Generate host h = Some ''secret''"
    "ho_CreateAccount host h n p = (sampleAccount n, True, True)" "ho_ApplyPolicy host h r a" "ho_DeleteAccount host h n"
    "ho_OpenAccounts host h" "ho_OpenFilesystem host h" "ho_Converge host h b n i = (converged, converged)" "ho_Rollback host h n" "ho_CreateDirectory host h n = (True, True)" "ho_VerifyDirectory host h n"
    "ho_CreateFile host h k n c = (True, True)" "ho_RemoveFile host h k n" "ho_RemoveDirectory host h n"
    "ho_Seal host h p = Some ''sealed''" "ho_Connect host h s" "ho_Disconnect host h s" "ho_BinaryReady host h n"
    "ho_ServiceExists host h s = Some False" "ho_CreateService host h s c = (True, True, True)" "ho_ApplyService host h s"
    "ho_VerifyService host h s" "ho_DeleteService host h s" "ho_CloseService host h s = closes s"
    "ho_RunRunner host h v t = (\<lparr>pr_Started = True, pr_ExitCode = 0\<rparr>, True)" "ho_SealGenerated host h"
    "ho_VerifyRegistration host h" "ho_ProvisionStorage host h" "ho_InstallClient host h c"
    "ho_VerifyExecutable host h" "ho_CloseStorage host h"
  by (simp_all add: host_def sampleHost_def)

lemma sampleAccount_name: "ac_Name (sampleAccount n) = n"
  by (simp add: sampleAccount_def)

section \<open>The stages on these hosts\<close>

definition sampleAccounts :: AccountLease where
  "sampleAccounts = \<lparr>al_Binding = sampleWindowsBinding, al_ControlPassword = Some ''secret'', al_ExecutionPassword = Some ''secret'',
     al_Created = [''awg-control'', ''awg-exec''], al_Committed = False, al_Closed = False\<rparr>"

lemma sample_binding: "accountBinding (sampleAccount ''awg-control'') (sampleAccount ''awg-exec'') = sampleWindowsBinding"
  by (simp add: sampleWindowsBinding_def)

lemmas host_steps = bindS_def mapErrS_def query_def require_def contextError_def ask_def onHost_def modifyLease_def

lemma sample_accounts:
  "\<exists>h'. nativeAccounts (sampleHost converged closes) sampleWindowsSpec h = (Inr sampleAccounts, h')"
  by (simp add: nativeAccounts_def ProvisionAccounts_def accountsPreflight_def accountFree_def makeAccounts_def newPassword_def makeAccount_def
    applyPolicy_def newAccountLease_def host_steps rollbackOnError_def leased_def
    sampleHost_answers sampleSpec_accounts sampleAccount_name sample_checks sample_built sample_bound sample_binding sampleAccounts_def)

lemma sample_changes:
  "\<exists>h'. nativeFilesystem (sampleHost True closes) sampleWindowsConfig h
     = (Inr \<lparr>cl_Changes = [windowsPath [''work''], cf_ProfileRoot sampleWindowsConfig, cf_TempRoot sampleWindowsConfig],
         cl_Committed = False, cl_Closed = False\<rparr>, h')"
  by (simp add: nativeFilesystem_def ProvisionFilesystem_def convergeRoots_def converge_def newChangeLease_def host_steps rollbackOnError_def leased_def
    sampleHost_answers sample_config Let_def)
lemma adopt_ok:
  "fst (p (snd st)) = Inr x \<Longrightarrow> adopt put e p st = (Inr (), (put (Some x) (fst st), snd (p (snd st))))"
  by (cases "p (snd st)") (simp add: adopt_def host_steps)

lemma fst_provision:
  "fst (nativeAccounts (sampleHost True closes) sampleWindowsSpec h) = Inr sampleAccounts"
  "fst (nativeFilesystem (sampleHost True closes) sampleWindowsConfig h)
     = Inr \<lparr>cl_Changes = [windowsPath [''work''], cf_ProfileRoot sampleWindowsConfig, cf_TempRoot sampleWindowsConfig],
         cl_Committed = False, cl_Closed = False\<rparr>"
  using sample_accounts sample_changes by (metis fst_conv)+

lemma sample_root:
  "fst (ProvisionRoot True (sampleHost converged closes) windowsRoot h) = Inr \<lparr>rl_Layout = sampleLayout,
     rl_Directories = [ly_Root sampleLayout, ly_BinDirectory sampleLayout, ly_StateDirectory sampleLayout], rl_Files = [],
     rl_Attempted = [], rl_Committed = False, rl_Closed = False\<rparr>"
  by (simp add: ProvisionRoot_def makeDirectories_def makeDirectory_def newRootLease_def host_steps rollbackOnError_def leased_def
    sampleHost_answers sample_layout)

lemma sample_service:
  "fst (ProvisionBrokerService sampleScm True (sampleHost converged closes) windowsRoot h)
     = Inr \<lparr>sl_Service = True, sl_Committed = False, sl_Closed = False\<rparr>"
  "fst (ProvisionRunnerService sampleScm True (sampleHost converged closes) windowsRoot ''awg-control'' ''secret'' h)
     = Inr \<lparr>sl_Service = True, sl_Committed = False, sl_Closed = False\<rparr>"
  by (simp_all add: ProvisionBrokerService_def ProvisionRunnerService_def withManager_def thenDisconnect_def provisionService_def
    configureService_def makeService_def serviceFree_def serviceContext_def newServiceLease_def host_steps rollbackOnError_def leased_def
    sampleHost_answers sample_services sample_checks)

lemma sample_registration:
  "\<exists>l. fst (ProvisionRegistration True (sampleHost True closes) windowsRoot sampleRegistration h) = Inr l"
  by (simp add: ProvisionRegistration_def newRegistrationLease_def registerRunner_def configureRunner_def runRunner_def sealGenerated_def
    registrationContext_def host_steps rollbackOnError_def leased_def sampleHost_answers sample_invocations)

lemma sample_storage:
  "fst (provisionStorage (sampleHost converged closes) h) = Inr \<lparr>sg_Committed = False, sg_Closed = False\<rparr>"
  by (simp add: provisionStorage_def host_steps sampleHost_answers)

lemma sampleAccounts_fields:
  "al_Binding sampleAccounts = sampleWindowsBinding" "al_ControlPassword sampleAccounts = Some ''secret''"
  "al_ExecutionPassword sampleAccounts = Some ''secret''" "\<not> al_Closed sampleAccounts"
  by (simp_all add: sampleAccounts_def)

lemma sample_installAccounts:
  "\<exists>f h'. installAccounts (sampleHost True closes) samplePrepared (newInstallLease sha, h)
      = (Inr (sampleWindowsBinding, sampleWindowsConfig),
         ((newInstallLease sha)\<lparr>il_Accounts := Some sampleAccounts, il_Filesystem := Some f\<rparr>, h'))"
  unfolding installAccounts_def
  by (simp add: host_steps readLease_def installContext_def sampleHost_answers sample_prepared_input fst_provision adopt_ok sample_bound
    newInstallLease_def Let_def sampleAccounts_fields)

lemma sample_files_rev:
  "distinct (rev [ly_BrokerExecutable sampleLayout, ly_ControlExecutable sampleLayout, ly_ExecutionCredential sampleLayout,
     ly_InstallationConfig sampleLayout, ly_InstallationMetadata sampleLayout])"
  using sample_files by (simp only: distinct_rev)

lemma sample_installRoot:
  assumes "il_Accounts l = Some sampleAccounts"
  shows "\<exists>r h'. installRoot (sampleHost True closes) samplePrepared sampleWindowsBinding (l, h)
      = (Inr (), (l\<lparr>il_Accounts := Some (sampleAccounts\<lparr>al_ExecutionPassword := None\<rparr>), il_Root := Some r\<rparr>, h'))"
  using assms
  by (simp add: sample_files [simplified] sample_files_rev [simplified] installRoot_def rootStep_def onPart_def readLease_def host_steps installContext_def sampleHost_answers sample_prepared_input adopt_ok sample_root sampleSpec_root
    WriteBrokerImage_def WriteControlImage_def writeExecutable_def createFile_def WriteProtectedFile_def EnsureProtectedDirectory_def
    fixedDirectory_def Materialize_def contextAlive_def sealWith_def withReceipt_def preparedState_def sample_built sample_bound sample_canonical sample_checks
    sample_plan InstallationLayout_def ExecutionPassword_def ClearExecutionPassword_def sampleAccounts_fields Let_def) (rule exI, rule refl)
    
lemma sample_installServices:
  assumes "il_Accounts l = Some (sampleAccounts\<lparr>al_ExecutionPassword := None\<rparr>)"
  shows "\<exists>l' h'. installServices sampleScm (sampleHost True closes) samplePrepared (l, h) = (Inr (), (l', h'))"
proof -
  have "\<forall>k. \<exists>g. fst (ProvisionRegistration True (sampleHost True closes) windowsRoot sampleRegistration k) = Inr g"
    using sample_registration by blast
  then obtain g where "\<And>k. fst (ProvisionRegistration True (sampleHost True closes) windowsRoot sampleRegistration k) = Inr (g k)"
    by metis
  then show ?thesis
    using assms
    by (simp add: installServices_def onPart_def readLease_def host_steps installContext_def sampleHost_answers sample_prepared_input
      adopt_ok sample_service sample_storage sampleSpec_root sampleSpec_accounts ControlPassword_def sampleAccounts_fields
      installClient_def Let_def)
qed

lemma sample_installStages: "isOk (fst (installStages sampleScm (sampleHost True closes) samplePrepared (newInstallLease sha, h)))"
proof -
  obtain f h1 where accounts: "installAccounts (sampleHost True closes) samplePrepared (newInstallLease sha, h)
      = (Inr (sampleWindowsBinding, sampleWindowsConfig),
         ((newInstallLease sha)\<lparr>il_Accounts := Some sampleAccounts, il_Filesystem := Some f\<rparr>, h1))" (is "_ = (_, (?l1, _))")
    using sample_installAccounts by blast
  obtain r h2 where root: "installRoot (sampleHost True closes) samplePrepared sampleWindowsBinding (?l1, h1)
      = (Inr (), (?l1\<lparr>il_Accounts := Some (sampleAccounts\<lparr>al_ExecutionPassword := None\<rparr>), il_Root := Some r\<rparr>, h2))"
      (is "_ = (_, (?l2, _))")
    using sample_installRoot [of ?l1 closes h1] by auto
  obtain l3 h3 where "installServices sampleScm (sampleHost True closes) samplePrepared (?l2, h2) = (Inr (), (l3, h3))"
    using sample_installServices [of ?l2 closes h2] by auto
  then show ?thesis
    by (simp add: installStages_def bindS_eq accounts root modifyLease_def)
qed

lemma sample_Install: "isOk (fst (Install sampleScm (sampleHost True closes) sampleInput h))"
proof -
  have ok: "isOk (fst (leased l (rollbackOnError close e body) k))" if "isOk (fst (body (l, k)))"
    for l close e and k :: "Event list" and body :: "(InstallLease held, InstallError, unit) act"
    using that by (cases "body (l, k)") (auto simp: leased_def rollbackOnError_def isOk_iff)
  show ?thesis
    by (simp add: Install_def ProvisionInstallation_def host_steps sampleInput_prepared installContext_def preflight_def sampleHost_answers
      ok sample_installStages)
qed
text \<open>The host that refuses to converge a directory: the accounts made before are there to be undone.\<close>

lemma sample_accounts_events:
  "\<exists>es. nativeAccounts (sampleHost converged closes) sampleWindowsSpec h = (Inr sampleAccounts, h @ es)
     \<and> acquired es = [OwnedAccount ''awg-control'', OwnedAccount ''awg-exec'']"
  by (simp add: nativeAccounts_def ProvisionAccounts_def accountsPreflight_def accountFree_def makeAccounts_def newPassword_def makeAccount_def
    applyPolicy_def newAccountLease_def host_steps rollbackOnError_def leased_def
    sampleHost_answers sampleSpec_accounts sampleAccount_name sample_checks sample_built sample_bound sample_binding sampleAccounts_def)

lemma sample_changes_refused:
  "nativeFilesystem (sampleHost False closes) sampleWindowsConfig h
     = (Inl (FilesystemError ''approved-root-convergence-failed''), h @ [FilesystemOpened True, ContextAsked False,
         Converged True (windowsPath [''work'']) (pr_Identifier (cf_ExecutionIdentity sampleWindowsConfig)) False False])"
  by (simp add: nativeFilesystem_def ProvisionFilesystem_def convergeRoots_def converge_def newChangeLease_def host_steps rollbackOnError_def leased_def
    closeChanges_def sampleHost_answers sample_config Let_def)

lemma sample_Install_refused:
  "\<exists>e es. Install sampleScm (sampleHost False closes) sampleInput [] = (Inl e, es) \<and> acquired es \<noteq> []"
proof -
  have "\<forall>k. \<exists>es. nativeAccounts (sampleHost False closes) sampleWindowsSpec k = (Inr sampleAccounts, k @ es)
     \<and> acquired es = [OwnedAccount ''awg-control'', OwnedAccount ''awg-exec'']"
    using sample_accounts_events by blast
  then obtain es where "\<And>k. nativeAccounts (sampleHost False closes) sampleWindowsSpec k = (Inr sampleAccounts, k @ es k)"
      "\<And>k. acquired (es k) = [OwnedAccount ''awg-control'', OwnedAccount ''awg-exec'']"
    by metis
  then show ?thesis
    by (simp add: Install_def ProvisionInstallation_def installStages_def installAccounts_def adopt_def readLease_def host_steps
      sampleInput_prepared installContext_def preflight_def sampleHost_answers sample_prepared_input sampleAccounts_fields sample_bound
      sample_changes_refused leased_def rollbackOnError_def closeInstall_def rollbackLocked_def closePart_def newInstallLease_def
      closeAccounts_def clearPasswords_def sampleAccounts_def forget_def Let_def)
qed

lemma sampleState_prepared: "preparedState sampleWindowsSpec sampleWindowsBinding ''secret'' = Inr (sampleLayout, sampleCanonical)"
  by (simp add: preparedState_def sample_built sample_bound sample_canonical sample_checks sample_plan)

text \<open>The state on the sample host, and on one where the credential is put in place but does not verify.\<close>

definition unverifiedHost :: Host where
  "unverifiedHost = (sampleHost True (\<lambda>_. True))\<lparr>ho_CreateFile := \<lambda>_ _ path _. (True, path \<noteq> ly_ExecutionCredential sampleLayout)\<rparr>"

lemma unverifiedHost_answers:
  "ho_CreateFile unverifiedHost h kind path content = (True, path \<noteq> ly_ExecutionCredential sampleLayout)"
  "ho_ContextEnded unverifiedHost h = False" "ho_VerifyDirectory unverifiedHost h path = True"
  "ho_Seal unverifiedHost h s = Some ''sealed''"
  by (simp_all add: unverifiedHost_def sampleHost_def)

lemmas materialize_steps = host_steps EnsureProtectedDirectory_def WriteProtectedFile_def createFile_def fixedDirectory_def
  Materialize_def contextAlive_def sealWith_def withReceipt_def newRootLease_def Let_def

lemma sample_Materialize:
  "\<exists>st'. Materialize True (contextAlive (sampleHost True closes)) (EnsureProtectedDirectory (sampleHost True closes))
     (WriteProtectedFile (sampleHost True closes)) (sealWith (sampleHost True closes)) sampleWindowsSpec sampleWindowsBinding
     ''secret'' (newRootLease sampleLayout, [])
   = (Inr \<lparr>rc_Layout = sampleLayout, rc_CredentialWritten = True, rc_ConfigWritten = True\<rparr>, st')"
  by (simp add: materialize_steps sampleHost_answers sampleState_prepared sample_files [simplified] sample_files_rev [simplified])

lemma unverified_Materialize:
  "\<exists>st'. Materialize True (contextAlive unverifiedHost) (EnsureProtectedDirectory unverifiedHost)
     (WriteProtectedFile unverifiedHost) (sealWith unverifiedHost) sampleWindowsSpec sampleWindowsBinding
     ''secret'' (newRootLease sampleLayout, [])
   = (Inl (StateError ''credential-write-failed'', emptyReceipt), st')
   \<and> stateFiles st' = [(ly_ExecutionCredential sampleLayout, ''sealed'', False)]"
  by (simp add: materialize_steps unverifiedHost_answers sampleState_prepared stateFiles_def)

end
