(* ===== verification/Installer_Properties.thy ===== *)
theory Installer_Properties
  imports Install_Stages Installer_Samples
begin

text \<open>
  What the installation promises: a failed one is undone, a successful one owns exactly what it
  acquired and can be closed or committed, and what it wrote and recorded agrees with its input.
\<close>

section \<open>The transaction\<close>

text \<open>
  C9. Whatever the host answers and wherever the installation fails, each account, directory
  change, file, directory, service, registration and storage it brought into being is released, by
  one attempt at its removal, in the reverse of the order in which they were acquired.
\<close>

theorem failed_install_undone:
  assumes "Install scm host input history = (Inl e, history')"
  shows "\<exists>es. history' = history @ es \<and> released es = rev (acquired es)"
  using Install_balances [of scm host input] assms
  by (force simp: install_lease.balances_def install_lease.balanced_def)

text \<open>
  C11. A successful installation is complete and well formed: all seven stages are present and
  live, nothing was released, and the lease owns exactly what was acquired; closing it releases all of
  it in reverse order, and closing it again does nothing.
\<close>

theorem installed_lease_complete:
  assumes "Install scm host input history = (Inr l, history')"
  shows "liveInstall l \<and> fullInstall l
    \<and> (\<exists>es. history' = history @ es \<and> released es = [] \<and> ownedInstall l = acquired es
        \<and> (\<forall>r l2 h2. closeInstall host (l, history') = (r, (l2, h2)) \<longrightarrow>
            (\<exists>fs. h2 = history' @ fs \<and> acquired fs = [] \<and> released fs = rev (acquired es))
            \<and> closeInstall host (l2, h2) = (Inr (), (l2, h2))))"
proof -
  obtain es where es: "history' = history @ es" "liveInstall l" "phase 7 l" "released es = []" "ownedInstall l = acquired es"
    using Install_balances [of scm host input] assms by (force simp: install_lease.balances_def install_lease.balanced_def)
  have "(\<exists>fs. h2 = history' @ fs \<and> acquired fs = [] \<and> released fs = rev (acquired es)) \<and> closeInstall host (l2, h2) = (Inr (), (l2, h2))"
    if "closeInstall host (l, history') = (r, (l2, h2))" for r l2 h2
    using install_lease.close_releases [OF es(2) that] es(5) by (auto simp: closeInstall_def)
  then show ?thesis using es phase_full by blast
qed

text \<open>
  C10. The commit of an installation has three outcomes.  If the runner service's handle does not
  close, everything is rolled back.  If both handles close, the commit succeeds, releases nothing, and
  closing the lease later does nothing.  But if the runner service is committed and the handle of the
  broker service does not close, everything else is rolled back while the runner service stays
  registered.
\<close>

theorem commit_outcomes:
  assumes "Install scm host input history = (Inr l, history')"
    and "commitInstall host (l, history') = (r, (l', h))"
  shows "il_Closed l' \<and> (\<exists>es. h = history' @ es \<and> acquired es = []
    \<and> (r = Inr () \<longleftrightarrow> ServiceHandleClosed RunnerService True \<in> set (take 1 es) \<and> ServiceHandleClosed BrokerService True \<in> set (take 2 es))
    \<and> (r = Inr () \<longrightarrow> released es = [] \<and> closeInstall host (l', h) = (Inr (), (l', h)))
    \<and> (take 1 es = [ServiceHandleClosed RunnerService False] \<longrightarrow> released es = rev (ownedInstall l))
    \<and> (take 2 es = [ServiceHandleClosed RunnerService True, ServiceHandleClosed BrokerService False] \<longrightarrow>
        OwnedService RunnerService # released es = rev (ownedInstall l)))"
proof -
  have l: "liveInstall l" "fullInstall l"
    using Install_balances [of scm host input] assms(1) phase_full
    by (force simp: install_lease.balances_def install_lease.balanced_def)+
  then have owned: "ownedInstall l = ownedInstall (putRunnerService None l) @ [OwnedService RunnerService]"
    by (auto simp: fullInstall_def install_defs ownedService_def madeService_def)
  have spent: "closeInstall host (l', h) = (Inr (), (l', h))" if "il_Closed l'"
    using that by (simp add: closeInstall_def)
  show ?thesis
    using l assms(2)
  proof (cases rule: commit_cases)
    case (runner e es)
    then show ?thesis by (intro conjI exI [of _ "ServiceHandleClosed RunnerService False # es"]) simp_all
  next
    case (broker e es)
    then show ?thesis
      using owned
      by (intro conjI exI [of _ "ServiceHandleClosed RunnerService True # ServiceHandleClosed BrokerService False # es"])
        simp_all
  next
    case (committed es)
    then show ?thesis
      using spent by (intro conjI exI [of _ "ServiceHandleClosed RunnerService True # ServiceHandleClosed BrokerService True # es"])
        (simp_all add: quietEvents_def)
  qed
qed

section \<open>What was written\<close>

text \<open>
  C12. The state of an installation is written into the protected root in order, the sealed
  credential and then the canonical configuration, and the receipt is truthful about the disk:
  success means that both files were created with their full content and verified; an error whose
  receipt has the credential flag means that the credential is there; without the flag nothing was
  created, unless the error is that of the file's own write, which may leave the file in place,
  unverified (it is then owned by the lease).  The plain password is never written, only what the
  sealer answered for it.
\<close>

theorem materialized_state_truthful:
  assumes "Materialize True (contextAlive host) (EnsureProtectedDirectory host) (WriteProtectedFile host) (sealWith host)
      spec binding password st = (r, st')"
    and "preparedState spec binding password = Inr (layout, canonical)"
  shows "truthful (\<lambda>c. \<exists>s s'. sealWith host password s = (Inr c, s')) layout canonical (stateFiles st) r (stateFiles st')"
proof (rule root_store.Materialize_truthful [OF _ _ assms])
  fix st r st' assume "contextAlive host st = (r, st')"
  then show "stateFiles st' = stateFiles st"
    by (cases st) (auto simp: contextAlive_def contextError_def onHost_def ask_def stateFiles_def split: if_splits)
next
  fix st r st' assume "sealWith host password st = (r, st')"
  then show "stateFiles st' = stateFiles st"
    by (cases st) (auto simp: sealWith_def onHost_def ask_def stateFiles_def)
qed

text \<open>
  C14. The record of an installation decodes to what was encoded, whatever the decoder's order
  of checks, so the doctor and the uninstaller read what the installer wrote.
\<close>

theorem metadata_roundtrip:
  assumes "MarshalCanonicalMetadata metadata = Inr s"
  shows "DecodeMetadata pick s = Inr metadata"
  using assms by (rule metadata_written)

lemma appendNil_sl [simp]: "sl (appendNil xs) = sl xs" "appendNil (appendNil xs) = appendNil xs"
  by (auto simp: appendNil_def sl_def)

lemma Build_clone:
  "Build (spec\<lparr>sp_ApprovedRoots := appendNil (sp_ApprovedRoots spec), sp_Shells := appendNil (sp_Shells spec),
     sp_PathEntries := appendNil (sp_PathEntries spec), sp_Capabilities := appendNil (sp_Capabilities spec)\<rparr>) = Build spec"
proof -
  let ?clone = "spec\<lparr>sp_ApprovedRoots := appendNil (sp_ApprovedRoots spec), sp_Shells := appendNil (sp_Shells spec),
     sp_PathEntries := appendNil (sp_PathEntries spec), sp_Capabilities := appendNil (sp_Capabilities spec)\<rparr>"
  have "configurationFromSpec ?clone = configurationFromSpec spec"
    by (simp add: configurationFromSpec_def cloneCapabilities_def fun_eq_iff)
  then have "ValidateSpec ?clone = ValidateSpec spec" by (simp add: ValidateSpec_def)
  moreover have "planOperations ?clone = planOperations spec"
    by (simp add: planOperations_def workloadFilesystemOperations_def fun_eq_iff)
  ultimately show ?thesis by (simp add: Build_def)
qed

text \<open>
  C13. The input an installation accepts is consistent: the record it will write names the
  same root, source version, repository and runner as the specification and the registration, both
  images carry the source version, the runner is the pinned one, and the copied specification has the
  plan of the original.
\<close>

theorem prepared_input_consistent:
  assumes "prepareInputWithPolicy input True = Inr prepared"
  shows "\<exists>metadata plan prepared_request. DecodeMetadata pick (pi_Metadata prepared) = Inr metadata
    \<and> md_InstallationRoot metadata = sp_InstallationRoot (pi_Specification prepared)
    \<and> md_GatewaySourceSHA metadata = pi_GatewaySourceSHA prepared
    \<and> md_ControlRepository metadata = pv_Name (rr_Repository (pi_RunnerRegistration prepared))
    \<and> md_RunnerName metadata = rr_RunnerName (pi_RunnerRegistration prepared)
    \<and> validBrokerImage (pi_BrokerImage prepared) (md_GatewaySourceSHA metadata)
    \<and> validBrokerImage (pi_ControlImage prepared) (md_GatewaySourceSHA metadata)
    \<and> (\<exists>runner. pi_RunnerImage prepared = Some runner \<and> ig_Pinned runner)
    \<and> Build (in_Specification input) = Inr plan \<and> Build (pi_Specification prepared) = Inr plan
    \<and> prepare (sp_InstallationRoot (pi_Specification prepared)) (pi_RunnerRegistration prepared) = Inr prepared_request"
proof -
  have release: "ValidateReleaseImages (in_GatewaySourceSHA input) (in_BrokerImage input) (in_ControlImage input) = Inr ()"
      and metadata: "MarshalCanonicalMetadata (in_Metadata input) = Inr (pi_Metadata prepared)"
      and registration: "isOk (ValidateRegistrationRequest (sp_InstallationRoot (in_Specification input)) (in_RunnerRegistration input))"
      and build: "isOk (Build (in_Specification input))"
      and runner: "\<exists>runner. in_RunnerImage input = Some runner \<and> ig_Pinned runner"
      and same: "md_InstallationRoot (in_Metadata input) = sp_InstallationRoot (in_Specification input)"
        "md_GatewaySourceSHA (in_Metadata input) = in_GatewaySourceSHA input"
        "md_ControlRepository (in_Metadata input) = pv_Name (rr_Repository (in_RunnerRegistration input))"
        "md_RunnerName (in_Metadata input) = rr_RunnerName (in_RunnerRegistration input)"
      and fields: "pi_Specification prepared = (in_Specification input)\<lparr>
            sp_ApprovedRoots := appendNil (sp_ApprovedRoots (in_Specification input)),
            sp_Shells := appendNil (sp_Shells (in_Specification input)),
            sp_PathEntries := appendNil (sp_PathEntries (in_Specification input)),
            sp_Capabilities := appendNil (sp_Capabilities (in_Specification input))\<rparr>"
        "pi_GatewaySourceSHA prepared = in_GatewaySourceSHA input" "pi_BrokerImage prepared = in_BrokerImage input"
        "pi_ControlImage prepared = in_ControlImage input" "pi_RunnerImage prepared = in_RunnerImage input"
        "pi_RunnerRegistration prepared = in_RunnerRegistration input"
    using assms by (auto simp: prepareInputWithPolicy_def bindR_eq_Inr Let_def isOk_iff split: option.splits)
  obtain plan where plan: "Build (in_Specification input) = Inr plan" using build by (auto simp: isOk_iff)
  obtain request where request: "prepare (sp_InstallationRoot (in_Specification input)) (in_RunnerRegistration input) = Inr request"
    using registration by (auto simp: ValidateRegistrationRequest_def isOk_iff bindR_eq_Inr)
  have images: "validBrokerImage (in_BrokerImage input) (in_GatewaySourceSHA input)"
      "validBrokerImage (in_ControlImage input) (in_GatewaySourceSHA input)"
    using release by (simp_all add: ValidateReleaseImages_def)
  show ?thesis
    using metadata_written [OF metadata, of pick] plan request runner same images Build_clone [of "in_Specification input"]
    by (intro exI [of _ "in_Metadata input"] exI [of _ plan] exI [of _ request]) (simp add: fields)
qed

section \<open>Witnesses\<close>

lemma failed_install_undone_witness:
  "\<exists>e es. Install sampleScm (sampleHost False (\<lambda>_. True)) sampleInput [] = (Inl e, es)
     \<and> acquired es \<noteq> [] \<and> released es = rev (acquired es)"
proof -
  obtain e es where install: "Install sampleScm (sampleHost False (\<lambda>_. True)) sampleInput [] = (Inl e, es)" "acquired es \<noteq> []"
    using sample_Install_refused by blast
  then show ?thesis using failed_install_undone [OF install(1)] by auto
qed

lemma sample_installed:
  "\<exists>l h. Install sampleScm (sampleHost True closes) sampleInput [] = (Inr l, h)"
  using sample_Install [of closes "[]"] by (metis isOk_iff prod.collapse)

lemma installed_lease_complete_witness:
  "\<exists>l es. Install sampleScm (sampleHost True (\<lambda>_. True)) sampleInput [] = (Inr l, es)
     \<and> fullInstall l \<and> ownedInstall l = acquired es"
proof -
  obtain l es where install: "Install sampleScm (sampleHost True (\<lambda>_. True)) sampleInput [] = (Inr l, es)"
    using sample_installed by blast
  then show ?thesis using installed_lease_complete [OF install] by auto
qed

lemma commit_outcomes_witness:
  "\<exists>l h r l' h'. Install sampleScm (sampleHost True (\<lambda>_. True)) sampleInput [] = (Inr l, h)
     \<and> commitInstall (sampleHost True (\<lambda>_. True)) (l, h) = (r, (l', h')) \<and> il_Closed l'"
proof -
  obtain l h where install: "Install sampleScm (sampleHost True (\<lambda>_. True)) sampleInput [] = (Inr l, h)"
    using sample_installed by blast
  obtain r l' h' where commit: "commitInstall (sampleHost True (\<lambda>_. True)) (l, h) = (r, (l', h'))"
    by (metis prod.collapse)
  show ?thesis using install commit commit_outcomes [OF install commit] by blast
qed

lemma materialized_state_truthful_witness:
  "(\<exists>receipt st'. Materialize True (contextAlive (sampleHost True (\<lambda>_. True))) (EnsureProtectedDirectory (sampleHost True (\<lambda>_. True)))
       (WriteProtectedFile (sampleHost True (\<lambda>_. True))) (sealWith (sampleHost True (\<lambda>_. True))) sampleWindowsSpec
       sampleWindowsBinding ''secret'' (newRootLease sampleLayout, []) = (Inr receipt, st')
     \<and> stateFiles st' = [(ly_ExecutionCredential sampleLayout, ''sealed'', True), (ly_InstallationConfig sampleLayout, sampleCanonical, True)])
   \<and> (\<exists>e st'. Materialize True (contextAlive unverifiedHost) (EnsureProtectedDirectory unverifiedHost)
       (WriteProtectedFile unverifiedHost) (sealWith unverifiedHost) sampleWindowsSpec
       sampleWindowsBinding ''secret'' (newRootLease sampleLayout, []) = (Inl e, st')
     \<and> stateFiles st' = [(ly_ExecutionCredential sampleLayout, ''sealed'', False)])"
proof -
  let ?host = "sampleHost True (\<lambda>_. True)"
  have none: "stateFiles (newRootLease sampleLayout, []) = []" by (simp add: stateFiles_def)
  obtain receipt st' where run: "Materialize True (contextAlive ?host) (EnsureProtectedDirectory ?host) (WriteProtectedFile ?host) (sealWith ?host)
      sampleWindowsSpec sampleWindowsBinding ''secret'' (newRootLease sampleLayout, []) = (Inr receipt, st')"
    using sample_Materialize by blast
  have sealed: "c = ''sealed''" if "sealWith ?host ''secret'' s = (Inr c, s')" for c s s'
    using that by (cases s) (simp add: sealWith_def host_steps sampleHost_answers)
  from materialized_state_truthful [OF run sampleState_prepared] none sealed
  have "stateFiles st' = [(ly_ExecutionCredential sampleLayout, ''sealed'', True), (ly_InstallationConfig sampleLayout, sampleCanonical, True)]"
    unfolding truthful_def Let_def by fastforce
  then show ?thesis using run unverified_Materialize by blast
qed

lemma metadata_roundtrip_witness:
  "DecodeMetadata concat sampleRecord = Inr sampleMetadata"
  using sampleMetadata_encoded by (rule metadata_roundtrip)

lemma prepared_input_consistent_witness:
  "\<exists>metadata. DecodeMetadata concat (pi_Metadata samplePrepared) = Inr metadata
     \<and> md_InstallationRoot metadata = sp_InstallationRoot (pi_Specification samplePrepared)"
  using prepared_input_consistent [OF sampleInput_prepared] by blast

end
