(* ===== verification/Spec2Isabelle.thy ===== *)
theory Spec2Isabelle
  imports System_Properties Run_Properties Protocol_Properties Codec_Properties Session_Liveness
    Installer_Properties
begin

text \<open>
  Agent Workstation Gateway, verified in Isabelle/HOL.

  The program lets a remote agent run commands on a workstation.  A request arrives as a document
  (\<open>protocol/v1\<close>); the control client sends it with its provenance as an envelope to the broker on
  the workstation; the broker checks it against the configuration an administrator installed
  (\<open>internal/installconfig\<close>, \<open>internal/executionpolicy\<close>), runs it under a restricted account
  (\<open>internal/executionrun\<close>) and answers with a report, the captured output and the artifacts the
  request selected (\<open>internal/brokerwire\<close>, \<open>internal/brokersession\<close>, \<open>internal/controlclient\<close>).
  An installer creates the accounts, directories, services and state all of this rests on
  (\<open>internal/installplan\<close>, \<open>internal/platform/windows/installer\<close>).  The development follows these parts.

  Conventions.  A Go function that returns a value and an error is a function into \<open>'e + 'a\<close>, with
  \<open>Inl\<close> for every early return (\<open>Prelude\<close>); one that also calls out is an action on the record of
  the calls made so far, which survives an error (\<open>State_Result\<close>).  A string is its bytes.  A struct
  is a record whose fields carry a prefix, a slice that the code compares with nil is an option, and
  \<open>uint64\<close> counters and \<open>int64\<close> totals are words.  What the operating system, the network, the clock and
  the native sides answer is a parameter: a record of functions from the calls so far to the answer,
  so a property over all such records covers all their behaviours.  Every definition is executable.

  The language and its library.  \<open>Go_Strings\<close> (UTF-8, case folding, splitting), \<open>Utf8_Facts\<close>, \<open>Go_Time\<close>
  (RFC 3339), \<open>Go_Path\<close> and \<open>Go_Path_Match\<close> (\<open>path\<close>), \<open>Sha256\<close>, \<open>Json\<close>, \<open>Json_Parse\<close> and \<open>Json_Roundtrip\<close>
  (\<open>encoding/json\<close>), \<open>Windows_Command\<close> (\<open>syscall.EscapeArg\<close> and the splitting of a command line into
  \<open>os.Args\<close>).

  Protocol.  \<open>Protocol_Types\<close>, \<open>Protocol_Request\<close>, \<open>Protocol_Result\<close> and \<open>Protocol_Records\<close> hold the records of
  \<open>protocol/v1\<close>, their validation, binding, finalization and canonical form; \<open>Strict_Json\<close> and
  \<open>Protocol_Decode\<close> their strict decoders (\<open>protocol/v1/decode.go\<close>, \<open>internal/strictjson\<close>), with the agreement
  of both decoders in \<open>Strict_Facts\<close> and the contract between encoder and decoder, a locale, in
  \<open>Codec_Facts\<close>.  \<open>Artifact_Pattern\<close> is the glob matcher (\<open>internal/artifactpattern\<close>), \<open>Output_Capture\<close> the bounded
  capture (\<open>internal/outputcapture\<close>), \<open>Ipc_Frame\<close> the framing (\<open>internal/ipcframe\<close>).  \<open>Protocol_Properties\<close> and
  \<open>Codec_Properties\<close> show that accepted paths stay confined, that a bound result is within its request,
  that records survive their encoding, and that the token loop of the decoder ends.

  Policy.  \<open>Platform_Path\<close> (\<open>internal/platformpath\<close>, its order a locale), \<open>Install_Config\<close>
  (\<open>internal/installconfig\<close>), \<open>Workload_Env\<close> (\<open>internal/workloadenv\<close>) and \<open>Execution_Policy\<close>
  (\<open>internal/brokerproto\<close>, \<open>internal/executionpolicy\<close>, \<open>internal/shellinvoke\<close>).  \<open>Policy_Properties\<close> shows that an
  authorized plan takes its authority from the installation only and that roots do not overlap, which on
  Linux means that they share no path; on Windows two roots that differ in a letter whose case folding
  and lower case disagree can pass the check and share one (\<open>windows_equal_roots_differ\<close>).

  Execution.  \<open>Execution_Run\<close> is the foreground life of a command (\<open>internal/executionrun/run.go\<close>) over every
  behaviour of launcher, process, timer and collector; \<open>Background\<close> is the registry of background processes
  (\<open>background.go\<close>) as a step relation over every interleaving of requests, monitors and timers, and
  one request among the others: its operation on the registry (record \<open>Registry\<close>: the state it finds and
  what the other goroutines do between its steps), what it did, and its answer.  \<open>Run\<close> joins both kinds
  of request, and its effects are what it did to processes, collectors and the registry.
  \<open>Run_Facts\<close> and \<open>Background_Facts\<close> carry the invariants, \<open>Run_Properties\<close> and \<open>Background_Properties\<close> what follows.
  \<open>Background_Dispatch\<close> shows that a request of its own does nothing but what its plan allows, that a stop
  has returned when its steps are over, and that what a request does is a run of the relation whenever what
  the others do is; \<open>System_Facts\<close> with \<open>System_Properties\<close> join authorization, run and report.

  Connections.  \<open>Broker_Wire\<close> is both ends of the response stream, \<open>Broker_Session\<close> the two callers
  (\<open>internal/brokersession\<close>, \<open>internal/controlclient\<close>).  \<open>Wire_Facts\<close>, \<open>Wire_Exchange\<close>, \<open>Wire_Delivery\<close> and
  \<open>Session_Facts\<close> follow the calls; \<open>Session_Properties\<close> and \<open>Session_Liveness\<close> show that what the client
  publishes is what the broker ran or fails with the reason the broker had (\<open>refusal\<close>), that nothing
  happens on the workstation that was not authorized, that resources are given back, and that requests
  are answered.

  Installation.  \<open>Install_Plan\<close> derives the protected paths (\<open>internal/installplan\<close>).  \<open>Install_Host\<close> is the host
  with its events and the locale \<open>lease\<close>: what a provisioning acquired is in its lease, and closing
  the lease releases exactly that, in reverse.  Its interpretations are the leases of
  \<open>Account_Provision\<close> (\<open>internal/accountprovision\<close>), \<open>Filesystem_Provision\<close> (\<open>internal/filesystemprovision\<close>),
  \<open>Install_Root\<close> (\<open>internal/platform/windows/installroot\<close>), \<open>Service_Provision\<close> (\<open>serviceinstall\<close> and \<open>runnerservice\<close>
  below \<open>internal/platform/windows\<close>), \<open>Runner_Registration\<close> (\<open>internal/runnerregistration\<close>) and, composed of these,
  the transaction of \<open>Installer\<close> and \<open>Install_Transaction\<close> (\<open>internal/platform/windows/installer\<close>).
  \<open>Install_State\<close> is what is written into the root (\<open>internal/installstate\<close>), with every file that was
  created and whether it was verified, \<open>Install_Metadata\<close> the record the
  doctor and the uninstaller read (\<open>internal/installmetadata\<close>), \<open>Service_Policy\<close> what a service must look
  like.  \<open>Install_Facts\<close> and \<open>Install_Stages\<close> prove the contract stage by stage.  \<open>Install_Properties\<close>,
  \<open>Service_Properties\<close> and \<open>Installer_Properties\<close> show that protected paths are outside every workload root,
  that a failed installation is undone, that a successful one owns exactly what it acquired, what
  a commit can leave behind, that receipts tell what was written, and that the command line of a service
  starts the program it names.

  Samples.  \<open>Samples\<close>, \<open>Run_Samples\<close>, \<open>Codec_Samples\<close> and \<open>Installer_Samples\<close> hold concrete inputs at which the
  properties are exercised.

  Bounds and fuel.  The token loop of the decoder takes its steps from a fuel of two per byte and two
  more; without fuel it answers \<open>OutOfFuel\<close>, which is not an answer of the code, and \<open>Codec_Properties\<close> proves
  that this never happens and that more fuel changes nothing; a stop takes at most five steps after its
  lookup, and \<open>Background_Dispatch\<close> proves that it has then returned; the sequence of stages, the reading loops of the
  wire and the glob recursion are total functions with their measures.  Only the background
  processes are a relation, because their order is not determined.

  Not modelled, and why: the launchers, sockets, named pipes, security descriptors, handles and account
  calls below \<open>internal/platform\<close> are calls of the operating system behind the interfaces above, and so
  parameters (the native accounts and file system of \<open>nativeDependencies\<close> may fail to open, and a
  convergence may answer a change together with an error); the storage of the runner (\<open>runnerstore\<close>) is one
  resource of the host; a stop waits for the process or the end of its context, and a context that never ends
  is not a case of its own; the Linux installer,
  the doctors and uninstallers drive commands of the host; \<open>internal/githubcontrol\<close> is HTTP to a service;
  \<open>internal/runnerpackage\<close> reads archives through third formats of the library; \<open>internal/publicsafety\<close>
  and the entry points below \<open>cmd\<close>, but for the arguments of the broker, read flags and files.  The clearing of
  buffers and the copying of slices are the identity on values, mutexes make operations
  atomic, and a nil receiver, which no caller passes, is left out.
\<close>

end
